(* ===== verification/Prelude.thy ===== *)
theory Prelude
  imports Main "HOL-Library.Finite_Map"
begin

text \<open>
  Shared ground of the development: Go's error values and results, the standard-library string
  functions the program calls (package \<open>strings\<close>, \<open>strconv\<close>, \<open>encoding/hex\<close>,
  \<open>encoding/base64\<close>), 64-bit signed arithmetic, and the generic lemmas about them.

  A Go \<open>string\<close> is a sequence of bytes, here a HOL \<open>string\<close> (a list of 8-bit
  characters). \<open>strings.TrimSpace\<close> and \<open>strings.Fields\<close> know the UTF-8 encodings of
  all Unicode space characters; \<open>strings.ToLower\<close>, \<open>ToUpper\<close> and \<open>EqualFold\<close>
  are modelled on ASCII letters, other bytes are left as they are.
\<close>

section \<open>Collections\<close>

named_theorems res_simps \<open>results and their sequencing\<close>
named_theorems str_simps \<open>string functions\<close>

section \<open>Errors and results\<close>

text \<open>
  An error is its constant text (\<open>errors.New\<close>) or a format string with its arguments and the
  errors it wraps or prints (\<open>fmt.Errorf\<close>); formatting is not carried out. A panic is kept apart:
  the HTTP server recovers it and the operation has no further effect.
\<close>

datatype err = ErrNew string | Errorf string "string list" "err list" | GoPanic string

type_synonym 'a res = "err + 'a"

definition bindR :: "'a res \<Rightarrow> ('a \<Rightarrow> 'b res) \<Rightarrow> 'b res" where
  "bindR r f = (case r of Inl e \<Rightarrow> Inl e | Inr v \<Rightarrow> f v)"

definition guardR :: "bool \<Rightarrow> err \<Rightarrow> unit res" where
  "guardR ok e = (if ok then Inr () else Inl e)"

lemma bindR_Inl [simp, res_simps]: "bindR (Inl e) f = Inl e"
  by (simp add: bindR_def)

lemma bindR_Inr [simp, res_simps]: "bindR (Inr v) f = f v"
  by (simp add: bindR_def)

lemma bindR_eq_Inr [simp]: "bindR r f = Inr w \<longleftrightarrow> (\<exists>v. r = Inr v \<and> f v = Inr w)"
  by (cases r) auto

lemma bindR_eq_Inl: "bindR r f = Inl e \<longleftrightarrow> r = Inl e \<or> (\<exists>v. r = Inr v \<and> f v = Inl e)"
  by (cases r) auto

lemma guardR_True [simp, res_simps]: "guardR True e = Inr ()"
  by (simp add: guardR_def)

lemma guardR_False [simp, res_simps]: "guardR False e = Inl e"
  by (simp add: guardR_def)

lemma guardR_eq_Inr [simp]: "guardR ok e = Inr u \<longleftrightarrow> ok"
  by (simp add: guardR_def)

lemma guardR_eq_Inl [simp]: "guardR ok e = Inl e' \<longleftrightarrow> \<not> ok \<and> e' = e"
  by (auto simp: guardR_def)

section \<open>Signed 64-bit arithmetic\<close>

text \<open>
  Go's \<open>int\<close> (on the 64-bit targets the program supports) and \<open>int64\<close>: values are kept as
  \<open>int\<close> and every addition that can leave the range is wrapped explicitly.
\<close>

definition wrap64 :: "int \<Rightarrow> int" where
  "wrap64 x = (x + 2 ^ 63) mod 2 ^ 64 - 2 ^ 63"

definition add64 :: "int \<Rightarrow> int \<Rightarrow> int" where
  "add64 a b = wrap64 (a + b)"

abbreviation int64_range :: "int \<Rightarrow> bool" where
  "int64_range x \<equiv> - (2 ^ 63) \<le> x \<and> x < 2 ^ 63"

lemma wrap64_id: "int64_range x \<Longrightarrow> wrap64 x = x"
  by (simp add: wrap64_def)

lemma wrap64_range: "int64_range (wrap64 x)"
  by (simp add: wrap64_def)

lemma add64_exact: "int64_range (a + b) \<Longrightarrow> add64 a b = a + b"
  by (simp add: add64_def wrap64_id)

section \<open>Package strings\<close>

definition has_prefix :: "string \<Rightarrow> string \<Rightarrow> bool" where
  "has_prefix s p \<longleftrightarrow> take (length p) s = p"

definition has_suffix :: "string \<Rightarrow> string \<Rightarrow> bool" where
  "has_suffix s p \<longleftrightarrow> has_prefix (rev s) (rev p)"

definition trim_prefix :: "string \<Rightarrow> string \<Rightarrow> string" where
  "trim_prefix s p = (if has_prefix s p then drop (length p) s else s)"

definition trim_suffix :: "string \<Rightarrow> string \<Rightarrow> string" where
  "trim_suffix s p = (if has_suffix s p then take (length s - length p) s else s)"

definition contains_any :: "string \<Rightarrow> string \<Rightarrow> bool" where
  "contains_any s chars \<longleftrightarrow> list_ex (\<lambda>c. c \<in> set chars) s"

lemma has_prefix_append: "has_prefix s p \<longleftrightarrow> (\<exists>t. s = p @ t)"
  by (metis append_eq_conv_conj append_take_drop_id has_prefix_def)

lemma has_prefix_self [simp]: "has_prefix (p @ t) p"
  by (simp add: has_prefix_def)

lemma trim_prefix_append [simp]: "trim_prefix (p @ t) p = t"
  by (simp add: trim_prefix_def)

lemma has_suffix_append: "has_suffix s p \<longleftrightarrow> (\<exists>t. s = t @ p)"
  unfolding has_suffix_def has_prefix_append
  by (metis rev_append rev_rev_ident)

lemma contains_any_append [simp]:
  "contains_any (s @ t) cs \<longleftrightarrow> contains_any s cs \<or> contains_any t cs"
  by (simp add: contains_any_def)

subsection \<open>TrimSpace and Fields\<close>

text \<open>The UTF-8 encodings of the characters with the Unicode property White_Space.\<close>

definition space_seqs :: "string list" where
  "space_seqs =
    [[CHR 0x20], [CHR 0x09], [CHR 0x0A], [CHR 0x0B], [CHR 0x0C], [CHR 0x0D],
     [CHR 0xC2, CHR 0x85], [CHR 0xC2, CHR 0xA0], [CHR 0xE1, CHR 0x9A, CHR 0x80],
     [CHR 0xE2, CHR 0x80, CHR 0x80], [CHR 0xE2, CHR 0x80, CHR 0x81],
     [CHR 0xE2, CHR 0x80, CHR 0x82], [CHR 0xE2, CHR 0x80, CHR 0x83],
     [CHR 0xE2, CHR 0x80, CHR 0x84], [CHR 0xE2, CHR 0x80, CHR 0x85],
     [CHR 0xE2, CHR 0x80, CHR 0x86], [CHR 0xE2, CHR 0x80, CHR 0x87],
     [CHR 0xE2, CHR 0x80, CHR 0x88], [CHR 0xE2, CHR 0x80, CHR 0x89],
     [CHR 0xE2, CHR 0x80, CHR 0x8A], [CHR 0xE2, CHR 0x80, CHR 0xA8],
     [CHR 0xE2, CHR 0x80, CHR 0xA9], [CHR 0xE2, CHR 0x80, CHR 0xAF],
     [CHR 0xE2, CHR 0x81, CHR 0x9F], [CHR 0xE3, CHR 0x80, CHR 0x80]]"

definition leading_seq :: "string list \<Rightarrow> string \<Rightarrow> nat" where
  "leading_seq ws s =
     (case find (\<lambda>w. w \<noteq> [] \<and> has_prefix s w) ws of None \<Rightarrow> 0 | Some w \<Rightarrow> length w)"

function trim_seqs :: "string list \<Rightarrow> string \<Rightarrow> string" where
  "trim_seqs ws s = (if leading_seq ws s = 0 \<or> s = [] then s
                     else trim_seqs ws (drop (leading_seq ws s) s))"
  by pat_completeness auto
termination
  by (relation "measure (\<lambda>(ws, s). length s)") auto

declare trim_seqs.simps [simp del]

definition trim_space :: "string \<Rightarrow> string" where
  "trim_space s = rev (trim_seqs (map rev space_seqs) (rev (trim_seqs space_seqs s)))"

fun until_seq :: "string list \<Rightarrow> string \<Rightarrow> string \<times> string" where
  "until_seq ws [] = ([], [])"
| "until_seq ws (c # s) =
     (if leading_seq ws (c # s) = 0 then (let (a, b) = until_seq ws s in (c # a, b))
      else ([], c # s))"

lemma until_seq_length: "length (snd (until_seq ws s)) \<le> length s"
  by (induction s) (auto simp: Let_def split: prod.splits)

lemma trim_seqs_length: "length (trim_seqs ws s) \<le> length s"
  by (induction ws s rule: trim_seqs.induct)
    (subst trim_seqs.simps, auto intro: le_trans)

function fields :: "string \<Rightarrow> string list" where
  "fields s =
     (case trim_seqs space_seqs s of [] \<Rightarrow> []
      | c # t \<Rightarrow> (c # fst (until_seq space_seqs t)) # fields (snd (until_seq space_seqs t)))"
  by pat_completeness auto
termination
proof (relation "measure length")
  fix s c t
  assume "trim_seqs space_seqs s = c # t"
  then have "length t < length s"
    using trim_seqs_length [of space_seqs s] by simp
  then show "(snd (until_seq space_seqs t), s) \<in> measure length"
    using until_seq_length [of space_seqs t] by simp
qed simp

declare fields.simps [simp del]


subsection \<open>Facts about trimming\<close>

lemma trim_seqs_Nil [simp]: "trim_seqs ws [] = []"
  by (simp add: trim_seqs.simps)

lemma trim_seqs_fixed: "leading_seq ws (trim_seqs ws s) = 0 \<or> trim_seqs ws s = []"
  by (induction ws s rule: trim_seqs.induct) (metis trim_seqs.simps)

lemma trim_seqs_id: "leading_seq ws s = 0 \<Longrightarrow> trim_seqs ws s = s"
  by (simp add: trim_seqs.simps)

lemma trim_seqs_idem [simp]: "trim_seqs ws (trim_seqs ws s) = trim_seqs ws s"
  using trim_seqs_fixed [of ws s] by (auto simp: trim_seqs_id)

lemma trim_seqs_suffix: "\<exists>p. s = p @ trim_seqs ws s"
proof (induction ws s rule: trim_seqs.induct)
  case (1 ws s)
  show ?case
  proof (cases "leading_seq ws s = 0 \<or> s = []")
    case True
    then show ?thesis by (simp add: trim_seqs.simps [of ws s])
  next
    case False
    with "1.IH" obtain p where
      "drop (leading_seq ws s) s = p @ trim_seqs ws (drop (leading_seq ws s) s)" by blast
    then have "s = (take (leading_seq ws s) s @ p) @ trim_seqs ws (drop (leading_seq ws s) s)"
      by (metis append.assoc append_take_drop_id)
    with False show ?thesis by (metis trim_seqs.simps)
  qed
qed

text \<open>No sequence of the set starts a prefix of a text that starts with none.\<close>

lemma find_None_mono:
  "find P xs = None \<Longrightarrow> (\<And>x. Q x \<Longrightarrow> P x) \<Longrightarrow> find Q xs = None"
  by (auto simp: find_None_iff)

lemma leading_seq_0_iff:
  "leading_seq ws s = 0 \<longleftrightarrow> find (\<lambda>w. w \<noteq> [] \<and> has_prefix s w) ws = None"
proof (cases "find (\<lambda>w. w \<noteq> [] \<and> has_prefix s w) ws")
  case (Some a)
  then have "a \<noteq> []" by (auto simp: find_Some_iff)
  with Some show ?thesis by (simp add: leading_seq_def)
qed (simp add: leading_seq_def)

lemma leading_seq_take: "leading_seq ws (p @ t) = 0 \<Longrightarrow> leading_seq ws p = 0"
  unfolding leading_seq_0_iff
  by (erule find_None_mono) (auto simp: has_prefix_append)

lemma leading_seq_Nil [simp]: "leading_seq ws [] = 0"
  by (auto simp: leading_seq_0_iff find_None_iff has_prefix_def)

lemma trim_space_Nil [simp]: "trim_space [] = []"
  by (simp add: trim_space_def)

lemma trim_space_left: "leading_seq space_seqs (trim_space s) = 0"
proof -
  let ?l = "trim_seqs space_seqs s"
  obtain p where "rev ?l = p @ trim_seqs (map rev space_seqs) (rev ?l)"
    using trim_seqs_suffix by blast
  then have "?l = trim_space s @ rev p"
    unfolding trim_space_def by (metis rev_append rev_rev_ident)
  moreover have "leading_seq space_seqs ?l = 0"
    using trim_seqs_fixed [of space_seqs s] by auto
  ultimately show ?thesis by (metis leading_seq_take)
qed

lemma trim_space_idem [simp]: "trim_space (trim_space s) = trim_space s"
proof -
  have "trim_seqs space_seqs (trim_space s) = trim_space s"
    using trim_space_left by (rule trim_seqs_id)
  then show ?thesis by (simp add: trim_space_def)
qed

text \<open>A text whose first and last byte are printable ASCII is its own trimming.\<close>

definition graphic :: "char \<Rightarrow> bool" where
  "graphic c \<longleftrightarrow> 33 \<le> (of_char c :: nat) \<and> (of_char c :: nat) \<le> 126"

lemma graphic_not_space_start: "graphic c \<Longrightarrow> w \<in> set space_seqs \<Longrightarrow> hd w \<noteq> c"
  by (auto simp: graphic_def space_seqs_def)

lemma graphic_not_space_end: "graphic c \<Longrightarrow> w \<in> set space_seqs \<Longrightarrow> last w \<noteq> c"
  by (auto simp: graphic_def space_seqs_def)

lemma leading_seq_graphic: "graphic c \<Longrightarrow> leading_seq space_seqs (c # s) = 0"
  unfolding leading_seq_0_iff find_None_iff
  using graphic_not_space_start by (fastforce simp: has_prefix_append neq_Nil_conv)

lemma leading_seq_rev_graphic: "graphic c \<Longrightarrow> leading_seq (map rev space_seqs) (c # s) = 0"
  unfolding leading_seq_0_iff find_None_iff
proof (intro notI, elim bexE exE conjE)
  fix w assume g: "graphic c" and w: "w \<in> set (map rev space_seqs)" "w \<noteq> []"
    and p: "has_prefix (c # s) w"
  from p w(2) have "hd w = c" by (cases w) (auto simp: has_prefix_append)
  moreover from w obtain v where "v \<in> set space_seqs" "w = rev v" by auto
  ultimately show False using graphic_not_space_end [OF g] w(2) by (auto simp: hd_rev)
qed

lemma trim_space_graphic:
  assumes "s \<noteq> []" "graphic (hd s)" "graphic (last s)"
  shows "trim_space s = s"
proof -
  have l: "trim_seqs space_seqs s = s"
    using assms by (cases s) (auto intro: trim_seqs_id leading_seq_graphic)
  have "trim_seqs (map rev space_seqs) (rev s) = rev s"
  proof (cases "rev s")
    case (Cons c t)
    with assms have "graphic c" by (metis hd_rev list.sel(1))
    with Cons show ?thesis by (auto intro: trim_seqs_id leading_seq_rev_graphic)
  qed simp
  with l show ?thesis by (simp add: trim_space_def)
qed

subsection \<open>Case mapping, splitting, joining\<close>

definition lower_char :: "char \<Rightarrow> char" where
  "lower_char c = (let n = (of_char c :: nat) in
     if 65 \<le> n \<and> n \<le> 90 then char_of (n + 32) else c)"

definition upper_char :: "char \<Rightarrow> char" where
  "upper_char c = (let n = (of_char c :: nat) in
     if 97 \<le> n \<and> n \<le> 122 then char_of (n - 32) else c)"

definition to_lower :: "string \<Rightarrow> string" where
  "to_lower s = map lower_char s"

definition to_upper :: "string \<Rightarrow> string" where
  "to_upper s = map upper_char s"

definition equal_fold :: "string \<Rightarrow> string \<Rightarrow> bool" where
  "equal_fold s t \<longleftrightarrow> to_lower s = to_lower t"

lemma lower_char_idem [simp]: "lower_char (lower_char c) = lower_char c"
  by (auto simp: lower_char_def Let_def)

lemma to_lower_idem [simp]: "to_lower (to_lower s) = to_lower s"
  by (simp add: to_lower_def)

lemma to_lower_Nil [simp]: "to_lower [] = []"
  by (simp add: to_lower_def)

lemma to_lower_eq_Nil [simp]: "to_lower s = [] \<longleftrightarrow> s = []"
  by (simp add: to_lower_def)

text \<open>Lowering letters neither makes nor removes white space.\<close>

lemma trim_space_right: "leading_seq (map rev space_seqs) (rev (trim_space s)) = 0"
  using trim_seqs_fixed [of "map rev space_seqs" "rev (trim_seqs space_seqs s)"]
  by (auto simp: trim_space_def)

lemma trim_space_id_iff:
  "trim_space s = s \<longleftrightarrow>
     leading_seq space_seqs s = 0 \<and> leading_seq (map rev space_seqs) (rev s) = 0"
proof
  assume "trim_space s = s"
  with trim_space_left [of s] trim_space_right [of s]
  show "leading_seq space_seqs s = 0 \<and> leading_seq (map rev space_seqs) (rev s) = 0" by simp
qed (simp add: trim_space_def trim_seqs_id)

definition letterless :: "string \<Rightarrow> bool" where
  "letterless w \<longleftrightarrow> list_all (\<lambda>c. (of_char c :: nat) < 65 \<or> 122 < (of_char c :: nat)) w"

lemma letterless_spaces: "list_all letterless space_seqs"
  by (simp add: space_seqs_def letterless_def)

lemma lower_char_letterless:
  "(of_char d :: nat) < 65 \<or> 122 < (of_char d :: nat) \<Longrightarrow> lower_char c = d \<longleftrightarrow> c = d"
  by (auto simp: lower_char_def Let_def)

lemma has_prefix_lower:
  "letterless w \<Longrightarrow> has_prefix (map lower_char s) w \<longleftrightarrow> has_prefix s w"
proof (induction w arbitrary: s)
  case (Cons d w)
  then show ?case
    using lower_char_letterless [of d]
    by (cases s) (auto simp: has_prefix_def letterless_def)
qed (simp add: has_prefix_def)

lemma leading_seq_lower:
  "list_all letterless ws \<Longrightarrow> leading_seq ws (map lower_char s) = leading_seq ws s"
proof -
  assume "list_all letterless ws"
  then have "find (\<lambda>w. w \<noteq> [] \<and> has_prefix (map lower_char s) w) ws
           = find (\<lambda>w. w \<noteq> [] \<and> has_prefix s w) ws"
    by (induction ws) (auto simp: has_prefix_lower)
  then show ?thesis by (simp add: leading_seq_def)
qed

lemma trim_to_lower_trim [simp]: "trim_space (to_lower (trim_space s)) = to_lower (trim_space s)"
proof -
  have "list_all letterless (map rev space_seqs)"
    using letterless_spaces by (simp add: list_all_iff letterless_def)
  then show ?thesis
    using trim_space_left [of s] trim_space_right [of s]
    by (simp add: trim_space_id_iff to_lower_def flip: rev_map)
      (simp add: rev_map leading_seq_lower letterless_spaces)
qed

fun split_on :: "char \<Rightarrow> string \<Rightarrow> string list" where
  "split_on c [] = [[]]"
| "split_on c (x # xs) =
     (if x = c then [] # split_on c xs
      else (case split_on c xs of [] \<Rightarrow> [[x]] | y # ys \<Rightarrow> (x # y) # ys))"

fun join_with :: "string \<Rightarrow> string list \<Rightarrow> string" where
  "join_with sep [] = []"
| "join_with sep [x] = x"
| "join_with sep (x # y # ys) = x @ sep @ join_with sep (y # ys)"

lemma split_on_not_Nil [simp]: "split_on c s \<noteq> []"
  by (induction s) (auto split: list.splits)

lemma join_split: "join_with [c] (split_on c s) = s"
proof (induction s)
  case (Cons x xs)
  then show ?case
    by (cases "split_on c xs"; cases "tl (split_on c xs)") auto
qed simp

lemma split_on_no_sep: "x \<in> set (split_on c s) \<Longrightarrow> c \<notin> set x"
  by (induction s arbitrary: x) (auto split: list.splits if_splits)

lemma split_on_absent: "c \<notin> set s \<Longrightarrow> split_on c s = [s]"
  by (induction s) auto

lemma split_on_append: "c \<notin> set s \<Longrightarrow> split_on c (s @ c # t) = s # split_on c t"
  by (induction s) auto

definition trim_char :: "char \<Rightarrow> string \<Rightarrow> string" where
  "trim_char c s = rev (dropWhile (\<lambda>x. x = c) (rev (dropWhile (\<lambda>x. x = c) s)))"


section \<open>Finite maps\<close>

text \<open>
  Go's maps are finite maps. \<open>fmprune\<close> keeps the entries a predicate accepts (a \<open>range\<close> loop
  that deletes), \<open>fmcount\<close> is \<open>len\<close>.
\<close>

definition fmprune :: "('k \<Rightarrow> 'v \<Rightarrow> bool) \<Rightarrow> ('k, 'v) fmap \<Rightarrow> ('k, 'v) fmap" where
  "fmprune keep m =
     fmfilter (\<lambda>k. case fmlookup m k of None \<Rightarrow> False | Some v \<Rightarrow> keep k v) m"

definition fmcount :: "('k, 'v) fmap \<Rightarrow> nat" where
  "fmcount m = fcard (fmdom m)"

lemma fmlookup_prune [simp]:
  "fmlookup (fmprune keep m) k =
     (case fmlookup m k of None \<Rightarrow> None | Some v \<Rightarrow> if keep k v then Some v else None)"
  by (simp add: fmprune_def split: option.splits)

lemma fmcount_empty [simp]: "fmcount fmempty = 0"
  by (simp add: fmcount_def)

lemma fmcount_upd: "fmcount (fmupd k v m) = (if k |\<in>| fmdom m then fmcount m else Suc (fmcount m))"
  by (auto simp: fmcount_def fcard_finsert_if finsert_absorb)

lemma fmcount_drop: "fmcount (fmdrop k m) = (if k |\<in>| fmdom m then fmcount m - 1 else fmcount m)"
  by (auto simp: fmcount_def fcard_fminus_fsingleton_if)

lemma fmcount_prune: "fmcount (fmprune keep m) \<le> fmcount m"
  unfolding fmcount_def
  by (rule fcard_mono) (auto simp: fmprune_def)

lemma fmcount_0_iff: "fmcount m = 0 \<longleftrightarrow> m = fmempty"
proof
  assume "fmcount m = 0"
  then have "fmdom m = {||}" by (simp add: fmcount_def)
  then show "m = fmempty" by (auto intro!: fmap_ext simp: fmdom_notD)
qed simp


section \<open>Encodings of bytes\<close>

text \<open>A byte is a \<open>nat\<close> below 256. Hexadecimal, and base64 without padding (URL alphabet).\<close>

definition hex_digit :: "nat \<Rightarrow> char" where
  "hex_digit n = (''0123456789abcdef'' ! (n mod 16))"

fun hex_encode :: "nat list \<Rightarrow> string" where
  "hex_encode [] = []"
| "hex_encode (b # bs) = hex_digit (b div 16) # hex_digit b # hex_encode bs"

definition url_alphabet :: string where
  "url_alphabet = ''ABCDEFGHIJKLMNOPQRSTUVWXYZabcdefghijklmnopqrstuvwxyz0123456789-_''"

definition b64_char :: "nat \<Rightarrow> char" where
  "b64_char n = url_alphabet ! (n mod 64)"

fun base64_raw_url :: "nat list \<Rightarrow> string" where
  "base64_raw_url [] = []"
| "base64_raw_url [a] = [b64_char (a div 4), b64_char (a * 16)]"
| "base64_raw_url [a, b] =
     [b64_char (a div 4), b64_char (a * 16 + b div 16), b64_char (b * 4)]"
| "base64_raw_url (a # b # c # bs) =
     [b64_char (a div 4), b64_char (a * 16 + b div 16), b64_char (b * 4 + c div 64), b64_char c]
     @ base64_raw_url bs"

lemma hex_encode_length: "length (hex_encode bs) = 2 * length bs"
  by (induction bs) auto

lemma hex_digit_inj: "m < 16 \<Longrightarrow> n < 16 \<Longrightarrow> hex_digit m = hex_digit n \<Longrightarrow> m = n"
  unfolding hex_digit_def
  by (subst (asm) nth_eq_iff_index_eq) auto

lemma b64_char_inj: "m < 64 \<Longrightarrow> n < 64 \<Longrightarrow> b64_char m = b64_char n \<Longrightarrow> m = n"
  unfolding b64_char_def url_alphabet_def
  by (subst (asm) nth_eq_iff_index_eq) auto


section \<open>Decimal numbers (package strconv)\<close>

definition digit_char :: "nat \<Rightarrow> char" where
  "digit_char n = char_of (48 + n mod 10)"

definition char_digit :: "char \<Rightarrow> nat option" where
  "char_digit c = (let n = (of_char c :: nat) in if 48 \<le> n \<and> n \<le> 57 then Some (n - 48) else None)"

fun digits10 :: "nat \<Rightarrow> string" where
  "digits10 n = (if n < 10 then [digit_char n] else digits10 (n div 10) @ [digit_char n])"

declare digits10.simps [simp del]

definition itoa :: "int \<Rightarrow> string" where
  "itoa i = (if i < 0 then CHR ''-'' # digits10 (nat (- i)) else digits10 (nat i))"

fun parse_digits :: "nat \<Rightarrow> string \<Rightarrow> nat option" where
  "parse_digits acc [] = Some acc"
| "parse_digits acc (c # s) =
     (case char_digit c of None \<Rightarrow> None | Some d \<Rightarrow> parse_digits (10 * acc + d) s)"

definition parse_nat :: "string \<Rightarrow> nat option" where
  "parse_nat s = (if s = [] then None else parse_digits 0 s)"

text \<open>\<open>strconv.Atoi\<close>, and \<open>strconv.ParseInt\<close> in base 10 with 64 bits.\<close>

definition atoi :: "string \<Rightarrow> int option" where
  "atoi s =
     (let (neg, t) = (case s of [] \<Rightarrow> (False, [])
                      | c # r \<Rightarrow> if c = CHR ''-'' then (True, r)
                                 else if c = CHR ''+'' then (False, r) else (False, s))
      in case parse_nat t of
           None \<Rightarrow> None
         | Some n \<Rightarrow> (let i = (if neg then - int n else int n)
                      in if int64_range i then Some i else None))"

lemma char_digit_digit_char [simp]: "char_digit (digit_char n) = Some (n mod 10)"
proof -
  have "n mod 10 < 10" by simp
  then have "(48 + n mod 10) mod 256 = 48 + n mod 10" by simp
  then show ?thesis by (simp add: char_digit_def digit_char_def Let_def)
qed

lemma parse_digits_append:
  "parse_digits acc (s @ t) = (case parse_digits acc s of None \<Rightarrow> None | Some n \<Rightarrow> parse_digits n t)"
  by (induction acc s rule: parse_digits.induct) (auto split: option.splits)

lemma parse_digits_digits10: "parse_digits 0 (digits10 n) = Some n"
proof (induction n rule: digits10.induct)
  case (1 n)
  show ?case
  proof (cases "n < 10")
    case True
    then show ?thesis by (simp add: digits10.simps [of n])
  next
    case False
    with 1 show ?thesis by (simp add: digits10.simps [of n] parse_digits_append)
  qed
qed

lemma digits10_not_Nil [simp]: "digits10 n \<noteq> []"
  by (simp add: digits10.simps [of n])

lemma parse_nat_digits10 [simp]: "parse_nat (digits10 n) = Some n"
  by (simp add: parse_nat_def parse_digits_digits10)

lemma digits10_digits: "c \<in> set (digits10 n) \<Longrightarrow> char_digit c \<noteq> None"
  by (induction n rule: digits10.induct) (subst (asm) digits10.simps, auto split: if_splits)

lemma digits10_hd_no_sign: "hd (digits10 n) \<noteq> CHR ''-'' \<and> hd (digits10 n) \<noteq> CHR ''+''"
  using digits10_digits [of "hd (digits10 n)" n]
  by (auto simp: char_digit_def)

lemma atoi_itoa:
  assumes "int64_range i"
  shows "atoi (itoa i) = Some i"
proof (cases "i < 0")
  case True
  then show ?thesis using assms by (simp add: atoi_def itoa_def Let_def)
next
  case False
  obtain c r where cr: "digits10 (nat i) = c # r" by (cases "digits10 (nat i)") auto
  then have "c \<noteq> CHR ''-''" "c \<noteq> CHR ''+''" using digits10_hd_no_sign [of "nat i"] by auto
  moreover have "parse_nat (c # r) = Some (nat i)" using cr parse_nat_digits10 by metis
  ultimately show ?thesis using False assms cr by (simp add: atoi_def itoa_def Let_def)
qed

lemma digits10_inj: "digits10 m = digits10 n \<Longrightarrow> m = n"
  by (metis option.inject parse_nat_digits10)

lemma itoa_inj [simp]: "itoa i = itoa j \<longleftrightarrow> i = j"
proof
  assume eq: "itoa i = itoa j"
  have sign: "(hd (itoa k) = CHR ''-'') = (k < 0)" for k
    using digits10_hd_no_sign by (auto simp: itoa_def)
  with eq have "(i < 0) = (j < 0)" by metis
  with eq show "i = j" by (auto simp: itoa_def dest: digits10_inj split: if_splits)
qed simp

text \<open>\<open>net.JoinHostPort\<close>\<close>

definition join_host_port :: "string \<Rightarrow> string \<Rightarrow> string" where
  "join_host_port host port =
     (if CHR '':'' \<in> set host then ''['' @ host @ '']:'' @ port else host @ '':'' @ port)"

end
