(* ===== verification/Filepath.thy ===== *)
theory Filepath
  imports Prelude "HOL-Library.Sublist"
begin

text \<open>
  What the program uses of Go's \<open>path/filepath\<close> on Unix: \<open>Clean\<close>, \<open>Join\<close>, \<open>Dir\<close>, \<open>Base\<close>, \<open>IsAbs\<close>. A path is
  taken apart into its segments; \<open>Clean\<close> keeps a stack of them.
\<close>

section \<open>Operations\<close>

abbreviation segs :: "string \<Rightarrow> string list" where
  "segs \<equiv> split_on (CHR ''/'')"

abbreviation path_of :: "string list \<Rightarrow> string" where
  "path_of \<equiv> join_with ''/''"

definition IsAbs :: "string \<Rightarrow> bool" where
  "IsAbs p \<longleftrightarrow> has_prefix p ''/''"

text \<open>One segment on the stack, whose top is its head; \<open>..\<close> takes a segment off or, in a relative path, stays.\<close>

fun push_seg :: "bool \<Rightarrow> string list \<Rightarrow> string \<Rightarrow> string list" where
  "push_seg rooted st s =
     (if s = [] \<or> s = ''.'' then st
      else if s = ''..'' then
        (case st of
           [] \<Rightarrow> if rooted then [] else [''..'']
         | t # st' \<Rightarrow> if t = ''..'' then ''..'' # st else st')
      else s # st)"

definition clean_segs :: "bool \<Rightarrow> string list \<Rightarrow> string list" where
  "clean_segs rooted xs = rev (foldl (push_seg rooted) [] xs)"

definition Clean :: "string \<Rightarrow> string" where
  "Clean p =
     (if p = [] then ''.''
      else let rooted = IsAbs p; out = path_of (clean_segs rooted (segs p)) in
        if rooted then CHR ''/'' # out else if out = [] then ''.'' else out)"

text \<open>Everything before the last slash, and what follows it.\<close>

definition Dir :: "string \<Rightarrow> string" where
  "Dir p = (if CHR ''/'' \<in> set p then Clean (path_of (butlast (segs p)) @ ''/'') else ''.'')"

definition Base :: "string \<Rightarrow> string" where
  "Base p =
     (if p = [] then ''.''
      else let q = rev (dropWhile (\<lambda>c. c = CHR ''/'') (rev p)) in if q = [] then ''/'' else last (segs q))"

definition Join :: "string list \<Rightarrow> string" where
  "Join es = (let xs = filter (\<lambda>e. e \<noteq> []) es in if xs = [] then [] else Clean (path_of xs))"

section \<open>Clean paths\<close>

text \<open>A clean absolute path is a slash and plain segments.\<close>

definition plain :: "string \<Rightarrow> bool" where
  "plain s \<longleftrightarrow> s \<noteq> [] \<and> s \<noteq> ''.'' \<and> s \<noteq> ''..'' \<and> CHR ''/'' \<notin> set s"

definition absolute :: "string list \<Rightarrow> string" where
  "absolute xs = CHR ''/'' # path_of xs"

lemma push_plain [simp]: "plain s \<Longrightarrow> push_seg r st s = s # st"
  by (simp add: plain_def)

lemma push_empty [simp]: "push_seg r st [] = st"
  by simp

declare push_seg.simps [simp del]

lemma foldl_push_plain: "list_all plain xs \<Longrightarrow> foldl (push_seg r) st xs = rev xs @ st"
  by (induction xs arbitrary: st) auto

lemma clean_segs_plain: "list_all plain xs \<Longrightarrow> clean_segs r xs = xs"
  by (simp add: clean_segs_def foldl_push_plain)

lemma push_keeps:
  assumes "list_all plain st" "CHR ''/'' \<notin> set s"
  shows "list_all plain (push_seg True st s)"
  using assms by (cases st) (auto simp: push_seg.simps plain_def)

lemma foldl_keeps:
  "list_all plain st \<Longrightarrow> \<forall>s\<in>set xs. CHR ''/'' \<notin> set s \<Longrightarrow> list_all plain (foldl (push_seg True) st xs)"
  by (induction xs arbitrary: st) (auto simp: push_keeps)

lemma push_subset: "set (push_seg r st s) \<subseteq> insert s (set st) \<union> {''..''}"
  by (cases st) (auto simp: push_seg.simps)

lemma foldl_subset: "set (foldl (push_seg r) st xs) \<subseteq> set st \<union> set xs \<union> {''..''}"
proof (induction xs arbitrary: st)
  case (Cons x xs)
  then show ?case using push_subset [of r st x] Cons.IH [of "push_seg r st x"] by auto
qed auto

lemma Clean_absolute:
  assumes "IsAbs p" obtains xs where "Clean p = absolute xs" "list_all plain xs" "set xs \<subseteq> set (segs p)"
proof
  let ?xs = "clean_segs True (segs p)"
  show "Clean p = absolute ?xs" using assms by (auto simp: Clean_def absolute_def IsAbs_def has_prefix_append Let_def)
  show all: "list_all plain ?xs" using foldl_keeps [of "[]" "segs p"] split_on_no_sep by (fastforce simp: clean_segs_def)
  then have "''..'' \<notin> set ?xs" by (auto simp: list_all_iff plain_def)
  then show "set ?xs \<subseteq> set (segs p)" using foldl_subset [of True "[]" "segs p"] by (auto simp: clean_segs_def)
qed

lemma split_join: "xs \<noteq> [] \<Longrightarrow> list_all (\<lambda>s. c \<notin> set s) xs \<Longrightarrow> split_on c (join_with [c] xs) = xs"
  by (induction xs rule: induct_list012) (simp_all add: split_on_absent split_on_append)

lemmas segs_path = split_join [of _ "CHR ''/''"]

lemma plain_no_slash: "list_all plain xs \<Longrightarrow> list_all (\<lambda>s. CHR ''/'' \<notin> set s) xs"
  by (auto simp: list_all_iff plain_def)

lemma segs_absolute: "list_all plain xs \<Longrightarrow> segs (absolute xs) = [] # (if xs = [] then [[]] else xs)"
  by (simp add: absolute_def segs_path plain_no_slash)

lemma IsAbs_absolute [simp]: "IsAbs (absolute xs)"
  by (simp add: IsAbs_def absolute_def has_prefix_def)

lemma Clean_plain [simp]: "list_all plain xs \<Longrightarrow> Clean (absolute xs) = absolute xs"
  using segs_absolute [of xs]
  by (auto simp: Clean_def Let_def clean_segs_def foldl_push_plain absolute_def IsAbs_def has_prefix_def)

lemma Clean_idem: "IsAbs p \<Longrightarrow> Clean (Clean p) = Clean p"
  by (erule Clean_absolute) simp

lemma Clean_IsAbs: "IsAbs p \<Longrightarrow> IsAbs (Clean p)"
  by (erule Clean_absolute) simp

section \<open>The last segment\<close>

lemma split_on_join: "split_on c (a @ c # b) = split_on c a @ split_on c b"
  by (induction a) (auto split: list.splits)

lemma segs_last: "CHR ''/'' \<notin> set s \<Longrightarrow> segs (q @ CHR ''/'' # s) = segs q @ [s]"
  by (simp add: split_on_join split_on_absent)

lemma Clean_slash [simp]: "list_all plain xs \<Longrightarrow> Clean (absolute xs @ ''/'') = absolute xs"
proof -
  assume p: "list_all plain xs"
  have "segs (absolute xs @ ''/'') = segs (absolute xs) @ [[]]" by (simp add: split_on_join)
  then show ?thesis
    using p segs_absolute [OF p]
    by (simp add: Clean_def Let_def clean_segs_def foldl_push_plain absolute_def IsAbs_def has_prefix_def)
qed

text \<open>A segment below an absolute path.\<close>

definition below :: "string \<Rightarrow> string \<Rightarrow> string" where
  "below p s = p @ CHR ''/'' # s"

lemma Dir_below [simp]: "list_all plain xs \<Longrightarrow> plain s \<Longrightarrow> Dir (below (absolute xs) s) = absolute xs"
  by (simp add: Dir_def below_def segs_last plain_def join_split)

lemma Base_below [simp]: "plain s \<Longrightarrow> Base (below p s) = s"
proof -
  assume s: "plain s"
  then obtain t c where "s = t @ [c]" "c \<noteq> CHR ''/''" by (cases s rule: rev_cases) (auto simp: plain_def)
  then show ?thesis using segs_last [of s p] s by (simp add: Base_def below_def Let_def plain_def)
qed

lemma absolute_snoc: "absolute (xs @ [s]) = (if xs = [] then below [] s else below (absolute xs) s)"
  by (induction xs rule: induct_list012) (auto simp: absolute_def below_def)

lemma Dir_snoc [simp]:
  assumes "list_all plain xs" "plain s" shows "Dir (absolute (xs @ [s])) = absolute xs"
proof (cases "xs = []")
  case True
  have "Dir (below [] s) = Clean ''/''" using assms(2) by (simp add: Dir_def below_def plain_def split_on_absent)
  also have "Clean ''/'' = absolute []" using Clean_plain [of "[]"] by (simp add: absolute_def)
  finally show ?thesis using True absolute_snoc [of "[]" s] by simp
next
  case False
  then show ?thesis using assms by (simp add: absolute_snoc)
qed

lemma Base_snoc [simp]: "plain s \<Longrightarrow> Base (absolute (xs @ [s])) = s"
  by (simp add: absolute_snoc)

lemma Join_absolute [simp]:
  assumes "list_all plain xs" "list_all plain ys"
  shows "Join (absolute xs # ys) = absolute (xs @ ys)"
proof -
  have ne: "filter (\<lambda>e. e \<noteq> []) ys = ys" using assms(2) by (auto simp: list_all_iff plain_def filter_id_conv)
  have p: "path_of (absolute xs # ys) = (if ys = [] then absolute xs else absolute xs @ ''/'' @ path_of ys)"
    by (cases ys) auto
  have "segs (absolute xs @ ''/'' @ path_of ys) = segs (absolute xs) @ ys" if "ys \<noteq> []"
    using that assms(2) by (simp add: split_on_join segs_path plain_no_slash)
  then have "Clean (absolute xs @ ''/'' @ path_of ys) = absolute (xs @ ys)" if "ys \<noteq> []"
    using that assms segs_absolute [OF assms(1)]
    by (simp add: Clean_def Let_def clean_segs_def foldl_push_plain absolute_def IsAbs_def has_prefix_def)
  moreover have "absolute xs \<noteq> []" by (simp add: absolute_def)
  ultimately show ?thesis using assms p ne by (auto simp: Join_def)
qed

end
