(* ===== verification/Files.thy ===== *)
theory Files
  imports Filepath
begin

text \<open>
  Files by path, with the calls of \<open>os\<close> that the program makes on them. Whether a call fails is an
  argument; a failed \<open>WriteFile\<close> leaves the file in any state.
\<close>

type_synonym files = "string \<Rightarrow> string option"

definition write_file :: "(err \<times> string option) option \<Rightarrow> string \<Rightarrow> string \<Rightarrow> files \<Rightarrow> unit res \<times> files" where
  "write_file fault path text fs =
     (case fault of None \<Rightarrow> (Inr (), fs(path := Some text)) | Some (e, left) \<Rightarrow> (Inl e, fs(path := left)))"

definition no_such_file :: err where
  "no_such_file = ErrNew ''no such file or directory''"

definition stat_file :: "err option \<Rightarrow> string \<Rightarrow> files \<Rightarrow> unit res" where
  "stat_file fault path fs =
     (case fault of Some e \<Rightarrow> Inl e | None \<Rightarrow> if fs path = None then Inl no_such_file else Inr ())"

definition rename_file :: "err option \<Rightarrow> string \<Rightarrow> string \<Rightarrow> files \<Rightarrow> unit res \<times> files" where
  "rename_file fault a b fs =
     (case fault of
        Some e \<Rightarrow> (Inl e, fs)
      | None \<Rightarrow> if fs a = None then (Inl no_such_file, fs) else (Inr (), (fs(a := None))(b := fs a)))"

text \<open>\<open>os.Remove\<close> where its error is ignored.\<close>

definition remove_file :: "bool \<Rightarrow> string \<Rightarrow> files \<Rightarrow> files" where
  "remove_file stays path fs = (if stays then fs else fs(path := None))"

lemma write_file_elsewhere [simp]: "q \<noteq> path \<Longrightarrow> snd (write_file fault path text fs) q = fs q"
  by (simp add: write_file_def split: option.split prod.split)

lemma rename_file_elsewhere [simp]: "q \<noteq> a \<Longrightarrow> q \<noteq> b \<Longrightarrow> snd (rename_file fault a b fs) q = fs q"
  by (simp add: rename_file_def split: option.split)

lemma rename_file_fails: "rename_file fault a b fs = (Inl e, fs') \<Longrightarrow> fs' = fs"
  by (auto simp: rename_file_def split: option.split_asm if_split_asm)

lemma rename_file_moves:
  "rename_file fault a b fs = (Inr u, fs') \<Longrightarrow> fs' = (fs(a := None))(b := fs a) \<and> fs a \<noteq> None"
  by (auto simp: rename_file_def split: option.split_asm if_split_asm)

lemma remove_file_elsewhere [simp]: "q \<noteq> path \<Longrightarrow> remove_file stays path fs q = fs q"
  by (simp add: remove_file_def)

end
