(* ===== verification/Units.thy ===== *)
theory Units
  imports Files
begin

text \<open>
  The systemd units of the panel and of Xray (\<open>internal/systemdunit/unit.go\<close>): which paths are allowed,
  the text of both units, writing them, and finding the paths of an installation in the units it has.
\<close>

section \<open>Paths\<close>

definition PanelUnitName :: string where
  "PanelUnitName = ''xport.service''"

definition XrayUnitName :: string where
  "XrayUnitName = ''xport-xray.service''"

record Paths =
  pt_DataDir :: string
  pt_Prefix :: string
  pt_XportBinary :: string

definition DefaultPaths :: Paths where
  "DefaultPaths = \<lparr>pt_DataDir = ''/etc/x-port'', pt_Prefix = ''/usr/local/x-port'', pt_XportBinary = ''/usr/local/bin/xport''\<rparr>"

definition XrayBinary :: "Paths \<Rightarrow> string" where
  "XrayBinary p = Join [pt_Prefix p, ''bin'', ''xray'']"

definition XrayConfig :: "Paths \<Rightarrow> string" where
  "XrayConfig p = Join [pt_DataDir p, ''xray'', ''config.json'']"

definition check_path :: "string \<Rightarrow> string \<Rightarrow> unit res" where
  "check_path name v =
     (if trim_space v = [] then Inl (Errorf ''%s is required'' [name] [])
      else if \<not> IsAbs v then Inl (Errorf ''%s must be absolute: %s'' [name, v] [])
      else if contains_any v [CHR '' '', CHR 0x09, CHR 0x0D, CHR 0x0A]
      then Inl (Errorf ''%s cannot contain whitespace: %s'' [name, v] [])
      else Inr ())"

definition path_names :: "string list" where
  "path_names = [''data directory'', ''prefix'', ''X-port binary'']"

definition path_named :: "Paths \<Rightarrow> string \<Rightarrow> string" where
  "path_named p name =
     (if name = ''data directory'' then pt_DataDir p else if name = ''prefix'' then pt_Prefix p else pt_XportBinary p)"

text \<open>The checks range over a Go map: the order, which decides the error, is an argument.\<close>

fun Validate :: "string list \<Rightarrow> Paths \<Rightarrow> unit res" where
  "Validate [] p = Inr ()"
| "Validate (name # rest) p = bindR (check_path name (path_named p name)) (\<lambda>_. Validate rest p)"

section \<open>Rendering\<close>

text \<open>The lines of the two texts; both end with a line break.\<close>

definition panel_lines :: "string \<Rightarrow> string \<Rightarrow> string \<Rightarrow> string \<Rightarrow> string \<Rightarrow> string \<Rightarrow> string list" where
  "panel_lines dataDir pfx xportBinary xportBinDir xrayBinary xrayConfig =
     [''[Unit]'', ''Description=X-port Control Panel'', ''After=network-online.target'', ''Wants=network-online.target'',
      ''[Service]'', ''Type=simple'',
      ''EnvironmentFile=-'' @ dataDir @ ''/xport.env'',
      ''ExecStart='' @ xportBinary @ '' serve --data '' @ dataDir @ '' --xray-binary '' @ xrayBinary @
        '' --xray-config '' @ xrayConfig @ '' --xray-service '' @ XrayUnitName,
      ''Restart=on-failure'', ''RestartSec=3'', ''Nice=5'', ''UMask=0027'', ''NoNewPrivileges=true'', ''PrivateTmp=true'',
      ''PrivateDevices=true'', ''ProtectHome=read-only'', ''ProtectKernelTunables=true'', ''ProtectKernelModules=true'',
      ''ProtectControlGroups=true'', ''RestrictSUIDSGID=true'', ''RestrictRealtime=true'', ''LockPersonality=true'',
      ''SystemCallArchitectures=native'', ''ProtectSystem=strict'',
      ''ReadWritePaths='' @ dataDir @ '' '' @ pfx @ '' '' @ xportBinDir,
      ''RestrictAddressFamilies=AF_UNIX AF_INET AF_INET6 AF_NETLINK'', [], ''[Install]'',
      ''WantedBy=multi-user.target'', []]"

definition xray_lines :: "string \<Rightarrow> string \<Rightarrow> string \<Rightarrow> string list" where
  "xray_lines pfx xrayBinary xrayConfig =
     [''[Unit]'', ''Description=X-port Xray Core'', ''After=network-online.target'', ''Wants=network-online.target'',
      ''[Service]'', ''Type=simple'',
      ''Environment=XRAY_LOCATION_ASSET='' @ pfx @ ''/bin'',
      ''ExecStart='' @ xrayBinary @ '' run -config '' @ xrayConfig,
      ''Restart=on-failure'', ''RestartSec=3'', ''LimitNOFILE=1048576'', ''NoNewPrivileges=true'', ''PrivateTmp=true'',
      ''PrivateDevices=true'', ''ProtectHome=read-only'', ''ProtectKernelTunables=true'', ''ProtectKernelModules=true'',
      ''ProtectControlGroups=true'', ''RestrictSUIDSGID=true'', ''RestrictRealtime=true'', ''LockPersonality=true'',
      ''SystemCallArchitectures=native'', ''ProtectSystem=full'', ''RestrictAddressFamilies=AF_UNIX AF_INET AF_INET6'',
      ''[Install]'', ''WantedBy=multi-user.target'', []]"

definition Render :: "string list \<Rightarrow> Paths \<Rightarrow> (string \<times> string) res" where
  "Render order p =
     bindR (Validate order p) (\<lambda>_.
       let dataDir = Clean (pt_DataDir p); pfx = Clean (pt_Prefix p); xportBinary = Clean (pt_XportBinary p);
           xportBinDir = Dir xportBinary; xrayBinary = Join [pfx, ''bin'', ''xray''];
           xrayConfig = Join [dataDir, ''xray'', ''config.json'']
       in Inr (join_with [CHR 0x0A] (panel_lines dataDir pfx xportBinary xportBinDir xrayBinary xrayConfig),
               join_with [CHR 0x0A] (xray_lines pfx xrayBinary xrayConfig)))"

section \<open>Writing\<close>

text \<open>How the calls to the operating system end.\<close>

record Disk =
  dk_mkdir :: "err option"
  dk_panel :: "(err \<times> string option) option"
  dk_xray :: "(err \<times> string option) option"

definition Write :: "Disk \<Rightarrow> string list \<Rightarrow> string \<Rightarrow> Paths \<Rightarrow> files \<Rightarrow> unit res \<times> files" where
  "Write dk order unitDir p fs =
     (case Render order p of
        Inl e \<Rightarrow> (Inl e, fs)
      | Inr (panel, xray) \<Rightarrow>
          if \<not> IsAbs unitDir then (Inl (ErrNew ''systemd unit directory must be absolute''), fs)
          else (case dk_mkdir dk of
             Some e \<Rightarrow> (Inl e, fs)
           | None \<Rightarrow>
               (case write_file (dk_panel dk) (Join [unitDir, PanelUnitName]) panel fs of
                  (Inl e, fs1) \<Rightarrow> (Inl e, fs1)
                | (Inr _, fs1) \<Rightarrow> write_file (dk_xray dk) (Join [unitDir, XrayUnitName]) xray fs1)))"

section \<open>Detecting\<close>

definition prefixFromXrayBinary :: "string \<Rightarrow> string \<Rightarrow> string" where
  "prefixFromXrayBinary binary fallback =
     (if Base binary \<noteq> ''xray'' \<or> Base (Dir binary) \<noteq> ''bin'' then fallback else Dir (Dir binary))"

text \<open>Options with the word that follows each of them.\<close>

fun scan_options :: "(string \<Rightarrow> string \<Rightarrow> Paths \<Rightarrow> Paths) \<Rightarrow> string list \<Rightarrow> Paths \<Rightarrow> Paths" where
  "scan_options f (x # y # rest) p = scan_options f (y # rest) (f x y p)"
| "scan_options f _ p = p"

definition panel_option :: "string \<Rightarrow> string \<Rightarrow> Paths \<Rightarrow> Paths" where
  "panel_option x y p =
     (if x = ''--data'' then p\<lparr>pt_DataDir := y\<rparr>
      else if x = ''--xray-binary'' then p\<lparr>pt_Prefix := prefixFromXrayBinary y (pt_Prefix p)\<rparr> else p)"

definition panel_line :: "string \<Rightarrow> Paths \<Rightarrow> Paths" where
  "panel_line raw_line p =
     (let line = trim_space raw_line in
      if has_prefix line ''EnvironmentFile=-'' then
        (let v = trim_prefix line ''EnvironmentFile=-'' in if Base v = ''xport.env'' then p\<lparr>pt_DataDir := Dir v\<rparr> else p)
      else if has_prefix line ''ExecStart='' then
        (case Prelude.fields (trim_prefix line ''ExecStart='') of
           [] \<Rightarrow> p
         | b # rest \<Rightarrow> scan_options panel_option rest (p\<lparr>pt_XportBinary := b\<rparr>))
      else p)"

definition detectPanel :: "string \<Rightarrow> Paths \<Rightarrow> Paths" where
  "detectPanel unit_text p = fold panel_line (split_on (CHR 0x0A) unit_text) p"

definition xray_option :: "string \<Rightarrow> string \<Rightarrow> Paths \<Rightarrow> Paths" where
  "xray_option x y p =
     (if x = ''-config'' \<and> Base y = ''config.json'' \<and> Base (Dir y) = ''xray'' then p\<lparr>pt_DataDir := Dir (Dir y)\<rparr> else p)"

definition xray_line :: "string \<Rightarrow> Paths \<Rightarrow> Paths" where
  "xray_line raw_line p =
     (let line = trim_space raw_line in
      if has_prefix line ''Environment=XRAY_LOCATION_ASSET='' then
        (let v = trim_prefix line ''Environment=XRAY_LOCATION_ASSET='' in if Base v = ''bin'' then p\<lparr>pt_Prefix := Dir v\<rparr> else p)
      else if has_prefix line ''ExecStart='' then
        (case Prelude.fields (trim_prefix line ''ExecStart='') of
           [] \<Rightarrow> p
         | b # rest \<Rightarrow> scan_options xray_option rest (p\<lparr>pt_Prefix := prefixFromXrayBinary b (pt_Prefix p)\<rparr>))
      else p)"

definition detectXray :: "string \<Rightarrow> Paths \<Rightarrow> Paths" where
  "detectXray unit_text p = fold xray_line (split_on (CHR 0x0A) unit_text) p"

datatype reading = Content string | Missing | Unreadable err

definition DetectPaths :: "string list \<Rightarrow> reading \<Rightarrow> reading \<Rightarrow> Paths res" where
  "DetectPaths order panel xray =
     (case panel of
        Unreadable e \<Rightarrow> Inl e
      | _ \<Rightarrow>
          (let p = (case panel of Content t \<Rightarrow> detectPanel t DefaultPaths | _ \<Rightarrow> DefaultPaths) in
           case xray of
             Unreadable e \<Rightarrow> Inl e
           | _ \<Rightarrow>
               (let q = (case xray of Content t \<Rightarrow> detectXray t p | _ \<Rightarrow> p) in bindR (Validate order q) (\<lambda>_. Inr q))))"

section \<open>Repairing an installation\<close>

definition read_file :: "files \<Rightarrow> string \<Rightarrow> reading" where
  "read_file fs path = (case fs path of None \<Rightarrow> Missing | Some t \<Rightarrow> Content t)"

text \<open>What \<open>xport repair\<close> (\<open>cmd/xport/manager.go\<close>) finds: its user, its own path, whether files exist, and how
  its commands end; and the flags it was given.\<close>

record Host =
  ho_root :: bool
  ho_exe :: "string option"
  ho_unreadable :: "string \<Rightarrow> err option"
  ho_exists :: "string \<Rightarrow> bool"
  ho_command :: "string list \<Rightarrow> err option"

record Flags =
  fl_data :: "string option"
  fl_prefix :: "string option"
  fl_binary :: "string option"
  fl_nargs :: nat

definition needs_root :: string where
  "needs_root = [CHR 0xE6, CHR 0xAD, CHR 0xA4, CHR 0xE6, CHR 0x93, CHR 0x8D, CHR 0xE4, CHR 0xBD, CHR 0x9C, CHR 0xE9, CHR 0x9C, CHR 0x80, CHR 0xE8, CHR 0xA6, CHR 0x81] @ '' root'' @ [CHR 0xEF, CHR 0xBC, CHR 0x8C, CHR 0xE8, CHR 0xAF, CHR 0xB7, CHR 0xE4, CHR 0xBD, CHR 0xBF, CHR 0xE7, CHR 0x94, CHR 0xA8] @ '' sudo xport''"

definition not_there :: string where
  "not_there = [CHR 0xE4, CHR 0xB8, CHR 0x8D, CHR 0xE5, CHR 0xAD, CHR 0x98, CHR 0xE5, CHR 0x9C, CHR 0xA8] @ '': %s''"

definition repair_usage :: string where
  "repair_usage = [CHR 0xE7, CHR 0x94, CHR 0xA8, CHR 0xE6, CHR 0xB3, CHR 0x95] @ '': xport repair [--data /etc/x-port] [--prefix /usr/local/x-port] [--binary /usr/local/bin/xport]''"

definition run_command :: "Host \<Rightarrow> string list \<Rightarrow> unit res" where
  "run_command h cmd = (case ho_command h cmd of None \<Rightarrow> Inr () | Some e \<Rightarrow> Inl e)"

definition read_unit :: "Host \<Rightarrow> files \<Rightarrow> string \<Rightarrow> reading" where
  "read_unit h fs path = (case ho_unreadable h path of Some e \<Rightarrow> Unreadable e | None \<Rightarrow> read_file fs path)"

definition given :: "Flags \<Rightarrow> Paths \<Rightarrow> Paths" where
  "given fl p =
     \<lparr>pt_DataDir = (case fl_data fl of None \<Rightarrow> pt_DataDir p | Some v \<Rightarrow> v),
      pt_Prefix = (case fl_prefix fl of None \<Rightarrow> pt_Prefix p | Some v \<Rightarrow> v),
      pt_XportBinary = (case fl_binary fl of None \<Rightarrow> pt_XportBinary p | Some v \<Rightarrow> v)\<rparr>"

definition repairInstall ::
    "Host \<Rightarrow> Disk \<Rightarrow> string list \<times> string list \<times> string list \<Rightarrow> Flags res \<Rightarrow> files \<Rightarrow> unit res \<times> files" where
  "repairInstall h dk orders flags fs =
     (let unitDir = ''/etc/systemd/system''; (order1, order2, order3) = orders in
      if \<not> ho_root h then (Inl (ErrNew needs_root), fs)
      else case DetectPaths order1 (read_unit h fs (Join [unitDir, PanelUnitName])) (read_unit h fs (Join [unitDir, XrayUnitName])) of
        Inl e \<Rightarrow> (Inl (Errorf ''detect existing systemd paths: %w'' [] [e]), fs)
      | Inr p0 \<Rightarrow>
          (let p1 = (case ho_exe h of Some exe \<Rightarrow> if IsAbs exe then p0\<lparr>pt_XportBinary := exe\<rparr> else p0 | None \<Rightarrow> p0) in
           case flags of
             Inl e \<Rightarrow> (Inl e, fs)
           | Inr fl \<Rightarrow>
               (let p = given fl p1 in
                if fl_nargs fl \<noteq> 0 then (Inl (ErrNew repair_usage), fs)
                else case Validate order2 p of
                  Inl e \<Rightarrow> (Inl e, fs)
                | Inr _ \<Rightarrow>
                    if \<not> ho_exists h (pt_XportBinary p) then (Inl (Errorf (''X-port binary '' @ not_there) [pt_XportBinary p] []), fs)
                    else if \<not> ho_exists h (XrayBinary p) then (Inl (Errorf (''Xray binary '' @ not_there) [XrayBinary p] []), fs)
                    else (case Write dk order3 unitDir p fs of
                        (Inl e, fs1) \<Rightarrow> (Inl e, fs1)
                      | (Inr _, fs1) \<Rightarrow>
                          (bindR (run_command h [''systemctl'', ''daemon-reload'']) (\<lambda>_.
                             run_command h [''systemctl'', ''enable'', PanelUnitName, XrayUnitName]), fs1)))))"

section \<open>Words and lines\<close>

text \<open>A word without white space of any script.\<close>

definition unspaced :: "string \<Rightarrow> bool" where
  "unspaced w \<longleftrightarrow> list_all (\<lambda>s. leading_seq space_seqs s = 0) (suffixes w)"

definition ascii :: "char \<Rightarrow> bool" where
  "ascii c \<longleftrightarrow> (of_char c :: nat) < 128"

lemma unspaced_Nil [simp]: "unspaced []"
  by (simp add: unspaced_def)

lemma unspaced_Cons: "unspaced (c # w) \<longleftrightarrow> leading_seq space_seqs (c # w) = 0 \<and> unspaced w"
  by (auto simp: unspaced_def)

lemma seq_tail_not_ascii: "w \<in> set space_seqs \<Longrightarrow> c \<in> set (tl w) \<Longrightarrow> \<not> ascii c"
  by (auto simp: space_seqs_def ascii_def)

text \<open>White space does not begin in a word and end behind an ASCII character.\<close>

lemma leading_seq_before_ascii:
  assumes "s \<noteq> []" "t = [] \<or> ascii (hd t)"
  shows "leading_seq space_seqs (s @ t) = 0 \<longleftrightarrow> leading_seq space_seqs s = 0"
proof
  assume none: "leading_seq space_seqs s = 0"
  show "leading_seq space_seqs (s @ t) = 0"
    unfolding leading_seq_0_iff find_None_iff
  proof (rule notI, elim bexE exE conjE)
    fix w assume w: "w \<in> set space_seqs" "w \<noteq> []" "has_prefix (s @ t) w"
    then obtain u where u: "s @ t = w @ u" by (auto simp: has_prefix_append)
    show False
    proof (cases "length w \<le> length s")
      case True
      then have "has_prefix s w" using u by (auto simp: has_prefix_append append_eq_append_conv2)
      then show False using none w by (auto simp: leading_seq_0_iff find_None_iff)
    next
      case False
      then obtain v where v: "w = s @ v" "v \<noteq> []" "t = v @ u" using u by (auto simp: append_eq_append_conv2)
      then have "ascii (hd v)" "hd v \<in> set (tl w)" using assms by (auto simp: tl_append split: list.splits)
      then show False using seq_tail_not_ascii [OF w(1)] by blast
    qed
  qed
qed (rule leading_seq_take)

lemma until_word:
  assumes "unspaced w" "t = [] \<or> ascii (hd t) \<and> leading_seq space_seqs t \<noteq> 0"
  shows "until_seq space_seqs (w @ t) = (w, t)"
  using assms(1)
proof (induction w)
  case Nil
  then show ?case using assms(2) by (cases t) auto
next
  case (Cons c w)
  have "leading_seq space_seqs ((c # w) @ t) = 0"
    using Cons.prems assms(2) by (subst leading_seq_before_ascii) (auto simp: unspaced_Cons)
  then show ?case using Cons by (simp add: unspaced_Cons Let_def)
qed

lemma leading_blank: "leading_seq space_seqs (CHR '' '' # t) = 1"
  by (simp add: leading_seq_def space_seqs_def has_prefix_def)

lemma fields_word:
  assumes "unspaced w" "w \<noteq> []"
  shows "Prelude.fields w = [w]" "Prelude.fields (w @ CHR '' '' # t) = w # Prelude.fields t"
proof -
  obtain c v where w: "w = c # v" using assms(2) by (cases w) auto
  have l: "leading_seq space_seqs (w @ u) = 0" if "u = [] \<or> hd u = CHR '' ''" for u
    using leading_seq_before_ascii [OF assms(2), of u] assms that w by (auto simp: unspaced_Cons ascii_def)
  have v: "unspaced v" using assms w by (simp add: unspaced_Cons)
  have skip: "trim_seqs space_seqs (CHR '' '' # t) = trim_seqs space_seqs t"
    by (subst trim_seqs.simps) (simp add: leading_blank)
  show "Prelude.fields w = [w]"
    using trim_seqs_id [OF l [of "[]"]] until_word [OF v, of "[]"] w by (subst fields.simps) (simp add: fields.simps [of "[]"])
  have "Prelude.fields (CHR '' '' # t) = Prelude.fields t"
    by (subst (1 2) fields.simps) (simp only: skip)
  then show "Prelude.fields (w @ CHR '' '' # t) = w # Prelude.fields t"
    using trim_seqs_id [OF l [of "CHR '' '' # t"]] until_word [OF v, of "CHR '' '' # t"] w leading_blank
    by (subst fields.simps) (simp add: ascii_def)
qed

lemma unspaced_append:
  "unspaced (s @ t) \<Longrightarrow> unspaced t"
  by (induction s) (auto simp: unspaced_Cons)

lemma unspaced_glue:
  assumes "unspaced s" "unspaced t" "t = [] \<or> ascii (hd t)"
  shows "unspaced (s @ t)"
  using assms(1)
proof (induction s)
  case (Cons c s)
  have "leading_seq space_seqs ((c # s) @ t) = 0"
    using Cons.prems assms(3) by (subst leading_seq_before_ascii) (auto simp: unspaced_Cons)
  then show ?case using Cons by (simp add: unspaced_Cons)
qed (use assms in simp)

lemma unspaced_take: "unspaced (s @ t) \<Longrightarrow> unspaced s"
proof (induction s)
  case (Cons c s)
  then show ?case using leading_seq_take [of space_seqs "c # s" t] by (simp add: unspaced_Cons)
qed simp

text \<open>The segments of a path without white space have none.\<close>

lemma segs_unspaced: "unspaced p \<Longrightarrow> s \<in> set (segs p) \<Longrightarrow> unspaced s"
proof (induction "segs p" arbitrary: p)
  case (Cons x xs)
  show ?case
  proof (cases xs)
    case Nil
    then have one: "segs p = [x]" using Cons.hyps(2) by simp
    then have "p = x" using join_split [of "CHR ''/''" p] by simp
    then show ?thesis using Cons.prems one by auto
  next
    case (Cons y ys)
    have p: "p = x @ CHR ''/'' # path_of xs"
      using Cons \<open>x # xs = segs p\<close> join_split [of "CHR ''/''" p] by (metis append_Cons append_Nil join_with.simps(3))
    moreover have "CHR ''/'' \<notin> set x" using \<open>x # xs = segs p\<close> split_on_no_sep [of x "CHR ''/''" p] by (metis list.set_intros(1))
    ultimately have xs: "xs = segs (path_of xs)" using \<open>x # xs = segs p\<close> by (simp add: split_on_append)
    have "unspaced (path_of xs)" using unspaced_append [of "x @ ''/''" "path_of xs"] Cons.prems(1) p by simp
    moreover have "unspaced x" using unspaced_take Cons.prems(1) p by blast
    moreover have "s = x \<or> s \<in> set (segs (path_of xs))" using Cons.prems(2) \<open>x # xs = segs p\<close> xs by (metis set_ConsD)
    ultimately show ?thesis using Cons.hyps(1) [OF xs] by blast
  qed
qed simp

lemma absolute_unspaced: "list_all unspaced xs \<Longrightarrow> unspaced (absolute xs)"
proof -
  assume xs: "list_all unspaced xs"
  have slash: "unspaced (CHR ''/'' # t)" if "unspaced t" for t
    using leading_seq_graphic that by (simp add: unspaced_Cons graphic_def)
  have "unspaced (path_of xs)"
    using xs by (induction xs rule: induct_list012) (auto intro!: unspaced_glue slash simp: ascii_def)
  then show ?thesis by (simp add: absolute_def slash)
qed

text \<open>A path as the units hold it: absolute, clean, without white space.\<close>

definition unit_path :: "string list \<Rightarrow> bool" where
  "unit_path xs \<longleftrightarrow> list_all plain xs \<and> list_all unspaced xs"

lemma Clean_unit_path:
  assumes "IsAbs p" "unspaced p" obtains xs where "Clean p = absolute xs" "unit_path xs"
  using assms(1)
proof (rule Clean_absolute)
  fix xs assume "Clean p = absolute xs" "list_all plain xs" "set xs \<subseteq> set (segs p)"
  then show thesis using segs_unspaced [OF assms(2)] by (intro that) (auto simp: unit_path_def list_all_iff)
qed

lemma unit_path_simps [simp]: "unit_path xs \<Longrightarrow> list_all plain xs" "unit_path xs \<Longrightarrow> unspaced (absolute xs)"
  by (simp_all add: unit_path_def absolute_unspaced)

lemma unspaced_no_blank:
  "unspaced w \<Longrightarrow> CHR 0x0A \<notin> set w \<and> CHR '' '' \<notin> set w \<and> CHR 0x09 \<notin> set w \<and> CHR 0x0D \<notin> set w"
  by (induction w) (auto simp: unspaced_Cons leading_seq_def space_seqs_def has_prefix_def split: if_splits)

lemma trim_space_line:
  assumes "graphic (hd (a @ w))" "w \<noteq> []" "unspaced w" "ascii (hd w)"
  shows "trim_space (a @ w) = a @ w"
  unfolding trim_space_id_iff
proof
  show "leading_seq space_seqs (a @ w) = 0"
    using assms(1,2) by (cases "a @ w") (auto intro: leading_seq_graphic)
  have "\<not> has_prefix (rev (a @ w)) (rev v)" if v: "v \<in> set space_seqs" "v \<noteq> []" for v
  proof
    assume "has_prefix (rev (a @ w)) (rev v)"
    then obtain u where u: "a @ w = u @ v" by (auto simp: has_prefix_append) (metis rev_append rev_swap)
    obtain b where b: "a @ b = u \<and> w = b @ v \<or> a = u @ b \<and> b @ w = v"
      using u unfolding append_eq_append_conv2 by blast
    show False
    proof (cases "w = b @ v")
      case True
      then have "unspaced v" using assms(3) unspaced_append by blast
      then have "leading_seq space_seqs v = 0" using v(2) by (cases v) (auto simp: unspaced_Cons)
      then have "\<not> has_prefix v v" using v unfolding leading_seq_0_iff find_None_iff by blast
      then show False by (simp add: has_prefix_def)
    next
      case False
      then have b: "v = b @ w" "b \<noteq> []" using b by auto
      then have "hd w \<in> set (tl v)" using assms(2) by (simp add: tl_append split: list.split)
      then show False using seq_tail_not_ascii [OF v(1)] assms(4) by blast
    qed
  qed
  then show "leading_seq (map rev space_seqs) (rev (a @ w)) = 0"
    unfolding leading_seq_0_iff find_None_iff set_map by blast
qed

section \<open>What the units say\<close>

lemma absolute_words [simp]: "absolute xs \<noteq> []" "hd (absolute xs) = CHR ''/''" "ascii (CHR ''/'')" "graphic (CHR ''/'')"
  by (simp_all add: absolute_def ascii_def graphic_def)

lemma option_words: "unspaced ''serve''" "unspaced ''--data''" "unspaced ''--xray-binary''" "unspaced ''--xray-config''"
  "unspaced ''--xray-service''" "unspaced XrayUnitName" "unspaced ''run''" "unspaced ''-config''"
  by (simp_all add: unspaced_Cons leading_seq_graphic graphic_def XrayUnitName_def)

lemma panel_words:
  assumes "unspaced b" "b \<noteq> []" "unspaced d" "d \<noteq> []" "unspaced x" "x \<noteq> []" "unspaced c" "c \<noteq> []"
  shows "Prelude.fields (b @ '' serve --data '' @ d @ '' --xray-binary '' @ x @ '' --xray-config '' @ c @ '' --xray-service '' @
      XrayUnitName) = [b, ''serve'', ''--data'', d, ''--xray-binary'', x, ''--xray-config'', c, ''--xray-service'', XrayUnitName]"
proof -
  have eq: "b @ '' serve --data '' @ d @ '' --xray-binary '' @ x @ '' --xray-config '' @ c @ '' --xray-service '' @ XrayUnitName =
      b @ CHR '' '' # ''serve'' @ CHR '' '' # ''--data'' @ CHR '' '' # d @ CHR '' '' # ''--xray-binary'' @ CHR '' '' # x @
      CHR '' '' # ''--xray-config'' @ CHR '' '' # c @ CHR '' '' # ''--xray-service'' @ CHR '' '' # XrayUnitName"
    by simp
  have "XrayUnitName \<noteq> []" by (simp add: XrayUnitName_def)
  then show ?thesis unfolding eq using assms option_words by (simp only: fields_word list.simps not_False_eq_True)
qed

lemma xray_words:
  assumes "unspaced x" "x \<noteq> []" "unspaced c" "c \<noteq> []"
  shows "Prelude.fields (x @ '' run -config '' @ c) = [x, ''run'', ''-config'', c]"
proof -
  have eq: "x @ '' run -config '' @ c = x @ CHR '' '' # ''run'' @ CHR '' '' # ''-config'' @ CHR '' '' # c" by simp
  show ?thesis unfolding eq using assms option_words by (simp only: fields_word list.simps not_False_eq_True)
qed

text \<open>Lines that say nothing about the paths.\<close>

lemma quiet_line:
  assumes "trim_space l = l" "\<not> has_prefix l ''EnvironmentFile=-''" "\<not> has_prefix l ''ExecStart=''"
  shows "panel_line l p = p"
    "\<not> has_prefix l ''Environment=XRAY_LOCATION_ASSET='' \<Longrightarrow> xray_line l p = p"
  using assms by (simp_all add: panel_line_def xray_line_def)

lemmas trim_literal = trim_space_graphic [of "_ # _"]

lemma bin_plain [simp]: "plain ''bin''" "plain ''xray''" "plain ''config.json''" "plain ''xport.env''" "plain PanelUnitName"
  "plain XrayUnitName"
  by (simp_all add: plain_def PanelUnitName_def XrayUnitName_def)

lemma prefix_found [simp]:
  "list_all plain ps \<Longrightarrow> prefixFromXrayBinary (absolute (ps @ [''bin'', ''xray''])) fb = absolute ps"
  using Base_snoc [of "''xray''" "ps @ [''bin'']"] Dir_snoc [of "ps @ [''bin'']" "''xray''"]
  by (simp add: prefixFromXrayBinary_def)

lemma config_found [simp]:
  "list_all plain ds \<Longrightarrow> xray_option ''-config'' (absolute (ds @ [''xray'', ''config.json''])) p = p\<lparr>pt_DataDir := absolute ds\<rparr>"
  using Base_snoc [of "''config.json''" "ds @ [''xray'']"] Dir_snoc [of "ds @ [''xray'']" "''config.json''"]
  by (simp add: xray_option_def)

text \<open>The lines that carry a path.\<close>

lemma environment_line:
  assumes "trim_space (''EnvironmentFile=-'' @ v) = ''EnvironmentFile=-'' @ v" "Base v = ''xport.env''"
  shows "panel_line (''EnvironmentFile=-'' @ v) r = r\<lparr>pt_DataDir := Dir v\<rparr>"
  by (simp only: panel_line_def Let_def assms has_prefix_self trim_prefix_append simp_thms if_True)

lemma asset_line:
  assumes "trim_space (''Environment=XRAY_LOCATION_ASSET='' @ v) = ''Environment=XRAY_LOCATION_ASSET='' @ v" "Base v = ''bin''"
  shows "xray_line (''Environment=XRAY_LOCATION_ASSET='' @ v) r = r\<lparr>pt_Prefix := Dir v\<rparr>"
  by (simp only: xray_line_def Let_def assms has_prefix_self trim_prefix_append simp_thms if_True)

lemma exec_line:
  assumes "trim_space (''ExecStart='' @ v) = ''ExecStart='' @ v" "Prelude.fields v = b # rest"
  shows "panel_line (''ExecStart='' @ v) r = scan_options panel_option rest (r\<lparr>pt_XportBinary := b\<rparr>)"
    "xray_line (''ExecStart='' @ v) r = scan_options xray_option rest (r\<lparr>pt_Prefix := prefixFromXrayBinary b (pt_Prefix r)\<rparr>)"
proof -
  have other: "\<not> has_prefix (''ExecStart='' @ v) ''EnvironmentFile=-''" "\<not> has_prefix (''ExecStart='' @ v) ''Environment=XRAY_LOCATION_ASSET=''"
    by (simp_all add: has_prefix_def)
  show "panel_line (''ExecStart='' @ v) r = scan_options panel_option rest (r\<lparr>pt_XportBinary := b\<rparr>)"
    by (simp only: panel_line_def Let_def assms other has_prefix_self trim_prefix_append if_True if_False list.case)
  show "xray_line (''ExecStart='' @ v) r = scan_options xray_option rest (r\<lparr>pt_Prefix := prefixFromXrayBinary b (pt_Prefix r)\<rparr>)"
    by (simp only: xray_line_def Let_def assms other has_prefix_self trim_prefix_append if_True if_False list.case)
qed

lemma detect_panel_text:
  assumes "unit_path ds" "unit_path ps" "unit_path bs" "unit_path es"
  shows "detectPanel (join_with [CHR 0x0A] (panel_lines (absolute ds) (absolute ps) (absolute bs) (absolute es)
      (absolute (ps @ [''bin'', ''xray''])) (absolute (ds @ [''xray'', ''config.json''])))) p =
    \<lparr>pt_DataDir = absolute ds, pt_Prefix = absolute ps, pt_XportBinary = absolute bs\<rparr>"
    (is "detectPanel (join_with _ ?ls) p = ?q")
proof -
  have x: "unit_path (ps @ [''bin'', ''xray''])" "unit_path (ds @ [''xray'', ''config.json''])"
    using assms by (simp_all add: unit_path_def unspaced_Cons leading_seq_graphic graphic_def)
  note u = assms [THEN unit_path_simps(2)] x [THEN unit_path_simps(2)]
  have nb: "list_all (\<lambda>s. CHR 0x0A \<notin> set s) ?ls"
    using u [THEN unspaced_no_blank] by (simp add: panel_lines_def XrayUnitName_def)
  have split: "split_on (CHR 0x0A) (join_with [CHR 0x0A] ?ls) = ?ls"
    by (rule split_join [OF _ nb]) (simp add: panel_lines_def)
  let ?X = "absolute (ps @ [''bin'', ''xray''])" and ?C = "absolute (ds @ [''xray'', ''config.json''])"
  have env: "panel_line (''EnvironmentFile=-'' @ absolute ds @ ''/xport.env'') r = r\<lparr>pt_DataDir := absolute ds\<rparr>" for r
  proof -
    have "trim_space (''EnvironmentFile=-'' @ below (absolute ds) ''xport.env'') = ''EnvironmentFile=-'' @ below (absolute ds) ''xport.env''"
      by (simp add: below_def trim_literal graphic_def)
    from environment_line [OF this, of r] show ?thesis
      using Dir_below [of ds "''xport.env''"] assms(1) by (simp only: Base_below bin_plain unit_path_simps) (simp only: below_def)
  qed
  have exec: "panel_line (''ExecStart='' @ absolute bs @ '' serve --data '' @ absolute ds @ '' --xray-binary '' @ ?X @
      '' --xray-config '' @ ?C @ '' --xray-service '' @ XrayUnitName) r = ?q" for r
  proof (subst exec_line(1) [OF _ panel_words])
    show "trim_space (''ExecStart='' @ absolute bs @ '' serve --data '' @ absolute ds @ '' --xray-binary '' @ ?X @
      '' --xray-config '' @ ?C @ '' --xray-service '' @ XrayUnitName) = ''ExecStart='' @ absolute bs @ '' serve --data '' @
      absolute ds @ '' --xray-binary '' @ ?X @ '' --xray-config '' @ ?C @ '' --xray-service '' @ XrayUnitName"
      by (simp add: trim_literal graphic_def XrayUnitName_def)
    show "scan_options panel_option [''serve'', ''--data'', absolute ds, ''--xray-binary'', ?X, ''--xray-config'', ?C,
        ''--xray-service'', XrayUnitName] (r\<lparr>pt_XportBinary := absolute bs\<rparr>) = ?q"
      using assms by (simp add: panel_option_def absolute_def) (simp add: absolute_def [symmetric])
  qed (use u in simp_all)
  have rw: "panel_line (''ReadWritePaths='' @ absolute ds @ '' '' @ absolute ps @ '' '' @ absolute es) r = r" for r
    using trim_space_line [of "''ReadWritePaths='' @ absolute ds @ '' '' @ absolute ps @ '' ''" "absolute es"] u(4)
    by (intro quiet_line) (simp_all add: graphic_def has_prefix_def)
  show ?thesis
    unfolding detectPanel_def split unfolding panel_lines_def fold.simps comp_def id_apply env exec rw
    by (simp add: quiet_line trim_literal graphic_def has_prefix_def)
qed

lemma detect_xray_text:
  assumes "unit_path ds" "unit_path ps"
  shows "detectXray (join_with [CHR 0x0A] (xray_lines (absolute ps) (absolute (ps @ [''bin'', ''xray'']))
      (absolute (ds @ [''xray'', ''config.json''])))) p = p\<lparr>pt_DataDir := absolute ds, pt_Prefix := absolute ps\<rparr>"
    (is "detectXray (join_with _ ?ls) p = ?q")
proof -
  let ?X = "absolute (ps @ [''bin'', ''xray''])" and ?C = "absolute (ds @ [''xray'', ''config.json''])"
  have x: "unit_path (ps @ [''bin'', ''xray''])" "unit_path (ds @ [''xray'', ''config.json''])"
    using assms by (simp_all add: unit_path_def unspaced_Cons leading_seq_graphic graphic_def)
  note u = assms [THEN unit_path_simps(2)] x [THEN unit_path_simps(2)]
  have nb: "list_all (\<lambda>s. CHR 0x0A \<notin> set s) ?ls"
    using u [THEN unspaced_no_blank] by (simp add: xray_lines_def)
  have split: "split_on (CHR 0x0A) (join_with [CHR 0x0A] ?ls) = ?ls"
    by (rule split_join [OF _ nb]) (simp add: xray_lines_def)
  have asset: "xray_line (''Environment=XRAY_LOCATION_ASSET='' @ absolute ps @ ''/bin'') r = r\<lparr>pt_Prefix := absolute ps\<rparr>" for r
  proof -
    have "trim_space (''Environment=XRAY_LOCATION_ASSET='' @ below (absolute ps) ''bin'') =
        ''Environment=XRAY_LOCATION_ASSET='' @ below (absolute ps) ''bin''"
      by (simp add: below_def trim_literal graphic_def)
    from asset_line [OF this, of r] show ?thesis
      using Dir_below [of ps "''bin''"] assms(2) by (simp only: Base_below bin_plain unit_path_simps) (simp only: below_def)
  qed
  have exec: "xray_line (''ExecStart='' @ ?X @ '' run -config '' @ ?C) r = r\<lparr>pt_Prefix := absolute ps, pt_DataDir := absolute ds\<rparr>" for r
  proof (subst exec_line(2) [OF _ xray_words])
    show "trim_space (''ExecStart='' @ ?X @ '' run -config '' @ ?C) = ''ExecStart='' @ ?X @ '' run -config '' @ ?C"
      using trim_space_line [of "''ExecStart='' @ ?X @ '' run -config ''" ?C] u(4) by (simp add: graphic_def)
    show "scan_options xray_option [''run'', ''-config'', ?C] (r\<lparr>pt_Prefix := prefixFromXrayBinary ?X (pt_Prefix r)\<rparr>) =
        r\<lparr>pt_Prefix := absolute ps, pt_DataDir := absolute ds\<rparr>"
      using assms by simp (simp add: xray_option_def)
  qed (use u in simp_all)
  show ?thesis
    unfolding detectXray_def split unfolding xray_lines_def fold.simps comp_def id_apply asset exec
    by (simp add: quiet_line trim_literal graphic_def has_prefix_def)
qed

section \<open>Repairing keeps the paths\<close>

lemma Validate_ok: "Validate order p = Inr () \<longleftrightarrow> (\<forall>name\<in>set order. check_path name (path_named p name) = Inr ())"
  by (induction order) auto

lemma valid_abs:
  assumes "Validate order p = Inr ()" "set order = set path_names"
  shows "IsAbs (pt_DataDir p)" "IsAbs (pt_Prefix p)" "IsAbs (pt_XportBinary p)"
  using assms by (auto simp: Validate_ok path_names_def path_named_def check_path_def split: if_split_asm)

lemma unit_path_valid: "unit_path xs \<Longrightarrow> check_path name (absolute xs) = Inr ()"
proof -
  assume u: "unit_path xs"
  have "trim_space (absolute xs) = absolute xs"
    using trim_space_line [of "[]" "absolute xs"] u by simp
  moreover have "\<not> contains_any (absolute xs) [CHR '' '', CHR 0x09, CHR 0x0D, CHR 0x0A]"
    using unspaced_no_blank [OF unit_path_simps(2) [OF u]] by (auto simp: contains_any_def list_ex_iff)
  ultimately show ?thesis by (simp add: check_path_def)
qed

text \<open>Paths in the form the units have them, and the texts for them.\<close>

definition clean_paths :: "string list \<Rightarrow> string list \<Rightarrow> string list \<Rightarrow> Paths" where
  "clean_paths ds ps bs = \<lparr>pt_DataDir = absolute ds, pt_Prefix = absolute ps, pt_XportBinary = absolute bs\<rparr>"

definition texts_of :: "string list \<Rightarrow> string list \<Rightarrow> string list \<Rightarrow> string \<times> string" where
  "texts_of ds ps bs =
     (join_with [CHR 0x0A] (panel_lines (absolute ds) (absolute ps) (absolute bs) (Dir (absolute bs))
        (absolute (ps @ [''bin'', ''xray''])) (absolute (ds @ [''xray'', ''config.json'']))),
      join_with [CHR 0x0A] (xray_lines (absolute ps) (absolute (ps @ [''bin'', ''xray''])) (absolute (ds @ [''xray'', ''config.json'']))))"

lemma Dir_unit_path:
  assumes "unit_path bs" obtains es where "Dir (absolute bs) = absolute es" "unit_path es"
proof (cases bs rule: rev_cases)
  case Nil
  have "Dir ''/'' = absolute []" using Clean_plain [of "[]"] by (simp add: Dir_def absolute_def)
  then show thesis using that [of "[]"] Nil by (simp add: absolute_def unit_path_def)
next
  case (snoc es b)
  then show thesis using that [of es] assms by (simp add: unit_path_def)
qed

lemma Render_clean:
  assumes "unit_path ds" "unit_path ps" "unit_path bs" "set order \<subseteq> set path_names"
  shows "Render order (clean_paths ds ps bs) = Inr (texts_of ds ps bs)" "Validate order (clean_paths ds ps bs) = Inr ()"
proof -
  show v: "Validate order (clean_paths ds ps bs) = Inr ()"
    using assms by (auto simp: Validate_ok clean_paths_def path_named_def unit_path_valid)
  have "Join [absolute ps, ''bin'', ''xray''] = absolute (ps @ [''bin'', ''xray''])"
    "Join [absolute ds, ''xray'', ''config.json''] = absolute (ds @ [''xray'', ''config.json''])"
    using assms by simp_all
  then show "Render order (clean_paths ds ps bs) = Inr (texts_of ds ps bs)"
    using v assms unfolding Render_def by (simp add: clean_paths_def texts_of_def Let_def)
qed

text \<open>The paths a person may give: no white space of any script in them.\<close>

definition well_spaced :: "Paths \<Rightarrow> bool" where
  "well_spaced p \<longleftrightarrow> unspaced (pt_DataDir p) \<and> unspaced (pt_Prefix p) \<and> unspaced (pt_XportBinary p)"

lemma Render_texts:
  assumes "Render order p = Inr t" "set order = set path_names" "well_spaced p"
  obtains ds ps bs where "unit_path ds" "unit_path ps" "unit_path bs" "t = texts_of ds ps bs"
    "Clean (pt_XportBinary p) = absolute bs" "Clean (pt_Prefix p) = absolute ps"
proof -
  have v: "Validate order p = Inr ()" using assms(1) by (auto simp: Render_def)
  note abs = valid_abs [OF v assms(2)]
  obtain ds where d: "Clean (pt_DataDir p) = absolute ds" "unit_path ds"
    using Clean_unit_path [OF abs(1)] assms(3) by (auto simp: well_spaced_def)
  obtain ps where p: "Clean (pt_Prefix p) = absolute ps" "unit_path ps"
    using Clean_unit_path [OF abs(2)] assms(3) by (auto simp: well_spaced_def)
  obtain bs where b: "Clean (pt_XportBinary p) = absolute bs" "unit_path bs"
    using Clean_unit_path [OF abs(3)] assms(3) by (auto simp: well_spaced_def)
  have "t = texts_of ds ps bs"
    using assms(1) v d p b by (simp add: Render_def texts_of_def Let_def)
  then show thesis using that d p b by blast
qed

lemma detected:
  assumes "unit_path ds" "unit_path ps" "unit_path bs" "set order \<subseteq> set path_names"
    "Content pt = panel \<or> Missing = panel" "Content xt = xray \<or> Missing = xray" "panel = Missing \<longrightarrow> xray \<noteq> Missing"
    "(pt, xt) = texts_of ds ps bs"
  shows "\<exists>b. DetectPaths order panel xray = Inr (clean_paths ds ps b) \<and> (panel \<noteq> Missing \<longrightarrow> b = bs) \<and> unit_path b"
proof -
  obtain es where es: "Dir (absolute bs) = absolute es" "unit_path es" using Dir_unit_path [OF assms(3)] .
  note dp = detect_panel_text [OF assms(1-3) es(2)] and dx = detect_xray_text [OF assms(1,2)]
  have def: "unit_path [''usr'', ''local'', ''bin'', ''xport'']"
    by (simp add: unit_path_def plain_def unspaced_Cons leading_seq_graphic graphic_def)
  have db: "absolute [''usr'', ''local'', ''bin'', ''xport''] = ''/usr/local/bin/xport''" by (simp add: absolute_def)
  show ?thesis
  proof (cases "panel = Missing")
    case True
    have "detectXray xt DefaultPaths = clean_paths ds ps [''usr'', ''local'', ''bin'', ''xport'']"
      using dx [of DefaultPaths] assms(8) db by (simp add: texts_of_def clean_paths_def DefaultPaths_def)
    then show ?thesis using True assms(6,7) Render_clean(2) [OF assms(1,2) def assms(4)] def
      by (intro exI [of _ "[''usr'', ''local'', ''bin'', ''xport'']"]) (auto simp: DetectPaths_def Let_def)
  next
    case False
    have "detectPanel pt DefaultPaths = clean_paths ds ps bs"
      using dp [of DefaultPaths] assms(8) es(1) by (simp add: texts_of_def clean_paths_def)
    moreover have "detectXray xt (clean_paths ds ps bs) = clean_paths ds ps bs"
      using dx [of "clean_paths ds ps bs"] assms(8) by (simp add: texts_of_def clean_paths_def)
    ultimately show ?thesis using False assms(5,6) Render_clean(2) [OF assms(1,2,3,4)] assms(3)
      by (intro exI [of _ bs]) (auto simp: DetectPaths_def Let_def)
  qed
qed

definition unit_dir :: string where
  "unit_dir = ''/etc/systemd/system''"

lemma unit_files:
  "Join [unit_dir, PanelUnitName] \<noteq> Join [unit_dir, XrayUnitName]" "IsAbs unit_dir"
proof -
  have d: "unit_dir = absolute [''etc'', ''systemd'', ''system'']" by (simp add: unit_dir_def absolute_def)
  show "IsAbs unit_dir" by (simp add: d)
  have "list_all plain [''etc'', ''systemd'', ''system'']" by (simp add: plain_def)
  then show "Join [unit_dir, PanelUnitName] \<noteq> Join [unit_dir, XrayUnitName]"
    by (simp add: d) (simp add: absolute_def PanelUnitName_def XrayUnitName_def)
qed

lemma Write_texts:
  assumes "Write dk order unit_dir p fs = (Inr (), fs')"
  obtains pt xt where "Render order p = Inr (pt, xt)"
    "fs' = fs(Join [unit_dir, PanelUnitName] := Some pt, Join [unit_dir, XrayUnitName] := Some xt)"
  using assms by (auto simp: Write_def write_file_def split: sum.split_asm option.split_asm if_split_asm prod.split_asm)

lemma Write_again:
  assumes "Render order p = Inr (pt, xt)" "dk_mkdir dk = None" "dk_panel dk = None" "dk_xray dk = None"
  shows "Write dk order unit_dir p fs =
    (Inr (), fs(Join [unit_dir, PanelUnitName] := Some pt, Join [unit_dir, XrayUnitName] := Some xt))"
  using assms unit_files by (simp add: Write_def write_file_def)

text \<open>(C18) A repair keeps a custom installation: once the units of some paths are written, a repair without flags
  run by the installed binary puts both units back exactly as they were, also when one of them was
  removed in between, whatever the directories are (in clean form or not) as long as they have no white space.\<close>

theorem repair_restores:
  assumes "Write dk order unit_dir p fs0 = (Inr (), fs)" "set order = set path_names" "well_spaced p"
    and "fs1 \<in> {fs, fs(Join [unit_dir, PanelUnitName] := None), fs(Join [unit_dir, XrayUnitName] := None)}"
    and "ho_root h" "ho_exe h = Some (Clean (pt_XportBinary p))" "\<forall>f. ho_unreadable h f = None" "\<forall>c. ho_command h c = None"
      "ho_exists h (Clean (pt_XportBinary p))" "ho_exists h (Join [Clean (pt_Prefix p), ''bin'', ''xray''])"
    and "dk_mkdir dk1 = None" "dk_panel dk1 = None" "dk_xray dk1 = None"
    and "\<forall>names\<in>{order1, order2, order3}. set names \<subseteq> set path_names"
    and "flags = \<lparr>fl_data = None, fl_prefix = None, fl_binary = None, fl_nargs = 0\<rparr>"
  shows "repairInstall h dk1 (order1, order2, order3) (Inr flags) fs1 = (Inr (), fs)"
proof -
  obtain pt xt where r: "Render order p = Inr (pt, xt)"
    and fs: "fs = fs0(Join [unit_dir, PanelUnitName] := Some pt, Join [unit_dir, XrayUnitName] := Some xt)"
    using assms(1) by (rule Write_texts)
  obtain ds ps bs where u: "unit_path ds" "unit_path ps" "unit_path bs" "(pt, xt) = texts_of ds ps bs"
    and b: "Clean (pt_XportBinary p) = absolute bs" and pp: "Clean (pt_Prefix p) = absolute ps"
    using Render_texts [OF r assms(2,3)] by metis
  let ?q = "clean_paths ds ps bs"
  have "\<exists>b. DetectPaths order1 (read_unit h fs1 (Join [unit_dir, PanelUnitName])) (read_unit h fs1 (Join [unit_dir, XrayUnitName])) =
      Inr (clean_paths ds ps b)"
  proof -
    have "set order1 \<subseteq> set path_names" using assms(14) by simp
    note d = detected [OF u(1-3) this _ _ _ u(4)]
    show ?thesis
      using assms(4,7) unit_files(1) d [of "Content pt" "Content xt"] d [of "Missing" "Content xt"] d [of "Content pt" "Missing"]
      by (auto simp: read_unit_def read_file_def fs)
  qed
  then obtain b0 where det: "DetectPaths order1 (read_unit h fs1 (Join [unit_dir, PanelUnitName]))
      (read_unit h fs1 (Join [unit_dir, XrayUnitName])) = Inr (clean_paths ds ps b0)" by blast
  have q: "(clean_paths ds ps b0)\<lparr>pt_XportBinary := absolute bs\<rparr> = ?q" "given flags ?q = ?q" "fl_nargs flags = 0"
    by (simp_all add: clean_paths_def given_def assms(15))
  have v: "Validate order2 ?q = Inr ()" using Render_clean(2) [OF u(1-3), of order2] assms(14) by simp
  have r3: "Render order3 ?q = Inr (pt, xt)" using Render_clean(1) [OF u(1-3), of order3] assms(14) u(4) by simp
  have w: "Write dk1 order3 unit_dir ?q fs1 = (Inr (), fs)"
    using Write_again [OF r3 assms(11-13), of fs1] assms(4) unit_files(1) by (auto simp: fs fun_upd_twist)
  have "ho_exists h (pt_XportBinary ?q)" "ho_exists h (XrayBinary ?q)"
    using assms(9,10) b pp by (simp_all add: clean_paths_def XrayBinary_def)
  then show ?thesis
    using assms(5,6,8) det q v w b
    by (simp add: repairInstall_def Let_def unit_dir_def [symmetric] run_command_def)
qed

definition sample_paths :: Paths where
  "sample_paths = \<lparr>pt_DataDir = ''/srv/x-port/../panel/'', pt_Prefix = ''/opt/x-port'', pt_XportBinary = ''/opt/x-port/xport''\<rparr>"

definition calm_disk :: Disk where
  "calm_disk = \<lparr>dk_mkdir = None, dk_panel = None, dk_xray = None\<rparr>"

definition calm_host :: Host where
  "calm_host = \<lparr>ho_root = True, ho_exe = Some ''/opt/x-port/xport'', ho_unreadable = (\<lambda>f. None), ho_exists = (\<lambda>f. True),
     ho_command = (\<lambda>c. None)\<rparr>"

lemma sample_paths_ok:
  "Validate path_names sample_paths = Inr ()" "well_spaced sample_paths" "Clean ''/opt/x-port/xport'' = ''/opt/x-port/xport''"
  "Clean (pt_DataDir sample_paths) = ''/srv/panel''"
  by code_simp+

theorem repair_restores_witness:
  "\<exists>fs. snd (Write calm_disk path_names unit_dir sample_paths (\<lambda>f. None)) = fs \<and>
     fs (Join [unit_dir, PanelUnitName]) \<noteq> None \<and>
     repairInstall calm_host calm_disk (path_names, path_names, path_names)
       (Inr \<lparr>fl_data = None, fl_prefix = None, fl_binary = None, fl_nargs = 0\<rparr>) (fs(Join [unit_dir, PanelUnitName] := None)) = (Inr (), fs)"
proof -
  obtain pt xt where r: "Render path_names sample_paths = Inr (pt, xt)"
    using sample_paths_ok(1) by (simp add: Render_def Let_def)
  note w = Write_again [OF r, of calm_disk "\<lambda>f. None"]
  show ?thesis
    using repair_restores [of calm_disk path_names sample_paths "\<lambda>f. None", OF w _ _ _, of _ calm_host calm_disk path_names path_names path_names]
      sample_paths_ok w unit_files(1)
    by (simp add: calm_disk_def calm_host_def) (simp add: sample_paths_def)
qed

text \<open>The checks look for four kinds of white space only, while the command line of a unit is split at
  every kind: the binary of these paths is accepted, and lost when the unit is read back.\<close>

definition spaced_paths :: Paths where
  "spaced_paths = sample_paths\<lparr>pt_XportBinary := ''/opt/x'' @ [CHR 0x0B] @ ''port''\<rparr>"

lemma spaced_binary_split:
  "Validate path_names spaced_paths = Inr ()" "Prelude.fields (Clean (pt_XportBinary spaced_paths)) = [''/opt/x'', ''port'']"
  by code_simp+

end
