(* ===== verification/System.thy ===== *)
theory System
  imports Files
begin

text \<open>
  Commands on the host (\<open>internal/ops/system.go\<close>): what is accepted as a unit and as a path, the journal,
  restarts, and the restart after an update with the script that puts the previous binary back.
\<close>

section \<open>Checks\<close>

definition unit_char :: "char \<Rightarrow> bool" where
  "unit_char c \<longleftrightarrow> c \<in> set ''ABCDEFGHIJKLMNOPQRSTUVWXYZabcdefghijklmnopqrstuvwxyz0123456789_.@:-''"

definition validSystemdUnit :: "string \<Rightarrow> bool" where
  "validSystemdUnit service \<longleftrightarrow> service \<noteq> [] \<and> length service \<le> 255 \<and> list_all unit_char service"

definition validManagedPath :: "string \<Rightarrow> bool" where
  "validManagedPath path \<longleftrightarrow> IsAbs path \<and> Clean path = path \<and> CHR 0x00 \<notin> set path"

section \<open>Commands\<close>

text \<open>How \<open>CombinedOutput\<close> ends under a deadline.\<close>

datatype ran = Expired err | Exited err string | Ran string

type_synonym shell = "string list \<Rightarrow> ran"

definition combined :: "string \<Rightarrow> string \<Rightarrow> ran \<Rightarrow> string res" where
  "combined form subject r =
     (case r of
        Expired e \<Rightarrow> Inl e
      | Exited e out \<Rightarrow> Inl (Errorf form [subject, trim_space out] [e])
      | Ran out \<Rightarrow> Inr out)"

definition Journal :: "shell \<Rightarrow> string \<Rightarrow> int \<Rightarrow> string res" where
  "Journal sh service lines =
     (if \<not> validSystemdUnit service then Inl (ErrNew ''invalid service name'')
      else let lines = (if lines < 1 then 200 else lines); lines = (if lines > 2000 then 2000 else lines)
        in combined ''journalctl %s: %w: %s'' service
             (sh [''journalctl'', ''-u'', service, ''-n'', itoa lines, ''--no-pager'', ''-o'', ''short-iso'']))"

definition RestartService :: "shell \<Rightarrow> string \<Rightarrow> unit res" where
  "RestartService sh service =
     (if \<not> validSystemdUnit service then Inl (ErrNew ''invalid service name'')
      else bindR (combined ''restart %s: %w: %s'' service (sh [''systemctl'', ''restart'', service])) (\<lambda>_. Inr ()))"

text \<open>Durations are nanoseconds; how one is printed is an argument, like the clock.\<close>

definition second :: int where
  "second = 1000000000"

definition ScheduleRestart :: "shell \<Rightarrow> (int \<Rightarrow> string) \<Rightarrow> int \<Rightarrow> string \<Rightarrow> int \<Rightarrow> unit res" where
  "ScheduleRestart sh dur now service delay =
     (if \<not> validSystemdUnit service then Inl (ErrNew ''invalid service name'')
      else let delay = (if delay < second then second else delay)
        in bindR (combined ''schedule restart %s: %w: %s'' service
             (sh [''systemd-run'', ''--quiet'', ''--unit'', ''xport-panel-restart-'' @ itoa now, ''--on-active='' @ dur delay,
                  ''/bin/systemctl'', ''restart'', service])) (\<lambda>_. Inr ()))"

definition verifiedBinaryRestartScript :: string where
  "verifiedBinaryRestartScript =
     ''service=\"$1\"; bin=\"$2\"; bak=\"$3\"; '' @
     ''if systemctl restart \"$service\"; then '' @
     ''i=0; while [ \"$i\" -lt 10 ]; do sleep 1; systemctl is-active --quiet \"$service\" || break; i=$((i+1)); done; '' @
     ''if [ \"$i\" -eq 10 ]; then exit 0; fi; fi; '' @
     ''if [ ! -f \"$bak\" ]; then exit 1; fi; '' @
     ''rm -f \"$bin\"; mv \"$bak\" \"$bin\"; systemctl restart \"$service\"''"

definition verified_restart :: "(int \<Rightarrow> string) \<Rightarrow> int \<Rightarrow> string \<Rightarrow> string \<Rightarrow> string \<Rightarrow> int \<Rightarrow> string list" where
  "verified_restart dur now service binary backup delay =
     [''systemd-run'', ''--quiet'', ''--unit'', ''xport-self-update-'' @ itoa now, ''--on-active='' @ dur delay, ''/bin/sh'', ''-c'',
      verifiedBinaryRestartScript, ''xport-self-update'', service, binary, backup]"

definition ScheduleVerifiedBinaryRestart ::
    "shell \<Rightarrow> (int \<Rightarrow> string) \<Rightarrow> int \<Rightarrow> string \<Rightarrow> string \<Rightarrow> string \<Rightarrow> int \<Rightarrow> unit res" where
  "ScheduleVerifiedBinaryRestart sh dur now service binary backup delay =
     (if \<not> validSystemdUnit service then Inl (ErrNew ''invalid service name'')
      else if \<not> validManagedPath binary \<or> \<not> validManagedPath backup then Inl (ErrNew ''invalid binary or backup path'')
      else if backup \<noteq> binary @ ''.previous'' then Inl (ErrNew ''backup path must be the managed .previous generation'')
      else let delay = (if delay < second then second else delay)
        in bindR (combined ''schedule verified restart %s: %w: %s'' service
             (sh (verified_restart dur now service binary backup delay))) (\<lambda>_. Inr ()))"

section \<open>What the script does\<close>

text \<open>
  The answers of \<open>systemctl\<close> and of \<open>mv\<close> to the script: the restart, the check after each second, the
  move, the second restart. The script ends with a success, and leaves these files.
\<close>

record Service =
  sv_restart :: bool
  sv_active :: "nat \<Rightarrow> bool"
  sv_move :: "err option"
  sv_again :: bool

text \<open>The loop: \<open>i\<close> counts the checks that found the service active.\<close>

fun active_checks :: "(nat \<Rightarrow> bool) \<Rightarrow> nat \<Rightarrow> nat \<Rightarrow> nat" where
  "active_checks act 0 i = i"
| "active_checks act (Suc n) i = (if act i then active_checks act n (Suc i) else i)"

definition verified_script :: "Service \<Rightarrow> string \<Rightarrow> string \<Rightarrow> files \<Rightarrow> bool \<times> files" where
  "verified_script sv bin bak fs =
     (if sv_restart sv \<and> active_checks (sv_active sv) 10 0 = 10 then (True, fs)
      else if fs bak = None then (False, fs)
      else (sv_again sv, snd (rename_file (sv_move sv) bak bin (fs(bin := None)))))"

lemma active_checks_le: "i \<le> active_checks act n i \<and> active_checks act n i \<le> i + n"
  by (induction act n i rule: active_checks.induct) auto

lemma active_checks_all: "active_checks act n i = i + n \<longleftrightarrow> (\<forall>k < n. act (i + k))"
proof (induction act n i rule: active_checks.induct)
  case (2 act n i)
  have "(\<forall>k < Suc n. act (i + k)) \<longleftrightarrow> act i \<and> (\<forall>k < n. act (Suc i + k))"
    by (auto simp: All_less_Suc2)
  then show ?case using 2 by simp
qed simp

text \<open>After the script either the service was active for ten checks and nothing moved, or the backup is the
  binary again.\<close>

lemma verified_script_spec:
  assumes "bak \<noteq> bin" "sv_move sv = None" "fs bak = Some old"
  shows "verified_script sv bin bak fs =
    (if sv_restart sv \<and> (\<forall>k < 10. sv_active sv k) then (True, fs) else (sv_again sv, fs(bin := Some old, bak := None)))"
  using assms active_checks_all [of "sv_active sv" 10 0]
  by (auto simp: verified_script_def rename_file_def fun_eq_iff)

end
