(* ===== verification/Digest.thy ===== *)
theory Digest
  imports Prelude "HOL-Library.Word"
begin

unbundle bit_operations_syntax

text \<open>
  \<open>crypto/sha256\<close> and \<open>encoding/hex\<close> of the standard library, over 32-bit words: the rule revision
  of the firewall handlers and the rate-limit key of the login use them. A text is a list of bytes,
  one for each character; \<open>rune_count\<close> is the number of runes Go decodes it to.
\<close>

section \<open>Words and bytes\<close>

definition be32 :: "nat list \<Rightarrow> 32 word" where
  "be32 bs = foldl (\<lambda>w b. push_bit 8 w OR word_of_nat b) 0 bs"

definition bytes32 :: "32 word \<Rightarrow> nat list" where
  "bytes32 w = map (\<lambda>n. unat (drop_bit n w AND 255)) [24, 16, 8, 0]"

text \<open>Blocks of \<open>k > 0\<close> items.\<close>

function chunks :: "nat \<Rightarrow> 'a list \<Rightarrow> 'a list list" where
  "chunks k xs = (if xs = [] \<or> k = 0 then [] else take k xs # chunks k (drop k xs))"
  by pat_completeness auto
termination by (relation "measure (\<lambda>(k, xs). length xs)") auto

declare chunks.simps [simp del]

text \<open>A one bit, zeros, and the length in bits as 64 bits.\<close>

definition padded :: "nat list \<Rightarrow> nat list" where
  "padded bs =
     (let zeros = (119 - length bs mod 64) mod 64; bits = 8 * length bs in
      bs @ [128] @ replicate zeros 0 @ map (\<lambda>n. bits div 2 ^ n mod 256) [56, 48, 40, 32, 24, 16, 8, 0])"

section \<open>The compression function\<close>

definition rotr :: "nat \<Rightarrow> 32 word \<Rightarrow> 32 word" where
  "rotr n w = drop_bit n w OR push_bit (32 - n) w"

text \<open>
  The constants are the first 32 bits of the fractional parts of the cube roots of the first 64 primes,
  and of the square roots of the first eight; \<open>kth_root\<close> finds the root of a number below \<open>2 ^ (36 * k)\<close> bit
  by bit.
\<close>

definition kth_root :: "nat \<Rightarrow> nat \<Rightarrow> nat" where
  "kth_root k n = foldl (\<lambda>r b. if (r + 2 ^ b) ^ k \<le> n then r + 2 ^ b else r) 0 (rev [0..<36])"

definition small_primes :: "nat list" where
  "small_primes = filter (\<lambda>n. list_all (\<lambda>d. n mod d \<noteq> 0) [2..<n]) [2..<312]"

definition round_constants :: "32 word list" where
  "round_constants = map (\<lambda>p. word_of_nat (kth_root 3 (p * 2 ^ 96))) small_primes"

definition initial_hash :: "32 word list" where
  "initial_hash = map (\<lambda>p. word_of_nat (kth_root 2 (p * 2 ^ 64))) (take 8 small_primes)"

text \<open>The message schedule, the newest word first.\<close>

fun schedule :: "nat \<Rightarrow> 32 word list \<Rightarrow> 32 word list" where
  "schedule 0 ws = ws"
| "schedule (Suc n) ws =
     (let x = ws ! 14; y = ws ! 1;
          s0 = rotr 7 x XOR rotr 18 x XOR drop_bit 3 x;
          s1 = rotr 17 y XOR rotr 19 y XOR drop_bit 10 y
      in schedule n ((ws ! 15 + s0 + ws ! 6 + s1) # ws))"

fun sha_round :: "32 word list \<Rightarrow> 32 word \<times> 32 word \<Rightarrow> 32 word list" where
  "sha_round [a, b, c, d, e, f, g, h] (k, w) =
     (let s1 = rotr 6 e XOR rotr 11 e XOR rotr 25 e;
          ch = (e AND f) XOR (NOT e AND g);
          t1 = h + s1 + ch + k + w;
          s0 = rotr 2 a XOR rotr 13 a XOR rotr 22 a;
          maj = (a AND b) XOR (a AND c) XOR (b AND c)
      in [t1 + (s0 + maj), a, b, c, d + t1, e, f, g])"
| "sha_round v p = v"

definition compress :: "32 word list \<Rightarrow> nat list \<Rightarrow> 32 word list" where
  "compress hash block =
     (let ws = rev (schedule 48 (rev (map be32 (chunks 4 block))))
      in map2 (+) hash (foldl sha_round hash (zip round_constants ws)))"

definition sha256 :: "nat list \<Rightarrow> nat list" where
  "sha256 bs = concat (map bytes32 (foldl compress initial_hash (chunks 64 (padded bs))))"

definition Sum256 :: "string \<Rightarrow> nat list" where
  "Sum256 s = sha256 (map of_char s)"

section \<open>Runes\<close>

text \<open>
  The width of the first rune: a well-formed UTF-8 sequence, or one byte that becomes the replacement
  character.
\<close>

definition cont :: "nat \<Rightarrow> nat \<Rightarrow> nat \<Rightarrow> bool" where
  "cont lo hi b \<longleftrightarrow> lo \<le> b \<and> b \<le> hi"

definition second_range :: "nat \<Rightarrow> nat \<times> nat" where
  "second_range b =
     (if b = 0xE0 then (0xA0, 0xBF) else if b = 0xED then (0x80, 0x9F)
      else if b = 0xF0 then (0x90, 0xBF) else if b = 0xF4 then (0x80, 0x8F) else (0x80, 0xBF))"

definition rune_width :: "nat list \<Rightarrow> nat" where
  "rune_width bs =
     (case bs of
        [] \<Rightarrow> 0
      | b # rest \<Rightarrow>
          (let need = (if cont 0xC2 0xDF b then 1 else if cont 0xE0 0xEF b then 2 else if cont 0xF0 0xF4 b then 3
                       else 0);
               (lo, hi) = second_range b
           in if need > 0 \<and> need \<le> length rest \<and> cont lo hi (hd rest) \<and>
                 list_all (cont 0x80 0xBF) (take need rest)
              then need + 1 else 1))"

lemma rune_width_pos: "bs \<noteq> [] \<Longrightarrow> 0 < rune_width bs"
  by (cases bs) (auto simp: rune_width_def Let_def split: prod.split)

function runes :: "nat list \<Rightarrow> nat" where
  "runes bs = (if bs = [] then 0 else Suc (runes (drop (rune_width bs) bs)))"
  by pat_completeness auto
termination by (relation "measure length") (auto simp: rune_width_pos)

declare runes.simps [simp del]

definition rune_count :: "string \<Rightarrow> nat" where
  "rune_count s = runes (map of_char s)"

end
