(* ===== verification/SelfUpdate.thy ===== *)
theory SelfUpdate
  imports System Digest
begin

text \<open>
  Updating the panel's own binary (\<open>internal/selfupdate/updater.go\<close>): the release that is offered, its
  download with size limit and digest, and the replacement of the binary that keeps the former one.

  The server that publishes releases, the candidate run for its version and the file system's faults are
  arguments. The download goes to a private directory that is removed at the end; the model has its content
  only.
\<close>

section \<open>Releases\<close>

record Asset =
  as_Name :: string
  as_APIURL :: string
  as_WebURL :: string
  as_Digest :: string
  as_Size :: int

record release =
  re_Tag :: string
  re_Draft :: bool
  re_Prerelease :: bool
  re_Assets :: "Asset list"

record UpdateInfo =
  ui_Current :: string
  ui_Latest :: string
  ui_Available :: bool
  ui_Asset :: string
  ui_AuthMode :: string

record Updater =
  up_CurrentVersion :: string
  up_BinaryPath :: string
  up_Repo :: string
  up_Token :: string
  up_ReleasesURL :: string
  up_Arch :: string

text \<open>An answer to a \<open>GET\<close> with some headers: none, or a status with a body.\<close>

datatype 'a http = NoReply err | Reply int 'a

type_synonym 'a net = "string \<Rightarrow> (string \<times> string) list \<Rightarrow> 'a http"

definition normalize_version :: "string \<Rightarrow> string" where
  "normalize_version v = trim_prefix (trim_space v) ''v''"

definition assetName :: "string \<Rightarrow> string res" where
  "assetName arch =
     (if arch = ''amd64'' then Inr ''xport-linux-amd64''
      else if arch = ''arm64'' then Inr ''xport-linux-arm64''
      else Inl (Errorf ''unsupported architecture %s'' [arch] []))"

definition update_headers :: "Updater \<Rightarrow> bool \<Rightarrow> (string \<times> string) list" where
  "update_headers u binary =
     [(''User-Agent'', ''X-port/0.1''),
      (''Accept'', if binary then ''application/octet-stream'' else ''application/vnd.github+json'')] @
     (let token = trim_space (up_Token u) in if token \<noteq> [] then [(''Authorization'', ''Bearer '' @ token)] else [])"

fun select_asset :: "string \<Rightarrow> release list \<Rightarrow> (release \<times> Asset) option" where
  "select_asset name [] = None"
| "select_asset name (rel # rels) =
     (if re_Draft rel \<or> re_Prerelease rel then select_asset name rels
      else case find (\<lambda>a. as_Name a = name) (re_Assets rel) of
        Some a \<Rightarrow> Some (rel, a)
      | None \<Rightarrow> select_asset name rels)"

definition releases_url :: "Updater \<Rightarrow> string" where
  "releases_url u =
     (if up_ReleasesURL u \<noteq> [] then up_ReleasesURL u
      else let repo = trim_space (up_Repo u); repo = (if repo = [] then ''Kerberos255/X-port'' else repo)
        in ''https://api.github.com/repos/'' @ repo @ ''/releases?per_page=10'')"

definition latest :: "Updater \<Rightarrow> release list res net \<Rightarrow> (release \<times> Asset) res" where
  "latest u api =
     (case api (releases_url u) (update_headers u False) of
        NoReply e \<Rightarrow> Inl e
      | Reply code body \<Rightarrow>
          if code = 404 \<and> trim_space (up_Token u) = []
          then Inl (ErrNew ''X-port release unavailable; private repository requires XPORT_GITHUB_TOKEN'')
          else if code \<noteq> 200 then Inl (Errorf ''X-port releases: HTTP %d'' [itoa code] [])
          else bindR body (\<lambda>rels. bindR (assetName (up_Arch u)) (\<lambda>name.
            case select_asset name rels of
              None \<Rightarrow> Inl (Errorf ''no stable %s release asset found'' [name] [])
            | Some x \<Rightarrow> Inr x)))"

definition Check :: "Updater \<Rightarrow> release list res net \<Rightarrow> (UpdateInfo \<times> Asset) res" where
  "Check u api =
     bindR (latest u api) (\<lambda>(rel, asset).
       let current = normalize_version (up_CurrentVersion u); lat = normalize_version (re_Tag rel);
           mode = (if trim_space (up_Token u) \<noteq> [] then ''token'' else ''public'')
       in Inr (\<lparr>ui_Current = current, ui_Latest = lat, ui_Available = (current \<noteq> lat), ui_Asset = as_Name asset,
                ui_AuthMode = mode\<rparr>, asset))"

section \<open>The download\<close>

definition download_limit :: int where
  "download_limit = 67108864"

text \<open>The body: the bytes that arrive, and the error that ends them, if any; and the faults of the file.\<close>

record Download =
  dl_open :: "err option"
  dl_write :: "err option"
  dl_close :: "err option"

definition copy_limited :: "err option \<Rightarrow> string \<times> err option \<Rightarrow> string \<times> err option" where
  "copy_limited disk body =
     (let (data, fault) = body; kept = take (nat (download_limit + 1)) data in
      (kept, if disk \<noteq> None then disk else if int (length data) \<le> download_limit then fault else None))"

definition digest_matches :: "string \<Rightarrow> string \<Rightarrow> bool" where
  "digest_matches digest data \<longleftrightarrow> equal_fold (trim_prefix digest ''sha256:'') (hex_encode (Sum256 data))"

definition download :: "Updater \<Rightarrow> (string \<times> err option) net \<Rightarrow> Download \<Rightarrow> Asset \<Rightarrow> string res" where
  "download u files_net dl asset =
     (let api = (as_APIURL asset \<noteq> []); url = (if api then as_APIURL asset else as_WebURL asset) in
      if url = [] then Inl (ErrNew ''release asset has no download URL'')
      else case files_net url (update_headers u api) of
        NoReply e \<Rightarrow> Inl e
      | Reply code body \<Rightarrow>
          if code \<noteq> 200 then Inl (Errorf ''download X-port: HTTP %d'' [itoa code] [])
          else case dl_open dl of Some e \<Rightarrow> Inl e | None \<Rightarrow>
            (let (data, fault) = copy_limited (dl_write dl) body in
             case fault of Some e \<Rightarrow> Inl e | None \<Rightarrow>
             case dl_close dl of Some e \<Rightarrow> Inl e | None \<Rightarrow>
               if int (length data) > download_limit then Inl (ErrNew ''X-port release exceeds download limit'')
               else if \<not> has_prefix (as_Digest asset) ''sha256:'' then Inl (ErrNew ''X-port release asset has no SHA-256 digest'')
               else if \<not> digest_matches (as_Digest asset) data then Inl (ErrNew ''X-port release SHA-256 mismatch'')
               else Inr data))"

text \<open>Running a binary for its version.\<close>

definition executableVersion :: "(string \<Rightarrow> ran) \<Rightarrow> string \<Rightarrow> string res" where
  "executableVersion run data =
     (case run data of
        Expired e \<Rightarrow> Inl e
      | Exited e out \<Rightarrow> Inl (Errorf ''%w: %s'' [trim_space out] [e])
      | Ran out \<Rightarrow>
          (let v = trim_space (hd (split_on (CHR 0x0A) out)) in
           if v = [] then Inl (ErrNew ''empty version output'') else Inr v))"

section \<open>Replacing the binary\<close>

record Copying =
  cp_in :: "err option"
  cp_out :: "err option"
  cp_copy :: "err option"
  cp_close :: "err option"
  cp_left :: "string option"
  cp_rename :: "err option"

text \<open>A copy that fails removes its temporary file, or leaves it in some state.\<close>

definition copyBinary :: "Copying \<Rightarrow> string \<Rightarrow> string \<Rightarrow> files \<Rightarrow> unit res \<times> files" where
  "copyBinary cp data dst fs =
     (let tmp = dst @ ''.new'' in
      case cp_in cp of Some e \<Rightarrow> (Inl e, fs) | None \<Rightarrow>
      case cp_out cp of Some e \<Rightarrow> (Inl e, fs) | None \<Rightarrow>
      case cp_copy cp of Some e \<Rightarrow> (Inl e, fs(tmp := cp_left cp)) | None \<Rightarrow>
      case cp_close cp of Some e \<Rightarrow> (Inl e, fs(tmp := cp_left cp)) | None \<Rightarrow>
        rename_file (cp_rename cp) tmp dst (fs(tmp := Some data)))"

record Staging =
  st_tmp :: "err option"
  st_download :: Download
  st_chmod :: "err option"
  st_resolved :: "string option"
  st_mkdir :: "err option"
  st_stat :: "err option"
  st_keeps :: bool
  st_rename :: "err option"
  st_copy :: Copying
  st_back :: "err option"

definition managed :: "Updater \<Rightarrow> string option \<Rightarrow> string" where
  "managed u resolved = (case resolved of Some r \<Rightarrow> r | None \<Rightarrow> up_BinaryPath u)"

text \<open>From the resolved path on, with the checked content of the new binary.\<close>

definition replace_binary :: "Staging \<Rightarrow> string \<Rightarrow> string \<Rightarrow> files \<Rightarrow> string res \<times> files" where
  "replace_binary st binary data fs =
     (let backup = binary @ ''.previous'' in
      case st_mkdir st of Some e \<Rightarrow> (Inl e, fs) | None \<Rightarrow>
      case stat_file (st_stat st) binary fs of
        Inl e \<Rightarrow> (Inl (Errorf ''current X-port binary: %w'' [] [e]), fs)
      | Inr _ \<Rightarrow>
          (case rename_file (st_rename st) binary backup (remove_file (st_keeps st) backup fs) of
             (Inl e, fs1) \<Rightarrow> (Inl e, fs1)
           | (Inr _, fs1) \<Rightarrow>
               (case copyBinary (st_copy st) data binary fs1 of
                  (Inl e, fs2) \<Rightarrow> (Inl e, snd (rename_file (st_back st) backup binary fs2))
                | (Inr _, fs2) \<Rightarrow> (Inr backup, fs2))))"

definition Stage ::
    "Updater \<Rightarrow> release list res net \<Rightarrow> (string \<times> err option) net \<Rightarrow> (string \<Rightarrow> ran) \<Rightarrow> Staging \<Rightarrow> files \<Rightarrow>
     (UpdateInfo \<times> string) res \<times> files" where
  "Stage u api files_net run st fs =
     (case Check u api of
        Inl e \<Rightarrow> (Inl e, fs)
      | Inr (info, asset) \<Rightarrow>
          if \<not> ui_Available info then (Inr (info, []), fs)
          else if as_Size asset \<le> 0 \<or> as_Size asset > download_limit
          then (Inl (Errorf ''unexpected X-port asset size %d'' [itoa (as_Size asset)] []), fs)
          else if trim_space (up_BinaryPath u) = [] then (Inl (ErrNew ''X-port binary path is not configured''), fs)
          else case st_tmp st of Some e \<Rightarrow> (Inl e, fs) | None \<Rightarrow>
            (case download u files_net (st_download st) asset of
               Inl e \<Rightarrow> (Inl e, fs)
             | Inr data \<Rightarrow>
                 (case st_chmod st of Some e \<Rightarrow> (Inl e, fs) | None \<Rightarrow>
                  case executableVersion run data of
                    Inl e \<Rightarrow> (Inl (Errorf ''candidate X-port binary check failed: %w'' [] [e]), fs)
                  | Inr v \<Rightarrow>
                      if normalize_version v \<noteq> ui_Latest info
                      then (Inl (Errorf ''candidate version %q does not match release %q'' [v, ui_Latest info] []), fs)
                      else (case replace_binary st (managed u (st_resolved st)) data fs of
                          (Inl e, fs1) \<Rightarrow> (Inl e, fs1)
                        | (Inr backup, fs1) \<Rightarrow> (Inr (info\<lparr>ui_Current := v, ui_Available := False\<rparr>, backup), fs1)))))"

record Restoring =
  rs_resolved :: "string option"
  rs_stat :: "err option"
  rs_keeps :: bool
  rs_rename :: "err option"

definition Restore :: "Updater \<Rightarrow> Restoring \<Rightarrow> string \<Rightarrow> files \<Rightarrow> unit res \<times> files" where
  "Restore u rs backup fs =
     (if backup = [] then (Inl (ErrNew ''backup path is empty''), fs)
      else let binary = managed u (rs_resolved rs) in
        case stat_file (rs_stat rs) backup fs of
          Inl e \<Rightarrow> (Inl e, fs)
        | Inr _ \<Rightarrow> rename_file (rs_rename rs) backup binary (remove_file (rs_keeps rs) binary fs))"

section \<open>What a staged binary is\<close>

text \<open>Checked against the release that is offered: its digest, its size and the version it reports.\<close>

definition vetted :: "Updater \<Rightarrow> release list res net \<Rightarrow> (string \<Rightarrow> ran) \<Rightarrow> string \<Rightarrow> bool" where
  "vetted u api run data \<longleftrightarrow>
     (\<exists>rel asset v. latest u api = Inr (rel, asset) \<and> \<not> re_Draft rel \<and> \<not> re_Prerelease rel \<and> asset \<in> set (re_Assets rel) \<and>
        assetName (up_Arch u) = Inr (as_Name asset) \<and> 0 < as_Size asset \<and> as_Size asset \<le> download_limit \<and>
        int (length data) \<le> download_limit \<and> digest_matches (as_Digest asset) data \<and>
        executableVersion run data = Inr v \<and> normalize_version v = normalize_version (re_Tag rel) \<and>
        normalize_version v \<noteq> normalize_version (up_CurrentVersion u))"

lemma select_asset_sound:
  "select_asset name rels = Some (rel, a) \<Longrightarrow>
    rel \<in> set rels \<and> \<not> re_Draft rel \<and> \<not> re_Prerelease rel \<and> a \<in> set (re_Assets rel) \<and> as_Name a = name"
  by (induction rels) (auto split: if_split_asm option.split_asm simp: find_Some_iff)

lemma latest_sound:
  "latest u api = Inr (rel, a) \<Longrightarrow>
    \<not> re_Draft rel \<and> \<not> re_Prerelease rel \<and> a \<in> set (re_Assets rel) \<and> assetName (up_Arch u) = Inr (as_Name a)"
proof -
  assume l: "latest u api = Inr (rel, a)"
  then obtain name rels where "assetName (up_Arch u) = Inr name" "select_asset name rels = Some (rel, a)"
    by (auto simp: latest_def split: http.split_asm if_split_asm option.split_asm)
  then show ?thesis using select_asset_sound by fastforce
qed

lemma download_sound:
  "download u net dl asset = Inr data \<Longrightarrow> int (length data) \<le> download_limit \<and> digest_matches (as_Digest asset) data"
  by (auto simp: download_def Let_def split: if_split_asm http.split_asm option.split_asm prod.split_asm)

lemma Stage_cases:
  assumes "Stage u api net run st fs = (q, fs')"
  obtains
    (stopped) e where "q = Inl e" "fs' = fs"
  | (current) info where "q = Inr (info, [])" "fs' = fs"
  | (replaced) data r where "vetted u api run data"
      "replace_binary st (managed u (st_resolved st)) data fs = (r, fs')"
      "(\<exists>e. r = Inl e \<and> q = Inl e) \<or> (\<exists>info backup. r = Inr backup \<and> q = Inr (info, backup))"
proof -
  show thesis
  proof (cases "Check u api")
    case (Inl e)
    then show thesis using assms by (intro stopped) (auto simp: Stage_def)
  next
    case (Inr p)
    obtain info asset where p: "p = (info, asset)" by (cases p)
    obtain rel where l: "latest u api = Inr (rel, asset)" and i: "ui_Latest info = normalize_version (re_Tag rel)"
      "ui_Available info = (normalize_version (up_CurrentVersion u) \<noteq> normalize_version (re_Tag rel))"
      using Inr p by (auto simp: Check_def Let_def)
    let ?ok = "\<lambda>data v. ui_Available info \<and> 0 < as_Size asset \<and> as_Size asset \<le> download_limit \<and>
      download u net (st_download st) asset = Inr data \<and> executableVersion run data = Inr v \<and> normalize_version v = ui_Latest info"
    have "((\<exists>e. q = Inl e) \<or> (\<exists>info. q = Inr (info, []))) \<and> fs' = fs \<or>
      (\<exists>data v r. ?ok data v \<and> replace_binary st (managed u (st_resolved st)) data fs = (r, fs') \<and>
        ((\<exists>e. r = Inl e \<and> q = Inl e) \<or> (\<exists>info backup. r = Inr backup \<and> q = Inr (info, backup))))"
      using assms Inr p
      by (auto simp: Stage_def not_le split: if_split_asm option.split_asm sum.split_asm prod.split_asm)
    then show thesis
    proof (elim disjE exE conjE)
      fix data v r assume ok: "ui_Available info" "0 < as_Size asset" "as_Size asset \<le> download_limit"
          "download u net (st_download st) asset = Inr data" "executableVersion run data = Inr v" "normalize_version v = ui_Latest info"
        and r: "replace_binary st (managed u (st_resolved st)) data fs = (r, fs')"
      have pub: "vetted u api run data"
        unfolding vetted_def using ok l i latest_sound [OF l] download_sound [OF ok(4)] by (intro exI [of _ rel]) auto
      show "r = Inl e \<Longrightarrow> q = Inl e \<Longrightarrow> thesis" for e using replaced [OF pub r] by blast
      show "r = Inr backup \<Longrightarrow> q = Inr (info', backup) \<Longrightarrow> thesis" for info' backup using replaced [OF pub r] by blast
    qed (use stopped current in blast)+
  qed
qed

text \<open>The replacement: the new binary with the former one beside it, or the former one where it was.\<close>

lemma copyBinary_cases:
  assumes "copyBinary cp data dst fs = (r, fs')"
  obtains (copied) "r = Inr ()" "fs' = fs(dst @ ''.new'' := None, dst := Some data)"
  | (failed) e where "r = Inl e" "\<And>p. p \<noteq> dst @ ''.new'' \<Longrightarrow> fs' p = fs p"
  using assms
  by (auto simp: copyBinary_def Let_def rename_file_def split: option.split_asm if_split_asm)

lemma replace_binary_cases:
  assumes "replace_binary st binary data fs = (r, fs')" "st_back st = None"
  obtains (made) old where "r = Inr (binary @ ''.previous'')" "fs binary = Some old" "fs' binary = Some data"
      "fs' (binary @ ''.previous'') = Some old"
  | (kept) "\<exists>e. r = Inl e" "fs' binary = fs binary"
proof -
  let ?b = "binary @ ''.previous''" and ?t = "binary @ ''.new''"
  have ne: "?b \<noteq> binary" "?t \<noteq> binary" "?b \<noteq> ?t" by simp_all
  show thesis
  proof (cases "st_mkdir st \<noteq> None \<or> (\<exists>e. stat_file (st_stat st) binary fs = Inl e)")
    case True
    then show thesis using assms(1) by (intro kept) (auto simp: replace_binary_def Let_def split: option.split_asm sum.split_asm)
  next
    case False
    obtain old where old: "fs binary = Some old"
      using False by (cases "fs binary") (auto simp: stat_file_def split: option.split_asm)
    obtain r1 fs1 where ren: "rename_file (st_rename st) binary ?b (remove_file (st_keeps st) ?b fs) = (r1, fs1)"
      by (metis surj_pair)
    show thesis
    proof (cases r1)
      case (Inl e)
      then show thesis using assms(1) False ren rename_file_fails [of "st_rename st" binary ?b "remove_file (st_keeps st) ?b fs" e fs1] ne
        by (intro kept) (auto simp: replace_binary_def Let_def split: option.split_asm sum.split_asm)
    next
      case (Inr x)
      have m: "fs1 binary = None" "fs1 ?b = Some old"
        using rename_file_moves [of "st_rename st" binary ?b "remove_file (st_keeps st) ?b fs" x fs1] ren Inr old ne by auto
      obtain r2 fs2 where c: "copyBinary (st_copy st) data binary fs1 = (r2, fs2)" by (metis surj_pair)
      have eq: "(r, fs') = (case r2 of Inl e \<Rightarrow> (Inl e, snd (rename_file (st_back st) ?b binary fs2)) | Inr _ \<Rightarrow> (Inr ?b, fs2))"
        using assms(1) False ren Inr c
        by (auto simp: replace_binary_def Let_def split: option.split_asm sum.split_asm sum.split)
      from c show thesis
      proof (cases rule: copyBinary_cases)
        case copied
        then show thesis using eq m ne old by (intro made [of old]) auto
      next
        case (failed e)
        then have "fs2 ?b = Some old" using m ne by auto
        then show thesis using eq failed(1) assms(2) old by (intro kept) (auto simp: rename_file_def)
      qed
    qed
  qed
qed

text \<open>Whatever fails, the binary is the former one or a published one with the former one kept beside it.\<close>

lemma Stage_binary:
  assumes "Stage u api net run st fs = (q, fs')" "st_back st = None"
  obtains
    (staged) info data old where "q = Inr (info, managed u (st_resolved st) @ ''.previous'')" "vetted u api run data"
      "fs (managed u (st_resolved st)) = Some old" "fs' (managed u (st_resolved st)) = Some data"
      "fs' (managed u (st_resolved st) @ ''.previous'') = Some old"
  | (same) "fs' (managed u (st_resolved st)) = fs (managed u (st_resolved st))" "\<And>info b. q = Inr (info, b) \<Longrightarrow> b = []"
  using assms(1)
proof (cases rule: Stage_cases)
  case (replaced data r)
  from replaced(2) assms(2) show thesis
  proof (cases rule: replace_binary_cases)
    case (made old)
    then show thesis using staged replaced by auto
  next
    case kept
    then show thesis using same replaced(3) by auto
  qed
qed (use same in auto)

end
