(* ===== verification/Json.thy ===== *)
theory Json
  imports Complex_Main Prelude
begin

text \<open>
  JSON as the program sees it through \<open>encoding/json\<close>. A decoded document is a \<open>json\<close>
  value; an object is a finite map (a Go \<open>map[string]any\<close>), so member order and repeated members
  are gone, as they are after decoding. A number is its exact value: rounding to \<open>float64\<close> is
  not modelled.

  The JSON text columns of an account (\<open>SettingsJSON\<close> and its companions) are kept as
  \<open>jtext\<close>: the document the text denotes, \<open>Blank\<close> for a text of white space only, or
  \<open>Bad\<close> for any other text \<open>json.Unmarshal\<close> rejects. The program looks at such a text only by
  decoding it, by testing its validity and by testing whether it is blank, so nothing it can
  observe is lost.
\<close>

datatype json =
    JNull
  | JBool bool
  | JNum rat
  | JStr string
  | JArr "json list"
  | JObj "(string, json) fmap"

type_synonym object = "(string, json) fmap"

datatype jtext = Blank | Bad | Doc json

text \<open>A Go map variable: a nil map reads as empty, and a write to it panics.\<close>

datatype gomap = NilMap | GoMap object

fun entries_of :: "gomap \<Rightarrow> object" where
  "entries_of NilMap = fmempty"
| "entries_of (GoMap m) = m"

fun writable :: "gomap \<Rightarrow> object res" where
  "writable NilMap = Inl (GoPanic ''assignment to entry in nil map'')"
| "writable (GoMap m) = Inr m"

text \<open>\<open>json.Unmarshal\<close> into a \<open>map[string]any\<close>; the document \<open>null\<close> makes the map nil.\<close>

fun unmarshal_map :: "jtext \<Rightarrow> gomap res" where
  "unmarshal_map (Doc (JObj m)) = Inr (GoMap m)"
| "unmarshal_map (Doc JNull) = Inr NilMap"
| "unmarshal_map (Doc v) = Inl (ErrNew ''json: cannot unmarshal into Go value of type map'')"
| "unmarshal_map Blank = Inl (ErrNew ''unexpected end of JSON input'')"
| "unmarshal_map Bad = Inl (ErrNew ''invalid character'')"

definition json_valid :: "jtext \<Rightarrow> bool" where
  "json_valid t \<longleftrightarrow> (case t of Doc v \<Rightarrow> True | _ \<Rightarrow> False)"

text \<open>\<open>json.Marshal\<close> of a map.\<close>

definition marshal :: "object \<Rightarrow> jtext" where
  "marshal m = Doc (JObj m)"

lemma unmarshal_marshal [simp]: "unmarshal_map (marshal m) = Inr (GoMap m)"
  by (simp add: marshal_def)

text \<open>\<open>map[string]any{k: v, ...}\<close>\<close>

abbreviation obj :: "(string \<times> json) list \<Rightarrow> object" where
  "obj \<equiv> fmap_of_list"

section \<open>Type assertions\<close>

text \<open>Reading a missing member gives a nil interface value, which is what \<open>null\<close> decodes to.\<close>

definition mget :: "object \<Rightarrow> string \<Rightarrow> json" where
  "mget m k = (case fmlookup m k of None \<Rightarrow> JNull | Some v \<Rightarrow> v)"

fun as_string :: "json \<Rightarrow> string option" where
  "as_string (JStr s) = Some s"
| "as_string _ = None"

fun as_object :: "json \<Rightarrow> object option" where
  "as_object (JObj m) = Some m"
| "as_object _ = None"

fun as_array :: "json \<Rightarrow> json list option" where
  "as_array (JArr xs) = Some xs"
| "as_array _ = None"

fun as_bool :: "json \<Rightarrow> bool option" where
  "as_bool (JBool b) = Some b"
| "as_bool _ = None"

lemma mget_upd [simp]: "mget (fmupd k v m) k' = (if k = k' then v else mget m k')"
  by (simp add: mget_def)

lemma mget_drop [simp]: "mget (fmdrop k m) k' = (if k = k' then JNull else mget m k')"
  by (simp add: mget_def)

lemma mget_empty [simp]: "mget fmempty k = JNull"
  by (simp add: mget_def)

lemma mget_obj [simp]: "mget (obj xs) k = (case map_of xs k of None \<Rightarrow> JNull | Some v \<Rightarrow> v)"
  by (simp add: mget_def fmlookup_of_list)

lemma as_string_eq [simp]: "as_string v = Some s \<longleftrightarrow> v = JStr s"
  by (cases v) auto

lemma as_object_eq [simp]: "as_object v = Some m \<longleftrightarrow> v = JObj m"
  by (cases v) auto

lemma as_array_eq [simp]: "as_array v = Some xs \<longleftrightarrow> v = JArr xs"
  by (cases v) auto

end
