(* ===== verification/Address.thy ===== *)
theory Address
  imports Prelude "HOL-Library.Word"
begin

text \<open>
  Network addresses as the standard library reads them (\<open>net.SplitHostPort\<close>, and \<open>ParseAddr\<close>,
  \<open>ParsePrefix\<close> and \<open>Prefix.Contains\<close> of \<open>net/netip\<close>): the guards of the panel's port, the rate limit
  of the login and the origin check rest on them.
\<close>

section \<open>Host and port\<close>

text \<open>
  The text after the last colon: what \<open>net.SplitHostPort\<close> returns as the port when it succeeds.
\<close>

definition after_colon :: "string \<Rightarrow> string option" where
  "after_colon s =
     (if CHR '':'' \<in> set s then Some (rev (takeWhile (\<lambda>c. c \<noteq> CHR '':'') (rev s))) else None)"

definition SplitHostPort :: "string \<Rightarrow> (string \<times> string) option" where
  "SplitHostPort s =
     (case after_colon s of
        None \<Rightarrow> None
      | Some port \<Rightarrow>
          (let before = take (length s - length port - 1) s in
           if has_prefix s ''['' then
             (if CHR '']'' \<notin> set s then None
              else
                (let host = takeWhile (\<lambda>c. c \<noteq> CHR '']'') (tl s) in
                 if before \<noteq> CHR ''['' # host @ '']'' then None
                 else if CHR ''['' \<in> set (tl s) \<or> CHR '']'' \<in> set port then None
                 else Some (host, port)))
           else if CHR '':'' \<in> set before \<or> CHR ''['' \<in> set s \<or> CHR '']'' \<in> set s then None
           else Some (before, port)))"

text \<open>\<open>strings.Trim\<close>, and the text before the last occurrence of a character.\<close>

definition trim_set :: "string \<Rightarrow> string \<Rightarrow> string" where
  "trim_set cs s = rev (dropWhile (\<lambda>c. c \<in> set cs) (rev (dropWhile (\<lambda>c. c \<in> set cs) s)))"

definition last_index :: "char \<Rightarrow> string \<Rightarrow> nat option" where
  "last_index c s =
     (if c \<in> set s then Some (length s - 1 - length (takeWhile (\<lambda>x. x \<noteq> c) (rev s))) else None)"

definition cut_last :: "char \<Rightarrow> string \<Rightarrow> (string \<times> string) option" where
  "cut_last c s = map_option (\<lambda>i. (take i s, drop (Suc i) s)) (last_index c s)"

section \<open>Addresses\<close>

text \<open>The zone of an IPv6 address is empty when it has none.\<close>

datatype Addr = V4 "32 word" | V6 "128 word" string

definition octet :: "string \<Rightarrow> nat option" where
  "octet f =
     (if length f > 1 \<and> hd f = CHR ''0'' then None
      else case parse_nat f of None \<Rightarrow> None | Some n \<Rightarrow> if n \<le> 255 then Some n else None)"

definition parse_v4 :: "string \<Rightarrow> (nat \<times> nat \<times> nat \<times> nat) option" where
  "parse_v4 s =
     (case map octet (split_on (CHR ''.'') s) of
        [Some a, Some b, Some c, Some d] \<Rightarrow> Some (a, b, c, d)
      | _ \<Rightarrow> None)"

definition hex_value :: "char \<Rightarrow> nat option" where
  "hex_value c =
     (let n = (of_char c :: nat) in
      if 48 \<le> n \<and> n \<le> 57 then Some (n - 48)
      else if 97 \<le> n \<and> n \<le> 102 then Some (n - 87)
      else if 65 \<le> n \<and> n \<le> 70 then Some (n - 55)
      else None)"

text \<open>One group of one to four digits, and the rest.\<close>

definition hex_group :: "string \<Rightarrow> (nat \<times> string) option" where
  "hex_group s =
     (let ds = takeWhile (\<lambda>c. hex_value c \<noteq> None) s in
      if ds = [] \<or> length ds > 4 then None
      else Some (foldl (\<lambda>v c. 16 * v + the (hex_value c)) 0 ds, drop (length ds) s))"

text \<open>
  The loop of \<open>parseIPv6\<close>: at most \<open>n\<close> more groups; \<open>gs\<close> are the groups so far and \<open>ell\<close> is where
  \<open>::\<close> stood. A dotted quad may end the text.
\<close>

fun v6_groups :: "nat \<Rightarrow> string \<Rightarrow> nat list \<Rightarrow> nat option \<Rightarrow> (nat list \<times> nat option \<times> string) option" where
  "v6_groups 0 s gs ell = Some (gs, ell, s)"
| "v6_groups (Suc n) s gs ell =
     (case hex_group s of
        None \<Rightarrow> None
      | Some (g, []) \<Rightarrow> Some (gs @ [g], ell, [])
      | Some (g, c # t) \<Rightarrow>
          if c = CHR ''.'' then
            (if ell = None \<and> length gs \<noteq> 6 \<or> length gs > 6 then None
             else case parse_v4 s of
                 None \<Rightarrow> None
               | Some (a, b, u, v) \<Rightarrow> Some (gs @ [256 * a + b, 256 * u + v], ell, []))
          else if c \<noteq> CHR '':'' then None
          else (case t of
              [] \<Rightarrow> None
            | d # t' \<Rightarrow>
                if d \<noteq> CHR '':'' then v6_groups n t (gs @ [g]) ell
                else if ell \<noteq> None then None
                else if t' = [] then Some (gs @ [g], Some (Suc (length gs)), [])
                else v6_groups n t' (gs @ [g]) (Some (Suc (length gs)))))"

definition v6_filled :: "nat list \<times> nat option \<times> string \<Rightarrow> nat list option" where
  "v6_filled r =
     (let (gs, ell, rest) = r in
      if rest \<noteq> [] then None
      else if length gs < 8 then
        (case ell of None \<Rightarrow> None
         | Some e \<Rightarrow> Some (take e gs @ replicate (8 - length gs) 0 @ drop e gs))
      else if ell \<noteq> None then None
      else Some gs)"

definition parse_v6 :: "string \<Rightarrow> nat list option" where
  "parse_v6 s =
     (if take 2 s = ''::'' then
        (if drop 2 s = [] then Some (replicate 8 0)
         else Option.bind (v6_groups 8 (drop 2 s) [] (Some 0)) v6_filled)
      else Option.bind (v6_groups 8 s [] None) v6_filled)"

definition v4_word :: "nat \<times> nat \<times> nat \<times> nat \<Rightarrow> 32 word" where
  "v4_word q = (let (a, b, c, d) = q in of_nat (((a * 256 + b) * 256 + c) * 256 + d))"

definition v6_word :: "nat list \<Rightarrow> 128 word" where
  "v6_word gs = of_nat (foldl (\<lambda>w g. w * 65536 + g) 0 gs)"

definition ParseAddr :: "string \<Rightarrow> Addr option" where
  "ParseAddr s =
     (case dropWhile (\<lambda>c. c \<notin> {CHR ''.'', CHR '':'', CHR ''%''}) s of
        [] \<Rightarrow> None
      | c # _ \<Rightarrow>
          if c = CHR ''.'' then map_option (\<lambda>q. V4 (v4_word q)) (parse_v4 s)
          else if c = CHR '':'' then
            (let body = takeWhile (\<lambda>x. x \<noteq> CHR ''%'') s; rest = drop (length body) s in
             if rest = ''%'' then None
             else map_option (\<lambda>gs. V6 (v6_word gs) (tl rest)) (parse_v6 body))
          else None)"

section \<open>Prefixes\<close>

type_synonym Prefix = "Addr \<times> nat"

definition ParsePrefix :: "string \<Rightarrow> Prefix option" where
  "ParsePrefix s =
     (case cut_last (CHR ''/'') s of
        None \<Rightarrow> None
      | Some (ip, bits) \<Rightarrow>
          (case ParseAddr ip of
             None \<Rightarrow> None
           | Some a \<Rightarrow>
               if (case a of V4 w \<Rightarrow> False | V6 w zone \<Rightarrow> zone \<noteq> []) then None
               else if length bits > 1 \<and> char_digit (hd bits) \<in> {None, Some 0} then None
               else (case atoi bits of
                   None \<Rightarrow> None
                 | Some n \<Rightarrow>
                     if n < 0 \<or> n > (case a of V4 w \<Rightarrow> 32 | V6 w zone \<Rightarrow> 128) then None else Some (a, nat n))))"

text \<open>\<open>Prefix.Contains\<close>: the same family, no zone, and the same leading bits (so that masking the
  address of a prefix changes nothing).\<close>

definition prefix_contains :: "Prefix \<Rightarrow> Addr \<Rightarrow> bool" where
  "prefix_contains p a \<longleftrightarrow>
     (case (fst p, a) of
        (V4 u, V4 w) \<Rightarrow> drop_bit (32 - snd p) u = drop_bit (32 - snd p) w
      | (V6 u z, V6 w zone) \<Rightarrow> zone = [] \<and> drop_bit (128 - snd p) u = drop_bit (128 - snd p) w
      | _ \<Rightarrow> False)"

end
