(* ===== verification/Firewall.thy ===== *)
theory Firewall
  imports Json Address
begin

text \<open>
  Firewall rules (\<open>internal/firewall/firewall.go\<close>): the rules the panel shows, the port
  specifications, \<open>firewalld\<close> rich rules, UFW status lines and \<open>ss\<close> rows it reads, and the sweep
  that marks rules that overlap. The regular expressions of the package are written out as
  predicates on the text.
\<close>

section \<open>Rules\<close>

record Rule =
  r_ID :: string
  r_Port :: int
  r_RangeStart :: int
  r_RangeEnd :: int
  r_Protocol :: string
  r_Zone :: string
  r_Backend :: string
  r_Runtime :: bool
  r_Permanent :: bool
  r_Access :: string
  r_IPv4 :: bool
  r_IPv6 :: bool
  r_Action :: string
  r_Kind :: string
  r_Family :: string
  r_Conflict :: bool

definition zero_Rule :: Rule where
  "zero_Rule =
     \<lparr>r_ID = [], r_Port = 0, r_RangeStart = 0, r_RangeEnd = 0, r_Protocol = [], r_Zone = [],
      r_Backend = [], r_Runtime = False, r_Permanent = False, r_Access = [], r_IPv4 = False,
      r_IPv6 = False, r_Action = [], r_Kind = [], r_Family = [], r_Conflict = False\<rparr>"

text \<open>A text outside ASCII is given by its code points below \<open>0x10000\<close> and above \<open>0x7FF\<close>.\<close>

definition utf8 :: "nat list \<Rightarrow> string" where
  "utf8 cs = concat (map (\<lambda>c. [char_of (224 + c div 4096), char_of (128 + c div 64 mod 64),
                                char_of (128 + c mod 64)]) cs)"

definition zone_access :: "string \<Rightarrow> string" where
  "zone_access zone = utf8 [0x533A, 0x57DF, 0xFF1A] @ zone"

section \<open>Ports, protocols and zones\<close>

definition digit :: "char \<Rightarrow> bool" where
  "digit c \<longleftrightarrow> char_digit c \<noteq> None"

definition letter :: "char \<Rightarrow> bool" where
  "letter c \<longleftrightarrow> (let n = (of_char c :: nat) in (65 \<le> n \<and> n \<le> 90) \<or> (97 \<le> n \<and> n \<le> 122))"

definition zone_char :: "char \<Rightarrow> bool" where
  "zone_char c \<longleftrightarrow> letter c \<or> digit c \<or> c \<in> set ''_.-''"

definition ValidZone :: "string \<Rightarrow> bool" where
  "ValidZone z \<longleftrightarrow>
     (case z of [] \<Rightarrow> False
      | c # cs \<Rightarrow> (letter c \<or> digit c) \<and> length cs \<le> 63 \<and> list_all zone_char cs)"

definition ValidRule :: "int \<Rightarrow> string \<Rightarrow> bool" where
  "ValidRule p proto \<longleftrightarrow> p > 0 \<and> p \<le> 65535 \<and> (proto = ''tcp'' \<or> proto = ''udp'')"

text \<open>\<open>[1-9][0-9]{0,4}\<close>\<close>

definition port_digits :: "string \<Rightarrow> bool" where
  "port_digits s \<longleftrightarrow>
     (case s of [] \<Rightarrow> False
      | c # cs \<Rightarrow> digit c \<and> c \<noteq> CHR ''0'' \<and> length cs \<le> 4 \<and> list_all digit cs)"

text \<open>The number and the rest of a text that starts with such a number and the separator.\<close>

definition port_then :: "char \<Rightarrow> string \<Rightarrow> (string \<times> string) option" where
  "port_then sep s =
     (let d = takeWhile (\<lambda>c. c \<noteq> sep) s; rest = dropWhile (\<lambda>c. c \<noteq> sep) s in
      if port_digits d \<and> rest \<noteq> [] then Some (d, tl rest) else None)"

definition ParsePort :: "string \<Rightarrow> (int \<times> string) option" where
  "ParsePort s =
     (case port_then (CHR ''/'') s of
        None \<Rightarrow> None
      | Some (d, proto) \<Rightarrow>
          if proto \<noteq> ''tcp'' \<and> proto \<noteq> ''udp'' then None
          else (case atoi d of
                  None \<Rightarrow> None
                | Some n \<Rightarrow> if ValidRule n proto then Some (n, proto) else None))"

definition ParsePortSpec :: "string \<Rightarrow> Rule option" where
  "ParsePortSpec spec =
     (case ParsePort spec of
        Some (p, proto) \<Rightarrow> Some (zero_Rule\<lparr>r_Port := p, r_Protocol := proto\<rparr>)
      | None \<Rightarrow>
          (case port_then (CHR ''-'') spec of
             None \<Rightarrow> None
           | Some (d1, rest) \<Rightarrow>
               (case port_then (CHR ''/'') rest of
                  None \<Rightarrow> None
                | Some (d2, proto) \<Rightarrow>
                    if proto \<noteq> ''tcp'' \<and> proto \<noteq> ''udp'' then None
                    else (case (atoi d1, atoi d2) of
                            (Some start, Some end') \<Rightarrow>
                              if \<not> ValidRule start proto \<or> \<not> ValidRule end' proto \<or> start \<ge> end'
                              then None
                              else Some (zero_Rule\<lparr>r_Protocol := proto, r_RangeStart := start,
                                                   r_RangeEnd := end'\<rparr>)
                          | _ \<Rightarrow> None))))"

definition IsRange :: "Rule \<Rightarrow> bool" where
  "IsRange r \<longleftrightarrow> r_RangeStart r > 0 \<and> r_RangeEnd r \<ge> r_RangeStart r"

definition ContainsPort :: "Rule \<Rightarrow> int \<Rightarrow> bool" where
  "ContainsPort r p =
     (if IsRange r then p \<ge> r_RangeStart r \<and> p \<le> r_RangeEnd r else r_Port r = p)"

definition FirstPort :: "Rule \<Rightarrow> int" where
  "FirstPort r = (if IsRange r then r_RangeStart r else r_Port r)"

definition port_spec :: "int \<Rightarrow> string \<Rightarrow> string" where
  "port_spec p proto = itoa p @ ''/'' @ proto"

definition RuleID :: "string \<Rightarrow> string \<Rightarrow> int \<Rightarrow> string \<Rightarrow> string" where
  "RuleID backend zone p proto =
     (let spec = port_spec p proto in
      if backend = ''firewalld'' then ''firewalld:'' @ zone @ '':'' @ spec else ''ufw:'' @ spec)"

section \<open>What the tools print\<close>

definition newline :: char where
  "newline = CHR 0x0A"

definition activeZones :: "string \<Rightarrow> string list" where
  "activeZones raw =
     concat (map (\<lambda>line.
       if line = [] \<or> hd line = CHR '' '' \<or> hd line = CHR 0x09 then []
       else (case Prelude.fields line of
               [] \<Rightarrow> [] | z # _ \<Rightarrow> if ValidZone z then [z] else []))
       (split_on newline raw))"

text \<open>
  \<open>^rule(?: family="(ipv4|ipv6)")? port port="P" protocol="(tcp|udp)" (accept|drop|reject)$\<close>, read
  from left to right.
\<close>

definition after :: "string \<Rightarrow> string \<Rightarrow> string option" where
  "after p s = (if has_prefix s p then Some (drop (length p) s) else None)"

definition rich_family :: "string \<Rightarrow> string \<times> string" where
  "rich_family s =
     (case after ('' family='' @ [CHR 0x22] @ ''ipv4'' @ [CHR 0x22]) s of
        Some rest \<Rightarrow> (''ipv4'', rest)
      | None \<Rightarrow>
          (case after ('' family='' @ [CHR 0x22] @ ''ipv6'' @ [CHR 0x22]) s of
             Some rest \<Rightarrow> (''ipv6'', rest) | None \<Rightarrow> ([], s)))"

definition rich_match :: "string \<Rightarrow> (string \<times> string \<times> string \<times> string) option" where
  "rich_match s =
     (case after ''rule'' s of
        None \<Rightarrow> None
      | Some s1 \<Rightarrow>
          (let (family, s2) = rich_family s1 in
           case after ('' port port='' @ [CHR 0x22]) s2 of
             None \<Rightarrow> None
           | Some s3 \<Rightarrow>
               (case port_then (CHR 0x22) s3 of
                  None \<Rightarrow> None
                | Some (d, s4) \<Rightarrow>
                    (case after ('' protocol='' @ [CHR 0x22]) s4 of
                       None \<Rightarrow> None
                     | Some s5 \<Rightarrow>
                         (let proto = take 3 s5 in
                          if proto \<noteq> ''tcp'' \<and> proto \<noteq> ''udp'' then None
                          else case after ([CHR 0x22] @ '' '') (drop 3 s5) of
                                 None \<Rightarrow> None
                               | Some action \<Rightarrow>
                                   if action \<in> {''accept'', ''drop'', ''reject''}
                                   then Some (family, d, proto, action) else None)))))"

definition parseSimpleRichRule :: "string \<Rightarrow> string \<Rightarrow> Rule option" where
  "parseSimpleRichRule raw zone =
     (case rich_match (trim_space raw) of
        None \<Rightarrow> None
      | Some (family0, d, proto, action0) \<Rightarrow>
          (case atoi d of
             None \<Rightarrow> None
           | Some p \<Rightarrow>
               if \<not> ValidRule p proto then None
               else
                 (let family = (if family0 = [] then ''both'' else family0);
                      action = (if action0 = ''drop'' then ''deny'' else action0);
                      i = ''firewalld:'' @ zone @ '':rich:'' @ itoa p @ ''/'' @ proto @ '':'' @ action @ '':'' @ family
                  in Some (zero_Rule\<lparr>r_ID := i, r_Port := p, r_Protocol := proto, r_Zone := zone,
                             r_Backend := ''firewalld'', r_Access := zone_access zone, r_Family := family,
                             r_Kind := ''rich'', r_Action := action\<rparr>))))"

definition RichDropText :: "int \<Rightarrow> string \<Rightarrow> string res" where
  "RichDropText port proto =
     (if \<not> ValidRule port proto then Inl (ErrNew ''invalid port/protocol'')
      else Inr (''rule port port='' @ [CHR 0x22] @ itoa port @ [CHR 0x22] @ '' protocol='' @ [CHR 0x22] @
                proto @ [CHR 0x22] @ '' drop''))"

text \<open>The results of \<open>ufwPortLine\<close>; \<open>None\<close> when \<open>ok\<close> is false.\<close>

record UfwLine =
  u_port :: int
  u_proto :: string
  u_broad :: bool
  u_v6 :: bool

definition skip_word :: "string \<Rightarrow> string list \<Rightarrow> bool \<times> string list" where
  "skip_word w f = (case f of x # xs \<Rightarrow> if x = w then (True, xs) else (False, f) | [] \<Rightarrow> (False, []))"

definition ufwPortLine :: "string \<Rightarrow> UfwLine option" where
  "ufwPortLine line =
     (let f = Prelude.fields (trim_space line) in
      if length f < 3 then None
      else case ParsePort (hd f) of
        None \<Rightarrow> None
      | Some (p, pr) \<Rightarrow>
          (let (v6, f1) = skip_word ''(v6)'' (tl f) in
           if f1 = [] \<or> hd f1 \<noteq> ''ALLOW''
           then Some \<lparr>u_port = p, u_proto = pr, u_broad = False, u_v6 = v6\<rparr>
           else
             (let f2 = snd (skip_word ''IN'' (tl f1)) in
              if f2 = [] \<or> hd f2 \<noteq> ''Anywhere''
              then Some \<lparr>u_port = p, u_proto = pr, u_broad = False, u_v6 = v6\<rparr>
              else
                (let (v6b, f3) = skip_word ''(v6)'' (tl f2)
                 in Some \<lparr>u_port = p, u_proto = pr, u_broad = (f3 = []), u_v6 = v6 \<or> v6b\<rparr>))))"

section \<open>Numbers in canonical form\<close>

lemma digit_char_char_digit: "char_digit c = Some k \<Longrightarrow> digit_char k = c \<and> k < 10"
proof -
  assume "char_digit c = Some k"
  then have n: "48 \<le> (of_char c :: nat)" "(of_char c :: nat) \<le> 57" "k = of_char c - 48"
    by (auto simp: char_digit_def Let_def split: if_split_asm)
  then have "48 + k mod 10 = of_char c" by simp
  then have "digit_char k = char_of (of_char c :: nat)" by (simp add: digit_char_def)
  with n show ?thesis by simp
qed

lemma digits10_snoc: "0 < m \<Longrightarrow> k < 10 \<Longrightarrow> digits10 (10 * m + k) = digits10 m @ [digit_char k]"
  by (subst digits10.simps) (simp add: digit_char_def)

lemma digits10_canonical:
  assumes "s \<noteq> []" "hd s \<noteq> CHR ''0''" "parse_digits 0 s = Some n"
  shows "digits10 n = s \<and> 0 < n"
  using assms
proof (induction s arbitrary: n rule: rev_induct)
  case (snoc c s)
  then obtain m k where m: "parse_digits 0 s = Some m" and k: "char_digit c = Some k" and n: "n = 10 * m + k"
    by (auto simp: parse_digits_append split: option.split_asm)
  note ck = digit_char_char_digit [OF k]
  show ?case
  proof (cases "s = []")
    case True
    then have "m = 0" using m by simp
    moreover have "k \<noteq> 0"
    proof
      assume "k = 0"
      moreover have "char_of (48 :: nat) = CHR ''0''" by code_simp
      ultimately have "c = CHR ''0''" using ck by (simp add: digit_char_def)
      with True snoc.prems(2) show False by simp
    qed
    ultimately show ?thesis using True n ck by (simp add: digits10.simps [of k])
  next
    case False
    with snoc.prems(2) m have "digits10 m = s \<and> 0 < m" by (intro snoc.IH) auto
    then show ?thesis using n ck digits10_snoc by simp
  qed
qed simp

lemma list_all_digit: "list_all digit s \<Longrightarrow> CHR ''-'' \<notin> set s \<and> CHR ''/'' \<notin> set s \<and> CHR 0x22 \<notin> set s"
  by (induction s) (auto simp: digit_def char_digit_def)

lemma port_digits_all: "port_digits d \<Longrightarrow> list_all digit d \<and> d \<noteq> []"
  by (auto simp: port_digits_def split: list.split_asm)

lemma atoi_digits:
  assumes "port_digits d" "atoi d = Some n"
  shows "d = itoa n \<and> 0 < n"
proof -
  have d: "list_all digit d" "d \<noteq> []" "hd d \<noteq> CHR ''0''"
    using assms(1) by (auto simp: port_digits_def split: list.split_asm)
  then have "hd d \<noteq> CHR ''-'' \<and> hd d \<noteq> CHR ''+''"
    by (cases d) (auto simp: digit_def char_digit_def)
  then have "\<exists>m. parse_digits 0 d = Some m \<and> n = int m"
    using assms(2) d by (cases d) (auto simp: atoi_def parse_nat_def Let_def split: option.split_asm if_split_asm)
  then obtain m where m: "parse_digits 0 d = Some m" "n = int m" by blast
  with digits10_canonical [OF d(2,3) m(1)] show ?thesis by (simp add: itoa_def)
qed

lemma digits10_digit: "list_all digit (digits10 n)"
  using digits10_digits by (fastforce simp: list_all_iff digit_def)

lemma digits10_length: "n < 10 ^ k \<Longrightarrow> 0 < k \<Longrightarrow> length (digits10 n) \<le> k"
proof (induction n arbitrary: k rule: digits10.induct)
  case (1 n)
  show ?case
  proof (cases "n < 10")
    case True
    with 1 show ?thesis by (simp add: digits10.simps [of n])
  next
    case False
    with "1.prems" obtain j where j: "k = Suc j" "0 < j" by (cases k; cases "k - 1") auto
    then have "n div 10 < 10 ^ j" using "1.prems" by (simp add: less_mult_imp_div_less mult.commute)
    with "1.IH" [OF False this j(2)] show ?thesis by (subst digits10.simps) (simp add: False j(1))
  qed
qed

lemma digits10_hd_nonzero: "0 < n \<Longrightarrow> hd (digits10 n) \<noteq> CHR ''0''"
proof (induction n rule: digits10.induct)
  case (1 n)
  show ?case
  proof (cases "n < 10")
    case True
    have "digit_char n \<noteq> CHR ''0''"
    proof
      assume "digit_char n = CHR ''0''"
      then have "char_digit (digit_char n) = Some 0" by (simp add: char_digit_def)
      then show False using True 1 by simp
    qed
    with True show ?thesis by (simp add: digits10.simps [of n])
  next
    case False
    with 1 show ?thesis by (subst digits10.simps) simp
  qed
qed

lemma port_digits_itoa:
  assumes "0 < p" "p \<le> 65535"
  shows "port_digits (itoa p)"
proof -
  obtain c cs where c: "digits10 (nat p) = c # cs" by (cases "digits10 (nat p)") auto
  have "length (digits10 (nat p)) \<le> 5" using assms by (intro digits10_length) auto
  moreover have "c \<noteq> CHR ''0''" using digits10_hd_nonzero [of "nat p"] assms c by simp
  ultimately show ?thesis
    using c digits10_digit [of "nat p"] assms by (simp add: port_digits_def itoa_def)
qed

lemma takeWhile_sep: "c \<notin> set d \<Longrightarrow> takeWhile (\<lambda>x. x \<noteq> c) (d @ c # t) = d \<and> dropWhile (\<lambda>x. x \<noteq> c) (d @ c # t) = c # t"
  by (induction d) auto

lemma port_then_iff:
  "port_then sep s = Some (d, t) \<longleftrightarrow> s = d @ sep # t \<and> port_digits d \<and> sep \<notin> set d"
proof
  assume p: "port_then sep s = Some (d, t)"
  let ?d = "takeWhile (\<lambda>c. c \<noteq> sep) s" and ?r = "dropWhile (\<lambda>c. c \<noteq> sep) s"
  from p have d: "d = ?d" "port_digits d" "?r \<noteq> []" "t = tl ?r"
    by (auto simp: port_then_def Let_def split: if_split_asm)
  have "hd ?r = sep" using hd_dropWhile [OF d(3)] by simp
  then have "?r = sep # t" using d(3,4) by (cases ?r) auto
  moreover have "s = ?d @ ?r" by simp
  ultimately show "s = d @ sep # t \<and> port_digits d \<and> sep \<notin> set d"
    using d(1,2) set_takeWhileD by metis
next
  assume "s = d @ sep # t \<and> port_digits d \<and> sep \<notin> set d"
  then show "port_then sep s = Some (d, t)" by (simp add: port_then_def takeWhile_sep)
qed

text \<open>A port specification is exactly what the program prints for a valid port and protocol.\<close>

lemma ParsePort_iff: "ParsePort s = Some (p, proto) \<longleftrightarrow> s = port_spec p proto \<and> ValidRule p proto"
proof
  assume "ParsePort s = Some (p, proto)"
  then obtain d where d: "port_then (CHR ''/'') s = Some (d, proto)" "atoi d = Some p" "ValidRule p proto"
    by (auto simp: ParsePort_def split: option.split_asm if_split_asm)
  from d(1) have "s = d @ CHR ''/'' # proto" "port_digits d" by (auto simp: port_then_iff)
  with atoi_digits [of d p] d(2,3) show "s = port_spec p proto \<and> ValidRule p proto"
    by (simp add: port_spec_def)
next
  assume a: "s = port_spec p proto \<and> ValidRule p proto"
  then have pd: "port_digits (itoa p)" by (auto simp: ValidRule_def intro: port_digits_itoa)
  then have "CHR ''/'' \<notin> set (itoa p)" using list_all_digit port_digits_all by blast
  with pd a have "port_then (CHR ''/'') s = Some (itoa p, proto)" by (simp add: port_then_iff port_spec_def)
  moreover have "atoi (itoa p) = Some p" using a by (intro atoi_itoa) (auto simp: ValidRule_def)
  ultimately show "ParsePort s = Some (p, proto)" using a by (auto simp: ParsePort_def ValidRule_def)
qed

lemma ParsePortSpec_sound:
  assumes "ParsePortSpec spec = Some r"
  shows "(spec = port_spec (r_Port r) (r_Protocol r) \<and> ValidRule (r_Port r) (r_Protocol r) \<and> \<not> IsRange r) \<or>
         (spec = itoa (r_RangeStart r) @ ''-'' @ port_spec (r_RangeEnd r) (r_Protocol r) \<and> IsRange r \<and>
          ValidRule (r_RangeStart r) (r_Protocol r) \<and> ValidRule (r_RangeEnd r) (r_Protocol r))"
proof (cases "ParsePort spec")
  case (Some pp)
  obtain p proto where pp: "pp = (p, proto)" by (cases pp)
  with Some have "spec = port_spec p proto" "ValidRule p proto" by (simp_all add: ParsePort_iff)
  moreover have "r = zero_Rule\<lparr>r_Port := p, r_Protocol := proto\<rparr>"
    using assms Some pp by (simp add: ParsePortSpec_def)
  ultimately show ?thesis by (simp add: zero_Rule_def IsRange_def)
next
  case None
  then obtain d1 rest d2 proto where p: "port_then (CHR ''-'') spec = Some (d1, rest)"
    "port_then (CHR ''/'') rest = Some (d2, proto)" "atoi d1 = Some (r_RangeStart r)"
    "atoi d2 = Some (r_RangeEnd r)" "r_Protocol r = proto" "ValidRule (r_RangeStart r) proto"
    "ValidRule (r_RangeEnd r) proto" "r_RangeStart r < r_RangeEnd r"
    using assms by (auto simp: ParsePortSpec_def split: option.split_asm if_split_asm)
  then show ?thesis
    using atoi_digits [of d1] atoi_digits [of d2]
    by (auto simp: port_then_iff port_spec_def IsRange_def ValidRule_def)
qed

section \<open>Rich rules\<close>

lemma after_append [simp]: "after p (p @ t) = Some t"
  by (simp add: after_def)

lemma RichDropText_parsed:
  assumes "RichDropText port proto = Inr rt"
  shows "\<exists>r. parseSimpleRichRule rt zone = Some r \<and> r_Port r = port \<and> r_Protocol r = proto \<and>
             r_Zone r = zone \<and> r_Kind r = ''rich'' \<and> r_Action r = ''deny'' \<and> r_Family r = ''both'' \<and>
             r_Backend r = ''firewalld'' \<and> \<not> IsRange r"
proof -
  have v: "ValidRule port proto" and rt: "rt = ''rule'' @ ('' port port='' @ [CHR 0x22]) @ itoa port @ CHR 0x22 #
      ('' protocol='' @ [CHR 0x22]) @ proto @ ([CHR 0x22] @ '' '') @ ''drop''"
    using assms by (auto simp: RichDropText_def split: if_split_asm)
  have pd: "port_digits (itoa port)" "CHR 0x22 \<notin> set (itoa port)"
    using v port_digits_itoa list_all_digit port_digits_all by (auto simp: ValidRule_def)
  have trim: "trim_space rt = rt"
    by (rule trim_space_graphic) (simp_all add: rt graphic_def)
  have fam: "rich_family (('' port port='' @ [CHR 0x22]) @ s) = ([], ('' port port='' @ [CHR 0x22]) @ s)" for s
    by (simp add: rich_family_def after_def has_prefix_def)
  have three: "length proto = 3" "proto = ''tcp'' \<or> proto = ''udp''" using v by (auto simp: ValidRule_def)
  have pt: "port_then (CHR 0x22) (itoa port @ CHR 0x22 # t) = Some (itoa port, t)" for t
    using pd by (simp add: port_then_iff)
  have "rich_match rt = Some ([], itoa port, proto, ''drop'')"
    unfolding rt rich_match_def after_append option.case fam prod.case Let_def pt
    using three by (auto simp: after_def has_prefix_def)
  moreover have "atoi (itoa port) = Some port" using v by (intro atoi_itoa) (auto simp: ValidRule_def)
  ultimately show ?thesis
    using v trim by (simp add: parseSimpleRichRule_def zero_Rule_def IsRange_def Let_def)
qed

section \<open>Properties\<close>

lemma port_spec_split:
  assumes "ValidRule b proto" "0 < a" "a \<le> 65535"
  shows "port_then (CHR ''-'') (itoa a @ ''-'' @ port_spec b proto) = Some (itoa a, port_spec b proto)"
    and "port_then (CHR ''/'') (port_spec b proto) = Some (itoa b, proto)"
  using assms port_digits_itoa list_all_digit port_digits_all
  by (auto simp: port_then_iff port_spec_def ValidRule_def)

lemma ParsePort_range: "0 < a \<Longrightarrow> a \<le> 65535 \<Longrightarrow> ParsePort (itoa a @ ''-'' @ port_spec b proto) = None"
proof (rule ccontr)
  assume a: "0 < a" "a \<le> 65535" and n: "ParsePort (itoa a @ ''-'' @ port_spec b proto) \<noteq> None"
  then obtain p q where pq: "itoa a @ ''-'' @ port_spec b proto = port_spec p q" "ValidRule p q"
    by (auto simp: ParsePort_iff)
  have d: "port_digits (itoa p)" using pq(2) by (auto simp: ValidRule_def intro: port_digits_itoa)
  have "CHR ''-'' \<in> set (port_spec p q)" unfolding pq(1) [symmetric] by simp
  moreover have "CHR ''-'' \<notin> set (itoa p)" using d list_all_digit port_digits_all by blast
  ultimately show False using pq(2) by (auto simp: port_spec_def ValidRule_def)
qed

text \<open>(C34) The port specifications the panel accepts are exactly the texts it prints for a valid
  port, or for a strictly increasing range of two valid ports, of \<open>tcp\<close> or \<open>udp\<close>: leading zeros,
  signs and numbers above 65535 are refused, and the rule that is read says what the text says.\<close>

theorem port_spec_exact:
  "ParsePortSpec spec = Some r \<longleftrightarrow>
     (\<exists>p proto. spec = port_spec p proto \<and> ValidRule p proto \<and>
        r = zero_Rule\<lparr>r_Port := p, r_Protocol := proto\<rparr>) \<or>
     (\<exists>a b proto. spec = itoa a @ ''-'' @ port_spec b proto \<and> ValidRule a proto \<and> ValidRule b proto \<and>
        a < b \<and> r = zero_Rule\<lparr>r_Protocol := proto, r_RangeStart := a, r_RangeEnd := b\<rparr>)"
  (is "_ \<longleftrightarrow> ?single \<or> ?range")
proof
  assume p: "ParsePortSpec spec = Some r"
  show "?single \<or> ?range"
  proof (cases "ParsePort spec")
    case (Some pp)
    with p have "r = zero_Rule\<lparr>r_Port := fst pp, r_Protocol := snd pp\<rparr>"
      by (simp add: ParsePortSpec_def split: prod.split_asm)
    moreover have "spec = port_spec (fst pp) (snd pp) \<and> ValidRule (fst pp) (snd pp)"
      using Some by (simp flip: ParsePort_iff)
    ultimately have ?single by blast
    then show ?thesis ..
  next
    case None
    with p obtain d1 rest d2 proto a b where s: "port_then (CHR ''-'') spec = Some (d1, rest)"
      "port_then (CHR ''/'') rest = Some (d2, proto)" "atoi d1 = Some a" "atoi d2 = Some b"
      "ValidRule a proto" "ValidRule b proto" "a < b"
      "r = zero_Rule\<lparr>r_Protocol := proto, r_RangeStart := a, r_RangeEnd := b\<rparr>"
      by (auto simp: ParsePortSpec_def split: option.split_asm if_split_asm)
    then have "spec = itoa a @ ''-'' @ port_spec b proto"
      using atoi_digits [of d1] atoi_digits [of d2] by (auto simp: port_then_iff port_spec_def)
    with s show ?thesis by blast
  qed
next
  assume "?single \<or> ?range"
  then show "ParsePortSpec spec = Some r"
  proof
    assume ?single
    then obtain p proto where "ParsePort spec = Some (p, proto)"
      "r = zero_Rule\<lparr>r_Port := p, r_Protocol := proto\<rparr>" by (auto simp: ParsePort_iff)
    then show ?thesis by (simp add: ParsePortSpec_def)
  next
    assume ?range
    then obtain a b proto where s: "spec = itoa a @ ''-'' @ port_spec b proto" "ValidRule a proto"
      "ValidRule b proto" "a < b" "r = zero_Rule\<lparr>r_Protocol := proto, r_RangeStart := a, r_RangeEnd := b\<rparr>"
      by blast
    then have v: "0 < a" "a \<le> 65535" "0 < b" "b \<le> 65535" "proto = ''tcp'' \<or> proto = ''udp''"
      by (auto simp: ValidRule_def)
    have "atoi (itoa a) = Some a" "atoi (itoa b) = Some b" using v by (auto intro: atoi_itoa)
    then show ?thesis
      using s(2-5) v ParsePort_range [OF v(1,2), of b proto] port_spec_split [OF s(3) v(1,2)]
      unfolding s(1) by (auto simp: ParsePortSpec_def)
  qed
qed

end
