(* ===== verification/FirewallConflicts.thy ===== *)
theory FirewallConflicts
  imports Firewall "HOL-Library.Multiset"
begin

text \<open>
  The conflict marks (\<open>markRuleConflicts\<close> of \<open>internal/firewall/firewall.go\<close>): the rules of one
  backend, zone, protocol and address family are sorted by their first port and swept once. The
  order \<open>sort.Slice\<close> gives to rules that compare equal and the order in which Go visits the groups
  are arguments. The result is compared with the quadratic definition of an overlap.
\<close>

section \<open>The sweep\<close>

definition LastPort :: "Rule \<Rightarrow> int" where
  "LastPort r = (if IsRange r then r_RangeEnd r else r_Port r)"

definition families :: "Rule \<Rightarrow> string list" where
  "families r = (if r_Family r = ''ipv4'' then [''ipv4''] else if r_Family r = ''ipv6'' then [''ipv6'']
                 else [''ipv4'', ''ipv6''])"

definition group_base :: "Rule \<Rightarrow> string" where
  "group_base r =
     r_Backend r @ [CHR 0x00] @ r_Zone r @ [CHR 0x00] @ r_Protocol r @ [CHR 0x00]"

definition group_keys :: "Rule \<Rightarrow> string list" where
  "group_keys r = map (\<lambda>f. group_base r @ f) (families r)"

definition group_indices :: "Rule list \<Rightarrow> string \<Rightarrow> nat list" where
  "group_indices rules key = filter (\<lambda>i. key \<in> set (group_keys (rules ! i))) [0..<length rules]"

definition less_rule :: "Rule \<Rightarrow> Rule \<Rightarrow> bool" where
  "less_rule a b \<longleftrightarrow>
     (if FirstPort a \<noteq> FirstPort b then FirstPort a < FirstPort b else r_RangeEnd a < r_RangeEnd b)"

text \<open>The marked indices of one group; an index below zero panics.\<close>

fun sweep :: "Rule list \<Rightarrow> nat list \<Rightarrow> int \<Rightarrow> nat option \<Rightarrow> nat list res" where
  "sweep rules [] highestEnd highestIndex = Inr []"
| "sweep rules (idx # idxs) highestEnd highestIndex =
     (let r = rules ! idx; first = FirstPort r; last = LastPort r in
      bindR (if first \<le> highestEnd
             then (case highestIndex of
                     None \<Rightarrow> Inl (GoPanic ''index out of range [-1]'') | Some h \<Rightarrow> Inr [idx, h])
             else Inr []) (\<lambda>marks.
      bindR (if last > highestEnd then sweep rules idxs last (Some idx)
             else sweep rules idxs highestEnd highestIndex) (\<lambda>more.
      Inr (marks @ more))))"

fun sweep_groups :: "(nat list \<Rightarrow> nat list) \<Rightarrow> Rule list \<Rightarrow> string list \<Rightarrow> nat list res" where
  "sweep_groups arrange rules [] = Inr []"
| "sweep_groups arrange rules (key # keys) =
     bindR (sweep rules (arrange (group_indices rules key)) (-1) None) (\<lambda>marks.
     bindR (sweep_groups arrange rules keys) (\<lambda>more. Inr (marks @ more)))"

definition markRuleConflicts :: "(nat list \<Rightarrow> nat list) \<Rightarrow> string list \<Rightarrow> Rule list \<Rightarrow> Rule list res" where
  "markRuleConflicts arrange keys rules =
     bindR (sweep_groups arrange rules keys) (\<lambda>marks.
       Inr (map (\<lambda>i. if i \<in> set marks then (rules ! i)\<lparr>r_Conflict := True\<rparr> else rules ! i)
              [0..<length rules]))"

section \<open>Overlaps\<close>

definition overlap :: "Rule \<Rightarrow> Rule \<Rightarrow> bool" where
  "overlap a b \<longleftrightarrow> FirstPort a \<le> LastPort b \<and> FirstPort b \<le> LastPort a"

definition same_scope :: "Rule \<Rightarrow> Rule \<Rightarrow> bool" where
  "same_scope a b \<longleftrightarrow>
     r_Backend a = r_Backend b \<and> r_Zone a = r_Zone b \<and> r_Protocol a = r_Protocol b \<and>
     set (families a) \<inter> set (families b) \<noteq> {}"

text \<open>What the rules that \<open>Inspect\<close> collects satisfy.\<close>

definition rule_ok :: "Rule \<Rightarrow> bool" where
  "rule_ok r \<longleftrightarrow>
     0 \<le> FirstPort r \<and> FirstPort r \<le> LastPort r \<and> CHR 0x00 \<notin> set (r_Backend r) \<and>
     CHR 0x00 \<notin> set (r_Zone r) \<and> CHR 0x00 \<notin> set (r_Protocol r)"

text \<open>\<open>sort.Slice\<close> returns some permutation that is sorted for the comparison.\<close>

definition sorts :: "Rule list \<Rightarrow> (nat list \<Rightarrow> nat list) \<Rightarrow> bool" where
  "sorts rules arrange \<longleftrightarrow>
     (\<forall>is. mset (arrange is) = mset is \<and>
           sorted_wrt (\<lambda>i j. \<not> less_rule (rules ! j) (rules ! i)) (arrange is))"

lemma LastPort_not_range: "rule_ok r \<Longrightarrow> 0 \<le> FirstPort r \<and> FirstPort r \<le> LastPort r"
  by (simp add: rule_ok_def)

lemma overlap_sym: "overlap a b = overlap b a"
  by (auto simp: overlap_def)

lemma not_less_first: "\<not> less_rule b a \<Longrightarrow> FirstPort a \<le> FirstPort b"
  by (auto simp: less_rule_def split: if_split_asm)

text \<open>
  The sweep over the rest \<open>is\<close> of a group whose indices \<open>done\<close> it has seen: it does not panic, it
  marks only indices with a partner, and with the marks \<open>A\<close> made so far every overlapping pair is
  marked.
\<close>

definition swept :: "Rule list \<Rightarrow> nat set \<Rightarrow> int \<Rightarrow> nat option \<Rightarrow> bool" where
  "swept rules P hE hI \<longleftrightarrow>
     (case hI of None \<Rightarrow> P = {} \<and> hE = -1
      | Some h \<Rightarrow> h \<in> P \<and> LastPort (rules ! h) = hE \<and> (\<forall>p \<in> P. LastPort (rules ! p) \<le> hE))"

lemma swept_step:
  assumes "swept rules P hE hI" "0 \<le> LastPort (rules ! i)"
  shows "if LastPort (rules ! i) > hE then swept rules (insert i P) (LastPort (rules ! i)) (Some i)
         else swept rules (insert i P) hE hI"
  using assms by (fastforce simp: swept_def split: option.split_asm option.split)

lemma sweep_spec:
  assumes "swept rules P hE hI"
    and "sorted_wrt (\<lambda>i j. FirstPort (rules ! i) \<le> FirstPort (rules ! j)) is"
    and "\<forall>p \<in> P. \<forall>i \<in> set is. FirstPort (rules ! p) \<le> FirstPort (rules ! i)"
    and "\<forall>i \<in> P \<union> set is. rule_ok (rules ! i)" and "distinct is" "set is \<inter> P = {}"
    and "\<forall>i \<in> P. \<forall>j \<in> P. i \<noteq> j \<longrightarrow> overlap (rules ! i) (rules ! j) \<longrightarrow> i \<in> A \<and> j \<in> A"
  shows "\<exists>ms. sweep rules is hE hI = Inr ms \<and>
    (\<forall>m \<in> set ms. \<exists>n \<in> P \<union> set is. m \<in> P \<union> set is \<and> n \<noteq> m \<and> overlap (rules ! m) (rules ! n)) \<and>
    (\<forall>i \<in> P \<union> set is. \<forall>j \<in> P \<union> set is.
        i \<noteq> j \<longrightarrow> overlap (rules ! i) (rules ! j) \<longrightarrow> i \<in> A \<union> set ms \<and> j \<in> A \<union> set ms)"
  using assms
proof (induction "is" arbitrary: P hE hI A)
  case Nil
  then show ?case by simp
next
  case (Cons i rest)
  let ?r = "rules ! i"
  let ?hE = "if LastPort ?r > hE then LastPort ?r else hE"
  let ?hI = "if LastPort ?r > hE then Some i else hI"
  let ?P = "insert i P"
  have ok: "rule_ok ?r" using Cons.prems(4) by simp
  have ok0: "0 \<le> FirstPort ?r" "FirstPort ?r \<le> LastPort ?r" using ok by (simp_all add: rule_ok_def)
  have sw: "swept rules ?P ?hE ?hI"
    using swept_step [OF Cons.prems(1), of i] ok0 by (auto split: if_split_asm)
  have next': "sweep rules rest ?hE ?hI =
      (if LastPort ?r > hE then sweep rules rest (LastPort ?r) (Some i) else sweep rules rest hE hI)"
    by simp
  define marks where "marks = (if FirstPort ?r \<le> hE then [i, the hI] else [])"
  have some: "FirstPort ?r \<le> hE \<longrightarrow> (\<exists>h. hI = Some h)"
    using Cons.prems(1) ok0 by (auto simp: swept_def split: option.split_asm)
  then have marks: "(if FirstPort ?r \<le> hE
       then (case hI of None \<Rightarrow> Inl (GoPanic ''index out of range [-1]'') | Some h \<Rightarrow> Inr [i, h])
       else Inr []) = Inr marks"
    by (auto simp: marks_def)
  have hit: "FirstPort ?r \<le> hE \<longrightarrow> (\<exists>h. hI = Some h \<and> marks = [i, h])"
    and nohit: "\<not> FirstPort ?r \<le> hE \<longrightarrow> marks = []"
    using some by (auto simp: marks_def)
  have sound: "\<exists>n \<in> ?P. m \<in> ?P \<and> n \<noteq> m \<and> overlap (rules ! m) (rules ! n)" if "m \<in> set marks" for m
  proof -
    have f: "FirstPort ?r \<le> hE" using that nohit by auto
    with hit obtain h where h: "hI = Some h" "marks = [i, h]" by blast
    have hP: "h \<in> P" "LastPort (rules ! h) = hE" using Cons.prems(1) h(1) by (auto simp: swept_def)
    have "FirstPort (rules ! h) \<le> FirstPort ?r" using Cons.prems(3) hP(1) by simp
    then have o: "overlap ?r (rules ! h)" using f hP(2) ok0 by (simp add: overlap_def)
    have "i \<noteq> h" using Cons.prems(6) hP(1) by auto
    with that h(2) o hP(1) overlap_sym show ?thesis by auto
  qed
  have complete: "p \<in> A \<union> set marks \<and> i \<in> A \<union> set marks"
    if p: "p \<in> P" "overlap (rules ! p) ?r" for p
  proof -
    have pl: "FirstPort ?r \<le> LastPort (rules ! p)" using p(2) by (simp add: overlap_def)
    obtain h where hI: "hI = Some h" and h: "h \<in> P" "LastPort (rules ! h) = hE" "LastPort (rules ! p) \<le> hE"
      using Cons.prems(1) p(1) by (auto simp: swept_def split: option.split_asm)
    with hit pl have m: "marks = [i, h]" by auto
    have "p \<in> A" if "p \<noteq> h"
    proof -
      have "FirstPort (rules ! h) \<le> FirstPort ?r" using Cons.prems(3) h(1) by simp
      moreover have "FirstPort (rules ! p) \<le> LastPort (rules ! p)"
        using Cons.prems(4) p(1) by (simp add: rule_ok_def)
      ultimately have "overlap (rules ! p) (rules ! h)" using pl h by (simp add: overlap_def)
      then show ?thesis using Cons.prems(7) p(1) h(1) that by blast
    qed
    then show ?thesis using m by auto
  qed
  have "\<exists>ms. sweep rules rest ?hE ?hI = Inr ms \<and>
    (\<forall>m \<in> set ms. \<exists>n \<in> ?P \<union> set rest. m \<in> ?P \<union> set rest \<and> n \<noteq> m \<and> overlap (rules ! m) (rules ! n)) \<and>
    (\<forall>i \<in> ?P \<union> set rest. \<forall>j \<in> ?P \<union> set rest.
        i \<noteq> j \<longrightarrow> overlap (rules ! i) (rules ! j) \<longrightarrow>
        i \<in> (A \<union> set marks) \<union> set ms \<and> j \<in> (A \<union> set marks) \<union> set ms)"
  proof (rule Cons.IH [OF sw])
    show "sorted_wrt (\<lambda>i j. FirstPort (rules ! i) \<le> FirstPort (rules ! j)) rest" using Cons.prems(2) by simp
    show "\<forall>p \<in> ?P. \<forall>j \<in> set rest. FirstPort (rules ! p) \<le> FirstPort (rules ! j)"
      using Cons.prems(2,3) by auto
    show "\<forall>j \<in> ?P \<union> set rest. rule_ok (rules ! j)" using Cons.prems(4) by auto
    show "distinct rest" "set rest \<inter> ?P = {}" using Cons.prems(5,6) by auto
    show "\<forall>j \<in> ?P. \<forall>k \<in> ?P. j \<noteq> k \<longrightarrow> overlap (rules ! j) (rules ! k) \<longrightarrow>
        j \<in> A \<union> set marks \<and> k \<in> A \<union> set marks"
      using Cons.prems(7) complete overlap_sym by blast
  qed
  then obtain ms where ms: "sweep rules rest ?hE ?hI = Inr ms"
    "\<forall>m \<in> set ms. \<exists>n \<in> ?P \<union> set rest. m \<in> ?P \<union> set rest \<and> n \<noteq> m \<and> overlap (rules ! m) (rules ! n)"
    "\<forall>i \<in> ?P \<union> set rest. \<forall>j \<in> ?P \<union> set rest.
        i \<noteq> j \<longrightarrow> overlap (rules ! i) (rules ! j) \<longrightarrow>
        i \<in> (A \<union> set marks) \<union> set ms \<and> j \<in> (A \<union> set marks) \<union> set ms" by blast
  have eq: "sweep rules (i # rest) hE hI = Inr (marks @ ms)"
    using ms(1) marks unfolding next' by (simp add: Let_def)
  have un: "P \<union> set (i # rest) = ?P \<union> set rest" by auto
  show ?case
    unfolding eq un using ms(2,3) sound by (intro exI [of _ "marks @ ms"] conjI) (auto simp: Un_assoc, blast+)
qed

section \<open>The groups\<close>

lemma append_sep_eq:
  assumes "c \<notin> set a" "c \<notin> set a'"
  shows "a @ c # s = a' @ c # s' \<longleftrightarrow> a = a' \<and> s = s'"
proof
  assume eq: "a @ c # s = a' @ c # s'"
  have "takeWhile (\<lambda>x. x \<noteq> c) (a @ c # s) = a" "takeWhile (\<lambda>x. x \<noteq> c) (a' @ c # s') = a'"
    using assms by (simp_all add: takeWhile_sep)
  with eq have "a = a'" by simp
  with eq show "a = a' \<and> s = s'" by simp
qed simp

lemma group_key_eq:
  assumes "rule_ok a" "rule_ok b"
  shows "group_base a @ f = group_base b @ g \<longleftrightarrow>
     r_Backend a = r_Backend b \<and> r_Zone a = r_Zone b \<and> r_Protocol a = r_Protocol b \<and> f = g"
  using assms by (auto simp: group_base_def rule_ok_def append_sep_eq)

lemma same_scope_keys:
  assumes "rule_ok a" "rule_ok b"
  shows "same_scope a b \<longleftrightarrow> (\<exists>k. k \<in> set (group_keys a) \<and> k \<in> set (group_keys b))"
proof -
  have "(\<exists>k. k \<in> set (group_keys a) \<and> k \<in> set (group_keys b)) \<longleftrightarrow>
      (\<exists>f \<in> set (families a). \<exists>g \<in> set (families b). group_base a @ f = group_base b @ g)"
    by (auto simp: group_keys_def)
  then show ?thesis by (auto simp: group_key_eq [OF assms] same_scope_def)
qed

lemma sweep_group:
  assumes srt: "sorts rules arrange" and ok: "\<forall>r \<in> set rules. rule_ok r"
  shows "\<exists>ms. sweep rules (arrange (group_indices rules key)) (-1) None = Inr ms \<and>
     set ms = {i \<in> set (group_indices rules key).
        \<exists>j \<in> set (group_indices rules key). j \<noteq> i \<and> overlap (rules ! i) (rules ! j)}"
proof -
  let ?g = "group_indices rules key"
  let ?is = "arrange ?g"
  have ms: "mset ?is = mset ?g"
    and sorted: "sorted_wrt (\<lambda>i j. \<not> less_rule (rules ! j) (rules ! i)) ?is"
    using srt by (simp_all add: sorts_def)
  have set_is: "set ?is = set ?g" using ms by (rule mset_eq_setD)
  have dist: "distinct ?is" using mset_eq_imp_distinct_iff [OF ms] by (simp add: group_indices_def)
  have first: "sorted_wrt (\<lambda>i j. FirstPort (rules ! i) \<le> FirstPort (rules ! j)) ?is"
    by (rule sorted_wrt_mono_rel [OF _ sorted]) (rule not_less_first)
  have oks: "\<forall>i \<in> {} \<union> set ?is. rule_ok (rules ! i)"
    unfolding set_is using ok by (auto simp: group_indices_def)
  obtain marks where m: "sweep rules ?is (-1) None = Inr marks"
    "\<forall>m \<in> set marks. \<exists>n \<in> {} \<union> set ?is. m \<in> {} \<union> set ?is \<and> n \<noteq> m \<and> overlap (rules ! m) (rules ! n)"
    "\<forall>i \<in> {} \<union> set ?is. \<forall>j \<in> {} \<union> set ?is.
        i \<noteq> j \<longrightarrow> overlap (rules ! i) (rules ! j) \<longrightarrow> i \<in> {} \<union> set marks \<and> j \<in> {} \<union> set marks"
    using sweep_spec [of rules "{}" "-1" None ?is "{}"] first oks dist by (auto simp: swept_def)
  have "set marks = {i \<in> set ?g. \<exists>j \<in> set ?g. j \<noteq> i \<and> overlap (rules ! i) (rules ! j)}"
  proof (intro subset_antisym subsetI)
    fix i assume "i \<in> set marks"
    with m(2) show "i \<in> {i \<in> set ?g. \<exists>j \<in> set ?g. j \<noteq> i \<and> overlap (rules ! i) (rules ! j)}"
      unfolding set_is Un_empty_left by blast
  next
    fix i assume "i \<in> {i \<in> set ?g. \<exists>j \<in> set ?g. j \<noteq> i \<and> overlap (rules ! i) (rules ! j)}"
    then obtain j where j: "i \<in> set ?is" "j \<in> set ?is" "i \<noteq> j" "overlap (rules ! i) (rules ! j)"
      unfolding set_is by blast
    then show "i \<in> set marks" using m(3) [unfolded Un_empty_left, rule_format, of i j] by blast
  qed
  with m(1) show ?thesis by blast
qed

lemma sweep_groups_spec:
  assumes "sorts rules arrange" "\<forall>r \<in> set rules. rule_ok r"
  shows "\<exists>ms. sweep_groups arrange rules keys = Inr ms \<and>
     set ms = {i. \<exists>key \<in> set keys. i \<in> set (group_indices rules key) \<and>
        (\<exists>j \<in> set (group_indices rules key). j \<noteq> i \<and> overlap (rules ! i) (rules ! j))}"
proof (induction keys)
  case (Cons key keys)
  then obtain ms where ms: "sweep_groups arrange rules keys = Inr ms"
    "set ms = {i. \<exists>key \<in> set keys. i \<in> set (group_indices rules key) \<and>
        (\<exists>j \<in> set (group_indices rules key). j \<noteq> i \<and> overlap (rules ! i) (rules ! j))}" by blast
  obtain m1 where m1: "sweep rules (arrange (group_indices rules key)) (-1) None = Inr m1"
    "set m1 = {i \<in> set (group_indices rules key).
        \<exists>j \<in> set (group_indices rules key). j \<noteq> i \<and> overlap (rules ! i) (rules ! j)}"
    using sweep_group [OF assms] by blast
  have "sweep_groups arrange rules (key # keys) = Inr (m1 @ ms)" using ms(1) m1(1) by simp
  then show ?case using ms(2) m1(2) by (intro exI [of _ "m1 @ ms"] conjI) auto
qed simp

lemma same_conflict [simp]: "(r :: Rule)\<lparr>r_Conflict := r_Conflict r\<rparr> = r"
  by (cases r) simp

definition shares_port :: "Rule list \<Rightarrow> nat \<Rightarrow> bool" where
  "shares_port rules i \<longleftrightarrow>
     (\<exists>j < length rules. j \<noteq> i \<and> same_scope (rules ! i) (rules ! j) \<and> overlap (rules ! i) (rules ! j))"

lemma marks_exact:
  assumes "sorts rules arrange" and "\<forall>r \<in> set rules. rule_ok r"
    and "set keys = (\<Union>r \<in> set rules. set (group_keys r))"
  shows "markRuleConflicts arrange keys rules =
    Inr (map (\<lambda>i. (rules ! i)\<lparr>r_Conflict := r_Conflict (rules ! i) \<or> shares_port rules i\<rparr>) [0..<length rules])"
proof -
  obtain ms where ms: "sweep_groups arrange rules keys = Inr ms"
    "set ms = {i. \<exists>key \<in> set keys. i \<in> set (group_indices rules key) \<and>
        (\<exists>j \<in> set (group_indices rules key). j \<noteq> i \<and> overlap (rules ! i) (rules ! j))}"
    using sweep_groups_spec [OF assms(1,2)] by blast
  have marked: "i \<in> set ms \<longleftrightarrow> shares_port rules i" if i: "i < length rules" for i
  proof -
    have "i \<in> set ms \<longleftrightarrow> (\<exists>j < length rules. j \<noteq> i \<and> overlap (rules ! i) (rules ! j) \<and>
        (\<exists>key. key \<in> set (group_keys (rules ! i)) \<and> key \<in> set (group_keys (rules ! j))))"
      using i assms(3) by (auto simp: ms(2) group_indices_def) (metis UN_I nth_mem)
    also have "\<dots> \<longleftrightarrow> shares_port rules i"
      unfolding shares_port_def using assms(2) i same_scope_keys by (metis nth_mem)
    finally show ?thesis .
  qed
  have "(if i \<in> set ms then (rules ! i)\<lparr>r_Conflict := True\<rparr> else rules ! i) =
      (rules ! i)\<lparr>r_Conflict := r_Conflict (rules ! i) \<or> shares_port rules i\<rparr>" if "i < length rules" for i
    unfolding marked [OF that, symmetric] by (cases "i \<in> set ms") simp_all
  then show ?thesis using ms(1) by (simp add: markRuleConflicts_def)
qed

section \<open>Properties\<close>

text \<open>(C33) The sweep marks exactly the rules that overlap another one: same backend, zone and
  protocol, a common address family, and a common port. It does so whatever order Go visits the
  groups in and however it orders rules that compare equal, and changes nothing else.\<close>

theorem conflicts_exact:
  assumes "sorts rules arrange" and "\<forall>r \<in> set rules. rule_ok r"
    and "set keys = (\<Union>r \<in> set rules. set (group_keys r))"
  shows "\<exists>out. markRuleConflicts arrange keys rules = Inr out \<and> length out = length rules \<and>
     (\<forall>i < length rules. out ! i = (rules ! i)\<lparr>r_Conflict := r_Conflict (rules ! i) \<or>
        (\<exists>j < length rules. j \<noteq> i \<and> same_scope (rules ! i) (rules ! j) \<and> overlap (rules ! i) (rules ! j))\<rparr>)"
  using marks_exact [OF assms] by (simp add: shares_port_def)

definition sample_rules :: "Rule list" where
  "sample_rules = [zero_Rule\<lparr>r_Port := 80, r_Protocol := ''tcp''\<rparr>,
     zero_Rule\<lparr>r_RangeStart := 70, r_RangeEnd := 90, r_Protocol := ''tcp''\<rparr>,
     zero_Rule\<lparr>r_Port := 443, r_Protocol := ''tcp''\<rparr>]"

text \<open>Sorting by the second key, then stably by the first, is such an order.\<close>

definition arrange_by :: "Rule list \<Rightarrow> nat list \<Rightarrow> nat list" where
  "arrange_by rs is = sort_key (\<lambda>i. FirstPort (rs ! i)) (sort_key (\<lambda>i. r_RangeEnd (rs ! i)) is)"

lemma sort_key_stable:
  fixes f :: "'a \<Rightarrow> 'b :: linorder"
  assumes "sorted_wrt Q ys"
  shows "sorted_wrt (\<lambda>x y. f x < f y \<or> f x = f y \<and> Q x y) (sort_key f ys)"
  using assms
proof (induction ys)
  case (Cons a as)
  have insort: "sorted_wrt (\<lambda>x y. f x < f y \<or> f x = f y \<and> Q x y) (insort_key f x zs)"
    if "sorted_wrt (\<lambda>x y. f x < f y \<or> f x = f y \<and> Q x y) zs" "\<forall>y \<in> set zs. Q x y" for x zs
    using that by (induction zs) (auto simp: set_insort_key)
  from Cons show ?case by (auto intro!: insort)
qed simp

lemma sorted_wrt_le: "sorted_wrt (\<lambda>x y. g x \<le> g y) (sort_key (g :: 'a \<Rightarrow> 'b :: linorder) xs)"
  using sorted_sort_key [of g xs] by (simp add: sorted_wrt_map)

lemma arrange_by_sorts: "sorts rs (arrange_by rs)"
  unfolding sorts_def
proof (intro allI conjI)
  fix "is" :: "nat list"
  show "mset (arrange_by rs is) = mset is" by (simp add: arrange_by_def)
  show "sorted_wrt (\<lambda>i j. \<not> less_rule (rs ! j) (rs ! i)) (arrange_by rs is)"
    unfolding arrange_by_def
    by (rule sorted_wrt_mono_rel [OF _ sort_key_stable [OF sorted_wrt_le]]) (auto simp: less_rule_def)
qed

theorem conflicts_exact_witness:
  "\<exists>out keys. markRuleConflicts (arrange_by sample_rules) keys sample_rules = Inr out \<and>
     map r_Conflict out = [True, True, False]"
proof -
  have ok: "\<forall>r \<in> set sample_rules. rule_ok r"
    by (simp add: sample_rules_def rule_ok_def FirstPort_def LastPort_def IsRange_def zero_Rule_def)
  let ?keys = "concat (map group_keys sample_rules)"
  have keys: "set ?keys = (\<Union>r \<in> set sample_rules. set (group_keys r))" by simp
  obtain out where out: "markRuleConflicts (arrange_by sample_rules) ?keys sample_rules = Inr out"
    "length out = length sample_rules"
    "\<forall>i < length sample_rules. out ! i = (sample_rules ! i)\<lparr>r_Conflict := r_Conflict (sample_rules ! i) \<or>
        (\<exists>j < length sample_rules. j \<noteq> i \<and> same_scope (sample_rules ! i) (sample_rules ! j) \<and>
           overlap (sample_rules ! i) (sample_rules ! j))\<rparr>"
    using conflicts_exact [OF arrange_by_sorts ok keys] by blast
  have len: "length sample_rules = 3" by (simp add: sample_rules_def)
  have rules: "sample_rules ! 0 = zero_Rule\<lparr>r_Port := 80, r_Protocol := ''tcp''\<rparr>"
    "sample_rules ! 1 = zero_Rule\<lparr>r_RangeStart := 70, r_RangeEnd := 90, r_Protocol := ''tcp''\<rparr>"
    "sample_rules ! 2 = zero_Rule\<lparr>r_Port := 443, r_Protocol := ''tcp''\<rparr>"
    by (simp_all add: sample_rules_def)
  note view = overlap_def same_scope_def families_def FirstPort_def LastPort_def IsRange_def zero_Rule_def
  have o01: "same_scope (sample_rules ! 0) (sample_rules ! 1)" "overlap (sample_rules ! 0) (sample_rules ! 1)"
    "same_scope (sample_rules ! 1) (sample_rules ! 0)" "overlap (sample_rules ! 1) (sample_rules ! 0)"
    unfolding rules by (simp_all add: view)
  have o2: "\<not> overlap (sample_rules ! 2) (sample_rules ! j)" if "j < 3" "j \<noteq> 2" for j
  proof -
    from that consider "j = 0" | "j = 1" by linarith
    then show ?thesis by cases (simp_all only: rules, simp_all add: view)
  qed
  have "r_Conflict (out ! 0)" using out(3) [rule_format, of 0] o01 by (auto simp: len intro!: exI [of _ 1])
  moreover have "r_Conflict (out ! 1)" using out(3) [rule_format, of 1] o01 by (auto simp: len intro!: exI [of _ 0])
  moreover have "\<not> r_Conflict (out ! 2)"
    using out(3) [rule_format, of 2] o2 rules(3) by (auto simp: len zero_Rule_def)
  ultimately have "map r_Conflict out = [True, True, False]"
    using out(2) by (auto simp: len numeral_3_eq_3 numeral_2_eq_2 length_Suc_conv)
  with out(1) show ?thesis by (intro exI [of _ out] exI [of _ ?keys] conjI)
qed

end
