(* ===== verification/FirewallInspect.thy ===== *)
theory FirewallInspect
  imports FirewallConflicts "HOL-Library.AList" "HOL-Library.List_Lexorder" "HOL-Library.Char_ord"
begin

text \<open>
  Reading the host's firewall (\<open>runningManagers\<close>, \<open>Detect\<close>, \<open>independentInputChainBlocker\<close>,
  \<open>Inspect\<close>, \<open>Raw\<close>, \<open>ListeningSockets\<close> of \<open>internal/firewall/firewall.go\<close>).

  The programs \<open>firewall-cmd\<close>, \<open>ufw\<close>, \<open>nft\<close> and \<open>ss\<close> belong to the host. They are a
  \<open>Tools\<close> argument: what a listing prints in a state \<open>'h\<close> of the host, and what a command that
  changes the host prints and leaves. A listing changes nothing, and nobody else changes the host
  during one operation. The JSON reader and the orders that \<open>sort.Slice\<close> and \<open>range\<close> over a map
  leave open are fields too. Members of a JSON object are found by their exact name.
\<close>

section \<open>Running the tools\<close>

datatype finish = Finished | TimedOut | Failed err

record 'h Tools =
  t_has :: "string \<Rightarrow> bool"
  t_read :: "string list \<Rightarrow> 'h \<Rightarrow> string \<times> finish"
  t_write :: "string list \<Rightarrow> 'h \<Rightarrow> (string \<times> finish) \<times> 'h"
  t_json :: "string \<Rightarrow> jtext"
  t_order :: "Rule list \<Rightarrow> Rule list"
  t_arrange :: "Rule list \<Rightarrow> nat list \<Rightarrow> nat list"
  t_groups :: "Rule list \<Rightarrow> string list"

definition command :: "string list \<Rightarrow> string \<times> finish \<Rightarrow> string res" where
  "command argv result =
     (let name = hd argv; (out, fin) = result in
      if int (length out) > 262144 then Inl (Errorf ''%s output too large'' [name] [])
      else case fin of
        Finished \<Rightarrow> Inr (trim_space out)
      | TimedOut \<Rightarrow> Inl (Errorf ''%s timed out'' [name] [])
      | Failed e \<Rightarrow> Inl (Errorf ''%s failed: %w'' [name] [e]))"

definition ask :: "'h Tools \<Rightarrow> string list \<Rightarrow> 'h \<Rightarrow> string res" where
  "ask t argv h = command argv (t_read t argv h)"

definition act :: "'h Tools \<Rightarrow> string list \<Rightarrow> 'h \<Rightarrow> string res \<times> 'h" where
  "act t argv h = (let (result, h') = t_write t argv h in (command argv result, h'))"

definition runningManagers :: "'h Tools \<Rightarrow> 'h \<Rightarrow> bool \<times> bool" where
  "runningManagers t h =
     (t_has t ''firewall-cmd'' \<and>
        (case ask t [''firewall-cmd'', ''--state''] h of
           Inl e \<Rightarrow> False | Inr out \<Rightarrow> equal_fold (trim_space out) ''running''),
      t_has t ''ufw'' \<and>
        (case ask t [''ufw'', ''status''] h of
           Inl e \<Rightarrow> False | Inr out \<Rightarrow> has_prefix (to_lower (trim_space out)) ''status: active''))"

definition backend_of :: "'h Tools \<Rightarrow> bool \<times> bool \<Rightarrow> string" where
  "backend_of t fu =
     (if fst fu \<and> snd fu then ''mixed'' else if fst fu then ''firewalld'' else if snd fu then ''ufw''
      else if t_has t ''nft'' then ''nftables'' else if t_has t ''iptables'' then ''iptables''
      else ''none'')"

definition Detect :: "'h Tools \<Rightarrow> 'h \<Rightarrow> string" where
  "Detect t h = backend_of t (runningManagers t h)"

section \<open>The nftables ruleset\<close>

fun str_field :: "json \<Rightarrow> string option" where
  "str_field JNull = Some []"
| "str_field (JStr s) = Some s"
| "str_field v = None"

fun map_item :: "json \<Rightarrow> object option" where
  "map_item JNull = Some fmempty"
| "map_item (JObj m) = Some m"
| "map_item v = None"

fun map_items :: "json list \<Rightarrow> object list option" where
  "map_items [] = Some []"
| "map_items (v # vs) =
     (case (map_item v, map_items vs) of (Some m, Some ms) \<Rightarrow> Some (m # ms) | _ \<Rightarrow> None)"

fun map_array :: "json \<Rightarrow> object list option" where
  "map_array JNull = Some []"
| "map_array (JArr vs) = map_items vs"
| "map_array v = None"

record nftChain =
  nc_Family :: string
  nc_Table :: string
  nc_Name :: string
  nc_Type :: string
  nc_Hook :: string

record nftRule =
  nr_Family :: string
  nr_Table :: string
  nr_Chain :: string
  nr_Expr :: "object list"

definition decode_chain :: "json \<Rightarrow> nftChain option" where
  "decode_chain v =
     (case map_item v of None \<Rightarrow> None
      | Some m \<Rightarrow>
          (case (str_field (mget m ''family''), str_field (mget m ''table''), str_field (mget m ''name''),
                 str_field (mget m ''type''), str_field (mget m ''hook'')) of
             (Some f, Some t, Some n, Some ty, Some hk) \<Rightarrow>
               Some \<lparr>nc_Family = f, nc_Table = t, nc_Name = n, nc_Type = ty, nc_Hook = hk\<rparr>
           | _ \<Rightarrow> None))"

definition decode_rule :: "json \<Rightarrow> nftRule option" where
  "decode_rule v =
     (case map_item v of None \<Rightarrow> None
      | Some m \<Rightarrow>
          (case (str_field (mget m ''family''), str_field (mget m ''table''), str_field (mget m ''chain''),
                 map_array (mget m ''expr'')) of
             (Some f, Some t, Some c, Some e) \<Rightarrow>
               Some \<lparr>nr_Family = f, nr_Table = t, nr_Chain = c, nr_Expr = e\<rparr>
           | _ \<Rightarrow> None))"

text \<open>
  The jump targets of one rule's expressions, or \<open>None\<close> where the loop of \<open>ufwManagedInput\<close>
  returns false; then of every rule of the chain.
\<close>

definition ufw_item :: "string \<Rightarrow> object \<Rightarrow> string list option" where
  "ufw_item prefix item =
     (if fmcount item \<noteq> 1 then None
      else if fmlookup item ''counter'' \<noteq> None then Some []
      else case fmlookup item ''jump'' of
        None \<Rightarrow> None
      | Some d \<Rightarrow>
          (case map_item d of None \<Rightarrow> None
           | Some m \<Rightarrow>
               (case str_field (mget m ''target'') of None \<Rightarrow> None
                | Some target \<Rightarrow> if has_prefix target prefix then Some [target] else None)))"

fun ufw_items :: "string \<Rightarrow> object list \<Rightarrow> string list option" where
  "ufw_items prefix [] = Some []"
| "ufw_items prefix (item # rest) =
     (case ufw_item prefix item of None \<Rightarrow> None
      | Some ts \<Rightarrow> (case ufw_items prefix rest of None \<Rightarrow> None | Some us \<Rightarrow> Some (ts @ us)))"

fun ufw_rules :: "nftChain \<Rightarrow> string \<Rightarrow> object list \<Rightarrow> string list list option" where
  "ufw_rules c prefix [] = Some []"
| "ufw_rules c prefix (ob # objs) =
     (case fmlookup ob ''rule'' of
        None \<Rightarrow> ufw_rules c prefix objs
      | Some raw \<Rightarrow>
          (case decode_rule raw of
             None \<Rightarrow> None
           | Some r \<Rightarrow>
               if nr_Family r \<noteq> nc_Family c \<or> nr_Table r \<noteq> nc_Table c \<or> nr_Chain r \<noteq> nc_Name c
               then ufw_rules c prefix objs
               else if nr_Expr r = [] then None
               else (case ufw_items prefix (nr_Expr r) of
                       None \<Rightarrow> None
                     | Some ts \<Rightarrow>
                         if ts = [] then None
                         else (case ufw_rules c prefix objs of
                                 None \<Rightarrow> None | Some rs \<Rightarrow> Some (ts # rs)))))"

definition ufwManagedInput :: "nftChain \<Rightarrow> object list \<Rightarrow> bool" where
  "ufwManagedInput c objects =
     (if nc_Name c \<noteq> ''INPUT'' \<or> nc_Table c \<noteq> ''filter'' \<or> (nc_Family c \<noteq> ''ip'' \<and> nc_Family c \<noteq> ''ip6'')
      then False
      else
        (let prefix = (if nc_Family c = ''ip6'' then ''ufw6-'' else ''ufw-'') in
         case ufw_rules c prefix objects of
           None \<Rightarrow> False
         | Some rs \<Rightarrow>
             rs \<noteq> [] \<and>
             list_all (\<lambda>suffix. prefix @ suffix \<in> set (concat rs))
               [''before-input'', ''after-input'', ''reject-input'', ''track-input'']))"

definition foreign_chain :: "bool \<Rightarrow> object list \<Rightarrow> nftChain \<Rightarrow> bool" where
  "foreign_chain ufwActive objects c \<longleftrightarrow>
     nc_Hook c \<in> {''input'', ''prerouting'', ''ingress''} \<and>
     \<not> (nc_Table c = ''firewalld'' \<and> nc_Family c = ''inet'') \<and>
     \<not> (nc_Hook c = ''prerouting'' \<and> nc_Type c = ''nat'') \<and>
     \<not> (ufwActive \<and> nc_Hook c = ''input'' \<and> ufwManagedInput c objects)"

definition chain_text :: "nftChain \<Rightarrow> string" where
  "chain_text c =
     nc_Family c @ ''/'' @ nc_Table c @ ''/'' @ nc_Name c @ '' (type='' @ nc_Type c @ '', hook='' @
     nc_Hook c @ '')''"

fun first_blocker :: "bool \<Rightarrow> object list \<Rightarrow> object list \<Rightarrow> string" where
  "first_blocker ufwActive objects [] = []"
| "first_blocker ufwActive objects (ob # objs) =
     (case fmlookup ob ''chain'' of
        None \<Rightarrow> first_blocker ufwActive objects objs
      | Some raw \<Rightarrow>
          (case decode_chain raw of
             None \<Rightarrow> ''unparseable chain''
           | Some c \<Rightarrow> if foreign_chain ufwActive objects c then chain_text c
                       else first_blocker ufwActive objects objs))"

fun nft_objects :: "jtext \<Rightarrow> object list option" where
  "nft_objects (Doc v) = (case map_item v of None \<Rightarrow> None | Some m \<Rightarrow> map_array (mget m ''nftables''))"
| "nft_objects Blank = None"
| "nft_objects Bad = None"

definition independentInputChainBlocker :: "jtext \<Rightarrow> bool \<Rightarrow> string res" where
  "independentInputChainBlocker doc ufwActive =
     (case nft_objects doc of
        None \<Rightarrow> Inl (ErrNew ''json'')
      | Some objects \<Rightarrow>
          if objects = [] then Inl (ErrNew ''nftables ruleset response is empty'')
          else Inr (first_blocker ufwActive objects objects))"

definition independentInputChainsWithUFW :: "jtext \<Rightarrow> bool \<Rightarrow> bool res" where
  "independentInputChainsWithUFW doc ufwActive =
     bindR (independentInputChainBlocker doc ufwActive) (\<lambda>blocker. Inr (blocker \<noteq> []))"

definition independentInputChains :: "jtext \<Rightarrow> bool res" where
  "independentInputChains doc = independentInputChainsWithUFW doc False"

definition nativeInputBlocker :: "'h Tools \<Rightarrow> bool \<Rightarrow> 'h \<Rightarrow> string res" where
  "nativeInputBlocker t ufwActive h =
     (if \<not> t_has t ''nft'' then Inl (ErrNew ''nftables inspector is unavailable'')
      else bindR (ask t [''nft'', ''-j'', ''list'', ''ruleset''] h) (\<lambda>out.
             independentInputChainBlocker (t_json t out) ufwActive))"

section \<open>The snapshot\<close>

text \<open>
  \<open>UnsafeReason\<close> is kept as the error it formats, \<open>None\<close> for the empty text. The partly filled
  snapshot that accompanies an error is used by no caller.
\<close>

record Snapshot =
  sn_Backend :: string
  sn_Managers :: "string list"
  sn_Active :: bool
  sn_Writable :: bool
  sn_UnsafeReason :: "err option"
  sn_DefaultZone :: string
  sn_Zones :: "string list"
  sn_Services :: "(string, string list) fmap"
  sn_OpaqueRichZones :: "(string, bool) fmap"
  sn_Rules :: "Rule list"
  sn_Notice :: string

definition opaque_zone :: "Snapshot \<Rightarrow> string \<Rightarrow> bool" where
  "opaque_zone snap zone = (case fmlookup (sn_OpaqueRichZones snap) zone of None \<Rightarrow> False | Some b \<Rightarrow> b)"

definition zone_cmd :: "bool \<Rightarrow> string \<Rightarrow> string \<Rightarrow> string list" where
  "zone_cmd permanent zone arg =
     ''firewall-cmd'' # (if permanent then [''--permanent''] else []) @ [''--zone='' @ zone, arg]"

definition new_port_rule :: "string \<Rightarrow> string \<Rightarrow> Rule \<Rightarrow> Rule" where
  "new_port_rule zone spec ps =
     zero_Rule\<lparr>r_ID := ''firewalld:'' @ zone @ '':'' @ spec, r_Port := r_Port ps,
       r_Protocol := r_Protocol ps, r_RangeStart := r_RangeStart ps, r_RangeEnd := r_RangeEnd ps,
       r_Zone := zone, r_Backend := ''firewalld'', r_Access := zone_access zone\<rparr>"

definition mark_seen :: "bool \<Rightarrow> Rule \<Rightarrow> Rule" where
  "mark_seen runtime r = (if runtime then r\<lparr>r_Runtime := True\<rparr> else r\<lparr>r_Permanent := True\<rparr>)"

definition add_port_spec ::
  "string \<Rightarrow> bool \<Rightarrow> (string \<times> Rule) list \<Rightarrow> string \<Rightarrow> (string \<times> Rule) list" where
  "add_port_spec zone runtime entries spec =
     (case ParsePortSpec spec of
        None \<Rightarrow> entries
      | Some ps \<Rightarrow>
          (let r = (case map_of entries spec of None \<Rightarrow> new_port_rule zone spec ps | Some r \<Rightarrow> r)
           in AList.update spec (mark_seen runtime r) entries))"

definition port_entries :: "string \<Rightarrow> string \<Rightarrow> string \<Rightarrow> (string \<times> Rule) list" where
  "port_entries zone rt pm =
     foldl (add_port_spec zone False) (foldl (add_port_spec zone True) [] (Prelude.fields rt)) (Prelude.fields pm)"

definition port_rule :: "Rule \<Rightarrow> Rule" where
  "port_rule r = r\<lparr>r_Kind := ''port'', r_Action := ''allow'', r_Family := ''both''\<rparr>"

definition set_opaque :: "string \<Rightarrow> Snapshot \<Rightarrow> Snapshot" where
  "set_opaque zone snap = snap\<lparr>sn_OpaqueRichZones := fmupd zone True (sn_OpaqueRichZones snap)\<rparr>"

definition add_rich_line ::
  "string \<Rightarrow> bool \<Rightarrow> Snapshot \<times> (string \<times> Rule) list \<Rightarrow> string \<Rightarrow> Snapshot \<times> (string \<times> Rule) list" where
  "add_rich_line zone permanent state line =
     (case parseSimpleRichRule line zone of
        None \<Rightarrow> (if trim_space line \<noteq> [] then set_opaque zone (fst state) else fst state, snd state)
      | Some rich \<Rightarrow>
          (let item = (case map_of (snd state) (r_ID rich) of None \<Rightarrow> rich | Some r \<Rightarrow> r)
           in (fst state, AList.update (r_ID rich) (mark_seen (\<not> permanent) item) (snd state))))"

definition refuse_writes :: "err \<Rightarrow> Snapshot \<Rightarrow> Snapshot" where
  "refuse_writes reason snap = snap\<lparr>sn_Writable := False, sn_UnsafeReason := Some reason\<rparr>"

definition rich_unreadable :: err where
  "rich_unreadable =
     ErrNew (utf8 [0x65E0, 0x6CD5, 0x8BFB, 0x53D6] @ '' firewalld '' @
       utf8 [0x5BCC, 0x89C4, 0x5219, 0xFF1B, 0x6682, 0x65F6, 0x7981, 0x6B62, 0x7F51, 0x9875, 0x5199, 0x5165])"

definition rich_batch ::
  "'h Tools \<Rightarrow> 'h \<Rightarrow> string \<Rightarrow> bool \<Rightarrow> Snapshot \<times> (string \<times> Rule) list \<Rightarrow> Snapshot \<times> (string \<times> Rule) list" where
  "rich_batch t h zone permanent state =
     (case ask t (zone_cmd permanent zone ''--list-rich-rules'') h of
        Inl e \<Rightarrow> (refuse_writes rich_unreadable (fst state), snd state)
      | Inr out \<Rightarrow> foldl (add_rich_line zone permanent) state (split_on newline out))"

definition add_rules :: "Rule list \<Rightarrow> Snapshot \<Rightarrow> Snapshot" where
  "add_rules rs snap = snap\<lparr>sn_Rules := sn_Rules snap @ rs\<rparr>"

definition zone_rules :: "'h Tools \<Rightarrow> 'h \<Rightarrow> string \<Rightarrow> string \<Rightarrow> string \<Rightarrow> Snapshot \<Rightarrow> Snapshot" where
  "zone_rules t h zone rt pm snap =
     (let ports = map (\<lambda>(_, r). port_rule r) (port_entries zone rt pm);
          (snap1, rich) = rich_batch t h zone True (rich_batch t h zone False (add_rules ports snap, []));
          snap2 = add_rules (map snd rich) snap1
      in case ask t (zone_cmd False zone ''--list-services'') h of
           Inl e \<Rightarrow> snap2
         | Inr srv \<Rightarrow> snap2\<lparr>sn_Services := fmupd zone (Prelude.fields srv) (sn_Services snap2)\<rparr>)"

fun inspect_zones :: "'h Tools \<Rightarrow> 'h \<Rightarrow> string list \<Rightarrow> Snapshot \<Rightarrow> Snapshot res" where
  "inspect_zones t h [] snap = Inr snap"
| "inspect_zones t h (zone # zones) snap =
     bindR (ask t (zone_cmd False zone ''--list-ports'') h) (\<lambda>rt.
     bindR (ask t (zone_cmd True zone ''--list-ports'') h) (\<lambda>pm.
     inspect_zones t h zones (zone_rules t h zone rt pm snap)))"

definition inspect_firewalld :: "'h Tools \<Rightarrow> 'h \<Rightarrow> Snapshot \<Rightarrow> Snapshot res" where
  "inspect_firewalld t h snap =
     bindR (ask t [''firewall-cmd'', ''--get-default-zone''] h) (\<lambda>def.
     bindR (guardR (ValidZone def) (ErrNew ''invalid firewalld default zone'')) (\<lambda>_.
     bindR (ask t [''firewall-cmd'', ''--get-active-zones''] h) (\<lambda>active.
     (let zones = sort (remdups (def # activeZones active)) in
      inspect_zones t h zones (snap\<lparr>sn_DefaultZone := def, sn_Zones := zones\<rparr>)))))"

definition add_ufw_line :: "(string \<times> Rule) list \<Rightarrow> string \<Rightarrow> (string \<times> Rule) list" where
  "add_ufw_line seen line =
     (case ufwPortLine line of
        None \<Rightarrow> seen
      | Some u \<Rightarrow>
          if \<not> u_broad u then seen
          else
            (let key = port_spec (u_port u) (u_proto u);
                 r = (case map_of seen key of
                        None \<Rightarrow> zero_Rule\<lparr>r_ID := ''ufw:'' @ key, r_Port := u_port u, r_Protocol := u_proto u,
                                  r_Backend := ''ufw'', r_Runtime := True, r_Permanent := True,
                                  r_Access := utf8 [0x6240, 0x6709, 0x6765, 0x6E90]\<rparr>
                      | Some r \<Rightarrow> r)
             in AList.update key (if u_v6 u then r\<lparr>r_IPv6 := True\<rparr> else r\<lparr>r_IPv4 := True\<rparr>) seen))"

definition ufw_rule :: "Rule \<Rightarrow> Rule" where
  "ufw_rule r =
     r\<lparr>r_Action := ''allow'', r_Kind := ''port'',
       r_Family := (if r_IPv4 r \<and> \<not> r_IPv6 r then ''ipv4'' else if r_IPv6 r \<and> \<not> r_IPv4 r then ''ipv6''
                    else ''both'')\<rparr>"

definition notice_ufw :: string where
  "notice_ufw = ''UFW '' @ utf8 [0x4EC5, 0x5217, 0x51FA, 0x65E0, 0x6765, 0x6E90, 0x9650, 0x5236, 0x7684,
     0x660E, 0x786E, 0x653E, 0x884C, 0x89C4, 0x5219, 0xFF1B, 0x5176, 0x4ED6, 0x89C4, 0x5219, 0x987B, 0x7ECF,
     0x539F, 0x7BA1, 0x7406, 0x5668, 0x68C0, 0x67E5, 0x3002]"

definition inspect_ufw :: "'h Tools \<Rightarrow> 'h \<Rightarrow> Snapshot \<Rightarrow> Snapshot res" where
  "inspect_ufw t h snap =
     bindR (ask t [''ufw'', ''status''] h) (\<lambda>out.
     Inr (add_rules (map (\<lambda>(_, r). ufw_rule r) (foldl add_ufw_line [] (split_on newline out)))
            (snap\<lparr>sn_Notice := notice_ufw\<rparr>)))"

section \<open>Inspection\<close>

definition notice_simple :: string where
  "notice_simple = utf8 [0x53EA, 0x663E, 0x793A, 0x7B80, 0x5355, 0x7AEF, 0x53E3, 0x89C4, 0x5219, 0xFF1B,
     0x670D, 0x52A1, 0x3001, 0x5BCC, 0x89C4, 0x5219, 0x3001, 0x6765, 0x6E90, 0x9650, 0x5236, 0x3001] @ ''NAT '' @
     utf8 [0x4E0E, 0x5176, 0x4ED6, 0x94FE, 0x53EF, 0x80FD, 0x5F71, 0x54CD, 0x5B9E, 0x9645, 0x8FDE, 0x901A,
       0x6027, 0x3002]"

definition notice_mixed :: string where
  "notice_mixed = utf8 [0x53D1, 0x73B0, 0x591A, 0x4E2A, 0x6D3B, 0x52A8, 0x9632, 0x706B, 0x5899, 0x7BA1,
     0x7406, 0x5668, 0xFF0C, 0x8BF7, 0x5148, 0x68C0, 0x67E5, 0x89C4, 0x5219, 0x6240, 0x6709, 0x6743, 0xFF1B,
     0x7F51, 0x9875, 0x53EA, 0x8BFB, 0x3002]"

definition notice_native :: string where
  "notice_native = utf8 [0x539F, 0x751F, 0x89C4, 0x5219, 0x53EA, 0x8BFB, 0xFF1B, 0x68C0, 0x6D4B, 0x5230,
     0x5BF9, 0x5E94, 0x547D, 0x4EE4, 0x4E0D, 0x4EE3, 0x8868, 0x7CFB, 0x7EDF, 0x9632, 0x706B, 0x5899, 0x5DF2,
     0x542F, 0x7528, 0x3002]"

definition notice_none :: string where
  "notice_none = utf8 [0x672A, 0x53D1, 0x73B0, 0x6D3B, 0x52A8, 0x7684, 0x53D7, 0x652F, 0x6301, 0x9632,
     0x706B, 0x5899, 0x7BA1, 0x7406, 0x5668, 0x3002]"

definition both_active :: err where
  "both_active = ErrNew (''firewalld '' @ utf8 [0x4E0E] @ '' UFW '' @
     utf8 [0x540C, 0x65F6, 0x6D3B, 0x52A8, 0xFF0C, 0x6682, 0x505C, 0x7F51, 0x9875, 0x5199, 0x64CD, 0x4F5C])"

definition chains_unknown :: "err \<Rightarrow> err" where
  "chains_unknown e = Errorf (utf8 [0x65E0, 0x6CD5, 0x786E, 0x8BA4, 0x5E95, 0x5C42] @ '' nftables '' @
     utf8 [0x89C4, 0x5219, 0x94FE, 0xFF1A] @ ''%v'') [] [e]"

definition foreign_blocker :: "string \<Rightarrow> err" where
  "foreign_blocker b = Errorf (utf8 [0x68C0, 0x6D4B, 0x5230, 0x72EC, 0x7ACB] @ '' nftables '' @
     utf8 [0x6D41, 0x91CF, 0x5904, 0x7406, 0x94FE] @ '' %s'' @
     utf8 [0xFF0C, 0x65E0, 0x6CD5, 0x786E, 0x8BA4, 0x89C4, 0x5219, 0x987A, 0x5E8F]) [b] []"

definition first_snapshot :: "'h Tools \<Rightarrow> bool \<times> bool \<Rightarrow> Snapshot" where
  "first_snapshot t fu =
     \<lparr>sn_Backend = backend_of t fu,
      sn_Managers = (if fst fu then [''firewalld''] else []) @ (if snd fu then [''ufw''] else []),
      sn_Active = fst fu \<or> snd fu, sn_Writable = False, sn_UnsafeReason = None, sn_DefaultZone = [],
      sn_Zones = [], sn_Services = fmempty, sn_OpaqueRichZones = fmempty, sn_Rules = [],
      sn_Notice = notice_simple\<rparr>"

definition check_chains :: "'h Tools \<Rightarrow> 'h \<Rightarrow> bool \<times> bool \<Rightarrow> Snapshot \<Rightarrow> Snapshot" where
  "check_chains t h fu snap0 =
     (let snap = snap0\<lparr>sn_Writable := fst fu \<or> snd fu\<rparr> in
      if \<not> (fst fu \<or> snd fu) then snap
      else case nativeInputBlocker t (snd fu) h of
        Inl e \<Rightarrow> refuse_writes (chains_unknown e) snap
      | Inr b \<Rightarrow> if b \<noteq> [] then refuse_writes (foreign_blocker b) snap else snap)"

definition inspect_backend :: "'h Tools \<Rightarrow> 'h \<Rightarrow> Snapshot \<Rightarrow> Snapshot res" where
  "inspect_backend t h snap =
     (if sn_Backend snap = ''firewalld'' then inspect_firewalld t h snap
      else if sn_Backend snap = ''ufw'' then inspect_ufw t h snap
      else if sn_Backend snap = ''nftables'' \<or> sn_Backend snap = ''iptables''
        then Inr (snap\<lparr>sn_Notice := notice_native\<rparr>)
      else if sn_Backend snap = ''none'' then Inr (snap\<lparr>sn_Notice := notice_none\<rparr>)
      else Inr snap)"

text \<open>The order of the final \<open>sort.Slice\<close>.\<close>

definition listed_before :: "Rule \<Rightarrow> Rule \<Rightarrow> bool" where
  "listed_before a b \<longleftrightarrow>
     (if FirstPort a \<noteq> FirstPort b then FirstPort a < FirstPort b
      else if r_Protocol a \<noteq> r_Protocol b then r_Protocol a < r_Protocol b
      else r_Zone a < r_Zone b)"

definition arrange_rules :: "'h Tools \<Rightarrow> Snapshot \<Rightarrow> Snapshot res" where
  "arrange_rules t snap =
     (let rs = t_order t (sn_Rules snap) in
      bindR (markRuleConflicts (t_arrange t rs) (t_groups t rs) rs) (\<lambda>marked.
      Inr (snap\<lparr>sn_Rules := marked\<rparr>)))"

definition Inspect :: "'h Tools \<Rightarrow> 'h \<Rightarrow> Snapshot res" where
  "Inspect t h =
     (let fu = runningManagers t h; snap = first_snapshot t fu in
      if fst fu \<and> snd fu
      then Inr (snap\<lparr>sn_UnsafeReason := Some both_active, sn_Notice := notice_mixed\<rparr>)
      else bindR (inspect_backend t h (check_chains t h fu snap)) (arrange_rules t))"

section \<open>Sockets\<close>

definition Raw :: "'h Tools \<Rightarrow> 'h \<Rightarrow> string res" where
  "Raw t h =
     (if t_has t ''nft'' then ask t [''nft'', ''-a'', ''list'', ''ruleset''] h
      else if t_has t ''iptables-save'' then ask t [''iptables-save''] h
      else Inl (ErrNew ''no native ruleset reader''))"

definition socket_row :: "string list \<Rightarrow> (string \<times> int) res" where
  "socket_row f =
     (let low = to_lower (hd f);
          protocol = (if low = ''tcp'' \<or> low = ''tcp6'' then ''tcp''
                      else if low = ''udp'' \<or> low = ''udp6'' then ''udp'' else []) in
      if protocol = [] then Inl (Errorf ''unrecognized ss transport: %q'' [hd f] [])
      else if length f < 5 then Inl (ErrNew ''truncated ss socket row'')
      else case after_colon (f ! 4) of
        None \<Rightarrow> Inl (ErrNew ''unrecognized ss local endpoint'')
      | Some p \<Rightarrow>
          (case atoi p of
             None \<Rightarrow> Inl (ErrNew ''invalid ss listening port'')
           | Some port \<Rightarrow>
               if ValidRule port protocol then Inr (protocol, port)
               else Inl (ErrNew ''invalid ss listening port'')))"

text \<open>The keys \<open>protocol/port\<close> of the map, as pairs.\<close>

fun socket_rows :: "string list \<Rightarrow> (string \<times> int) list res" where
  "socket_rows [] = Inr []"
| "socket_rows (line # lines) =
     (if Prelude.fields line = [] then socket_rows lines
      else bindR (socket_row (Prelude.fields line)) (\<lambda>k. bindR (socket_rows lines) (\<lambda>ks. Inr (List.insert k ks))))"

definition parseListeningSockets :: "string \<Rightarrow> (string \<times> int) list res" where
  "parseListeningSockets out = socket_rows (split_on newline out)"

definition ListeningSockets :: "'h Tools \<Rightarrow> 'h \<Rightarrow> (string \<times> int) list res" where
  "ListeningSockets t h =
     (if \<not> t_has t ''ss'' then Inl (ErrNew ''ss command unavailable'')
      else bindR (ask t [''ss'', ''-H'', ''-lnut''] h) parseListeningSockets)"

definition ListeningPorts :: "'h Tools \<Rightarrow> 'h \<Rightarrow> int list res" where
  "ListeningPorts t h = bindR (ListeningSockets t h) (\<lambda>sockets. Inr (remdups (map snd sockets)))"

section \<open>Collecting a listing\<close>

text \<open>The loops over a listing add a rule under its key, or mark the rule that is there.\<close>

definition upsert ::
  "('x \<Rightarrow> ('k \<times> 'r) option) \<Rightarrow> ('r \<Rightarrow> 'r) \<Rightarrow> ('k \<times> 'r) list \<Rightarrow> 'x \<Rightarrow> ('k \<times> 'r) list" where
  "upsert item mark es x =
     (case item x of
        None \<Rightarrow> es
      | Some (k, r0) \<Rightarrow> AList.update k (mark (case map_of es k of None \<Rightarrow> r0 | Some r \<Rightarrow> r)) es)"

definition offered :: "('x \<Rightarrow> ('k \<times> 'r) option) \<Rightarrow> 'x list \<Rightarrow> 'k set" where
  "offered item xs = {k. \<exists>x \<in> set xs. \<exists>r. item x = Some (k, r)}"

lemma offered_Cons: "offered item (x # xs) = (case item x of None \<Rightarrow> {} | Some (k, r) \<Rightarrow> {k}) \<union> offered item xs"
  by (auto simp: offered_def split: option.split)

lemma offered_Nil [simp]: "offered item [] = {}"
  by (simp add: offered_def)

lemma upsert_distinct: "distinct (map fst es) \<Longrightarrow> distinct (map fst (foldl (upsert item mark) es xs))"
proof (induction xs arbitrary: es)
  case (Cons x xs)
  have "distinct (map fst (upsert item mark es x))"
    using Cons.prems by (auto simp: upsert_def distinct_update split: option.split)
  with Cons.IH show ?case by simp
qed simp

lemma map_of_upserts:
  assumes fresh: "\<And>x k r. item x = Some (k, r) \<Longrightarrow> r = F k" and idem: "\<And>r. mark (mark r) = mark r"
  shows "map_of (foldl (upsert item mark) es xs) k =
     (if k \<in> offered item xs then Some (mark (case map_of es k of None \<Rightarrow> F k | Some r \<Rightarrow> r)) else map_of es k)"
proof (induction xs arbitrary: es)
  case (Cons x xs)
  show ?case
  proof (cases "item x")
    case None
    then show ?thesis using Cons.IH by (simp add: upsert_def offered_Cons)
  next
    case (Some kr)
    obtain k' r where kr: "kr = (k', r)" by (cases kr)
    with Some fresh have r: "r = F k'" by blast
    have off: "offered item (x # xs) = insert k' (offered item xs)"
      using Some kr by (simp add: offered_Cons)
    have "map_of (upsert item mark es x) =
        (map_of es)(k' \<mapsto> mark (case map_of es k' of None \<Rightarrow> F k' | Some r \<Rightarrow> r))"
      using Some kr r by (simp add: upsert_def update_conv')
    then show ?thesis
      unfolding foldl.simps Cons.IH off by (auto simp: idem split: option.split)
  qed
qed simp

lemma mark_seen_idem [simp]: "mark_seen b (mark_seen b r) = mark_seen b r"
  by (simp add: mark_seen_def)

text \<open>A listing of the runtime and one of the permanent configuration, one after the other.\<close>

definition two_listings :: "('x \<Rightarrow> ('k \<times> Rule) option) \<Rightarrow> 'x list \<Rightarrow> 'x list \<Rightarrow> ('k \<times> Rule) list" where
  "two_listings item xs ys =
     foldl (upsert item (mark_seen False)) (foldl (upsert item (mark_seen True)) [] xs) ys"

lemma two_listings_set:
  assumes "\<And>x k r. item x = Some (k, r) \<Longrightarrow> r = F k \<and> \<not> r_Runtime r \<and> \<not> r_Permanent r"
  shows "set (two_listings item xs ys) =
    (\<lambda>k. (k, (F k)\<lparr>r_Runtime := k \<in> offered item xs, r_Permanent := k \<in> offered item ys\<rparr>)) `
       (offered item xs \<union> offered item ys)"
proof -
  have flags: "\<not> r_Runtime (F k)" "\<not> r_Permanent (F k)" if "k \<in> offered item xs \<union> offered item ys" for k
    using that assms by (auto simp: offered_def)
  have eq: "(r :: Rule)\<lparr>r_Runtime := True\<rparr> = r\<lparr>r_Runtime := True, r_Permanent := False\<rparr> \<and>
      r\<lparr>r_Permanent := True\<rparr> = r\<lparr>r_Runtime := False, r_Permanent := True\<rparr>"
    if "\<not> r_Runtime r" "\<not> r_Permanent r" for r
    using that by (cases r) simp
  have m: "map_of (two_listings item xs ys) k =
     (if k \<in> offered item xs \<union> offered item ys
      then Some ((F k)\<lparr>r_Runtime := k \<in> offered item xs, r_Permanent := k \<in> offered item ys\<rparr>) else None)" for k
  proof -
    have F: "\<And>x k r. item x = Some (k, r) \<Longrightarrow> r = F k" using assms by blast
    have one: "map_of (foldl (upsert item (mark_seen True)) [] xs) k =
        (if k \<in> offered item xs then Some (mark_seen True (F k)) else None)"
      by (simp add: map_of_upserts [OF F])
    have two: "map_of (two_listings item xs ys) k =
        (if k \<in> offered item ys
         then Some (mark_seen False (if k \<in> offered item xs then mark_seen True (F k) else F k))
         else if k \<in> offered item xs then Some (mark_seen True (F k)) else None)"
      unfolding two_listings_def by (simp add: map_of_upserts [OF F] one)
    show ?thesis
    proof (cases "k \<in> offered item xs \<union> offered item ys")
      case True
      then show ?thesis unfolding two using eq [OF flags [OF True]] by (auto simp: mark_seen_def)
    next
      case False
      then show ?thesis unfolding two by simp
    qed
  qed
  have d: "distinct (map fst (two_listings item xs ys))"
    unfolding two_listings_def by (intro upsert_distinct) simp
  have "(k, r) \<in> set (two_listings item xs ys) \<longleftrightarrow> k \<in> offered item xs \<union> offered item ys \<and>
      r = (F k)\<lparr>r_Runtime := k \<in> offered item xs, r_Permanent := k \<in> offered item ys\<rparr>" for k r
    unfolding map_of_eq_Some_iff [OF d, symmetric] m by auto
  note mem = this
  show ?thesis
  proof (rule set_eqI)
    fix kr
    show "kr \<in> set (two_listings item xs ys) \<longleftrightarrow>
      kr \<in> (\<lambda>k. (k, (F k)\<lparr>r_Runtime := k \<in> offered item xs, r_Permanent := k \<in> offered item ys\<rparr>)) `
       (offered item xs \<union> offered item ys)"
      using mem by (cases kr) (simp only: image_iff prod.inject, blast)
  qed
qed

section \<open>Port specifications and rich rules of a zone\<close>

definition spec_item :: "string \<Rightarrow> string \<Rightarrow> (string \<times> Rule) option" where
  "spec_item zone spec = map_option (\<lambda>ps. (spec, new_port_rule zone spec ps)) (ParsePortSpec spec)"

definition rich_item :: "string \<Rightarrow> string \<Rightarrow> (string \<times> Rule) option" where
  "rich_item zone line = map_option (\<lambda>r. (r_ID r, r)) (parseSimpleRichRule line zone)"

lemma add_port_spec_upsert: "add_port_spec zone runtime = upsert (spec_item zone) (mark_seen runtime)"
  by (intro ext) (simp add: add_port_spec_def upsert_def spec_item_def split: option.split)

lemma port_entries_two: "port_entries zone rt pm = two_listings (spec_item zone) (Prelude.fields rt) (Prelude.fields pm)"
  by (simp add: port_entries_def two_listings_def add_port_spec_upsert)

lemma offered_specs: "offered (spec_item zone) xs = {s \<in> set xs. ParsePortSpec s \<noteq> None}"
  by (auto simp: offered_def spec_item_def)

lemma offered_rich:
  "offered (rich_item zone) xs = {r_ID r | r line. line \<in> set xs \<and> parseSimpleRichRule line zone = Some r}"
  by (auto simp: offered_def rich_item_def)

definition port_listed :: "string \<Rightarrow> string list \<Rightarrow> string list \<Rightarrow> Rule set" where
  "port_listed zone rt pm =
     (\<lambda>spec. port_rule ((new_port_rule zone spec (the (ParsePortSpec spec)))
                \<lparr>r_Runtime := spec \<in> set rt, r_Permanent := spec \<in> set pm\<rparr>)) `
       {spec \<in> set rt \<union> set pm. ParsePortSpec spec \<noteq> None}"

lemma port_entries_rules:
  "(\<lambda>(_, r). port_rule r) ` set (port_entries zone rt pm) = port_listed zone (Prelude.fields rt) (Prelude.fields pm)"
proof -
  let ?rt = "Prelude.fields rt" and ?pm = "Prelude.fields pm"
  have s: "set (port_entries zone rt pm) =
    (\<lambda>k. (k, (new_port_rule zone k (the (ParsePortSpec k)))
        \<lparr>r_Runtime := k \<in> offered (spec_item zone) ?rt, r_Permanent := k \<in> offered (spec_item zone) ?pm\<rparr>)) `
       (offered (spec_item zone) ?rt \<union> offered (spec_item zone) ?pm)"
    unfolding port_entries_two
    by (rule two_listings_set) (auto simp: spec_item_def new_port_rule_def zero_Rule_def)
  show ?thesis
    unfolding s port_listed_def offered_specs image_image prod.case
    by (rule image_cong) auto
qed

subsection \<open>Rich rules\<close>

definition rich_rule :: "string \<Rightarrow> int \<Rightarrow> string \<Rightarrow> string \<Rightarrow> string \<Rightarrow> Rule" where
  "rich_rule zone p proto action family =
     zero_Rule\<lparr>r_ID := ''firewalld:'' @ zone @ '':rich:'' @ itoa p @ ''/'' @ proto @ '':'' @ action @ '':'' @ family,
       r_Port := p, r_Protocol := proto, r_Zone := zone, r_Backend := ''firewalld'',
       r_Access := zone_access zone, r_Family := family, r_Kind := ''rich'', r_Action := action\<rparr>"

lemma after_iff: "after p s = Some t \<longleftrightarrow> s = p @ t"
  by (auto simp: after_def has_prefix_append)

definition rich_text :: "string \<Rightarrow> string \<Rightarrow> string \<Rightarrow> string \<Rightarrow> string" where
  "rich_text family d proto action =
     ''rule'' @ (if family = [] then [] else '' family='' @ [CHR 0x22] @ family @ [CHR 0x22]) @
     '' port port='' @ [CHR 0x22] @ d @ CHR 0x22 # '' protocol='' @ [CHR 0x22] @ proto @ [CHR 0x22] @ '' '' @ action"

lemma rich_family_text:
  "rich_family s = (f, rest) \<Longrightarrow>
     f \<in> {[], ''ipv4'', ''ipv6''} \<and> s = (if f = [] then [] else '' family='' @ [CHR 0x22] @ f @ [CHR 0x22]) @ rest"
  by (auto simp: rich_family_def after_iff split: option.split_asm)

lemma rich_match_text:
  assumes "rich_match s = Some (family, d, proto, action)"
  shows "s = rich_text family d proto action \<and> family \<in> {[], ''ipv4'', ''ipv6''} \<and> port_digits d \<and>
    proto \<in> {''tcp'', ''udp''} \<and> action \<in> {''accept'', ''drop'', ''reject''}"
proof -
  from assms obtain s1 where s1: "after ''rule'' s = Some s1"
    by (cases "after ''rule'' s") (simp_all add: rich_match_def)
  obtain f s2 where f: "rich_family s1 = (f, s2)" by (cases "rich_family s1")
  from assms s1 f obtain s3 where s3: "after ('' port port='' @ [CHR 0x22]) s2 = Some s3"
    by (cases "after ('' port port='' @ [CHR 0x22]) s2") (simp_all add: rich_match_def)
  from assms s1 f s3 obtain d' s4 where s4: "port_then (CHR 0x22) s3 = Some (d', s4)"
    by (cases "port_then (CHR 0x22) s3") (auto simp add: rich_match_def)
  from assms s1 f s3 s4 obtain s5 where s5: "after ('' protocol='' @ [CHR 0x22]) s4 = Some s5"
    by (cases "after ('' protocol='' @ [CHR 0x22]) s4") (simp_all add: rich_match_def)
  let ?pr = "take 3 s5"
  have m: "(if ?pr \<noteq> ''tcp'' \<and> ?pr \<noteq> ''udp'' then None
      else case after ([CHR 0x22] @ '' '') (drop 3 s5) of None \<Rightarrow> None
           | Some ac \<Rightarrow> if ac \<in> {''accept'', ''drop'', ''reject''} then Some (f, d', ?pr, ac) else None)
      = Some (family, d, proto, action)"
    using assms by (simp only: rich_match_def s1 f s3 s4 s5 option.case prod.case Let_def)
  then have pr: "?pr \<in> {''tcp'', ''udp''}" by (simp split: if_split_asm)
  with m obtain ac where ac: "after ([CHR 0x22] @ '' '') (drop 3 s5) = Some ac"
    by (cases "after ([CHR 0x22] @ '' '') (drop 3 s5)") (auto split: if_split_asm)
  with m pr have a: "ac \<in> {''accept'', ''drop'', ''reject''}" "family = f" "d = d'" "proto = ?pr" "action = ac"
    by (simp_all split: if_split_asm) 
  have "s5 = ?pr @ ([CHR 0x22] @ '' '') @ ac"
    using ac [unfolded after_iff] append_take_drop_id [of 3 s5] by metis
  with a s1 s3 s4 s5 rich_family_text [OF f] pr show ?thesis
    unfolding after_iff port_then_iff rich_text_def by simp
qed

lemma parse_rich:
  assumes "parseSimpleRichRule line zone = Some r"
  shows "\<exists>p proto action family. r = rich_rule zone p proto action family \<and> ValidRule p proto \<and>
    action \<in> {''accept'', ''deny'', ''reject''} \<and> family \<in> {''both'', ''ipv4'', ''ipv6''} \<and>
    (action = ''deny'' \<and> family = ''both'' \<longrightarrow> RichDropText p proto = Inr (trim_space line))"
proof -
  from assms obtain f d proto a p where m: "rich_match (trim_space line) = Some (f, d, proto, a)"
    "atoi d = Some p" "ValidRule p proto"
    and r: "r = rich_rule zone p proto (if a = ''drop'' then ''deny'' else a) (if f = [] then ''both'' else f)"
    by (auto simp: parseSimpleRichRule_def rich_rule_def Let_def split: option.split_asm if_split_asm)
  note t = rich_match_text [OF m(1)]
  have d: "d = itoa p" using atoi_digits t m(2) by blast
  define action where "action = (if a = ''drop'' then ''deny'' else a)"
  define family where "family = (if f = [] then ''both'' else f)"
  have ok: "action \<in> {''accept'', ''deny'', ''reject''}" "family \<in> {''both'', ''ipv4'', ''ipv6''}"
    using t by (auto simp: action_def family_def)
  have "action = ''deny'' \<longleftrightarrow> a = ''drop''" "family = ''both'' \<longleftrightarrow> f = []"
    using t by (auto simp: action_def family_def)
  then have drop: "action = ''deny'' \<and> family = ''both'' \<longrightarrow> RichDropText p proto = Inr (trim_space line)"
    using t m(3) d by (simp add: RichDropText_def rich_text_def)
  show ?thesis
    by (intro exI [of _ p] exI [of _ proto] exI [of _ action] exI [of _ family] conjI)
      (fact r [folded action_def family_def] m(3) ok drop)+
qed

lemma parse_richE:
  assumes "parseSimpleRichRule line zone = Some r"
  obtains p proto action family where "r = rich_rule zone p proto action family" "ValidRule p proto"
    "action \<in> {''accept'', ''deny'', ''reject''}" "family \<in> {''both'', ''ipv4'', ''ipv6''}"
    "action = ''deny'' \<and> family = ''both'' \<longrightarrow> RichDropText p proto = Inr (trim_space line)"
  using parse_rich [OF assms] by (elim exE conjE) (rule that)

lemma itoa_no_slash: "ValidRule p proto \<Longrightarrow> CHR ''/'' \<notin> set (itoa p)"
  using port_digits_itoa list_all_digit port_digits_all by (auto simp: ValidRule_def)

lemma rich_id_inj:
  assumes "r_ID (rich_rule zone p proto action family) = r_ID (rich_rule zone q proto' action' family')"
    and "ValidRule p proto" "ValidRule q proto'"
    and "action \<in> {''accept'', ''deny'', ''reject''}" "action' \<in> {''accept'', ''deny'', ''reject''}"
    and "family \<in> {''both'', ''ipv4'', ''ipv6''}" "family' \<in> {''both'', ''ipv4'', ''ipv6''}"
  shows "p = q \<and> proto = proto' \<and> action = action' \<and> family = family'"
proof -
  have "itoa p @ CHR ''/'' # proto @ '':'' @ action @ '':'' @ family =
        itoa q @ CHR ''/'' # proto' @ '':'' @ action' @ '':'' @ family'"
    using assms(1) by (simp add: rich_rule_def)
  then have pq: "p = q" and rest: "proto @ '':'' @ action @ '':'' @ family = proto' @ '':'' @ action' @ '':'' @ family'"
    using append_sep_eq [of "CHR ''/''" "itoa p" "itoa q"] itoa_no_slash [OF assms(2)] itoa_no_slash [OF assms(3)] by auto
  have pr: "proto \<in> {''tcp'', ''udp''}" "proto' \<in> {''tcp'', ''udp''}" using assms(2,3) by (auto simp: ValidRule_def)
  have pp: "proto = proto' \<and> action @ '':'' @ family = action' @ '':'' @ family'"
    using rest pr by auto
  then have "action @ CHR '':'' # family = action' @ CHR '':'' # family'" by simp
  moreover have "CHR '':'' \<notin> set action" "CHR '':'' \<notin> set action'" using assms(4,5) by auto
  ultimately show ?thesis using pq pp append_sep_eq [of "CHR '':''" action action'] by simp
qed

lemma rich_by_id:
  assumes "parseSimpleRichRule l zone = Some r" "parseSimpleRichRule l' zone = Some r'" "r_ID r = r_ID r'"
  shows "r = r'"
proof -
  obtain p proto action family where 1: "r = rich_rule zone p proto action family" "ValidRule p proto"
    "action \<in> {''accept'', ''deny'', ''reject''}" "family \<in> {''both'', ''ipv4'', ''ipv6''}"
    by (rule parse_richE [OF assms(1)])
  obtain q proto' action' family' where 2: "r' = rich_rule zone q proto' action' family'" "ValidRule q proto'"
    "action' \<in> {''accept'', ''deny'', ''reject''}" "family' \<in> {''both'', ''ipv4'', ''ipv6''}"
    by (rule parse_richE [OF assms(2)])
  from rich_id_inj [OF assms(3) [unfolded 1(1) 2(1)] 1(2) 2(2) 1(3) 2(3) 1(4) 2(4)] show ?thesis
    by (simp add: 1(1) 2(1))
qed

definition rich_listed :: "string \<Rightarrow> string list \<Rightarrow> string list \<Rightarrow> Rule set" where
  "rich_listed zone rt pm =
     {r\<lparr>r_Runtime := (\<exists>l \<in> set rt. parseSimpleRichRule l zone = Some r),
        r_Permanent := (\<exists>l \<in> set pm. parseSimpleRichRule l zone = Some r)\<rparr> | r.
        \<exists>l \<in> set rt \<union> set pm. parseSimpleRichRule l zone = Some r}"

lemma rich_entries_rules: "snd ` set (two_listings (rich_item zone) rt pm) = rich_listed zone rt pm"
proof -
  define F where "F k = (SOME r. \<exists>l. parseSimpleRichRule l zone = Some r \<and> r_ID r = k)" for k
  have F: "F (r_ID r) = r" if "parseSimpleRichRule l zone = Some r" for l r
    unfolding F_def by (rule some_equality) (use that rich_by_id in blast)+
  have flags: "\<not> r_Runtime r \<and> \<not> r_Permanent r" if "parseSimpleRichRule l zone = Some r" for l r
    by (rule parse_richE [OF that]) (simp add: rich_rule_def zero_Rule_def)
  have s: "set (two_listings (rich_item zone) rt pm) =
    (\<lambda>k. (k, (F k)\<lparr>r_Runtime := k \<in> offered (rich_item zone) rt, r_Permanent := k \<in> offered (rich_item zone) pm\<rparr>)) `
      (offered (rich_item zone) rt \<union> offered (rich_item zone) pm)"
    by (rule two_listings_set) (use F flags in \<open>auto simp: rich_item_def\<close>)
  have off: "r_ID r \<in> offered (rich_item zone) ls \<longleftrightarrow> (\<exists>l \<in> set ls. parseSimpleRichRule l zone = Some r)"
    if "parseSimpleRichRule l zone = Some r" for l r ls
    using that rich_by_id unfolding offered_rich by blast
  show ?thesis
  proof (intro subset_antisym subsetI)
    fix x assume "x \<in> snd ` set (two_listings (rich_item zone) rt pm)"
    then obtain k where k: "k \<in> offered (rich_item zone) rt \<union> offered (rich_item zone) pm"
      "x = (F k)\<lparr>r_Runtime := k \<in> offered (rich_item zone) rt, r_Permanent := k \<in> offered (rich_item zone) pm\<rparr>"
      unfolding s image_image snd_conv by (elim imageE)
    then obtain r l where r: "k = r_ID r" "l \<in> set rt \<union> set pm" "parseSimpleRichRule l zone = Some r"
      by (auto simp: offered_rich)
    show "x \<in> rich_listed zone rt pm"
      unfolding rich_listed_def k(2) r(1) F [OF r(3)] off [OF r(3)] using r(2,3) by blast
  next
    fix x assume "x \<in> rich_listed zone rt pm"
    then obtain r l where r: "l \<in> set rt \<union> set pm" "parseSimpleRichRule l zone = Some r"
      "x = r\<lparr>r_Runtime := (\<exists>l \<in> set rt. parseSimpleRichRule l zone = Some r),
        r_Permanent := (\<exists>l \<in> set pm. parseSimpleRichRule l zone = Some r)\<rparr>"
      unfolding rich_listed_def by blast
    have "x = (F (r_ID r))\<lparr>r_Runtime := r_ID r \<in> offered (rich_item zone) rt,
        r_Permanent := r_ID r \<in> offered (rich_item zone) pm\<rparr>"
      unfolding r(3) F [OF r(2)] off [OF r(2)] by simp
    moreover have "r_ID r \<in> offered (rich_item zone) rt \<union> offered (rich_item zone) pm"
      using r(1,2) off by blast
    ultimately show "x \<in> snd ` set (two_listings (rich_item zone) rt pm)"
      unfolding s image_image snd_conv by blast
  qed
qed

definition rich_lines :: "'h Tools \<Rightarrow> 'h \<Rightarrow> string \<Rightarrow> bool \<Rightarrow> string list" where
  "rich_lines t h zone permanent =
     (case ask t (zone_cmd permanent zone ''--list-rich-rules'') h of
        Inl e \<Rightarrow> [] | Inr out \<Rightarrow> split_on newline out)"

definition rich_readable :: "'h Tools \<Rightarrow> 'h \<Rightarrow> string \<Rightarrow> bool \<Rightarrow> bool" where
  "rich_readable t h zone permanent \<longleftrightarrow> \<not> isl (ask t (zone_cmd permanent zone ''--list-rich-rules'') h)"

definition opaque_line :: "string \<Rightarrow> string \<Rightarrow> bool" where
  "opaque_line zone line \<longleftrightarrow> trim_space line \<noteq> [] \<and> parseSimpleRichRule line zone = None"

lemma set_opaque_idem [simp]: "set_opaque zone (set_opaque zone snap) = set_opaque zone snap"
  by (simp add: set_opaque_def)

lemma rich_fold:
  "foldl (add_rich_line zone permanent) (snap, es) lines =
     (if list_ex (opaque_line zone) lines then set_opaque zone snap else snap,
      foldl (upsert (rich_item zone) (mark_seen (\<not> permanent))) es lines)"
proof (induction lines arbitrary: snap es)
  case (Cons line lines)
  have "add_rich_line zone permanent (snap, es) line =
    (if opaque_line zone line then set_opaque zone snap else snap,
     upsert (rich_item zone) (mark_seen (\<not> permanent)) es line)"
    by (auto simp: add_rich_line_def upsert_def rich_item_def opaque_line_def Let_def split: option.split)
  with Cons.IH show ?case by simp
qed simp

lemma rich_batch_eq:
  "rich_batch t h zone permanent (snap, es) =
     (let s1 = (if rich_readable t h zone permanent then snap else refuse_writes rich_unreadable snap)
      in if list_ex (opaque_line zone) (rich_lines t h zone permanent) then set_opaque zone s1 else s1,
      foldl (upsert (rich_item zone) (mark_seen (\<not> permanent))) es (rich_lines t h zone permanent))"
  by (simp add: rich_batch_def rich_lines_def rich_readable_def rich_fold split: sum.split)

definition port_specs :: "'h Tools \<Rightarrow> 'h \<Rightarrow> string \<Rightarrow> bool \<Rightarrow> string list" where
  "port_specs t h zone permanent =
     (case ask t (zone_cmd permanent zone ''--list-ports'') h of Inl e \<Rightarrow> [] | Inr out \<Rightarrow> Prelude.fields out)"

definition zone_listed :: "'h Tools \<Rightarrow> 'h \<Rightarrow> string \<Rightarrow> Rule set" where
  "zone_listed t h zone =
     port_listed zone (port_specs t h zone False) (port_specs t h zone True) \<union>
     rich_listed zone (rich_lines t h zone False) (rich_lines t h zone True)"

definition zone_opaque :: "'h Tools \<Rightarrow> 'h \<Rightarrow> string \<Rightarrow> bool" where
  "zone_opaque t h zone \<longleftrightarrow>
     list_ex (opaque_line zone) (rich_lines t h zone False @ rich_lines t h zone True)"

definition ports_readable :: "'h Tools \<Rightarrow> 'h \<Rightarrow> string \<Rightarrow> bool" where
  "ports_readable t h zone \<longleftrightarrow>
     \<not> isl (ask t (zone_cmd False zone ''--list-ports'') h) \<and> \<not> isl (ask t (zone_cmd True zone ''--list-ports'') h)"

definition zone_readable :: "'h Tools \<Rightarrow> 'h \<Rightarrow> string \<Rightarrow> bool" where
  "zone_readable t h zone \<longleftrightarrow> rich_readable t h zone False \<and> rich_readable t h zone True"

lemma zone_rules_facts:
  assumes out_def: "out = zone_rules t h zone rt pm snap"
  shows "set (sn_Rules out) = set (sn_Rules snap) \<union>
      port_listed zone (Prelude.fields rt) (Prelude.fields pm) \<union>
      rich_listed zone (rich_lines t h zone False) (rich_lines t h zone True)" (is ?rules)
    and "sn_Zones out = sn_Zones snap" (is ?zones) and "sn_Backend out = sn_Backend snap" (is ?backend)
    and "sn_Writable out \<longleftrightarrow> sn_Writable snap \<and> zone_readable t h zone" (is ?writable)
    and "opaque_zone out z \<longleftrightarrow> opaque_zone snap z \<or> z = zone \<and> zone_opaque t h zone" (is ?opaque)
proof -
  have ports: "set (map (\<lambda>(_, r). port_rule r) (port_entries zone rt pm)) =
      port_listed zone (Prelude.fields rt) (Prelude.fields pm)"
    by (simp add: port_entries_rules)
  have rich: "snd (rich_batch t h zone True (rich_batch t h zone False (s, []))) =
      two_listings (rich_item zone) (rich_lines t h zone False) (rich_lines t h zone True)" for s
    by (simp add: rich_batch_eq two_listings_def)
  note defs = out_def zone_rules_def Let_def rich_batch_eq add_rules_def refuse_writes_def set_opaque_def
  show ?rules
    using ports rich_entries_rules [of zone "rich_lines t h zone False" "rich_lines t h zone True"]
    by (simp add: defs two_listings_def Un_assoc split: sum.split prod.split)
  show ?zones ?backend by (simp_all add: defs split: sum.split)
  show ?writable by (simp add: defs zone_readable_def split: sum.split)
  show ?opaque by (auto simp: defs zone_opaque_def opaque_zone_def split: sum.split)
qed

lemma inspect_zones_facts:
  assumes "inspect_zones t h zones snap = Inr out"
  shows "set (sn_Rules out) = set (sn_Rules snap) \<union> (\<Union>z \<in> set zones. zone_listed t h z) \<and>
    sn_Zones out = sn_Zones snap \<and> sn_Backend out = sn_Backend snap \<and>
    (sn_Writable out \<longleftrightarrow> sn_Writable snap \<and> (\<forall>z \<in> set zones. zone_readable t h z)) \<and>
    (\<forall>z. opaque_zone out z \<longleftrightarrow> opaque_zone snap z \<or> z \<in> set zones \<and> zone_opaque t h z) \<and>
    (\<forall>z \<in> set zones. ports_readable t h z)"
  using assms
proof (induction zones arbitrary: snap)
  case (Cons zone zones)
  then obtain rt pm where asked: "ask t (zone_cmd False zone ''--list-ports'') h = Inr rt"
    "ask t (zone_cmd True zone ''--list-ports'') h = Inr pm"
    and rest: "inspect_zones t h zones (zone_rules t h zone rt pm snap) = Inr out" by auto
  note facts = zone_rules_facts [OF refl, of t h zone rt pm snap]
  have zl: "zone_listed t h zone =
      port_listed zone (Prelude.fields rt) (Prelude.fields pm) \<union>
      rich_listed zone (rich_lines t h zone False) (rich_lines t h zone True)"
    by (simp add: zone_listed_def port_specs_def asked)
  show ?case
    using Cons.IH [OF rest] by (simp add: facts zl Un_assoc Un_ac ports_readable_def asked) blast
qed simp

lemma zone_cmd_listed: "x \<in> port_listed zone rt pm \<Longrightarrow>
    \<exists>spec ps. ParsePortSpec spec = Some ps \<and> spec \<in> set rt \<union> set pm \<and>
      x = port_rule ((new_port_rule zone spec ps)\<lparr>r_Runtime := spec \<in> set rt, r_Permanent := spec \<in> set pm\<rparr>)"
  unfolding port_listed_def
  by (elim imageE, rule_tac x = spec in exI, rule_tac x = "the (ParsePortSpec spec)" in exI) simp

lemma zone_no_nul: "ValidZone z \<Longrightarrow> CHR 0x00 \<notin> set z"
  by (auto simp: ValidZone_def list_all_iff zone_char_def letter_def digit_def char_digit_def split: list.split_asm)

lemma port_listed_ok:
  assumes "x \<in> port_listed zone rt pm" "ValidZone zone"
  shows "rule_ok x \<and> \<not> r_Conflict x \<and> r_Zone x = zone"
proof -
  from zone_cmd_listed [OF assms(1)] obtain spec ps a b where s: "ParsePortSpec spec = Some ps"
    and x: "x = port_rule ((new_port_rule zone spec ps)\<lparr>r_Runtime := a, r_Permanent := b\<rparr>)" by blast
  show ?thesis
    using ParsePortSpec_sound [OF s] zone_no_nul [OF assms(2)]
    by (auto simp: x port_rule_def new_port_rule_def zero_Rule_def rule_ok_def FirstPort_def LastPort_def
        IsRange_def ValidRule_def)
qed

lemma rich_listed_ok:
  assumes "x \<in> rich_listed zone rt pm" "ValidZone zone"
  shows "rule_ok x \<and> \<not> r_Conflict x \<and> r_Zone x = zone"
proof -
  from assms(1) obtain l r a b where r: "parseSimpleRichRule l zone = Some r"
    and x: "x = r\<lparr>r_Runtime := a, r_Permanent := b\<rparr>" by (auto simp: rich_listed_def)
  obtain p proto action family where
    "r = rich_rule zone p proto action family" "ValidRule p proto" by (rule parse_richE [OF r])
  then show ?thesis
    using zone_no_nul [OF assms(2)]
    by (auto simp: x rich_rule_def zero_Rule_def rule_ok_def FirstPort_def LastPort_def IsRange_def ValidRule_def)
qed

section \<open>The order and the marks\<close>

text \<open>What \<open>sort.Slice\<close> and \<open>range\<close> over a map promise.\<close>

definition go_orders :: "'h Tools \<Rightarrow> bool" where
  "go_orders t \<longleftrightarrow>
     (\<forall>rs. mset (t_order t rs) = mset rs \<and>
           sorted_wrt (\<lambda>a b. \<not> listed_before b a) (t_order t rs) \<and> sorts rs (t_arrange t rs) \<and>
           set (t_groups t rs) = (\<Union>r \<in> set rs. set (group_keys r)))"

definition unmarked :: "Rule \<Rightarrow> Rule" where
  "unmarked r = r\<lparr>r_Conflict := False\<rparr>"

lemma unmarked_fields [simp]:
  "unmarked (r\<lparr>r_Conflict := c\<rparr>) = unmarked r" "\<not> r_Conflict r \<Longrightarrow> unmarked r = r"
  "same_scope (r\<lparr>r_Conflict := c\<rparr>) s = same_scope r s" "same_scope r (s\<lparr>r_Conflict := c\<rparr>) = same_scope r s"
  "overlap (r\<lparr>r_Conflict := c\<rparr>) s = overlap r s" "overlap r (s\<lparr>r_Conflict := c\<rparr>) = overlap r s"
  by (cases r; cases s; simp add: unmarked_def same_scope_def families_def overlap_def FirstPort_def
      LastPort_def IsRange_def)+

lemma arrange_rules_facts:
  assumes "go_orders t" "\<forall>r \<in> set (sn_Rules snap). rule_ok r \<and> \<not> r_Conflict r"
  shows "\<exists>out. arrange_rules t snap = Inr (snap\<lparr>sn_Rules := out\<rparr>) \<and>
     map unmarked out = t_order t (sn_Rules snap) \<and> (\<forall>i < length out. r_Conflict (out ! i) \<longleftrightarrow> shares_port out i)"
proof -
  let ?rs = "t_order t (sn_Rules snap)"
  have same: "set ?rs = set (sn_Rules snap)"
    using assms(1) unfolding go_orders_def by (metis set_mset_mset)
  let ?out = "map (\<lambda>i. (?rs ! i)\<lparr>r_Conflict := r_Conflict (?rs ! i) \<or> shares_port ?rs i\<rparr>) [0..<length ?rs]"
  have clear: "\<not> r_Conflict (?rs ! i)" if "i < length ?rs" for i
    using assms(2) same nth_mem [OF that] by blast
  have "markRuleConflicts (t_arrange t ?rs) (t_groups t ?rs) ?rs = Inr ?out"
    using assms same unfolding go_orders_def by (intro marks_exact) auto
  then have "arrange_rules t snap = Inr (snap\<lparr>sn_Rules := ?out\<rparr>)"
    by (simp add: arrange_rules_def Let_def)
  moreover have "map unmarked ?out = ?rs"
    using clear by (intro nth_equalityI) simp_all
  moreover have "shares_port ?out i \<longleftrightarrow> shares_port ?rs i" if "i < length ?out" for i
    using that by (auto simp: shares_port_def)
  ultimately show ?thesis
    using clear by (intro exI [of _ ?out]) auto
qed

section \<open>Inspection with firewalld\<close>

lemma activeZones_valid: "z \<in> set (activeZones raw) \<Longrightarrow> ValidZone z"
  by (auto simp: activeZones_def split: if_split_asm list.split_asm)

lemma zone_listed_ok: "x \<in> zone_listed t h z \<Longrightarrow> ValidZone z \<Longrightarrow> rule_ok x \<and> \<not> r_Conflict x \<and> r_Zone x = z"
  using port_listed_ok rich_listed_ok by (auto simp: zone_listed_def)

lemma backend_firewalld: "backend_of t fu = ''firewalld'' \<Longrightarrow> fu = (True, False)"
  by (cases fu) (auto simp: backend_of_def split: if_split_asm)

lemma check_chains_facts:
  "sn_Rules (check_chains t h fu snap) = sn_Rules snap" "sn_Backend (check_chains t h fu snap) = sn_Backend snap"
  "opaque_zone (check_chains t h fu snap) z = opaque_zone snap z"
  "sn_Writable (check_chains t h fu snap) \<longleftrightarrow> (fst fu \<or> snd fu) \<and> nativeInputBlocker t (snd fu) h = Inr []"
  by (auto simp: check_chains_def refuse_writes_def Let_def opaque_zone_def split: sum.split)

lemma inspect_firewalld_keeps: "inspect_firewalld t h snap = Inr out \<Longrightarrow> sn_Backend out = sn_Backend snap"
  unfolding inspect_firewalld_def Let_def bindR_eq_Inr by (elim exE conjE) (drule inspect_zones_facts, simp)

lemma inspect_ufw_keeps: "inspect_ufw t h snap = Inr out \<Longrightarrow> sn_Backend out = sn_Backend snap"
  by (auto simp: inspect_ufw_def add_rules_def)

lemma if_chain: "(if a then x else if b then y else if c then Inr u else if d then Inr v else Inr w) = Inr out \<Longrightarrow>
    x = Inr out \<or> y = Inr out \<or> out \<in> {u, v, w}"
  by (auto split: if_split_asm)

lemma inspect_backend_keeps: "inspect_backend t h snap = Inr out \<Longrightarrow> sn_Backend out = sn_Backend snap"
  unfolding inspect_backend_def
  by (drule if_chain) (elim disjE inspect_firewalld_keeps inspect_ufw_keeps, auto)

lemma arrange_rules_keeps: "arrange_rules t snap = Inr out \<Longrightarrow> sn_Backend out = sn_Backend snap"
  by (auto simp: arrange_rules_def Let_def)

lemma inspect_firewalld_facts:
  assumes "Inspect t h = Inr snap" "sn_Backend snap = ''firewalld''" "go_orders t"
  shows "runningManagers t h = (True, False) \<and> (\<forall>z \<in> set (sn_Zones snap). ValidZone z) \<and>
    unmarked ` set (sn_Rules snap) = (\<Union>z \<in> set (sn_Zones snap). zone_listed t h z) \<and>
    (\<forall>i < length (sn_Rules snap). r_Conflict (sn_Rules snap ! i) \<longleftrightarrow> shares_port (sn_Rules snap) i) \<and>
    (sn_Writable snap \<longleftrightarrow> nativeInputBlocker t False h = Inr [] \<and> (\<forall>z \<in> set (sn_Zones snap). zone_readable t h z)) \<and>
    (\<forall>z. opaque_zone snap z \<longleftrightarrow> z \<in> set (sn_Zones snap) \<and> zone_opaque t h z) \<and>
    (\<forall>z \<in> set (sn_Zones snap). ports_readable t h z)"
proof -
  let ?fu = "runningManagers t h"
  let ?first = "first_snapshot t ?fu"
  have nb: "\<not> (fst ?fu \<and> snd ?fu)"
    using assms(1,2) by (auto simp: Inspect_def Let_def first_snapshot_def backend_of_def)
  then obtain s1 where s1: "inspect_backend t h (check_chains t h ?fu ?first) = Inr s1" "arrange_rules t s1 = Inr snap"
    using assms(1) by (auto simp: Inspect_def Let_def)
  have b1: "sn_Backend s1 = backend_of t ?fu"
    using inspect_backend_keeps [OF s1(1)] by (simp add: check_chains_facts first_snapshot_def)
  then have fu: "?fu = (True, False)"
    using arrange_rules_keeps [OF s1(2)] assms(2) by (intro backend_firewalld) simp
  have f0: "check_chains t h ?fu ?first = check_chains t h (True, False) (first_snapshot t (True, False))" by (simp add: fu)
  let ?c = "check_chains t h (True, False) (first_snapshot t (True, False))"
  have "sn_Backend ?c = ''firewalld''" by (simp add: check_chains_facts first_snapshot_def backend_of_def)
  then have "inspect_firewalld t h ?c = Inr s1" using s1(1) f0 by (simp add: inspect_backend_def)
  then obtain dz active where z: "ValidZone dz"
    and iz: "inspect_zones t h (sort (remdups (dz # activeZones active)))
       (?c\<lparr>sn_DefaultZone := dz, sn_Zones := sort (remdups (dz # activeZones active))\<rparr>) = Inr s1"
    by (auto simp: inspect_firewalld_def Let_def simp del: remdups.simps)
  let ?zones = "sort (remdups (dz # activeZones active))"
  note zf = inspect_zones_facts [OF iz]
  have zs: "sn_Zones s1 = ?zones" using zf by simp
  have valid: "\<forall>z \<in> set ?zones. ValidZone z" using z activeZones_valid by auto
  have rules: "set (sn_Rules s1) = (\<Union>z \<in> set ?zones. zone_listed t h z)"
    using zf by (simp add: check_chains_facts first_snapshot_def)
  then have ok: "\<forall>r \<in> set (sn_Rules s1). rule_ok r \<and> \<not> r_Conflict r"
  proof (intro ballI)
    fix r assume "r \<in> set (sn_Rules s1)"
    then obtain zn where zn: "zn \<in> set ?zones" "r \<in> zone_listed t h zn" unfolding rules by (elim UN_E) (rule that)
    show "rule_ok r \<and> \<not> r_Conflict r" using zone_listed_ok [OF zn(2) bspec [OF valid zn(1)]] by simp
  qed
  obtain out where out: "snap = s1\<lparr>sn_Rules := out\<rparr>" "map unmarked out = t_order t (sn_Rules s1)"
    "\<forall>i < length out. r_Conflict (out ! i) \<longleftrightarrow> shares_port out i"
  proof -
    obtain out where o: "arrange_rules t s1 = Inr (s1\<lparr>sn_Rules := out\<rparr>)"
      "map unmarked out = t_order t (sn_Rules s1)" "\<forall>i < length out. r_Conflict (out ! i) \<longleftrightarrow> shares_port out i"
      using arrange_rules_facts [OF assms(3) ok] by (elim exE conjE) (rule that)
    from o(1) s1(2) have "snap = s1\<lparr>sn_Rules := out\<rparr>" by simp
    then show thesis using o(2,3) by (rule that)
  qed
  have "unmarked ` set out = set (t_order t (sn_Rules s1))" using out(2) by (metis list.set_map)
  then have um: "unmarked ` set out = set (sn_Rules s1)"
    using assms(3) unfolding go_orders_def by (metis set_mset_mset)
  have wr: "sn_Writable s1 \<longleftrightarrow> nativeInputBlocker t False h = Inr [] \<and> (\<forall>z \<in> set ?zones. zone_readable t h z)"
    using zf by (simp add: check_chains_facts)
  have op: "opaque_zone s1 z \<longleftrightarrow> z \<in> set ?zones \<and> zone_opaque t h z" for z
  proof -
    have "\<not> opaque_zone (?c\<lparr>sn_DefaultZone := dz, sn_Zones := ?zones\<rparr>) z"
      using check_chains_facts(3) [of t h "(True, False)" "first_snapshot t (True, False)" z]
      by (simp add: opaque_zone_def first_snapshot_def)
    with zf show ?thesis by blast
  qed
  have ops: "opaque_zone snap z = opaque_zone s1 z" for z by (simp add: out(1) opaque_zone_def)
  show ?thesis
    unfolding ops op using fu valid out(3) um rules wr zf by (simp add: out(1) zs)
qed

end
