(* ===== verification/FirewallChange.thy ===== *)
theory FirewallChange
  imports FirewallInspect
begin

text \<open>
  Changing the host's firewall (\<open>Change\<close>, \<open>ChangeSimpleDrop\<close>, \<open>Restore\<close> of
  \<open>internal/firewall/firewall.go\<close>). Every command that changes the host is a step of the host's
  state, so what a failed operation leaves behind can be stated. The lemmas show that a change is
  made in the runtime and in the permanent configuration together, or not at all unless the error
  says that the rollback failed.
\<close>

section \<open>Port allowances\<close>

definition rule_matches :: "int \<Rightarrow> string \<Rightarrow> string \<Rightarrow> Rule \<Rightarrow> bool" where
  "rule_matches p proto zone r \<longleftrightarrow> ContainsPort r p \<and> r_Protocol r = proto \<and> r_Zone r = zone"

definition containsRule :: "Snapshot \<Rightarrow> int \<Rightarrow> string \<Rightarrow> string \<Rightarrow> Rule option" where
  "containsRule s p proto zone = find (rule_matches p proto zone) (sn_Rules s)"

text \<open>The step in the runtime, then in the permanent configuration, then back on failure.\<close>

definition both_configs ::
  "'h Tools \<Rightarrow> string \<Rightarrow> string \<Rightarrow> string \<Rightarrow> string \<Rightarrow> string \<Rightarrow> 'h \<Rightarrow> unit res \<times> 'h" where
  "both_configs t zone arg undo failed restored h =
     (case act t (zone_cmd False zone arg) h of
        (Inl e, h1) \<Rightarrow> (Inl e, h1)
      | (Inr _, h1) \<Rightarrow>
          (case act t (zone_cmd True zone arg) h1 of
             (Inl e, h2) \<Rightarrow>
               (case act t (zone_cmd False zone undo) h2 of
                  (Inl _, h3) \<Rightarrow> (Inl (Errorf failed [] [e]), h3)
                | (Inr _, h3) \<Rightarrow> (Inl (Errorf restored [] [e]), h3))
           | (Inr _, h2) \<Rightarrow> (Inr (), h2)))"

definition change_firewalld ::
  "'h Tools \<Rightarrow> string \<Rightarrow> int \<Rightarrow> string \<Rightarrow> string \<Rightarrow> Snapshot \<Rightarrow> Rule option \<Rightarrow> 'h \<Rightarrow> unit res \<times> 'h" where
  "change_firewalld t action p proto zone snap found h =
     (if \<not> ValidZone zone then (Inl (ErrNew ''invalid zone''), h)
      else if zone \<notin> set (sn_Zones snap) then (Inl (ErrNew ''unknown zone''), h)
      else if (case found of None \<Rightarrow> False | Some r \<Rightarrow> r_Runtime r \<noteq> r_Permanent r)
        then (Inl (ErrNew ''runtime and permanent differ; resolve externally''), h)
      else if (action = ''add'' \<and> found \<noteq> None) \<or> (action = ''remove'' \<and> found = None)
        then (Inl (ErrNew ''rule already in requested state''), h)
      else
        (let add = ''--add-port='' @ port_spec p proto; remove = ''--remove-port='' @ port_spec p proto in
         both_configs t zone (if action = ''remove'' then remove else add)
           (if action = ''remove'' then add else remove)
           ''permanent update failed and runtime rollback failed: %w''
           ''permanent update failed; runtime rolled back: %w'' h))"

definition ufw_overlap :: "int \<Rightarrow> string \<Rightarrow> string \<Rightarrow> bool" where
  "ufw_overlap p proto line =
     (case ufwPortLine line of
        None \<Rightarrow> False | Some u \<Rightarrow> u_port u = p \<and> u_proto u = proto \<and> \<not> u_broad u)"

definition change_ufw ::
  "'h Tools \<Rightarrow> string \<Rightarrow> int \<Rightarrow> string \<Rightarrow> string \<Rightarrow> Rule option \<Rightarrow> 'h \<Rightarrow> unit res \<times> 'h" where
  "change_ufw t action p proto zone found h =
     (if zone \<noteq> [] then (Inl (ErrNew ''ufw does not use zones''), h)
      else case ask t [''ufw'', ''status''] h of
        Inl e \<Rightarrow> (Inl e, h)
      | Inr status \<Rightarrow>
          if list_ex (ufw_overlap p proto) (split_on newline status)
            then (Inl (ErrNew ''port overlaps another UFW rule; use UFW directly''), h)
          else if (action = ''add'' \<and> found \<noteq> None) \<or> (action = ''remove'' \<and> found = None)
            then (Inl (ErrNew ''rule already in requested state''), h)
          else (case act t (''ufw'' # (if action = ''remove'' then [''--force'', ''delete''] else []) @
                             [''allow'', port_spec p proto]) h of
                  (Inl e, h') \<Rightarrow> (Inl e, h') | (Inr _, h') \<Rightarrow> (Inr (), h')))"

definition Change :: "'h Tools \<Rightarrow> string \<Rightarrow> int \<Rightarrow> string \<Rightarrow> string \<Rightarrow> 'h \<Rightarrow> unit res \<times> 'h" where
  "Change t action p proto zone h =
     (if action \<noteq> ''add'' \<and> action \<noteq> ''remove'' then (Inl (ErrNew ''unsupported action''), h)
      else if \<not> ValidRule p proto then (Inl (ErrNew ''invalid port/protocol''), h)
      else case Inspect t h of
        Inl e \<Rightarrow> (Inl e, h)
      | Inr snap \<Rightarrow>
          if \<not> sn_Writable snap
            then (Inl (Errorf ''firewall is read-only: %s'' []
                         (case sn_UnsafeReason snap of None \<Rightarrow> [] | Some e \<Rightarrow> [e])), h)
          else
            (let found = containsRule snap p proto zone in
             if sn_Backend snap = ''firewalld'' \<and> opaque_zone snap zone
               then (Inl (ErrNew ''zone contains unsupported rich rules; normal port changes blocked''), h)
             else if (case found of None \<Rightarrow> False
                      | Some r \<Rightarrow> IsRange r \<or> r_Kind r = ''rich'' \<or> r_Action r \<noteq> ''allow'' \<or> r_Conflict r)
               then (Inl (ErrNew ''ambiguous, ranged or conflicting rules; use original manager''), h)
             else if sn_Backend snap = ''firewalld'' then change_firewalld t action p proto zone snap found h
             else if sn_Backend snap = ''ufw'' then change_ufw t action p proto zone found h
             else (Inl (ErrNew ''firewall backend is read-only''), h)))"

section \<open>Drop policies\<close>

definition own_drop :: "Rule \<Rightarrow> bool" where
  "own_drop r \<longleftrightarrow>
     r_Kind r = ''rich'' \<and> r_Action r = ''deny'' \<and> r_Family r = ''both'' \<and> r_Runtime r \<and> r_Permanent r \<and>
     \<not> r_Conflict r"

definition ChangeSimpleDrop ::
  "'h Tools \<Rightarrow> string \<Rightarrow> int \<Rightarrow> string \<Rightarrow> string \<Rightarrow> 'h \<Rightarrow> unit res \<times> 'h" where
  "ChangeSimpleDrop t action port proto zone h =
     (if action \<noteq> ''add'' \<and> action \<noteq> ''remove'' then (Inl (ErrNew ''invalid action''), h)
      else if \<not> ValidRule port proto \<or> \<not> ValidZone zone
        then (Inl (ErrNew ''invalid port/protocol/zone''), h)
      else case Inspect t h of
        Inl e \<Rightarrow> (Inl e, h)
      | Inr snap \<Rightarrow>
          if \<not> sn_Writable snap \<or> sn_Backend snap \<noteq> ''firewalld''
            then (Inl (ErrNew ''firewalld unavailable or read-only''), h)
          else if opaque_zone snap zone
            then (Inl (ErrNew ''zone contains unsupported rich rules; policy modification blocked''), h)
          else if zone \<notin> set (sn_Zones snap) then (Inl (ErrNew ''unknown firewalld zone''), h)
          else if action = ''add'' \<and>
                  list_ex (\<lambda>r. ContainsPort r port \<and> r_Protocol r = proto \<and> r_Zone r \<noteq> zone) (sn_Rules snap)
            then (Inl (ErrNew ''same port is configured in another zone''), h)
          else
            (let matching = filter (rule_matches port proto zone) (sn_Rules snap) in
             if action = ''add'' \<and> matching \<noteq> []
               then (Inl (ErrNew ''port already has a rule or conflicting policy''), h)
             else if action \<noteq> ''add'' \<and> \<not> (length matching = 1 \<and> own_drop (hd matching))
               then (Inl (ErrNew ''exact dual-family DROP rule not present or ambiguous''), h)
             else case RichDropText port proto of
               Inl e \<Rightarrow> (Inl e, h)
             | Inr rich \<Rightarrow>
                 (let add = ''--add-rich-rule='' @ rich; remove = ''--remove-rich-rule='' @ rich in
                  both_configs t zone (if action = ''remove'' then remove else add)
                    (if action = ''remove'' then add else remove)
                    ''permanent rich update failed and rollback failed: %w''
                    ''permanent rich update failed; runtime restored: %w'' h)))"

section \<open>Emergency restore\<close>

definition Restore :: "'h Tools \<Rightarrow> string \<Rightarrow> int \<Rightarrow> string \<Rightarrow> string \<Rightarrow> 'h \<Rightarrow> unit res \<times> 'h" where
  "Restore t backend port proto zone h =
     (let unit_of = (\<lambda>(r, h'). (bindR r (\<lambda>_. Inr ()), h')) in
      if \<not> ValidRule port proto then (Inl (ErrNew ''invalid recovery port''), h)
      else if backend = ''firewalld'' then
        (if \<not> ValidZone zone then (Inl (ErrNew ''invalid recovery zone''), h)
         else case act t (zone_cmd False zone (''--add-port='' @ port_spec port proto)) h of
           (Inl e, h1) \<Rightarrow> (Inl e, h1)
         | (Inr _, h1) \<Rightarrow> unit_of (act t (zone_cmd True zone (''--add-port='' @ port_spec port proto)) h1))
      else if backend = ''ufw'' then
        (if zone \<noteq> [] then (Inl (ErrNew ''unexpected UFW zone''), h)
         else unit_of (act t [''ufw'', ''allow'', port_spec port proto] h))
      else (Inl (ErrNew ''unsupported recovery backend''), h))"

section \<open>Tables of a host with firewalld\<close>

text \<open>
  What \<open>firewall-cmd\<close> documents of its tables, here the entries of the runtime configuration and
  of the permanent one, each with its zone: a listing prints them, a command that ends with
  success adds or removes one entry of one of the tables, and one that ends with an error status
  changes nothing. A client that did not come to its end, because it was killed at its time limit, by a
  signal or with its request, or did not start, may have had its effect or not.
\<close>

definition exit_status :: "err \<Rightarrow> bool" where
  "exit_status e \<longleftrightarrow> (case e of ErrNew s \<Rightarrow> has_prefix s ''exit status '' | _ \<Rightarrow> False)"

type_synonym table = "(string \<times> string) set"

definition table_step ::
  "'h Tools \<Rightarrow> ('h \<Rightarrow> table) \<Rightarrow> ('h \<Rightarrow> table) \<Rightarrow> string \<Rightarrow> (string \<Rightarrow> table \<Rightarrow> table) \<Rightarrow> bool" where
  "table_step t rt pm arg f \<longleftrightarrow>
     (\<forall>permanent zone h out fin h'. t_write t (zone_cmd permanent zone arg) h = ((out, fin), h') \<longrightarrow>
        (\<exists>acted. (fin = Finished \<longrightarrow> acted) \<and> (\<forall>e. fin = Failed e \<longrightarrow> exit_status e \<longrightarrow> \<not> acted) \<and>
           rt h' = (if acted \<and> \<not> permanent then f zone (rt h) else rt h) \<and>
           pm h' = (if acted \<and> permanent then f zone (pm h) else pm h)))"

definition table_edits :: "'h Tools \<Rightarrow> ('h \<Rightarrow> table) \<Rightarrow> ('h \<Rightarrow> table) \<Rightarrow> string \<Rightarrow> string \<Rightarrow> bool" where
  "table_edits t rt pm add remove \<longleftrightarrow>
     (\<forall>entry. table_step t rt pm (add @ entry) (\<lambda>zone. insert (zone, entry)) \<and>
              table_step t rt pm (remove @ entry) (\<lambda>zone T. T - {(zone, entry)}))"

definition port_tables :: "'h Tools \<Rightarrow> ('h \<Rightarrow> table) \<Rightarrow> ('h \<Rightarrow> table) \<Rightarrow> bool" where
  "port_tables t rt pm \<longleftrightarrow>
     table_edits t rt pm ''--add-port='' ''--remove-port='' \<and>
     (\<forall>h zone out.
        (ask t (zone_cmd False zone ''--list-ports'') h = Inr out \<longrightarrow>
           set (Prelude.fields out) = {s. (zone, s) \<in> rt h}) \<and>
        (ask t (zone_cmd True zone ''--list-ports'') h = Inr out \<longrightarrow>
           set (Prelude.fields out) = {s. (zone, s) \<in> pm h}))"

text \<open>The errors of a command that may have had its effect.\<close>

definition inconclusive :: "err \<Rightarrow> bool" where
  "inconclusive e \<longleftrightarrow>
     e = Errorf ''%s timed out'' [''firewall-cmd''] [] \<or> e = Errorf ''%s output too large'' [''firewall-cmd''] [] \<or>
     (\<exists>x. e = Errorf ''%s failed: %w'' [''firewall-cmd''] [x] \<and> \<not> exit_status x)"

lemma command_Inr: "command argv (out, fin) = Inr v \<Longrightarrow> fin = Finished"
  by (cases fin) (simp_all add: command_def Let_def split: if_split_asm)

lemma command_Inl:
  assumes "command argv (out, fin) = Inl e" "hd argv = ''firewall-cmd''"
  shows "(\<exists>x. fin = Failed x \<and> exit_status x) \<or> inconclusive e"
proof (cases "int (length out) > 262144")
  case True
  then show ?thesis using assms by (simp only: command_def Let_def inconclusive_def prod.case if_P sum.inject(1)) blast
next
  case False
  then show ?thesis using assms by (cases fin) (auto simp: command_def Let_def inconclusive_def)
qed

lemma table_step_act:
  assumes "table_step t rt pm arg f" "act t (zone_cmd permanent zone arg) h = (r, h')"
  shows "\<exists>acted. (\<not> isl r \<longrightarrow> acted) \<and> (\<forall>e. r = Inl e \<longrightarrow> acted \<longrightarrow> inconclusive e) \<and>
    rt h' = (if acted \<and> \<not> permanent then f zone (rt h) else rt h) \<and>
    pm h' = (if acted \<and> permanent then f zone (pm h) else pm h)"
proof -
  obtain out fin where w: "t_write t (zone_cmd permanent zone arg) h = ((out, fin), h')"
    and r: "r = command (zone_cmd permanent zone arg) (out, fin)"
    using assms(2) by (cases "t_write t (zone_cmd permanent zone arg) h") (auto simp: act_def)
  have "\<exists>acted. (fin = Finished \<longrightarrow> acted) \<and> (\<forall>e. fin = Failed e \<longrightarrow> exit_status e \<longrightarrow> \<not> acted) \<and>
           rt h' = (if acted \<and> \<not> permanent then f zone (rt h) else rt h) \<and>
           pm h' = (if acted \<and> permanent then f zone (pm h) else pm h)"
    using assms(1) [unfolded table_step_def] by (elim allE impE) (rule w)
  then obtain acted where a: "fin = Finished \<longrightarrow> acted" "\<forall>e. fin = Failed e \<longrightarrow> exit_status e \<longrightarrow> \<not> acted"
    "rt h' = (if acted \<and> \<not> permanent then f zone (rt h) else rt h)"
    "pm h' = (if acted \<and> permanent then f zone (pm h) else pm h)" by blast
  have n: "hd (zone_cmd permanent zone arg) = ''firewall-cmd''" by (simp add: zone_cmd_def)
  have "\<not> isl r \<longrightarrow> acted"
  proof
    assume "\<not> isl r"
    then obtain v where "r = Inr v" by (cases r) simp_all
    then show acted using a(1) command_Inr [of "zone_cmd permanent zone arg" out fin v] r by simp
  qed
  moreover have "\<forall>e. r = Inl e \<longrightarrow> acted \<longrightarrow> inconclusive e" using a(2) command_Inl [OF _ n] unfolding r by blast
  ultimately show ?thesis using a(3,4) by blast
qed

text \<open>
  What an edit that is to be made in both tables has done: both, when it answers without an error; and with
  an error each table is as before or has the edit, as before unless the error says why it may not be.
\<close>

definition made_in_both ::
  "('h \<Rightarrow> table) \<Rightarrow> ('h \<Rightarrow> table) \<Rightarrow> (table \<Rightarrow> table) \<Rightarrow> string \<Rightarrow> string \<Rightarrow> 'h \<Rightarrow> unit res \<times> 'h \<Rightarrow> bool" where
  "made_in_both rt pm f failed restored h result \<longleftrightarrow>
     (case result of
        (Inr _, h') \<Rightarrow> rt h' = f (rt h) \<and> pm h' = f (pm h)
      | (Inl e, h') \<Rightarrow>
          rt h' \<in> {rt h, f (rt h)} \<and> pm h' \<in> {pm h, f (pm h)} \<and>
          (rt h' \<noteq> rt h \<longrightarrow> inconclusive e \<or> (\<exists>e0. e = Errorf failed [] [e0])) \<and>
          (pm h' \<noteq> pm h \<longrightarrow>
             (\<exists>e0. inconclusive e0 \<and> (e = Errorf failed [] [e0] \<or> e = Errorf restored [] [e0]))))"

lemma both_configs_steps:
  assumes "table_step t rt pm arg f" "table_step t rt pm undo g" "g zone (f zone (rt h)) = rt h"
  shows "made_in_both rt pm (f zone) failed restored h (both_configs t zone arg undo failed restored h)"
proof (cases "act t (zone_cmd False zone arg) h")
  case (Pair r1 h1)
  obtain a1 where s1: "\<not> isl r1 \<longrightarrow> a1" "\<forall>e. r1 = Inl e \<longrightarrow> a1 \<longrightarrow> inconclusive e"
    "rt h1 = (if a1 then f zone (rt h) else rt h)" "pm h1 = pm h"
    using table_step_act [OF assms(1) Pair] by auto
  show ?thesis
  proof (cases r1)
    case (Inl e)
    then show ?thesis using Pair s1 by (auto simp: both_configs_def made_in_both_def)
  next
    case (Inr x)
    note r1 = this
    obtain r2 h2 where a2: "act t (zone_cmd True zone arg) h1 = (r2, h2)" by (cases "act t (zone_cmd True zone arg) h1")
    obtain b2 where q2: "\<not> isl r2 \<longrightarrow> b2" "\<forall>e. r2 = Inl e \<longrightarrow> b2 \<longrightarrow> inconclusive e"
      "rt h2 = rt h1" "pm h2 = (if b2 then f zone (pm h1) else pm h1)"
      using table_step_act [OF assms(1) a2] by auto
    have s2: "rt h2 = f zone (rt h)" "pm h2 = (if b2 then f zone (pm h) else pm h)"
      using q2(3,4) s1(1,3,4) r1 by simp_all
    show ?thesis
    proof (cases r2)
      case (Inr y)
      then show ?thesis using Pair r1 a2 s2 q2(1) Inr by (simp add: both_configs_def made_in_both_def)
    next
      case (Inl e)
      obtain r3 h3 where a3: "act t (zone_cmd False zone undo) h2 = (r3, h3)"
        by (cases "act t (zone_cmd False zone undo) h2")
      obtain b3 where q3: "\<not> isl r3 \<longrightarrow> b3"
        "rt h3 = (if b3 then g zone (rt h2) else rt h2)" "pm h3 = pm h2"
        using table_step_act [OF assms(2) a3] by auto
      have s3: "rt h3 = (if b3 then rt h else f zone (rt h))" "pm h3 = pm h2"
        using q3(2,3) s2(1) assms(3) by simp_all
      note told = q2(2) [rule_format, OF Inl]
      have "both_configs t zone arg undo failed restored h =
          (Inl (Errorf (case r3 of Inl _ \<Rightarrow> failed | Inr _ \<Rightarrow> restored) [] [e]), h3)"
        using Pair r1 a2 a3 Inl by (cases r3) (simp_all add: both_configs_def)
      then show ?thesis
        using told s2 s3 q3(1) by (cases r3; cases b3; cases b2) (auto simp: made_in_both_def)
    qed
  qed
qed

section \<open>What the inspection knows of a port\<close>

lemma unmarked_view:
  "r_Port (unmarked r) = r_Port r" "r_Protocol (unmarked r) = r_Protocol r" "r_Zone (unmarked r) = r_Zone r"
  "r_Kind (unmarked r) = r_Kind r" "r_Runtime (unmarked r) = r_Runtime r" "r_Permanent (unmarked r) = r_Permanent r"
  "IsRange (unmarked r) = IsRange r" "ContainsPort (unmarked r) p = ContainsPort r p"
  "r_Action (unmarked r) = r_Action r" "r_Family (unmarked r) = r_Family r"
  by (simp_all add: unmarked_def IsRange_def ContainsPort_def)

lemma port_listed_view:
  assumes "x \<in> port_listed zone rt pm"
  obtains spec ps where "ParsePortSpec spec = Some ps" "spec \<in> set rt \<union> set pm" "r_Port x = r_Port ps"
    "r_Protocol x = r_Protocol ps" "r_Zone x = zone" "r_Kind x = ''port''" "IsRange x = IsRange ps"
    "r_Runtime x \<longleftrightarrow> spec \<in> set rt" "r_Permanent x \<longleftrightarrow> spec \<in> set pm"
  using zone_cmd_listed [OF assms]
  by (elim exE conjE, rule_tac that) (simp_all add: port_rule_def new_port_rule_def IsRange_def)

lemma single_spec: "ValidRule p proto \<Longrightarrow> ParsePortSpec (port_spec p proto) = Some (zero_Rule\<lparr>r_Port := p, r_Protocol := proto\<rparr>)"
  using ParsePort_iff [of "port_spec p proto" p proto] by (simp add: ParsePortSpec_def)

lemma containsRule_None:
  assumes "containsRule snap p proto zone = None" "ValidRule p proto"
    and rules: "unmarked ` set (sn_Rules snap) = (\<Union>z \<in> set (sn_Zones snap). zone_listed t h z)"
    and "zone \<in> set (sn_Zones snap)"
  shows "port_spec p proto \<notin> set (port_specs t h zone b)"
proof
  assume "port_spec p proto \<in> set (port_specs t h zone b)"
  then have spec: "port_spec p proto \<in> set (port_specs t h zone False) \<union> set (port_specs t h zone True)"
    by (cases b) auto
  let ?x = "port_rule ((new_port_rule zone (port_spec p proto) (the (ParsePortSpec (port_spec p proto))))
      \<lparr>r_Runtime := port_spec p proto \<in> set (port_specs t h zone False),
        r_Permanent := port_spec p proto \<in> set (port_specs t h zone True)\<rparr>)"
  have "?x \<in> zone_listed t h zone"
    unfolding zone_listed_def port_listed_def
    by (rule UnI1, rule imageI) (use spec single_spec [OF assms(2)] in simp)
  with assms(4) have "?x \<in> unmarked ` set (sn_Rules snap)" unfolding rules by (rule UN_I)
  then obtain r where r: "r \<in> set (sn_Rules snap)" "unmarked r = ?x" by (elim imageE) (rule that, simp_all)
  have "r_Port (unmarked r) = p \<and> r_Protocol (unmarked r) = proto \<and> r_Zone (unmarked r) = zone \<and> \<not> IsRange (unmarked r)"
    unfolding r(2) using single_spec [OF assms(2)]
    by (simp add: port_rule_def new_port_rule_def IsRange_def zero_Rule_def)
  then have "rule_matches p proto zone r"
    by (simp add: rule_matches_def ContainsPort_def unmarked_view)
  with r(1) assms(1) show False by (auto simp: containsRule_def find_None_iff)
qed

lemma containsRule_Some:
  assumes "containsRule snap p proto zone = Some r" "\<not> IsRange r" "r_Kind r \<noteq> ''rich''"
    and rules: "unmarked ` set (sn_Rules snap) = (\<Union>z \<in> set (sn_Zones snap). zone_listed t h z)"
    and valid: "\<forall>z \<in> set (sn_Zones snap). ValidZone z"
  shows "(r_Runtime r \<longleftrightarrow> port_spec p proto \<in> set (port_specs t h zone False)) \<and>
    (r_Permanent r \<longleftrightarrow> port_spec p proto \<in> set (port_specs t h zone True)) \<and>
    port_spec p proto \<in> set (port_specs t h zone False) \<union> set (port_specs t h zone True)"
proof -
  have r: "r \<in> set (sn_Rules snap)" "ContainsPort r p" "r_Protocol r = proto" "r_Zone r = zone"
    using assms(1) by (auto simp: containsRule_def find_Some_iff rule_matches_def)
  then obtain z where z: "z \<in> set (sn_Zones snap)" "unmarked r \<in> zone_listed t h z" using rules by blast
  have "r_Zone (unmarked r) = z" using zone_listed_ok [OF z(2)] valid z(1) by blast
  then have "z = zone" using r(4) by (simp add: unmarked_view)
  moreover have "unmarked r \<notin> rich_listed z rt pm" for rt pm
  proof
    assume "unmarked r \<in> rich_listed z rt pm"
    then obtain l q a b where q: "parseSimpleRichRule l z = Some q"
      and u: "unmarked r = q\<lparr>r_Runtime := a, r_Permanent := b\<rparr>" by (auto simp: rich_listed_def)
    have "r_Kind q = ''rich''" by (rule parse_richE [OF q]) (simp add: rich_rule_def)
    then have "r_Kind (unmarked r) = ''rich''" by (simp add: u)
    with assms(3) show False by (simp add: unmarked_view)
  qed
  ultimately have "unmarked r \<in> port_listed zone (port_specs t h zone False) (port_specs t h zone True)"
    using z(2) by (auto simp: zone_listed_def)
  then obtain spec ps where s: "ParsePortSpec spec = Some ps"
    "spec \<in> set (port_specs t h zone False) \<union> set (port_specs t h zone True)"
    "r_Port r = r_Port ps" "r_Protocol r = r_Protocol ps" "IsRange r = IsRange ps"
    "r_Runtime r \<longleftrightarrow> spec \<in> set (port_specs t h zone False)"
    "r_Permanent r \<longleftrightarrow> spec \<in> set (port_specs t h zone True)"
    by (rule port_listed_view) (simp only: unmarked_view)
  have "spec = port_spec (r_Port ps) (r_Protocol ps)"
    using ParsePortSpec_sound [OF s(1)] s(5) assms(2) by auto
  then have "spec = port_spec p proto" using r s assms(2) by (simp add: ContainsPort_def)
  with s show ?thesis by simp
qed

section \<open>Changing a port\<close>

lemma Inspect_backend: "Inspect t h = Inr snap \<Longrightarrow> sn_Backend snap = backend_of t (runningManagers t h)"
proof -
  assume i: "Inspect t h = Inr snap"
  let ?fu = "runningManagers t h" and ?first = "first_snapshot t (runningManagers t h)"
  show ?thesis
  proof (cases "fst ?fu \<and> snd ?fu")
    case True
    then have "snap = ?first\<lparr>sn_UnsafeReason := Some both_active, sn_Notice := notice_mixed\<rparr>"
      using i by (simp add: Inspect_def Let_def)
    then show ?thesis by (simp add: first_snapshot_def)
  next
    case False
    then obtain s1 where s1: "inspect_backend t h (check_chains t h ?fu ?first) = Inr s1" "arrange_rules t s1 = Inr snap"
      using i unfolding Inspect_def Let_def if_not_P [OF False] bindR_eq_Inr by (elim exE conjE) (rule that)
    show ?thesis
      using inspect_backend_keeps [OF s1(1)] arrange_rules_keeps [OF s1(2)]
      by (simp add: check_chains_facts first_snapshot_def)
  qed
qed

lemma inspect_writable_firewalld:
  assumes "Inspect t h = Inr snap" "sn_Writable snap" "fst (runningManagers t h)"
  shows "sn_Backend snap = ''firewalld''"
proof (cases "snd (runningManagers t h)")
  case True
  then have "\<not> sn_Writable snap"
    using assms(1,3) by (auto simp: Inspect_def Let_def first_snapshot_def)
  with assms(2) show ?thesis by simp
next
  case False
  with assms(3) show ?thesis by (simp add: Inspect_backend [OF assms(1)] backend_of_def)
qed

definition edit_arg :: "string \<Rightarrow> string \<Rightarrow> string \<Rightarrow> string \<Rightarrow> string" where
  "edit_arg action add remove entry = (if action = ''remove'' then remove @ entry else add @ entry)"

definition edit_undo :: "string \<Rightarrow> string \<Rightarrow> string \<Rightarrow> string \<Rightarrow> string" where
  "edit_undo action add remove entry = (if action = ''remove'' then add @ entry else remove @ entry)"

definition edit_table :: "string \<Rightarrow> string \<Rightarrow> string \<Rightarrow> table \<Rightarrow> table" where
  "edit_table action zone entry T = (if action = ''remove'' then T - {(zone, entry)} else insert (zone, entry) T)"

lemma both_configs_edit:
  assumes "table_edits t rt pm add remove" "action = ''add'' \<or> action = ''remove''"
    and "(zone, entry) \<in> rt h \<longleftrightarrow> action = ''remove''"
  shows "made_in_both rt pm (edit_table action zone entry) failed restored h
    (both_configs t zone (edit_arg action add remove entry) (edit_undo action add remove entry) failed restored h)"
proof (cases "action = ''remove''")
  case True
  then have f: "edit_table action zone entry = (\<lambda>T. T - {(zone, entry)})" by (intro ext) (simp add: edit_table_def)
  from True assms(3) have "insert (zone, entry) (rt h - {(zone, entry)}) = rt h" by auto
  then show ?thesis
    using assms(1) unfolding f edit_arg_def edit_undo_def table_edits_def if_P [OF True]
    by (intro both_configs_steps [where g = "\<lambda>zone. insert (zone, entry)" and f = "\<lambda>zone T. T - {(zone, entry)}"]) simp_all
next
  case False
  then have f: "edit_table action zone entry = insert (zone, entry)" by (intro ext) (simp add: edit_table_def)
  from False assms(3) have "insert (zone, entry) (rt h) - {(zone, entry)} = rt h" by auto
  then show ?thesis
    using assms(1) unfolding f edit_arg_def edit_undo_def table_edits_def if_not_P [OF False]
    by (intro both_configs_steps [where f = "\<lambda>zone. insert (zone, entry)" and g = "\<lambda>zone T. T - {(zone, entry)}"]) simp_all
qed

definition port_failed :: string where
  "port_failed = ''permanent update failed and runtime rollback failed: %w''"

definition port_restored :: string where
  "port_restored = ''permanent update failed; runtime rolled back: %w''"

text \<open>An early return with an error leaves the host alone.\<close>

definition refused :: "'h \<Rightarrow> unit res \<times> 'h \<Rightarrow> bool" where
  "refused h y \<longleftrightarrow> (\<exists>e. y = (Inl e, h))"

lemma guard_cases: "refused h (if c then (Inl e, h) else x) \<or> \<not> c \<and> (if c then (Inl e, h) else x) = x"
  by (auto simp: refused_def)

lemma guards4:
  "refused h (if a then (Inl e1, h) else if b then (Inl e2, h) else if c then (Inl e3, h)
              else if d then (Inl e4, h) else x) \<or>
   \<not> a \<and> \<not> b \<and> \<not> c \<and> \<not> d \<and>
   (if a then (Inl e1, h) else if b then (Inl e2, h) else if c then (Inl e3, h)
    else if d then (Inl e4, h) else x) = x"
  by (auto simp: refused_def)

lemma change_firewalld_cases:
  "refused h (change_firewalld t action p proto zone snap found h) \<or>
   zone \<in> set (sn_Zones snap) \<and> (\<forall>r. found = Some r \<longrightarrow> r_Runtime r = r_Permanent r) \<and>
   \<not> (action = ''add'' \<and> found \<noteq> None \<or> action = ''remove'' \<and> found = None) \<and>
   change_firewalld t action p proto zone snap found h =
     both_configs t zone (edit_arg action ''--add-port='' ''--remove-port='' (port_spec p proto))
       (edit_undo action ''--add-port='' ''--remove-port='' (port_spec p proto)) port_failed
       port_restored h"
  unfolding change_firewalld_def Let_def edit_arg_def edit_undo_def port_failed_def port_restored_def
  by (rule disjE [OF guards4], erule disjI1, rule disjI2) (auto split: option.split_asm)

lemma Change_cases:
  "refused h (Change t action p proto zone h) \<or>
   (action = ''add'' \<or> action = ''remove'') \<and> ValidRule p proto \<and>
   (\<exists>snap. Inspect t h = Inr snap \<and> sn_Writable snap \<and>
      \<not> (sn_Backend snap = ''firewalld'' \<and> opaque_zone snap zone) \<and>
      (\<forall>r. containsRule snap p proto zone = Some r \<longrightarrow>
             \<not> IsRange r \<and> r_Kind r \<noteq> ''rich'' \<and> r_Action r = ''allow'' \<and> \<not> r_Conflict r) \<and>
      (sn_Backend snap = ''firewalld'' \<longrightarrow> Change t action p proto zone h =
         change_firewalld t action p proto zone snap (containsRule snap p proto zone) h))"
proof (cases "Inspect t h")
  case (Inl e)
  then have c: "Change t action p proto zone h = (if action \<noteq> ''add'' \<and> action \<noteq> ''remove'' then (Inl (ErrNew ''unsupported action''), h)
      else if \<not> ValidRule p proto then (Inl (ErrNew ''invalid port/protocol''), h) else (Inl e, h))"
    by (simp only: Change_def sum.case)
  show ?thesis unfolding c by (rule disjI1) (simp add: refused_def)
next
  case (Inr snap)
  let ?found = "containsRule snap p proto zone"
  let ?bad = "case ?found of None \<Rightarrow> False
      | Some r \<Rightarrow> IsRange r \<or> r_Kind r = ''rich'' \<or> r_Action r \<noteq> ''allow'' \<or> r_Conflict r"
  show ?thesis
  proof (cases "(action = ''add'' \<or> action = ''remove'') \<and> ValidRule p proto")
    case False
    then show ?thesis unfolding Change_def Inr by (intro disjI1) (auto simp: refused_def)
  next
    case True
    then have g: "\<not> (action \<noteq> ''add'' \<and> action \<noteq> ''remove'')" "\<not> \<not> ValidRule p proto" by simp_all
    let ?x = "if sn_Backend snap = ''firewalld'' then change_firewalld t action p proto zone snap ?found h
             else if sn_Backend snap = ''ufw'' then change_ufw t action p proto zone ?found h
             else (Inl (ErrNew ''firewall backend is read-only''), h)"
    have "\<exists>e1 e2 e3. Change t action p proto zone h =
        (if \<not> sn_Writable snap then (Inl e1, h)
         else if sn_Backend snap = ''firewalld'' \<and> opaque_zone snap zone then (Inl e2, h)
         else if ?bad then (Inl e3, h) else ?x)"
      unfolding Change_def Inr if_not_P [OF g(1)] if_not_P [OF g(2)] sum.case Let_def by (intro exI) (rule refl)
    then obtain e1 e2 e3 where eq: "Change t action p proto zone h =
        (if \<not> sn_Writable snap then (Inl e1, h)
         else if sn_Backend snap = ''firewalld'' \<and> opaque_zone snap zone then (Inl e2, h)
         else if ?bad then (Inl e3, h) else ?x)" by (elim exE)
    show ?thesis
    proof (cases "\<not> sn_Writable snap \<or> sn_Backend snap = ''firewalld'' \<and> opaque_zone snap zone \<or> ?bad")
      case True
      then show ?thesis unfolding eq by (intro disjI1) (auto simp: refused_def)
    next
      case False
      then have n: "\<not> \<not> sn_Writable snap" "\<not> (sn_Backend snap = ''firewalld'' \<and> opaque_zone snap zone)" "\<not> ?bad"
        by blast+
      have eq': "Change t action p proto zone h = ?x"
        unfolding eq if_not_P [OF n(1)] if_not_P [OF n(2)] if_not_P [OF n(3)] by (rule refl)
      have "\<forall>r. ?found = Some r \<longrightarrow>
             \<not> IsRange r \<and> r_Kind r \<noteq> ''rich'' \<and> r_Action r = ''allow'' \<and> \<not> r_Conflict r"
        using n(3) by (auto split: option.split_asm)
      moreover have "sn_Backend snap = ''firewalld'' \<longrightarrow> Change t action p proto zone h =
         change_firewalld t action p proto zone snap ?found h"
        unfolding eq' by (intro impI) (rule if_P)
      ultimately show ?thesis using True Inr n(1,2) by (intro disjI2) blast
    qed
  qed
qed

lemma refused_made: "refused h y \<Longrightarrow> made_in_both rt pm f failed restored h y"
  by (auto simp: refused_def made_in_both_def)

lemma listed_in_table:
  assumes "port_tables t rt pm" "ports_readable t h zone"
  shows "set (port_specs t h zone False) = {s. (zone, s) \<in> rt h}" "set (port_specs t h zone True) = {s. (zone, s) \<in> pm h}"
proof -
  obtain out1 out2 where o: "ask t (zone_cmd False zone ''--list-ports'') h = Inr out1"
    "ask t (zone_cmd True zone ''--list-ports'') h = Inr out2"
    using assms(2) by (auto simp: ports_readable_def isl_def) (metis sum.exhaust)
  with assms(1) show "set (port_specs t h zone False) = {s. (zone, s) \<in> rt h}"
    "set (port_specs t h zone True) = {s. (zone, s) \<in> pm h}"
    by (simp_all add: port_tables_def port_specs_def)
qed

definition untouched_or_listed ::
  "('h \<Rightarrow> table) \<Rightarrow> ('h \<Rightarrow> table) \<Rightarrow> string \<Rightarrow> string \<Rightarrow> string \<Rightarrow> 'h \<Rightarrow> unit res \<times> 'h \<Rightarrow> bool" where
  "untouched_or_listed rt pm action zone entry h y \<longleftrightarrow>
     refused h y \<or>
     ((zone, entry) \<in> rt h \<longleftrightarrow> action = ''remove'') \<and> ((zone, entry) \<in> pm h \<longleftrightarrow> action = ''remove'')"

lemma Change_made:
  assumes "go_orders t" "port_tables t rt pm" "fst (runningManagers t h)"
  shows "made_in_both rt pm (edit_table action zone (port_spec p proto)) port_failed port_restored h (Change t action p proto zone h) \<and>
    untouched_or_listed rt pm action zone (port_spec p proto) h (Change t action p proto zone h) \<and>
    (refused h (Change t action p proto zone h) \<or> nativeInputBlocker t False h = Inr [])"
proof (rule disjE [OF Change_cases [of h t action p proto zone]])
  assume "refused h (Change t action p proto zone h)"
  then show ?thesis using refused_made by (simp add: untouched_or_listed_def)
next
  let ?entry = "port_spec p proto"
  assume "(action = ''add'' \<or> action = ''remove'') \<and> ValidRule p proto \<and>
   (\<exists>snap. Inspect t h = Inr snap \<and> sn_Writable snap \<and>
      \<not> (sn_Backend snap = ''firewalld'' \<and> opaque_zone snap zone) \<and>
      (\<forall>r. containsRule snap p proto zone = Some r \<longrightarrow>
             \<not> IsRange r \<and> r_Kind r \<noteq> ''rich'' \<and> r_Action r = ''allow'' \<and> \<not> r_Conflict r) \<and>
      (sn_Backend snap = ''firewalld'' \<longrightarrow> Change t action p proto zone h =
         change_firewalld t action p proto zone snap (containsRule snap p proto zone) h))"
  then obtain snap where act: "action = ''add'' \<or> action = ''remove''" and v: "ValidRule p proto"
    and i: "Inspect t h = Inr snap" "sn_Writable snap"
    and plain: "\<forall>r. containsRule snap p proto zone = Some r \<longrightarrow>
             \<not> IsRange r \<and> r_Kind r \<noteq> ''rich'' \<and> r_Action r = ''allow'' \<and> \<not> r_Conflict r"
    and c: "sn_Backend snap = ''firewalld'' \<longrightarrow> Change t action p proto zone h =
         change_firewalld t action p proto zone snap (containsRule snap p proto zone) h"
    by - (elim conjE exE, rule that)
  note b = inspect_writable_firewalld [OF i assms(3)]
  note c = mp [OF c b]
  note facts = inspect_firewalld_facts [OF i(1) b assms(1)]
  have nb: "nativeInputBlocker t False h = Inr []" using facts i(2) by (elim conjE) simp
  show ?thesis
  proof (rule disjE [OF change_firewalld_cases [of h t action p proto zone snap "containsRule snap p proto zone"]])
    assume "refused h (change_firewalld t action p proto zone snap (containsRule snap p proto zone) h)"
    then show ?thesis unfolding c using refused_made by (simp add: untouched_or_listed_def)
  next
    assume "zone \<in> set (sn_Zones snap) \<and> (\<forall>r. containsRule snap p proto zone = Some r \<longrightarrow> r_Runtime r = r_Permanent r) \<and>
   \<not> (action = ''add'' \<and> containsRule snap p proto zone \<noteq> None \<or> action = ''remove'' \<and> containsRule snap p proto zone = None) \<and>
   change_firewalld t action p proto zone snap (containsRule snap p proto zone) h =
     both_configs t zone (edit_arg action ''--add-port='' ''--remove-port='' (port_spec p proto))
       (edit_undo action ''--add-port='' ''--remove-port='' (port_spec p proto)) port_failed
       port_restored h"
    then have z: "zone \<in> set (sn_Zones snap)"
      and same: "\<forall>r. containsRule snap p proto zone = Some r \<longrightarrow> r_Runtime r = r_Permanent r"
      and found: "\<not> (action = ''add'' \<and> containsRule snap p proto zone \<noteq> None \<or> action = ''remove'' \<and> containsRule snap p proto zone = None)"
      and made: "change_firewalld t action p proto zone snap (containsRule snap p proto zone) h =
     both_configs t zone (edit_arg action ''--add-port='' ''--remove-port='' (port_spec p proto))
       (edit_undo action ''--add-port='' ''--remove-port='' (port_spec p proto)) port_failed
       port_restored h" by - (elim conjE, assumption)+
    have rules: "unmarked ` set (sn_Rules snap) = (\<Union>z \<in> set (sn_Zones snap). zone_listed t h z)"
      and valid: "\<forall>z \<in> set (sn_Zones snap). ValidZone z" and rd: "ports_readable t h zone"
      using facts z by - (elim conjE, simp)+
    note specs = listed_in_table [OF assms(2) rd]
    have known: "((zone, ?entry) \<in> rt h \<longleftrightarrow> action = ''remove'') \<and> ((zone, ?entry) \<in> pm h \<longleftrightarrow> action = ''remove'')"
    proof (cases "containsRule snap p proto zone")
      case None
      then have "action \<noteq> ''remove''" using found by blast
      with containsRule_None [OF None v rules z] specs show ?thesis by auto
    next
      case (Some r)
      then have "action = ''remove''" using found act by blast
      moreover have "?entry \<in> set (port_specs t h zone False) \<and> ?entry \<in> set (port_specs t h zone True)"
        using containsRule_Some [OF Some _ _ rules valid] plain same Some by blast
      ultimately show ?thesis using specs by auto
    qed
    have "table_edits t rt pm ''--add-port='' ''--remove-port=''" using assms(2) by (simp add: port_tables_def)
    from both_configs_edit [OF this act] known made nb show ?thesis
      unfolding c untouched_or_listed_def by simp
  qed
qed

section \<open>Changing a drop policy\<close>

definition rich_tables :: "'h Tools \<Rightarrow> ('h \<Rightarrow> table) \<Rightarrow> ('h \<Rightarrow> table) \<Rightarrow> bool" where
  "rich_tables t rt pm \<longleftrightarrow>
     table_edits t rt pm ''--add-rich-rule='' ''--remove-rich-rule='' \<and>
     (\<forall>h zone out.
        (ask t (zone_cmd False zone ''--list-rich-rules'') h = Inr out \<longrightarrow>
           trim_space ` set (split_on newline out) - {[]} = {s. (zone, s) \<in> rt h}) \<and>
        (ask t (zone_cmd True zone ''--list-rich-rules'') h = Inr out \<longrightarrow>
           trim_space ` set (split_on newline out) - {[]} = {s. (zone, s) \<in> pm h}))"

definition rich_failed :: string where
  "rich_failed = ''permanent rich update failed and rollback failed: %w''"

definition rich_restored :: string where
  "rich_restored = ''permanent rich update failed; runtime restored: %w''"

lemma rich_in_table:
  assumes "rich_tables t rt pm" "zone_readable t h zone"
  shows "trim_space ` set (rich_lines t h zone False) - {[]} = {s. (zone, s) \<in> rt h}"
    "trim_space ` set (rich_lines t h zone True) - {[]} = {s. (zone, s) \<in> pm h}"
proof -
  obtain out1 out2 where o: "ask t (zone_cmd False zone ''--list-rich-rules'') h = Inr out1"
    "ask t (zone_cmd True zone ''--list-rich-rules'') h = Inr out2"
    using assms(2) by (auto simp: zone_readable_def rich_readable_def isl_def) (metis sum.exhaust)
  with assms(1) show "trim_space ` set (rich_lines t h zone False) - {[]} = {s. (zone, s) \<in> rt h}"
    "trim_space ` set (rich_lines t h zone True) - {[]} = {s. (zone, s) \<in> pm h}"
    by (simp_all add: rich_tables_def rich_lines_def)
qed

lemma parse_trimmed: "parseSimpleRichRule (trim_space l) zone = parseSimpleRichRule l zone"
  by (simp add: parseSimpleRichRule_def)

lemma no_rule_no_drop:
  assumes "filter (rule_matches port proto zone) (sn_Rules snap) = []" "RichDropText port proto = Inr rich"
    and rules: "unmarked ` set (sn_Rules snap) = (\<Union>z \<in> set (sn_Zones snap). zone_listed t h z)"
    and z: "zone \<in> set (sn_Zones snap)"
  shows "rich \<notin> trim_space ` set (rich_lines t h zone b)"
proof
  assume "rich \<in> trim_space ` set (rich_lines t h zone b)"
  then obtain l where l: "l \<in> set (rich_lines t h zone b)" "rich = trim_space l" by (elim imageE) (rule that)
  obtain q where q: "parseSimpleRichRule rich zone = Some q" "r_Port q = port" "r_Protocol q = proto"
    "r_Zone q = zone" "\<not> IsRange q"
    using RichDropText_parsed [OF assms(2), of zone] by (elim exE conjE) (rule that)
  have lq: "parseSimpleRichRule l zone = Some q" using q(1) unfolding l(2) parse_trimmed .
  let ?x = "q\<lparr>r_Runtime := (\<exists>l \<in> set (rich_lines t h zone False). parseSimpleRichRule l zone = Some q),
        r_Permanent := (\<exists>l \<in> set (rich_lines t h zone True). parseSimpleRichRule l zone = Some q)\<rparr>"
  have "l \<in> set (rich_lines t h zone False) \<union> set (rich_lines t h zone True)" using l(1) by (cases b) simp_all
  then have "?x \<in> rich_listed zone (rich_lines t h zone False) (rich_lines t h zone True)"
    using lq unfolding rich_listed_def by blast
  then have "?x \<in> zone_listed t h zone" unfolding zone_listed_def by (rule UnI2)
  with z have "?x \<in> unmarked ` set (sn_Rules snap)" unfolding rules by (rule UN_I)
  then obtain r where r: "r \<in> set (sn_Rules snap)" "unmarked r = ?x" by (elim imageE) (rule that, simp_all)
  have "r_Port (unmarked r) = port \<and> r_Protocol (unmarked r) = proto \<and> r_Zone (unmarked r) = zone \<and> \<not> IsRange (unmarked r)"
    unfolding r(2) using q by (simp add: IsRange_def)
  then have "rule_matches port proto zone r" by (simp add: rule_matches_def ContainsPort_def unmarked_view)
  with r(1) assms(1) show False by (simp add: filter_empty_conv)
qed

lemma own_drop_listed:
  assumes "rule_matches port proto zone r" "own_drop r" "r \<in> set (sn_Rules snap)" "RichDropText port proto = Inr rich"
    and rules: "unmarked ` set (sn_Rules snap) = (\<Union>z \<in> set (sn_Zones snap). zone_listed t h z)"
    and valid: "\<forall>z \<in> set (sn_Zones snap). ValidZone z"
  shows "rich \<in> trim_space ` set (rich_lines t h zone b)"
proof -
  obtain z where z: "z \<in> set (sn_Zones snap)" "unmarked r \<in> zone_listed t h z"
    using assms(3) rules by (metis UN_E imageI)
  have "r_Zone (unmarked r) = z" using zone_listed_ok [OF z(2)] valid z(1) by blast
  then have zz: "z = zone" using assms(1) by (simp add: unmarked_view rule_matches_def)
  have "unmarked r \<notin> port_listed z rs ps" for rs ps
  proof
    assume "unmarked r \<in> port_listed z rs ps"
    then have "r_Kind (unmarked r) = ''port''" by (rule port_listed_view)
    with assms(2) show False by (simp add: unmarked_view own_drop_def)
  qed
  then have "unmarked r \<in> rich_listed zone (rich_lines t h zone False) (rich_lines t h zone True)"
    using z(2) unfolding zz zone_listed_def by blast
  then obtain q where u: "unmarked r = q\<lparr>r_Runtime := (\<exists>l \<in> set (rich_lines t h zone False). parseSimpleRichRule l zone = Some q),
        r_Permanent := (\<exists>l \<in> set (rich_lines t h zone True). parseSimpleRichRule l zone = Some q)\<rparr>"
    unfolding rich_listed_def by blast
  have "r_Runtime (unmarked r)" "r_Permanent (unmarked r)" using assms(2) by (simp_all add: own_drop_def unmarked_view)
  then have "\<exists>l \<in> set (rich_lines t h zone b). parseSimpleRichRule l zone = Some q" unfolding u by (cases b) simp_all
  then obtain l where l: "l \<in> set (rich_lines t h zone b)" "parseSimpleRichRule l zone = Some q" by blast
  obtain p pr action family where q: "q = rich_rule zone p pr action family"
    "action = ''deny'' \<and> family = ''both'' \<longrightarrow> RichDropText p pr = Inr (trim_space l)"
    by (rule parse_richE [OF l(2)])
  have "ContainsPort (unmarked r) port" "r_Protocol (unmarked r) = proto" "r_Action (unmarked r) = ''deny''"
    "r_Family (unmarked r) = ''both''"
    using assms(1,2) by (simp_all add: unmarked_view rule_matches_def own_drop_def)
  then have "p = port" "pr = proto" "action = ''deny''" "family = ''both''"
    unfolding u q(1) by (simp_all add: rich_rule_def ContainsPort_def IsRange_def zero_Rule_def)
  with q(2) assms(4) have "rich = trim_space l" by simp
  with l(1) show ?thesis by simp
qed

lemma RichDropText_not_Nil: "RichDropText port proto = Inr rich \<Longrightarrow> rich \<noteq> []"
  by (auto simp: RichDropText_def split: if_split_asm)

lemma ChangeSimpleDrop_cases:
  "refused h (ChangeSimpleDrop t action port proto zone h) \<or>
   (\<exists>snap rich. (action = ''add'' \<or> action = ''remove'') \<and> Inspect t h = Inr snap \<and> sn_Writable snap \<and>
      sn_Backend snap = ''firewalld'' \<and> zone \<in> set (sn_Zones snap) \<and> RichDropText port proto = Inr rich \<and>
      (action = ''add'' \<longrightarrow> filter (rule_matches port proto zone) (sn_Rules snap) = []) \<and>
      (action = ''remove'' \<longrightarrow> (\<exists>r \<in> set (sn_Rules snap). rule_matches port proto zone r \<and> own_drop r)) \<and>
      ChangeSimpleDrop t action port proto zone h =
        both_configs t zone (edit_arg action ''--add-rich-rule='' ''--remove-rich-rule='' rich)
          (edit_undo action ''--add-rich-rule='' ''--remove-rich-rule='' rich) rich_failed
          rich_restored h)"
proof (cases "Inspect t h")
  case (Inl e)
  then have c: "\<exists>e1 e2. ChangeSimpleDrop t action port proto zone h =
      (if action \<noteq> ''add'' \<and> action \<noteq> ''remove'' then (Inl e1, h)
       else if \<not> ValidRule port proto \<or> \<not> ValidZone zone then (Inl e2, h) else (Inl e, h))"
    unfolding ChangeSimpleDrop_def by (intro exI) (simp only: sum.case)
  then show ?thesis by (intro disjI1) (auto simp: refused_def)
next
  case (Inr snap)
  let ?m = "filter (rule_matches port proto zone) (sn_Rules snap)"
  let ?c1 = "action \<noteq> ''add'' \<and> action \<noteq> ''remove''" and ?c2 = "\<not> ValidRule port proto \<or> \<not> ValidZone zone"
  let ?c3 = "\<not> sn_Writable snap \<or> sn_Backend snap \<noteq> ''firewalld''" and ?c4 = "opaque_zone snap zone"
  let ?c5 = "zone \<notin> set (sn_Zones snap)"
  let ?c6 = "action = ''add'' \<and> list_ex (\<lambda>r. ContainsPort r port \<and> r_Protocol r = proto \<and> r_Zone r \<noteq> zone) (sn_Rules snap)"
  let ?c7 = "action = ''add'' \<and> ?m \<noteq> []" and ?c8 = "action \<noteq> ''add'' \<and> \<not> (length ?m = 1 \<and> own_drop (hd ?m))"
  let ?x = "case RichDropText port proto of Inl e \<Rightarrow> (Inl e, h)
     | Inr rich \<Rightarrow> both_configs t zone (edit_arg action ''--add-rich-rule='' ''--remove-rich-rule='' rich)
          (edit_undo action ''--add-rich-rule='' ''--remove-rich-rule='' rich) rich_failed
          rich_restored h"
  have "\<exists>e1 e2 e3 e4 e5 e6 e7 e8. ChangeSimpleDrop t action port proto zone h =
      (if ?c1 then (Inl e1, h) else if ?c2 then (Inl e2, h) else if ?c3 then (Inl e3, h) else if ?c4 then (Inl e4, h)
       else if ?c5 then (Inl e5, h) else if ?c6 then (Inl e6, h) else if ?c7 then (Inl e7, h)
       else if ?c8 then (Inl e8, h) else ?x)"
    unfolding ChangeSimpleDrop_def Inr sum.case Let_def edit_arg_def edit_undo_def rich_failed_def rich_restored_def
    by (intro exI) (simp only: if_distrib [of "\<lambda>b. b @ _"])
  then obtain e1 e2 e3 e4 e5 e6 e7 e8 where eq: "ChangeSimpleDrop t action port proto zone h =
      (if ?c1 then (Inl e1, h) else if ?c2 then (Inl e2, h) else if ?c3 then (Inl e3, h) else if ?c4 then (Inl e4, h)
       else if ?c5 then (Inl e5, h) else if ?c6 then (Inl e6, h) else if ?c7 then (Inl e7, h)
       else if ?c8 then (Inl e8, h) else ?x)" by (elim exE)
  show ?thesis
  proof (cases "?c1 \<or> ?c2 \<or> ?c3 \<or> ?c4 \<or> ?c5 \<or> ?c6 \<or> ?c7 \<or> ?c8")
    case True
    then show ?thesis unfolding eq by (intro disjI1) (auto simp: refused_def)
  next
    case False
    then have n: "\<not> ?c1" "\<not> ?c2" "\<not> ?c3" "\<not> ?c4" "\<not> ?c5" "\<not> ?c6" "\<not> ?c7" "\<not> ?c8" by blast+
    have eq': "ChangeSimpleDrop t action port proto zone h = ?x"
      unfolding eq if_not_P [OF n(1)] if_not_P [OF n(2)] if_not_P [OF n(3)] if_not_P [OF n(4)] if_not_P [OF n(5)]
        if_not_P [OF n(6)] if_not_P [OF n(7)] if_not_P [OF n(8)] by (rule refl)
    show ?thesis
    proof (cases "RichDropText port proto")
      case Inl': (Inl e)
      show ?thesis unfolding eq' Inl' by (rule disjI1) (simp add: refused_def)
    next
      case Inr': (Inr rich)
      have own: "action = ''remove'' \<longrightarrow> (\<exists>r \<in> set (sn_Rules snap). rule_matches port proto zone r \<and> own_drop r)"
      proof
        assume that: "action = ''remove''"
        have "?m \<noteq> [] \<and> own_drop (hd ?m)" using n(8) that by (cases ?m) simp_all
        then show "\<exists>r \<in> set (sn_Rules snap). rule_matches port proto zone r \<and> own_drop r"
          using hd_in_set [of ?m] by (auto simp del: hd_in_set)
      qed
      show ?thesis
        using n Inr Inr' unfolding eq'
        by - (rule disjI2, rule exI [of _ snap], rule exI [of _ rich], intro conjI own, simp_all)
    qed
  qed
qed

lemma ChangeSimpleDrop_made:
  assumes "go_orders t" "rich_tables t rt pm" "RichDropText port proto = Inr rich"
  shows "made_in_both rt pm (edit_table action zone rich) rich_failed rich_restored h (ChangeSimpleDrop t action port proto zone h) \<and>
    untouched_or_listed rt pm action zone rich h (ChangeSimpleDrop t action port proto zone h) \<and>
    (refused h (ChangeSimpleDrop t action port proto zone h) \<or>
       runningManagers t h = (True, False) \<and> nativeInputBlocker t False h = Inr [])"
proof (rule disjE [OF ChangeSimpleDrop_cases [of h t action port proto zone]])
  assume "refused h (ChangeSimpleDrop t action port proto zone h)"
  then show ?thesis using refused_made by (simp add: untouched_or_listed_def)
next
  assume "\<exists>snap rich. (action = ''add'' \<or> action = ''remove'') \<and> Inspect t h = Inr snap \<and> sn_Writable snap \<and>
      sn_Backend snap = ''firewalld'' \<and> zone \<in> set (sn_Zones snap) \<and> RichDropText port proto = Inr rich \<and>
      (action = ''add'' \<longrightarrow> filter (rule_matches port proto zone) (sn_Rules snap) = []) \<and>
      (action = ''remove'' \<longrightarrow> (\<exists>r \<in> set (sn_Rules snap). rule_matches port proto zone r \<and> own_drop r)) \<and>
      ChangeSimpleDrop t action port proto zone h =
        both_configs t zone (edit_arg action ''--add-rich-rule='' ''--remove-rich-rule='' rich)
          (edit_undo action ''--add-rich-rule='' ''--remove-rich-rule='' rich) rich_failed
          rich_restored h"
  then obtain snap rich' where act: "action = ''add'' \<or> action = ''remove''"
    and i: "Inspect t h = Inr snap" "sn_Writable snap" "sn_Backend snap = ''firewalld''"
    and z: "zone \<in> set (sn_Zones snap)" and rich': "RichDropText port proto = Inr rich'"
    and add: "action = ''add'' \<longrightarrow> filter (rule_matches port proto zone) (sn_Rules snap) = []"
    and remove: "action = ''remove'' \<longrightarrow> (\<exists>r \<in> set (sn_Rules snap). rule_matches port proto zone r \<and> own_drop r)"
    and made: "ChangeSimpleDrop t action port proto zone h =
        both_configs t zone (edit_arg action ''--add-rich-rule='' ''--remove-rich-rule='' rich')
          (edit_undo action ''--add-rich-rule='' ''--remove-rich-rule='' rich') rich_failed
          rich_restored h"
    by - (elim conjE exE, rule that)
  have rr: "rich' = rich" using rich' assms(3) by simp
  note facts = inspect_firewalld_facts [OF i(1) i(3) assms(1)]
  have nb: "runningManagers t h = (True, False) \<and> nativeInputBlocker t False h = Inr []"
    using facts i(2) by (elim conjE) simp
  have rules: "unmarked ` set (sn_Rules snap) = (\<Union>z \<in> set (sn_Zones snap). zone_listed t h z)"
    and valid: "\<forall>z \<in> set (sn_Zones snap). ValidZone z" and rd: "zone_readable t h zone"
    using facts z i(2) by - (elim conjE, simp)+
  note tables = rich_in_table [OF assms(2) rd]
  have "((zone, rich) \<in> rt h \<longleftrightarrow> action = ''remove'') \<and> ((zone, rich) \<in> pm h \<longleftrightarrow> action = ''remove'')"
  proof (cases "action = ''remove''")
    case True
    then obtain r where "r \<in> set (sn_Rules snap)" "rule_matches port proto zone r" "own_drop r" using remove by blast
    then have "rich \<in> trim_space ` set (rich_lines t h zone b)" for b
      using own_drop_listed [OF _ _ _ assms(3) rules valid] by blast
    then show ?thesis using tables RichDropText_not_Nil [OF assms(3)] True by blast
  next
    case False
    then have "filter (rule_matches port proto zone) (sn_Rules snap) = []" using act add by blast
    from no_rule_no_drop [OF this assms(3) rules z] show ?thesis using tables False by blast
  qed
  moreover have "table_edits t rt pm ''--add-rich-rule='' ''--remove-rich-rule=''"
    using assms(2) by (simp add: rich_tables_def)
  ultimately show ?thesis
    using both_configs_edit [of t rt pm "''--add-rich-rule=''" "''--remove-rich-rule=''" action zone rich h] act nb
    unfolding made rr untouched_or_listed_def by simp
qed

end
