(* ===== verification/FirewallGuarantees.thy ===== *)
theory FirewallGuarantees
  imports FirewallChange
begin

text \<open>
  What the firewall operations promise, with a small host on which every promise can be checked: one
  zone, and one entry that may be in the runtime and in the permanent table.
\<close>

section \<open>A small host\<close>

definition sample_read :: "string \<Rightarrow> string \<Rightarrow> string list \<Rightarrow> bool \<times> bool \<Rightarrow> string \<times> finish" where
  "sample_read listing entry argv h =
     ((if argv = [''firewall-cmd'', ''--state''] then ''running''
       else if argv = [''firewall-cmd'', ''--get-default-zone''] then ''public''
       else if argv = zone_cmd False ''public'' listing \<and> fst h then entry
       else if argv = zone_cmd True ''public'' listing \<and> snd h then entry
       else []), Finished)"

definition sample_write ::
  "string \<Rightarrow> string \<Rightarrow> string list \<Rightarrow> bool \<times> bool \<Rightarrow> (string \<times> finish) \<times> bool \<times> bool" where
  "sample_write add remove argv h =
     (if argv = zone_cmd False ''public'' add then (([], Finished), (True, snd h))
      else if argv = zone_cmd True ''public'' add then (([], Finished), (fst h, True))
      else if argv = zone_cmd False ''public'' remove then (([], Finished), (False, snd h))
      else if argv = zone_cmd True ''public'' remove then (([], Finished), (fst h, False))
      else (([], Failed (ErrNew ''exit status 1'')), h))"

definition rules_by :: "Rule list \<Rightarrow> Rule list" where
  "rules_by rs = sort_key FirstPort (sort_key r_Protocol (sort_key r_Zone rs))"

definition sample_tools :: "string \<Rightarrow> string \<Rightarrow> string \<Rightarrow> string \<Rightarrow> (bool \<times> bool) Tools" where
  "sample_tools listing entry add remove =
     \<lparr>t_has = (\<lambda>name. name \<in> {''firewall-cmd'', ''nft'', ''ss''}), t_read = sample_read listing entry,
      t_write = sample_write (add @ entry) (remove @ entry),
      t_json = (\<lambda>_. Doc (JObj (obj [(''nftables'', JArr [JObj (obj [(''metainfo'', JNull)])])]))),
      t_order = rules_by, t_arrange = arrange_by, t_groups = (\<lambda>rs. concat (map group_keys rs))\<rparr>"

definition sample_rt :: "string \<Rightarrow> bool \<times> bool \<Rightarrow> table" where
  "sample_rt entry h = (if fst h then {(''public'', entry)} else {})"

definition sample_pm :: "string \<Rightarrow> bool \<times> bool \<Rightarrow> table" where
  "sample_pm entry h = (if snd h then {(''public'', entry)} else {})"

lemma rules_by_sorted: "sorted_wrt (\<lambda>a b. \<not> listed_before b a) (rules_by rs)"
  unfolding rules_by_def
  by (rule sorted_wrt_mono_rel [OF _ sort_key_stable [OF sort_key_stable [OF sorted_wrt_le]]])
    (auto simp: listed_before_def)

lemma sample_orders: "go_orders (sample_tools listing entry add remove)"
  by (simp add: go_orders_def sample_tools_def rules_by_sorted arrange_by_sorts) (simp add: rules_by_def)

lemma zone_cmd_inj [simp]:
  "zone_cmd b z arg = zone_cmd b' z' arg' \<longleftrightarrow> b = b' \<and> z = z' \<and> arg = arg'"
  by (cases b; cases b') (auto simp: zone_cmd_def)

lemma sample_edits:
  assumes "\<And>a b. add @ a \<noteq> remove @ b"
  shows "table_edits (sample_tools listing entry add remove) (sample_rt entry) (sample_pm entry) add remove"
proof -
  have ne: "remove @ b \<noteq> add @ a" for a b using assms by metis
  show ?thesis
    by (auto simp: table_edits_def table_step_def sample_tools_def act_def sample_write_def command_def Let_def
        sample_rt_def sample_pm_def assms ne split: if_split_asm)
qed

lemma port_edits_differ: "''--add-port='' @ a \<noteq> ''--remove-port='' @ b"
  and rich_edits_differ: "''--add-rich-rule='' @ a \<noteq> ''--remove-rich-rule='' @ b"
  by simp_all

definition sample_ports :: "(bool \<times> bool) Tools" where
  "sample_ports = sample_tools ''--list-ports'' ''80/tcp'' ''--add-port='' ''--remove-port=''"

definition sample_drop :: string where
  "sample_drop = ''rule port port='' @ [CHR 0x22] @ ''80'' @ [CHR 0x22] @ '' protocol='' @ [CHR 0x22] @ ''tcp'' @ [CHR 0x22] @ '' drop''"

definition sample_rich :: "(bool \<times> bool) Tools" where
  "sample_rich = sample_tools ''--list-rich-rules'' sample_drop ''--add-rich-rule='' ''--remove-rich-rule=''"

lemma state_not_listed: "zone_cmd b z arg \<noteq> [''firewall-cmd'', ''--state'']"
  "zone_cmd b z arg \<noteq> [''firewall-cmd'', ''--get-default-zone'']"
  by (auto simp: zone_cmd_def)

lemma sample_listing:
  assumes "int (length entry) \<le> 262144"
  shows "ask (sample_tools listing entry add remove) (zone_cmd b z listing) h =
     Inr (if z = ''public'' \<and> (if b then snd h else fst h) then trim_space entry else [])"
  using assms by (auto simp: ask_def sample_tools_def sample_read_def command_def Let_def state_not_listed)

lemma sample_port_tables: "port_tables sample_ports (sample_rt ''80/tcp'') (sample_pm ''80/tcp'')"
proof -
  have "trim_space ''80/tcp'' = ''80/tcp''" by code_simp
  moreover have "Prelude.fields ''80/tcp'' = [''80/tcp'']" "Prelude.fields [] = []" by code_simp+
  ultimately show ?thesis
    unfolding port_tables_def sample_ports_def
    by (auto simp: sample_edits [OF port_edits_differ] sample_listing sample_rt_def sample_pm_def split: if_split_asm)
qed

lemma sample_rich_tables: "rich_tables sample_rich (sample_rt sample_drop) (sample_pm sample_drop)"
proof -
  have "trim_space sample_drop = sample_drop" by code_simp
  moreover have "split_on newline sample_drop = [sample_drop]" "split_on newline [] = [[]]" "sample_drop \<noteq> []" by code_simp+
  moreover have "int (length sample_drop) \<le> 262144" by (simp add: sample_drop_def)
  ultimately show ?thesis
    unfolding rich_tables_def sample_rich_def
    by (auto simp: sample_edits [OF rich_edits_differ] sample_listing sample_rt_def sample_pm_def split: if_split_asm)
qed

lemma sample_running: "runningManagers (sample_tools listing entry add remove) h = (True, False)"
proof -
  have "ask (sample_tools listing entry add remove) [''firewall-cmd'', ''--state''] h = Inr (trim_space ''running'')"
    by (simp add: ask_def sample_tools_def sample_read_def command_def)
  moreover have "equal_fold (trim_space (trim_space ''running'')) ''running''" by code_simp
  ultimately show ?thesis by (simp add: runningManagers_def) (simp add: sample_tools_def)
qed

lemma sample_ask:
  "ask (sample_tools listing entry add remove) argv (False, False) =
     Inr (trim_space (fst (sample_read listing entry argv (False, False))))"
  by (simp add: ask_def sample_tools_def sample_read_def command_def Let_def)

lemma sample_texts: "trim_space ''public'' = ''public''" "activeZones [] = []" "ValidZone ''public''"
    "Prelude.fields [] = []" "split_on newline [] = [[]]" "parseSimpleRichRule [] ''public'' = None"
  by code_simp+

lemma sample_inspect_tools:
  assumes t_def: "t = sample_tools listing entry add remove"
  shows "Inspect t (False, False) =
     Inr ((first_snapshot t (True, False))\<lparr>sn_Writable := True, sn_DefaultZone := ''public'',
       sn_Zones := [''public''], sn_Services := fmupd ''public'' [] fmempty\<rparr>)"
proof -
  note ask = sample_ask [of listing entry add remove, folded t_def]
  have r: "runningManagers t (False, False) = (True, False)" by (simp add: t_def sample_running)
  have "independentInputChainBlocker (Doc (JObj (obj [(''nftables'', JArr [JObj (obj [(''metainfo'', JNull)])])]))) False = Inr []"
    by (simp add: independentInputChainBlocker_def)
  then have n: "nativeInputBlocker t False (False, False) = Inr []"
    by (simp add: nativeInputBlocker_def ask) (simp add: t_def sample_tools_def)
  let ?s = "(first_snapshot t (True, False))\<lparr>sn_Writable := True, sn_DefaultZone := ''public'', sn_Zones := [''public'']\<rparr>"
  have c: "check_chains t (False, False) (True, False) (first_snapshot t (True, False)) =
      (first_snapshot t (True, False))\<lparr>sn_Writable := True\<rparr>"
    by (simp add: check_chains_def n)
  have none: "ask t (zone_cmd b z arg) (False, False) = Inr []" for b z arg
    unfolding ask sample_read_def by (simp only: state_not_listed) simp
  have line: "add_rich_line ''public'' b (x, []) [] = (x, [])" for b x
    by (simp only: add_rich_line_def sample_texts option.case fst_conv snd_conv trim_space_Nil) simp
  have rich: "rich_batch t (False, False) ''public'' b (x, []) = (x, [])" for b x
    by (simp only: rich_batch_def none sum.case sample_texts foldl.simps line)
  have z: "zone_rules t (False, False) ''public'' [] [] ?s = ?s\<lparr>sn_Services := fmupd ''public'' [] fmempty\<rparr>"
    unfolding zone_rules_def Let_def port_entries_def sample_texts foldl.simps list.map rich prod.case none sum.case
      snd_conv
    by (simp add: add_rules_def first_snapshot_def)
  have i: "inspect_firewalld t (False, False) ((first_snapshot t (True, False))\<lparr>sn_Writable := True\<rparr>) =
      Inr (?s\<lparr>sn_Services := fmupd ''public'' [] fmempty\<rparr>)"
  proof -
    have d: "ask t [''firewall-cmd'', ''--get-default-zone''] (False, False) = Inr ''public''"
      "ask t [''firewall-cmd'', ''--get-active-zones''] (False, False) = Inr []"
      unfolding ask sample_read_def by (simp_all add: sample_texts zone_cmd_def)
    show ?thesis
      unfolding inspect_firewalld_def d bindR_Inr sample_texts Let_def by (simp add: none z sample_texts)
  qed
  have a: "arrange_rules t (?s\<lparr>sn_Services := fmupd ''public'' [] fmempty\<rparr>) =
      Inr (?s\<lparr>sn_Services := fmupd ''public'' [] fmempty\<rparr>)"
    by (simp add: arrange_rules_def t_def sample_tools_def rules_by_def first_snapshot_def markRuleConflicts_def)
  show ?thesis
  proof -
    have b: "inspect_backend t (False, False) ((first_snapshot t (True, False))\<lparr>sn_Writable := True\<rparr>) =
        Inr (?s\<lparr>sn_Services := fmupd ''public'' [] fmempty\<rparr>)"
      unfolding inspect_backend_def i by (simp add: first_snapshot_def backend_of_def)
    show ?thesis unfolding Inspect_def r Let_def c b bindR_Inr a by simp
  qed
qed

lemmas sample_inspect = sample_inspect_tools [OF sample_ports_def]

lemma sample_change:
  "Change sample_ports ''add'' 80 ''tcp'' ''public'' (False, False) = (Inr (), (True, True))"
proof -
  have spec: "port_spec 80 ''tcp'' = ''80/tcp''" "ValidRule 80 ''tcp''" by code_simp+
  have acts: "act sample_ports (zone_cmd False ''public'' ''--add-port=80/tcp'') (False, False) = (Inr [], (True, False))"
    "act sample_ports (zone_cmd True ''public'' ''--add-port=80/tcp'') (True, False) = (Inr [], (True, True))"
    by (simp_all add: act_def sample_ports_def sample_tools_def sample_write_def command_def)
  show ?thesis
    by (simp add: Change_def sample_inspect spec first_snapshot_def backend_of_def opaque_zone_def containsRule_def
        change_firewalld_def sample_texts both_configs_def acts)
qed

section \<open>Properties\<close>

text \<open>(C36) A port change on a host with firewalld, whatever the tools answer and also when a client is killed: on success
  the entry is added to (removed from) the runtime and the permanent table, where it was absent
  (present), and nothing else changes. With an error no other entry changes either, and both tables
  are as before unless the error says why they may not be: the rollback of the runtime failed, or the
  client of that table was killed (at its time limit, with its request, by a signal), did not start, or
  printed too much. Nothing is run unless
  firewalld alone owns the input chains. Of \<open>firewall-cmd\<close> this takes only that a success has the
  effect and an error status has none.\<close>

theorem firewall_change_outcome:
  assumes "go_orders t" and "port_tables t rt pm" and "fst (runningManagers t h)"
  shows "made_in_both rt pm (edit_table action zone (port_spec p proto)) port_failed port_restored h
      (Change t action p proto zone h) \<and>
    untouched_or_listed rt pm action zone (port_spec p proto) h (Change t action p proto zone h) \<and>
    (refused h (Change t action p proto zone h) \<or> nativeInputBlocker t False h = Inr [])"
  using Change_made [OF assms] .

theorem firewall_change_outcome_witness:
  "Change sample_ports ''add'' 80 ''tcp'' ''public'' (False, False) = (Inr (), (True, True)) \<and>
   made_in_both (sample_rt ''80/tcp'') (sample_pm ''80/tcp'') (edit_table ''add'' ''public'' (port_spec 80 ''tcp''))
     port_failed port_restored (False, False) (Change sample_ports ''add'' 80 ''tcp'' ''public'' (False, False))"
proof
  show "Change sample_ports ''add'' 80 ''tcp'' ''public'' (False, False) = (Inr (), (True, True))" by (rule sample_change)
  have o: "go_orders sample_ports" by (simp add: sample_ports_def sample_orders)
  have f: "fst (runningManagers sample_ports (False, False))" by (simp add: sample_ports_def sample_running)
  show "made_in_both (sample_rt ''80/tcp'') (sample_pm ''80/tcp'') (edit_table ''add'' ''public'' (port_spec 80 ''tcp''))
     port_failed port_restored (False, False) (Change sample_ports ''add'' 80 ''tcp'' ''public'' (False, False))"
    by (rule conjunct1 [OF firewall_change_outcome [OF o sample_port_tables f]])
qed

text \<open>A drop policy is added or removed in the runtime and the permanent configuration together,
  in the same sense, and only where firewalld alone owns the input chains; a policy that is added
  was in neither table, and one that is removed was in both.\<close>

theorem firewall_drop_outcome:
  assumes "go_orders t" and "rich_tables t rt pm" and "RichDropText port proto = Inr rich"
  shows "made_in_both rt pm (edit_table action zone rich) rich_failed rich_restored h (ChangeSimpleDrop t action port proto zone h) \<and>
    untouched_or_listed rt pm action zone rich h (ChangeSimpleDrop t action port proto zone h) \<and>
    (refused h (ChangeSimpleDrop t action port proto zone h) \<or>
       runningManagers t h = (True, False) \<and> nativeInputBlocker t False h = Inr [])"
  using ChangeSimpleDrop_made [OF assms] .

theorem firewall_drop_outcome_witness:
  "made_in_both (sample_rt sample_drop) (sample_pm sample_drop) (edit_table ''add'' ''public'' sample_drop) rich_failed rich_restored
     (False, False) (ChangeSimpleDrop sample_rich ''add'' 80 ''tcp'' ''public'' (False, False))"
proof -
  have o: "go_orders sample_rich" by (simp add: sample_rich_def sample_orders)
  have r: "RichDropText 80 ''tcp'' = Inr sample_drop" by code_simp
  show ?thesis by (rule conjunct1 [OF firewall_drop_outcome [OF o sample_rich_tables r]])
qed

text \<open>What the inspection holds against a zone keeps every change of it away.\<close>

lemma Change_blocked:
  assumes "Inspect t h = Inr snap" "sn_Backend snap = ''firewalld''" "\<not> sn_Writable snap \<or> opaque_zone snap zone"
  shows "refused h (Change t action p proto zone h)"
  using Change_cases [of h t action p proto zone] assms by auto

lemma ChangeSimpleDrop_blocked:
  assumes "Inspect t h = Inr snap" "\<not> sn_Writable snap \<or> opaque_zone snap zone"
  shows "refused h (ChangeSimpleDrop t action port proto zone h)"
  unfolding ChangeSimpleDrop_def assms(1) sum.case using assms(2) by (simp add: refused_def Let_def)

text \<open>(C35) What the inspection shows of a host with firewalld is exactly what the listings of its zones
  say: one rule for every port specification that it can read (one for TCP or UDP; any other is
  passed over) and every simple rich rule, with the configurations it is in, and the conflict mark on
  exactly those that share a port with another. The host is writable exactly if no chain outside
  firewalld judges input and every listing of rich rules could be read; a zone is opaque exactly if
  one of its rich rules is not understood. Neither a host that is not writable nor an opaque zone is
  ever changed: every port change and every drop policy is refused without running anything.\<close>

theorem firewall_inspect_exact:
  assumes "Inspect t h = Inr snap" and "sn_Backend snap = ''firewalld''" and "go_orders t"
  shows "unmarked ` set (sn_Rules snap) = (\<Union>z \<in> set (sn_Zones snap). zone_listed t h z) \<and>
    (\<forall>i < length (sn_Rules snap). r_Conflict (sn_Rules snap ! i) \<longleftrightarrow> shares_port (sn_Rules snap) i) \<and>
    (sn_Writable snap \<longleftrightarrow> nativeInputBlocker t False h = Inr [] \<and> (\<forall>z \<in> set (sn_Zones snap). zone_readable t h z)) \<and>
    (\<forall>z. opaque_zone snap z \<longleftrightarrow> z \<in> set (sn_Zones snap) \<and> zone_opaque t h z) \<and>
    (\<forall>z action p proto. \<not> sn_Writable snap \<or> opaque_zone snap z \<longrightarrow>
       refused h (Change t action p proto z h) \<and> refused h (ChangeSimpleDrop t action p proto z h))"
  using inspect_firewalld_facts [OF assms] Change_blocked [OF assms(1,2)] ChangeSimpleDrop_blocked [OF assms(1)]
  by (elim conjE) (intro conjI allI impI; (assumption | blast))

theorem firewall_inspect_exact_witness:
  "\<exists>snap. Inspect sample_ports (False, False) = Inr snap \<and> sn_Backend snap = ''firewalld'' \<and>
     unmarked ` set (sn_Rules snap) = (\<Union>z \<in> set (sn_Zones snap). zone_listed sample_ports (False, False) z)"
proof -
  let ?snap = "(first_snapshot sample_ports (True, False))\<lparr>sn_Writable := True, sn_DefaultZone := ''public'',
       sn_Zones := [''public''], sn_Services := fmupd ''public'' [] fmempty\<rparr>"
  have b: "sn_Backend ?snap = ''firewalld''" by (simp add: first_snapshot_def backend_of_def)
  have o: "go_orders sample_ports" by (simp add: sample_ports_def sample_orders)
  show ?thesis
    by (intro exI [of _ ?snap] conjI sample_inspect b conjunct1 [OF firewall_inspect_exact [OF sample_inspect b o]])
qed

end
