(* ===== verification/FirewallDiscovery.thy ===== *)
theory FirewallDiscovery
  imports FirewallInspect
begin

text \<open>
  Ports that must stay open (\<open>internal/firewall/discovery.go\<close>): the processes \<open>ss\<close> lists, the ports of
  the SSH server from its configuration and from socket units, the passive ranges of FTP servers,
  and the ports Docker publishes. The regular expressions are written out; where Go counts characters
  of a process name, bytes are counted. Files, \<open>systemctl\<close> and \<open>docker\<close> are fields of \<open>Sources\<close>.
\<close>

section \<open>What is found\<close>

record ListeningProcess =
  lp_Port :: int
  lp_Protocol :: string
  lp_PID :: int
  lp_Name :: string

record ConfiguredRange =
  cr_Start :: int
  cr_End :: int
  cr_Protocol :: string
  cr_Service :: string

record PublishedPort =
  pp_Port :: int
  pp_Protocol :: string
  pp_Container :: string

record Discovery =
  ds_Processes :: "ListeningProcess list"
  ds_SSHPorts :: "int list"
  ds_SSHUncertain :: bool
  ds_FTPRanges :: "ConfiguredRange list"
  ds_Docker :: "PublishedPort list"
  ds_DockerUncertain :: bool

definition blank :: "char \<Rightarrow> bool" where
  "blank c \<longleftrightarrow> c = CHR '' '' \<or> c = CHR 0x09"

text \<open>A number of at most five digits that was matched, or 0 where \<open>Atoi\<close> failed.\<close>

definition number :: "string \<Rightarrow> int" where
  "number s = (case atoi s of None \<Rightarrow> 0 | Some n \<Rightarrow> n)"

section \<open>Sockets and their owners\<close>

fun after_last :: "string \<Rightarrow> string \<Rightarrow> string option" where
  "after_last sub [] = None"
| "after_last sub (c # s) =
     (case after_last sub s of
        Some r \<Rightarrow> Some r
      | None \<Rightarrow> if has_prefix (c # s) sub then Some (drop (length sub) (c # s)) else None)"

text \<open>The port part of a local address.\<close>

definition splitHostPortLoose :: "string \<Rightarrow> string res" where
  "splitHostPortLoose local =
     (case (if has_prefix local ''['' then after_last '']:'' local else None) of
        Some port \<Rightarrow> Inr port
      | None \<Rightarrow>
          (case after_colon local of
             None \<Rightarrow> Inl (ErrNew ''invalid local socket address'') | Some port \<Rightarrow> Inr port))"

text \<open>\<open>"([^"\n]{1,64})",pid=([0-9]{1,9})\<close> at the start of a text, and all its matches in one.\<close>

definition owner_at :: "string \<Rightarrow> (string \<times> string \<times> string) option" where
  "owner_at s =
     (case s of
        [] \<Rightarrow> None
      | q # t \<Rightarrow>
          (let name = takeWhile (\<lambda>c. c \<noteq> CHR 0x22 \<and> c \<noteq> newline) t in
           if q \<noteq> CHR 0x22 \<or> name = [] \<or> length name > 64 then None
           else case after ([CHR 0x22] @ '',pid='') (drop (length name) t) of
             None \<Rightarrow> None
           | Some u \<Rightarrow>
               (let d = take 9 (takeWhile digit u) in
                if d = [] then None else Some (name, d, drop (length d) u))))"

lemma owner_at_shorter: "owner_at s = Some (n, d, rest) \<Longrightarrow> length rest < length s"
  by (auto simp: owner_at_def after_def Let_def split: list.split_asm if_split_asm option.split_asm)

function owners :: "string \<Rightarrow> (string \<times> string) list" where
  "owners s =
     (case owner_at s of
        Some (n, d, rest) \<Rightarrow> (n, d) # owners rest
      | None \<Rightarrow> (case s of [] \<Rightarrow> [] | c # t \<Rightarrow> owners t))"
  by pat_completeness auto
termination
  by (relation "measure length") (auto dest: owner_at_shorter)

declare owners.simps [simp del]

definition process_name :: "string \<Rightarrow> string" where
  "process_name n = take 64 (trim_space n)"

definition socket_processes :: "string \<Rightarrow> ListeningProcess list res" where
  "socket_processes line =
     (let f = Prelude.fields line; proto = trim_suffix (to_lower (hd f)) ''6'' in
      if proto \<noteq> ''tcp'' \<and> proto \<noteq> ''udp'' then Inl (ErrNew ''unrecognized listening transport'')
      else if length f < 5 then Inl (ErrNew ''truncated listening socket'')
      else bindR (splitHostPortLoose (f ! 4)) (\<lambda>s.
        case atoi s of
          None \<Rightarrow> Inl (ErrNew ''invalid listening socket port'')
        | Some p \<Rightarrow>
            if \<not> ValidRule p proto then Inl (ErrNew ''invalid listening socket port'')
            else
              (let os = owners line in
               Inr (map (\<lambda>(n, d). \<lparr>lp_Port = p, lp_Protocol = proto, lp_PID = number d, lp_Name = process_name n\<rparr>)
                      (if os = [] then [([], ''0'')] else os)))))"

definition add_process :: "ListeningProcess list \<Rightarrow> ListeningProcess \<Rightarrow> ListeningProcess list" where
  "add_process entries e = (if e \<in> set entries then entries else entries @ [e])"

fun process_lines :: "string list \<Rightarrow> ListeningProcess list \<Rightarrow> ListeningProcess list res" where
  "process_lines [] entries = Inr entries"
| "process_lines (line # lines) entries =
     (if Prelude.fields line = [] then process_lines lines entries
      else bindR (socket_processes line) (\<lambda>ps.
        let entries' = foldl add_process entries ps in
        if length entries' > 2048 then Inl (ErrNew ''too many listening processes'')
        else process_lines lines entries'))"

text \<open>\<open>order\<close> is what \<open>sort.Slice\<close> makes of the list.\<close>

definition parseProcessSockets ::
  "(ListeningProcess list \<Rightarrow> ListeningProcess list) \<Rightarrow> string \<Rightarrow> ListeningProcess list res" where
  "parseProcessSockets order raw =
     bindR (process_lines (split_on newline raw) []) (\<lambda>entries. Inr (order entries))"

section \<open>SSH\<close>

definition sortedPortKeys :: "int list \<Rightarrow> int list" where
  "sortedPortKeys ps = sort (remdups ps)"

text \<open>\<open>^port[ \t]+([0-9]{1,5})[ \t]*$\<close> on one line.\<close>

definition ssh_port_line :: "string \<Rightarrow> int list" where
  "ssh_port_line line =
     (case after ''port'' line of
        None \<Rightarrow> []
      | Some t \<Rightarrow>
          (let u = dropWhile blank t; d = takeWhile digit u; p = number d in
           if u = t \<or> d = [] \<or> length d > 5 \<or> \<not> list_all blank (drop (length d) u) then []
           else if ValidRule p ''tcp'' then [p] else []))"

definition parseSSHSettings :: "string \<Rightarrow> int list" where
  "parseSSHSettings out = sortedPortKeys (concat (map ssh_port_line (split_on newline (to_lower out))))"

text \<open>\<open>([0-9]{1,5})[ \t]+[(](Stream|Datagram)[)]\<close> wherever it starts.\<close>

definition socket_port_at :: "string \<Rightarrow> int option" where
  "socket_port_at s =
     (let d = takeWhile digit s; t = drop (length d) s; u = dropWhile blank t in
      if d = [] \<or> length d > 5 \<or> u = t \<or> \<not> (has_prefix u ''(Stream)'' \<or> has_prefix u ''(Datagram)'') then None
      else Some (number d))"

text \<open>\<open>inside\<close>: the digits belong to a number that has been matched.\<close>

fun socket_numbers :: "bool \<Rightarrow> string \<Rightarrow> int list" where
  "socket_numbers inside [] = []"
| "socket_numbers inside (c # s) =
     (if inside \<and> digit c then socket_numbers True s
      else (case socket_port_at (c # s) of
              None \<Rightarrow> socket_numbers False s | Some n \<Rightarrow> n # socket_numbers True s))"

definition socket_ports :: "string \<Rightarrow> int list" where
  "socket_ports out = filter (\<lambda>p. ValidRule p ''tcp'') (socket_numbers False out)"

record 'h Sources =
  so_units :: "string \<Rightarrow> 'h \<Rightarrow> string res"
  so_file :: "string \<Rightarrow> 'h \<Rightarrow> string option"
  so_docker_socket :: "'h \<Rightarrow> bool"
  so_docker :: "string list \<Rightarrow> 'h \<Rightarrow> string res"
  so_members :: "object \<Rightarrow> string list"
  so_processes :: "ListeningProcess list \<Rightarrow> ListeningProcess list"
  so_published :: "PublishedPort list \<Rightarrow> PublishedPort list"

definition ssh_daemon :: "ListeningProcess \<Rightarrow> bool" where
  "ssh_daemon p \<longleftrightarrow>
     lp_Protocol p = ''tcp'' \<and> (lp_Name p = ''sshd'' \<or> lp_Name p = ''sshd-session'' \<or> lp_Name p = ''dropbear'')"

definition SSHProtection ::
  "'h Tools \<Rightarrow> 'h Sources \<Rightarrow> ListeningProcess list \<Rightarrow> 'h \<Rightarrow> int list \<times> bool" where
  "SSHProtection t so processes h =
     (let listening = map lp_Port (filter ssh_daemon processes);
          (configured, uncertain) =
            (if \<not> t_has t ''sshd'' then ([], False)
             else case ask t [''sshd'', ''-T''] h of
               Inl e \<Rightarrow> ([], True)
             | Inr out \<Rightarrow> (parseSSHSettings out, parseSSHSettings out = []));
          activated = concat (map (\<lambda>u.
            case so_units so u h of Inl e \<Rightarrow> [] | Inr out \<Rightarrow> socket_ports out)
              [''sshd.socket'', ''ssh.socket''])
      in (sortedPortKeys (listening @ configured @ activated), uncertain))"

section \<open>FTP\<close>

definition range_sep :: "char \<Rightarrow> bool" where
  "range_sep c \<longleftrightarrow> c \<in> {CHR 0x09, CHR 0x0A, CHR 0x0B, CHR 0x0C, CHR 0x0D, CHR '' '', CHR '','', CHR ''-''}"

definition parseFTPRange :: "string \<Rightarrow> string \<Rightarrow> string \<Rightarrow> ConfiguredRange option" where
  "parseFTPRange raw protocol service =
     (let s = trim_space raw; d1 = takeWhile digit s; t = drop (length d1) s; d2 = dropWhile range_sep t;
          start = number d1; end' = number d2 in
      if d1 = [] \<or> length d1 > 5 \<or> d2 = t \<or> d2 = [] \<or> length d2 > 5 \<or> \<not> list_all digit d2 then None
      else if \<not> ValidRule start protocol \<or> \<not> ValidRule end' protocol \<or> start > end' then None
      else Some \<lparr>cr_Start = start, cr_End = end', cr_Protocol = protocol, cr_Service = service\<rparr>)"

definition ftp_paths :: "(string \<times> string) list" where
  "ftp_paths =
     [(''/etc/pure-ftpd/conf/PassivePortRange'', ''Pure-FTPd''),
      (''/etc/pure-ftpd/pure-ftpd.conf'', ''Pure-FTPd''),
      (''/etc/pure-ftpd.conf'', ''Pure-FTPd''),
      (''/etc/vsftpd/vsftpd.conf'', ''vsftpd''),
      (''/etc/proftpd/proftpd.conf'', ''ProFTPD'')]"

definition add_range :: "ConfiguredRange list \<Rightarrow> ConfiguredRange option \<Rightarrow> ConfiguredRange list" where
  "add_range ranges r = (case r of None \<Rightarrow> ranges | Some c \<Rightarrow> if c \<in> set ranges then ranges else ranges @ [c])"

text \<open>One line: the values of the two vsftpd options so far, and the ranges.\<close>

definition ftp_line ::
  "string \<Rightarrow> string \<Rightarrow> string \<times> string \<times> ConfiguredRange list \<Rightarrow> string \<Rightarrow> string \<times> string \<times> ConfiguredRange list" where
  "ftp_line path service state rawLine =
     (case state of (mn, mx, ranges) \<Rightarrow>
        (let line = trim_space (takeWhile (\<lambda>c. c \<noteq> CHR ''#'') rawLine); lower = to_lower line;
             value_after = (\<lambda>p. trim_space (drop (length p) line)) in
         if line = [] then state
         else if has_prefix lower ''passiveportrange''
           then (mn, mx, add_range ranges (parseFTPRange (value_after ''passiveportrange'') ''tcp'' service))
         else if has_prefix lower ''passiveports''
           then (mn, mx, add_range ranges (parseFTPRange (value_after ''passiveports'') ''tcp'' service))
         else if has_prefix lower ''pasv_min_port='' then (value_after ''pasv_min_port='', mx, ranges)
         else if has_prefix lower ''pasv_max_port='' then (mn, value_after ''pasv_max_port='', ranges)
         else if path = ''/etc/pure-ftpd/conf/PassivePortRange''
           then (mn, mx, add_range ranges (parseFTPRange line ''tcp'' service))
         else state))"

definition ftp_file :: "'h Sources \<Rightarrow> 'h \<Rightarrow> ConfiguredRange list \<Rightarrow> string \<times> string \<Rightarrow> ConfiguredRange list" where
  "ftp_file so h ranges item =
     (case so_file so (fst item) h of
        None \<Rightarrow> ranges
      | Some raw \<Rightarrow>
          (case foldl (ftp_line (fst item) (snd item)) ([], [], ranges) (split_on newline raw) of
             (mn, mx, rs) \<Rightarrow>
               if mn \<noteq> [] \<and> mx \<noteq> [] then add_range rs (parseFTPRange (mn @ '' '' @ mx) ''tcp'' (snd item)) else rs))"

definition readFTPRanges :: "'h Sources \<Rightarrow> 'h \<Rightarrow> ConfiguredRange list" where
  "readFTPRanges so h = foldl (ftp_file so h) [] ftp_paths"

section \<open>Docker\<close>

text \<open>\<open>^[a-f0-9]{12,64}$\<close>\<close>

definition docker_id :: "string \<Rightarrow> bool" where
  "docker_id s \<longleftrightarrow>
     12 \<le> length s \<and> length s \<le> 64 \<and> list_all (\<lambda>c. c \<in> set ''0123456789abcdef'') s"

definition add_published :: "PublishedPort list \<Rightarrow> PublishedPort \<Rightarrow> PublishedPort list" where
  "add_published ports p = (if p \<in> set ports then ports else ports @ [p])"

text \<open>The host ports bound for one container port; \<open>null\<close> and other shapes as \<open>json.Unmarshal\<close>.\<close>

fun host_ports :: "json list \<Rightarrow> string list option" where
  "host_ports [] = Some []"
| "host_ports (v # vs) =
     (case map_item v of
        None \<Rightarrow> None
      | Some m \<Rightarrow>
          (case (str_field (mget m ''HostPort''), host_ports vs) of
             (Some s, Some ss) \<Rightarrow> Some (s # ss) | _ \<Rightarrow> None))"

definition binding_ports :: "json \<Rightarrow> string list option" where
  "binding_ports v = (case v of JNull \<Rightarrow> Some [] | JArr vs \<Rightarrow> host_ports vs | _ \<Rightarrow> None)"

definition published :: "string \<Rightarrow> string \<Rightarrow> string list \<Rightarrow> PublishedPort list" where
  "published name protoPort hosts =
     (case split_on (CHR ''/'') protoPort of
        [_, proto] \<Rightarrow>
          if \<not> ValidRule 1 proto then []
          else concat (map (\<lambda>hp. case atoi hp of
                 None \<Rightarrow> []
               | Some p \<Rightarrow> if ValidRule p proto
                           then [\<lparr>pp_Port = p, pp_Protocol = proto, pp_Container = name\<rparr>] else []) hosts)
      | _ \<Rightarrow> [])"

text \<open>\<open>members\<close> is the order in which \<open>range\<close> visits the bindings.\<close>

fun docker_members :: "string \<Rightarrow> object \<Rightarrow> string list \<Rightarrow> PublishedPort list option" where
  "docker_members name m [] = Some []"
| "docker_members name m (k # ks) =
     (case (binding_ports (mget m k), docker_members name m ks) of
        (Some hosts, Some ps) \<Rightarrow> Some (published name k hosts @ ps) | _ \<Rightarrow> None)"

definition docker_row ::
  "(string \<Rightarrow> jtext) \<Rightarrow> (object \<Rightarrow> string list) \<Rightarrow> string \<Rightarrow> PublishedPort list res" where
  "docker_row parse members line =
     (if CHR '' '' \<notin> set line then Inl (ErrNew ''invalid docker inspect row'')
      else
        (let name = take 80 (trim_prefix (takeWhile (\<lambda>c. c \<noteq> CHR '' '') line) ''/'') in
         case unmarshal_map (parse (tl (dropWhile (\<lambda>c. c \<noteq> CHR '' '') line))) of
           Inl e \<Rightarrow> Inl e
         | Inr g \<Rightarrow>
             (case docker_members name (entries_of g) (members (entries_of g)) of
                None \<Rightarrow> Inl (ErrNew ''json'') | Some ps \<Rightarrow> Inr ps)))"

fun docker_rows ::
  "(string \<Rightarrow> jtext) \<Rightarrow> (object \<Rightarrow> string list) \<Rightarrow> string list \<Rightarrow> PublishedPort list \<Rightarrow> PublishedPort list res" where
  "docker_rows parse members [] ports = Inr ports"
| "docker_rows parse members (line # lines) ports =
     (if line = [] then docker_rows parse members lines ports
      else bindR (docker_row parse members line) (\<lambda>ps.
        let ports' = foldl add_published ports ps in
        if length ports' > 2048 then Inl (ErrNew ''too many docker port mappings'')
        else docker_rows parse members lines ports'))"

definition parseDockerInspect ::
  "(string \<Rightarrow> jtext) \<Rightarrow> (object \<Rightarrow> string list) \<Rightarrow> (PublishedPort list \<Rightarrow> PublishedPort list) \<Rightarrow> string \<Rightarrow>
   PublishedPort list res" where
  "parseDockerInspect parse members order buf =
     bindR (docker_rows parse members (split_on newline (trim_space buf)) []) (\<lambda>ports. Inr (order ports))"

definition docker_host :: "string list" where
  "docker_host = [''--host'', ''unix:///var/run/docker.sock'']"

definition readDocker :: "'h Tools \<Rightarrow> 'h Sources \<Rightarrow> 'h \<Rightarrow> PublishedPort list \<times> bool" where
  "readDocker t so h =
     (if \<not> so_docker_socket so h then ([], False)
      else if \<not> t_has t ''docker'' then ([], True)
      else case so_docker so (docker_host @ [''ps'', ''-q'', ''--no-trunc'']) h of
        Inl e \<Rightarrow> ([], True)
      | Inr b \<Rightarrow>
          (let ids = Prelude.fields b in
           if int (length b) > 16384 \<or> length ids > 64 then ([], True)
           else if ids = [] then ([], False)
           else if \<not> list_all docker_id ids then ([], True)
           else case so_docker so (docker_host @ [''inspect'', ''--format'',
                       ''{{.Name}} {{json .NetworkSettings.Ports}}''] @ ids) h of
             Inl e \<Rightarrow> ([], True)
           | Inr buf \<Rightarrow>
               if int (length buf) > 262144 then ([], True)
               else (case parseDockerInspect (t_json t) (so_members so) (so_published so) buf of
                       Inl e \<Rightarrow> ([], True) | Inr ports \<Rightarrow> (ports, False))))"

section \<open>Discovery\<close>

definition readSSProcesses :: "'h Tools \<Rightarrow> 'h Sources \<Rightarrow> 'h \<Rightarrow> ListeningProcess list res" where
  "readSSProcesses t so h = bindR (ask t [''ss'', ''-H'', ''-lntup''] h) (parseProcessSockets (so_processes so))"

definition Discover :: "'h Tools \<Rightarrow> 'h Sources \<Rightarrow> 'h \<Rightarrow> Discovery res" where
  "Discover t so h =
     bindR (readSSProcesses t so h) (\<lambda>processes.
     (let (sshPorts, sshUnknown) = SSHProtection t so processes h;
          (docker, dockerUnknown) = readDocker t so h
      in Inr \<lparr>ds_Processes = processes, ds_SSHPorts = sshPorts, ds_SSHUncertain = sshUnknown,
              ds_FTPRanges = readFTPRanges so h, ds_Docker = docker, ds_DockerUncertain = dockerUnknown\<rparr>))"

definition ProtectedPort :: "Discovery \<Rightarrow> int \<Rightarrow> bool" where
  "ProtectedPort d p \<longleftrightarrow>
     ds_SSHUncertain d \<or> ds_DockerUncertain d \<or> p \<in> set (ds_SSHPorts d) \<or>
     list_ex (\<lambda>v. lp_Port v = p) (ds_Processes d) \<or> list_ex (\<lambda>v. pp_Port v = p) (ds_Docker d)"

end
