(* ===== verification/FirewallHelper.thy ===== *)
theory FirewallHelper
  imports FirewallGuarantees FirewallDiscovery
begin

text \<open>
  Privileged helpers and recovery timers (\<open>internal/ops/firewall.go\<close>, \<open>firewall_rollback.go\<close>, and the
  helper commands of \<open>cmd/xport/manager.go\<close>). The panel itself may not touch the firewall: it starts
  its own binary in a transient unit and reads the reply from a file, and it starts the timers that
  undo a change. \<open>systemd-run\<close>, \<open>systemctl\<close> and the lookup of a tool's path are fields of \<open>Timers\<close>.
\<close>

section \<open>The helper process\<close>

record 'h Timers =
  tm_helper :: "'h \<Rightarrow> err option"
  tm_after :: "'h \<Rightarrow> err option"
  tm_active :: "string \<Rightarrow> 'h \<Rightarrow> bool"
  tm_stop :: "string \<Rightarrow> 'h \<Rightarrow> unit res \<times> 'h"
  tm_look :: "string \<Rightarrow> string res"
  tm_run :: "string list \<Rightarrow> 'h \<Rightarrow> unit res \<times> 'h"
  tm_sources :: "'h Sources"

text \<open>
  Starting the helper may fail, the helper itself may fail, and its reply may be lost after it has
  done its work. A reply that arrives says what the helper returned.
\<close>

definition run_helper :: "'h Timers \<Rightarrow> ('h \<Rightarrow> 'a res \<times> 'h) \<Rightarrow> 'h \<Rightarrow> 'a res \<times> 'h" where
  "run_helper tm f h =
     (case tm_helper tm h of
        Some e \<Rightarrow> (Inl e, h)
      | None \<Rightarrow>
          (case f h of
             (Inl e, h') \<Rightarrow> (Inl (Errorf ''firewall helper failed: %w: %s'' [] [e]), h')
           | (Inr v, h') \<Rightarrow> (case tm_after tm h' of Some e \<Rightarrow> (Inl e, h') | None \<Rightarrow> (Inr v, h'))))"

text \<open>The commands \<open>firewall-apply\<close>, \<open>firewall-policy\<close> and \<open>firewall-restore\<close>, run as root.\<close>

fun firewallApplyHelper :: "'h Tools \<Rightarrow> string list \<Rightarrow> 'h \<Rightarrow> unit res \<times> 'h" where
  "firewallApplyHelper t [action, p, proto, zone] h =
     (case atoi p of
        None \<Rightarrow> (Inl (ErrNew ''invalid port''), h)
      | Some port \<Rightarrow>
          if \<not> ValidRule port proto then (Inl (ErrNew ''invalid firewall port/protocol''), h)
          else if action \<noteq> ''add'' \<and> action \<noteq> ''remove'' then (Inl (ErrNew ''invalid action''), h)
          else if zone \<noteq> [] \<and> \<not> ValidZone zone then (Inl (ErrNew ''invalid zone''), h)
          else Change t action port proto zone h)"
| "firewallApplyHelper t args h =
     (Inl (ErrNew ''usage: xport firewall-apply add|remove PORT tcp|udp ZONE''), h)"

fun firewallPolicyHelper :: "'h Tools \<Rightarrow> string list \<Rightarrow> 'h \<Rightarrow> unit res \<times> 'h" where
  "firewallPolicyHelper t [action, p, proto, zone] h =
     (case atoi p of
        None \<Rightarrow> (Inl (ErrNew ''invalid port/protocol/zone''), h)
      | Some port \<Rightarrow>
          if \<not> ValidRule port proto \<or> \<not> ValidZone zone then (Inl (ErrNew ''invalid port/protocol/zone''), h)
          else if action \<noteq> ''add'' \<and> action \<noteq> ''remove'' then (Inl (ErrNew ''unsupported policy action''), h)
          else ChangeSimpleDrop t action port proto zone h)"
| "firewallPolicyHelper t args h =
     (Inl (ErrNew ''usage: xport firewall-policy add|remove PORT tcp|udp ZONE''), h)"

fun firewallRestoreHelper :: "'h Tools \<Rightarrow> string list \<Rightarrow> 'h \<Rightarrow> unit res \<times> 'h" where
  "firewallRestoreHelper t [backend, p, proto, zone] h =
     (case atoi p of
        None \<Rightarrow> (Inl (ErrNew ''invalid port/protocol''), h)
      | Some port \<Rightarrow>
          if \<not> ValidRule port proto then (Inl (ErrNew ''invalid port/protocol''), h)
          else if backend \<noteq> ''firewalld'' \<and> backend \<noteq> ''ufw'' then (Inl (ErrNew ''invalid backend''), h)
          else if backend = ''firewalld'' \<and> \<not> ValidZone zone then (Inl (ErrNew ''invalid zone''), h)
          else if backend = ''ufw'' \<and> zone \<noteq> [] then (Inl (ErrNew ''unexpected UFW zone''), h)
          else Restore t backend port proto zone h)"
| "firewallRestoreHelper t args h =
     (Inl (ErrNew ''usage: xport firewall-restore BACKEND PORT tcp|udp ZONE''), h)"

definition ApplyFirewall ::
  "'h Timers \<Rightarrow> 'h Tools \<Rightarrow> string \<Rightarrow> int \<Rightarrow> string \<Rightarrow> string \<Rightarrow> 'h \<Rightarrow> unit res \<times> 'h" where
  "ApplyFirewall tm t action port proto zone h =
     (if action \<noteq> ''add'' \<and> action \<noteq> ''remove'' then (Inl (ErrNew ''invalid action''), h)
      else if \<not> ValidRule port proto then (Inl (ErrNew ''invalid port/protocol''), h)
      else if zone \<noteq> [] \<and> \<not> ValidZone zone then (Inl (ErrNew ''invalid zone''), h)
      else run_helper tm (firewallApplyHelper t [action, itoa port, proto, zone]) h)"

definition ApplySimpleDrop ::
  "'h Timers \<Rightarrow> 'h Tools \<Rightarrow> string \<Rightarrow> int \<Rightarrow> string \<Rightarrow> string \<Rightarrow> 'h \<Rightarrow> unit res \<times> 'h" where
  "ApplySimpleDrop tm t action port proto zone h =
     (if action \<noteq> ''add'' \<and> action \<noteq> ''remove'' then (Inl (ErrNew ''invalid DROP action''), h)
      else if \<not> ValidRule port proto \<or> \<not> ValidZone zone then (Inl (ErrNew ''invalid DROP port/protocol/zone''), h)
      else run_helper tm (firewallPolicyHelper t [action, itoa port, proto, zone]) h)"

definition ask_helper :: "'h Timers \<Rightarrow> ('h \<Rightarrow> 'a res) \<Rightarrow> 'h \<Rightarrow> 'a res" where
  "ask_helper tm f h = fst (run_helper tm (\<lambda>h. (f h, h)) h)"

definition InspectFirewall :: "'h Timers \<Rightarrow> 'h Tools \<Rightarrow> 'h \<Rightarrow> FirewallInspect.Snapshot res" where
  "InspectFirewall tm t h = ask_helper tm (Inspect t) h"

definition NativeFirewallRules :: "'h Timers \<Rightarrow> 'h Tools \<Rightarrow> 'h \<Rightarrow> string res" where
  "NativeFirewallRules tm t h = bindR (ask_helper tm (Raw t) h) (\<lambda>out. Inr (trim_space out))"

definition FirewallListeners :: "'h Timers \<Rightarrow> 'h Tools \<Rightarrow> 'h \<Rightarrow> int list res" where
  "FirewallListeners tm t h = ask_helper tm (ListeningPorts t) h"

definition FirewallSockets :: "'h Timers \<Rightarrow> 'h Tools \<Rightarrow> 'h \<Rightarrow> (string \<times> int) list res" where
  "FirewallSockets tm t h = ask_helper tm (ListeningSockets t) h"

definition FirewallDiscovery :: "'h Timers \<Rightarrow> 'h Tools \<Rightarrow> 'h \<Rightarrow> Discovery res" where
  "FirewallDiscovery tm t h = ask_helper tm (Discover t (tm_sources tm)) h"

section \<open>The recovery timer\<close>

text \<open>\<open>^xport-fw-restore-[a-f0-9]{24}$\<close>\<close>

definition restoreUnit :: "string \<Rightarrow> bool" where
  "restoreUnit unit \<longleftrightarrow>
     has_prefix unit ''xport-fw-restore-'' \<and> length unit = 41 \<and>
     list_all (\<lambda>c. c \<in> set ''0123456789abcdef'') (drop 17 unit)"

definition CancelFirewallRestore :: "'h Timers \<Rightarrow> string \<Rightarrow> 'h \<Rightarrow> unit res \<times> 'h" where
  "CancelFirewallRestore tm unit h =
     (if \<not> restoreUnit unit then (Inl (ErrNew ''invalid recovery unit''), h)
      else if \<not> tm_active tm (unit @ ''.timer'') h
        then (Inl (ErrNew ''recovery timer is no longer active; it may have fired''), h)
      else (case tm_stop tm (unit @ ''.timer'') h of
              (Inl e, h') \<Rightarrow> (Inl (Errorf ''cannot cancel firewall recovery: %w: %s'' [] [e]), h')
            | (Inr u, h') \<Rightarrow> (Inr u, h')))"

text \<open>
  Arming a timer: the tool's absolute path, a random unit name, and \<open>systemd-run\<close> with a script whose
  parameters are passed as arguments. \<open>rand\<close> is the result of \<open>rand.Read\<close> on 12 bytes.
\<close>

definition quoted :: "string \<Rightarrow> string" where
  "quoted s = [CHR 0x22] @ s @ [CHR 0x22]"

definition script_line :: "string list \<Rightarrow> string" where
  "script_line words = newline # join_with '' '' words"

definition tool_path :: "'h Timers \<Rightarrow> string \<Rightarrow> string \<Rightarrow> string \<Rightarrow> string res" where
  "tool_path tm utility missing relative =
     (case tm_look tm utility of
        Inl e \<Rightarrow> Inl (Errorf missing [] [e])
      | Inr exe \<Rightarrow> if has_prefix exe ''/'' then Inr exe else Inl (ErrNew relative))"

definition arm_timer ::
  "'h Timers \<Rightarrow> nat list res \<Rightarrow> int \<Rightarrow> string \<Rightarrow> string list \<Rightarrow> 'h \<Rightarrow> (string \<times> int) res \<times> 'h" where
  "arm_timer tm rand now failed worker h =
     (case rand of
        Inl e \<Rightarrow> (Inl e, h)
      | Inr bs \<Rightarrow>
          (let unit = ''xport-fw-restore-'' @ hex_encode bs;
               argv = [''--quiet'', ''--unit='' @ unit, ''--on-active=120s'', ''--timer-property=AccuracySec=1s'',
                       ''--property=Type=exec'', ''--property=NoNewPrivileges=yes''] @ worker
           in case tm_run tm argv h of
                (Inl e, h') \<Rightarrow> (Inl (Errorf failed [] [e]), h')
              | (Inr _, h') \<Rightarrow> (Inr (unit, now + 120000), h')))"

definition ScheduleFirewallRestore ::
  "'h Timers \<Rightarrow> nat list res \<Rightarrow> int \<Rightarrow> string \<Rightarrow> int \<Rightarrow> string \<Rightarrow> string \<Rightarrow> 'h \<Rightarrow> (string \<times> int) res \<times> 'h" where
  "ScheduleFirewallRestore tm rand now backend port proto zone h =
     (if \<not> ValidRule port proto then (Inl (ErrNew ''invalid port''), h)
      else if backend \<noteq> ''firewalld'' \<and> backend \<noteq> ''ufw'' then (Inl (ErrNew ''unsupported backend''), h)
      else if backend = ''firewalld'' \<and> \<not> ValidZone zone then (Inl (ErrNew ''invalid firewalld zone''), h)
      else if backend = ''ufw'' \<and> zone \<noteq> [] then (Inl (ErrNew ''UFW does not use zones''), h)
      else case tool_path tm (if backend = ''ufw'' then ''ufw'' else ''firewall-cmd'')
                  ''recovery utility unavailable: %w'' ''invalid recovery utility path'' of
        Inl e \<Rightarrow> (Inl e, h)
      | Inr exe \<Rightarrow>
          arm_timer tm rand now ''could not schedule firewall restore: %w: %s''
            (if backend = ''firewalld''
             then [''/bin/sh'', ''-c'',
                   ''set -eu'' @ script_line [quoted ''$1'', quoted ''--zone=$2'', quoted ''--add-port=$3/$4''] @
                   script_line [quoted ''$1'', ''--permanent'', quoted ''--zone=$2'', quoted ''--add-port=$3/$4''],
                   ''xport-recovery'', exe, zone, itoa port, proto]
             else [''/bin/sh'', ''-c'', ''set -eu'' @ script_line [quoted ''$1'', ''allow'', quoted ''$2/$3''],
                   ''xport-recovery'', exe, itoa port, proto]) h)"

definition ScheduleFirewallDropUndo ::
  "'h Timers \<Rightarrow> nat list res \<Rightarrow> int \<Rightarrow> string \<Rightarrow> int \<Rightarrow> string \<Rightarrow> string \<Rightarrow> 'h \<Rightarrow> (string \<times> int) res \<times> 'h" where
  "ScheduleFirewallDropUndo tm rand now undo port proto zone h =
     (if undo \<noteq> ''add'' \<and> undo \<noteq> ''remove'' then (Inl (ErrNew ''invalid DROP recovery action''), h)
      else if \<not> ValidRule port proto \<or> \<not> ValidZone zone then (Inl (ErrNew ''invalid DROP recovery rule''), h)
      else case bindR (RichDropText port proto) (\<lambda>rich.
                  bindR (tool_path tm ''firewall-cmd'' ''firewall-cmd recovery unavailable: %w''
                           ''invalid firewalld executable'') (\<lambda>exe. Inr (rich, exe))) of
        Inl e \<Rightarrow> (Inl e, h)
      | Inr (rich, exe) \<Rightarrow>
          arm_timer tm rand now ''cannot schedule rich recovery: %w: %s''
            [''/bin/sh'', ''-c'',
             ''set -eu'' @ script_line [quoted ''$1'', quoted ''--zone=$2'', quoted ''$3$4''] @
             script_line [quoted ''$1'', ''--permanent'', quoted ''--zone=$2'', quoted ''$3$4''],
             ''xport-rich-recovery'', exe, zone,
             (if undo = ''remove'' then ''--remove-rich-rule='' else ''--add-rich-rule=''), rich] h)"

definition ScheduleFirewallEditUndo ::
  "'h Timers \<Rightarrow> nat list res \<Rightarrow> int \<Rightarrow> int \<Rightarrow> string \<Rightarrow> int \<Rightarrow> string \<Rightarrow> string \<Rightarrow> 'h \<Rightarrow> (string \<times> int) res \<times> 'h" where
  "ScheduleFirewallEditUndo tm rand now oldPort oldProto newPort newProto zone h =
     (if \<not> ValidRule oldPort oldProto \<or> \<not> ValidRule newPort newProto \<or> \<not> ValidZone zone
        then (Inl (ErrNew ''invalid external rule edit''), h)
      else if oldPort = newPort \<and> oldProto = newProto then (Inl (ErrNew ''identical external rule''), h)
      else case tool_path tm ''firewall-cmd'' ''external rule recovery utility unavailable: %w''
                  ''invalid firewalld executable'' of
        Inl e \<Rightarrow> (Inl e, h)
      | Inr exe \<Rightarrow>
          arm_timer tm rand now ''cannot schedule external rule recovery: %w: %s''
            [''/bin/sh'', ''-c'',
             ''set -eu'' @ script_line [quoted ''$1'', quoted ''--zone=$2'', quoted ''--add-port=$3/$4''] @
             script_line [quoted ''$1'', ''--permanent'', quoted ''--zone=$2'', quoted ''--add-port=$3/$4''] @
             script_line [quoted ''$1'', quoted ''--zone=$2'', quoted ''--remove-port=$5/$6''] @
             script_line [quoted ''$1'', ''--permanent'', quoted ''--zone=$2'', quoted ''--remove-port=$5/$6''],
             ''xport-external-recovery'', exe, zone, itoa oldPort, oldProto, itoa newPort, newProto] h)"

end
