(* ===== verification/Account.thy ===== *)
theory Account
  imports Json
begin

text \<open>
  The account (\<open>internal/model/account.go\<close>), the editor's input and view of it
  (\<open>internal/accountcfg/account.go\<close>) and the helpers the account operations share:
  normalisation and validation of an input, ports, slugs, identifiers, and reading the JSON of an
  account. The fields of the three structures carry the prefixes \<open>a_\<close>, \<open>in_\<close> and \<open>v_\<close>.
\<close>

section \<open>Data\<close>

record Account =
  a_ID :: int
  a_Name :: string
  a_Enabled :: bool
  a_DisabledReason :: string
  a_Listen :: string
  a_Port :: int
  a_Protocol :: string
  a_SettingsJSON :: jtext
  a_StreamSettingsJSON :: jtext
  a_SniffingJSON :: jtext
  a_Tag :: string
  a_UpBytes :: int
  a_DownBytes :: int
  a_QuotaBytes :: int
  a_AllTimeBytes :: int
  a_ExpiryTime :: int
  a_MonthlyReset :: bool
  a_LastMonthlyReset :: string
  a_CreatedAt :: int
  a_UpdatedAt :: int

record Admin =
  adm_Username :: string
  adm_PasswordHash :: string

record Input =
  in_Name :: string
  in_Enabled :: bool
  in_Port :: int
  in_Protocol :: string
  in_Credential :: string
  in_Username :: string
  in_Password :: string
  in_ServerPassword :: string
  in_ClientSecurity :: string
  in_Method :: string
  in_Flow :: string
  in_Network :: string
  in_Security :: string
  in_ServerName :: string
  in_Dest :: string
  in_PrivateKey :: string
  in_ShortID :: string
  in_Host :: string
  in_Path :: string
  in_ServiceName :: string
  in_QuotaBytes :: int
  in_ExpiryTime :: int
  in_MonthlyReset :: bool

record View =
  v_ID :: int
  v_Name :: string
  v_Enabled :: bool
  v_DisabledReason :: string
  v_Port :: int
  v_Protocol :: string
  v_Credential :: string
  v_Username :: string
  v_Password :: string
  v_ServerPassword :: string
  v_ClientSecurity :: string
  v_Method :: string
  v_Flow :: string
  v_Network :: string
  v_Security :: string
  v_ServerName :: string
  v_Dest :: string
  v_PrivateKey :: string
  v_ShortID :: string
  v_Host :: string
  v_Path :: string
  v_ServiceName :: string
  v_QuotaBytes :: int
  v_ExpiryTime :: int
  v_MonthlyReset :: bool
  v_UpBytes :: int
  v_DownBytes :: int
  v_AllTime :: int
  v_Editable :: bool
  v_Tag :: string

text \<open>Go's zero values.\<close>

definition zero_View :: View where
  "zero_View =
     \<lparr>v_ID = 0, v_Name = [], v_Enabled = False, v_DisabledReason = [], v_Port = 0, v_Protocol = [],
      v_Credential = [], v_Username = [], v_Password = [], v_ServerPassword = [],
      v_ClientSecurity = [], v_Method = [], v_Flow = [], v_Network = [], v_Security = [],
      v_ServerName = [], v_Dest = [], v_PrivateKey = [], v_ShortID = [], v_Host = [], v_Path = [],
      v_ServiceName = [], v_QuotaBytes = 0, v_ExpiryTime = 0, v_MonthlyReset = False,
      v_UpBytes = 0, v_DownBytes = 0, v_AllTime = 0, v_Editable = False, v_Tag = []\<rparr>"

definition PortMin :: int where "PortMin = 20000"

definition PortMax :: int where "PortMax = 60000"

definition XrayAPIPort :: int where "XrayAPIPort = 10085"

definition PanelListen :: string where "PanelListen = ''127.0.0.1:8080''"

section \<open>Small helpers\<close>

definition defaultString :: "string \<Rightarrow> string \<Rightarrow> string" where
  "defaultString v fallback = (if trim_space v = [] then fallback else v)"

definition defaultJSON :: "jtext \<Rightarrow> jtext" where
  "defaultJSON t = (if t = Blank then Doc (JObj fmempty) else t)"

definition stringValue :: "json \<Rightarrow> string" where
  "stringValue v = (case as_string v of None \<Rightarrow> [] | Some s \<Rightarrow> s)"

fun firstString :: "json list \<Rightarrow> string" where
  "firstString [] = []"
| "firstString (v # vs) = (let s = stringValue v in if s \<noteq> [] then s else firstString vs)"

definition firstArrayString :: "json \<Rightarrow> string" where
  "firstArrayString v =
     (case v of
        JArr (x # xs) \<Rightarrow> stringValue x
      | _ \<Rightarrow> (let s = stringValue v in if s \<noteq> [] then hd (split_on (CHR '','') s) else []))"

definition object :: "object \<Rightarrow> string \<Rightarrow> object" where
  "object m key = (case as_object (mget m key) of None \<Rightarrow> fmempty | Some v \<Rightarrow> v)"

definition setOrDelete :: "string \<Rightarrow> string \<Rightarrow> object \<Rightarrow> object" where
  "setOrDelete key val m = (if val = [] then fmdrop key m else fmupd key (JStr val) m)"

definition oneObject :: "object \<Rightarrow> string \<Rightarrow> object res" where
  "oneObject m key =
     (case as_array (mget m key) of
        Some [x] \<Rightarrow> (case as_object x of
                       None \<Rightarrow> Inl (Errorf ''invalid %s entry'' [key] [])
                     | Some v \<Rightarrow> Inr v)
      | _ \<Rightarrow> Inl (Errorf ''%s must contain exactly one entry'' [key] []))"

definition oneObjectOptional :: "object \<Rightarrow> string \<Rightarrow> object option res" where
  "oneObjectOptional m key =
     (if mget m key = JNull then Inr None
      else case as_array (mget m key) of
        None \<Rightarrow> Inl (Errorf ''invalid %s list'' [key] [])
      | Some [] \<Rightarrow> Inr None
      | Some [x] \<Rightarrow> (case as_object x of
                       None \<Rightarrow> Inl (Errorf ''invalid %s entry'' [key] [])
                     | Some v \<Rightarrow> Inr (Some v))
      | Some _ \<Rightarrow> Inl (Errorf ''%s must contain exactly one entry'' [key] []))"

definition securityForVMess :: "string \<Rightarrow> string" where
  "securityForVMess s = (if s = ''tls'' then ''tls'' else [])"

lemma stringValue_JStr [simp]: "stringValue (JStr s) = s"
  by (simp add: stringValue_def)

lemma stringValue_JNull [simp]: "stringValue JNull = []"
  by (simp add: stringValue_def)

lemma firstArrayString_one [simp]: "firstArrayString (JArr (JStr s # xs)) = s"
  by (simp add: firstArrayString_def)

lemma defaultString_Nil [simp]: "defaultString [] d = d"
  by (simp add: defaultString_def)

lemma defaultJSON_marshal [simp]: "defaultJSON (marshal m) = marshal m"
  by (simp add: defaultJSON_def marshal_def)

lemma object_upd [simp]:
  "object (fmupd k v m) k' = (if k = k' then (case as_object v of None \<Rightarrow> fmempty | Some o' \<Rightarrow> o')
                              else object m k')"
  by (simp add: object_def)

lemma object_empty [simp]: "object fmempty k = fmempty"
  by (simp add: object_def)

lemma object_drop [simp]: "object (fmdrop k m) k' = (if k = k' then fmempty else object m k')"
  by (simp add: object_def)

lemma mget_setOrDelete [simp]:
  "mget (setOrDelete k v m) k' =
     (if k = k' then (if v = [] then JNull else JStr v) else mget m k')"
  by (simp add: setOrDelete_def)

lemma oneObject_single [simp]: "mget m key = JArr [JObj v] \<Longrightarrow> oneObject m key = Inr v"
  by (simp add: oneObject_def)

lemma oneObject_Inr: "oneObject m key = Inr v \<longleftrightarrow> mget m key = JArr [JObj v]"
  by (cases "mget m key") (auto simp: oneObject_def split: list.splits option.splits)

lemma oneObjectOptional_Inr_Some:
  "oneObjectOptional m key = Inr (Some v) \<longleftrightarrow> mget m key = JArr [JObj v]"
  by (cases "mget m key") (auto simp: oneObjectOptional_def split: list.splits option.splits)

lemma oneObjectOptional_Inr_None:
  "oneObjectOptional m key = Inr None \<longleftrightarrow> mget m key = JNull \<or> mget m key = JArr []"
  by (cases "mget m key") (auto simp: oneObjectOptional_def split: list.splits option.splits)

section \<open>Ports, slugs, identifiers\<close>

definition validPort :: "int \<Rightarrow> unit res" where
  "validPort port = (if port < 1 \<or> port > 65535 then Inl (Errorf ''invalid port %d'' [itoa port] [])
                     else Inr ())"

definition slug_char :: "char \<Rightarrow> bool" where
  "slug_char r \<longleftrightarrow> (let n = (of_char r :: nat) in (97 \<le> n \<and> n \<le> 122) \<or> (48 \<le> n \<and> n \<le> 57))"

fun slug_loop :: "string \<Rightarrow> string \<Rightarrow> string" where
  "slug_loop b [] = b"
| "slug_loop b (r # rs) =
     (let b' = (if slug_char r then b @ [r] else b) in
      if length b' \<ge> 12 then b' else slug_loop b' rs)"

definition shortSlug :: "string \<Rightarrow> string" where
  "shortSlug s =
     (let b = slug_loop [] (to_lower (trim_space s)) in if b = [] then ''account'' else b)"

definition accountEmail :: "string \<Rightarrow> int \<Rightarrow> string" where
  "accountEmail name port = shortSlug name @ ''-'' @ itoa port"

definition accountTag :: "int \<Rightarrow> string \<Rightarrow> string" where
  "accountTag port name = ''xport-'' @ itoa port @ ''-'' @ shortSlug name"

lemma slug_loop_take:
  "length b < 12 \<Longrightarrow> slug_loop b rs = take 12 (b @ filter slug_char rs)"
proof (induction b rs rule: slug_loop.induct)
  case (2 b r rs)
  then show ?case
    by (cases "slug_char r"; cases "length b = 11") (auto simp: Let_def)
qed simp

lemma shortSlug_length: "1 \<le> length (shortSlug s) \<and> length (shortSlug s) \<le> 12"
  by (auto simp: shortSlug_def Let_def slug_loop_take Suc_le_eq)

lemma shortSlug_chars: "c \<in> set (shortSlug s) \<Longrightarrow> slug_char c"
proof -
  have "list_all slug_char ''account''" by (simp add: slug_char_def)
  then show "c \<in> set (shortSlug s) \<Longrightarrow> slug_char c"
    by (auto simp: shortSlug_def Let_def slug_loop_take list_all_iff split: if_splits dest!: in_set_takeD)
qed

section \<open>Randomness\<close>

text \<open>
  What the calls of \<open>crypto/rand\<close> and \<open>crypto/ecdh\<close> return during one operation: the 16 bytes of
  a UUID, the bytes of a secret by their number, the 8 bytes of a short id, and an X25519 key pair
  in base64 (\<open>None\<close> when the generation fails). No operation asks twice for the same.
\<close>

record entropy =
  ent_uuid :: "nat list"
  ent_secret :: "nat \<Rightarrow> nat list"
  ent_short :: "nat list"
  ent_x25519 :: "(string \<times> string) option"

definition uuid_bytes :: "nat list \<Rightarrow> nat list" where
  "uuid_bytes b0 =
     (let b = b0[6 := b0 ! 6 mod 16 + 64] in b[8 := b ! 8 mod 64 + 128])"

definition newUUID :: "entropy \<Rightarrow> string" where
  "newUUID ent =
     (let b = uuid_bytes (ent_uuid ent) in
      hex_encode (take 4 b) @ ''-'' @ hex_encode (take 2 (drop 4 b)) @ ''-'' @
      hex_encode (take 2 (drop 6 b)) @ ''-'' @ hex_encode (take 2 (drop 8 b)) @ ''-'' @
      hex_encode (take 6 (drop 10 b)))"

definition newShortID :: "entropy \<Rightarrow> string" where
  "newShortID ent = hex_encode (ent_short ent)"

definition randomSecret :: "entropy \<Rightarrow> nat \<Rightarrow> string" where
  "randomSecret ent n = base64_raw_url (ent_secret ent n)"

definition newX25519Keypair :: "entropy \<Rightarrow> (string \<times> string) option" where
  "newX25519Keypair ent = ent_x25519 ent"

end
