(* ===== verification/Store.thy ===== *)
theory Store
  imports Account "HOL-Library.List_Lexorder" "HOL-Library.Char_ord"
begin

text \<open>
  The panel's database (\<open>internal/store/store.go\<close>, \<open>maintenance.go\<close>): the three tables with the
  constraints of the schema, the SQL statements the package runs, and its operations, each a
  transaction that is carried out in full or not at all.

  The engine itself is not part of the program. Its statements are modelled by what their SQL text
  says; that a statement fails for reasons of its own (the disk, a lock) is the argument
  \<open>fault\<close>, and what integer addition gives beyond 64 bits is the argument \<open>sql_add\<close>. A
  transaction whose \<open>Commit\<close> fails leaves the database as it was.
\<close>

section \<open>Tables\<close>

record AdminRow =
  row_hash :: string
  row_created :: int
  row_updated :: int

record Db =
  db_rows :: "Account list"
  db_seq :: int
  db_admins :: "(string, AdminRow) fmap"
  db_settings :: "(string, string) fmap"

datatype stmt =
    SBegin | SCommit | SPrepare | SCloseStmt
  | SDeleteAccounts | SInsertAccount Account | SSelectAccounts
  | SAddTraffic string int int | SResetTraffic int
  | SDeleteAdmins | SInsertAdmin string | SUpsertAdmin string | SCountAdmin string
  | SDeleteAdmin string | SUpdateAdmin string | SSelectAdmin string | SSelectAdmins
  | SDeleteSettings | SInsertSetting string | SUpsertSetting string | SSelectSetting string
  | SSelectSettings

record Engine =
  fault :: "stmt \<Rightarrow> err option"
  sql_add :: "int \<Rightarrow> int \<Rightarrow> int"

definition exec :: "Engine \<Rightarrow> stmt \<Rightarrow> unit res" where
  "exec eng s = (case fault eng s of None \<Rightarrow> Inr () | Some e \<Rightarrow> Inl e)"

lemma exec_Inr [simp]: "exec eng s = Inr u \<longleftrightarrow> fault eng s = None"
  by (simp add: exec_def split: option.split)

lemma exec_ok [simp]: "fault eng s = None \<Longrightarrow> exec eng s = Inr ()"
  by (simp add: exec_def)

text \<open>\<open>Begin\<close>, the statements of the body, \<open>Commit\<close>, and the deferred \<open>Rollback\<close>.\<close>

definition transaction :: "Engine \<Rightarrow> (Db \<Rightarrow> Db res) \<Rightarrow> Db \<Rightarrow> unit res \<times> Db" where
  "transaction eng body db =
     (case bindR (exec eng SBegin) (\<lambda>_. bindR (body db) (\<lambda>db'.
             bindR (exec eng SCommit) (\<lambda>_. Inr db'))) of
        Inl e \<Rightarrow> (Inl e, db)
      | Inr db' \<Rightarrow> (Inr (), db'))"

lemma transaction_Inr:
  "transaction eng body db = (Inr u, db') \<longleftrightarrow>
     fault eng SBegin = None \<and> fault eng SCommit = None \<and> body db = Inr db'"
  by (auto simp: transaction_def split: sum.split)

lemma transaction_Inl: "transaction eng body db = (Inl e, db') \<Longrightarrow> db' = db"
  by (auto simp: transaction_def split: sum.split_asm)

lemma transaction_cases:
  obtains (failed) e where "transaction eng body db = (Inl e, db)"
  | (committed) db' where "transaction eng body db = (Inr (), db')" "body db = Inr db'"
proof (cases "transaction eng body db")
  case (Pair r db')
  then show ?thesis
    by (cases r) (auto simp: transaction_Inr intro: failed committed dest: transaction_Inl)
qed

section \<open>Accounts\<close>

definition Accounts :: "Engine \<Rightarrow> Db \<Rightarrow> Account list res" where
  "Accounts eng db = bindR (exec eng SSelectAccounts) (\<lambda>_. Inr (sort_key a_ID (db_rows db)))"

text \<open>One \<open>INSERT\<close>: the primary key, \<open>UNIQUE\<close> and \<open>CHECK\<close> constraints, and \<open>AUTOINCREMENT\<close>.\<close>

definition insertRow :: "Account \<Rightarrow> Db \<Rightarrow> Db res" where
  "insertRow a db =
     (let i = (if a_ID a > 0 then a_ID a else db_seq db + 1) in
      if \<not> a_ID a > 0 \<and> db_seq db \<ge> 2 ^ 63 - 1 then Inl (ErrNew ''database or disk is full'')
      else if i \<in> a_ID ` set (db_rows db) \<or> a_Port a \<in> a_Port ` set (db_rows db) \<or>
              a_Tag a \<in> a_Tag ` set (db_rows db) \<or> \<not> (a_Port a > 0 \<and> a_Port a \<le> 65535)
        then Inl (ErrNew ''constraint failed'')
      else Inr (db\<lparr>db_rows := db_rows db @ [a\<lparr>a_ID := i\<rparr>], db_seq := max (db_seq db) i\<rparr>))"

definition stamp :: "int \<Rightarrow> Account \<Rightarrow> Account" where
  "stamp now a =
     a\<lparr>a_CreatedAt := (if a_CreatedAt a = 0 then now else a_CreatedAt a),
       a_UpdatedAt := (if a_UpdatedAt a = 0 then now else a_UpdatedAt a)\<rparr>"

fun insertAccountsTx :: "Engine \<Rightarrow> int \<Rightarrow> Account list \<Rightarrow> Db \<Rightarrow> Db res" where
  "insertAccountsTx eng now [] db = Inr db"
| "insertAccountsTx eng now (a0 # as) db =
     bindR (guardR (\<not> (a_Port a0 < 1 \<or> a_Port a0 > 65535))
              (Errorf ''invalid port %d'' [itoa (a_Port a0)] [])) (\<lambda>_.
     (let a = stamp now a0 in
      case bindR (exec eng (SInsertAccount a)) (\<lambda>_. insertRow a db) of
        Inl e \<Rightarrow> Inl (Errorf ''insert account %q: %w'' [a_Name a] [e])
      | Inr db' \<Rightarrow> insertAccountsTx eng now as db'))"

definition deleteAccounts :: "Engine \<Rightarrow> Db \<Rightarrow> Db res" where
  "deleteAccounts eng db = bindR (exec eng SDeleteAccounts) (\<lambda>_. Inr (db\<lparr>db_rows := []\<rparr>))"

definition ReplaceAccounts :: "Engine \<Rightarrow> int \<Rightarrow> Account list \<Rightarrow> Db \<Rightarrow> unit res \<times> Db" where
  "ReplaceAccounts eng now accounts =
     transaction eng (\<lambda>db. bindR (deleteAccounts eng db) (insertAccountsTx eng now accounts))"

section \<open>Traffic\<close>

record TrafficDelta =
  d_Tag :: string
  d_Up :: int
  d_Down :: int

text \<open>The deltas that count; a negative one with a tag is an error.\<close>

fun validDeltas :: "TrafficDelta list \<Rightarrow> TrafficDelta list res" where
  "validDeltas [] = Inr []"
| "validDeltas (d # ds) =
     (if d_Tag d = [] then validDeltas ds
      else if d_Up d < 0 \<or> d_Down d < 0 then Inl (ErrNew ''traffic delta cannot be negative'')
      else if d_Up d = 0 \<and> d_Down d = 0 then validDeltas ds
      else bindR (validDeltas ds) (\<lambda>vs. Inr (d # vs)))"

definition addTrafficRow :: "Engine \<Rightarrow> int \<Rightarrow> TrafficDelta \<Rightarrow> Account \<Rightarrow> Account" where
  "addTrafficRow eng now d a =
     (if a_Tag a = d_Tag d then
        a\<lparr>a_UpBytes := sql_add eng (a_UpBytes a) (d_Up d),
          a_DownBytes := sql_add eng (a_DownBytes a) (d_Down d),
          a_AllTimeBytes := sql_add eng (a_AllTimeBytes a) (add64 (d_Up d) (d_Down d)),
          a_UpdatedAt := now\<rparr>
      else a)"

fun addTrafficTx :: "Engine \<Rightarrow> int \<Rightarrow> TrafficDelta list \<Rightarrow> Db \<Rightarrow> Db res" where
  "addTrafficTx eng now [] db = Inr db"
| "addTrafficTx eng now (d # ds) db =
     bindR (exec eng (SAddTraffic (d_Tag d) (d_Up d) (d_Down d))) (\<lambda>_.
       addTrafficTx eng now ds (db\<lparr>db_rows := map (addTrafficRow eng now d) (db_rows db)\<rparr>))"

definition AddTrafficBatch :: "Engine \<Rightarrow> int \<Rightarrow> TrafficDelta list \<Rightarrow> Db \<Rightarrow> unit res \<times> Db" where
  "AddTrafficBatch eng now deltas db =
     (case validDeltas deltas of
        Inl e \<Rightarrow> (Inl e, db)
      | Inr valid \<Rightarrow>
          if valid = [] then (Inr (), db)
          else transaction eng (\<lambda>db.
                 bindR (exec eng SPrepare) (\<lambda>_.
                 bindR (addTrafficTx eng now valid db) (\<lambda>db'.
                 bindR (exec eng SCloseStmt) (\<lambda>_. Inr db')))) db)"

definition AddTraffic :: "Engine \<Rightarrow> int \<Rightarrow> string \<Rightarrow> int \<Rightarrow> int \<Rightarrow> Db \<Rightarrow> unit res \<times> Db" where
  "AddTraffic eng now tag up down =
     AddTrafficBatch eng now [\<lparr>d_Tag = tag, d_Up = up, d_Down = down\<rparr>]"

definition ResetTraffic :: "Engine \<Rightarrow> int \<Rightarrow> int \<Rightarrow> Db \<Rightarrow> unit res \<times> Db" where
  "ResetTraffic eng now i db =
     (case exec eng (SResetTraffic i) of
        Inl e \<Rightarrow> (Inl e, db)
      | Inr _ \<Rightarrow>
          if i \<in> a_ID ` set (db_rows db) then
            (Inr (), db\<lparr>db_rows := map (\<lambda>a. if a_ID a = i
                          then a\<lparr>a_UpBytes := 0, a_DownBytes := 0, a_UpdatedAt := now\<rparr> else a)
                          (db_rows db)\<rparr>)
          else (Inl (ErrNew ''account not found''), db))"

section \<open>Administrators\<close>

definition SetAdmin :: "Engine \<Rightarrow> int \<Rightarrow> string \<Rightarrow> string \<Rightarrow> Db \<Rightarrow> unit res \<times> Db" where
  "SetAdmin eng now username passwordHash db =
     (if username = [] \<or> passwordHash = []
        then (Inl (ErrNew ''username and password hash are required''), db)
      else case exec eng (SUpsertAdmin username) of
        Inl e \<Rightarrow> (Inl e, db)
      | Inr _ \<Rightarrow>
          (let row = (case fmlookup (db_admins db) username of
                        None \<Rightarrow> \<lparr>row_hash = passwordHash, row_created = now, row_updated = now\<rparr>
                      | Some r \<Rightarrow> r\<lparr>row_hash := passwordHash, row_updated := now\<rparr>)
           in (Inr (), db\<lparr>db_admins := fmupd username row (db_admins db)\<rparr>)))"

definition insertAdmin :: "Engine \<Rightarrow> int \<Rightarrow> Admin \<Rightarrow> Db \<Rightarrow> Db res" where
  "insertAdmin eng now a db =
     bindR (exec eng (SInsertAdmin (adm_Username a))) (\<lambda>_.
       if fmlookup (db_admins db) (adm_Username a) \<noteq> None then Inl (ErrNew ''constraint failed'')
       else Inr (db\<lparr>db_admins := fmupd (adm_Username a)
                      \<lparr>row_hash = adm_PasswordHash a, row_created = now, row_updated = now\<rparr>
                      (db_admins db)\<rparr>))"

text \<open>The loop of \<open>ReplaceAdmins\<close> and of \<open>ReplaceSnapshot\<close>; they differ in their error texts.\<close>

fun insertAdminsTx :: "Engine \<Rightarrow> int \<Rightarrow> err \<Rightarrow> (Admin \<Rightarrow> err \<Rightarrow> err) \<Rightarrow> Admin list \<Rightarrow> Db \<Rightarrow> Db res" where
  "insertAdminsTx eng now bad wrap [] db = Inr db"
| "insertAdminsTx eng now bad wrap (a # as) db =
     (if adm_Username a = [] \<or> adm_PasswordHash a = [] then Inl bad
      else case insertAdmin eng now a db of
        Inl e \<Rightarrow> Inl (wrap a e)
      | Inr db' \<Rightarrow> insertAdminsTx eng now bad wrap as db')"

definition deleteAdmins :: "Engine \<Rightarrow> Db \<Rightarrow> Db res" where
  "deleteAdmins eng db = bindR (exec eng SDeleteAdmins) (\<lambda>_. Inr (db\<lparr>db_admins := fmempty\<rparr>))"

definition ReplaceAdmins :: "Engine \<Rightarrow> int \<Rightarrow> Admin list \<Rightarrow> Db \<Rightarrow> unit res \<times> Db" where
  "ReplaceAdmins eng now admins db =
     (if admins = [] then (Inl (ErrNew ''at least one admin is required''), db)
      else transaction eng (\<lambda>db.
             bindR (deleteAdmins eng db)
               (insertAdminsTx eng now (ErrNew ''admin username and password hash are required'')
                  (\<lambda>a e. Errorf ''insert admin %q: %w'' [adm_Username a] [e]) admins)) db)"

definition AdminByName :: "Engine \<Rightarrow> string \<Rightarrow> Db \<Rightarrow> Admin res" where
  "AdminByName eng username db =
     bindR (exec eng (SSelectAdmin username)) (\<lambda>_.
       case fmlookup (db_admins db) username of
         None \<Rightarrow> Inl (ErrNew ''sql: no rows in result set'')
       | Some r \<Rightarrow> Inr \<lparr>adm_Username = username, adm_PasswordHash = row_hash r\<rparr>)"

definition admin_list :: "(string, AdminRow) fmap \<Rightarrow> Admin list" where
  "admin_list m =
     map (\<lambda>(u, r). \<lparr>adm_Username = u, adm_PasswordHash = row_hash r\<rparr>) (sorted_list_of_fmap m)"

definition Admins :: "Engine \<Rightarrow> Db \<Rightarrow> Admin list res" where
  "Admins eng db = bindR (exec eng SSelectAdmins) (\<lambda>_. Inr (admin_list (db_admins db)))"

section \<open>Settings\<close>

definition SetSetting :: "Engine \<Rightarrow> string \<Rightarrow> string \<Rightarrow> Db \<Rightarrow> unit res \<times> Db" where
  "SetSetting eng key val db =
     (if key = [] then (Inl (ErrNew ''setting key is required''), db)
      else case exec eng (SUpsertSetting key) of
        Inl e \<Rightarrow> (Inl e, db)
      | Inr _ \<Rightarrow> (Inr (), db\<lparr>db_settings := fmupd key val (db_settings db)\<rparr>))"

text \<open>\<open>None\<close> is the result \<open>"", false, nil\<close>.\<close>

definition Setting :: "Engine \<Rightarrow> string \<Rightarrow> Db \<Rightarrow> string option res" where
  "Setting eng key db =
     bindR (exec eng (SSelectSetting key)) (\<lambda>_. Inr (fmlookup (db_settings db) key))"

definition Settings :: "Engine \<Rightarrow> Db \<Rightarrow> (string, string) fmap res" where
  "Settings eng db = bindR (exec eng SSelectSettings) (\<lambda>_. Inr (db_settings db))"

text \<open>
  A \<open>range\<close> loop over a map of settings: \<open>order\<close> is the order in which Go visits the keys. The
  first loop upserts, the second one inserts into a table that was emptied.
\<close>

fun upsertSettingsTx :: "Engine \<Rightarrow> (string, string) fmap \<Rightarrow> string list \<Rightarrow> Db \<Rightarrow> Db res" where
  "upsertSettingsTx eng m [] db = Inr db"
| "upsertSettingsTx eng m (k # ks) db =
     (case fmlookup m k of
        None \<Rightarrow> upsertSettingsTx eng m ks db
      | Some v \<Rightarrow>
          if k = [] then upsertSettingsTx eng m ks db
          else bindR (exec eng (SUpsertSetting k)) (\<lambda>_.
                 upsertSettingsTx eng m ks (db\<lparr>db_settings := fmupd k v (db_settings db)\<rparr>)))"

fun insertSettingsTx :: "Engine \<Rightarrow> (string, string) fmap \<Rightarrow> string list \<Rightarrow> Db \<Rightarrow> Db res" where
  "insertSettingsTx eng m [] db = Inr db"
| "insertSettingsTx eng m (k # ks) db =
     (case fmlookup m k of
        None \<Rightarrow> insertSettingsTx eng m ks db
      | Some v \<Rightarrow>
          if k = [] then insertSettingsTx eng m ks db
          else bindR (exec eng (SInsertSetting k)) (\<lambda>_.
                 if fmlookup (db_settings db) k \<noteq> None then Inl (ErrNew ''constraint failed'')
                 else insertSettingsTx eng m ks (db\<lparr>db_settings := fmupd k v (db_settings db)\<rparr>)))"

definition deleteSettings :: "Engine \<Rightarrow> Db \<Rightarrow> Db res" where
  "deleteSettings eng db = bindR (exec eng SDeleteSettings) (\<lambda>_. Inr (db\<lparr>db_settings := fmempty\<rparr>))"

section \<open>Panel settings together with the administrator\<close>

text \<open>The second half of \<open>ApplySettings\<close>: a changed password, or a renamed administrator.\<close>

definition applyAdminTx :: "Engine \<Rightarrow> int \<Rightarrow> string \<Rightarrow> string \<Rightarrow> string \<Rightarrow> Db \<Rightarrow> Db res" where
  "applyAdminTx eng now oldUsername newUsername passwordHash db =
     (if oldUsername = [] then Inr db
      else bindR (guardR (\<not> (newUsername = [] \<or> passwordHash = []))
                    (ErrNew ''admin username and password hash are required'')) (\<lambda>_.
        bindR (exec eng (SCountAdmin oldUsername)) (\<lambda>_.
          case fmlookup (db_admins db) oldUsername of
            None \<Rightarrow> Inl (ErrNew ''admin not found'')
          | Some r \<Rightarrow>
              if oldUsername \<noteq> newUsername then
                bindR (exec eng (SCountAdmin newUsername)) (\<lambda>_.
                bindR (guardR (fmlookup (db_admins db) newUsername = None)
                        (ErrNew ''admin username already exists'')) (\<lambda>_.
                bindR (exec eng (SDeleteAdmin oldUsername)) (\<lambda>_.
                insertAdmin eng now \<lparr>adm_Username = newUsername, adm_PasswordHash = passwordHash\<rparr>
                  (db\<lparr>db_admins := fmdrop oldUsername (db_admins db)\<rparr>))))
              else
                bindR (exec eng (SUpdateAdmin oldUsername)) (\<lambda>_.
                Inr (db\<lparr>db_admins := fmupd oldUsername
                          (r\<lparr>row_hash := passwordHash, row_updated := now\<rparr>) (db_admins db)\<rparr>)))))"

definition ApplySettings ::
    "Engine \<Rightarrow> int \<Rightarrow> (string, string) fmap \<Rightarrow> string list \<Rightarrow> string \<Rightarrow> string \<Rightarrow> string \<Rightarrow> Db
      \<Rightarrow> unit res \<times> Db" where
  "ApplySettings eng now vals order oldUsername newUsername passwordHash =
     transaction eng (\<lambda>db.
       bindR (upsertSettingsTx eng vals order db)
         (applyAdminTx eng now oldUsername newUsername passwordHash))"

section \<open>Snapshots\<close>

record Snapshot =
  sn_Version :: int
  sn_CreatedAt :: int
  sn_Accounts :: "Account list"
  sn_Admins :: "Admin list"
  sn_Settings :: "(string, string) fmap"

definition takeSnapshot :: "Engine \<Rightarrow> int \<Rightarrow> Db \<Rightarrow> Snapshot res" where
  "takeSnapshot eng now db =
     bindR (Accounts eng db) (\<lambda>accounts.
     bindR (Admins eng db) (\<lambda>admins.
     bindR (Settings eng db) (\<lambda>settings.
     Inr \<lparr>sn_Version = 1, sn_CreatedAt = now, sn_Accounts = accounts, sn_Admins = admins,
          sn_Settings = settings\<rparr>)))"

definition ReplaceSnapshot :: "Engine \<Rightarrow> int \<Rightarrow> string list \<Rightarrow> Snapshot \<Rightarrow> Db \<Rightarrow> unit res \<times> Db" where
  "ReplaceSnapshot eng now order snapshot db =
     (if sn_Admins snapshot = [] then (Inl (ErrNew ''snapshot has no administrator''), db)
      else transaction eng (\<lambda>db.
             bindR (deleteAccounts eng db) (\<lambda>db.
             bindR (insertAccountsTx eng now (sn_Accounts snapshot) db) (\<lambda>db.
             bindR (deleteAdmins eng db) (\<lambda>db.
             bindR (insertAdminsTx eng now (ErrNew ''snapshot contains invalid administrator'')
                      (\<lambda>a e. e) (sn_Admins snapshot) db) (\<lambda>db.
             bindR (deleteSettings eng db) (insertSettingsTx eng (sn_Settings snapshot) order)))))) db)"

section \<open>A setting with a fallback\<close>

text \<open>\<open>settingString\<close> of \<open>internal/server/operations.go\<close>: errors count as absent.\<close>

definition settingString :: "Engine \<Rightarrow> string \<Rightarrow> string \<Rightarrow> Db \<Rightarrow> string" where
  "settingString eng key fallback db =
     (case Setting eng key db of Inl e \<Rightarrow> fallback | Inr None \<Rightarrow> fallback | Inr (Some v) \<Rightarrow> v)"

end
