(* ===== verification/FirewallPending.thy ===== *)
theory FirewallPending
  imports FirewallHelper Store
begin

text \<open>
  Firewall changes that wait for a confirmation (\<open>internal/server/firewall_pending.go\<close>,
  \<open>firewall_audit.go\<close>). A change that can cut the administrator off is made
  together with a timer that undoes it; the entry in the settings table ties the change, the timer
  and a token together until the browser confirms.

  The settings table is the one of \<open>Store\<close>, with an engine for each statement of a request. The
  JSON texts in it are written and read by a \<open>Codec\<close>.
\<close>

section \<open>Entries\<close>

record firewallPending =
  p_ID :: string
  p_Token :: string
  p_Unit :: string
  p_Deadline :: int
  p_Kind :: string
  p_Rule :: Rule
  p_Destination :: Rule

record firewallAuditEntry =
  e_Time :: int
  e_Action :: string
  e_Rule :: string

record Codec =
  enc_pending :: "firewallPending \<Rightarrow> string"
  dec_pending :: "string \<Rightarrow> firewallPending option"
  enc_rule :: "Rule \<Rightarrow> string"
  dec_rule :: "string \<Rightarrow> Rule option"
  enc_audit :: "firewallAuditEntry list \<Rightarrow> string"
  dec_audit :: "string \<Rightarrow> firewallAuditEntry list"

definition firewallPendingKey :: "string \<Rightarrow> string" where
  "firewallPendingKey i = ''firewall_pending:'' @ i"

definition firewallPausedKey :: "string \<Rightarrow> string" where
  "firewallPausedKey i = ''firewall_paused:'' @ i"

text \<open>\<open>rand\<close> is the result of \<open>rand.Read\<close> on 16 bytes.\<close>

definition newFirewallToken :: "nat list res \<Rightarrow> string res" where
  "newFirewallToken rand = bindR rand (\<lambda>bs. Inr (hex_encode bs))"

definition save_entry :: "Codec \<Rightarrow> Engine \<Rightarrow> firewallPending \<Rightarrow> Db \<Rightarrow> firewallPending res \<times> Db" where
  "save_entry c eng entry db =
     (let (r, db') = SetSetting eng (firewallPendingKey (p_ID entry)) (enc_pending c entry) db
      in (bindR r (\<lambda>_. Inr entry), db'))"

definition firewallPendingSaveKind ::
  "Codec \<Rightarrow> Engine \<Rightarrow> nat list res \<Rightarrow> string \<Rightarrow> string \<Rightarrow> int \<Rightarrow> string \<Rightarrow> Rule \<Rightarrow> Db \<Rightarrow> firewallPending res \<times> Db" where
  "firewallPendingSaveKind c eng rand i unit deadline kind rule db =
     (case newFirewallToken rand of
        Inl e \<Rightarrow> (Inl e, db)
      | Inr token \<Rightarrow>
          if i = [] \<or> unit = [] \<or> deadline \<le> 0 then (Inl (ErrNew ''invalid pending firewall action''), db)
          else save_entry c eng \<lparr>p_ID = i, p_Token = token, p_Unit = unit, p_Deadline = deadline,
                 p_Kind = kind, p_Rule = rule, p_Destination = zero_Rule\<rparr> db)"

definition firewallPendingSave ::
  "Codec \<Rightarrow> Engine \<Rightarrow> nat list res \<Rightarrow> string \<Rightarrow> string \<Rightarrow> int \<Rightarrow> Db \<Rightarrow> firewallPending res \<times> Db" where
  "firewallPendingSave c eng rand i unit deadline =
     firewallPendingSaveKind c eng rand i unit deadline ''remove-allow'' zero_Rule"

definition firewallPendingExternalEdit ::
  "Codec \<Rightarrow> Engine \<Rightarrow> nat list res \<Rightarrow> Rule \<Rightarrow> Rule \<Rightarrow> string \<Rightarrow> int \<Rightarrow> Db \<Rightarrow> firewallPending res \<times> Db" where
  "firewallPendingExternalEdit c eng rand source destination unit deadline db =
     (case newFirewallToken rand of
        Inl e \<Rightarrow> (Inl e, db)
      | Inr token \<Rightarrow>
          if r_ID source = [] \<or> r_ID destination = [] \<or> unit = [] \<or> deadline \<le> 0
          then (Inl (ErrNew ''invalid external edit recovery state''), db)
          else save_entry c eng \<lparr>p_ID = r_ID source, p_Token = token, p_Unit = unit, p_Deadline = deadline,
                 p_Kind = ''edit-external'', p_Rule = source, p_Destination = destination\<rparr> db)"

text \<open>\<open>keys\<close> is the order in which \<open>range\<close> visits the settings.\<close>

definition pendingFromSettings :: "Codec \<Rightarrow> (string, string) fmap \<Rightarrow> string list \<Rightarrow> firewallPending list" where
  "pendingFromSettings c settings keys =
     concat (map (\<lambda>key.
       case fmlookup settings key of
         None \<Rightarrow> []
       | Some v \<Rightarrow>
           if \<not> has_prefix key ''firewall_pending:'' \<or> v = [] then []
           else (case dec_pending c v of
                   None \<Rightarrow> [] | Some p \<Rightarrow> if p_ID p = [] \<or> p_Unit p = [] then [] else [p])) keys)"

definition setting_text :: "string option \<Rightarrow> string" where
  "setting_text v = (case v of None \<Rightarrow> [] | Some s \<Rightarrow> s)"

definition ensureNoPending :: "Codec \<Rightarrow> Engine \<Rightarrow> int \<Rightarrow> string \<Rightarrow> Db \<Rightarrow> unit res" where
  "ensureNoPending c eng now i db =
     bindR (Setting eng (firewallPendingKey i) db) (\<lambda>v.
       let raw = setting_text v in
       if raw \<noteq> [] \<and> (case dec_pending c raw of None \<Rightarrow> False | Some p \<Rightarrow> p_Deadline p > now)
       then Inl (ErrNew ''rule has a pending removal confirmation'') else Inr ())"

text \<open>The audit tail keeps the last hundred events; its errors are dropped.\<close>

definition firewallAudit :: "Codec \<Rightarrow> (nat \<Rightarrow> Engine) \<Rightarrow> int \<Rightarrow> string \<Rightarrow> string \<Rightarrow> Db \<Rightarrow> Db" where
  "firewallAudit c eng now action rule db =
     (case Setting (eng 0) ''firewall_audit'' db of
        Inl e \<Rightarrow> db
      | Inr v \<Rightarrow>
          (let raw = setting_text v;
               old = (if raw = [] then [] else dec_audit c raw);
               events = old @ [\<lparr>e_Time = now, e_Action = action, e_Rule = rule\<rparr>];
               tail = (if length events > 100 then drop (length events - 100) events else events)
           in snd (SetSetting (eng 1) ''firewall_audit'' (enc_audit c tail) db)))"

section \<open>Confirmation\<close>

definition edit_header :: "firewallPending \<Rightarrow> bool" where
  "edit_header p \<longleftrightarrow>
     (let old = p_Rule p; new = p_Destination p in
      r_ID old = p_ID p \<and> r_ID new \<noteq> [] \<and> r_Kind old = ''port'' \<and> r_Kind new = ''port'' \<and>
      r_Action old = ''allow'' \<and> r_Action new = ''allow'' \<and> r_Backend old = ''firewalld'' \<and>
      r_Backend new = ''firewalld'' \<and> r_Zone old = r_Zone new \<and> r_Zone old \<noteq> [] \<and> r_ID old \<noteq> r_ID new)"

definition same_target :: "Rule \<Rightarrow> Rule \<Rightarrow> bool" where
  "same_target a b \<longleftrightarrow> r_Zone a = r_Zone b \<and> r_Port a = r_Port b \<and> r_Protocol a = r_Protocol b"

definition edit_item_ok :: "firewallPending \<Rightarrow> Rule \<Rightarrow> bool" where
  "edit_item_ok p item \<longleftrightarrow>
     (let old = p_Rule p; new = p_Destination p in
      r_ID item \<noteq> r_ID old \<and>
      (if r_ID item = r_ID new
       then r_Kind item = ''port'' \<and> r_Action item = ''allow'' \<and> r_Runtime item \<and> r_Permanent item \<and>
            \<not> r_Conflict item
       else True) \<and>
      \<not> (same_target item old \<and> r_ID item \<noteq> r_ID old) \<and> \<not> (same_target item new \<and> r_ID item \<noteq> r_ID new))"

definition plain_item_ok :: "firewallPending \<Rightarrow> Rule \<Rightarrow> bool" where
  "plain_item_ok p rule \<longleftrightarrow>
     (if r_ID rule \<noteq> p_ID p then \<not> (r_Port (p_Rule p) > 0 \<and> same_target rule (p_Rule p))
      else \<not> (p_Kind p = ''add-drop'' \<and> \<not> own_drop rule))"

text \<open>The function \<open>correct\<close> of the handler.\<close>

definition expected_state :: "firewallPending \<Rightarrow> FirewallInspect.Snapshot \<Rightarrow> bool" where
  "expected_state p snap \<longleftrightarrow>
     (if p_Kind p = ''edit-external''
      then edit_header p \<and> list_all (edit_item_ok p) (sn_Rules snap) \<and>
           list_ex (\<lambda>item. r_ID item = r_ID (p_Destination p)) (sn_Rules snap)
      else list_all (plain_item_ok p) (sn_Rules snap) \<and>
           list_ex (\<lambda>rule. r_ID rule = p_ID p) (sn_Rules snap) = (p_Kind p = ''add-drop''))"

datatype reply = WriteErr int err | WriteOk | Accepted firewallPending

abbreviation WriteError :: "int \<Rightarrow> string \<Rightarrow> reply" where
  "WriteError code msg \<equiv> WriteErr code (ErrNew msg)"

definition confirm_kinds :: "string list" where
  "confirm_kinds =
     [[], ''remove-allow'', ''add-drop'', ''remove-drop'', ''pause-allow'', ''pause-drop'', ''edit-external'']"

definition paused_snapshot_ok :: "firewallPending \<Rightarrow> bool" where
  "paused_snapshot_ok p \<longleftrightarrow>
     r_ID (p_Rule p) = p_ID p \<and>
     \<not> (p_Kind p = ''pause-allow'' \<and> (r_Kind (p_Rule p) \<noteq> ''port'' \<or> r_Action (p_Rule p) \<noteq> ''allow'')) \<and>
     \<not> (p_Kind p = ''pause-drop'' \<and>
        (r_Kind (p_Rule p) \<noteq> ''rich'' \<or> r_Action (p_Rule p) \<noteq> ''deny'' \<or> r_Family (p_Rule p) \<noteq> ''both''))"

text \<open>The setting that is written before the timer is stopped.\<close>

definition staged :: "Codec \<Rightarrow> firewallPending \<Rightarrow> (string \<times> string) option res" where
  "staged c p =
     (if p_Kind p = ''pause-allow'' \<or> p_Kind p = ''pause-drop'' then
        (if \<not> paused_snapshot_ok p then Inl (ErrNew ''invalid paused rule snapshot'')
         else Inr (Some (firewallPausedKey (p_ID p), enc_rule c (p_Rule p))))
      else if p_Kind p = ''add-drop'' then Inr (Some (''firewall_owned:'' @ p_ID p, ''v1''))
      else Inr None)"

definition stage :: "Engine \<Rightarrow> (string \<times> string) option \<Rightarrow> Db \<Rightarrow> unit res \<times> Db" where
  "stage eng st db = (case st of None \<Rightarrow> (Inr (), db) | Some (k, v) \<Rightarrow> SetSetting eng k v db)"

definition unstage :: "Engine \<Rightarrow> (string \<times> string) option \<Rightarrow> Db \<Rightarrow> Db" where
  "unstage eng st db = (case st of None \<Rightarrow> db | Some (k, v) \<Rightarrow> snd (SetSetting eng k [] db))"

text \<open>Clearing settings one after the other, and moving the two annotations of a rule.\<close>

fun clear_settings :: "(nat \<Rightarrow> Engine) \<Rightarrow> nat \<Rightarrow> string list \<Rightarrow> Db \<Rightarrow> bool \<times> Db" where
  "clear_settings eng n [] db = (True, db)"
| "clear_settings eng n (k # ks) db =
     (case SetSetting (eng n) k [] db of
        (Inl e, db') \<Rightarrow> (False, db')
      | (Inr _, db') \<Rightarrow> clear_settings eng (Suc n) ks db')"

definition move_setting :: "(nat \<Rightarrow> Engine) \<Rightarrow> string \<Rightarrow> string \<Rightarrow> Db \<Rightarrow> string option \<times> Db" where
  "move_setting eng from dest db =
     (case Setting (eng 0) from db of
        Inl e \<Rightarrow> (Some ''cannot read rule annotation'', db)
      | Inr v \<Rightarrow>
          if setting_text v = [] then (None, db)
          else (case SetSetting (eng 1) dest (setting_text v) db of
                  (Inl e, db1) \<Rightarrow> (Some ''cannot migrate rule annotation'', db1)
                | (Inr _, db1) \<Rightarrow>
                    (case SetSetting (eng 2) from [] db1 of
                       (Inl e, db2) \<Rightarrow> (Some ''cannot clean original annotation'', db2)
                     | (Inr _, db2) \<Rightarrow> (None, db2))))"

definition from_step :: "nat \<Rightarrow> (nat \<Rightarrow> Engine) \<Rightarrow> nat \<Rightarrow> Engine" where
  "from_step n eng i = eng (n + i)"

definition finish_edit :: "Codec \<Rightarrow> (nat \<Rightarrow> Engine) \<Rightarrow> int \<Rightarrow> firewallPending \<Rightarrow> Db \<Rightarrow> reply \<times> Db" where
  "finish_edit c eng now p db =
     (case move_setting eng (''firewall_note:'' @ p_ID p) (''firewall_note:'' @ r_ID (p_Destination p)) db of
        (Some msg, db1) \<Rightarrow> (WriteError 500 msg, db1)
      | (None, db1) \<Rightarrow>
          (case move_setting (from_step 3 eng) (''firewall_purpose:'' @ p_ID p)
                  (''firewall_purpose:'' @ r_ID (p_Destination p)) db1 of
             (Some msg, db2) \<Rightarrow> (WriteError 500 msg, db2)
           | (None, db2) \<Rightarrow>
               (case SetSetting (eng 6) (firewallPendingKey (p_ID p)) [] db2 of
                  (Inl e, db3) \<Rightarrow> (WriteError 500 ''could not clear pending external edit'', db3)
                | (Inr _, db3) \<Rightarrow>
                    (WriteOk, firewallAudit c (from_step 7 eng) now ''edit-external'' (p_ID p) db3))))"

definition finish_kept :: "Codec \<Rightarrow> (nat \<Rightarrow> Engine) \<Rightarrow> int \<Rightarrow> firewallPending \<Rightarrow> Db \<Rightarrow> reply \<times> Db" where
  "finish_kept c eng now p db =
     (case SetSetting (eng 0) (firewallPendingKey (p_ID p)) [] db of
        (Inl e, db') \<Rightarrow> (WriteError 500 ''could not clear pending state'', db')
      | (Inr _, db') \<Rightarrow> (WriteOk, firewallAudit c (from_step 1 eng) now (p_Kind p) (p_ID p) db'))"

definition finish_removed :: "Codec \<Rightarrow> (nat \<Rightarrow> Engine) \<Rightarrow> int \<Rightarrow> firewallPending \<Rightarrow> Db \<Rightarrow> reply \<times> Db" where
  "finish_removed c eng now p db =
     (case clear_settings eng 0 (map (\<lambda>prefix. prefix @ p_ID p)
             [''firewall_owned:'', ''firewall_note:'', ''firewall_purpose:'', ''firewall_pending:'',
              ''firewall_paused:'']) db of
        (False, db') \<Rightarrow> (WriteError 500 ''recovery cancelled but metadata cleanup failed'', db')
      | (True, db') \<Rightarrow> (WriteOk, firewallAudit c (from_step 5 eng) now ''remove'' (p_ID p) db'))"

definition finish_confirm :: "Codec \<Rightarrow> (nat \<Rightarrow> Engine) \<Rightarrow> int \<Rightarrow> firewallPending \<Rightarrow> Db \<Rightarrow> reply \<times> Db" where
  "finish_confirm c eng now p db =
     (if p_Kind p = ''edit-external'' then finish_edit c eng now p db
      else if p_Kind p \<in> {''add-drop'', ''pause-allow'', ''pause-drop''} then finish_kept c eng now p db
      else if p_Kind p \<in> {[], ''remove-allow'', ''remove-drop''} then finish_removed c eng now p db
      else (WriteError 409 ''unrecognized pending action'', db))"

text \<open>From the inspection on, with the entry that was found.\<close>

definition confirm_entry ::
  "Codec \<Rightarrow> 'h Timers \<Rightarrow> 'h Tools \<Rightarrow> (nat \<Rightarrow> Engine) \<Rightarrow> int \<Rightarrow> firewallPending \<Rightarrow> Db \<Rightarrow> 'h \<Rightarrow> reply \<times> Db \<times> 'h" where
  "confirm_entry c tm t eng now p db h =
     (case InspectFirewall tm t h of
        Inl e \<Rightarrow> (WriteError 502 ''cannot verify firewall before confirmation'', db, h)
      | Inr snap \<Rightarrow>
          if \<not> expected_state p snap
            then (WriteError 409 ''rule state changed; confirmation rejected'', db, h)
          else (case staged c p of
            Inl e \<Rightarrow> (WriteError 409 ''invalid paused rule snapshot'', db, h)
          | Inr st \<Rightarrow>
              (case stage (eng 1) st db of
                 (Inl e, db1) \<Rightarrow>
                   (WriteError 500 ''cannot persist confirmation; recovery remains armed'', db1, h)
               | (Inr _, db1) \<Rightarrow>
                   (case CancelFirewallRestore tm (p_Unit p) h of
                      (Inl e, h1) \<Rightarrow> (WriteErr 409 e, unstage (eng 2) st db1, h1)
                    | (Inr _, h1) \<Rightarrow>
                        (case InspectFirewall tm t h1 of
                           Inl e \<Rightarrow>
                             (WriteError 502 ''recovery cancelled, but final rule state could not be verified'', db1, h1)
                         | Inr verified \<Rightarrow>
                             if \<not> expected_state p verified
                             then (WriteError 409 ''rule changed during confirmation; refresh before retrying'', db1, h1)
                             else (let (r, db2) = finish_confirm c (from_step 3 eng) now p db1
                                   in (r, db2, h1)))))))"

definition firewallRuleConfirm ::
  "Codec \<Rightarrow> 'h Timers \<Rightarrow> 'h Tools \<Rightarrow> (nat \<Rightarrow> Engine) \<Rightarrow> int \<Rightarrow> string \<Rightarrow> string \<Rightarrow> Db \<Rightarrow> 'h \<Rightarrow> reply \<times> Db \<times> 'h" where
  "firewallRuleConfirm c tm t eng now i token db h =
     (if length i > 140 \<or> length token \<noteq> 32 then (WriteError 400 ''invalid confirmation'', db, h)
      else case Setting (eng 0) (firewallPendingKey i) db of
        Inl e \<Rightarrow> (WriteError 500 ''could not read pending action'', db, h)
      | Inr v \<Rightarrow>
          if setting_text v = [] then (WriteError 404 ''pending action not found'', db, h)
          else (case dec_pending c (setting_text v) of
            None \<Rightarrow> (WriteError 403 ''invalid pending action token'', db, h)
          | Some p \<Rightarrow>
              if p_ID p \<noteq> i \<or> p_Token p \<noteq> token
                then (WriteError 403 ''invalid pending action token'', db, h)
              else if p_Kind p \<notin> set confirm_kinds
                then (WriteError 409 ''unrecognized pending action'', db, h)
              else if now \<ge> p_Deadline p
                then (WriteError 409 ''confirmation expired; automatic restoration may have started'', db, h)
              else confirm_entry c tm t eng now p db h))"

section \<open>Facts\<close>

lemma SetSetting_ok: "SetSetting eng k v db = (Inr u, db') \<Longrightarrow> k \<noteq> [] \<and> db' = db\<lparr>db_settings := fmupd k v (db_settings db)\<rparr>"
  by (auto simp: SetSetting_def split: if_split_asm sum.split_asm)

lemma SetSetting_fails: "SetSetting eng k v db = (Inl e, db') \<Longrightarrow> db' = db"
  by (auto simp: SetSetting_def split: if_split_asm sum.split_asm)

lemma SetSetting_other: "k' \<noteq> k \<Longrightarrow> fmlookup (db_settings (snd (SetSetting eng k v db))) k' = fmlookup (db_settings db) k'"
  by (simp add: SetSetting_def split: sum.split)

abbreviation look :: "Db \<Rightarrow> string \<Rightarrow> string option" where
  "look db k \<equiv> fmlookup (db_settings db) k"

lemma audit_other: "k \<noteq> ''firewall_audit'' \<Longrightarrow> look (firewallAudit c eng now action rule db) k = look db k"
  by (simp add: firewallAudit_def SetSetting_other Let_def split: sum.split)

lemma clear_settings_facts:
  "clear_settings eng n ks db = (ok, db') \<Longrightarrow>
     (ok \<longrightarrow> (\<forall>k \<in> set ks. look db' k = Some [])) \<and> (\<forall>k. k \<notin> set ks \<longrightarrow> look db' k = look db k) \<and>
     (\<forall>k. look db k = Some [] \<longrightarrow> look db' k = Some [])"
proof (induction ks arbitrary: n db)
  case (Cons k ks)
  obtain r db1 where s: "SetSetting (eng n) k [] db = (r, db1)" by (cases "SetSetting (eng n) k [] db")
  show ?case
  proof (cases r)
    case (Inl e)
    then show ?thesis using Cons.prems s SetSetting_fails by fastforce
  next
    case (Inr u)
    with s have db1: "db1 = db\<lparr>db_settings := fmupd k [] (db_settings db)\<rparr>" using SetSetting_ok by blast
    from Cons.prems s Inr have "clear_settings eng (Suc n) ks db1 = (ok, db')" by simp
    note ih = Cons.IH [OF this]
    have "look db1 k = Some []" by (simp add: db1)
    with ih have "look db' k = Some []" by blast
    with ih show ?thesis by (auto simp: db1 split: if_split_asm)
  qed
qed simp

lemma SetSetting_keeps: "SetSetting eng k v db = (r, db') \<Longrightarrow> k' \<noteq> k \<Longrightarrow> look db' k' = look db k'"
  using SetSetting_other [of k' k eng v db] by simp

lemma move_setting_other:
  assumes "move_setting eng from dest db = (r, db')" "k \<noteq> from" "k \<noteq> dest"
  shows "look db' k = look db k"
  using assms(1) unfolding move_setting_def
  by (auto dest!: SetSetting_keeps [where k' = k] simp: assms(2,3) split: sum.split_asm if_split_asm prod.split_asm)

lemma move_setting_done:
  assumes "move_setting eng from dest db = (None, db')" "from \<noteq> dest"
  shows "setting_text (look db' from) = [] \<and> (setting_text (look db from) \<noteq> [] \<longrightarrow> look db' dest = look db from)"
  using assms
  by (auto simp: move_setting_def Setting_def bindR_eq_Inr setting_text_def dest!: SetSetting_ok
      split: sum.split_asm if_split_asm prod.split_asm option.split_asm)

definition confirmed_settings :: "Codec \<Rightarrow> firewallPending \<Rightarrow> Db \<Rightarrow> Db \<Rightarrow> bool" where
  "confirmed_settings c p db db' \<longleftrightarrow>
     look db' (firewallPendingKey (p_ID p)) = Some [] \<and>
     (p_Kind p \<in> {''pause-allow'', ''pause-drop''} \<longrightarrow> look db' (firewallPausedKey (p_ID p)) = Some (enc_rule c (p_Rule p))) \<and>
     (p_Kind p = ''add-drop'' \<longrightarrow> look db' (''firewall_owned:'' @ p_ID p) = Some ''v1'') \<and>
     (p_Kind p \<in> {[], ''remove-allow'', ''remove-drop''} \<longrightarrow>
        (\<forall>prefix \<in> {''firewall_owned:'', ''firewall_note:'', ''firewall_purpose:'', ''firewall_paused:''}.
           look db' (prefix @ p_ID p) = Some [])) \<and>
     (p_Kind p = ''edit-external'' \<longrightarrow>
        (\<forall>prefix \<in> {''firewall_note:'', ''firewall_purpose:''}.
           setting_text (look db' (prefix @ p_ID p)) = [] \<and>
           (setting_text (look db (prefix @ p_ID p)) \<noteq> [] \<longrightarrow>
              look db' (prefix @ r_ID (p_Destination p)) = look db (prefix @ p_ID p))))"

lemma finish_edit_ok:
  assumes "finish_edit c eng now p db = (WriteOk, db')" "p_ID p \<noteq> r_ID (p_Destination p)"
  shows "look db' (firewallPendingKey (p_ID p)) = Some [] \<and>
    (\<forall>prefix \<in> {''firewall_note:'', ''firewall_purpose:''}.
       setting_text (look db' (prefix @ p_ID p)) = [] \<and>
       (setting_text (look db (prefix @ p_ID p)) \<noteq> [] \<longrightarrow>
          look db' (prefix @ r_ID (p_Destination p)) = look db (prefix @ p_ID p)))"
proof -
  let ?n = "''firewall_note:''" and ?p = "''firewall_purpose:''" and ?old = "p_ID p" and ?new = "r_ID (p_Destination p)"
  from assms(1) obtain db1 db2 db3 u where m1: "move_setting eng (?n @ ?old) (?n @ ?new) db = (None, db1)"
    and m2: "move_setting (from_step 3 eng) (?p @ ?old) (?p @ ?new) db1 = (None, db2)"
    and s: "SetSetting (eng 6) (firewallPendingKey ?old) [] db2 = (Inr u, db3)"
    and d: "db' = firewallAudit c (from_step 7 eng) now ''edit-external'' ?old db3"
    by (auto simp: finish_edit_def split: prod.split_asm option.split_asm sum.split_asm)
  have last: "look db' (''firewall_'' @ x # y) = look db2 (''firewall_'' @ x # y)" if "x = CHR ''n'' \<or> x = CHR ''p'' \<and> y \<noteq> [] \<and> hd y = CHR ''u''" for x y
    using that SetSetting_ok [OF s] by (cases y) (auto simp: d audit_other firewallPendingKey_def)
  have k: "look db' (?n @ z) = look db1 (?n @ z)" "look db' (?p @ z) = look db2 (?p @ z)"
    "look db1 (?p @ z) = look db (?p @ z)" for z
    using last [of "CHR ''n''" "''ote:'' @ z"] last [of "CHR ''p''" "''urpose:'' @ z"]
      move_setting_other [OF m2, of "?n @ z"] move_setting_other [OF m1, of "?p @ z"] by simp_all
  have "look db' (firewallPendingKey ?old) = Some []"
    using SetSetting_ok [OF s] by (auto simp: d audit_other firewallPendingKey_def)
  with move_setting_done [OF m1] move_setting_done [OF m2] assms(2) k show ?thesis by simp
qed

lemma finish_kept_ok:
  assumes "finish_kept c eng now p db = (WriteOk, db')"
  shows "look db' (firewallPendingKey (p_ID p)) = Some [] \<and>
    look db' (firewallPausedKey (p_ID p)) = look db (firewallPausedKey (p_ID p)) \<and>
    look db' (''firewall_owned:'' @ p_ID p) = look db (''firewall_owned:'' @ p_ID p)"
  using assms
  by (auto simp: finish_kept_def audit_other firewallPendingKey_def firewallPausedKey_def dest!: SetSetting_ok
      split: prod.split_asm sum.split_asm)

lemma finish_removed_ok:
  assumes "finish_removed c eng now p db = (WriteOk, db')"
  shows "\<forall>prefix \<in> {''firewall_owned:'', ''firewall_note:'', ''firewall_purpose:'', ''firewall_pending:'', ''firewall_paused:''}.
           look db' (prefix @ p_ID p) = Some []"
proof -
  from assms obtain db1 where "clear_settings eng 0 (map (\<lambda>prefix. prefix @ p_ID p)
             [''firewall_owned:'', ''firewall_note:'', ''firewall_purpose:'', ''firewall_pending:'',
              ''firewall_paused:'']) db = (True, db1)"
    "db' = firewallAudit c (from_step 5 eng) now ''remove'' (p_ID p) db1"
    by (auto simp: finish_removed_def split: prod.split_asm bool.split_asm)
  with clear_settings_facts [OF this(1)] show ?thesis by (simp add: audit_other)
qed

lemma finish_confirm_ok:
  assumes "finish_confirm c eng now p db = (WriteOk, db')" "expected_state p snap"
    and "staged c p = Inr st" "stage eng' st db0 = (Inr u, db)"
  shows "confirmed_settings c p db0 db'"
proof -
  consider (edit) "p_Kind p = ''edit-external''" | (kept) "p_Kind p \<in> {''add-drop'', ''pause-allow'', ''pause-drop''}"
    | (removed) "p_Kind p \<in> {[], ''remove-allow'', ''remove-drop''}"
    using assms(1) by (auto simp: finish_confirm_def split: if_split_asm)
  then show ?thesis
  proof cases
    case edit
    then have "finish_edit c eng now p db = (WriteOk, db')" using assms(1) by (simp add: finish_confirm_def)
    moreover have "p_ID p \<noteq> r_ID (p_Destination p)"
      using edit assms(2) by (auto simp: expected_state_def edit_header_def Let_def)
    moreover have "db = db0" using assms(3,4) edit by (simp add: staged_def stage_def)
    ultimately show ?thesis using finish_edit_ok edit by (auto simp: confirmed_settings_def)
  next
    case kept
    then have "finish_kept c eng now p db = (WriteOk, db')" using assms(1) by (auto simp: finish_confirm_def)
    note f = finish_kept_ok [OF this]
    have "p_Kind p \<in> {''pause-allow'', ''pause-drop''} \<longrightarrow> look db (firewallPausedKey (p_ID p)) = Some (enc_rule c (p_Rule p))"
      "p_Kind p = ''add-drop'' \<longrightarrow> look db (''firewall_owned:'' @ p_ID p) = Some ''v1''"
      using assms(3,4) by (auto simp: staged_def stage_def dest!: SetSetting_ok split: if_split_asm)
    with f kept show ?thesis by (auto simp: confirmed_settings_def)
  next
    case removed
    then have "finish_removed c eng now p db = (WriteOk, db')" using assms(1) by (auto simp: finish_confirm_def)
    from finish_removed_ok [OF this] removed show ?thesis
      by (auto simp: confirmed_settings_def firewallPendingKey_def)
  qed
qed

lemma CancelFirewallRestore_cases:
  assumes "CancelFirewallRestore tm unit h = (r, h')"
  shows "(case r of
      Inr u \<Rightarrow> restoreUnit unit \<and> tm_active tm (unit @ ''.timer'') h \<and> tm_stop tm (unit @ ''.timer'') h = (Inr (), h')
    | Inl e \<Rightarrow> h' = h \<or> (\<exists>e. tm_stop tm (unit @ ''.timer'') h = (Inl e, h')))"
  using assms by (auto simp: CancelFirewallRestore_def split: if_split_asm prod.split_asm sum.split_asm)

lemma confirm_entry_ok:
  assumes "confirm_entry c tm t eng now p db h = (WriteOk, db', h')"
  shows "\<exists>snap verified. InspectFirewall tm t h = Inr snap \<and> expected_state p snap \<and> restoreUnit (p_Unit p) \<and>
    tm_active tm (p_Unit p @ ''.timer'') h \<and> tm_stop tm (p_Unit p @ ''.timer'') h = (Inr (), h') \<and>
    InspectFirewall tm t h' = Inr verified \<and> expected_state p verified \<and> confirmed_settings c p db db'"
proof -
  from assms obtain snap st u db1 v verified where
    s: "InspectFirewall tm t h = Inr snap" "expected_state p snap" "staged c p = Inr st"
       "stage (eng 1) st db = (Inr u, db1)" "CancelFirewallRestore tm (p_Unit p) h = (Inr v, h')"
       "InspectFirewall tm t h' = Inr verified" "expected_state p verified"
       "finish_confirm c (from_step 3 eng) now p db1 = (WriteOk, db')"
    by (auto simp: confirm_entry_def Let_def split: sum.split_asm if_split_asm prod.split_asm)
  show ?thesis
    using s(1,2,6,7) CancelFirewallRestore_cases [OF s(5)] finish_confirm_ok [OF s(8) s(7) s(3) s(4)] by auto
qed

lemma staged_key: "staged c p = Inr (Some (k, v)) \<Longrightarrow> k \<in> {firewallPausedKey (p_ID p), ''firewall_owned:'' @ p_ID p}"
  by (auto simp: staged_def split: if_split_asm)

lemma stage_other:
  assumes "staged c p = Inr st" "stage eng st db = (r, db1)" "k \<notin> {firewallPausedKey (p_ID p), ''firewall_owned:'' @ p_ID p}"
  shows "look db1 k = look db k" "look (unstage eng' st db1) k = look db k"
proof -
  have "st = Some (k', v) \<Longrightarrow> k \<noteq> k'" for k' v using staged_key assms(1,3) by blast
  then show "look db1 k = look db k" "look (unstage eng' st db1) k = look db k"
    using assms(2) by (auto simp: stage_def unstage_def SetSetting_other dest: SetSetting_keeps split: option.split_asm)
qed

definition still_armed :: "'h Timers \<Rightarrow> string \<Rightarrow> Db \<Rightarrow> 'h \<Rightarrow> Db \<Rightarrow> 'h \<Rightarrow> bool" where
  "still_armed tm i db h db' h' \<longleftrightarrow>
     (\<forall>k. k \<notin> {firewallPausedKey i, ''firewall_owned:'' @ i} \<longrightarrow> look db' k = look db k) \<and>
     (h' = h \<or> (\<exists>unit e. tm_stop tm unit h = (Inl e, h')))"

lemma confirm_entry_error:
  assumes "confirm_entry c tm t eng now p db h = (WriteErr code e, db', h')"
  shows "tm_stop tm (p_Unit p @ ''.timer'') h = (Inr (), h') \<or> still_armed tm (p_ID p) db h db' h'"
proof (cases "InspectFirewall tm t h")
  case (Inl e1)
  then show ?thesis using assms by (auto simp: confirm_entry_def still_armed_def)
next
  case (Inr snap)
  note i = this
  show ?thesis
  proof (cases "\<exists>st. expected_state p snap \<and> staged c p = Inr st")
    case False
    then show ?thesis using assms i by (auto simp: confirm_entry_def still_armed_def split: if_split_asm sum.split_asm)
  next
    case True
    then obtain st where st: "expected_state p snap" "staged c p = Inr st" by blast
    obtain r1 db1 where s: "stage (eng 1) st db = (r1, db1)" by (cases "stage (eng 1) st db")
    note other = stage_other [OF st(2) s]
    show ?thesis
    proof (cases r1)
      case (Inl e1)
      then show ?thesis using assms i st s other by (auto simp: confirm_entry_def still_armed_def)
    next
      case (Inr u)
      obtain r2 h1 where c: "CancelFirewallRestore tm (p_Unit p) h = (r2, h1)" by (cases "CancelFirewallRestore tm (p_Unit p) h")
      show ?thesis
      proof (cases r2)
        case (Inl e2)
        then have "db' = unstage (eng 2) st db1" "h' = h1" using assms i st s Inr c by (auto simp: confirm_entry_def)
        then show ?thesis using other CancelFirewallRestore_cases [OF c] Inl by (auto simp: still_armed_def)
      next
        case (Inr v)
        then have "h' = h1" using assms i st s \<open>r1 = Inr u\<close> c
          by (auto simp: confirm_entry_def Let_def split: sum.split_asm if_split_asm prod.split_asm)
        then show ?thesis using CancelFirewallRestore_cases [OF c] Inr by simp
      qed
    qed
  qed
qed

lemma firewallRuleConfirm_cases:
  assumes "firewallRuleConfirm c tm t eng now i token db h = (reply, db', h')"
  shows "(\<exists>code e. reply = WriteErr code e) \<and> db' = db \<and> h' = h \<or>
    (\<exists>raw p. look db (firewallPendingKey i) = Some raw \<and> dec_pending c raw = Some p \<and> p_ID p = i \<and>
       p_Token p = token \<and> now < p_Deadline p \<and> confirm_entry c tm t eng now p db h = (reply, db', h'))"
proof -
  have some_text: "setting_text v \<noteq> [] \<Longrightarrow> v = Some (setting_text v)" for v by (cases v) (simp_all add: setting_text_def)
  show ?thesis
    using assms unfolding firewallRuleConfirm_def Setting_def
    by (auto split: if_split_asm sum.split_asm option.split_asm dest: some_text)
qed

section \<open>Properties\<close>

definition sample_id :: string where
  "sample_id = ''firewalld:public:80/tcp''"

definition sample_entry :: firewallPending where
  "sample_entry =
     \<lparr>p_ID = sample_id, p_Token = ''00000000000000000000000000000000'',
      p_Unit = ''xport-fw-restore-000000000000000000000000'', p_Deadline = 200, p_Kind = ''remove-allow'',
      p_Rule = zero_Rule, p_Destination = zero_Rule\<rparr>"

definition sample_codec :: Codec where
  "sample_codec = \<lparr>enc_pending = (\<lambda>_. ''{}''), dec_pending = (\<lambda>_. Some sample_entry), enc_rule = (\<lambda>_. ''{}''), dec_rule = (\<lambda>_. None),
     enc_audit = (\<lambda>_. ''[]''), dec_audit = (\<lambda>_. [])\<rparr>"

definition sample_sources :: "(bool \<times> bool) Sources" where
  "sample_sources =
     \<lparr>so_units = (\<lambda>_ _. Inr []), so_file = (\<lambda>_ _. None), so_docker_socket = (\<lambda>_. False),
      so_docker = (\<lambda>_ _. Inr []), so_members = (\<lambda>_. []), so_processes = (\<lambda>ps. ps), so_published = (\<lambda>ps. ps)\<rparr>"

definition sample_timers :: "(bool \<times> bool) Timers" where
  "sample_timers =
     \<lparr>tm_helper = (\<lambda>_. None), tm_after = (\<lambda>_. None), tm_active = (\<lambda>_ _. True),
      tm_stop = (\<lambda>_ h. (Inr (), h)), tm_look = (\<lambda>name. Inr (''/usr/bin/'' @ name)),
      tm_run = (\<lambda>_ h. (Inr (), h)), tm_sources = sample_sources\<rparr>"

definition sound_engine :: Engine where
  "sound_engine = \<lparr>fault = (\<lambda>_. None), sql_add = add64\<rparr>"

definition sample_db :: Db where
  "sample_db = \<lparr>db_rows = [], db_seq = 0, db_admins = fmempty,
     db_settings = fmupd (firewallPendingKey sample_id) ''{}'' fmempty\<rparr>"

lemma sample_confirm_entry:
  "\<exists>db'. confirm_entry sample_codec sample_timers sample_ports (\<lambda>_. sound_engine) 100 sample_entry db (False, False) =
     (WriteOk, db', (False, False))"
proof -
  have i: "InspectFirewall sample_timers sample_ports (False, False) =
     Inr ((first_snapshot sample_ports (True, False))\<lparr>sn_Writable := True, sn_DefaultZone := ''public'',
       sn_Zones := [''public''], sn_Services := fmupd ''public'' [] fmempty\<rparr>)"
    by (simp add: InspectFirewall_def ask_helper_def run_helper_def sample_timers_def sample_inspect)
  have u: "restoreUnit (p_Unit sample_entry)" by code_simp
  have c: "CancelFirewallRestore sample_timers (p_Unit sample_entry) (False, False) = (Inr (), (False, False))"
    using u by (simp add: CancelFirewallRestore_def sample_timers_def)
  have st: "staged sample_codec sample_entry = Inr None" by (simp add: staged_def sample_entry_def)
  have set: "SetSetting sound_engine k v db = (Inr (), db\<lparr>db_settings := fmupd k v (db_settings db)\<rparr>)" if "k \<noteq> []" for k v db
    using that by (simp add: SetSetting_def sound_engine_def)
  have f: "\<exists>db'. finish_confirm sample_codec (from_step 3 (\<lambda>_. sound_engine)) 100 sample_entry db = (WriteOk, db')" for db
    by (simp add: finish_confirm_def sample_entry_def finish_removed_def from_step_def set)
  have e: "expected_state sample_entry ((first_snapshot sample_ports (True, False))\<lparr>sn_Writable := True, sn_DefaultZone := ''public'',
       sn_Zones := [''public''], sn_Services := fmupd ''public'' [] fmempty\<rparr>)"
    by (simp add: expected_state_def first_snapshot_def sample_entry_def)
  show ?thesis using f [of db] by (auto simp: confirm_entry_def i e st stage_def c Let_def)
qed

lemma sample_reaches:
  "firewallRuleConfirm sample_codec sample_timers sample_ports (\<lambda>_. sound_engine) now sample_id
     (p_Token sample_entry) sample_db h =
   (if 200 \<le> now then (WriteError 409 ''confirmation expired; automatic restoration may have started'', sample_db, h)
    else confirm_entry sample_codec sample_timers sample_ports (\<lambda>_. sound_engine) now sample_entry sample_db h)"
proof -
  have s: "Setting sound_engine (firewallPendingKey sample_id) sample_db = Inr (Some ''{}'')"
    by (simp add: Setting_def exec_def sound_engine_def sample_db_def)
  have d: "dec_pending sample_codec x = Some sample_entry" for x by (simp add: sample_codec_def)
  have v: "p_ID sample_entry = sample_id" "p_Deadline sample_entry = 200" "p_Kind sample_entry = ''remove-allow''"
    "\<not> (length sample_id > 140 \<or> length (p_Token sample_entry) \<noteq> 32)"
    by (simp_all add: sample_entry_def sample_id_def)
  show ?thesis
    unfolding firewallRuleConfirm_def if_not_P [OF v(4)] s
    by (simp add: setting_text_def d v confirm_kinds_def)
qed

lemma sample_confirm:
  "\<exists>db'. firewallRuleConfirm sample_codec sample_timers sample_ports (\<lambda>_. sound_engine) 100 sample_id
     (p_Token sample_entry) sample_db (False, False) = (WriteOk, db', (False, False))"
  using sample_confirm_entry [of sample_db] by (simp add: sample_reaches)

text \<open>(C37) A firewall change is confirmed only by the token of the stored entry, before its deadline, while
  the firewall shows the state the entry announces, both before and after the recovery timer is
  found active and stopped; then the entry is gone and the metadata of the rule says what was
  confirmed.\<close>

theorem confirm_safe:
  assumes "firewallRuleConfirm c tm t eng now i token db h = (WriteOk, db', h')"
  shows "\<exists>p raw snap verified. look db (firewallPendingKey i) = Some raw \<and> dec_pending c raw = Some p \<and>
    p_ID p = i \<and> p_Token p = token \<and> now < p_Deadline p \<and>
    InspectFirewall tm t h = Inr snap \<and> expected_state p snap \<and>
    tm_active tm (p_Unit p @ ''.timer'') h \<and> tm_stop tm (p_Unit p @ ''.timer'') h = (Inr (), h') \<and>
    InspectFirewall tm t h' = Inr verified \<and> expected_state p verified \<and> confirmed_settings c p db db'"
  using firewallRuleConfirm_cases [OF assms] confirm_entry_ok by fastforce

theorem confirm_safe_witness:
  "\<exists>db' p. tm_stop sample_timers (p_Unit p @ ''.timer'') (False, False) = (Inr (), (False, False)) \<and>
     confirmed_settings sample_codec p sample_db db'"
proof -
  obtain db' where "firewallRuleConfirm sample_codec sample_timers sample_ports (\<lambda>_. sound_engine) 100 sample_id
     (p_Token sample_entry) sample_db (False, False) = (WriteOk, db', (False, False))" using sample_confirm by (elim exE)
  from confirm_safe [OF this] show ?thesis by (elim exE conjE) (intro exI conjI)
qed

text \<open>A confirmation that is answered with an error and has not stopped the timer leaves the
  recovery armed: the entry, the notes and every other setting are as before, apart from the one
  setting that is staged for the confirmation.\<close>

theorem confirm_error_armed:
  assumes "firewallRuleConfirm c tm t eng now i token db h = (WriteErr code e, db', h')"
  shows "still_armed tm i db h db' h' \<or>
    (\<exists>p raw. look db (firewallPendingKey i) = Some raw \<and> dec_pending c raw = Some p \<and> p_Token p = token \<and>
       now < p_Deadline p \<and> tm_stop tm (p_Unit p @ ''.timer'') h = (Inr (), h'))"
proof (rule disjE [OF firewallRuleConfirm_cases [OF assms]])
  assume "(\<exists>code' e'. WriteErr code e = WriteErr code' e') \<and> db' = db \<and> h' = h"
  then show ?thesis by (simp add: still_armed_def)
next
  assume "\<exists>raw p. look db (firewallPendingKey i) = Some raw \<and> dec_pending c raw = Some p \<and> p_ID p = i \<and>
       p_Token p = token \<and> now < p_Deadline p \<and> confirm_entry c tm t eng now p db h = (WriteErr code e, db', h')"
  then obtain raw p where f: "look db (firewallPendingKey i) = Some raw" "dec_pending c raw = Some p" "p_ID p = i"
    "p_Token p = token" "now < p_Deadline p" "confirm_entry c tm t eng now p db h = (WriteErr code e, db', h')"
    by (elim exE conjE)
  from confirm_entry_error [OF f(6)] f(1-5) show ?thesis by auto
qed

theorem confirm_error_armed_witness:
  "\<exists>code e db' h'. firewallRuleConfirm sample_codec sample_timers sample_ports (\<lambda>_. sound_engine) 300 sample_id
     (p_Token sample_entry) sample_db (False, False) = (WriteErr code e, db', h') \<and>
     still_armed sample_timers sample_id sample_db (False, False) db' h'"
proof -
  have r: "firewallRuleConfirm sample_codec sample_timers sample_ports (\<lambda>_. sound_engine) 300 sample_id
     (p_Token sample_entry) sample_db (False, False) =
       (WriteError 409 ''confirmation expired; automatic restoration may have started'', sample_db, (False, False))"
    by (simp add: sample_reaches)
  have late: "\<not> (300::int) < p_Deadline p" if "dec_pending sample_codec raw = Some p" for raw p
    using that by (auto simp: sample_codec_def sample_entry_def)
  from confirm_error_armed [OF r] late
  have "still_armed sample_timers sample_id sample_db (False, False) sample_db (False, False)" by blast
  with r show ?thesis by blast
qed

text \<open>A saved entry is found again: until its deadline the rule has a pending confirmation and
  the entry is listed, and a confirmation is refused for any other token or after the deadline and
  goes on to the inspection for this one.\<close>

theorem pending_saved:
  assumes "firewallPendingSaveKind c eng rand i unit deadline kind rule db = (Inr p, db')"
    and "dec_pending c (enc_pending c p) = Some p" and "enc_pending c p \<noteq> []"
    and "fault (eng' 0) (SSelectSetting (firewallPendingKey i)) = None"
  shows "(isl (ensureNoPending c (eng' 0) now i db') \<longleftrightarrow> now < deadline) \<and>
    (firewallPendingKey i \<in> set keys \<longrightarrow> p \<in> set (pendingFromSettings c (db_settings db') keys)) \<and>
    (length i \<le> 140 \<and> length token = 32 \<and> kind \<in> set confirm_kinds \<longrightarrow>
      firewallRuleConfirm c tm t eng' now i token db' h =
        (if token \<noteq> p_Token p then (WriteError 403 ''invalid pending action token'', db', h)
         else if deadline \<le> now then (WriteError 409 ''confirmation expired; automatic restoration may have started'', db', h)
         else confirm_entry c tm t eng' now p db' h))"
proof -
  from assms(1) obtain token' where p: "p = \<lparr>p_ID = i, p_Token = token', p_Unit = unit, p_Deadline = deadline,
                 p_Kind = kind, p_Rule = rule, p_Destination = zero_Rule\<rparr>" and ne: "i \<noteq> []" "unit \<noteq> []"
    and save: "save_entry c eng p db = (Inr p, db')"
    by (auto simp: firewallPendingSaveKind_def save_entry_def Let_def split: sum.split_asm if_split_asm prod.split_asm)
  from save have l: "look db' (firewallPendingKey i) = Some (enc_pending c p)"
    by (auto simp: save_entry_def Let_def p dest!: SetSetting_ok split: prod.split_asm)
  have s: "Setting (eng' 0) (firewallPendingKey i) db' = Inr (Some (enc_pending c p))"
    using assms(4) l by (simp add: Setting_def exec_def)
  have e: "isl (ensureNoPending c (eng' 0) now i db') \<longleftrightarrow> now < deadline"
    using assms(2,3) by (simp add: ensureNoPending_def s setting_text_def Let_def p)
  have pre: "has_prefix (firewallPendingKey i) ''firewall_pending:''"
    by (simp only: firewallPendingKey_def has_prefix_self)
  have view: "p_ID p = i" "p_Unit p = unit" "p_Deadline p = deadline" "p_Kind p = kind" by (simp_all add: p)
  have "firewallPendingKey i \<in> set keys \<longrightarrow> p \<in> set (pendingFromSettings c (db_settings db') keys)"
  proof
    assume k: "firewallPendingKey i \<in> set keys"
    show "p \<in> set (pendingFromSettings c (db_settings db') keys)"
      unfolding pendingFromSettings_def set_concat set_map
      by (rule UN_I [OF imageI [OF k]]) (simp add: l pre assms(2,3) view ne)
  qed
  moreover have "firewallRuleConfirm c tm t eng' now i token db' h =
        (if token \<noteq> p_Token p then (WriteError 403 ''invalid pending action token'', db', h)
         else if deadline \<le> now then (WriteError 409 ''confirmation expired; automatic restoration may have started'', db', h)
         else confirm_entry c tm t eng' now p db' h)" if "length i \<le> 140" "length token = 32" "kind \<in> set confirm_kinds"
    using that assms(2,3) by (auto simp: firewallRuleConfirm_def s setting_text_def view)
  ultimately show ?thesis using e by blast
qed

theorem pending_saved_witness:
  "\<exists>p db'. firewallPendingSaveKind sample_codec sound_engine (Inr (replicate 16 0)) sample_id (p_Unit sample_entry) 200
       ''remove-allow'' zero_Rule sample_db = (Inr p, db') \<and>
     isl (ensureNoPending sample_codec sound_engine 100 sample_id db') \<and>
     \<not> isl (ensureNoPending sample_codec sound_engine 200 sample_id db')"
proof -
  have h: "hex_encode (replicate 16 0) = ''00000000000000000000000000000000''" by code_simp
  have save: "\<exists>db'. firewallPendingSaveKind sample_codec sound_engine (Inr (replicate 16 0)) sample_id (p_Unit sample_entry) 200
       ''remove-allow'' zero_Rule sample_db = (Inr sample_entry, db')"
    by (simp add: firewallPendingSaveKind_def newFirewallToken_def h save_entry_def SetSetting_def sound_engine_def
        firewallPendingKey_def sample_entry_def sample_id_def)
  then obtain db' where s: "firewallPendingSaveKind sample_codec sound_engine (Inr (replicate 16 0)) sample_id (p_Unit sample_entry) 200
       ''remove-allow'' zero_Rule sample_db = (Inr sample_entry, db')" by (elim exE)
  have c: "dec_pending sample_codec (enc_pending sample_codec sample_entry) = Some sample_entry"
    "enc_pending sample_codec sample_entry \<noteq> []" "fault sound_engine (SSelectSetting (firewallPendingKey sample_id)) = None"
    by (simp_all add: sample_codec_def sound_engine_def)
  note ps = conjunct1 [OF pending_saved [OF s c(1,2), of "\<lambda>_. sound_engine", OF c(3)]]
  show ?thesis using s ps [of 100] ps [of 200] by auto
qed

end
