(* ===== verification/Limiter.thy ===== *)
theory Limiter
  imports Prelude
begin

text \<open>
  The login limiter (\<open>internal/auth/limiter.go\<close>): a map from a rate-limit key (an address, or
  an address with a user name) to the failures counted in the key's current window. The map is a
  finite map; the order in which Go's \<open>range\<close> visits it is an argument of the eviction.

  Instants are nanoseconds since Go's zero \<open>time.Time\<close>, durations are nanoseconds.
\<close>

section \<open>Time\<close>

definition second :: int where "second = 1000000000"

definition minute :: int where "minute = 60 * second"

definition time_is_zero :: "int \<Rightarrow> bool" where
  "time_is_zero t \<longleftrightarrow> t = 0"

text \<open>\<open>Time.Sub\<close> saturates at the largest and smallest duration.\<close>

definition time_sub :: "int \<Rightarrow> int \<Rightarrow> int" where
  "time_sub a b = max (- (2 ^ 63)) (min (2 ^ 63 - 1) (a - b))"

lemma time_sub_exact: "int64_range (a - b) \<Longrightarrow> time_sub a b = a - b"
  by (auto simp: time_sub_def)

lemma time_sub_self [simp]: "time_sub a a = 0"
  by (simp add: time_sub_def)

lemma time_sub_mono: "a \<le> b \<Longrightarrow> time_sub a s \<le> time_sub b s"
  by (auto simp: time_sub_def)

section \<open>State\<close>

record loginAttempt =
  Count :: int
  Since :: int

record LoginLimiter =
  entries :: "(string, loginAttempt) fmap"
  window :: int
  max_fails :: int
  capacity :: int
  lastCleanup :: int

definition defaultLimiterCapacity :: int where
  "defaultLimiterCapacity = 8192"

definition newLoginLimiter :: "int \<Rightarrow> int \<Rightarrow> int \<Rightarrow> LoginLimiter" where
  "newLoginLimiter mx win cap =
     \<lparr>entries = fmempty,
      window = (if win \<le> 0 then minute else win),
      max_fails = (if mx < 1 then 1 else mx),
      capacity = (if cap < 1 then 1 else cap),
      lastCleanup = 0\<rparr>"

definition NewLoginLimiter :: "int \<Rightarrow> int \<Rightarrow> LoginLimiter" where
  "NewLoginLimiter mx win = newLoginLimiter mx win defaultLimiterCapacity"

section \<open>Operations\<close>

text \<open>\<open>now.Sub(a.Since) >= l.window\<close>: the key's window is over.\<close>

definition window_over :: "LoginLimiter \<Rightarrow> int \<Rightarrow> loginAttempt \<Rightarrow> bool" where
  "window_over l now a \<longleftrightarrow> window l \<le> time_sub now (Since a)"

definition cleanup_drops :: "LoginLimiter \<Rightarrow> int \<Rightarrow> loginAttempt \<Rightarrow> bool" where
  "cleanup_drops l now a \<longleftrightarrow> time_is_zero (Since a) \<or> window_over l now a"

definition cleanupLocked :: "int \<Rightarrow> bool \<Rightarrow> LoginLimiter \<Rightarrow> LoginLimiter" where
  "cleanupLocked now force l =
     (let interval = (if window l < minute then window l else minute) in
      if \<not> force \<and> \<not> time_is_zero (lastCleanup l) \<and> time_sub now (lastCleanup l) < interval
      then l
      else l\<lparr>entries := fmprune (\<lambda>k a. \<not> cleanup_drops l now a) (entries l),
             lastCleanup := now\<rparr>)"

definition Allowed :: "int \<Rightarrow> string \<Rightarrow> LoginLimiter \<Rightarrow> bool \<times> LoginLimiter" where
  "Allowed now key l0 =
     (let l = cleanupLocked now False l0 in
      case fmlookup (entries l) key of
        None \<Rightarrow> (True, l)
      | Some a \<Rightarrow>
          if window_over l now a then (True, l\<lparr>entries := fmdrop key (entries l)\<rparr>)
          else (Count a < max_fails l, l))"

text \<open>The scan for the oldest bucket; the empty key marks "none chosen yet".\<close>

fun oldest :: "(string \<Rightarrow> loginAttempt option) \<Rightarrow> string list \<Rightarrow> string \<Rightarrow> int \<Rightarrow> string" where
  "oldest m [] oldestKey oldestSince = oldestKey"
| "oldest m (k # ks) oldestKey oldestSince =
     (case m k of
        None \<Rightarrow> oldest m ks oldestKey oldestSince
      | Some a \<Rightarrow>
          if oldestKey = [] \<or> Since a < oldestSince then oldest m ks k (Since a)
          else oldest m ks oldestKey oldestSince)"

definition makeRoomLocked :: "string list \<Rightarrow> int \<Rightarrow> string \<Rightarrow> LoginLimiter \<Rightarrow> LoginLimiter" where
  "makeRoomLocked order now key l0 =
     (if fmlookup (entries l0) key \<noteq> None then l0
      else if int (fmcount (entries l0)) < capacity l0 then l0
      else (let l = cleanupLocked now True l0 in
        if int (fmcount (entries l)) < capacity l then l
        else (let k = oldest (fmlookup (entries l)) order [] now in
          if k \<noteq> [] then l\<lparr>entries := fmdrop k (entries l)\<rparr> else l)))"

definition Fail :: "string list \<Rightarrow> int \<Rightarrow> string \<Rightarrow> LoginLimiter \<Rightarrow> LoginLimiter" where
  "Fail order now key l0 =
     (let l1 = cleanupLocked now False l0;
          fresh = (case fmlookup (entries l1) key of None \<Rightarrow> True | Some a \<Rightarrow> window_over l1 now a);
          l2 = (if fresh then makeRoomLocked order now key l1 else l1);
          a = (if fresh then \<lparr>Count = 0, Since = now\<rparr> else the (fmlookup (entries l1) key))
      in l2\<lparr>entries := fmupd key (a\<lparr>Count := Count a + 1\<rparr>) (entries l2)\<rparr>)"

definition Success :: "string \<Rightarrow> LoginLimiter \<Rightarrow> LoginLimiter" where
  "Success key l = l\<lparr>entries := fmdrop key (entries l)\<rparr>"


section \<open>Well-formed limiters\<close>

text \<open>
  The configuration is positive, every bucket was opened at a real instant by a non-empty key and
  counts at least one failure, and there are at most \<open>capacity\<close> buckets.
\<close>

definition bucket_ok :: "string \<Rightarrow> loginAttempt \<Rightarrow> bool" where
  "bucket_ok k a \<longleftrightarrow> k \<noteq> [] \<and> 0 < Since a \<and> 1 \<le> Count a"

definition limiter_inv :: "LoginLimiter \<Rightarrow> bool" where
  "limiter_inv l \<longleftrightarrow>
     0 < window l \<and> 1 \<le> max_fails l \<and> 1 \<le> capacity l \<and>
     int (fmcount (entries l)) \<le> capacity l \<and> fmpred bucket_ok (entries l)"

lemma newLoginLimiter_inv: "limiter_inv (newLoginLimiter mx win cap)"
  by (simp add: limiter_inv_def newLoginLimiter_def minute_def second_def)

lemma cleanup_config [simp]:
  "window (cleanupLocked now force l) = window l"
  "max_fails (cleanupLocked now force l) = max_fails l"
  "capacity (cleanupLocked now force l) = capacity l"
  by (simp_all add: cleanupLocked_def Let_def)

lemma window_over_cleanup [simp]: "window_over (cleanupLocked now force l) t a = window_over l t a"
  by (simp add: window_over_def)

lemma cleanup_cases:
  obtains "cleanupLocked now force l = l" and "\<not> force"
  | "entries (cleanupLocked now force l)
       = fmprune (\<lambda>k a. \<not> cleanup_drops l now a) (entries l)"
  by (cases "cleanupLocked now force l = l \<and> \<not> force")
    (auto simp: cleanupLocked_def Let_def split: if_splits)

lemma cleanup_forced:
  "entries (cleanupLocked now True l) = fmprune (\<lambda>k a. \<not> cleanup_drops l now a) (entries l)"
  by (simp add: cleanupLocked_def Let_def)

text \<open>A sweep keeps every bucket whose window is still running.\<close>

lemma cleanup_keeps_live:
  "fmlookup (entries l) k = Some a \<Longrightarrow> \<not> cleanup_drops l now a \<Longrightarrow>
   fmlookup (entries (cleanupLocked now force l)) k = Some a"
  by (rule cleanup_cases [of now force l]) auto

lemma cleanup_subset:
  "fmlookup (entries (cleanupLocked now force l)) k = Some a \<Longrightarrow> fmlookup (entries l) k = Some a"
  by (rule cleanup_cases [of now force l]) (auto split: option.splits if_splits)

lemma cleanup_count: "fmcount (entries (cleanupLocked now force l)) \<le> fmcount (entries l)"
  by (rule cleanup_cases [of now force l]) (auto simp: fmcount_prune)

lemma cleanup_inv: "limiter_inv l \<Longrightarrow> limiter_inv (cleanupLocked now force l)"
  using cleanup_count [of now force l] cleanup_subset [of now force l]
  by (fastforce simp: limiter_inv_def fmpred_iff)

lemma bucket_drops: "bucket_ok k a \<Longrightarrow> cleanup_drops l now a \<longleftrightarrow> window_over l now a"
  by (simp add: bucket_ok_def cleanup_drops_def time_is_zero_def)

abbreviation buckets_ok :: "LoginLimiter \<Rightarrow> bool" where
  "buckets_ok l \<equiv> fmpred bucket_ok (entries l)"

lemma inv_buckets_ok: "limiter_inv l \<Longrightarrow> buckets_ok l"
  by (simp add: limiter_inv_def)

lemma inv_bucket: "buckets_ok l \<Longrightarrow> fmlookup (entries l) k = Some a \<Longrightarrow> bucket_ok k a"
  by (auto dest: fmpredD)

lemma inv_drops:
  "buckets_ok l \<Longrightarrow> fmlookup (entries l) k = Some a \<Longrightarrow>
   cleanup_drops l now a \<longleftrightarrow> window_over l now a"
  by (rule bucket_drops) (rule inv_bucket)

section \<open>The verdict\<close>

text \<open>The sweep that \<open>Allowed\<close> runs first never changes its answer.\<close>

definition verdict :: "LoginLimiter \<Rightarrow> int \<Rightarrow> string \<Rightarrow> bool" where
  "verdict l now key =
     (case fmlookup (entries l) key of
        None \<Rightarrow> True
      | Some a \<Rightarrow> window_over l now a \<or> Count a < max_fails l)"

lemma Allowed_verdict:
  assumes inv: "buckets_ok l"
  shows "fst (Allowed now key l) = verdict l now key"
proof (cases "fmlookup (entries l) key")
  case None
  then have "fmlookup (entries (cleanupLocked now False l)) key = None"
    using cleanup_subset [of now False l key] by (metis not_None_eq)
  with None show ?thesis by (simp add: Allowed_def Let_def verdict_def)
next
  case (Some a)
  show ?thesis
  proof (cases "fmlookup (entries (cleanupLocked now False l)) key")
    case None
    then have "window_over l now a"
      using cleanup_keeps_live [OF Some] inv_drops [OF inv Some] by force
    with None Some show ?thesis by (simp add: Allowed_def Let_def verdict_def)
  next
    case b: (Some b)
    then have "b = a" using cleanup_subset [OF b] Some by simp
    with Some b show ?thesis by (simp add: Allowed_def Let_def verdict_def)
  qed
qed

lemma drop_inv: "limiter_inv l \<Longrightarrow> limiter_inv (l\<lparr>entries := fmdrop k (entries l)\<rparr>)"
  by (auto simp: limiter_inv_def fmpred_iff fmcount_drop split: if_splits)

lemma Allowed_inv: "limiter_inv l \<Longrightarrow> limiter_inv (snd (Allowed now key l))"
  by (auto simp: Allowed_def Let_def intro: drop_inv cleanup_inv split: option.split)

lemma Success_inv: "limiter_inv l \<Longrightarrow> limiter_inv (Success key l)"
  unfolding Success_def by (rule drop_inv)

section \<open>Eviction\<close>

lemma oldest_known:
  "oldest m ks ok os = ok \<or> (oldest m ks ok os \<in> set ks \<and> m (oldest m ks ok os) \<noteq> None)"
  by (induction m ks ok os rule: oldest.induct) (auto split: option.splits)

lemma oldest_nonempty:
  "\<forall>k \<in> set ks. m k \<noteq> None \<longrightarrow> k \<noteq> [] \<Longrightarrow>
   ok \<noteq> [] \<or> (\<exists>k \<in> set ks. m k \<noteq> None) \<Longrightarrow> oldest m ks ok os \<noteq> []"
  by (induction m ks ok os rule: oldest.induct) (auto split: option.splits)

text \<open>The key the scan returns is one of the oldest.\<close>

lemma oldest_minimal:
  assumes "\<forall>k \<in> set ks. m k \<noteq> None \<longrightarrow> k \<noteq> []"
    and "ok \<noteq> [] \<longrightarrow> (\<exists>b. m ok = Some b \<and> Since b = os)"
    and "oldest m ks ok os \<noteq> []"
  shows "\<exists>b. m (oldest m ks ok os) = Some b \<and> (ok \<noteq> [] \<longrightarrow> Since b \<le> os) \<and>
    (\<forall>k \<in> set ks. \<forall>a. m k = Some a \<longrightarrow> Since b \<le> Since a)"
  using assms
proof (induction ks arbitrary: ok os)
  case Nil
  then show ?case by auto
next
  case (Cons k ks)
  show ?case
  proof (cases "m k")
    case None
    with Cons.prems Cons.IH [of ok os] show ?thesis by simp
  next
    case (Some a)
    show ?thesis
    proof (cases "ok = [] \<or> Since a < os")
      case True
      with Some Cons.prems have "k \<noteq> []" "oldest m ks k (Since a) \<noteq> []" by auto
      with Some Cons.prems(1) Cons.IH [of k "Since a"]
      obtain b where b: "m (oldest m ks k (Since a)) = Some b" "Since b \<le> Since a"
        "\<forall>k \<in> set ks. \<forall>a. m k = Some a \<longrightarrow> Since b \<le> Since a" by auto
      then have "ok \<noteq> [] \<longrightarrow> Since b \<le> os" using True by auto
      with b Some True show ?thesis by auto
    next
      case False
      with Some Cons.prems have "oldest m ks ok os \<noteq> []" by auto
      with Cons.prems(1,2) Cons.IH [of ok os] False
      obtain b where b: "m (oldest m ks ok os) = Some b" "Since b \<le> os"
        "\<forall>k \<in> set ks. \<forall>a. m k = Some a \<longrightarrow> Since b \<le> Since a" by auto
      with Some False show ?thesis by auto
    qed
  qed
qed


section \<open>Counting failures\<close>

text \<open>The bucket \<open>Fail\<close> leaves for its key: a running window counts on, else a new one opens.\<close>

definition next_bucket :: "LoginLimiter \<Rightarrow> int \<Rightarrow> string \<Rightarrow> loginAttempt" where
  "next_bucket l now key =
     (case fmlookup (entries l) key of
        None \<Rightarrow> \<lparr>Count = 1, Since = now\<rparr>
      | Some a \<Rightarrow> if window_over l now a then \<lparr>Count = 1, Since = now\<rparr>
                  else \<lparr>Count = Count a + 1, Since = Since a\<rparr>)"

lemma makeRoom_config [simp]:
  "window (makeRoomLocked order now key l) = window l"
  "max_fails (makeRoomLocked order now key l) = max_fails l"
  "capacity (makeRoomLocked order now key l) = capacity l"
  by (simp_all add: makeRoomLocked_def Let_def)

lemma Fail_config [simp]:
  "window (Fail order now key l) = window l"
  "max_fails (Fail order now key l) = max_fails l"
  "capacity (Fail order now key l) = capacity l"
  by (simp_all add: Fail_def Let_def)

lemma Fail_same_key:
  assumes inv: "buckets_ok l"
  shows "fmlookup (entries (Fail order now key l)) key = Some (next_bucket l now key)"
proof (cases "fmlookup (entries l) key")
  case None
  then have "fmlookup (entries (cleanupLocked now False l)) key = None"
    using cleanup_subset [of now False l key] by (metis not_None_eq)
  with None show ?thesis by (simp add: Fail_def Let_def next_bucket_def)
next
  case (Some a)
  show ?thesis
  proof (cases "window_over l now a")
    case True
    then have "\<forall>b. fmlookup (entries (cleanupLocked now False l)) key = Some b \<longrightarrow> b = a"
      using cleanup_subset [of now False l key] Some by auto
    with True Some show ?thesis by (auto simp: Fail_def Let_def next_bucket_def split: option.splits)
  next
    case False
    then have "fmlookup (entries (cleanupLocked now False l)) key = Some a"
      using cleanup_keeps_live [OF Some] inv_drops [OF inv Some] by simp
    with False Some show ?thesis by (simp add: Fail_def Let_def next_bucket_def)
  qed
qed

lemma makeRoom_subset:
  "fmlookup (entries (makeRoomLocked order now key l)) k = Some a \<Longrightarrow>
   fmlookup (entries l) k = Some a"
  using cleanup_subset [of now True l k]
  by (auto simp: makeRoomLocked_def Let_def split: if_splits)

definition visits_all :: "string list \<Rightarrow> LoginLimiter \<Rightarrow> bool" where
  "visits_all order l \<longleftrightarrow> fset (fmdom (entries l)) \<subseteq> set order"

lemma visits_all_cleanup: "visits_all order l \<Longrightarrow> visits_all order (cleanupLocked now force l)"
  using cleanup_subset [of now force l] by (fastforce simp: visits_all_def fmlookup_dom_iff)

text \<open>
  Room for one more bucket: if \<open>order\<close> visits every key, the limiter ends below its capacity
  unless the key already has a bucket.
\<close>

lemma makeRoom_count:
  assumes inv: "limiter_inv l" and ord: "visits_all order l"
    and new: "fmlookup (entries l) key = None"
  shows "int (fmcount (entries (makeRoomLocked order now key l))) < capacity l"
proof -
  let ?c = "cleanupLocked now True l"
  have inv': "limiter_inv ?c" using inv by (rule cleanup_inv)
  show ?thesis
  proof (cases "int (fmcount (entries ?c)) < capacity l")
    case True
    with new show ?thesis by (auto simp: makeRoomLocked_def Let_def)
  next
    case False
    let ?k = "oldest (fmlookup (entries ?c)) order [] now"
    have "entries ?c \<noteq> fmempty" using False inv by (auto simp: limiter_inv_def)
    then obtain k a where k: "fmlookup (entries ?c) k = Some a"
      by (metis fmap_ext fmempty_lookup option.exhaust)
    then have "k \<in> set order" using cleanup_subset [OF k] ord by (auto simp: visits_all_def dest: fmdomI)
    moreover have "\<forall>k \<in> set order. fmlookup (entries ?c) k \<noteq> None \<longrightarrow> k \<noteq> []"
      using inv_bucket [OF inv_buckets_ok [OF inv']] by (fastforce simp: bucket_ok_def)
    ultimately have ne: "?k \<noteq> []" using k by (intro oldest_nonempty) auto
    then have "?k |\<in>| fmdom (entries ?c)"
      using oldest_known [of "fmlookup (entries ?c)" order "[]" now] by (auto simp: fmdomI)
    moreover have "int (fmcount (entries ?c)) \<le> capacity l" "1 \<le> capacity l"
      using inv' by (auto simp: limiter_inv_def)
    ultimately have "int (fmcount (fmdrop ?k (entries ?c))) < capacity l"
      by (auto simp: fmcount_drop)
    moreover have "int (fmcount (entries l)) \<ge> capacity l"
      using False cleanup_count [of now True l] by linarith
    ultimately show ?thesis using False ne new by (auto simp: makeRoomLocked_def Let_def)
  qed
qed


lemma next_bucket_ok:
  "limiter_inv l \<Longrightarrow> key \<noteq> [] \<Longrightarrow> 0 < now \<Longrightarrow> bucket_ok key (next_bucket l now key)"
  using inv_bucket [of l key] inv_buckets_ok [of l]
  by (auto simp: next_bucket_def bucket_ok_def split: option.splits)

lemma makeRoom_inv: "limiter_inv l \<Longrightarrow> limiter_inv (makeRoomLocked order now key l)"
  by (auto simp: makeRoomLocked_def Let_def intro: cleanup_inv drop_inv)

lemma Fail_entries:
  assumes "limiter_inv l"
  shows "\<exists>l'. limiter_inv l' \<and> entries (Fail order now key l) =
           fmupd key (next_bucket l now key) (entries l') \<and>
         (l' = cleanupLocked now False l \<and> fmlookup (entries l') key \<noteq> None
          \<or> l' = makeRoomLocked order now key (cleanupLocked now False l))"
proof -
  let ?c = "cleanupLocked now False l"
  have "fmlookup (entries (Fail order now key l)) key = Some (next_bucket l now key)"
    using inv_buckets_ok [OF assms] by (rule Fail_same_key)
  then show ?thesis
    using cleanup_inv [OF assms, of now False]
      makeRoom_inv [OF cleanup_inv [OF assms, of now False], of order now key]
    by (cases "fmlookup (entries ?c) key") (auto simp: Fail_def Let_def split: if_splits)
qed

lemma Fail_inv:
  assumes inv: "limiter_inv l" and ord: "visits_all order l" and key: "key \<noteq> []" "0 < now"
  shows "limiter_inv (Fail order now key l)"
proof -
  let ?c = "cleanupLocked now False l"
  let ?b = "next_bucket l now key"
  obtain l' where l': "limiter_inv l'" "entries (Fail order now key l) = fmupd key ?b (entries l')"
    "l' = ?c \<and> fmlookup (entries l') key \<noteq> None \<or> l' = makeRoomLocked order now key ?c"
    using Fail_entries [OF inv] by blast
  have cap: "capacity l' = capacity l" using l'(3) by auto
  have "fmlookup (entries l') key = None \<Longrightarrow> int (fmcount (entries l')) < capacity l"
  proof -
    assume none: "fmlookup (entries l') key = None"
    with l'(3) have eq: "l' = makeRoomLocked order now key ?c" by auto
    have "fmlookup (entries ?c) key = None"
      using none unfolding eq
      by (cases "fmlookup (entries ?c) key") (auto simp: makeRoomLocked_def)
    then show ?thesis
      using makeRoom_count [OF cleanup_inv [OF inv] visits_all_cleanup [OF ord]] eq by simp
  qed
  then have "int (fmcount (fmupd key ?b (entries l'))) \<le> capacity l"
    using l'(1) cap by (auto simp: fmcount_upd limiter_inv_def fmdom_notI)
  moreover have "fmpred bucket_ok (fmupd key ?b (entries l'))"
    using next_bucket_ok [OF inv key] l'(1) by (auto simp: limiter_inv_def)
  ultimately show ?thesis using inv l'(2) by (simp add: limiter_inv_def)
qed

section \<open>What the limiter implements\<close>

text \<open>
  The contract, without sweeps, capacity or eviction: at each instant a key has the failures of
  its running window, or none. \<open>live\<close> is the abstraction at an instant.
\<close>

type_synonym buckets = "string \<Rightarrow> loginAttempt option"

definition expire :: "int \<Rightarrow> int \<Rightarrow> buckets \<Rightarrow> buckets" where
  "expire win now m k =
     (case m k of None \<Rightarrow> None | Some a \<Rightarrow> if win \<le> time_sub now (Since a) then None else Some a)"

definition live :: "LoginLimiter \<Rightarrow> int \<Rightarrow> buckets" where
  "live l now = expire (window l) now (fmlookup (entries l))"

datatype limiter_event =
    EvAllowed int string
  | EvFail "string list" int string
  | EvSuccess int string

fun ev_time :: "limiter_event \<Rightarrow> int" where
  "ev_time (EvAllowed t k) = t"
| "ev_time (EvFail order t k) = t"
| "ev_time (EvSuccess t k) = t"

fun limiter_step :: "limiter_event \<Rightarrow> LoginLimiter \<Rightarrow> LoginLimiter" where
  "limiter_step (EvAllowed t k) l = snd (Allowed t k l)"
| "limiter_step (EvFail order t k) l = Fail order t k l"
| "limiter_step (EvSuccess t k) l = Success k l"

definition count_failure :: "int \<Rightarrow> string \<Rightarrow> buckets \<Rightarrow> buckets" where
  "count_failure t k m =
     m(k \<mapsto> (case m k of None \<Rightarrow> \<lparr>Count = 1, Since = t\<rparr>
            | Some a \<Rightarrow> \<lparr>Count = Count a + 1, Since = Since a\<rparr>))"

fun spec_step :: "int \<Rightarrow> limiter_event \<Rightarrow> buckets \<Rightarrow> buckets" where
  "spec_step win (EvAllowed t k) m = expire win t m"
| "spec_step win (EvFail order t k) m = count_failure t k (expire win t m)"
| "spec_step win (EvSuccess t k) m = (expire win t m)(k := None)"

lemma expire_mono [simp]: "t \<le> t' \<Longrightarrow> expire win t' (expire win t m) = expire win t' m"
proof (rule ext)
  fix k
  assume "t \<le> t'"
  then show "expire win t' (expire win t m) k = expire win t' m k"
    using time_sub_mono [of t t']
    by (auto simp: expire_def split: option.splits intro: order_trans)
qed

lemma live_cleanup:
  assumes "buckets_ok l"
  shows "live (cleanupLocked now force l) now = live l now"
proof (rule ext)
  fix k
  show "live (cleanupLocked now force l) now k = live l now k"
  proof (cases "fmlookup (entries l) k")
    case None
    then have "fmlookup (entries (cleanupLocked now force l)) k = None"
      using cleanup_subset [of now force l k] by (metis not_None_eq)
    with None show ?thesis by (simp add: live_def expire_def)
  next
    case (Some a)
    show ?thesis
    proof (cases "window_over l now a")
      case True
      then have "\<forall>b. fmlookup (entries (cleanupLocked now force l)) k = Some b \<longrightarrow> b = a"
        using cleanup_subset [of now force l k] Some by auto
      with True Some show ?thesis
        by (auto simp: live_def expire_def window_over_def split: option.splits)
    next
      case False
      then have "fmlookup (entries (cleanupLocked now force l)) k = Some a"
        using cleanup_keeps_live [OF Some] inv_drops [OF assms Some] by simp
      with Some show ?thesis by (simp add: live_def expire_def)
    qed
  qed
qed

lemma live_verdict:
  "verdict l now key = (case live l now key of None \<Rightarrow> True | Some a \<Rightarrow> Count a < max_fails l)"
  by (auto simp: verdict_def live_def expire_def window_over_def split: option.splits)

lemma live_Allowed:
  assumes "buckets_ok l"
  shows "live (snd (Allowed now key l)) now = live l now"
proof -
  let ?c = "cleanupLocked now False l"
  have "live (snd (Allowed now key l)) now = live ?c now"
    by (auto simp: Allowed_def Let_def live_def expire_def window_over_def fun_eq_iff
        split: option.splits)
  then show ?thesis using live_cleanup [OF assms] by simp
qed

lemma live_Success: "live (Success key l) now = (live l now)(key := None)"
  by (auto simp: Success_def live_def expire_def fun_eq_iff)

lemma makeRoom_below:
  "int (fmcount (entries l)) < capacity l \<Longrightarrow> makeRoomLocked order now key l = l"
  by (simp add: makeRoomLocked_def)

lemma live_Fail:
  assumes ok: "buckets_ok l" and room: "int (fmcount (entries l)) < capacity l"
    and win: "0 < window l"
  shows "live (Fail order now key l) now = count_failure now key (live l now)"
proof (rule ext)
  fix k
  let ?c = "cleanupLocked now False l"
  have "int (fmcount (entries ?c)) < capacity ?c"
    using room cleanup_count [of now False l] by simp
  then have mr: "makeRoomLocked order now key ?c = ?c" by (rule makeRoom_below)
  show "live (Fail order now key l) now k = count_failure now key (live l now) k"
  proof (cases "k = key")
    case True
    then show ?thesis
      using Fail_same_key [OF ok, of order now key] win
      by (auto simp: live_def expire_def count_failure_def next_bucket_def window_over_def
          split: option.splits if_splits)
  next
    case False
    then have "fmlookup (entries (Fail order now key l)) k = fmlookup (entries ?c) k"
      by (simp add: Fail_def Let_def mr)
    with False show ?thesis
      using fun_cong [OF live_cleanup [OF ok, of now False], of k]
      by (simp add: live_def expire_def count_failure_def)
  qed
qed


section \<open>Runs\<close>

definition limiter_run :: "limiter_event list \<Rightarrow> LoginLimiter \<Rightarrow> LoginLimiter" where
  "limiter_run es l = fold limiter_step es l"

definition spec_run :: "int \<Rightarrow> limiter_event list \<Rightarrow> buckets \<Rightarrow> buckets" where
  "spec_run win es m = fold (spec_step win) es m"

text \<open>A history: real instants in order, non-empty keys.\<close>

fun history :: "int \<Rightarrow> limiter_event list \<Rightarrow> bool" where
  "history t [] = True"
| "history t (e # es) =
     (t \<le> ev_time e \<and> 0 < ev_time e \<and>
      (case e of EvFail order t' k \<Rightarrow> k \<noteq> [] | _ \<Rightarrow> True) \<and> history (ev_time e) es)"

lemma cleanup_buckets_ok: "buckets_ok l \<Longrightarrow> buckets_ok (cleanupLocked now force l)"
  using cleanup_subset [of now force l] by (fastforce simp: fmpred_iff)

lemma Fail_below:
  assumes "buckets_ok l" "int (fmcount (entries l)) < capacity l"
  shows "entries (Fail order now key l) =
           fmupd key (next_bucket l now key) (entries (cleanupLocked now False l))"
proof -
  have "int (fmcount (entries (cleanupLocked now False l))) < capacity l"
    using assms(2) cleanup_count [of now False l] by simp
  then show ?thesis
    using Fail_same_key [OF assms(1), of order now key]
    by (auto simp: Fail_def Let_def makeRoom_below split: if_splits)
qed

lemma limiter_step_config [simp]:
  "window (limiter_step e l) = window l"
  "max_fails (limiter_step e l) = max_fails l"
  "capacity (limiter_step e l) = capacity l"
  by (cases e; simp add: Allowed_def Success_def Let_def split: option.split)+

lemma limiter_run_window: "window (limiter_run es l) = window l"
  unfolding limiter_run_def by (induction es arbitrary: l) simp_all

lemma limiter_step_count:
  assumes "buckets_ok l" "int (fmcount (entries l)) < capacity l"
  shows "fmcount (entries (limiter_step e l)) \<le> Suc (fmcount (entries l))"
proof (cases e)
  case (EvAllowed t k)
  then show ?thesis using cleanup_count [of t False l]
    by (auto simp: Allowed_def Let_def fmcount_drop split: option.split)
next
  case (EvFail order t k)
  then show ?thesis using cleanup_count [of t False l]
    by (auto simp: Fail_below [OF assms] fmcount_upd)
next
  case (EvSuccess t k)
  then show ?thesis by (auto simp: Success_def fmcount_drop)
qed

lemma limiter_step_buckets_ok:
  assumes ok: "buckets_ok l" and room: "int (fmcount (entries l)) < capacity l"
    and h: "history t [e]"
  shows "buckets_ok (limiter_step e l)"
proof (cases e)
  case (EvAllowed t k)
  then show ?thesis using cleanup_buckets_ok [OF ok, of t False]
    by (auto simp: Allowed_def Let_def split: option.split)
next
  case (EvFail order t k)
  have "bucket_ok k (next_bucket l t k)"
    using h EvFail inv_bucket [OF ok, of k]
    by (auto simp: next_bucket_def bucket_ok_def split: option.splits)
  with EvFail show ?thesis using cleanup_buckets_ok [OF ok, of t False]
    by (auto simp: Fail_below [OF ok room])
next
  case (EvSuccess t k)
  then show ?thesis using ok by (auto simp: Success_def)
qed

lemma live_step:
  assumes "buckets_ok l" "int (fmcount (entries l)) < capacity l" "0 < window l" "t \<le> ev_time e"
  shows "live (limiter_step e l) (ev_time e) = spec_step (window l) e (live l t)"
proof -
  have "live l (ev_time e) = expire (window l) (ev_time e) (live l t)"
    using assms(4) by (simp add: live_def)
  then show ?thesis
    using assms by (cases e) (simp_all add: live_Allowed live_Fail live_Success)
qed

text \<open>The simulation, lifted to whole histories.\<close>

fun end_time :: "int \<Rightarrow> limiter_event list \<Rightarrow> int" where
  "end_time t [] = t"
| "end_time t (e # es) = end_time (ev_time e) es"

lemma limiter_run_refines:
  assumes "buckets_ok l" "0 < window l" "history t es"
    and "int (fmcount (entries l) + length es) \<le> capacity l"
  shows "live (limiter_run es l) (end_time t es) = spec_run (window l) es (live l t)
         \<and> max_fails (limiter_run es l) = max_fails l"
  using assms
proof (induction es arbitrary: l t)
  case Nil
  then show ?case by (simp add: limiter_run_def spec_run_def)
next
  case (Cons e es)
  let ?l = "limiter_step e l"
  have room: "int (fmcount (entries l)) < capacity l" using Cons.prems(4) by simp
  have ok: "buckets_ok ?l"
    using Cons.prems(1,3) room by (intro limiter_step_buckets_ok [where t = t]) auto
  have "int (fmcount (entries ?l) + length es) \<le> capacity ?l"
    using limiter_step_count [OF Cons.prems(1) room, of e] Cons.prems(4) by simp
  with Cons.IH [of ?l "ev_time e"] ok Cons.prems(2,3) show ?case
    using live_step [OF Cons.prems(1) room Cons.prems(2), of t e]
    by (simp add: limiter_run_def spec_run_def)
qed

text \<open>
  Lock-out, read off the contract: the failures of one key that fall in one window add up,
  whatever other keys do in between.
\<close>

definition other_key :: "string \<Rightarrow> limiter_event \<Rightarrow> bool" where
  "other_key key e \<longleftrightarrow>
     (case e of EvAllowed t k \<Rightarrow> True | EvFail order t k \<Rightarrow> k \<noteq> key | EvSuccess t k \<Rightarrow> k \<noteq> key)"

definition failures_of :: "string \<Rightarrow> limiter_event list \<Rightarrow> nat" where
  "failures_of key es = length (filter (\<lambda>e. \<not> other_key key e) es)"

lemma spec_run_counts:
  assumes "history t es" "\<forall>e \<in> set es. other_key key e \<or> (\<exists>order s. e = EvFail order s key)"
    and "m key = Some \<lparr>Count = n, Since = s0\<rparr>" "\<forall>e \<in> set es. time_sub (ev_time e) s0 < win"
  shows "spec_run win es m key = Some \<lparr>Count = n + int (failures_of key es), Since = s0\<rparr>"
  using assms
proof (induction es arbitrary: m n t)
  case Nil
  then show ?case by (simp add: spec_run_def failures_of_def)
next
  case (Cons e es)
  let ?d = "if other_key key e then 0 else 1"
  have "spec_step win e m key = Some \<lparr>Count = n + ?d, Since = s0\<rparr>"
    using Cons.prems by (cases e) (auto simp: expire_def count_failure_def other_key_def)
  moreover have "history (ev_time e) es" using Cons.prems(1) by simp
  ultimately have "spec_run win es (spec_step win e m) key =
      Some \<lparr>Count = n + ?d + int (failures_of key es), Since = s0\<rparr>"
    using Cons.prems(2,4) by (intro Cons.IH [where t = "ev_time e"]) auto
  then show ?case by (simp add: spec_run_def failures_of_def)
qed


text \<open>
  A key that failed \<open>max_fails\<close> times since its first failure at \<open>t\<close> is refused exactly
  until the window that opened at \<open>t\<close> is over.
\<close>

lemma lockout_run:
  assumes inv: "buckets_ok l" "0 < window l" and new: "live l t key = None"
    and hist: "history t (EvFail order t key # es)"
    and only: "\<forall>e \<in> set es. other_key key e \<or> (\<exists>ord s. e = EvFail ord s key)"
    and win: "\<forall>e \<in> set es. time_sub (ev_time e) t < window l"
    and cap: "int (fmcount (entries l) + Suc (length es)) \<le> capacity l"
    and now: "end_time t es \<le> now"
    and reached: "max_fails l \<le> 1 + int (failures_of key es)"
  shows "verdict (limiter_run (EvFail order t key # es) l) now key
          \<longleftrightarrow> window l \<le> time_sub now t"
proof -
  let ?es = "EvFail order t key # es"
  let ?r = "limiter_run ?es l"
  have ref: "live ?r (end_time t es) = spec_run (window l) ?es (live l t)"
    "max_fails ?r = max_fails l"
    using limiter_run_refines [OF inv hist] cap by simp_all
  have wr: "window ?r = window l" by (rule limiter_run_window)
  have "spec_step (window l) (EvFail order t key) (live l t) key =
      Some \<lparr>Count = 1, Since = t\<rparr>"
    using new by (simp add: count_failure_def expire_def)
  then have "spec_run (window l) ?es (live l t) key =
      Some \<lparr>Count = 1 + int (failures_of key es), Since = t\<rparr>"
    using spec_run_counts [OF _ only, where n = 1 and t = t] hist win
    by (simp add: spec_run_def)
  moreover have "live ?r now = expire (window l) now (live ?r (end_time t es))"
    using now wr by (simp add: live_def)
  ultimately have "live ?r now key =
      (if window l \<le> time_sub now t then None
       else Some \<lparr>Count = 1 + int (failures_of key es), Since = t\<rparr>)"
    using ref(1) by (simp add: expire_def)
  then show ?thesis using reached ref(2) by (simp add: live_verdict)
qed

section \<open>The contract at capacity\<close>

text \<open>
  Counting a failure, with the bound on the number of buckets: a key without a running window that fails
  while \<open>cap\<close> windows are running takes the place of one that was opened first. The contract leaves open
  which one that is when several were opened at the same instant, as \<open>range\<close> over the map does.
\<close>

definition spec_fail :: "int \<Rightarrow> int \<Rightarrow> string \<Rightarrow> buckets \<Rightarrow> buckets \<Rightarrow> bool" where
  "spec_fail cap t k m m' \<longleftrightarrow>
     (if m k \<noteq> None \<or> int (card (dom m)) < cap then m' = count_failure t k m
      else \<exists>v a. m v = Some a \<and> (\<forall>k' b. m k' = Some b \<longrightarrow> Since a \<le> Since b) \<and>
             m' = count_failure t k (m(v := None)))"

definition spec_answer :: "int \<Rightarrow> string \<Rightarrow> buckets \<Rightarrow> bool" where
  "spec_answer mx k m \<longleftrightarrow> (case m k of None \<Rightarrow> True | Some a \<Rightarrow> Count a < mx)"

text \<open>The histories of the contract: events, the answers of \<open>Allowed\<close> in order, and the counts after them.\<close>

inductive contract :: "int \<Rightarrow> int \<Rightarrow> int \<Rightarrow> buckets \<Rightarrow> limiter_event list \<Rightarrow> bool list \<Rightarrow> buckets \<Rightarrow> bool"
  for win mx cap where
  Nothing: "contract win mx cap m [] [] m"
| Ask: "contract win mx cap (expire win t m) es outs m' \<Longrightarrow> ans = spec_answer mx k (expire win t m) \<Longrightarrow>
    contract win mx cap m (EvAllowed t k # es) (ans # outs) m'"
| Failure: "spec_fail cap t k (expire win t m) m1 \<Longrightarrow> contract win mx cap m1 es outs m' \<Longrightarrow>
    contract win mx cap m (EvFail order t k # es) outs m'"
| Forget: "contract win mx cap ((expire win t m)(k := None)) es outs m' \<Longrightarrow>
    contract win mx cap m (EvSuccess t k # es) outs m'"

fun limiter_answers :: "limiter_event list \<Rightarrow> LoginLimiter \<Rightarrow> bool list" where
  "limiter_answers [] l = []"
| "limiter_answers (EvAllowed t k # es) l =
     fst (Allowed t k l) # limiter_answers es (limiter_step (EvAllowed t k) l)"
| "limiter_answers (e # es) l = limiter_answers es (limiter_step e l)"

text \<open>Every eviction of a run visits all the buckets there are.\<close>

fun orders_visit :: "limiter_event list \<Rightarrow> LoginLimiter \<Rightarrow> bool" where
  "orders_visit [] l = True"
| "orders_visit (e # es) l =
     ((case e of EvFail order t k \<Rightarrow> visits_all order l | _ \<Rightarrow> True) \<and> orders_visit es (limiter_step e l))"

lemma dom_live: "dom (live l now) \<subseteq> fset (fmdom (entries l))"
  by (auto simp: live_def expire_def fmlookup_dom_iff split: option.split_asm)

lemma card_dom_live: "card (dom (live l now)) \<le> fmcount (entries l)"
  unfolding fmcount_def fcard.rep_eq using dom_live by (intro card_mono) auto

lemma live_forced:
  assumes "buckets_ok l"
  shows "fmlookup (entries (cleanupLocked now True l)) = live l now"
proof (rule ext)
  fix k
  show "fmlookup (entries (cleanupLocked now True l)) k = live l now k"
    using inv_drops [OF assms, of k _ now]
    by (auto simp: cleanup_forced live_def expire_def window_over_def split: option.split)
qed

lemma live_Fail_upd:
  assumes "entries (Fail order now key l) = fmupd key (next_bucket l now key) (entries l2)"
    and "0 < window l" "window l2 = window l" "live l2 now key = live l now key"
  shows "live (Fail order now key l) now = count_failure now key (live l2 now)"
proof (rule ext)
  fix k
  show "live (Fail order now key l) now k = count_failure now key (live l2 now) k"
  proof (cases "k = key")
    case True
    then show ?thesis using assms(1,2) unfolding count_failure_def assms(4)
      by (auto simp: live_def expire_def next_bucket_def window_over_def split: option.splits if_splits)
  next
    case False
    then show ?thesis using assms(1,3) by (simp add: live_def expire_def count_failure_def)
  qed
qed

lemma evicted_oldest:
  fixes now :: int
  assumes "buckets_ok l" "visits_all order l" "entries l \<noteq> fmempty"
  defines "v \<equiv> oldest (fmlookup (entries l)) order [] now"
  shows "v \<noteq> []" and "\<exists>a. fmlookup (entries l) v = Some a \<and> (\<forall>k b. fmlookup (entries l) k = Some b \<longrightarrow> Since a \<le> Since b)"
proof -
  obtain k a where k: "fmlookup (entries l) k = Some a"
    using assms(3) by (metis fmap_ext fmempty_lookup option.exhaust)
  have all: "k \<in> set order" if "fmlookup (entries l) k = Some a" for k a
    using that assms(2) by (auto simp: visits_all_def dest: fmdomI)
  have ne: "\<forall>k \<in> set order. fmlookup (entries l) k \<noteq> None \<longrightarrow> k \<noteq> []"
    using inv_bucket [OF assms(1)] by (fastforce simp: bucket_ok_def)
  then show v: "v \<noteq> []" using k all unfolding v_def by (intro oldest_nonempty) auto
  show "\<exists>a. fmlookup (entries l) v = Some a \<and> (\<forall>k b. fmlookup (entries l) k = Some b \<longrightarrow> Since a \<le> Since b)"
    using oldest_minimal [OF ne, of "[]" now] v all unfolding v_def by blast
qed

text \<open>A step that does not evict, and one that does.\<close>

lemma spec_fail_room:
  "m k \<noteq> None \<or> int (card (dom m)) < cap \<Longrightarrow> spec_fail cap t k m (count_failure t k m)"
  by (simp add: spec_fail_def)

lemma room_at_key:
  assumes "limiter_inv l" "fmlookup (entries l) key \<noteq> None"
  shows "live l now key \<noteq> None \<or> int (card (dom (live l now))) < capacity l"
proof (cases "live l now key")
  case None
  then have "key \<notin> dom (live l now)" "key \<in> fset (fmdom (entries l))"
    using assms(2) by (auto simp: fmlookup_dom_iff)
  then have "dom (live l now) \<subset> fset (fmdom (entries l))" using dom_live [of l now] by blast
  then have "card (dom (live l now)) < fmcount (entries l)"
    unfolding fmcount_def fcard.rep_eq by (intro psubset_card_mono) simp_all
  then show ?thesis using assms(1) by (auto simp: limiter_inv_def)
qed simp

lemma makeRoom_spec:
  fixes now :: int and key :: string
  assumes inv: "limiter_inv l" and ord: "visits_all order l"
  defines "l2 \<equiv> makeRoomLocked order now key l"
  shows "spec_fail (capacity l) now key (live l now) (count_failure now key (live l2 now)) \<and>
         live l2 now key = live l now key"
proof -
  let ?cc = "cleanupLocked now True l"
  have ok: "buckets_ok l" using inv by (rule inv_buckets_ok)
  have cc: "fmlookup (entries ?cc) = live l now" by (rule live_forced [OF ok])
  then have card: "card (dom (live l now)) = fmcount (entries ?cc)"
    unfolding fmcount_def fcard.rep_eq by (metis fmdom.rep_eq)
  consider (key) "fmlookup (entries l) key \<noteq> None" | (below) "int (fmcount (entries l)) < capacity l"
    | (swept) "fmlookup (entries l) key = None" "\<not> int (fmcount (entries l)) < capacity l" "int (fmcount (entries ?cc)) < capacity l"
    | (full) "fmlookup (entries l) key = None" "\<not> int (fmcount (entries l)) < capacity l" "\<not> int (fmcount (entries ?cc)) < capacity l"
    by linarith
  then show ?thesis
  proof cases
    case key
    then have "l2 = l" by (simp add: l2_def makeRoomLocked_def)
    then show ?thesis using spec_fail_room room_at_key [OF inv key] by simp
  next
    case below
    then have "l2 = l" by (simp add: l2_def makeRoomLocked_def)
    moreover have "int (card (dom (live l now))) < capacity l" using below card_dom_live [of l now] by linarith
    ultimately show ?thesis using spec_fail_room by simp
  next
    case swept
    then have "l2 = ?cc" by (simp add: l2_def makeRoomLocked_def Let_def)
    then show ?thesis using spec_fail_room card swept(3) live_cleanup [OF ok] by simp
  next
    case full
    let ?v = "oldest (fmlookup (entries ?cc)) order [] now"
    have ok': "buckets_ok ?cc" "visits_all order ?cc" "entries ?cc \<noteq> fmempty"
      using cleanup_buckets_ok [OF ok] visits_all_cleanup [OF ord] full(3) inv by (auto simp: limiter_inv_def)
    note v = evicted_oldest [OF this, of now]
    have l2: "l2 = ?cc\<lparr>entries := fmdrop ?v (entries ?cc)\<rparr>"
      using full v(1) by (simp add: l2_def makeRoomLocked_def Let_def)
    have "live l2 now = (live ?cc now)(?v := None)" unfolding l2 by (auto simp: live_def expire_def fun_eq_iff)
    then have after: "live l2 now = (live l now)(?v := None)" using live_cleanup [OF ok] by simp
    have none: "live l now key = None" using full(1) by (simp add: live_def expire_def)
    show ?thesis using v(2) full(3) card none unfolding after spec_fail_def cc by auto
  qed
qed

lemma live_Fail_spec:
  assumes inv: "limiter_inv l" and ord: "visits_all order l"
  shows "spec_fail (capacity l) now key (live l now) (live (Fail order now key l) now)"
proof -
  let ?c = "cleanupLocked now False l"
  have ok: "buckets_ok l" "0 < window l" using inv by (simp_all add: limiter_inv_def)
  have live: "live ?c now = live l now" by (rule live_cleanup [OF ok(1)])
  obtain l2 where l2: "entries (Fail order now key l) = fmupd key (next_bucket l now key) (entries l2)"
    "l2 = ?c \<and> fmlookup (entries l2) key \<noteq> None \<or> l2 = makeRoomLocked order now key ?c"
    using Fail_entries [OF inv] by blast
  have inv': "limiter_inv ?c" using inv by (rule cleanup_inv)
  have "spec_fail (capacity l) now key (live l now) (count_failure now key (live l2 now)) \<and> live l2 now key = live l now key"
    using l2(2) makeRoom_spec [OF inv' visits_all_cleanup [OF ord], of now key] room_at_key [OF inv', of key now]
      spec_fail_room live by auto
  moreover have "window l2 = window l" using l2(2) by auto
  ultimately show ?thesis using live_Fail_upd [OF l2(1) ok(2)] by simp
qed

lemma limiter_step_inv:
  assumes "limiter_inv l" "history t [e]" "orders_visit [e] l"
  shows "limiter_inv (limiter_step e l)"
  using assms by (cases e) (auto intro: Allowed_inv Fail_inv Success_inv)

section \<open>The interface the login handler uses\<close>

text \<open>
  A rate gate: it answers for a key, counts failures of a key and forgets a key. The laws say what
  the answers are and that every operation keeps the gate well-formed.
\<close>

locale rate_gate =
  fixes good :: "'l \<Rightarrow> bool"
    and pass :: "'l \<Rightarrow> int \<Rightarrow> string \<Rightarrow> bool"
    and allowed :: "int \<Rightarrow> string \<Rightarrow> 'l \<Rightarrow> bool \<times> 'l"
    and fail :: "'o \<Rightarrow> int \<Rightarrow> string \<Rightarrow> 'l \<Rightarrow> 'l"
    and success :: "string \<Rightarrow> 'l \<Rightarrow> 'l"
    and fits :: "'o \<Rightarrow> 'l \<Rightarrow> bool"
  assumes allowed_pass: "good l \<Longrightarrow> fst (allowed now k l) = pass l now k"
    and allowed_good: "good l \<Longrightarrow> good (snd (allowed now k l))"
    and fail_good: "good l \<Longrightarrow> fits ord l \<Longrightarrow> k \<noteq> [] \<Longrightarrow> 0 < now \<Longrightarrow> good (fail ord now k l)"
    and success_good: "good l \<Longrightarrow> good (success k l)"
    and success_pass: "pass (success k l) now k"
    and allowed_fits: "fits ord l \<Longrightarrow> fits ord (snd (allowed now k l))"
begin

lemma allowed_elim:
  assumes "good l"
  obtains l' where "allowed now k l = (pass l now k, l')" "good l'"
  using allowed_pass [OF assms, of now k] allowed_good [OF assms, of now k]
  by (cases "allowed now k l") auto

lemma refused_keeps_good:
  "good l \<Longrightarrow> fits ord l \<Longrightarrow> k \<noteq> [] \<Longrightarrow> 0 < now \<Longrightarrow>
   good (fail ord now k (snd (allowed now k l)))"
  by (intro fail_good allowed_good allowed_fits)

end

lemma visits_all_Allowed: "visits_all ord l \<Longrightarrow> visits_all ord (snd (Allowed now k l))"
  using visits_all_cleanup [of ord l now False]
  by (auto simp: Allowed_def Let_def visits_all_def split: option.split)

lemma Success_verdict: "verdict (Success k l) now k"
  by (simp add: Success_def verdict_def)

interpretation gate: rate_gate limiter_inv verdict Allowed Fail Success visits_all
proof
  show "fst (Allowed now k l) = verdict l now k" if "limiter_inv l" for l now k
    using that by (intro Allowed_verdict inv_buckets_ok)
qed (auto intro: Allowed_inv Fail_inv Success_inv Success_verdict visits_all_Allowed)

section \<open>Properties\<close>

text \<open>Every operation keeps the limiter well-formed; in particular it never holds more than
  \<open>capacity\<close> buckets, whatever keys fail, and a new limiter is well-formed.\<close>

theorem limiter_bounded:
  assumes "limiter_inv l" and "visits_all order l" and "key \<noteq> []" and "0 < now"
  shows "limiter_inv (snd (Allowed now key l)) \<and> limiter_inv (Fail order now key l) \<and>
         limiter_inv (Success key l) \<and> limiter_inv (newLoginLimiter mx win cap) \<and>
         int (fmcount (entries (Fail order now key l))) \<le> capacity l"
proof -
  have "limiter_inv (Fail order now key l)" using assms by (rule Fail_inv)
  moreover have "capacity (Fail order now key l) = capacity l"
    by (simp add: Fail_def Let_def makeRoomLocked_def)
  ultimately show ?thesis
    using assms Allowed_inv Success_inv newLoginLimiter_inv by (auto simp: limiter_inv_def)
qed

theorem limiter_bounded_witness:
  "limiter_inv (Fail [] 7 ''k'' (NewLoginLimiter 3 60)) \<and>
   int (fmcount (entries (Fail [] 7 ''k'' (NewLoginLimiter 3 60)))) \<le> 8192"
  using limiter_bounded [of "NewLoginLimiter 3 60" "[]" "''k''" 7]
    newLoginLimiter_inv [of 3 60 defaultLimiterCapacity]
  by (simp add: NewLoginLimiter_def visits_all_def newLoginLimiter_def defaultLimiterCapacity_def)

text \<open>(C25) The limiter with its sweeps, its bounded map and its eviction implements the contract: in every
  history its answers are those of counting, for every key, the failures of the running window, and
  the counts it holds are the contract's. A key that fails while \<open>capacity\<close> other windows run displaces
  one that was opened first; nothing else is ever forgotten.\<close>

theorem limiter_refines:
  assumes "limiter_inv l" and "history t es" and "orders_visit es l"
  shows "contract (window l) (max_fails l) (capacity l) (live l t) es (limiter_answers es l)
           (live (limiter_run es l) (end_time t es))"
  using assms
proof (induction es arbitrary: l t)
  case Nil
  then show ?case by (simp add: limiter_run_def contract.Nothing)
next
  case (Cons e es)
  let ?l = "limiter_step e l"
  have inv: "limiter_inv ?l" using Cons.prems by (intro limiter_step_inv [where t = t]) auto
  have ok: "buckets_ok l" using Cons.prems(1) by (rule inv_buckets_ok)
  have rest: "contract (window l) (max_fails l) (capacity l) (live ?l (ev_time e)) es (limiter_answers es ?l)
       (live (limiter_run (e # es) l) (end_time t (e # es)))"
    using Cons.IH [OF inv, of "ev_time e"] Cons.prems(2,3) by (simp add: limiter_run_def)
  have now: "live l (ev_time e) = expire (window l) (ev_time e) (live l t)"
    using Cons.prems(2) by (simp add: live_def)
  show ?case
  proof (cases e)
    case (EvAllowed s k)
    have "fst (Allowed s k l) = spec_answer (max_fails l) k (live l s)"
      by (simp add: Allowed_verdict [OF ok] live_verdict spec_answer_def)
    then show ?thesis using rest EvAllowed now live_Allowed [OF ok, of s k] by (auto intro!: contract.Ask)
  next
    case (EvFail order s k)
    have "spec_fail (capacity l) s k (live l s) (live ?l s)"
      using live_Fail_spec [OF Cons.prems(1)] Cons.prems(3) EvFail by simp
    then show ?thesis using rest EvFail now by (auto intro!: contract.Failure)
  next
    case (EvSuccess s k)
    then show ?thesis using rest now live_Success [of k l s] by (auto intro!: contract.Forget)
  qed
qed

lemma sample_evicts:
  "limiter_answers [EvFail [] 5 ''a'', EvFail [''a''] 6 ''b'', EvAllowed 7 ''a'', EvAllowed 8 ''b''] (newLoginLimiter 1 60 1) = [True, False]"
  "orders_visit [EvFail [] 5 ''a'', EvFail [''a''] 6 ''b'', EvAllowed 7 ''a'', EvAllowed 8 ''b''] (newLoginLimiter 1 60 1)"
  by code_simp+

theorem limiter_refines_witness:
  "\<exists>m. contract 60 1 1 (\<lambda>k. None) [EvFail [] 5 ''a'', EvFail [''a''] 6 ''b'', EvAllowed 7 ''a'', EvAllowed 8 ''b''] [True, False] m"
proof -
  have "live (newLoginLimiter 1 60 1) 1 = (\<lambda>k. None)" "window (newLoginLimiter 1 60 1) = 60"
    "max_fails (newLoginLimiter 1 60 1) = 1" "capacity (newLoginLimiter 1 60 1) = 1"
    by (simp_all add: newLoginLimiter_def live_def expire_def fun_eq_iff)
  moreover have "history 1 [EvFail [] 5 ''a'', EvFail [''a''] 6 ''b'', EvAllowed 7 ''a'', EvAllowed 8 ''b'']" by simp
  note limiter_refines [OF newLoginLimiter_inv this sample_evicts(2)]
  ultimately show ?thesis unfolding sample_evicts(1) by auto
qed

text \<open>Lock-out: a key that has no running window and fails at \<open>t\<close> is refused, once it has failed
  \<open>max_fails\<close> times in the window opened then, at every later instant until that window is over,
  and at none after it, whatever other keys do in between.\<close>

theorem limiter_lockout:
  assumes "buckets_ok l" and "0 < window l" and "live l t key = None"
    and "history t (EvFail order t key # es)"
    and "\<forall>e \<in> set es. other_key key e \<or> (\<exists>ord s. e = EvFail ord s key)"
    and "\<forall>e \<in> set es. time_sub (ev_time e) t < window l"
    and "int (fmcount (entries l) + Suc (length es)) \<le> capacity l"
    and "end_time t es \<le> now" and "max_fails l \<le> 1 + int (failures_of key es)"
  shows "verdict (limiter_run (EvFail order t key # es) l) now key \<longleftrightarrow> window l \<le> time_sub now t"
  by (rule lockout_run [OF assms])

theorem limiter_lockout_witness:
  "\<not> verdict (limiter_run [EvFail [] 5 ''k'', EvFail [] 8 ''k''] (NewLoginLimiter 2 60)) 20 ''k'' \<and>
   verdict (limiter_run [EvFail [] 5 ''k'', EvFail [] 8 ''k''] (NewLoginLimiter 2 60)) 65 ''k''"
proof -
  have "verdict (limiter_run [EvFail [] 5 ''k'', EvFail [] 8 ''k''] (NewLoginLimiter 2 60)) now ''k''
      \<longleftrightarrow> window (NewLoginLimiter 2 60) \<le> time_sub now 5" if "8 \<le> now" for now
    by (rule limiter_lockout) (use that in \<open>simp_all add: NewLoginLimiter_def newLoginLimiter_def
        defaultLimiterCapacity_def live_def expire_def other_key_def failures_of_def time_sub_def\<close>)
  from this [of 20] this [of 65] show ?thesis
    by (simp add: NewLoginLimiter_def newLoginLimiter_def time_sub_def)
qed

end
