(* ===== verification/Sessions.thy ===== *)
theory Sessions
  imports Prelude
begin

text \<open>
  The panel's sessions (\<open>internal/auth/session.go\<close>): a map from bearer tokens to the user and
  the instant the session expires. Instants and durations are nanoseconds. The 32 random bytes of
  a token are an argument of \<open>Create\<close>, \<open>None\<close> when the random source fails.
\<close>

record Session =
  Username :: string
  Expires :: int

record Sessions =
  tokens :: "(string, Session) fmap"
  ttl :: int

definition NewSessions :: "int \<Rightarrow> Sessions" where
  "NewSessions t = \<lparr>tokens = fmempty, ttl = t\<rparr>"

definition pruneExpiredLocked :: "int \<Rightarrow> Sessions \<Rightarrow> Sessions" where
  "pruneExpiredLocked now s =
     s\<lparr>tokens := fmprune (\<lambda>tok v. now < Expires v) (tokens s)\<rparr>"

definition Create :: "nat list option \<Rightarrow> int \<Rightarrow> string \<Rightarrow> Sessions \<Rightarrow> string res \<times> Sessions" where
  "Create random now username s =
     (case random of
        None \<Rightarrow> (Inl (ErrNew ''rand''), s)
      | Some buf \<Rightarrow>
          (let token = base64_raw_url buf;
               s1 = pruneExpiredLocked now s
           in (Inr token,
               s1\<lparr>tokens := fmupd token \<lparr>Username = username, Expires = now + ttl s1\<rparr> (tokens s1)\<rparr>)))"

definition Delete :: "string \<Rightarrow> Sessions \<Rightarrow> Sessions" where
  "Delete token s = s\<lparr>tokens := fmdrop token (tokens s)\<rparr>"

definition Valid :: "int \<Rightarrow> string \<Rightarrow> Sessions \<Rightarrow> bool \<times> Sessions" where
  "Valid now token s =
     (case fmlookup (tokens s) token of
        None \<Rightarrow> (False, s)
      | Some v \<Rightarrow> if Expires v < now then (False, Delete token s) else (True, s))"

definition UsernameOf :: "int \<Rightarrow> string \<Rightarrow> Sessions \<Rightarrow> string option \<times> Sessions" where
  "UsernameOf now token s =
     (case fmlookup (tokens s) token of
        None \<Rightarrow> (None, s)
      | Some v \<Rightarrow> if Expires v < now then (None, Delete token s) else (Some (Username v), s))"

definition RenameUser :: "string \<Rightarrow> string \<Rightarrow> Sessions \<Rightarrow> Sessions" where
  "RenameUser oldUsername newUsername s =
     (if oldUsername = [] \<or> newUsername = [] \<or> oldUsername = newUsername then s
      else s\<lparr>tokens := fmmap (\<lambda>v. if Username v = oldUsername then v\<lparr>Username := newUsername\<rparr> else v)
                         (tokens s)\<rparr>)"

definition Clear :: "Sessions \<Rightarrow> Sessions" where
  "Clear s = s\<lparr>tokens := fmempty\<rparr>"

section \<open>Who holds a session\<close>

text \<open>The abstraction: at an instant, the user a token speaks for.\<close>

definition holder :: "Sessions \<Rightarrow> int \<Rightarrow> string \<Rightarrow> string option" where
  "holder s now token =
     (case fmlookup (tokens s) token of
        None \<Rightarrow> None
      | Some v \<Rightarrow> if Expires v < now then None else Some (Username v))"

lemma UsernameOf_holder: "fst (UsernameOf now token s) = holder s now token"
  by (simp add: UsernameOf_def holder_def split: option.split)

lemma Valid_holder: "fst (Valid now token s) \<longleftrightarrow> holder s now token \<noteq> None"
  by (auto simp: Valid_def holder_def split: option.split)

text \<open>Looking never changes who holds a session now or later.\<close>

lemma holder_Valid:
  "now \<le> t \<Longrightarrow> holder (snd (Valid now token s)) t tok = holder s t tok"
  by (auto simp: Valid_def Delete_def holder_def split: option.split)

lemma holder_UsernameOf:
  "now \<le> t \<Longrightarrow> holder (snd (UsernameOf now token s)) t tok = holder s t tok"
  by (auto simp: UsernameOf_def Delete_def holder_def split: option.split)

lemma holder_Delete: "holder (Delete token s) t tok = (if tok = token then None else holder s t tok)"
  by (simp add: Delete_def holder_def)

lemma holder_Clear: "holder (Clear s) t tok = None"
  by (simp add: Clear_def holder_def)

lemma holder_prune:
  "now < t \<Longrightarrow> holder (pruneExpiredLocked now s) t tok = holder s t tok"
  by (auto simp: pruneExpiredLocked_def holder_def split: option.split)

lemma holder_Create:
  assumes "Create (Some buf) now username s = (Inr token, s')" and "now < t"
  shows "holder s' t tok =
     (if tok = token then if t \<le> now + ttl s then Some username else None else holder s t tok)"
  using assms holder_prune [of now t s tok]
  by (auto simp: Create_def Let_def holder_def pruneExpiredLocked_def)

lemma holder_RenameUser:
  "holder (RenameUser old new s) t tok =
     map_option (\<lambda>u. if old \<noteq> [] \<and> new \<noteq> [] \<and> u = old then new else u) (holder s t tok)"
  by (auto simp: RenameUser_def holder_def split: option.split)

section \<open>Properties\<close>

text \<open>A session that \<open>Create\<close> hands out speaks for its user at every later instant up to its
  lifetime and at none after it, it leaves the other sessions alone, and looking it up, deleting it,
  renaming its user or clearing the sessions has exactly the effect its name says.\<close>

theorem session_lifetime:
  assumes "Create (Some buf) now user s = (Inr token, s')" and "now < t"
  shows "(holder s' t token = Some user \<longleftrightarrow> t \<le> now + ttl s) \<and>
         (\<forall>tok. tok \<noteq> token \<longrightarrow> holder s' t tok = holder s t tok) \<and>
         fst (Valid t token s') = (t \<le> now + ttl s) \<and>
         fst (UsernameOf t token s') = holder s' t token \<and>
         holder (Delete token s') t token = None \<and>
         holder (RenameUser user new s') t token =
           (if t \<le> now + ttl s then Some (if user \<noteq> [] \<and> new \<noteq> [] then new else user) else None) \<and>
         holder (Clear s') t token = None"
  using holder_Create [OF assms]
  by (auto simp: Valid_holder UsernameOf_holder holder_Delete holder_RenameUser holder_Clear)

theorem session_lifetime_witness:
  "holder (snd (Create (Some [2, 3, 4]) 10 ''admin'' (NewSessions 100))) 110 ''AgME'' = Some ''admin'' \<and>
   holder (snd (Create (Some [2, 3, 4]) 10 ''admin'' (NewSessions 100))) 111 ''AgME'' \<noteq> Some ''admin''"
proof -
  obtain s' where s': "Create (Some [2, 3, 4]) 10 ''admin'' (NewSessions 100) = (Inr ''AgME'', s')"
    by (simp add: Create_def Let_def b64_char_def url_alphabet_def)
  show ?thesis
    using session_lifetime [OF s', of 110] session_lifetime [OF s', of 111]
    by (simp only: s' snd_conv) (simp add: NewSessions_def)
qed

end
