(* ===== verification/Login.thy ===== *)
theory Login
  imports Limiter Sessions Store Digest Address
begin

text \<open>
  Logging in, and the gate in front of every other handler (\<open>internal/server/server.go\<close>): whose address
  a request has behind trusted proxies, the rate limits, the comparison of the password, the session
  cookie, and the origin check.

  A request is what the handlers read of it: a header is the value \<open>Header.Get\<close> returns. \<open>bcrypt\<close> and
  \<open>url.Parse\<close> (scheme and host of a text) are arguments; so is the decoded body of a request, \<open>None\<close>
  where \<open>decodeJSON\<close> has answered that it is invalid. The clock is read anew for every limiter call.

  The handlers of this theory are one step each: they run from their first call to their last without
  another request in between. The server holds no lock around a login, so concurrent logins interleave
  between these calls; \<open>LoginTurns\<close> has the login call by call.
\<close>

section \<open>Requests and answers\<close>

record Req =
  rq_method :: string
  rq_path :: string
  rq_remote :: string
  rq_host :: string
  rq_tls :: bool
  rq_header :: "string \<Rightarrow> string"
  rq_cookie :: "string option"

record Web =
  w_url :: "string \<Rightarrow> (string \<times> string) option"
  w_compare :: "string \<Rightarrow> string \<Rightarrow> bool"
  w_dummy :: string
  w_trusted :: "Prefix list"

text \<open>\<open>writeError\<close> or \<open>writeJSON\<close> with a status.\<close>

datatype 'a answer = Refused int err | Answered int 'a

text \<open>\<open>fmt\<close> of a body that does not decode, shared by all handlers that take one.\<close>

definition with_body :: "'b option \<Rightarrow> ('b \<Rightarrow> 's \<Rightarrow> 'a answer \<times> 's) \<Rightarrow> 's \<Rightarrow> 'a answer \<times> 's" where
  "with_body body f s =
     (case body of None \<Rightarrow> (Refused 400 (ErrNew ''invalid request''), s) | Some b \<Rightarrow> f b s)"

section \<open>Addresses\<close>

definition trustedProxyPrefixes :: "string \<Rightarrow> Prefix list" where
  "trustedProxyPrefixes env =
     List.map_filter ParsePrefix [''127.0.0.0/8'', ''::1/128''] @
     List.map_filter (\<lambda>raw.
       let r = trim_space raw in
       if r = [] then None
       else case ParsePrefix r of
           Some p \<Rightarrow> Some p
         | None \<Rightarrow> map_option (\<lambda>a. (a, case a of V4 w \<Rightarrow> 32 | V6 w z \<Rightarrow> 128)) (ParseAddr r))
       (split_on (CHR '','') env)"

definition brackets :: string where
  "brackets = ''[]''"

definition directRemoteIP :: "Req \<Rightarrow> string" where
  "directRemoteIP r =
     (case SplitHostPort (trim_space (rq_remote r)) of
        Some (h, p) \<Rightarrow> trim_set brackets h
      | None \<Rightarrow> trim_set brackets (trim_space (rq_remote r)))"

definition without_zone :: "string \<Rightarrow> string" where
  "without_zone ip = (case last_index (CHR ''%'') ip of Some i \<Rightarrow> if i > 0 then take i ip else ip | None \<Rightarrow> ip)"

definition trustedProxy :: "Web \<Rightarrow> string \<Rightarrow> bool" where
  "trustedProxy w ip \<longleftrightarrow>
     (case ParseAddr (trim_set brackets (without_zone ip)) of
        None \<Rightarrow> False
      | Some a \<Rightarrow> list_ex (\<lambda>p. prefix_contains p a) (w_trusted w))"

text \<open>The text before the first \<open>%\<close> is an address.\<close>

definition address_like :: "string \<Rightarrow> bool" where
  "address_like c \<longleftrightarrow> ParseAddr (takeWhile (\<lambda>x. x \<noteq> CHR ''%'') c) \<noteq> None"

definition candidate :: "string \<Rightarrow> string" where
  "candidate part = trim_set brackets (trim_space part)"

text \<open>The loop over \<open>X-Forwarded-For\<close>, on its parts from the last to the first.\<close>

fun last_untrusted :: "Web \<Rightarrow> string list \<Rightarrow> string option" where
  "last_untrusted w [] = None"
| "last_untrusted w (p # ps) =
     (let c = candidate p in
      if c = [] \<or> \<not> address_like c \<or> trustedProxy w c then last_untrusted w ps else Some c)"

definition remoteIP :: "Web \<Rightarrow> Req \<Rightarrow> string" where
  "remoteIP w r =
     (let peer = directRemoteIP r in
      if \<not> trustedProxy w peer then peer
      else case last_untrusted w (rev (split_on (CHR '','') (rq_header r ''X-Forwarded-For''))) of
          Some c \<Rightarrow> c
        | None \<Rightarrow>
            (let c = candidate (rq_header r ''X-Real-IP'') in
             if c \<noteq> [] \<and> address_like c then c else peer))"

section \<open>The origin of a request\<close>

definition firstForwardedValue :: "string \<Rightarrow> string" where
  "firstForwardedValue v = trim_space (takeWhile (\<lambda>c. c \<noteq> CHR '','') v)"

definition saneHost :: "string \<Rightarrow> string" where
  "saneHost v =
     (let h = trim_space v in
      if length h > 512 \<or> contains_any h [CHR 0x5C, CHR ''/'', CHR 0x0D, CHR 0x0A, CHR 0x09] then [] else h)"

definition requestScheme :: "Web \<Rightarrow> Req \<Rightarrow> string" where
  "requestScheme w r =
     (if rq_tls r then ''https''
      else
        (let proto = to_lower (firstForwardedValue (rq_header r ''X-Forwarded-Proto'')) in
         if trustedProxy w (directRemoteIP r) \<and> (proto = ''https'' \<or> proto = ''http'') then proto
         else ''http''))"

definition requestHost :: "Web \<Rightarrow> Req \<Rightarrow> string" where
  "requestHost w r =
     (let h = saneHost (firstForwardedValue (rq_header r ''X-Forwarded-Host'')) in
      if trustedProxy w (directRemoteIP r) \<and> h \<noteq> [] then h else saneHost (rq_host r))"

definition sameOriginURL :: "Web \<Rightarrow> string \<Rightarrow> Req \<Rightarrow> bool" where
  "sameOriginURL w raw r \<longleftrightarrow>
     (case w_url w (trim_space raw) of
        None \<Rightarrow> False
      | Some (scheme, host) \<Rightarrow> equal_fold scheme (requestScheme w r) \<and> equal_fold host (requestHost w r))"

definition sameOrigin :: "Web \<Rightarrow> Req \<Rightarrow> bool" where
  "sameOrigin w r \<longleftrightarrow>
     (let origin = trim_space (rq_header r ''Origin''); ref = trim_space (rq_header r ''Referer'');
          site = to_lower (trim_space (rq_header r ''Sec-Fetch-Site'')) in
      if origin \<noteq> [] then sameOriginURL w origin r
      else if ref \<noteq> [] then sameOriginURL w ref r
      else site = [] \<or> site = ''same-origin'' \<or> site = ''none'')"

section \<open>Sessions and limits\<close>

record Auth =
  au_sessions :: Sessions
  au_login :: LoginLimiter
  au_ip :: LoginLimiter

definition hour :: int where
  "hour = 60 * minute"

definition NewAuth :: Auth where
  "NewAuth = \<lparr>au_sessions = NewSessions (24 * hour), au_login = NewLoginLimiter 8 (10 * minute),
              au_ip = NewLoginLimiter 24 (30 * minute)\<rparr>"

definition loginRateKey :: "string \<Rightarrow> string \<Rightarrow> string" where
  "loginRateKey ip username =
     ip @ ''|'' @ hex_encode (take 16 (Sum256 (to_lower (trim_space username))))"

text \<open>The clock at each call, the orders in which an eviction visits the maps, and the random bytes.\<close>

record Moment =
  mo_ip :: int
  mo_key :: int
  mo_fail_key :: int
  mo_fail_ip :: int
  mo_create :: int
  mo_order_key :: "string list"
  mo_order_ip :: "string list"
  mo_random :: "nat list option"

definition login_gate :: "Moment \<Rightarrow> string \<Rightarrow> string \<Rightarrow> Auth \<Rightarrow> bool \<times> Auth" where
  "login_gate mo ip key au =
     (let (ok1, l1) = Allowed (mo_ip mo) ip (au_ip au); a1 = au\<lparr>au_ip := l1\<rparr> in
      if \<not> ok1 then (False, a1)
      else
        (let (ok2, l2) = Allowed (mo_key mo) key (au_login a1) in (ok2, a1\<lparr>au_login := l2\<rparr>)))"

definition login_failed :: "Moment \<Rightarrow> string \<Rightarrow> string \<Rightarrow> Auth \<Rightarrow> Auth" where
  "login_failed mo ip key au =
     au\<lparr>au_login := Fail (mo_order_key mo) (mo_fail_key mo) key (au_login au),
        au_ip := Fail (mo_order_ip mo) (mo_fail_ip mo) ip (au_ip au)\<rparr>"

definition login_cleared :: "string \<Rightarrow> string \<Rightarrow> Auth \<Rightarrow> Auth" where
  "login_cleared ip key au =
     au\<lparr>au_login := Success key (au_login au), au_ip := Success ip (au_ip au)\<rparr>"

text \<open>An unknown user is compared with a hash of its own, so that both cases take the same time.\<close>

definition login_accepts :: "Web \<Rightarrow> Engine \<Rightarrow> Db \<Rightarrow> string \<Rightarrow> string \<Rightarrow> Admin option" where
  "login_accepts w eng db username password =
     (let found = AdminByName eng username db;
          hash = (case found of Inr a \<Rightarrow> adm_PasswordHash a | Inl e \<Rightarrow> w_dummy w);
          same = w_compare w hash password;
          invalidSize = (username = [] \<or> length username > 128 \<or> length password > 1024)
      in case found of
           Inl e \<Rightarrow> None
         | Inr a \<Rightarrow> if invalidSize \<or> \<not> same then None else Some a)"

definition login ::
    "Web \<Rightarrow> Engine \<Rightarrow> Db \<Rightarrow> Moment \<Rightarrow> Req \<Rightarrow> (string \<times> string) option \<Rightarrow> Auth \<Rightarrow> string answer \<times> Auth" where
  "login w eng db mo r body =
     with_body body (\<lambda>(user, password) au.
       (let username = trim_space user; ip = remoteIP w r; key = loginRateKey ip username;
            (ok, a1) = login_gate mo ip key au in
        if \<not> ok then (Refused 429 (ErrNew ''too many login attempts; try again later''), a1)
        else case login_accepts w eng db username password of
            None \<Rightarrow> (Refused 401 (ErrNew ''invalid credentials''), login_failed mo ip key a1)
          | Some admin \<Rightarrow>
              (let a2 = login_cleared ip key a1 in
               case Create (mo_random mo) (mo_create mo) (adm_Username admin) (au_sessions a2) of
                 (Inl e, ss) \<Rightarrow> (Refused 500 (ErrNew ''session failure''), a2\<lparr>au_sessions := ss\<rparr>)
               | (Inr token, ss) \<Rightarrow> (Answered 200 token, a2\<lparr>au_sessions := ss\<rparr>))))"

text \<open>The answer of \<open>login\<close> carries the token that the cookie holds.\<close>

definition logout :: "Req \<Rightarrow> Auth \<Rightarrow> unit answer \<times> Auth" where
  "logout r au =
     (Answered 200 (),
      case rq_cookie r of None \<Rightarrow> au | Some token \<Rightarrow> au\<lparr>au_sessions := Delete token (au_sessions au)\<rparr>)"

definition safe_method :: "Req \<Rightarrow> bool" where
  "safe_method r \<longleftrightarrow> rq_method r = ''GET'' \<or> rq_method r = ''HEAD''"

definition request_gate :: "Web \<Rightarrow> int \<Rightarrow> Req \<Rightarrow> Sessions \<Rightarrow> (int \<times> err) option \<times> Sessions" where
  "request_gate w now r ss =
     (case rq_cookie r of
        None \<Rightarrow> (Some (401, ErrNew ''unauthorized''), ss)
      | Some token \<Rightarrow>
          (let (ok, ss') = Valid now token ss in
           if \<not> ok then (Some (401, ErrNew ''unauthorized''), ss')
           else if \<not> safe_method r \<and> \<not> sameOrigin w r
           then (Some (403, ErrNew ''cross-origin request rejected''), ss')
           else (None, ss')))"

text \<open>A handler behind the gate, on the sessions and whatever state it has besides.\<close>

definition require ::
    "Web \<Rightarrow> int \<Rightarrow> Req \<Rightarrow> (Sessions \<times> 's \<Rightarrow> 'a answer \<times> Sessions \<times> 's) \<Rightarrow> Sessions \<times> 's \<Rightarrow>
     'a answer \<times> Sessions \<times> 's" where
  "require w now r nxt s =
     (case request_gate w now r (fst s) of
        (Some (code, e), ss) \<Rightarrow> (Refused code e, ss, snd s)
      | (None, ss) \<Rightarrow> nxt (ss, snd s))"

definition sessionUsername :: "int \<Rightarrow> Req \<Rightarrow> Sessions \<Rightarrow> string option \<times> Sessions" where
  "sessionUsername now r ss =
     (case rq_cookie r of None \<Rightarrow> (None, ss) | Some token \<Rightarrow> UsernameOf now token ss)"

end
