(* ===== verification/PanelUpdate.thy ===== *)
theory PanelUpdate
  imports SelfUpdate FirewallPending Login
begin

text \<open>
  The handlers that run commands on the host or update the panel (\<open>internal/server/extra.go\<close>,
  \<open>operations.go\<close>), and what an update promises: whatever fails, the machine keeps a binary that runs, and
  no update starts while a firewall change waits for its confirmation.
\<close>

section \<open>Logs and restarts\<close>

text \<open>The names of the services the program was started with; empty when there are none.\<close>

record Services =
  sc_xray :: string
  sc_panel :: string

text \<open>\<open>strconv.Atoi\<close> with its error ignored: a number out of range gives the nearest bound.\<close>

definition atoi_value :: "string \<Rightarrow> int" where
  "atoi_value s =
     (case atoi s of
        Some n \<Rightarrow> n
      | None \<Rightarrow>
          (case parse_nat (if s \<noteq> [] \<and> (hd s = CHR ''-'' \<or> hd s = CHR ''+'') then tl s else s) of
             None \<Rightarrow> 0
           | Some n \<Rightarrow> if hd s = CHR ''-'' then - (2 ^ 63) else 2 ^ 63 - 1))"

datatype log_payload = LogText string string | LogFile string string

definition logs :: "Services \<Rightarrow> shell \<Rightarrow> string \<Rightarrow> string \<Rightarrow> string \<Rightarrow> log_payload answer" where
  "logs sc sh q_service q_lines q_download =
     (let service = to_lower (trim_space q_service) in
      if service \<noteq> ''xray'' \<and> service \<noteq> ''xport'' then Refused 400 (ErrNew ''service must be xray or xport'')
      else let unit_name = (if service = ''xray'' then sc_xray sc else sc_panel sc) in
        if unit_name = [] then Refused 503 (ErrNew ''service logging is not configured'')
        else case Journal sh unit_name (atoi_value q_lines) of
          Inl e \<Rightarrow> Refused 502 e
        | Inr text_out \<Rightarrow>
            Answered 200 (if q_download = ''1'' then LogFile (''xport-'' @ service @ ''-log.txt'') text_out
                          else LogText service text_out))"

definition restartXray :: "Services \<Rightarrow> shell \<Rightarrow> unit answer" where
  "restartXray sc sh =
     (if sc_xray sc = [] then Refused 503 (ErrNew ''Xray service is not configured'')
      else case RestartService sh (sc_xray sc) of Inl e \<Rightarrow> Refused 502 e | Inr _ \<Rightarrow> Answered 200 ())"

definition restartPanel :: "Services \<Rightarrow> shell \<Rightarrow> (int \<Rightarrow> string) \<Rightarrow> int \<Rightarrow> unit answer" where
  "restartPanel sc sh dur now =
     (if sc_panel sc = [] then Refused 503 (ErrNew ''panel service is not configured'')
      else case ScheduleRestart sh dur now (sc_panel sc) second of Inl e \<Rightarrow> Refused 502 e | Inr _ \<Rightarrow> Answered 202 ())"

section \<open>Pending firewall changes\<close>

text \<open>An entry that cannot be read counts as pending; one whose deadline passed a minute ago does not.\<close>

definition blocks_update :: "Codec \<Rightarrow> int \<Rightarrow> string \<Rightarrow> string \<Rightarrow> bool" where
  "blocks_update c now key v \<longleftrightarrow>
     has_prefix key ''firewall_pending:'' \<and> v \<noteq> [] \<and>
     (case dec_pending c v of None \<Rightarrow> True | Some p \<Rightarrow> p_Deadline p \<le> 0 \<or> now < add64 (p_Deadline p) 60000)"

definition hasPendingFirewallChanges :: "Codec \<Rightarrow> Engine \<Rightarrow> int \<Rightarrow> Db \<Rightarrow> bool res" where
  "hasPendingFirewallChanges c eng now db =
     bindR (Settings eng db) (\<lambda>m. Inr (\<not> fmpred (\<lambda>k v. \<not> blocks_update c now k v) m))"

definition panelUpdateState :: "Codec \<Rightarrow> Engine \<Rightarrow> int \<Rightarrow> Db \<Rightarrow> bool answer" where
  "panelUpdateState c eng now db =
     (case hasPendingFirewallChanges c eng now db of
        Inl e \<Rightarrow> Refused 500 (ErrNew ''cannot verify pending firewall changes'')
      | Inr b \<Rightarrow> Answered 200 b)"

section \<open>Updating the panel\<close>

text \<open>What the program is (version, token, architecture) and what the world answers during one update;
  the two looks at the settings come at two times.\<close>

record Update_world =
  uw_exe :: "string res"
  uw_version :: string
  uw_token :: string
  uw_arch :: string
  uw_api :: "release list res net"
  uw_files :: "(string \<times> err option) net"
  uw_run :: "string \<Rightarrow> ran"
  uw_staging :: Staging
  uw_restoring :: Restoring
  uw_shell :: shell
  uw_dur :: "int \<Rightarrow> string"
  uw_nano :: int

record Look =
  lk_eng :: Engine
  lk_now :: int
  lk_db :: Db

definition look :: "Codec \<Rightarrow> Look \<Rightarrow> bool res" where
  "look c lk = hasPendingFirewallChanges c (lk_eng lk) (lk_now lk) (lk_db lk)"

definition panelSelfUpdater :: "Update_world \<Rightarrow> Updater res" where
  "panelSelfUpdater uw =
     bindR (uw_exe uw) (\<lambda>exe. Inr \<lparr>up_CurrentVersion = uw_version uw, up_BinaryPath = exe, up_Repo = ''Kerberos255/X-port'',
       up_Token = uw_token uw, up_ReleasesURL = [], up_Arch = uw_arch uw\<rparr>)"

definition checkPanelUpdate :: "Update_world \<Rightarrow> UpdateInfo answer" where
  "checkPanelUpdate uw =
     (case panelSelfUpdater uw of
        Inl e \<Rightarrow> Refused 500 e
      | Inr u \<Rightarrow> (case Check u (uw_api uw) of Inl e \<Rightarrow> Refused 502 e | Inr (info, _) \<Rightarrow> Answered 200 info))"

datatype update_payload = UpToDate UpdateInfo | Scheduled UpdateInfo

definition put_back :: "Updater \<Rightarrow> Update_world \<Rightarrow> string \<Rightarrow> files \<Rightarrow> unit res \<times> files" where
  "put_back u uw previous fs = SelfUpdate.Restore u (uw_restoring uw) previous fs"

definition updatePanel ::
    "Services \<Rightarrow> Codec \<Rightarrow> Look \<Rightarrow> Look \<Rightarrow> Update_world \<Rightarrow> files \<Rightarrow> update_payload answer \<times> files" where
  "updatePanel sc c look1 look2 uw fs =
     (if sc_panel sc = [] then (Refused 503 (ErrNew ''panel service is not configured''), fs)
      else case look c look1 of
        Inl e \<Rightarrow> (Refused 500 (ErrNew ''cannot verify pending firewall changes''), fs)
      | Inr True \<Rightarrow> (Refused 409 (ErrNew ''confirm or restore pending firewall changes before updating X-port''), fs)
      | Inr False \<Rightarrow>
          (case panelSelfUpdater uw of
             Inl e \<Rightarrow> (Refused 500 e, fs)
           | Inr u \<Rightarrow>
               (case Stage u (uw_api uw) (uw_files uw) (uw_run uw) (uw_staging uw) fs of
                  (Inl e, fs1) \<Rightarrow> (Refused 502 e, fs1)
                | (Inr (info, previous), fs1) \<Rightarrow>
                    if previous = [] then (Answered 200 (UpToDate info), fs1)
                    else let binary = trim_suffix previous ''.previous'' in
                      case look c look2 of
                        Inr False \<Rightarrow>
                          (case ScheduleVerifiedBinaryRestart (uw_shell uw) (uw_dur uw) (uw_nano uw) (sc_panel sc) binary previous second of
                             Inl e \<Rightarrow> (Refused 502 (Errorf ''could not schedule verified X-port restart: '' [] [e]),
                                      snd (put_back u uw previous fs1))
                           | Inr _ \<Rightarrow> (Answered 202 (Scheduled info), fs1))
                      | p2 \<Rightarrow>
                          (case put_back u uw previous fs1 of
                             (Inl e, fs2) \<Rightarrow> (Refused 500 (Errorf ''update deferred; failed to restore staged binary: '' [] [e]), fs2)
                           | (Inr _, fs2) \<Rightarrow>
                               (case p2 of
                                  Inl e \<Rightarrow> Refused 500 (ErrNew ''cannot verify pending firewall changes'')
                                | Inr _ \<Rightarrow> Refused 409 (ErrNew ''firewall confirmation is pending; update deferred''), fs2)))))"

section \<open>What an update leaves\<close>

lemma pending_exact:
  "look c lk = Inr b \<longleftrightarrow>
    (\<exists>m. Settings (lk_eng lk) (lk_db lk) = Inr m \<and> (b \<longleftrightarrow> (\<exists>k v. fmlookup m k = Some v \<and> blocks_update c (lk_now lk) k v)))"
  by (auto simp: look_def hasPendingFirewallChanges_def fmpred_iff)

lemma put_back_binary:
  assumes "fs1 (binary @ ''.previous'') = Some old" "binary = managed u (rs_resolved (uw_restoring uw))"
    and "rs_stat (uw_restoring uw) = None" "rs_rename (uw_restoring uw) = None"
  shows "snd (put_back u uw (binary @ ''.previous'') fs1) binary = Some old"
  using assms by (simp add: put_back_def SelfUpdate.Restore_def Let_def stat_file_def rename_file_def remove_file_def)

lemma trim_previous: "trim_suffix (b @ ''.previous'') ''.previous'' = b"
  by (simp add: trim_suffix_def has_suffix_def has_prefix_def)

text \<open>The binary of the panel, as the updater finds it.\<close>

definition panel_binary :: "Update_world \<Rightarrow> string \<Rightarrow> string" where
  "panel_binary uw exe = (case st_resolved (uw_staging uw) of Some r \<Rightarrow> r | None \<Rightarrow> exe)"

definition panel_updater :: "Update_world \<Rightarrow> string \<Rightarrow> Updater" where
  "panel_updater uw exe = \<lparr>up_CurrentVersion = uw_version uw, up_BinaryPath = exe, up_Repo = ''Kerberos255/X-port'',
     up_Token = uw_token uw, up_ReleasesURL = [], up_Arch = uw_arch uw\<rparr>"

text \<open>An update schedules a restart with a checked binary in place, or leaves the former one.\<close>

lemma updatePanel_cases:
  assumes "updatePanel sc c look1 look2 uw fs = (ans, fs')" and "uw_exe uw = Inr exe"
    and "binary = panel_binary uw exe" and "fs binary = Some old"
    and "st_back (uw_staging uw) = None" "rs_stat (uw_restoring uw) = None" "rs_rename (uw_restoring uw) = None"
      "rs_resolved (uw_restoring uw) = st_resolved (uw_staging uw)"
  obtains
    (scheduled) info data where "ans = Answered 202 (Scheduled info)" "look c look1 = Inr False" "look c look2 = Inr False"
      "vetted (panel_updater uw exe) (uw_api uw) (uw_run uw) data" "fs' binary = Some data" "fs' (binary @ ''.previous'') = Some old"
  | (kept) "fs' binary = Some old" "\<And>code info. ans \<noteq> Answered code (Scheduled info)"
proof -
  let ?u = "panel_updater uw exe" and ?b = "binary @ ''.previous''"
  have u: "panelSelfUpdater uw = Inr ?u" using assms(2) by (simp add: panelSelfUpdater_def panel_updater_def)
  have bin: "managed ?u (st_resolved (uw_staging uw)) = binary" "managed ?u (rs_resolved (uw_restoring uw)) = binary"
    using assms(3,8) by (auto simp: managed_def panel_binary_def panel_updater_def split: option.split)
  obtain q fs1 where s: "Stage ?u (uw_api uw) (uw_files uw) (uw_run uw) (uw_staging uw) fs = (q, fs1)" by (metis surj_pair)
  show thesis
  proof (cases "sc_panel sc \<noteq> [] \<and> look c look1 = Inr False")
    case False
    then show thesis using assms(1,4)
      by (intro kept) (auto simp: updatePanel_def split: if_split_asm sum.split_asm bool.split_asm)
  next
    case True
    from s assms(5) show thesis
    proof (cases rule: Stage_binary)
      case same
      have fs1: "fs1 binary = Some old" using same(1) bin assms(4) by simp
      show thesis
      proof (cases q)
        case (Inl e)
        then show thesis using assms(1) True u s fs1 by (intro kept) (auto simp: updatePanel_def)
      next
        case (Inr p)
        obtain info b where p: "p = (info, b)" by (cases p)
        then have "q = Inr (info, [])" using same(2) [of info b] Inr by simp
        then show thesis using assms(1) True u s fs1 by (intro kept) (auto simp: updatePanel_def)
      qed
    next
      case (staged info data old1)
      have pb: "snd (put_back ?u uw ?b fs1) binary = Some old"
        by (rule put_back_binary [OF _ bin(2) [symmetric] assms(6,7)]) (use staged bin assms(4) in simp)
      show thesis
      proof (cases "look c look2 = Inr False \<and> (\<exists>x. ScheduleVerifiedBinaryRestart (uw_shell uw) (uw_dur uw) (uw_nano uw)
          (sc_panel sc) binary ?b second = Inr x)")
        case True2: True
        have "ans = Answered 202 (Scheduled info)" "fs' = fs1"
          using assms(1) True True2 u s staged(1) bin trim_previous [of binary] by (auto simp: updatePanel_def)
        then show thesis using True True2 staged bin assms(4) by (intro scheduled) auto
      next
        case False
        then have "\<exists>code e. ans = Refused code e" "fs' = snd (put_back ?u uw ?b fs1)"
          using assms(1) True u s staged(1) bin trim_previous [of binary]
          by (auto simp: updatePanel_def split: sum.split_asm bool.split_asm prod.split_asm)
        then show thesis using pb by (intro kept) auto
      qed
    qed
  qed
qed

text \<open>(C17) The machine keeps a panel that runs. An update answers 202 exactly when the new binary is in place:
  then it is one that was published (digest, size, version), the former one is beside it, and no firewall
  change was pending at the last look; the restart that follows ends with the new binary after ten checks
  that found it active, or with the former one. After every other answer the binary is the former one.
  That holds for all faults of the network, the settings, \<open>systemd-run\<close> and the file system, except of the
  renames that put the former binary back.\<close>

theorem update_keeps_a_binary:
  assumes "updatePanel sc c look1 look2 uw fs = (ans, fs')" and "uw_exe uw = Inr exe"
    and "binary = panel_binary uw exe" and "fs binary = Some old"
    and "st_back (uw_staging uw) = None" "rs_stat (uw_restoring uw) = None" "rs_rename (uw_restoring uw) = None"
      "rs_resolved (uw_restoring uw) = st_resolved (uw_staging uw)"
  shows "case ans of
      Answered code (Scheduled info) \<Rightarrow>
        code = 202 \<and> look c look1 = Inr False \<and> look c look2 = Inr False \<and>
        (\<exists>data. vetted (panel_updater uw exe) (uw_api uw) (uw_run uw) data \<and> fs' binary = Some data \<and>
          (\<forall>sv. sv_move sv = None \<longrightarrow>
            (let (running, after) = verified_script sv binary (binary @ ''.previous'') fs'
             in after binary = (if sv_restart sv \<and> (\<forall>k < 10. sv_active sv k) then Some data else Some old))))
    | _ \<Rightarrow> fs' binary = Some old"
  using assms
proof (cases rule: updatePanel_cases)
  case (scheduled info data)
  let ?b = "binary @ ''.previous''"
  have "(let (running, after) = verified_script sv binary ?b fs' in after binary) =
      (if sv_restart sv \<and> (\<forall>k < 10. sv_active sv k) then Some data else Some old)" if "sv_move sv = None" for sv
    using verified_script_spec [of ?b binary sv fs' old] that scheduled by auto
  then show ?thesis using scheduled by (auto simp: Let_def case_prod_beta)
next
  case kept
  then show ?thesis by (auto split: answer.split update_payload.split)
qed

text \<open>Two updates one after the other, before the restart of the first: the panel still runs as its former
  version, so the second one stages again, and what it keeps as the former binary is the new one.\<close>

lemma staged_twice:
  assumes "Stage u api net run st fs = (Inr (info, b), fs1)" "b \<noteq> []" "st_back st = None"
  shows "fs1 b = fs (managed u (st_resolved st))"
  using assms(1,3) by (cases rule: Stage_binary) (use assms(2) in auto)

section \<open>An update that goes through\<close>

definition new_binary :: string where
  "new_binary = ''panel 2''"

definition sample_release :: release where
  "sample_release = \<lparr>re_Tag = ''v2'', re_Draft = False, re_Prerelease = False,
     re_Assets = [\<lparr>as_Name = ''xport-linux-amd64'', as_APIURL = ''api'', as_WebURL = [],
       as_Digest = ''sha256:'' @ hex_encode (Sum256 new_binary), as_Size = 7\<rparr>]\<rparr>"

definition calm_staging :: Staging where
  "calm_staging = \<lparr>st_tmp = None, st_download = \<lparr>dl_open = None, dl_write = None, dl_close = None\<rparr>, st_chmod = None,
     st_resolved = None, st_mkdir = None, st_stat = None, st_keeps = False, st_rename = None,
     st_copy = \<lparr>cp_in = None, cp_out = None, cp_copy = None, cp_close = None, cp_left = None, cp_rename = None\<rparr>, st_back = None\<rparr>"

definition sample_update :: Update_world where
  "sample_update = \<lparr>uw_exe = Inr ''/usr/local/bin/xport'', uw_version = ''1'', uw_token = [], uw_arch = ''amd64'',
     uw_api = (\<lambda>url hs. Reply 200 (Inr [sample_release])), uw_files = (\<lambda>url hs. Reply 200 (new_binary, None)),
     uw_run = (\<lambda>b. Ran ''v2''), uw_staging = calm_staging,
     uw_restoring = \<lparr>rs_resolved = None, rs_stat = None, rs_keeps = False, rs_rename = None\<rparr>,
     uw_shell = (\<lambda>cmd. Ran []), uw_dur = (\<lambda>d. ''1s''), uw_nano = 5\<rparr>"

definition sample_look :: Look where
  "sample_look = \<lparr>lk_eng = sound_engine, lk_now = 5, lk_db = \<lparr>db_rows = [], db_seq = 0, db_admins = fmempty, db_settings = fmempty\<rparr>\<rparr>"

definition sample_services :: Services where
  "sample_services = \<lparr>sc_xray = ''xport-xray.service'', sc_panel = ''xport.service''\<rparr>"

definition sample_disk :: files where
  "sample_disk = (\<lambda>f. if f = ''/usr/local/bin/xport'' then Some ''panel 1'' else None)"

lemma update_texts:
  "trim_space ''v2'' = ''v2''" "trim_space ''1'' = ''1''" "trim_space ''/usr/local/bin/xport'' = ''/usr/local/bin/xport''"
  "split_on (CHR 0x0A) ''v2'' = [''v2'']" "validSystemdUnit ''xport.service''" "validManagedPath ''/usr/local/bin/xport''"
  "validManagedPath ''/usr/local/bin/xport.previous''"
  "trim_suffix ''/usr/local/bin/xport.previous'' ''.previous'' = ''/usr/local/bin/xport''"
  by code_simp+

lemma sample_latest: "latest (panel_updater sample_update e) (uw_api sample_update) = Inr (sample_release, hd (re_Assets sample_release))"
  by (simp add: latest_def sample_update_def panel_updater_def assetName_def sample_release_def)

lemma sample_download:
  "download (panel_updater sample_update e) (uw_files sample_update) (st_download calm_staging) (hd (re_Assets sample_release)) = Inr new_binary"
proof -
  have d: "digest_matches (''sha256:'' @ hex_encode (Sum256 new_binary)) new_binary"
    by (simp only: digest_matches_def trim_prefix_append) (simp add: equal_fold_def)
  have "take (nat (download_limit + 1)) new_binary = new_binary" "int (length new_binary) \<le> download_limit"
    by (simp_all add: new_binary_def download_limit_def)
  then show ?thesis using d
    by (simp add: download_def sample_update_def sample_release_def calm_staging_def copy_limited_def Let_def has_prefix_def)
qed

lemma sample_look_clear: "look c sample_look = Inr False"
  by (simp add: pending_exact sample_look_def Settings_def exec_def sound_engine_def)

lemma sample_check:
  "Check (panel_updater sample_update e) (uw_api sample_update) =
    Inr (\<lparr>ui_Current = ''1'', ui_Latest = ''2'', ui_Available = True, ui_Asset = ''xport-linux-amd64'', ui_AuthMode = ''public''\<rparr>,
      hd (re_Assets sample_release))"
  using sample_latest [of e]
  by (simp add: Check_def normalize_version_def update_texts panel_updater_def sample_update_def sample_release_def trim_prefix_def
      has_prefix_def)

lemma sample_replaced:
  "\<exists>fs'. replace_binary calm_staging ''/usr/local/bin/xport'' new_binary sample_disk = (Inr ''/usr/local/bin/xport.previous'', fs')"
  by (simp add: replace_binary_def calm_staging_def stat_file_def rename_file_def remove_file_def copyBinary_def sample_disk_def Let_def)

lemma sample_staged:
  "\<exists>info fs'. Stage (panel_updater sample_update ''/usr/local/bin/xport'') (uw_api sample_update) (uw_files sample_update)
      (uw_run sample_update) (uw_staging sample_update) sample_disk = (Inr (info, ''/usr/local/bin/xport.previous''), fs')"
proof -
  have f: "st_tmp calm_staging = None" "st_chmod calm_staging = None" "st_resolved calm_staging = None"
    "uw_staging sample_update = calm_staging" "executableVersion (uw_run sample_update) new_binary = Inr ''v2''"
    "normalize_version ''v2'' = ''2''" "0 < as_Size (hd (re_Assets sample_release))"
    "as_Size (hd (re_Assets sample_release)) \<le> download_limit"
    by (simp_all add: calm_staging_def sample_update_def executableVersion_def update_texts normalize_version_def trim_prefix_def
        has_prefix_def sample_release_def download_limit_def)
  have path: "up_BinaryPath (panel_updater sample_update ''/usr/local/bin/xport'') = ''/usr/local/bin/xport''"
    by (simp add: panel_updater_def)
  obtain fs' where "replace_binary calm_staging ''/usr/local/bin/xport'' new_binary sample_disk = (Inr ''/usr/local/bin/xport.previous'', fs')"
    using sample_replaced by blast
  then show ?thesis
    using f sample_check [of "''/usr/local/bin/xport''"] sample_download [of "''/usr/local/bin/xport''"] update_texts(3) path
    by (simp add: Stage_def managed_def)
qed

theorem update_keeps_a_binary_witness:
  "\<exists>info fs'. updatePanel sample_services sample_codec sample_look sample_look sample_update sample_disk =
      (Answered 202 (Scheduled info), fs') \<and>
    (\<forall>sv. sv_move sv = None \<longrightarrow>
      snd (verified_script sv ''/usr/local/bin/xport'' ''/usr/local/bin/xport.previous'' fs') ''/usr/local/bin/xport'' =
        (if sv_restart sv \<and> (\<forall>k < 10. sv_active sv k) then fs' ''/usr/local/bin/xport'' else Some ''panel 1''))"
proof -
  let ?exe = "''/usr/local/bin/xport''" and ?old = "Some ''panel 1''"
  have u: "panelSelfUpdater sample_update = Inr (panel_updater sample_update ?exe)"
    by (simp add: panelSelfUpdater_def panel_updater_def sample_update_def)
  obtain info fs' where st: "Stage (panel_updater sample_update ?exe) (uw_api sample_update) (uw_files sample_update)
      (uw_run sample_update) (uw_staging sample_update) sample_disk = (Inr (info, ''/usr/local/bin/xport.previous''), fs')"
    using sample_staged by blast
  have run: "ScheduleVerifiedBinaryRestart (uw_shell sample_update) (uw_dur sample_update) (uw_nano sample_update) ''xport.service''
      ?exe ''/usr/local/bin/xport.previous'' second = Inr ()"
    using update_texts(5-7) by (simp add: ScheduleVerifiedBinaryRestart_def sample_update_def combined_def Let_def)
  have ans: "updatePanel sample_services sample_codec sample_look sample_look sample_update sample_disk = (Answered 202 (Scheduled info), fs')"
    using u st run update_texts(8) sample_look_clear by (simp add: updatePanel_def sample_services_def)
  have "uw_exe sample_update = Inr ?exe" "panel_binary sample_update ?exe = ?exe" "sample_disk ?exe = ?old"
    "st_back (uw_staging sample_update) = None" "rs_stat (uw_restoring sample_update) = None"
    "rs_rename (uw_restoring sample_update) = None" "rs_resolved (uw_restoring sample_update) = st_resolved (uw_staging sample_update)"
    by (simp_all add: sample_update_def panel_binary_def sample_disk_def calm_staging_def)
  from update_keeps_a_binary [OF ans this(1) this(2) [symmetric] this(3-7)]
  have "\<exists>data. fs' ?exe = Some data \<and> (\<forall>sv. sv_move sv = None \<longrightarrow>
      snd (verified_script sv ?exe ''/usr/local/bin/xport.previous'' fs') ?exe =
        (if sv_restart sv \<and> (\<forall>k < 10. sv_active sv k) then Some data else ?old))"
    by (simp add: case_prod_beta Let_def split del: if_split) blast
  then show ?thesis using ans by (intro exI [of _ info] exI [of _ fs']) auto
qed

end
