(* ===== verification/StoreLaws.thy ===== *)
theory StoreLaws
  imports Store
begin

text \<open>
  What the database promises: the invariant of its tables, what a replaced account list reads back
  as, traffic counters, snapshots, the administrator, and the two interfaces through which the
  services use it (a store of settings and a repository of accounts), with the database as their
  interpretation.
\<close>

section \<open>What every operation keeps\<close>

definition row_ok :: "int \<Rightarrow> Account \<Rightarrow> bool" where
  "row_ok seq a \<longleftrightarrow> 0 < a_ID a \<and> a_ID a \<le> seq \<and> 1 \<le> a_Port a \<and> a_Port a \<le> 65535 \<and>
                  a_CreatedAt a \<noteq> 0 \<and> a_UpdatedAt a \<noteq> 0"

definition rows_ok :: "Db \<Rightarrow> bool" where
  "rows_ok db \<longleftrightarrow>
     distinct (map a_ID (db_rows db)) \<and> distinct (map a_Port (db_rows db)) \<and>
     distinct (map a_Tag (db_rows db)) \<and> (\<forall>a \<in> set (db_rows db). row_ok (db_seq db) a) \<and>
     0 \<le> db_seq db"

definition admins_ok :: "Db \<Rightarrow> bool" where
  "admins_ok db \<longleftrightarrow> fmpred (\<lambda>u r. u \<noteq> [] \<and> row_hash r \<noteq> []) (db_admins db)"

definition settings_ok :: "Db \<Rightarrow> bool" where
  "settings_ok db \<longleftrightarrow> fmlookup (db_settings db) [] = None"

definition db_inv :: "Db \<Rightarrow> bool" where
  "db_inv db \<longleftrightarrow> rows_ok db \<and> admins_ok db \<and> settings_ok db"

lemma rows_ok_cong [simp]:
  "rows_ok (db\<lparr>db_admins := x\<rparr>) = rows_ok db" "rows_ok (db\<lparr>db_settings := y\<rparr>) = rows_ok db"
  by (simp_all add: rows_ok_def)

lemma admins_ok_cong [simp]:
  "admins_ok (db\<lparr>db_rows := x\<rparr>) = admins_ok db" "admins_ok (db\<lparr>db_settings := y\<rparr>) = admins_ok db"
  "admins_ok (db\<lparr>db_seq := z\<rparr>) = admins_ok db"
  by (simp_all add: admins_ok_def)

lemma settings_ok_cong [simp]:
  "settings_ok (db\<lparr>db_rows := x\<rparr>) = settings_ok db" "settings_ok (db\<lparr>db_admins := y\<rparr>) = settings_ok db"
  "settings_ok (db\<lparr>db_seq := z\<rparr>) = settings_ok db"
  by (simp_all add: settings_ok_def)

lemma stamp_simps [simp]:
  "a_ID (stamp now a) = a_ID a" "a_Port (stamp now a) = a_Port a" "a_Tag (stamp now a) = a_Tag a"
  "a_CreatedAt (stamp now a) = (if a_CreatedAt a = 0 then now else a_CreatedAt a)"
  "a_UpdatedAt (stamp now a) = (if a_UpdatedAt a = 0 then now else a_UpdatedAt a)"
  by (simp_all add: stamp_def)

lemma stamp_id: "a_CreatedAt a \<noteq> 0 \<Longrightarrow> a_UpdatedAt a \<noteq> 0 \<Longrightarrow> stamp now a = a"
  by (simp add: stamp_def)

text \<open>The row that an insertion adds.\<close>

lemma insertRow_rows:
  assumes "insertRow a db = Inr db'"
  obtains i where "db_rows db' = db_rows db @ [a\<lparr>a_ID := i\<rparr>]" "db_seq db' = max (db_seq db) i"
    "db_admins db' = db_admins db" "db_settings db' = db_settings db"
    "i = (if a_ID a > 0 then a_ID a else db_seq db + 1)"
    "i \<notin> a_ID ` set (db_rows db)" "a_Port a \<notin> a_Port ` set (db_rows db)"
    "a_Tag a \<notin> a_Tag ` set (db_rows db)" "1 \<le> a_Port a" "a_Port a \<le> 65535"
  using assms by (auto simp: insertRow_def Let_def split: if_split_asm)

lemma insertRow_ok:
  assumes ins: "insertRow a db = Inr db'" and ok: "rows_ok db"
    and t: "a_CreatedAt a \<noteq> 0" "a_UpdatedAt a \<noteq> 0"
  shows "rows_ok db' \<and> db_admins db' = db_admins db \<and> db_settings db' = db_settings db"
proof -
  obtain i where i: "db_rows db' = db_rows db @ [a\<lparr>a_ID := i\<rparr>]" "db_seq db' = max (db_seq db) i"
    "db_admins db' = db_admins db" "db_settings db' = db_settings db"
    "i = (if a_ID a > 0 then a_ID a else db_seq db + 1)"
    "i \<notin> a_ID ` set (db_rows db)" "a_Port a \<notin> a_Port ` set (db_rows db)"
    "a_Tag a \<notin> a_Tag ` set (db_rows db)" "1 \<le> a_Port a" "a_Port a \<le> 65535"
    by (rule insertRow_rows [OF ins])
  have "0 < i" using ok i(5) by (auto simp: rows_ok_def)
  moreover have "row_ok (db_seq db') b" if "b \<in> set (db_rows db)" for b
    using ok that i(2) by (auto simp: rows_ok_def row_ok_def)
  ultimately show ?thesis
    using ok i t by (auto simp: rows_ok_def row_ok_def)
qed

lemma insertAccountsTx_ok:
  assumes "insertAccountsTx eng now as db = Inr db'" "rows_ok db" "now \<noteq> 0"
  shows "rows_ok db' \<and> db_admins db' = db_admins db \<and> db_settings db' = db_settings db"
  using assms
proof (induction as arbitrary: db)
  case (Cons a as)
  then obtain db1 where d: "insertRow (stamp now a) db = Inr db1" "insertAccountsTx eng now as db1 = Inr db'"
    by (auto simp: Let_def split: sum.split_asm)
  have "rows_ok db1 \<and> db_admins db1 = db_admins db \<and> db_settings db1 = db_settings db"
    using insertRow_ok [OF d(1) Cons.prems(2)] Cons.prems(3) by simp
  with Cons.IH [OF d(2)] Cons.prems(3) show ?case by simp
qed simp

lemma deleteAccounts_Inr [simp]:
  "deleteAccounts eng db = Inr db' \<longleftrightarrow> fault eng SDeleteAccounts = None \<and> db' = db\<lparr>db_rows := []\<rparr>"
  by (auto simp: deleteAccounts_def)

lemma rows_ok_empty: "rows_ok db \<Longrightarrow> rows_ok (db\<lparr>db_rows := []\<rparr>)"
  by (simp add: rows_ok_def)

lemma ReplaceAccounts_inv:
  assumes "db_inv db" "now \<noteq> 0"
  shows "db_inv (snd (ReplaceAccounts eng now as db))"
proof (cases rule: transaction_cases [of eng "\<lambda>db. bindR (deleteAccounts eng db) (insertAccountsTx eng now as)" db])
  case (failed e)
  with assms show ?thesis by (simp add: ReplaceAccounts_def)
next
  case (committed db')
  then have ins: "insertAccountsTx eng now as (db\<lparr>db_rows := []\<rparr>) = Inr db'" by auto
  have "rows_ok (db\<lparr>db_rows := []\<rparr>)" using assms(1) by (simp add: db_inv_def rows_ok_empty)
  from insertAccountsTx_ok [OF ins this assms(2)] assms(1) committed show ?thesis
    by (simp add: ReplaceAccounts_def db_inv_def admins_ok_def settings_ok_def)
qed

text \<open>Accounts that all have an id of their own are stored as they are.\<close>

definition storable :: "Account list \<Rightarrow> bool" where
  "storable as \<longleftrightarrow>
     distinct (map a_ID as) \<and> distinct (map a_Port as) \<and> distinct (map a_Tag as) \<and>
     (\<forall>a \<in> set as. 1 \<le> a_Port a \<and> a_Port a \<le> 65535)"

lemma insertRow_positive:
  assumes "0 < a_ID a"
  shows "insertRow a db = Inr db' \<longleftrightarrow>
     a_ID a \<notin> a_ID ` set (db_rows db) \<and> a_Port a \<notin> a_Port ` set (db_rows db) \<and>
     a_Tag a \<notin> a_Tag ` set (db_rows db) \<and> 1 \<le> a_Port a \<and> a_Port a \<le> 65535 \<and>
     db' = db\<lparr>db_rows := db_rows db @ [a], db_seq := max (db_seq db) (a_ID a)\<rparr>"
  using assms by (auto simp: insertRow_def Let_def)

lemma insertAccountsTx_positive:
  assumes "\<forall>a \<in> set as. 0 < a_ID a" "storable (db_rows db)"
  shows "insertAccountsTx eng now as db = Inr db' \<longleftrightarrow>
     (\<forall>a \<in> set as. fault eng (SInsertAccount (stamp now a)) = None) \<and>
     storable (db_rows db @ as) \<and>
     db' = db\<lparr>db_rows := db_rows db @ map (stamp now) as, db_seq := fold (\<lambda>a s. max s (a_ID a)) as (db_seq db)\<rparr>"
  using assms
proof (induction as arbitrary: db)
  case Nil
  then show ?case by auto
next
  case (Cons a as)
  let ?db1 = "db\<lparr>db_rows := db_rows db @ [stamp now a], db_seq := max (db_seq db) (a_ID a)\<rparr>"
  have id: "0 < a_ID (stamp now a)" using Cons.prems by simp
  show ?case
  proof (cases "storable (db_rows db @ [a])")
    case True
    then have "storable (db_rows ?db1)" by (simp add: storable_def)
    moreover have "storable (db_rows ?db1 @ as) = storable (db_rows db @ a # as)"
      by (simp add: storable_def)
    ultimately have IH: "insertAccountsTx eng now as ?db1 = Inr db' \<longleftrightarrow>
     (\<forall>a \<in> set as. fault eng (SInsertAccount (stamp now a)) = None) \<and>
     storable (db_rows db @ a # as) \<and>
     db' = ?db1\<lparr>db_rows := db_rows ?db1 @ map (stamp now) as, db_seq := fold (\<lambda>a s. max s (a_ID a)) as (db_seq ?db1)\<rparr>"
      using Cons.IH [of ?db1] Cons.prems by simp
    have "insertRow (stamp now a) db = Inr ?db1" "1 \<le> a_Port a" "a_Port a \<le> 65535"
      using True by (auto simp: insertRow_positive [OF id] storable_def)
    with IH show ?thesis
      by (cases "fault eng (SInsertAccount (stamp now a))") (simp_all add: Let_def exec_def)
  next
    case False
    then have "\<not> storable (db_rows db @ a # as)" by (auto simp: storable_def)
    moreover have "insertRow (stamp now a) db \<noteq> Inr d \<or> a_Port a < 1 \<or> a_Port a > 65535" for d
      using False Cons.prems(2) by (auto simp: insertRow_positive [OF id] storable_def)
    ultimately show ?thesis
      by (auto simp: Let_def split: sum.split_asm)
  qed
qed

definition no_fault_replace :: "Engine \<Rightarrow> int \<Rightarrow> Account list \<Rightarrow> bool" where
  "no_fault_replace eng now as \<longleftrightarrow>
     fault eng SBegin = None \<and> fault eng SCommit = None \<and> fault eng SDeleteAccounts = None \<and>
     (\<forall>a \<in> set as. fault eng (SInsertAccount (stamp now a)) = None)"

lemma ReplaceAccounts_positive:
  assumes "\<forall>a \<in> set as. 0 < a_ID a"
  shows "ReplaceAccounts eng now as db = (Inr u, db') \<longleftrightarrow>
     no_fault_replace eng now as \<and> storable as \<and>
     db' = db\<lparr>db_rows := map (stamp now) as, db_seq := fold (\<lambda>a s. max s (a_ID a)) as (db_seq db)\<rparr>"
proof -
  have "storable (db_rows (db\<lparr>db_rows := []\<rparr>))" by (simp add: storable_def)
  from insertAccountsTx_positive [OF assms this, of eng now db'] show ?thesis
    by (auto simp: ReplaceAccounts_def transaction_Inr no_fault_replace_def)
qed

lemma ReplaceAccounts_failed:
  "ReplaceAccounts eng now as db = (Inl e, db') \<Longrightarrow> db' = db"
  by (simp add: ReplaceAccounts_def transaction_Inl)

lemma ReplaceAccounts_frame:
  assumes "ReplaceAccounts eng now as db = (r, db')"
  shows "db_admins db' = db_admins db \<and> db_settings db' = db_settings db"
proof -
  have "insertAccountsTx eng now as db = Inr d \<Longrightarrow>
        db_admins d = db_admins db \<and> db_settings d = db_settings db" for as db d
    by (induction as arbitrary: db)
      (auto simp: Let_def split: sum.split_asm elim!: insertRow_rows)
  then show ?thesis
    using assms by (cases r) (fastforce simp: ReplaceAccounts_def transaction_Inr dest: transaction_Inl)+
qed

text \<open>Whatever is stored under whatever ids, a database that was changed holds the list's accounts.\<close>

lemma Accounts_sorted:
  "Accounts eng db = Inr as \<Longrightarrow> sorted (map a_ID as) \<and> set as = set (db_rows db)"
  by (auto simp: Accounts_def)

lemma distinct_map_sort_key [simp]: "distinct (map f (sort_key k xs)) = distinct (map f xs)"
  by (simp add: distinct_map)

lemma sort_key_sorted: "sorted (map f xs) \<Longrightarrow> sort_key f xs = xs"
  by (induction xs) (simp_all add: insort_is_Cons)

lemma Accounts_storable:
  assumes "rows_ok db" "Accounts eng db = Inr as"
  shows "storable as \<and> (\<forall>a \<in> set as. 0 < a_ID a)"
proof -
  have as: "as = sort_key a_ID (db_rows db)" using assms(2) by (simp add: Accounts_def)
  with assms(1) show ?thesis
    by (auto simp: storable_def rows_ok_def row_ok_def)
qed

lemma Accounts_ReplaceAccounts:
  assumes "ReplaceAccounts eng now as db = (Inr u, db')" "\<forall>a \<in> set as. 0 < a_ID a"
  shows "Accounts eng' db' = bindR (exec eng' SSelectAccounts) (\<lambda>_. Inr (sort_key a_ID (map (stamp now) as)))"
  using assms by (simp add: ReplaceAccounts_positive Accounts_def)

lemma db_rows_stamped: "rows_ok db \<Longrightarrow> a \<in> set (db_rows db) \<Longrightarrow> stamp now a = a"
  by (rule stamp_id) (auto simp: rows_ok_def row_ok_def)

section \<open>Traffic is added once\<close>

lemma addTrafficTx_rows:
  assumes "addTrafficTx eng now ds db = Inr db'"
  shows "db' = db\<lparr>db_rows := map (\<lambda>a. fold (addTrafficRow eng now) ds a) (db_rows db)\<rparr>"
  using assms
proof (induction ds arbitrary: db)
  case (Cons d ds)
  then have "addTrafficTx eng now ds (db\<lparr>db_rows := map (addTrafficRow eng now d) (db_rows db)\<rparr>) = Inr db'"
    by simp
  from Cons.IH [OF this] show ?case by (simp add: comp_def)
qed simp

lemma validDeltas_filter:
  assumes "validDeltas ds = Inr vs"
  shows "vs = filter (\<lambda>d. d_Tag d \<noteq> [] \<and> (d_Up d \<noteq> 0 \<or> d_Down d \<noteq> 0)) ds \<and>
         (\<forall>d \<in> set ds. d_Tag d \<noteq> [] \<longrightarrow> 0 \<le> d_Up d \<and> 0 \<le> d_Down d)"
  using assms by (induction ds arbitrary: vs) (auto split: if_split_asm)

lemma addTrafficRow_keeps [simp]:
  "a_ID (addTrafficRow eng now d a) = a_ID a" "a_Port (addTrafficRow eng now d a) = a_Port a"
  "a_Tag (addTrafficRow eng now d a) = a_Tag a" "a_CreatedAt (addTrafficRow eng now d a) = a_CreatedAt a"
  "now \<noteq> 0 \<Longrightarrow> a_UpdatedAt a \<noteq> 0 \<Longrightarrow> a_UpdatedAt (addTrafficRow eng now d a) \<noteq> 0"
  by (simp_all add: addTrafficRow_def)

lemma fold_traffic_keeps [simp]:
  "a_ID (fold (addTrafficRow eng now) ds a) = a_ID a"
  "a_Port (fold (addTrafficRow eng now) ds a) = a_Port a"
  "a_Tag (fold (addTrafficRow eng now) ds a) = a_Tag a"
  "a_CreatedAt (fold (addTrafficRow eng now) ds a) = a_CreatedAt a"
  by (induction ds arbitrary: a) simp_all

lemma fold_traffic_updated:
  "now \<noteq> 0 \<Longrightarrow> a_UpdatedAt a \<noteq> 0 \<Longrightarrow> a_UpdatedAt (fold (addTrafficRow eng now) ds a) \<noteq> 0"
  by (induction ds arbitrary: a) simp_all

lemma rows_ok_map:
  assumes "rows_ok db" and "\<And>a. a_ID (f a) = a_ID a" "\<And>a. a_Port (f a) = a_Port a"
    "\<And>a. a_Tag (f a) = a_Tag a" "\<And>a. a_CreatedAt (f a) = a_CreatedAt a"
    "\<And>a. a_UpdatedAt a \<noteq> 0 \<Longrightarrow> a_UpdatedAt (f a) \<noteq> 0"
  shows "rows_ok (db\<lparr>db_rows := map f (db_rows db)\<rparr>)"
  using assms by (simp add: rows_ok_def row_ok_def comp_def)

definition traffic_of :: "(TrafficDelta \<Rightarrow> int) \<Rightarrow> string \<Rightarrow> TrafficDelta list \<Rightarrow> int" where
  "traffic_of f tag ds = sum_list (map f (filter (\<lambda>d. d_Tag d = tag) ds))"

definition exact_add :: "Engine \<Rightarrow> bool" where
  "exact_add eng \<longleftrightarrow> (\<forall>a b. int64_range (a + b) \<longrightarrow> sql_add eng a b = a + b)"

lemma traffic_of_nonneg: "(\<forall>d \<in> set ds. 0 \<le> f d) \<Longrightarrow> 0 \<le> traffic_of f tag ds"
  by (induction ds) (auto simp: traffic_of_def)

lemma fold_traffic_counters:
  assumes ex: "exact_add eng" and nn: "\<forall>d \<in> set ds. 0 \<le> d_Up d \<and> 0 \<le> d_Down d"
    and a: "0 \<le> a_UpBytes a" "0 \<le> a_DownBytes a" "0 \<le> a_AllTimeBytes a"
    and u: "a_UpBytes a + traffic_of d_Up (a_Tag a) ds < 2 ^ 63"
    and d: "a_DownBytes a + traffic_of d_Down (a_Tag a) ds < 2 ^ 63"
    and t: "a_AllTimeBytes a + traffic_of (\<lambda>d. d_Up d + d_Down d) (a_Tag a) ds < 2 ^ 63"
  shows "a_UpBytes (fold (addTrafficRow eng now) ds a) = a_UpBytes a + traffic_of d_Up (a_Tag a) ds \<and>
    a_DownBytes (fold (addTrafficRow eng now) ds a) = a_DownBytes a + traffic_of d_Down (a_Tag a) ds \<and>
    a_AllTimeBytes (fold (addTrafficRow eng now) ds a) =
      a_AllTimeBytes a + traffic_of (\<lambda>d. d_Up d + d_Down d) (a_Tag a) ds"
  using nn a u d t
proof (induction ds arbitrary: a)
  case Nil
  then show ?case by (simp add: traffic_of_def)
next
  case (Cons x ds)
  let ?a = "addTrafficRow eng now x a"
  have pos: "0 \<le> traffic_of d_Up (a_Tag a) ds" "0 \<le> traffic_of d_Down (a_Tag a) ds"
    "0 \<le> traffic_of (\<lambda>d. d_Up d + d_Down d) (a_Tag a) ds" "0 \<le> d_Up x" "0 \<le> d_Down x"
    using Cons.prems(1) by (auto intro!: traffic_of_nonneg)
  show ?case
  proof (cases "d_Tag x = a_Tag a")
    case True
    then have split: "traffic_of f (a_Tag a) (x # ds) = f x + traffic_of f (a_Tag a) ds" for f
      by (simp add: traffic_of_def)
    have sum: "add64 (d_Up x) (d_Down x) = d_Up x + d_Down x"
      using Cons.prems(4,7) pos by (intro add64_exact) (simp add: split)
    have "a_UpBytes ?a = a_UpBytes a + d_Up x" "a_DownBytes ?a = a_DownBytes a + d_Down x"
      "a_AllTimeBytes ?a = a_AllTimeBytes a + (d_Up x + d_Down x)"
      using True ex Cons.prems pos by (simp_all add: addTrafficRow_def exact_add_def sum split)
    with Cons.IH [of ?a] Cons.prems pos show ?thesis by (simp add: split)
  next
    case False
    then have "traffic_of f (a_Tag a) (x # ds) = traffic_of f (a_Tag a) ds" for f
      by (simp add: traffic_of_def)
    moreover have "?a = a" using False by (simp add: addTrafficRow_def)
    ultimately show ?thesis using Cons.IH [of a] Cons.prems by simp
  qed
qed

lemma AddTrafficBatch_failed: "AddTrafficBatch eng now ds db = (Inl e, db') \<Longrightarrow> db' = db"
  by (auto simp: AddTrafficBatch_def split: sum.split_asm if_split_asm dest: transaction_Inl)

lemma AddTrafficBatch_rows:
  assumes "AddTrafficBatch eng now ds db = (Inr u, db')"
  shows "\<exists>vs. validDeltas ds = Inr vs \<and>
           db' = db\<lparr>db_rows := map (\<lambda>a. fold (addTrafficRow eng now) vs a) (db_rows db)\<rparr>"
  using assms
  by (auto simp: AddTrafficBatch_def transaction_Inr split: sum.split_asm if_split_asm
      dest!: addTrafficTx_rows)

lemma traffic_of_valid:
  assumes "tag \<noteq> []" and "\<And>d. d_Up d = 0 \<Longrightarrow> d_Down d = 0 \<Longrightarrow> f d = 0"
  shows "traffic_of f tag (filter (\<lambda>d. d_Tag d \<noteq> [] \<and> (d_Up d \<noteq> 0 \<or> d_Down d \<noteq> 0)) ds) = traffic_of f tag ds"
  using assms by (induction ds) (auto simp: traffic_of_def)

text \<open>
  A batch that is stored adds to every account exactly what the deltas of its tag report, as long
  as no counter leaves 64 bits.
\<close>

definition counters_fit :: "TrafficDelta list \<Rightarrow> Account \<Rightarrow> bool" where
  "counters_fit ds a \<longleftrightarrow>
     0 \<le> a_UpBytes a \<and> 0 \<le> a_DownBytes a \<and> 0 \<le> a_AllTimeBytes a \<and> a_Tag a \<noteq> [] \<and>
     a_UpBytes a + traffic_of d_Up (a_Tag a) ds < 2 ^ 63 \<and>
     a_DownBytes a + traffic_of d_Down (a_Tag a) ds < 2 ^ 63 \<and>
     a_AllTimeBytes a + traffic_of (\<lambda>d. d_Up d + d_Down d) (a_Tag a) ds < 2 ^ 63"

definition counters_added :: "TrafficDelta list \<Rightarrow> Account \<Rightarrow> Account \<Rightarrow> bool" where
  "counters_added ds a a' \<longleftrightarrow>
     a_ID a' = a_ID a \<and> a_Tag a' = a_Tag a \<and> a_Port a' = a_Port a \<and>
     a_UpBytes a' = a_UpBytes a + traffic_of d_Up (a_Tag a) ds \<and>
     a_DownBytes a' = a_DownBytes a + traffic_of d_Down (a_Tag a) ds \<and>
     a_AllTimeBytes a' = a_AllTimeBytes a + traffic_of (\<lambda>d. d_Up d + d_Down d) (a_Tag a) ds"

lemma AddTrafficBatch_adds:
  assumes ok: "AddTrafficBatch eng now ds db = (Inr u, db')" and ex: "exact_add eng"
    and fit: "\<forall>a \<in> set (db_rows db). counters_fit ds a"
  shows "list_all2 (counters_added ds) (db_rows db) (db_rows db')"
proof -
  obtain vs where vs: "validDeltas ds = Inr vs"
    and db': "db' = db\<lparr>db_rows := map (\<lambda>a. fold (addTrafficRow eng now) vs a) (db_rows db)\<rparr>"
    using AddTrafficBatch_rows [OF ok] by blast
  have f: "vs = filter (\<lambda>d. d_Tag d \<noteq> [] \<and> (d_Up d \<noteq> 0 \<or> d_Down d \<noteq> 0)) ds"
    and nn: "\<forall>d \<in> set vs. 0 \<le> d_Up d \<and> 0 \<le> d_Down d"
    using validDeltas_filter [OF vs] by auto
  have "counters_added ds a (fold (addTrafficRow eng now) vs a)" if a: "a \<in> set (db_rows db)" for a
  proof -
    have c: "counters_fit ds a" using fit a by blast
    then have t: "a_Tag a \<noteq> []" by (simp add: counters_fit_def)
    have eq: "traffic_of d_Up (a_Tag a) vs = traffic_of d_Up (a_Tag a) ds"
      "traffic_of d_Down (a_Tag a) vs = traffic_of d_Down (a_Tag a) ds"
      "traffic_of (\<lambda>d. d_Up d + d_Down d) (a_Tag a) vs = traffic_of (\<lambda>d. d_Up d + d_Down d) (a_Tag a) ds"
      unfolding f by (rule traffic_of_valid [OF t]; simp)+
    show ?thesis
      using fold_traffic_counters [OF ex nn, of a now] c
      by (simp add: counters_added_def counters_fit_def eq)
  qed
  then show ?thesis by (simp add: db' list_all2_conv_all_nth)
qed

lemma AddTrafficBatch_inv:
  assumes "db_inv db" "now \<noteq> 0"
  shows "db_inv (snd (AddTrafficBatch eng now ds db))"
proof (cases "AddTrafficBatch eng now ds db")
  case (Pair r db')
  show ?thesis
  proof (cases r)
    case (Inl e)
    then have "db' = db" using Pair AddTrafficBatch_failed by simp
    then show ?thesis using Pair assms by simp
  next
    case (Inr u)
    then obtain vs where db': "db' = db\<lparr>db_rows := map (\<lambda>a. fold (addTrafficRow eng now) vs a) (db_rows db)\<rparr>"
      using AddTrafficBatch_rows Pair by blast
    have "rows_ok (db\<lparr>db_rows := map (\<lambda>a. fold (addTrafficRow eng now) vs a) (db_rows db)\<rparr>)"
      using assms by (intro rows_ok_map) (simp_all add: db_inv_def fold_traffic_updated)
    then show ?thesis using Pair assms db' by (simp add: db_inv_def)
  qed
qed

section \<open>Administrators and settings\<close>

lemma insertAdmin_Inr:
  "insertAdmin eng now a db = Inr db' \<longleftrightarrow>
     fault eng (SInsertAdmin (adm_Username a)) = None \<and>
     fmlookup (db_admins db) (adm_Username a) = None \<and>
     db' = db\<lparr>db_admins := fmupd (adm_Username a)
                \<lparr>row_hash = adm_PasswordHash a, row_created = now, row_updated = now\<rparr> (db_admins db)\<rparr>"
  by (auto simp: insertAdmin_def)

lemma insertAdminsTx_Inr:
  assumes "insertAdminsTx eng now bad wrap as db = Inr db'"
  shows "db_rows db' = db_rows db \<and> db_seq db' = db_seq db \<and> db_settings db' = db_settings db \<and>
    (admins_ok db \<longrightarrow> admins_ok db') \<and>
    (\<forall>u. map_option row_hash (fmlookup (db_admins db') u) =
      (case map_of (map (\<lambda>a. (adm_Username a, adm_PasswordHash a)) as) u of
         None \<Rightarrow> map_option row_hash (fmlookup (db_admins db) u) | Some h \<Rightarrow> Some h)) \<and>
    distinct (map adm_Username as) \<and> (\<forall>a \<in> set as. fmlookup (db_admins db) (adm_Username a) = None)"
  using assms
proof (induction as arbitrary: db)
  case (Cons a as)
  let ?db1 = "db\<lparr>db_admins := fmupd (adm_Username a)
                \<lparr>row_hash = adm_PasswordHash a, row_created = now, row_updated = now\<rparr> (db_admins db)\<rparr>"
  have a: "adm_Username a \<noteq> []" "adm_PasswordHash a \<noteq> []" "fmlookup (db_admins db) (adm_Username a) = None"
    and tl: "insertAdminsTx eng now bad wrap as ?db1 = Inr db'"
    using Cons.prems by (auto simp: insertAdmin_Inr split: if_split_asm sum.split_asm)
  note IH = Cons.IH [OF tl]
  have ne: "adm_Username b \<noteq> adm_Username a" if "b \<in> set as" for b
    using IH that by (auto split: if_split_asm)
  then have "adm_Username a \<notin> adm_Username ` set as" by force
  moreover then have "map_of (map (\<lambda>a. (adm_Username a, adm_PasswordHash a)) as) (adm_Username a) = None"
    by (auto simp: map_of_eq_None_iff)
  moreover have "admins_ok db \<Longrightarrow> admins_ok ?db1"
    using a by (auto simp: admins_ok_def fmpred_iff)
  ultimately show ?case
    using IH a ne by (auto split: if_split_asm option.split)
qed simp

lemma insertSettingsTx_Inr:
  assumes "insertSettingsTx eng m ks db = Inr db'"
  shows "db' = db\<lparr>db_settings := db_settings db'\<rparr> \<and>
     (\<forall>k. fmlookup (db_settings db') k = (if k \<in> set ks \<and> k \<noteq> [] \<and> fmlookup m k \<noteq> None then fmlookup m k
                          else fmlookup (db_settings db) k))"
  using assms
proof (induction ks arbitrary: db)
  case Nil
  then show ?case by simp
next
  case (Cons k ks)
  show ?case
  proof (cases "fmlookup m k = None \<or> k = []")
    case True
    then have "insertSettingsTx eng m ks db = Inr db'" using Cons.prems by (auto split: option.split_asm)
    from Cons.IH [OF this] True show ?thesis by (cases db') auto
  next
    case False
    then obtain v where v: "fmlookup m k = Some v" "k \<noteq> []" by auto
    then have "insertSettingsTx eng m ks (db\<lparr>db_settings := fmupd k v (db_settings db)\<rparr>) = Inr db'"
      using Cons.prems by (auto split: if_split_asm)
    from Cons.IH [OF this] v show ?thesis by (cases db') auto
  qed
qed

lemma upsertSettingsTx_Inr:
  assumes "upsertSettingsTx eng m ks db = Inr db'"
  shows "db' = db\<lparr>db_settings := db_settings db'\<rparr> \<and>
     (\<forall>k. fmlookup (db_settings db') k = (if k \<in> set ks \<and> k \<noteq> [] \<and> fmlookup m k \<noteq> None then fmlookup m k
                          else fmlookup (db_settings db) k))"
  using assms
proof (induction ks arbitrary: db)
  case Nil
  then show ?case by simp
next
  case (Cons k ks)
  show ?case
  proof (cases "fmlookup m k = None \<or> k = []")
    case True
    then have "upsertSettingsTx eng m ks db = Inr db'" using Cons.prems by (auto split: option.split_asm)
    from Cons.IH [OF this] True show ?thesis by (cases db') auto
  next
    case False
    then obtain v where v: "fmlookup m k = Some v" "k \<noteq> []" by auto
    then have "upsertSettingsTx eng m ks (db\<lparr>db_settings := fmupd k v (db_settings db)\<rparr>) = Inr db'"
      using Cons.prems by (auto split: if_split_asm)
    from Cons.IH [OF this] v show ?thesis by (cases db') auto
  qed
qed

lemma deleteAdmins_Inr [simp]:
  "deleteAdmins eng db = Inr db' \<longleftrightarrow> fault eng SDeleteAdmins = None \<and> db' = db\<lparr>db_admins := fmempty\<rparr>"
  by (auto simp: deleteAdmins_def)

lemma deleteSettings_Inr [simp]:
  "deleteSettings eng db = Inr db' \<longleftrightarrow> fault eng SDeleteSettings = None \<and> db' = db\<lparr>db_settings := fmempty\<rparr>"
  by (auto simp: deleteSettings_def)

text \<open>What a committed snapshot leaves in the tables.\<close>

lemma ReplaceSnapshot_Inr:
  assumes "ReplaceSnapshot eng now order sn db = (Inr u, db')"
  obtains db1 db3 where
    "insertAccountsTx eng now (sn_Accounts sn) (db\<lparr>db_rows := []\<rparr>) = Inr db1"
    "sn_Admins sn \<noteq> []"
    "insertAdminsTx eng now (ErrNew ''snapshot contains invalid administrator'') (\<lambda>a e. e)
       (sn_Admins sn) (db1\<lparr>db_admins := fmempty\<rparr>) = Inr db3"
    "insertSettingsTx eng (sn_Settings sn) order (db3\<lparr>db_settings := fmempty\<rparr>) = Inr db'"
  using assms by (auto simp: ReplaceSnapshot_def transaction_Inr split: if_split_asm)

lemma ReplaceSnapshot_failed: "ReplaceSnapshot eng now order sn db = (Inl e, db') \<Longrightarrow> db' = db"
  by (auto simp: ReplaceSnapshot_def split: if_split_asm dest: transaction_Inl)

lemma ReplaceSnapshot_tables:
  assumes ok: "ReplaceSnapshot eng now order sn db = (Inr u, db')"
    and order: "set order = fmdom' (sn_Settings sn)"
    and ids: "\<forall>a \<in> set (sn_Accounts sn). 0 < a_ID a"
  shows "storable (sn_Accounts sn)" "db_rows db' = map (stamp now) (sn_Accounts sn)"
    "map_option row_hash (fmlookup (db_admins db') v) =
       map_of (map (\<lambda>a. (adm_Username a, adm_PasswordHash a)) (sn_Admins sn)) v"
    "fmlookup (db_settings db') k = (if k = [] then None else fmlookup (sn_Settings sn) k)"
    "now \<noteq> 0 \<Longrightarrow> rows_ok db \<Longrightarrow> db_inv db'"
proof -
  obtain db1 db3 where d: "insertAccountsTx eng now (sn_Accounts sn) (db\<lparr>db_rows := []\<rparr>) = Inr db1"
    "sn_Admins sn \<noteq> []"
    "insertAdminsTx eng now (ErrNew ''snapshot contains invalid administrator'') (\<lambda>a e. e)
       (sn_Admins sn) (db1\<lparr>db_admins := fmempty\<rparr>) = Inr db3"
    "insertSettingsTx eng (sn_Settings sn) order (db3\<lparr>db_settings := fmempty\<rparr>) = Inr db'"
    by (rule ReplaceSnapshot_Inr [OF ok])
  have e: "storable (db_rows (db\<lparr>db_rows := []\<rparr>))" by (simp add: storable_def)
  note r = insertAccountsTx_positive [OF ids e, of eng now db1]
  note a = insertAdminsTx_Inr [OF d(3)]
  note s = insertSettingsTx_Inr [OF d(4)]
  have db': "db_rows db' = db_rows db3" "db_admins db' = db_admins db3" "db_seq db' = db_seq db3"
    by (subst conjunct1 [OF s], simp)+
  show "storable (sn_Accounts sn)" "db_rows db' = map (stamp now) (sn_Accounts sn)"
    using r d(1) a by (simp_all add: db')
  show "map_option row_hash (fmlookup (db_admins db') v) =
      map_of (map (\<lambda>a. (adm_Username a, adm_PasswordHash a)) (sn_Admins sn)) v"
    using a by (auto simp: db' split: option.split)
  show k: "fmlookup (db_settings db') k = (if k = [] then None else fmlookup (sn_Settings sn) k)" for k
    using s order by (auto simp: fmdom'_notD)
  show "db_inv db'" if now: "now \<noteq> 0" and rok: "rows_ok db"
  proof -
    have "rows_ok db1"
      using insertAccountsTx_ok [OF d(1) rows_ok_empty [OF rok] now] by simp
    then have "rows_ok db'" using a by (simp add: rows_ok_def db')
    moreover have "admins_ok db'" using a by (simp add: admins_ok_def db')
    ultimately show ?thesis using k by (simp add: db_inv_def settings_ok_def)
  qed
qed

lemma admin_list_map:
  "map_of (map (\<lambda>a. (adm_Username a, adm_PasswordHash a)) (admin_list m)) u =
     map_option row_hash (fmlookup m u)"
proof -
  have eq: "map (\<lambda>a. (adm_Username a, adm_PasswordHash a)) (admin_list m) =
      map (\<lambda>(k, r). (k, row_hash r)) (sorted_list_of_fmap m)"
    by (simp add: admin_list_def comp_def split_def)
  have "map_of (sorted_list_of_fmap m) = fmlookup m" by simp
  then show ?thesis by (simp add: eq map_of_map comp_def)
qed

lemma admin_list_cong:
  assumes "\<And>u. map_option row_hash (fmlookup m u) = map_option row_hash (fmlookup m' u)"
  shows "admin_list m = admin_list m'"
proof -
  have iff: "fmlookup m u = None \<longleftrightarrow> fmlookup m' u = None" for u
    using assms [of u] by (cases "fmlookup m u"; cases "fmlookup m' u") auto
  have in_dom: "u |\<in>| fmdom x \<longleftrightarrow> fmlookup x u \<noteq> None" for u and x :: "(string, AdminRow) fmap"
    by (simp add: fmlookup_dom_iff)
  have dom: "fmdom m = fmdom m'"
    by (rule fset_eqI) (simp only: in_dom iff)
  have "row_hash (the (fmlookup m u)) = row_hash (the (fmlookup m' u))" if "u |\<in>| fmdom m" for u
  proof -
    have "fmlookup m u \<noteq> None" using that unfolding in_dom .
    then obtain r where "fmlookup m u = Some r" by blast
    moreover then obtain r' where "fmlookup m' u = Some r'"
      using iff [of u] by auto
    ultimately show ?thesis using assms [of u] by simp
  qed
  then show ?thesis
    by (simp add: admin_list_def sorted_list_of_fmap_def dom)
qed

text \<open>Backup and restore: reading a restored snapshot back gives the snapshot.\<close>

lemma snapshot_roundtrip:
  assumes inv: "db_inv db" and take: "takeSnapshot eng now db = Inr sn"
    and rep: "ReplaceSnapshot eng' now' order sn db2 = (Inr u, db')"
    and order: "set order = fmdom' (sn_Settings sn)" and sel: "takeSnapshot eng'' now'' db' = Inr sn'"
  shows "sn_Accounts sn' = sn_Accounts sn \<and> sn_Admins sn' = sn_Admins sn \<and>
         sn_Settings sn' = sn_Settings sn"
proof -
  have sn: "sn_Accounts sn = sort_key a_ID (db_rows db)" "sn_Admins sn = admin_list (db_admins db)"
    "sn_Settings sn = db_settings db"
    using take by (auto simp: takeSnapshot_def Accounts_def Admins_def Settings_def)
  have sn': "sn_Accounts sn' = sort_key a_ID (db_rows db')" "sn_Admins sn' = admin_list (db_admins db')"
    "sn_Settings sn' = db_settings db'"
    using sel by (auto simp: takeSnapshot_def Accounts_def Admins_def Settings_def)
  have rows: "a \<in> set (sn_Accounts sn) \<Longrightarrow> 0 < a_ID a \<and> a_CreatedAt a \<noteq> 0 \<and> a_UpdatedAt a \<noteq> 0" for a
    using inv by (auto simp: sn db_inv_def rows_ok_def row_ok_def)
  then have ids: "\<forall>a \<in> set (sn_Accounts sn). 0 < a_ID a" by blast
  note t = ReplaceSnapshot_tables [OF rep order ids]
  have "map (stamp now') (sn_Accounts sn) = sn_Accounts sn"
    using rows by (intro map_idI stamp_id) auto
  then have "sn_Accounts sn' = sn_Accounts sn"
    using t(2) by (simp add: sn' sn sort_key_sorted)
  moreover have "sn_Admins sn' = sn_Admins sn"
    unfolding sn' sn by (rule admin_list_cong) (simp add: t(3) sn admin_list_map)
  moreover have "sn_Settings sn' = sn_Settings sn"
    using t(4) inv by (intro fmap_ext) (auto simp: sn' sn db_inv_def settings_ok_def)
  ultimately show ?thesis by simp
qed

lemma ReplaceSnapshot_inv:
  assumes inv: "db_inv db" and now: "now \<noteq> 0" and order: "set order = fmdom' (sn_Settings sn)"
    and ids: "\<forall>a \<in> set (sn_Accounts sn). 0 < a_ID a"
  shows "db_inv (snd (ReplaceSnapshot eng now order sn db))"
proof (cases "ReplaceSnapshot eng now order sn db")
  case (Pair r db')
  show ?thesis
  proof (cases r)
    case (Inl e)
    then have "db' = db" using Pair ReplaceSnapshot_failed by simp
    then show ?thesis using Pair inv by simp
  next
    case (Inr u)
    with Pair have "ReplaceSnapshot eng now order sn db = (Inr u, db')" by simp
    from ReplaceSnapshot_tables(5) [OF this order ids now] inv Pair show ?thesis
      by (simp add: db_inv_def)
  qed
qed

section \<open>Changing the panel's settings and its administrator\<close>

lemma ApplySettings_failed:
  "ApplySettings eng now vals order old new hash db = (Inl e, db') \<Longrightarrow> db' = db"
  by (simp add: ApplySettings_def transaction_Inl)

lemma ApplySettings_Inr:
  assumes "ApplySettings eng now vals order old new hash db = (Inr u, db')"
  obtains db1 where "upsertSettingsTx eng vals order db = Inr db1"
    "applyAdminTx eng now old new hash db1 = Inr db'"
  using assms by (auto simp: ApplySettings_def transaction_Inr)

lemma applyAdminTx_Inr:
  assumes "applyAdminTx eng now old new hash db = Inr db'"
  shows "db' = db\<lparr>db_admins := db_admins db'\<rparr> \<and>
     (old = [] \<longrightarrow> db_admins db' = db_admins db) \<and>
     (old \<noteq> [] \<longrightarrow>
        new \<noteq> [] \<and> hash \<noteq> [] \<and> fmlookup (db_admins db) old \<noteq> None \<and>
        (old \<noteq> new \<longrightarrow> fmlookup (db_admins db) new = None) \<and>
        (\<forall>u. map_option row_hash (fmlookup (db_admins db') u) =
           (if u = new then Some hash else if u = old then None
            else map_option row_hash (fmlookup (db_admins db) u))))"
  using assms
  by (cases db) (auto simp: applyAdminTx_def insertAdmin_Inr split: if_split_asm option.split_asm)

text \<open>
  A successful call stores every setting, renames the administrator and sets the hash, and nothing
  else; a failed one changes nothing.
\<close>

definition settings_applied ::
    "(string, string) fmap \<Rightarrow> string \<Rightarrow> string \<Rightarrow> string \<Rightarrow> Db \<Rightarrow> Db \<Rightarrow> bool" where
  "settings_applied vals old new hash db db' \<longleftrightarrow>
     db_rows db' = db_rows db \<and> db_seq db' = db_seq db \<and>
     (\<forall>k. fmlookup (db_settings db') k =
        (if k \<noteq> [] \<and> fmlookup vals k \<noteq> None then fmlookup vals k else fmlookup (db_settings db) k)) \<and>
     (\<forall>u. map_option row_hash (fmlookup (db_admins db') u) =
        (if old \<noteq> [] \<and> u = new then Some hash
         else if old \<noteq> [] \<and> u = old then None
         else map_option row_hash (fmlookup (db_admins db) u)))"

lemma ApplySettings_spec:
  assumes ok: "ApplySettings eng now vals order old new hash db = (Inr u, db')"
    and order: "set order = fmdom' vals"
  shows "settings_applied vals old new hash db db'"
proof -
  obtain db1 where d: "upsertSettingsTx eng vals order db = Inr db1"
    "applyAdminTx eng now old new hash db1 = Inr db'"
    by (rule ApplySettings_Inr [OF ok])
  note s = upsertSettingsTx_Inr [OF d(1)]
  note a = applyAdminTx_Inr [OF d(2)]
  have db1: "db_rows db1 = db_rows db" "db_seq db1 = db_seq db" "db_admins db1 = db_admins db"
    by (subst conjunct1 [OF s], simp)+
  have db': "db_rows db' = db_rows db1" "db_seq db' = db_seq db1" "db_settings db' = db_settings db1"
    by (subst conjunct1 [OF a], simp)+
  have "fmlookup (db_settings db1) k =
     (if k \<noteq> [] \<and> fmlookup vals k \<noteq> None then fmlookup vals k else fmlookup (db_settings db) k)" for k
    using s order by (auto simp: fmdom'_notD)
  with a show ?thesis by (cases "old = []") (simp_all add: settings_applied_def db1 db')
qed

lemma ApplySettings_inv:
  assumes inv: "db_inv db" and order: "set order = fmdom' vals"
  shows "db_inv (snd (ApplySettings eng now vals order old new hash db))"
proof (cases "ApplySettings eng now vals order old new hash db")
  case (Pair r db')
  show ?thesis
  proof (cases r)
    case (Inl e)
    then have "db' = db" using Pair ApplySettings_failed by simp
    then show ?thesis using Pair inv by simp
  next
    case (Inr u)
    then have ok: "ApplySettings eng now vals order old new hash db = (Inr u, db')" using Pair by simp
    obtain db1 where d: "upsertSettingsTx eng vals order db = Inr db1"
      "applyAdminTx eng now old new hash db1 = Inr db'"
      by (rule ApplySettings_Inr [OF ok])
    note s = ApplySettings_spec [OF ok order]
    have spec: "map_option row_hash (fmlookup (db_admins db') u) =
        (if old \<noteq> [] \<and> u = new then Some hash
         else if old \<noteq> [] \<and> u = old then None
         else map_option row_hash (fmlookup (db_admins db) u))" for u
      using s unfolding settings_applied_def by blast
    have "admins_ok db'"
    proof -
      have "u \<noteq> [] \<and> row_hash r \<noteq> []" if ur: "fmlookup (db_admins db') u = Some r" for u r
      proof (cases "old \<noteq> [] \<and> u = new")
        case True
        have "map_option row_hash (fmlookup (db_admins db') u) = Some hash"
          using s True by (simp add: settings_applied_def)
        then have "row_hash r = hash" using ur by simp
        moreover have "new \<noteq> []" "hash \<noteq> []" using applyAdminTx_Inr [OF d(2)] True by simp_all
        ultimately show ?thesis using True by simp
      next
        case False
        have "map_option row_hash (fmlookup (db_admins db') u) =
            (if old \<noteq> [] \<and> u = old then None else map_option row_hash (fmlookup (db_admins db) u))"
          unfolding spec by (rule if_not_P [OF False])
        then obtain q where q: "fmlookup (db_admins db) u = Some q" "row_hash q = row_hash r"
          using ur by (cases "fmlookup (db_admins db) u") (auto split: if_split_asm)
        have "fmpred (\<lambda>u r. u \<noteq> [] \<and> row_hash r \<noteq> []) (db_admins db)"
          using inv by (simp add: db_inv_def admins_ok_def)
        from fmpredD [OF this q(1)] q(2) show ?thesis by simp
      qed
      then show ?thesis by (simp add: admins_ok_def fmpred_iff)
    qed
    moreover have "rows_ok db' \<and> settings_ok db'"
      using inv s by (simp add: db_inv_def settings_applied_def rows_ok_def settings_ok_def)
    ultimately show ?thesis using Pair by (simp add: db_inv_def)
  qed
qed

section \<open>The interfaces the services use\<close>

text \<open>A store of settings: a failed write changes nothing, a successful one changes one key.\<close>

locale settings_store =
  fixes get :: "string \<Rightarrow> 'd \<Rightarrow> string option res"
    and put :: "string \<Rightarrow> string \<Rightarrow> 'd \<Rightarrow> unit res \<times> 'd"
  assumes put_failed: "put k v d = (Inl e, d') \<Longrightarrow> d' = d"
    and put_get: "put k v d = (Inr u, d') \<Longrightarrow>
      get k' d' = bindR (get k' d) (\<lambda>w. Inr (if k' = k then Some v else w))"
begin

lemma put_get_same: "put k v d = (Inr u, d') \<Longrightarrow> get k d = Inr w \<Longrightarrow> get k d' = Inr (Some v)"
  by (simp add: put_get)

lemma put_get_other: "put k v d = (r, d') \<Longrightarrow> k' \<noteq> k \<Longrightarrow> get k' d' = get k' d"
  by (cases r; cases "get k' d") (auto simp: put_get dest: put_failed)

end

lemma SetSetting_Inr:
  "SetSetting eng k v db = (Inr u, db') \<longleftrightarrow>
     k \<noteq> [] \<and> fault eng (SUpsertSetting k) = None \<and> db' = db\<lparr>db_settings := fmupd k v (db_settings db)\<rparr>"
  by (auto simp: SetSetting_def split: sum.split)

lemma SetSetting_failed: "SetSetting eng k v db = (Inl e, db') \<Longrightarrow> db' = db"
  by (auto simp: SetSetting_def split: sum.split_asm if_split_asm)

interpretation kv: settings_store "Setting eng" "SetSetting eng" for eng
  by unfold_locales (auto simp: SetSetting_Inr Setting_def bindR_def split: sum.split dest: SetSetting_failed)

lemma SetSetting_inv: "db_inv db \<Longrightarrow> db_inv (snd (SetSetting eng k v db))"
  by (auto simp: SetSetting_def db_inv_def settings_ok_def split: sum.split)

text \<open>An account as the service stores it: with an id and with time stamps.\<close>

definition identified :: "Account \<Rightarrow> bool" where
  "identified a \<longleftrightarrow> 0 < a_ID a \<and> a_CreatedAt a \<noteq> 0 \<and> a_UpdatedAt a \<noteq> 0"

text \<open>
  A repository of accounts: the whole list is replaced or nothing is, and what is read back is the
  list as it is stored.
\<close>

locale account_repo =
  fixes good :: "'d \<Rightarrow> bool"
    and load :: "'d \<Rightarrow> Account list res"
    and replace :: "Account list \<Rightarrow> 'd \<Rightarrow> unit res \<times> 'd"
    and stored :: "Account list \<Rightarrow> Account list"
  assumes replace_failed: "replace as d = (Inl e, d') \<Longrightarrow> d' = d"
    and replace_load: "replace as d = (Inr u, d') \<Longrightarrow> \<forall>a \<in> set as. identified a \<Longrightarrow>
      load d' = bindR (load d) (\<lambda>_. Inr (stored as))"
    and replace_good: "good d \<Longrightarrow> good (snd (replace as d))"
    and replace_storable: "replace as d = (Inr u, d') \<Longrightarrow> \<forall>a \<in> set as. identified a \<Longrightarrow> storable as"
    and load_ok: "good d \<Longrightarrow> load d = Inr as \<Longrightarrow> storable as \<and> (\<forall>a \<in> set as. identified a)"
    and load_stored: "good d \<Longrightarrow> load d = Inr as \<Longrightarrow> stored as = as"
    and stored_map: "(\<And>a. a_ID (f a) = a_ID a) \<Longrightarrow> stored (map f as) = map f (stored as)"

lemma identified_stamp: "identified a \<Longrightarrow> stamp now a = a"
  by (simp add: identified_def stamp_id)

lemma map_stamp_identified: "\<forall>a \<in> set as. identified a \<Longrightarrow> map (stamp now) as = as"
  by (simp add: map_idI identified_stamp)

lemma Accounts_identified:
  assumes "rows_ok db" "Accounts eng db = Inr as"
  shows "storable as \<and> (\<forall>a \<in> set as. identified a)"
  using Accounts_storable [OF assms] assms
  by (auto simp: Accounts_def identified_def rows_ok_def row_ok_def)

lemma sort_key_map: "(\<And>a. k (f a) = k a) \<Longrightarrow> sort_key k (map f xs) = map f (sort_key k xs)"
proof (induction xs)
  case (Cons x xs)
  have "insort_key k (f x) (map f ys) = map f (insort_key k x ys)" for ys
    using Cons.prems by (induction ys) simp_all
  with Cons show ?case by simp
qed simp

text \<open>The database is such a repository at every instant after the epoch.\<close>

interpretation repo: account_repo db_inv "Accounts eng" "ReplaceAccounts eng (int n + 1)" "sort_key a_ID"
  for eng n
proof
  show "Accounts eng d' = bindR (Accounts eng d) (\<lambda>_. Inr (sort_key a_ID as))"
    if "ReplaceAccounts eng (int n + 1) as d = (Inr u, d')" "\<forall>a \<in> set as. identified a" for as d u d'
  proof -
    have "\<forall>a \<in> set as. 0 < a_ID a" using that(2) by (simp add: identified_def)
    from Accounts_ReplaceAccounts [OF that(1) this, of eng] that(2) show ?thesis
      by (simp add: Accounts_def map_stamp_identified bindR_def split: sum.split)
  qed
  show "sort_key a_ID as = as" if "db_inv d" "Accounts eng d = Inr as" for d as
    using Accounts_sorted [OF that(2)] by (simp add: sort_key_sorted)
  show "storable as \<and> (\<forall>a \<in> set as. identified a)" if "db_inv d" "Accounts eng d = Inr as" for d as
    using that by (intro Accounts_identified [where eng = eng]) (simp_all add: db_inv_def)
  show "storable as" if "ReplaceAccounts eng (int n + 1) as d = (Inr u, d')" "\<forall>a \<in> set as. identified a" for as d u d'
  proof -
    have "\<forall>a \<in> set as. 0 < a_ID a" using that(2) by (simp add: identified_def)
    from ReplaceAccounts_positive [OF this, of eng "int n + 1" d u d'] that(1) show ?thesis by simp
  qed
qed (auto dest: ReplaceAccounts_failed intro: ReplaceAccounts_inv sort_key_map)

section \<open>Every operation keeps the tables well-formed\<close>

lemma ResetTraffic_inv:
  assumes "db_inv db" "now \<noteq> 0"
  shows "db_inv (snd (ResetTraffic eng now i db))"
proof -
  let ?f = "\<lambda>a. if a_ID a = i then a\<lparr>a_UpBytes := 0, a_DownBytes := 0, a_UpdatedAt := now\<rparr> else a"
  have "rows_ok (db\<lparr>db_rows := map ?f (db_rows db)\<rparr>)"
    using assms by (intro rows_ok_map) (auto simp: db_inv_def)
  then show ?thesis
    using assms by (auto simp: ResetTraffic_def db_inv_def split: sum.split)
qed

lemma SetAdmin_inv: "db_inv db \<Longrightarrow> db_inv (snd (SetAdmin eng now u h db))"
  by (auto simp: SetAdmin_def db_inv_def admins_ok_def Let_def fmpred_upd split: sum.split option.split)

lemma ReplaceAdmins_inv:
  assumes "db_inv db"
  shows "db_inv (snd (ReplaceAdmins eng now as db))"
proof (cases "ReplaceAdmins eng now as db")
  case (Pair r db')
  show ?thesis
  proof (cases r)
    case (Inl e)
    with Pair assms show ?thesis
      by (auto simp: ReplaceAdmins_def split: if_split_asm dest: transaction_Inl)
  next
    case (Inr u)
    with Pair have "insertAdminsTx eng now (ErrNew ''admin username and password hash are required'')
        (\<lambda>a e. Errorf ''insert admin %q: %w'' [adm_Username a] [e]) as (db\<lparr>db_admins := fmempty\<rparr>) = Inr db'"
      by (auto simp: ReplaceAdmins_def transaction_Inr split: if_split_asm)
    from insertAdminsTx_Inr [OF this] assms Pair show ?thesis
      by (simp add: db_inv_def rows_ok_def settings_ok_def admins_ok_def)
  qed
qed

lemma ReplaceSnapshot_any_inv:
  assumes inv: "db_inv db" and now: "now \<noteq> 0"
  shows "db_inv (snd (ReplaceSnapshot eng now order sn db))"
proof (cases "ReplaceSnapshot eng now order sn db")
  case (Pair r db')
  show ?thesis
  proof (cases r)
    case (Inl e)
    then have "db' = db" using Pair ReplaceSnapshot_failed by simp
    then show ?thesis using Pair inv by simp
  next
    case (Inr u)
    with Pair obtain db1 db3 where
      d: "insertAccountsTx eng now (sn_Accounts sn) (db\<lparr>db_rows := []\<rparr>) = Inr db1"
      "insertAdminsTx eng now (ErrNew ''snapshot contains invalid administrator'') (\<lambda>a e. e)
         (sn_Admins sn) (db1\<lparr>db_admins := fmempty\<rparr>) = Inr db3"
      "insertSettingsTx eng (sn_Settings sn) order (db3\<lparr>db_settings := fmempty\<rparr>) = Inr db'"
      using ReplaceSnapshot_Inr by metis
    have r: "rows_ok db1"
      using insertAccountsTx_ok [OF d(1) rows_ok_empty now] inv by (simp add: db_inv_def)
    note a = insertAdminsTx_Inr [OF d(2)]
    note s = insertSettingsTx_Inr [OF d(3)]
    have "rows_ok db3" "admins_ok db3" using r a by (simp_all add: rows_ok_def admins_ok_def)
    moreover have "db_rows db' = db_rows db3" "db_seq db' = db_seq db3" "db_admins db' = db_admins db3"
      by (subst conjunct1 [OF s], simp)+
    moreover have "fmlookup (db_settings db') [] = None" using s by simp
    ultimately show ?thesis using Pair by (simp add: db_inv_def rows_ok_def admins_ok_def settings_ok_def)
  qed
qed

text \<open>One operation of the package, at an instant after the epoch, whatever it answers.\<close>

inductive db_step :: "Engine \<Rightarrow> Db \<Rightarrow> Db \<Rightarrow> bool" for eng where
  replace_accounts: "0 < now \<Longrightarrow> db_step eng db (snd (ReplaceAccounts eng now as db))"
| add_traffic: "0 < now \<Longrightarrow> db_step eng db (snd (AddTrafficBatch eng now ds db))"
| reset_traffic: "0 < now \<Longrightarrow> db_step eng db (snd (ResetTraffic eng now i db))"
| set_admin: "0 < now \<Longrightarrow> db_step eng db (snd (SetAdmin eng now user hash db))"
| replace_admins: "0 < now \<Longrightarrow> db_step eng db (snd (ReplaceAdmins eng now admins db))"
| set_setting: "db_step eng db (snd (SetSetting eng key val db))"
| apply_settings: "0 < now \<Longrightarrow> set order = fmdom' vals \<Longrightarrow>
    db_step eng db (snd (ApplySettings eng now vals order old new hash db))"
| replace_snapshot: "0 < now \<Longrightarrow> db_step eng db (snd (ReplaceSnapshot eng now order sn db))"

inductive_cases db_stepE: "db_step eng db db'"

lemma db_step_inv: "db_step eng db db' \<Longrightarrow> db_inv db \<Longrightarrow> db_inv db'"
  by (erule db_stepE)
    (auto intro: ReplaceAccounts_inv AddTrafficBatch_inv ResetTraffic_inv SetAdmin_inv ReplaceAdmins_inv
      SetSetting_inv ApplySettings_inv ReplaceSnapshot_any_inv)

definition empty_db :: Db where
  "empty_db = \<lparr>db_rows = [], db_seq = 0, db_admins = fmempty, db_settings = fmempty\<rparr>"

lemma empty_db_inv: "db_inv empty_db"
  by (simp add: empty_db_def db_inv_def rows_ok_def admins_ok_def settings_ok_def)

section \<open>Properties\<close>

text \<open>Sample data for the witnesses.\<close>

definition quiet :: Engine where
  "quiet = \<lparr>fault = (\<lambda>s. None), sql_add = (+)\<rparr>"

lemma quiet_simps [simp]: "fault quiet s = None" "sql_add quiet a b = a + b" "exact_add quiet"
  by (simp_all add: quiet_def exact_add_def)

definition row :: "int \<Rightarrow> int \<Rightarrow> string \<Rightarrow> Account" where
  "row i port tag =
     \<lparr>a_ID = i, a_Name = ''n'', a_Enabled = True, a_DisabledReason = [], a_Listen = [], a_Port = port,
      a_Protocol = ''trojan'', a_SettingsJSON = Doc (JObj fmempty), a_StreamSettingsJSON = Doc (JObj fmempty),
      a_SniffingJSON = Doc (JObj fmempty), a_Tag = tag, a_UpBytes = 1, a_DownBytes = 2, a_QuotaBytes = 0,
      a_AllTimeBytes = 3, a_ExpiryTime = 0, a_MonthlyReset = False, a_LastMonthlyReset = [],
      a_CreatedAt = 5, a_UpdatedAt = 5\<rparr>"

text \<open>Replacing the accounts is all or nothing: it succeeds exactly when no statement fails and
  the list has distinct ids, ports and tags and valid ports; then the table holds exactly the list
  (with missing time stamps filled in), and otherwise the database is as it was.\<close>

theorem replace_all_or_nothing:
  assumes "\<forall>a \<in> set as. 0 < a_ID a"
  shows "case ReplaceAccounts eng now as db of
           (Inr u, db') \<Rightarrow> no_fault_replace eng now as \<and> storable as \<and> db_rows db' = map (stamp now) as \<and>
              db_admins db' = db_admins db \<and> db_settings db' = db_settings db
         | (Inl e, db') \<Rightarrow> db' = db \<and> \<not> (no_fault_replace eng now as \<and> storable as)"
proof (cases "ReplaceAccounts eng now as db")
  case (Pair r db')
  note iff = ReplaceAccounts_positive [OF assms, of eng now db]
  show ?thesis
  proof (cases r)
    case (Inl e)
    then have "\<not> (no_fault_replace eng now as \<and> storable as)" using iff Pair by auto
    then show ?thesis using Inl Pair ReplaceAccounts_failed by simp
  next
    case (Inr u)
    then show ?thesis using iff [of u db'] Pair by simp
  qed
qed

theorem replace_all_or_nothing_witness:
  "db_rows (snd (ReplaceAccounts quiet 9 [row 1 443 ''a'', row 2 80 ''b''] empty_db)) =
     [row 1 443 ''a'', row 2 80 ''b''] \<and>
   snd (ReplaceAccounts quiet 9 [row 1 443 ''a'', row 2 443 ''b''] empty_db) = empty_db"
proof -
  have good: "no_fault_replace quiet 9 [row 1 443 ''a'', row 2 80 ''b''] \<and>
      storable [row 1 443 ''a'', row 2 80 ''b'']"
    by (simp add: no_fault_replace_def storable_def row_def)
  have bad: "\<not> storable [row 1 443 ''a'', row 2 443 ''b'']" by (simp add: storable_def row_def)
  have st: "stamp 9 (row i p t) = row i p t" for i p t by (simp add: stamp_def row_def)
  have "\<forall>a \<in> set [row 1 443 ''a'', row 2 p ''b'']. 0 < a_ID a" for p by (simp add: row_def)
  note all = replace_all_or_nothing [OF this, where eng = quiet and now = 9 and db = empty_db]
  show ?thesis
    using all [of 80] all [of 443] good bad st
    by (auto split: prod.split_asm sum.split_asm)
qed

text \<open>(C24) Whatever sequence of operations is run on the database, with whatever faults of the
  engine, the tables stay well-formed: ids, ports and tags are unique, ids positive and never above
  the sequence, ports valid, time stamps set, no nameless administrator or setting.\<close>

theorem store_invariant:
  assumes "(db_step eng)\<^sup>*\<^sup>* db db'" and "db_inv db"
  shows "db_inv db'"
  using assms by (induction rule: rtranclp_induct) (auto intro: db_step_inv)

theorem store_invariant_witness:
  "db_inv (snd (SetSetting quiet ''k'' ''v'' (snd (ReplaceAccounts quiet 9 [row 1 443 ''a''] empty_db))))"
proof -
  let ?d1 = "snd (ReplaceAccounts quiet 9 [row 1 443 ''a''] empty_db)"
  have "db_step quiet empty_db ?d1" by (rule db_step.replace_accounts) simp
  then have "(db_step quiet)\<^sup>*\<^sup>* empty_db (snd (SetSetting quiet ''k'' ''v'' ?d1))"
    by (rule converse_rtranclp_into_rtranclp) (rule r_into_rtranclp, rule db_step.set_setting)
  from store_invariant [OF this empty_db_inv] show ?thesis .
qed

text \<open>Traffic is counted once and to the right account: a stored batch adds to every account
  exactly what the deltas of its tag report, in both directions and in the lifetime total.\<close>

theorem traffic_counted_once:
  assumes "AddTrafficBatch eng now ds db = (Inr u, db')" and "exact_add eng"
    and "\<forall>a \<in> set (db_rows db). counters_fit ds a"
  shows "list_all2 (counters_added ds) (db_rows db) (db_rows db')"
  using assms by (rule AddTrafficBatch_adds)

theorem traffic_counted_once_witness:
  "\<exists>db'. AddTrafficBatch quiet 9 [\<lparr>d_Tag = ''a'', d_Up = 4, d_Down = 0\<rparr>, \<lparr>d_Tag = ''a'', d_Up = 1, d_Down = 7\<rparr>]
      (empty_db\<lparr>db_rows := [row 1 443 ''a'']\<rparr>) = (Inr (), db') \<and> map a_AllTimeBytes (db_rows db') = [15]"
proof -
  let ?ds = "[\<lparr>d_Tag = ''a'', d_Up = 4, d_Down = 0\<rparr>, \<lparr>d_Tag = ''a'', d_Up = 1, d_Down = 7\<rparr>]"
  let ?db = "empty_db\<lparr>db_rows := [row 1 443 ''a'']\<rparr>"
  obtain db' where db': "AddTrafficBatch quiet 9 ?ds ?db = (Inr (), db')"
    by (simp add: AddTrafficBatch_def transaction_def)
  have fit: "\<forall>a \<in> set (db_rows ?db). counters_fit ?ds a"
    by (simp add: counters_fit_def traffic_of_def row_def)
  from traffic_counted_once [OF db' quiet_simps(3) fit]
  have "list_all2 (counters_added ?ds) [row 1 443 ''a''] (db_rows db')" by simp
  then have "map a_AllTimeBytes (db_rows db') = [15]"
    by (auto simp: list_all2_Cons1 counters_added_def traffic_of_def row_def)
  with db' show ?thesis by (intro exI [of _ db'] conjI)
qed

text \<open>The panel's settings and its administrator change together or not at all: after a success
  every given setting is stored, the administrator is renamed and has the new hash, and nothing else
  has changed; after a failure nothing has.\<close>

theorem settings_together:
  assumes "set order = fmdom' vals"
  shows "case ApplySettings eng now vals order old new hash db of
           (Inr u, db') \<Rightarrow> settings_applied vals old new hash db db'
         | (Inl e, db') \<Rightarrow> db' = db"
  using ApplySettings_spec [OF _ assms] ApplySettings_failed
  by (auto split: prod.split sum.split)

theorem settings_together_witness:
  "case ApplySettings quiet 9 (fmupd ''k'' ''v'' fmempty) [''k''] [] [] [] empty_db of
     (Inr u, db') \<Rightarrow> fmlookup (db_settings db') ''k'' = Some ''v'' | (Inl e, db') \<Rightarrow> False"
proof -
  have ok: "fst (ApplySettings quiet 9 (fmupd ''k'' ''v'' fmempty) [''k''] [] [] [] empty_db) = Inr ()"
    by (simp add: ApplySettings_def transaction_def applyAdminTx_def)
  show ?thesis
    using settings_together [where order = "[''k'']" and vals = "fmupd ''k'' ''v'' fmempty" and eng = quiet
        and now = 9 and old = "[]" and new = "[]" and hash = "[]" and db = empty_db] ok
    by (auto simp: settings_applied_def split: prod.split_asm sum.split_asm)
qed

end
