(* ===== verification/Ports.thy ===== *)
theory Ports
  imports StoreLaws
begin

text \<open>
  Choosing a listening port (\<open>internal/service/ports.go\<close>, and \<open>portDefaults\<close>, \<open>settingInt\<close> of
  \<open>internal/service/runtime.go\<close>). What the operating system answers when a port is bound and what
  \<open>crypto/rand\<close> draws during one operation is the argument \<open>os\<close>.
\<close>

record Os =
  tcp_free :: "int \<Rightarrow> bool"
  udp_free :: "int \<Rightarrow> bool"
  rand_below :: "int \<Rightarrow> int option"

definition ensurePortFree :: "Os \<Rightarrow> int \<Rightarrow> unit res" where
  "ensurePortFree os port =
     bindR (guardR (tcp_free os port) (Errorf ''port %d is already in use (TCP)'' [itoa port] [])) (\<lambda>_.
       guardR (udp_free os port) (Errorf ''port %d is already in use (UDP)'' [itoa port] []))"

definition randomPortStart :: "Os \<Rightarrow> int \<Rightarrow> int \<Rightarrow> int" where
  "randomPortStart os minPort maxPort =
     (let count = maxPort - minPort + 1 in
      if count \<le> 1 then minPort
      else case rand_below os count of None \<Rightarrow> minPort | Some n \<Rightarrow> minPort + n)"

definition nextFreePortFrom :: "Os \<Rightarrow> Account list \<Rightarrow> int \<Rightarrow> int \<Rightarrow> int \<Rightarrow> int \<Rightarrow> int" where
  "nextFreePortFrom os accounts minPort maxPort reserved start0 =
     (if minPort < 1 \<or> maxPort < minPort then 0
      else
        (let start = (if start0 < minPort \<or> start0 > maxPort then minPort else start0);
             used = (\<lambda>p. p = reserved \<or> p \<in> a_Port ` set accounts);
             count = maxPort - minPort + 1;
             port = (\<lambda>i. minPort + (start - minPort + i) mod count)
         in case List.find (\<lambda>i. \<not> used (port i) \<and> ensurePortFree os (port i) = Inr ()) [0..count - 1] of
              None \<Rightarrow> 0 | Some i \<Rightarrow> port i))"

definition nextFreePort :: "Os \<Rightarrow> Account list \<Rightarrow> int \<Rightarrow> int \<Rightarrow> int \<Rightarrow> int" where
  "nextFreePort os accounts minPort maxPort reserved =
     nextFreePortFrom os accounts minPort maxPort reserved (randomPortStart os minPort maxPort)"

definition settingInt :: "Engine \<Rightarrow> Db \<Rightarrow> string \<Rightarrow> int \<Rightarrow> int" where
  "settingInt eng db key fallback =
     (case Setting eng key db of
        Inr (Some v) \<Rightarrow> (case atoi (trim_space v) of None \<Rightarrow> fallback | Some n \<Rightarrow> n)
      | _ \<Rightarrow> fallback)"

definition portDefaults :: "Engine \<Rightarrow> Db \<Rightarrow> int \<times> int \<times> int" where
  "portDefaults eng db =
     (let minPort = settingInt eng db ''port_min'' PortMin;
          maxPort = settingInt eng db ''port_max'' PortMax;
          apiPort = settingInt eng db ''xray_api_port'' XrayAPIPort;
          minPort = (if minPort < 1 \<or> minPort > 65535 then PortMin else minPort);
          maxPort = (if maxPort < minPort \<or> maxPort > 65535 then PortMax else maxPort)
      in (minPort, maxPort, apiPort))"

definition automaticPort :: "Engine \<Rightarrow> Os \<Rightarrow> Db \<Rightarrow> Account list \<Rightarrow> int res" where
  "automaticPort eng os db accounts =
     (let (minPort, maxPort, apiPort) = portDefaults eng db;
          port = nextFreePort os accounts minPort maxPort apiPort
      in if port = 0
         then Inl (Errorf ''no automatic port available in %d-%d'' [itoa minPort, itoa maxPort] [])
         else Inr port)"

definition SuggestPort :: "Engine \<Rightarrow> Os \<Rightarrow> Db \<Rightarrow> int res" where
  "SuggestPort eng os db = bindR (Accounts eng db) (automaticPort eng os db)"

section \<open>The search finds a free port exactly when there is one\<close>

definition candidate :: "Os \<Rightarrow> Account list \<Rightarrow> int \<Rightarrow> int \<Rightarrow> bool" where
  "candidate os accounts reserved p \<longleftrightarrow>
     p \<noteq> reserved \<and> p \<notin> a_Port ` set accounts \<and> tcp_free os p \<and> udp_free os p"

lemma ensurePortFree_ok [simp]: "ensurePortFree os p = Inr u \<longleftrightarrow> tcp_free os p \<and> udp_free os p"
  by (auto simp: ensurePortFree_def)

lemma nextFreePortFrom_unfold:
  assumes "1 \<le> minPort" "minPort \<le> maxPort"
  obtains start where "minPort \<le> start" "start \<le> maxPort"
    "nextFreePortFrom os accounts minPort maxPort reserved start0 =
      (case List.find (\<lambda>i. candidate os accounts reserved
                (minPort + (start - minPort + i) mod (maxPort - minPort + 1))) [0..maxPort - minPort] of
         None \<Rightarrow> 0 | Some i \<Rightarrow> minPort + (start - minPort + i) mod (maxPort - minPort + 1))"
proof -
  let ?start = "if start0 < minPort \<or> start0 > maxPort then minPort else start0"
  show thesis
    by (rule that [of ?start]) (use assms in \<open>simp_all add: nextFreePortFrom_def candidate_def Let_def conj_ac\<close>)
qed

lemma cyclic_range:
  fixes x :: int
  assumes "minPort \<le> maxPort"
  shows "0 \<le> x mod (maxPort - minPort + 1)" "x mod (maxPort - minPort + 1) \<le> maxPort - minPort"
  using assms pos_mod_bound [of "maxPort - minPort + 1" x] pos_mod_sign [of "maxPort - minPort + 1" x]
  by linarith+

lemma nextFreePortFrom_sound:
  assumes "nextFreePortFrom os accounts minPort maxPort reserved start = p" "p \<noteq> 0"
  shows "1 \<le> minPort \<and> minPort \<le> p \<and> p \<le> maxPort \<and> candidate os accounts reserved p"
proof -
  have r: "1 \<le> minPort" "minPort \<le> maxPort"
    using assms by (auto simp: nextFreePortFrom_def split: if_split_asm)
  obtain s where s: "minPort \<le> s" "s \<le> maxPort"
    "p = (case List.find (\<lambda>i. candidate os accounts reserved
                (minPort + (s - minPort + i) mod (maxPort - minPort + 1))) [0..maxPort - minPort] of
         None \<Rightarrow> 0 | Some i \<Rightarrow> minPort + (s - minPort + i) mod (maxPort - minPort + 1))"
    using nextFreePortFrom_unfold [OF r, of os accounts reserved start] assms(1) by metis
  then obtain i where "p = minPort + (s - minPort + i) mod (maxPort - minPort + 1)"
    "candidate os accounts reserved p"
    using assms(2) by (auto simp: find_Some_iff split: option.split_asm)
  then show ?thesis using r cyclic_range [OF r(2), of "s - minPort + i"] by linarith
qed

lemma cyclic_index:
  fixes s :: int
  assumes "minPort \<le> s" "s \<le> maxPort" "minPort \<le> q" "q \<le> maxPort"
  shows "\<exists>i \<in> {0..maxPort - minPort}. minPort + (s - minPort + i) mod (maxPort - minPort + 1) = q"
proof -
  let ?n = "maxPort - minPort + 1"
  let ?i = "(q - s) mod ?n"
  have "(s - minPort + ?i) mod ?n = (q - minPort) mod ?n"
    by (metis add.commute add_diff_cancel_left' diff_add_eq diff_diff_eq2 mod_add_right_eq)
  also have "\<dots> = q - minPort" using assms by (intro mod_pos_pos_trivial) auto
  finally have "minPort + (s - minPort + ?i) mod ?n = q" by simp
  moreover have "?i \<in> {0..maxPort - minPort}"
    using pos_mod_bound [of ?n "q - s"] assms by simp
  ultimately show ?thesis by blast
qed

lemma nextFreePortFrom_complete:
  assumes "1 \<le> minPort" "minPort \<le> q" "q \<le> maxPort" "candidate os accounts reserved q"
  shows "nextFreePortFrom os accounts minPort maxPort reserved start \<noteq> 0"
proof -
  have r: "1 \<le> minPort" "minPort \<le> maxPort" using assms by auto
  let ?port = "\<lambda>s i. minPort + (s - minPort + i) mod (maxPort - minPort + 1)"
  obtain s where s: "minPort \<le> s" "s \<le> maxPort"
    "nextFreePortFrom os accounts minPort maxPort reserved start =
      (case List.find (\<lambda>i. candidate os accounts reserved (?port s i)) [0..maxPort - minPort] of
         None \<Rightarrow> 0 | Some i \<Rightarrow> ?port s i)"
    by (rule nextFreePortFrom_unfold [OF r])
  obtain i where "i \<in> {0..maxPort - minPort}" "?port s i = q"
    using cyclic_index [OF s(1,2) assms(2,3)] by blast
  then have "List.find (\<lambda>i. candidate os accounts reserved (?port s i)) [0..maxPort - minPort] \<noteq> None"
    using assms(4) by (auto simp: find_None_iff)
  moreover have "?port s j \<noteq> 0" for j
    using r cyclic_range [OF r(2), of "s - minPort + j"] by linarith
  ultimately show ?thesis by (auto simp: s(3))
qed

section \<open>The configured range\<close>

lemma portDefaults_min:
  "portDefaults eng db = (minPort, maxPort, apiPort) \<Longrightarrow>
     1 \<le> minPort \<and> minPort \<le> 65535 \<and> 1 \<le> maxPort \<and> maxPort \<le> 65535"
  by (auto simp: portDefaults_def Let_def PortMin_def PortMax_def split: if_split_asm)

text \<open>
  A maximum below the minimum falls back to the default maximum, which is itself below a minimum
  of more than 60000: such a configuration has no automatic port at all.
\<close>

lemma portDefaults_empty_range:
  assumes "Setting eng ''port_min'' db = Inr (Some v)" "atoi (trim_space v) = Some m" "60000 < m" "m \<le> 65535"
    and "Setting eng ''port_max'' db = Inr None"
  shows "automaticPort eng os db accounts =
           Inl (Errorf ''no automatic port available in %d-%d'' [itoa m, itoa 60000] [])"
  using assms
  by (simp add: automaticPort_def portDefaults_def settingInt_def Let_def PortMin_def PortMax_def
      nextFreePort_def nextFreePortFrom_def)

lemma automaticPort_cases:
  assumes "portDefaults eng db = (minPort, maxPort, apiPort)"
  shows "(\<exists>p. automaticPort eng os db accounts = Inr p \<and> minPort \<le> p \<and> p \<le> maxPort \<and>
               candidate os accounts apiPort p) \<or>
         (\<exists>e. automaticPort eng os db accounts = Inl e \<and>
               (\<forall>q. minPort \<le> q \<and> q \<le> maxPort \<longrightarrow> \<not> candidate os accounts apiPort q))"
proof (cases "nextFreePort os accounts minPort maxPort apiPort = 0")
  case True
  moreover have "1 \<le> minPort" using portDefaults_min [OF assms] by simp
  ultimately have "\<not> candidate os accounts apiPort q" if "minPort \<le> q" "q \<le> maxPort" for q
    using nextFreePortFrom_complete that unfolding nextFreePort_def by blast
  then show ?thesis using True assms by (auto simp: automaticPort_def)
next
  case False
  then show ?thesis
    using nextFreePortFrom_sound assms
    by (fastforce simp: automaticPort_def nextFreePort_def)
qed

section \<open>Properties\<close>

text \<open>(C28) The automatic port: when one is found it lies in the configured range, is not the API
  port, belongs to no account and is free for TCP and UDP; an error means that no port of the range
  is such. The search ends for every random start.\<close>

theorem automatic_port_spec:
  "case portDefaults eng db of (minPort, maxPort, apiPort) \<Rightarrow>
     1 \<le> minPort \<and> maxPort \<le> 65535 \<and>
     (case automaticPort eng os db accounts of
        Inr p \<Rightarrow> p \<in> {q \<in> {minPort..maxPort}. candidate os accounts apiPort q}
      | Inl e \<Rightarrow> {q \<in> {minPort..maxPort}. candidate os accounts apiPort q} = {})"
proof -
  obtain mn mx ap where d: "portDefaults eng db = (mn, mx, ap)" by (cases "portDefaults eng db")
  show ?thesis
    using portDefaults_min [OF d] automaticPort_cases [OF d, of os accounts]
    by (auto simp: d split: sum.split)
qed

text \<open>A minimum above the default maximum, with no maximum of its own, leaves an empty range:
  no automatic port is ever found, whatever is free.\<close>

theorem automatic_port_empty_range:
  assumes "Setting eng ''port_min'' db = Inr (Some v)" and "atoi (trim_space v) = Some m"
    and "60000 < m" "m \<le> 65535" and "Setting eng ''port_max'' db = Inr None"
  shows "automaticPort eng os db accounts =
           Inl (Errorf ''no automatic port available in %d-%d'' [itoa m, itoa 60000] [])"
  using assms by (rule portDefaults_empty_range)

theorem automatic_port_empty_range_witness:
  "\<forall>os. automaticPort quiet os (empty_db\<lparr>db_settings := fmupd ''port_min'' ''60001'' fmempty\<rparr>) [] =
     Inl (Errorf ''no automatic port available in %d-%d'' [itoa 60001, itoa 60000] [])"
proof (rule allI, rule automatic_port_empty_range)
  show "atoi (trim_space ''60001'') = Some 60001"
    by (simp add: trim_space_graphic graphic_def atoi_def parse_nat_def char_digit_def)
qed (simp_all add: Setting_def empty_db_def)

end
