(* ===== verification/AccountInput.thy ===== *)
theory AccountInput
  imports Account
begin

text \<open>
  What the account editor accepts (\<open>internal/accountcfg/account.go\<close>): trimming of the input, the
  defaults of a new account, the merge of a stored account into a partial input, and the
  validation every create and update passes.
\<close>

section \<open>Normalisation\<close>

definition normalizeEditableInput :: "Input \<Rightarrow> Input" where
  "normalizeEditableInput inp =
     inp\<lparr>in_Name := trim_space (in_Name inp),
         in_Protocol := to_lower (trim_space (in_Protocol inp)),
         in_Network := to_lower (trim_space (in_Network inp)),
         in_Security := to_lower (trim_space (in_Security inp)),
         in_Method := to_lower (trim_space (in_Method inp)),
         in_Credential := trim_space (in_Credential inp),
         in_Username := trim_space (in_Username inp),
         in_ServerName := trim_space (in_ServerName inp),
         in_Dest := trim_space (in_Dest inp),
         in_PrivateKey := trim_space (in_PrivateKey inp),
         in_ShortID := trim_space (in_ShortID inp),
         in_Host := trim_space (in_Host inp),
         in_Path := trim_space (in_Path inp),
         in_ServiceName := trim_space (in_ServiceName inp)\<rparr>"

section \<open>Defaults of a new account\<close>

definition default_if_empty :: "string \<Rightarrow> string \<Rightarrow> string" where
  "default_if_empty v d = (if v = [] then d else v)"

definition protocolDefaults :: "entropy \<Rightarrow> Input \<Rightarrow> Input" where
  "protocolDefaults ent inp =
     (if in_Protocol inp = ''vless'' then
        (let i1 = inp\<lparr>in_Credential := default_if_empty (in_Credential inp) (newUUID ent),
                      in_Security := default_if_empty (in_Security inp) ''reality''\<rparr>
         in if in_Flow i1 = [] \<and> (in_Network i1 = ''tcp'' \<or> in_Network i1 = ''raw'') \<and>
               (in_Security i1 = ''tls'' \<or> in_Security i1 = ''reality'')
            then i1\<lparr>in_Flow := ''xtls-rprx-vision''\<rparr> else i1)
      else if in_Protocol inp = ''vmess'' then
        inp\<lparr>in_Credential := default_if_empty (in_Credential inp) (newUUID ent),
            in_ClientSecurity := default_if_empty (in_ClientSecurity inp) ''auto'',
            in_Security := default_if_empty (in_Security inp) ''none''\<rparr>
      else if in_Protocol inp = ''trojan'' then
        inp\<lparr>in_Password := default_if_empty (in_Password inp) (randomSecret ent 18),
            in_Security := default_if_empty (in_Security inp) ''reality''\<rparr>
      else if in_Protocol inp = ''shadowsocks'' then
        inp\<lparr>in_Method := default_if_empty (in_Method inp) ''chacha20-ietf-poly1305'',
            in_ServerPassword := default_if_empty (in_ServerPassword inp) (randomSecret ent 24),
            in_Password := default_if_empty (in_Password inp) (randomSecret ent 20),
            in_Security := default_if_empty (in_Security inp) ''none''\<rparr>
      else if in_Protocol inp = ''socks'' \<or> in_Protocol inp = ''http'' then
        inp\<lparr>in_Username := default_if_empty (in_Username inp) (shortSlug (in_Name inp)),
            in_Password := default_if_empty (in_Password inp) (randomSecret ent 18),
            in_Security := ''none'', in_Network := []\<rparr>
      else inp)"

definition realityDefaults :: "entropy \<Rightarrow> Input \<Rightarrow> Input" where
  "realityDefaults ent inp =
     (if (in_Protocol inp = ''vless'' \<or> in_Protocol inp = ''trojan'') \<and> in_Security inp = ''reality''
      then
        (let i1 = (if trim_space (in_ServerName inp) \<noteq> [] \<and> trim_space (in_Dest inp) = []
                   then inp\<lparr>in_Dest := join_host_port (in_ServerName inp) ''443''\<rparr> else inp);
             i2 = (if in_PrivateKey i1 = []
                   then (case newX25519Keypair ent of
                           None \<Rightarrow> i1 | Some (priv, pub) \<Rightarrow> i1\<lparr>in_PrivateKey := priv\<rparr>)
                   else i1)
         in if in_ShortID i2 = [] then i2\<lparr>in_ShortID := newShortID ent\<rparr> else i2)
      else inp)"

definition applyDefaults :: "entropy \<Rightarrow> Input \<Rightarrow> Input" where
  "applyDefaults ent inp =
     realityDefaults ent
       (protocolDefaults ent
         (if in_Network inp = [] then inp\<lparr>in_Network := ''tcp''\<rparr> else inp))"

section \<open>Merging a stored account into a partial input\<close>

definition mergeMissing :: "View \<Rightarrow> Input \<Rightarrow> Input" where
  "mergeMissing old inp =
     inp\<lparr>in_Credential := default_if_empty (in_Credential inp) (v_Credential old),
         in_Username := default_if_empty (in_Username inp) (v_Username old),
         in_Password := default_if_empty (in_Password inp) (v_Password old),
         in_ServerPassword := default_if_empty (in_ServerPassword inp) (v_ServerPassword old),
         in_ClientSecurity := default_if_empty (in_ClientSecurity inp) (v_ClientSecurity old),
         in_Method := default_if_empty (in_Method inp) (v_Method old),
         in_Flow := default_if_empty (in_Flow inp) (v_Flow old),
         in_Network := default_if_empty (in_Network inp) (v_Network old),
         in_Security := default_if_empty (in_Security inp) (v_Security old),
         in_ServerName := default_if_empty (in_ServerName inp) (v_ServerName old),
         in_Dest := default_if_empty (in_Dest inp) (v_Dest old),
         in_PrivateKey := default_if_empty (in_PrivateKey inp) (v_PrivateKey old),
         in_ShortID := default_if_empty (in_ShortID inp) (v_ShortID old),
         in_Host := default_if_empty (in_Host inp) (v_Host old),
         in_Path := default_if_empty (in_Path inp) (v_Path old),
         in_ServiceName := default_if_empty (in_ServiceName inp) (v_ServiceName old)\<rparr>"

section \<open>Validation\<close>

definition field_checks :: "Input \<Rightarrow> (string \<times> string \<times> nat) list" where
  "field_checks inp =
     [(''name'', in_Name inp, 80), (''protocol'', in_Protocol inp, 32),
      (''credential'', in_Credential inp, 256), (''username'', in_Username inp, 256),
      (''password'', in_Password inp, 4096), (''server password'', in_ServerPassword inp, 4096),
      (''client security'', in_ClientSecurity inp, 64), (''method'', in_Method inp, 128),
      (''flow'', in_Flow inp, 128), (''network'', in_Network inp, 32),
      (''security'', in_Security inp, 32), (''server name'', in_ServerName inp, 512),
      (''target'', in_Dest inp, 1024), (''private key'', in_PrivateKey inp, 256),
      (''short id'', in_ShortID inp, 128), (''host'', in_Host inp, 512),
      (''path'', in_Path inp, 2048), (''service name'', in_ServiceName inp, 512)]"

definition control_chars :: string where
  "control_chars = [CHR 0x00, CHR 0x0D, CHR 0x0A]"

fun run_checks :: "(string \<times> string \<times> nat) list \<Rightarrow> unit res" where
  "run_checks [] = Inr ()"
| "run_checks ((name, val, mx) # cs) =
     (if length val > mx then Inl (Errorf ''%s is too long'' [name] [])
      else if contains_any val control_chars
        then Inl (Errorf ''%s contains invalid control characters'' [name] [])
      else run_checks cs)"

definition editor_protocols :: "string list" where
  "editor_protocols = [''vless'', ''vmess'', ''trojan'', ''shadowsocks'', ''socks'', ''http'']"

definition editor_networks :: "string list" where
  "editor_networks = [''tcp'', ''raw'', ''ws'', ''websocket'', ''grpc'', ''httpupgrade'', ''xhttp'']"

definition plain_proxy :: "string \<Rightarrow> bool" where
  "plain_proxy p \<longleftrightarrow> p = ''socks'' \<or> p = ''http''"

definition reality_protocol :: "string \<Rightarrow> bool" where
  "reality_protocol p \<longleftrightarrow> p = ''vless'' \<or> p = ''trojan''"

definition check_transport :: "Input \<Rightarrow> unit res" where
  "check_transport inp =
     (if plain_proxy (in_Protocol inp) then Inr ()
      else bindR (guardR (in_Network inp \<in> set editor_networks)
                   (Errorf ''network %q is not supported by the built-in editor'' [in_Network inp] []))
        (\<lambda>_. if in_Security inp = ''none'' \<or> in_Security inp = ''tls'' then Inr ()
             else if in_Security inp = ''reality'' then
               guardR (reality_protocol (in_Protocol inp))
                 (ErrNew ''REALITY is supported only for VLESS and Trojan'')
             else Inl (Errorf ''security %q is not supported by the built-in editor''
                         [in_Security inp] [])))"

definition check_reality :: "Input \<Rightarrow> unit res" where
  "check_reality inp =
     (if in_Security inp = ''reality'' then
        guardR (in_Network inp \<in> {''tcp'', ''raw'', ''xhttp'', ''grpc''})
          (Errorf ''REALITY is not supported with %s transport'' [in_Network inp] [])
      else Inr ())"

definition check_flow :: "Input \<Rightarrow> unit res" where
  "check_flow inp =
     (if in_Protocol inp = ''vless'' \<and> in_Flow inp \<noteq> [] then
        (if in_Flow inp \<noteq> ''xtls-rprx-vision''
           then Inl (Errorf ''unsupported VLESS flow %q'' [in_Flow inp] [])
         else if (in_Network inp \<noteq> ''tcp'' \<and> in_Network inp \<noteq> ''raw'') \<or>
                 (in_Security inp \<noteq> ''tls'' \<and> in_Security inp \<noteq> ''reality'')
           then Inl (ErrNew ''xtls-rprx-vision requires RAW/TCP with TLS or REALITY in the built-in editor'')
         else Inr ())
      else Inr ())"

definition check_vmess :: "Input \<Rightarrow> unit res" where
  "check_vmess inp =
     (if in_Protocol inp = ''vmess'' \<and> in_ClientSecurity inp \<noteq> [] then
        guardR (to_lower (in_ClientSecurity inp)
                  \<in> {''auto'', ''aes-128-gcm'', ''chacha20-poly1305'', ''none'', ''zero''})
          (Errorf ''VMess client security %q is not supported'' [in_ClientSecurity inp] [])
      else Inr ())"

definition validateEditableInput :: "Input \<Rightarrow> unit res" where
  "validateEditableInput inp =
     bindR (run_checks (field_checks inp)) (\<lambda>_.
     bindR (guardR (in_Name inp \<noteq> []) (ErrNew ''name is required'')) (\<lambda>_.
     bindR (guardR (\<not> in_QuotaBytes inp < 0) (ErrNew ''quotaBytes must not be negative'')) (\<lambda>_.
     bindR (guardR (\<not> in_ExpiryTime inp < 0) (ErrNew ''expiryTime must not be negative'')) (\<lambda>_.
     bindR (guardR (in_Protocol inp \<in> set editor_protocols)
              (Errorf ''protocol %q is not supported by the built-in editor'' [in_Protocol inp] []))
       (\<lambda>_.
     bindR (check_transport inp) (\<lambda>_.
     bindR (check_reality inp) (\<lambda>_.
     bindR (check_flow inp) (\<lambda>_.
     check_vmess inp))))))))"

section \<open>Facts\<close>

lemma normalize_idem [simp]:
  "normalizeEditableInput (normalizeEditableInput inp) = normalizeEditableInput inp"
  by (simp add: normalizeEditableInput_def)

lemma protocolDefaults_frame [simp]:
  "in_Name (protocolDefaults ent inp) = in_Name inp"
  "in_Enabled (protocolDefaults ent inp) = in_Enabled inp"
  "in_Port (protocolDefaults ent inp) = in_Port inp"
  "in_Protocol (protocolDefaults ent inp) = in_Protocol inp"
  "in_QuotaBytes (protocolDefaults ent inp) = in_QuotaBytes inp"
  "in_ExpiryTime (protocolDefaults ent inp) = in_ExpiryTime inp"
  "in_MonthlyReset (protocolDefaults ent inp) = in_MonthlyReset inp"
  by (simp_all add: protocolDefaults_def Let_def split: if_split)

lemma realityDefaults_frame [simp]:
  "in_Name (realityDefaults ent inp) = in_Name inp"
  "in_Enabled (realityDefaults ent inp) = in_Enabled inp"
  "in_Port (realityDefaults ent inp) = in_Port inp"
  "in_Protocol (realityDefaults ent inp) = in_Protocol inp"
  "in_QuotaBytes (realityDefaults ent inp) = in_QuotaBytes inp"
  "in_ExpiryTime (realityDefaults ent inp) = in_ExpiryTime inp"
  "in_MonthlyReset (realityDefaults ent inp) = in_MonthlyReset inp"
  by (simp_all add: realityDefaults_def Let_def split: if_split option.split prod.split)

lemma applyDefaults_frame [simp]:
  "in_Name (applyDefaults ent inp) = in_Name inp"
  "in_Enabled (applyDefaults ent inp) = in_Enabled inp"
  "in_Port (applyDefaults ent inp) = in_Port inp"
  "in_Protocol (applyDefaults ent inp) = in_Protocol inp"
  "in_QuotaBytes (applyDefaults ent inp) = in_QuotaBytes inp"
  "in_ExpiryTime (applyDefaults ent inp) = in_ExpiryTime inp"
  "in_MonthlyReset (applyDefaults ent inp) = in_MonthlyReset inp"
  by (simp_all add: applyDefaults_def)

lemma default_if_empty_idem [simp]:
  "default_if_empty (default_if_empty v d) d = default_if_empty v d"
  by (simp add: default_if_empty_def)

lemma mergeMissing_idem: "mergeMissing old (mergeMissing old inp) = mergeMissing old inp"
  by (simp add: mergeMissing_def)

lemma run_checks_ok:
  "run_checks cs = Inr u \<longleftrightarrow>
   (\<forall>(n, v, mx) \<in> set cs. length v \<le> mx \<and> \<not> contains_any v control_chars)"
  by (induction cs rule: run_checks.induct) auto

end
