(* ===== verification/AccountJson.thy ===== *)
theory AccountJson
  imports AccountInput
begin

text \<open>
  The two JSON documents of an account (\<open>internal/accountcfg/account.go\<close>): building them for a
  new account, updating them in place so that every member the editor does not know survives,
  rotating the credential of a clone, and reading them back into the editor's view.
\<close>

section \<open>Transport settings\<close>

definition set_if :: "string \<Rightarrow> string \<Rightarrow> object \<Rightarrow> object" where
  "set_if key val m = (if val \<noteq> [] then fmupd key (JStr val) m else m)"

definition applyTransport :: "object \<Rightarrow> Input \<Rightarrow> object" where
  "applyTransport stream inp =
     (if in_Network inp = ''ws'' then
        (let v = set_if ''path'' (in_Path inp) (object stream ''wsSettings'');
             v = (if in_Host inp \<noteq> []
                  then fmupd ''headers''
                         (JObj (fmupd ''Host'' (JStr (in_Host inp)) (object v ''headers''))) v
                  else v)
         in fmupd ''wsSettings'' (JObj v) stream)
      else if in_Network inp = ''grpc'' then
        fmupd ''grpcSettings''
          (JObj (set_if ''serviceName'' (in_ServiceName inp) (object stream ''grpcSettings''))) stream
      else if in_Network inp = ''httpupgrade'' then
        fmupd ''httpupgradeSettings''
          (JObj (set_if ''host'' (in_Host inp)
                   (set_if ''path'' (in_Path inp) (object stream ''httpupgradeSettings'')))) stream
      else if in_Network inp = ''xhttp'' then
        fmupd ''xhttpSettings''
          (JObj (set_if ''host'' (in_Host inp)
                   (set_if ''path'' (in_Path inp) (object stream ''xhttpSettings'')))) stream
      else stream)"

definition realitySettings :: "Input \<Rightarrow> object \<Rightarrow> object" where
  "realitySettings inp r =
     fmupd ''shortIds'' (JArr [JStr (in_ShortID inp)])
       (fmupd ''privateKey'' (JStr (in_PrivateKey inp))
         (fmupd ''serverNames'' (JArr [JStr (in_ServerName inp)])
           (fmdrop ''dest''
             (fmupd ''target'' (JStr (in_Dest inp)) r))))"

definition existing_stream :: "jtext option \<Rightarrow> gomap" where
  "existing_stream existing =
     (case existing of
        None \<Rightarrow> GoMap fmempty
      | Some t \<Rightarrow> (case unmarshal_map t of Inl e \<Rightarrow> GoMap fmempty | Inr g \<Rightarrow> g))"

definition setSecurity :: "Input \<Rightarrow> object \<Rightarrow> object res" where
  "setSecurity inp stream =
     (if in_Security inp = ''reality'' then
        bindR (guardR (reality_protocol (in_Protocol inp))
                 (ErrNew ''REALITY is supported by the editor for VLESS and Trojan'')) (\<lambda>_.
        bindR (guardR (\<not> (trim_space (in_ServerName inp) = [] \<or> trim_space (in_PrivateKey inp) = []))
                 (ErrNew ''REALITY requires serverName and privateKey'')) (\<lambda>_.
        Inr (fmupd ''realitySettings''
               (JObj (realitySettings inp (object stream ''realitySettings''))) stream)))
      else Inr (fmdrop ''realitySettings'' stream))"

definition setTLS :: "Input \<Rightarrow> object \<Rightarrow> object" where
  "setTLS inp stream =
     (if in_Security inp = ''tls'' \<and> in_ServerName inp \<noteq> [] then
        fmupd ''tlsSettings''
          (JObj (fmupd ''serverName'' (JStr (in_ServerName inp)) (object stream ''tlsSettings''))) stream
      else stream)"

definition buildStream :: "Input \<Rightarrow> jtext option \<Rightarrow> jtext res" where
  "buildStream inp existing =
     (if plain_proxy (in_Protocol inp) then
        (case existing of
           None \<Rightarrow> Inr (marshal fmempty)
         | Some t \<Rightarrow> if json_valid t then Inr t else Inr (marshal fmempty))
      else
        bindR (writable (existing_stream existing)) (\<lambda>stream.
        bindR (setSecurity inp
                (fmupd ''security'' (JStr (defaultString (in_Security inp) ''none''))
                  (fmupd ''network'' (JStr (defaultString (in_Network inp) ''tcp'')) stream)))
          (\<lambda>stream. Inr (marshal (applyTransport (setTLS inp stream) inp)))))"

section \<open>Building and updating the protocol settings\<close>

definition one_client :: "(string \<times> json) list \<Rightarrow> json" where
  "one_client xs = JArr [JObj (obj xs)]"

definition protocolSettings :: "Input \<Rightarrow> object res" where
  "protocolSettings inp =
     (let email = JStr (accountEmail (in_Name inp) (in_Port inp)); p = in_Protocol inp in
      if p = ''vless'' then
        (if in_Credential inp = [] then Inl (ErrNew ''VLESS UUID is required'')
         else Inr (obj [(''clients'', one_client [(''id'', JStr (in_Credential inp)), (''email'', email),
                                                 (''flow'', JStr (in_Flow inp))]),
                        (''decryption'', JStr ''none'')]))
      else if p = ''vmess'' then
        (if in_Credential inp = [] then Inl (ErrNew ''VMess UUID is required'')
         else Inr (obj [(''clients'', one_client [(''id'', JStr (in_Credential inp)), (''email'', email),
                          (''security'', JStr (defaultString (in_ClientSecurity inp) ''auto''))])]))
      else if p = ''trojan'' then
        (if in_Password inp = [] then Inl (ErrNew ''Trojan password is required'')
         else Inr (obj [(''clients'', one_client [(''password'', JStr (in_Password inp)),
                                                 (''email'', email)])]))
      else if p = ''shadowsocks'' then
        (if in_Method inp = [] \<or> in_ServerPassword inp = []
           then Inl (ErrNew ''Shadowsocks method and server password are required'')
         else Inr (obj [(''method'', JStr (in_Method inp)), (''password'', JStr (in_ServerPassword inp)),
                        (''network'', JStr ''tcp,udp''),
                        (''clients'', one_client [(''password'', JStr (in_Password inp)),
                                                 (''email'', email)])]))
      else if p = ''socks'' then
        Inr (obj [(''auth'', JStr ''password''),
                  (''accounts'', one_client [(''user'', JStr (in_Username inp)),
                                             (''pass'', JStr (in_Password inp))]),
                  (''udp'', JBool True), (''ip'', JStr ''127.0.0.1'')])
      else if p = ''http'' then
        Inr (obj [(''accounts'', one_client [(''user'', JStr (in_Username inp)),
                                             (''pass'', JStr (in_Password inp))]),
                  (''allowTransparent'', JBool False)])
      else Inl (Errorf ''new %s accounts are not supported by the built-in editor'' [p] []))"

definition buildProtocol :: "Input \<Rightarrow> (jtext \<times> jtext) res" where
  "buildProtocol inp =
     bindR (protocolSettings inp) (\<lambda>settings.
     bindR (buildStream inp None) (\<lambda>stream. Inr (marshal settings, stream)))"

definition updateSettings :: "string \<Rightarrow> Input \<Rightarrow> gomap \<Rightarrow> object res" where
  "updateSettings p inp g =
     (let settings = entries_of g; email = JStr (accountEmail (in_Name inp) (in_Port inp)) in
      if p = ''vless'' then
        bindR (oneObject settings ''clients'') (\<lambda>c.
          let c = setOrDelete ''flow'' (in_Flow inp)
                    (fmupd ''email'' email (fmupd ''id'' (JStr (in_Credential inp)) c));
              settings = (if fmlookup settings ''decryption'' = None
                          then fmupd ''decryption'' (JStr ''none'') settings else settings)
          in Inr (fmupd ''clients'' (JArr [JObj c]) settings))
      else if p = ''vmess'' then
        bindR (oneObject settings ''clients'') (\<lambda>c.
          let c = setOrDelete ''security'' (in_ClientSecurity inp)
                    (fmupd ''email'' email (fmupd ''id'' (JStr (in_Credential inp)) c))
          in Inr (fmupd ''clients'' (JArr [JObj c]) settings))
      else if p = ''trojan'' then
        bindR (oneObject settings ''clients'') (\<lambda>c.
          let c = fmupd ''email'' email (fmupd ''password'' (JStr (in_Password inp)) c)
          in Inr (fmupd ''clients'' (JArr [JObj c]) settings))
      else if p = ''shadowsocks'' then
        bindR (writable g) (\<lambda>settings.
          let settings = fmupd ''password'' (JStr (in_ServerPassword inp))
                           (fmupd ''method'' (JStr (in_Method inp)) settings)
          in bindR (oneObjectOptional settings ''clients'') (\<lambda>co. case co of
               None \<Rightarrow> Inr settings
             | Some c \<Rightarrow>
                 Inr (fmupd ''clients''
                        (JArr [JObj (fmupd ''email'' email
                                       (fmupd ''password'' (JStr (in_Password inp)) c))]) settings)))
      else if plain_proxy p then
        bindR (oneObject settings ''accounts'') (\<lambda>c.
          Inr (fmupd ''accounts''
                 (JArr [JObj (fmupd ''pass'' (JStr (in_Password inp))
                                (fmupd ''user'' (JStr (in_Username inp)) c))]) settings))
      else Inl (Errorf ''editing %s is not supported by the built-in editor'' [p] []))"

definition updateProtocolJSON :: "Account \<Rightarrow> Input \<Rightarrow> (jtext \<times> jtext) res" where
  "updateProtocolJSON a inp =
     bindR (unmarshal_map (defaultJSON (a_SettingsJSON a))) (\<lambda>g.
     bindR (updateSettings (to_lower (a_Protocol a)) inp g) (\<lambda>settings.
     bindR (buildStream inp (Some (defaultJSON (a_StreamSettingsJSON a)))) (\<lambda>stream.
     Inr (marshal settings, stream))))"

definition rotateSettings :: "entropy \<Rightarrow> string \<Rightarrow> string \<Rightarrow> int \<Rightarrow> gomap \<Rightarrow> object res" where
  "rotateSettings ent p name port g =
     (let settings = entries_of g; email = JStr (accountEmail name port) in
      if p = ''vless'' \<or> p = ''vmess'' then
        bindR (oneObject settings ''clients'') (\<lambda>c.
          Inr (fmupd ''clients''
                 (JArr [JObj (fmupd ''email'' email (fmupd ''id'' (JStr (newUUID ent)) c))]) settings))
      else if p = ''trojan'' then
        bindR (oneObject settings ''clients'') (\<lambda>c.
          Inr (fmupd ''clients''
                 (JArr [JObj (fmupd ''email'' email
                                (fmupd ''password'' (JStr (randomSecret ent 18)) c))]) settings))
      else if p = ''shadowsocks'' then
        bindR (oneObjectOptional settings ''clients'') (\<lambda>co. case co of
            Some c \<Rightarrow>
              Inr (fmupd ''clients''
                     (JArr [JObj (fmupd ''email'' email
                                    (fmupd ''password'' (JStr (randomSecret ent 20)) c))]) settings)
          | None \<Rightarrow>
              bindR (writable g) (\<lambda>settings.
                Inr (fmupd ''password'' (JStr (randomSecret ent 24)) settings)))
      else if plain_proxy p then
        bindR (oneObject settings ''accounts'') (\<lambda>c.
          Inr (fmupd ''accounts''
                 (JArr [JObj (fmupd ''pass'' (JStr (randomSecret ent 18))
                                (fmupd ''user'' (JStr (shortSlug name)) c))]) settings))
      else Inl (Errorf ''clone credential rotation for %s is not supported'' [p] []))"

definition rotateCredential :: "entropy \<Rightarrow> Account \<Rightarrow> string \<Rightarrow> int \<Rightarrow> Account res" where
  "rotateCredential ent a name port =
     bindR (unmarshal_map (defaultJSON (a_SettingsJSON a))) (\<lambda>g.
     bindR (rotateSettings ent (to_lower (a_Protocol a)) name port g) (\<lambda>settings.
     Inr (a\<lparr>a_SettingsJSON := marshal settings\<rparr>)))"

section \<open>Reading the documents back\<close>

definition extractProtocolView :: "View \<Rightarrow> object \<Rightarrow> View \<times> bool" where
  "extractProtocolView v settings =
     (let p = v_Protocol v in
      if p = ''vless'' \<or> p = ''vmess'' \<or> p = ''trojan'' then
        (let decryption = trim_space (stringValue (mget settings ''decryption'')) in
         if p = ''vless'' \<and> decryption \<noteq> [] \<and> decryption \<noteq> ''none'' then (v, False)
         else case oneObject settings ''clients'' of
           Inl e \<Rightarrow> (v, False)
         | Inr c \<Rightarrow>
             (if p = ''vless'' then
                v\<lparr>v_Credential := stringValue (mget c ''id''), v_Flow := stringValue (mget c ''flow'')\<rparr>
              else if p = ''vmess'' then
                v\<lparr>v_Credential := stringValue (mget c ''id''),
                  v_ClientSecurity := defaultString (stringValue (mget c ''security'')) ''auto''\<rparr>
              else v\<lparr>v_Password := stringValue (mget c ''password'')\<rparr>, True))
      else if p = ''shadowsocks'' then
        (let v1 = v\<lparr>v_Method := stringValue (mget settings ''method''),
                    v_ServerPassword := stringValue (mget settings ''password'')\<rparr> in
         case oneObjectOptional settings ''clients'' of
           Inl e \<Rightarrow> (v1, False)
         | Inr co \<Rightarrow>
             (let v2 = (case co of None \<Rightarrow> v1
                        | Some c \<Rightarrow> v1\<lparr>v_Password := stringValue (mget c ''password'')\<rparr>) in
              (v2, v_Method v2 \<noteq> [] \<and> (v_ServerPassword v2 \<noteq> [] \<or> v_Password v2 \<noteq> []))))
      else if plain_proxy p then
        (case oneObject settings ''accounts'' of
           Inl e \<Rightarrow> (v, False)
         | Inr c \<Rightarrow> (v\<lparr>v_Username := stringValue (mget c ''user''),
                       v_Password := stringValue (mget c ''pass'')\<rparr>, True))
      else (v, False))"

definition securityView :: "object \<Rightarrow> View \<Rightarrow> View" where
  "securityView stream v =
     (if v_Security v = ''reality'' then
        (let r = object stream ''realitySettings'' in
         v\<lparr>v_PrivateKey := stringValue (mget r ''privateKey''),
           v_Dest := firstString [mget r ''target'', mget r ''dest''],
           v_ServerName := firstArrayString (mget r ''serverNames''),
           v_ShortID := firstArrayString (mget r ''shortIds'')\<rparr>)
      else if v_Security v = ''tls'' then
        v\<lparr>v_ServerName := stringValue (mget (object stream ''tlsSettings'') ''serverName'')\<rparr>
      else v)"

definition transportView :: "object \<Rightarrow> View \<Rightarrow> View" where
  "transportView stream v =
     (if v_Network v = ''ws'' then
        (let x = object stream ''wsSettings''; h = object x ''headers'' in
         v\<lparr>v_Path := stringValue (mget x ''path''),
           v_Host := firstString [mget x ''host'', mget h ''Host'', mget h ''host'']\<rparr>)
      else if v_Network v = ''grpc'' then
        v\<lparr>v_ServiceName := stringValue (mget (object stream ''grpcSettings'') ''serviceName'')\<rparr>
      else if v_Network v = ''httpupgrade'' then
        (let x = object stream ''httpupgradeSettings'' in
         v\<lparr>v_Path := stringValue (mget x ''path''), v_Host := stringValue (mget x ''host'')\<rparr>)
      else if v_Network v = ''xhttp'' then
        (let x = object stream ''xhttpSettings'' in
         v\<lparr>v_Path := stringValue (mget x ''path''), v_Host := stringValue (mget x ''host'')\<rparr>)
      else v)"

definition extractStreamView :: "View \<Rightarrow> jtext \<Rightarrow> View" where
  "extractStreamView v raw =
     (case unmarshal_map (defaultJSON raw) of
        Inl e \<Rightarrow> v
      | Inr g \<Rightarrow>
          (let stream = entries_of g;
               net = stringValue (mget stream ''network'');
               sec = stringValue (mget stream ''security'');
               net = (if net = [] \<and> \<not> plain_proxy (v_Protocol v) then ''tcp'' else net);
               sec = (if sec = [] then ''none'' else sec)
           in transportView stream (securityView stream (v\<lparr>v_Network := net, v_Security := sec\<rparr>))))"

definition headView :: "Account \<Rightarrow> View" where
  "headView a =
     zero_View\<lparr>v_ID := a_ID a, v_Name := a_Name a, v_Enabled := a_Enabled a,
                v_DisabledReason := a_DisabledReason a, v_Port := a_Port a,
                v_Protocol := to_lower (a_Protocol a), v_QuotaBytes := a_QuotaBytes a,
                v_ExpiryTime := a_ExpiryTime a, v_MonthlyReset := a_MonthlyReset a,
                v_UpBytes := a_UpBytes a, v_DownBytes := a_DownBytes a,
                v_AllTime := a_AllTimeBytes a, v_Tag := a_Tag a\<rparr>"

text \<open>\<open>ToView\<close> returns the view it has built so far even when it fails.\<close>

definition ToView :: "Account \<Rightarrow> View \<times> err option" where
  "ToView a =
     (let v = headView a in
      case unmarshal_map (defaultJSON (a_SettingsJSON a)) of
        Inl e \<Rightarrow> (v, Some e)
      | Inr g \<Rightarrow>
          (let (v1, ed) = extractProtocolView v (entries_of g)
           in (extractStreamView (v1\<lparr>v_Editable := ed\<rparr>) (a_StreamSettingsJSON a), None)))"

definition PublicView :: "Account \<Rightarrow> View" where
  "PublicView a =
     (fst (ToView a))\<lparr>v_Credential := [], v_Username := [], v_Password := [],
                      v_ServerPassword := [], v_PrivateKey := []\<rparr>"

end
