(* ===== verification/AccountOps.thy ===== *)
theory AccountOps
  imports AccountJson
begin

text \<open>
  Creating, updating and cloning an account, and choosing a port
  (\<open>internal/accountcfg/account.go\<close>, \<open>ports.go\<close>): the operations, what each keeps of the account
  it starts from, and the round trip from an editor input through the stored JSON to the view.
\<close>

section \<open>Operations\<close>

definition default_sniffing :: jtext where
  "default_sniffing =
     marshal (obj [(''enabled'', JBool True),
                   (''destOverride'', JArr [JStr ''http'', JStr ''tls'', JStr ''quic''])])"

text \<open>The input \<open>New\<close> works on after its defaulting steps.\<close>

definition newInput :: "entropy \<Rightarrow> Input \<Rightarrow> int \<Rightarrow> Input res" where
  "newInput ent inp0 fallbackPort =
     (let i1 = normalizeEditableInput inp0;
          i1 = i1\<lparr>in_Name := trim_space (in_Name i1)\<rparr> in
      bindR (guardR (in_Name i1 \<noteq> []) (ErrNew ''name is required'')) (\<lambda>_.
      (let i2 = (if in_Port i1 = 0 then i1\<lparr>in_Port := fallbackPort\<rparr> else i1) in
       bindR (validPort (in_Port i2)) (\<lambda>_.
       (let i3 = i2\<lparr>in_Protocol := to_lower (trim_space (in_Protocol i2))\<rparr>;
            i4 = (if in_Protocol i3 = [] then i3\<lparr>in_Protocol := ''vless''\<rparr> else i3)
        in Inr (applyDefaults ent i4))))))"

definition newAccount :: "int \<Rightarrow> Input \<Rightarrow> jtext \<times> jtext \<Rightarrow> Account" where
  "newAccount now inp docs =
     (let a = \<lparr>a_ID = 0, a_Name = in_Name inp, a_Enabled = in_Enabled inp, a_DisabledReason = [],
               a_Listen = [], a_Port = in_Port inp, a_Protocol = in_Protocol inp,
               a_SettingsJSON = fst docs, a_StreamSettingsJSON = snd docs,
               a_SniffingJSON = default_sniffing,
               a_Tag = accountTag (in_Port inp) (in_Name inp),
               a_UpBytes = 0, a_DownBytes = 0, a_QuotaBytes = in_QuotaBytes inp,
               a_AllTimeBytes = 0, a_ExpiryTime = in_ExpiryTime inp,
               a_MonthlyReset = in_MonthlyReset inp, a_LastMonthlyReset = [],
               a_CreatedAt = now, a_UpdatedAt = now\<rparr>
      in if \<not> a_Enabled a then a\<lparr>a_DisabledReason := ''manual''\<rparr> else a)"

definition New :: "entropy \<Rightarrow> int \<Rightarrow> Input \<Rightarrow> int \<Rightarrow> Account res" where
  "New ent now inp0 fallbackPort =
     bindR (newInput ent inp0 fallbackPort) (\<lambda>inp.
     bindR (validateEditableInput inp) (\<lambda>_.
     bindR (buildProtocol inp) (\<lambda>docs. Inr (newAccount now inp docs))))"

text \<open>The input \<open>Update\<close> works on: what the request leaves empty is taken from the account.\<close>

definition updateInput :: "Account \<Rightarrow> Input \<Rightarrow> Input res" where
  "updateInput a inp0 =
     (let i1 = normalizeEditableInput inp0;
          i1 = i1\<lparr>in_Name := trim_space (in_Name i1)\<rparr> in
      bindR (guardR (in_Name i1 \<noteq> []) (ErrNew ''name is required'')) (\<lambda>_.
      (let i2 = (if in_Port i1 = 0 then i1\<lparr>in_Port := a_Port a\<rparr> else i1) in
       bindR (validPort (in_Port i2)) (\<lambda>_.
       (let i3 = (if in_Protocol i2 = [] then i2\<lparr>in_Protocol := a_Protocol a\<rparr> else i2) in
        bindR (guardR (equal_fold (in_Protocol i3) (a_Protocol a))
                 (ErrNew ''changing an existing account protocol is not supported; clone/create a new account instead''))
          (\<lambda>_. Inr (normalizeEditableInput (mergeMissing (fst (ToView a)) i3))))))))"

definition updatedAccount :: "int \<Rightarrow> Account \<Rightarrow> Input \<Rightarrow> jtext \<times> jtext \<Rightarrow> Account" where
  "updatedAccount now a inp docs =
     (let a1 = a\<lparr>a_Name := in_Name inp, a_Enabled := in_Enabled inp, a_Port := in_Port inp,
                 a_QuotaBytes := in_QuotaBytes inp, a_ExpiryTime := in_ExpiryTime inp,
                 a_MonthlyReset := in_MonthlyReset inp,
                 a_SettingsJSON := fst docs, a_StreamSettingsJSON := snd docs,
                 a_UpdatedAt := now\<rparr>;
          a2 = (if a_Enabled a1 then a1\<lparr>a_DisabledReason := []\<rparr>
                else if a_DisabledReason a1 \<in> {[], ''quota'', ''expiry''}
                then a1\<lparr>a_DisabledReason := ''manual''\<rparr> else a1)
      in if a_Tag a2 = [] \<or> in_Port inp \<noteq> a_Port a
         then a2\<lparr>a_Tag := accountTag (in_Port inp) (in_Name inp)\<rparr> else a2)"

definition Update :: "int \<Rightarrow> Account \<Rightarrow> Input \<Rightarrow> Account res" where
  "Update now a inp0 =
     bindR (updateInput a inp0) (\<lambda>inp.
     bindR (validateEditableInput inp) (\<lambda>_.
     bindR (updateProtocolJSON a inp) (\<lambda>docs. Inr (updatedAccount now a inp docs))))"

definition Clone :: "entropy \<Rightarrow> int \<Rightarrow> int \<Rightarrow> Account \<Rightarrow> string \<Rightarrow> int \<Rightarrow> Account res" where
  "Clone ent now1 now2 a name0 port =
     bindR (validPort port) (\<lambda>_.
     (let name1 = trim_space name0;
          name = (if name1 = [] then a_Name a @ '' copy'' else name1) in
      bindR (guardR (\<not> length name > 80) (ErrNew ''name is too long'')) (\<lambda>_.
      (let c = a\<lparr>a_ID := 0, a_Name := name, a_Port := port,
                 a_UpBytes := 0, a_DownBytes := 0, a_AllTimeBytes := 0,
                 a_LastMonthlyReset := [], a_Tag := accountTag port name,
                 a_CreatedAt := now1, a_UpdatedAt := now2\<rparr>;
           c = (if a_DisabledReason c = ''quota'' then c\<lparr>a_Enabled := True\<rparr> else c);
           c = c\<lparr>a_DisabledReason := []\<rparr>
       in rotateCredential ent c name port))))"

definition NextPort :: "Account list \<Rightarrow> int" where
  "NextPort accounts =
     (case List.find (\<lambda>p. p \<notin> set (map a_Port accounts)) [PortMin..PortMax] of
        None \<Rightarrow> 0 | Some p \<Rightarrow> p)"

section \<open>Validated inputs\<close>

text \<open>What a validated input satisfies, as one conjunction.\<close>

definition valid_input :: "Input \<Rightarrow> bool" where
  "valid_input inp \<longleftrightarrow>
     (\<forall>(n, v, mx) \<in> set (field_checks inp). length v \<le> mx \<and> \<not> contains_any v control_chars) \<and>
     in_Name inp \<noteq> [] \<and> 0 \<le> in_QuotaBytes inp \<and> 0 \<le> in_ExpiryTime inp \<and>
     in_Protocol inp \<in> set editor_protocols \<and>
     (\<not> plain_proxy (in_Protocol inp) \<longrightarrow>
        in_Network inp \<in> set editor_networks \<and> in_Security inp \<in> {''none'', ''tls'', ''reality''} \<and>
        (in_Security inp = ''reality'' \<longrightarrow> reality_protocol (in_Protocol inp))) \<and>
     (in_Security inp = ''reality'' \<longrightarrow> in_Network inp \<in> {''tcp'', ''raw'', ''xhttp'', ''grpc''}) \<and>
     (in_Protocol inp = ''vless'' \<and> in_Flow inp \<noteq> [] \<longrightarrow>
        in_Flow inp = ''xtls-rprx-vision'' \<and> in_Network inp \<in> {''tcp'', ''raw''} \<and>
        in_Security inp \<in> {''tls'', ''reality''}) \<and>
     (in_Protocol inp = ''vmess'' \<and> in_ClientSecurity inp \<noteq> [] \<longrightarrow>
        to_lower (in_ClientSecurity inp)
          \<in> {''auto'', ''aes-128-gcm'', ''chacha20-poly1305'', ''none'', ''zero''})"

lemma check_transport_ok:
  "check_transport inp = Inr u \<longleftrightarrow>
   (\<not> plain_proxy (in_Protocol inp) \<longrightarrow>
      in_Network inp \<in> set editor_networks \<and> in_Security inp \<in> {''none'', ''tls'', ''reality''} \<and>
      (in_Security inp = ''reality'' \<longrightarrow> reality_protocol (in_Protocol inp)))"
  by (simp add: check_transport_def)

lemma check_reality_ok:
  "check_reality inp = Inr u \<longleftrightarrow>
   (in_Security inp = ''reality'' \<longrightarrow> in_Network inp \<in> {''tcp'', ''raw'', ''xhttp'', ''grpc''})"
  by (simp add: check_reality_def)

lemma check_flow_ok:
  "check_flow inp = Inr u \<longleftrightarrow>
   (in_Protocol inp = ''vless'' \<and> in_Flow inp \<noteq> [] \<longrightarrow>
      in_Flow inp = ''xtls-rprx-vision'' \<and> in_Network inp \<in> {''tcp'', ''raw''} \<and>
      in_Security inp \<in> {''tls'', ''reality''})"
  by (auto simp: check_flow_def)

lemma check_vmess_ok:
  "check_vmess inp = Inr u \<longleftrightarrow>
   (in_Protocol inp = ''vmess'' \<and> in_ClientSecurity inp \<noteq> [] \<longrightarrow>
      to_lower (in_ClientSecurity inp)
        \<in> {''auto'', ''aes-128-gcm'', ''chacha20-poly1305'', ''none'', ''zero''})"
  by (simp add: check_vmess_def)

lemma validate_iff: "validateEditableInput inp = Inr u \<longleftrightarrow> valid_input inp"
  unfolding validateEditableInput_def valid_input_def
  by (simp only: bindR_eq_Inr guardR_eq_Inr run_checks_ok check_transport_ok check_reality_ok
      check_flow_ok check_vmess_ok not_less simp_thms ex_simps)


section \<open>Creation\<close>

lemma New_iff:
  "New ent now inp0 fp = Inr a \<longleftrightarrow>
     (\<exists>inp docs. newInput ent inp0 fp = Inr inp \<and> valid_input inp \<and>
                 buildProtocol inp = Inr docs \<and> a = newAccount now inp docs)"
  by (auto simp: New_def validate_iff)

lemma newInput_port: "newInput ent inp0 fp = Inr inp \<Longrightarrow> 1 \<le> in_Port inp \<and> in_Port inp \<le> 65535"
  by (auto simp: newInput_def Let_def validPort_def split: if_splits)

lemma newAccount_simps [simp]:
  "a_ID (newAccount now inp docs) = 0"
  "a_Name (newAccount now inp docs) = in_Name inp"
  "a_Enabled (newAccount now inp docs) = in_Enabled inp"
  "a_DisabledReason (newAccount now inp docs) = (if in_Enabled inp then [] else ''manual'')"
  "a_Port (newAccount now inp docs) = in_Port inp"
  "a_Protocol (newAccount now inp docs) = in_Protocol inp"
  "a_SettingsJSON (newAccount now inp docs) = fst docs"
  "a_StreamSettingsJSON (newAccount now inp docs) = snd docs"
  "a_SniffingJSON (newAccount now inp docs) = default_sniffing"
  "a_Tag (newAccount now inp docs) = accountTag (in_Port inp) (in_Name inp)"
  "a_UpBytes (newAccount now inp docs) = 0"
  "a_DownBytes (newAccount now inp docs) = 0"
  "a_AllTimeBytes (newAccount now inp docs) = 0"
  "a_QuotaBytes (newAccount now inp docs) = in_QuotaBytes inp"
  "a_ExpiryTime (newAccount now inp docs) = in_ExpiryTime inp"
  "a_MonthlyReset (newAccount now inp docs) = in_MonthlyReset inp"
  "a_LastMonthlyReset (newAccount now inp docs) = []"
  "a_CreatedAt (newAccount now inp docs) = now"
  "a_UpdatedAt (newAccount now inp docs) = now"
  by (simp_all add: newAccount_def Let_def)

text \<open>The documents of an account are JSON objects.\<close>

definition is_object :: "jtext \<Rightarrow> bool" where
  "is_object t \<longleftrightarrow> (case t of Doc (JObj m) \<Rightarrow> True | _ \<Rightarrow> False)"

lemma is_object_marshal [simp]: "is_object (marshal m)"
  by (simp add: is_object_def marshal_def)

lemma is_object_valid: "is_object t \<Longrightarrow> json_valid t"
  by (auto simp: is_object_def json_valid_def split: jtext.splits)

definition account_wf :: "Account \<Rightarrow> bool" where
  "account_wf a \<longleftrightarrow>
     1 \<le> a_Port a \<and> a_Port a \<le> 65535 \<and> a_Name a \<noteq> [] \<and> length (a_Name a) \<le> 80 \<and>
     a_Protocol a \<in> set editor_protocols \<and> a_Tag a \<noteq> [] \<and>
     0 \<le> a_QuotaBytes a \<and> 0 \<le> a_ExpiryTime a \<and>
     is_object (a_SettingsJSON a) \<and> is_object (a_StreamSettingsJSON a) \<and>
     is_object (a_SniffingJSON a) \<and> (a_Enabled a \<longrightarrow> a_DisabledReason a = [])"

lemma accountTag_not_Nil [simp]: "accountTag port name \<noteq> []"
  by (simp add: accountTag_def)

lemma buildProtocol_objects:
  "buildProtocol inp = Inr docs \<Longrightarrow> is_object (fst docs) \<and> is_object (snd docs)"
  by (auto simp: buildProtocol_def buildStream_def split: if_splits)

lemma New_wf:
  assumes "New ent now inp0 fp = Inr a"
  shows "account_wf a \<and> a_ID a = 0 \<and> a_UpBytes a = 0 \<and> a_DownBytes a = 0 \<and> a_AllTimeBytes a = 0"
proof -
  obtain inp docs where i: "newInput ent inp0 fp = Inr inp" "valid_input inp"
      "buildProtocol inp = Inr docs" "a = newAccount now inp docs"
    using assms by (auto simp: New_iff)
  then have "length (in_Name inp) \<le> 80"
    by (auto simp: valid_input_def field_checks_def)
  with i newInput_port [OF i(1)] buildProtocol_objects [OF i(3)] show ?thesis
    by (simp add: account_wf_def valid_input_def default_sniffing_def)
qed

section \<open>Reading back what was written\<close>

text \<open>The view shows the fields of an input that its protocol, security and transport use.\<close>

definition shows_credentials :: "Input \<Rightarrow> View \<Rightarrow> bool" where
  "shows_credentials inp v \<longleftrightarrow>
     (if in_Protocol inp = ''vless'' then
        v_Credential v = in_Credential inp \<and> v_Flow v = in_Flow inp
      else if in_Protocol inp = ''vmess'' then
        v_Credential v = in_Credential inp \<and>
        v_ClientSecurity v = defaultString (in_ClientSecurity inp) ''auto''
      else if in_Protocol inp = ''trojan'' then v_Password v = in_Password inp
      else if in_Protocol inp = ''shadowsocks'' then
        v_Method v = in_Method inp \<and> v_ServerPassword v = in_ServerPassword inp \<and>
        v_Password v = in_Password inp
      else v_Username v = in_Username inp \<and> v_Password v = in_Password inp)"

definition shows_security :: "Input \<Rightarrow> View \<Rightarrow> bool" where
  "shows_security inp v \<longleftrightarrow>
     v_Security v = in_Security inp \<and>
     (in_Security inp = ''reality'' \<longrightarrow>
        v_ServerName v = in_ServerName inp \<and> v_Dest v = in_Dest inp \<and>
        v_PrivateKey v = in_PrivateKey inp \<and> v_ShortID v = in_ShortID inp) \<and>
     (in_Security inp = ''tls'' \<longrightarrow> v_ServerName v = in_ServerName inp)"

definition shows_transport :: "Input \<Rightarrow> View \<Rightarrow> bool" where
  "shows_transport inp v \<longleftrightarrow>
     v_Network v = in_Network inp \<and>
     (in_Network inp \<in> {''ws'', ''httpupgrade'', ''xhttp''} \<longrightarrow>
        v_Path v = in_Path inp \<and> v_Host v = in_Host inp) \<and>
     (in_Network inp = ''grpc'' \<longrightarrow> v_ServiceName v = in_ServiceName inp)"

lemma keyword_trim:
  "trim_space ''tcp'' = ''tcp''" "trim_space ''raw'' = ''raw''" "trim_space ''ws'' = ''ws''"
  "trim_space ''websocket'' = ''websocket''" "trim_space ''grpc'' = ''grpc''"
  "trim_space ''httpupgrade'' = ''httpupgrade''" "trim_space ''xhttp'' = ''xhttp''"
  "trim_space ''none'' = ''none''" "trim_space ''tls'' = ''tls''"
  "trim_space ''reality'' = ''reality''" "trim_space ''auto'' = ''auto''"
  by (simp_all add: trim_space_graphic graphic_def)

lemma editor_network_default: "n \<in> set editor_networks \<Longrightarrow> defaultString n d = n"
  by (auto simp: editor_networks_def defaultString_def keyword_trim)

lemma editor_security_default: "s \<in> {''none'', ''tls'', ''reality''} \<Longrightarrow> defaultString s d = s"
  by (auto simp: defaultString_def keyword_trim)


lemma six_cases:
  "p \<in> set [a, b, c, d, e, f] \<Longrightarrow> (p = a \<Longrightarrow> P) \<Longrightarrow> (p = b \<Longrightarrow> P) \<Longrightarrow> (p = c \<Longrightarrow> P) \<Longrightarrow>
   (p = d \<Longrightarrow> P) \<Longrightarrow> (p = e \<Longrightarrow> P) \<Longrightarrow> (p = f \<Longrightarrow> P) \<Longrightarrow> P"
  by auto

lemma protocol_cases:
  assumes "p \<in> set editor_protocols"
  obtains "p = ''vless''" | "p = ''vmess''" | "p = ''trojan''" | "p = ''shadowsocks''"
    | "p = ''socks''" | "p = ''http''"
  by (rule six_cases [OF assms [unfolded editor_protocols_def]])

text \<open>The constants to unfold when the settings document of one protocol is evaluated.\<close>

lemmas settings_eval =
  protocolSettings_def extractProtocolView_def shows_credentials_def one_client_def
  oneObject_def oneObjectOptional_def plain_proxy_def Let_def

lemma credentials_roundtrip:
  assumes ok: "protocolSettings inp = Inr settings" and p: "in_Protocol inp \<in> set editor_protocols"
    and v: "v_Protocol v = in_Protocol inp"
  shows "shows_credentials inp (fst (extractProtocolView v settings)) \<and>
         snd (extractProtocolView v settings)"
  using p
proof (rule protocol_cases)
  assume "in_Protocol inp = ''vless''"
  with ok v show ?thesis by (clarsimp simp: settings_eval keyword_trim split: if_split_asm)
next
  assume "in_Protocol inp = ''vmess''"
  with ok v show ?thesis by (clarsimp simp: settings_eval keyword_trim split: if_split_asm) (simp add: defaultString_def keyword_trim)
next
  assume "in_Protocol inp = ''trojan''"
  with ok v show ?thesis by (clarsimp simp: settings_eval split: if_split_asm)
next
  assume "in_Protocol inp = ''shadowsocks''"
  with ok v show ?thesis by (clarsimp simp: settings_eval split: if_split_asm)
next
  assume "in_Protocol inp = ''socks''"
  with ok v show ?thesis by (clarsimp simp: settings_eval split: if_split_asm)
next
  assume "in_Protocol inp = ''http''"
  with ok v show ?thesis by (clarsimp simp: settings_eval split: if_split_asm)
qed

lemma stream_transport:
  assumes st: "object st ''wsSettings'' = fmempty" "object st ''grpcSettings'' = fmempty"
      "object st ''httpupgradeSettings'' = fmempty" "object st ''xhttpSettings'' = fmempty"
    and v: "v_Network v = in_Network inp" "v_Path v = []" "v_Host v = []"
  shows "shows_transport inp (transportView (applyTransport st inp) v)"
  using st v
  by (simp add: applyTransport_def transportView_def shows_transport_def set_if_def Let_def)


lemma applyTransport_keeps:
  assumes "k \<notin> {''wsSettings'', ''grpcSettings'', ''httpupgradeSettings'', ''xhttpSettings''}"
  shows "mget (applyTransport st inp) k = mget st k"
  using assms by (auto simp: applyTransport_def Let_def)

lemma applyTransport_security [simp]:
  "object (applyTransport st inp) ''realitySettings'' = object st ''realitySettings''"
  "object (applyTransport st inp) ''tlsSettings'' = object st ''tlsSettings''"
  "mget (applyTransport st inp) ''network'' = mget st ''network''"
  "mget (applyTransport st inp) ''security'' = mget st ''security''"
  by (simp_all add: object_def applyTransport_keeps)

lemma transportView_frame [simp]:
  "v_Security (transportView st v) = v_Security v"
  "v_ServerName (transportView st v) = v_ServerName v"
  "v_Dest (transportView st v) = v_Dest v"
  "v_PrivateKey (transportView st v) = v_PrivateKey v"
  "v_ShortID (transportView st v) = v_ShortID v"
  "v_Network (transportView st v) = v_Network v"
  by (simp_all add: transportView_def Let_def)

lemma securityView_frame [simp]:
  "v_Network (securityView st v) = v_Network v"
  "v_Path (securityView st v) = v_Path v"
  "v_Host (securityView st v) = v_Host v"
  "v_Security (securityView st v) = v_Security v"
  by (simp_all add: securityView_def Let_def)

lemma shows_security_transport [simp]:
  "shows_security inp (transportView st v) = shows_security inp v"
  by (simp add: shows_security_def)

lemma stream_security:
  assumes sec: "setSecurity inp st0 = Inr st" and v: "v_Security v = in_Security inp"
    and tls: "object st0 ''tlsSettings'' = fmempty"
  shows "shows_security inp (securityView (applyTransport (setTLS inp st) inp) v)"
  using assms
  by (auto simp: setSecurity_def setTLS_def securityView_def shows_security_def realitySettings_def
      Let_def split: if_split_asm)

lemma setSecurity_other:
  assumes "setSecurity inp st0 = Inr st" and "k \<noteq> ''realitySettings''"
  shows "mget st k = mget st0 k"
  using assms by (auto simp: setSecurity_def split: if_split_asm)

lemma setTLS_other: "k \<noteq> ''tlsSettings'' \<Longrightarrow> mget (setTLS inp st) k = mget st k"
  by (auto simp: setTLS_def)

lemma shows_credentials_frame [simp]:
  "shows_credentials inp (transportView st v) = shows_credentials inp v"
  "shows_credentials inp (securityView st v) = shows_credentials inp v"
  "shows_credentials inp (v\<lparr>v_Network := n\<rparr>) = shows_credentials inp v"
  "shows_credentials inp (v\<lparr>v_Security := n\<rparr>) = shows_credentials inp v"
  "shows_credentials inp (v\<lparr>v_Editable := b\<rparr>) = shows_credentials inp v"
  by (simp_all add: shows_credentials_def transportView_def securityView_def Let_def)

lemma buildStream_new:
  assumes ok: "buildStream inp None = Inr doc" and np: "\<not> plain_proxy (in_Protocol inp)"
    and net: "in_Network inp \<in> set editor_networks"
    and sec: "in_Security inp \<in> {''none'', ''tls'', ''reality''}"
    and v: "v_Path v = []" "v_Host v = []"
  shows "shows_security inp (extractStreamView v doc)"
    and "in_Network inp \<noteq> ''websocket'' \<Longrightarrow> shows_transport inp (extractStreamView v doc)"
proof -
  let ?st0 = "fmupd ''security'' (JStr (in_Security inp)) (fmupd ''network'' (JStr (in_Network inp)) fmempty)"
  obtain st where st: "setSecurity inp ?st0 = Inr st"
    and doc: "doc = marshal (applyTransport (setTLS inp st) inp)"
    using ok np
    by (auto simp: buildStream_def existing_stream_def editor_network_default [OF net]
        editor_security_default [OF sec])
  have other: "mget (setTLS inp st) k = mget ?st0 k" if "k \<notin> {''tlsSettings'', ''realitySettings''}" for k
    using that setSecurity_other [OF st] by (simp add: setTLS_other)
  have ne: "in_Network inp \<noteq> []" "in_Security inp \<noteq> []"
    using net sec by (auto simp: editor_networks_def)
  let ?v = "v\<lparr>v_Network := in_Network inp, v_Security := in_Security inp\<rparr>"
  let ?st = "applyTransport (setTLS inp st) inp"
  have ev: "extractStreamView v doc = transportView ?st (securityView ?st ?v)"
    using other [of "''network''"] other [of "''security''"] ne
    by (simp add: extractStreamView_def doc Let_def)
  show "shows_security inp (extractStreamView v doc)"
    unfolding ev by (simp, rule stream_security [OF st]) simp_all
  show "shows_transport inp (extractStreamView v doc)"
    unfolding ev
    by (rule stream_transport) (simp_all add: object_def other v)
qed

lemma ToView_doc:
  assumes "unmarshal_map (defaultJSON (a_SettingsJSON a)) = Inr g"
  shows "snd (ToView a) = None"
    and "fst (ToView a) = extractStreamView
       ((fst (extractProtocolView (headView a) (entries_of g)))
          \<lparr>v_Editable := snd (extractProtocolView (headView a) (entries_of g))\<rparr>)
       (a_StreamSettingsJSON a)"
  using assms by (simp_all add: ToView_def Let_def split: prod.split)

lemma extractProtocol_Path [simp]: "v_Path (fst (extractProtocolView v s)) = v_Path v"
  by (simp add: extractProtocolView_def Let_def split: sum.split option.split)

lemma extractProtocol_Host [simp]: "v_Host (fst (extractProtocolView v s)) = v_Host v"
  by (simp add: extractProtocolView_def Let_def split: sum.split option.split)

lemma extractProtocol_Port [simp]: "v_Port (fst (extractProtocolView v s)) = v_Port v"
  by (simp add: extractProtocolView_def Let_def split: sum.split option.split)

lemma securityView_head [simp]:
  "v_Port (securityView st v) = v_Port v"
  "v_Protocol (securityView st v) = v_Protocol v"
  "v_Editable (securityView st v) = v_Editable v"
  by (simp_all add: securityView_def Let_def)

lemma transportView_head [simp]:
  "v_Port (transportView st v) = v_Port v"
  "v_Protocol (transportView st v) = v_Protocol v"
  "v_Editable (transportView st v) = v_Editable v"
  by (simp_all add: transportView_def Let_def)

lemma extractStream_Port [simp]: "v_Port (extractStreamView v t) = v_Port v"
  by (simp add: extractStreamView_def Let_def split: sum.split)

lemma extractStream_Protocol [simp]: "v_Protocol (extractStreamView v t) = v_Protocol v"
  by (simp add: extractStreamView_def Let_def split: sum.split)

lemma extractStream_Editable [simp]: "v_Editable (extractStreamView v t) = v_Editable v"
  by (simp add: extractStreamView_def Let_def split: sum.split)

lemma extractStream_credentials [simp]:
  "shows_credentials inp (extractStreamView v t) = shows_credentials inp v"
  by (simp add: extractStreamView_def Let_def split: sum.split)

definition shows_input :: "Input \<Rightarrow> View \<Rightarrow> bool" where
  "shows_input inp v \<longleftrightarrow>
     v_Port v = in_Port inp \<and> v_Editable v \<and> shows_credentials inp v \<and>
     (\<not> plain_proxy (in_Protocol inp) \<longrightarrow>
        shows_security inp v \<and> (in_Network inp \<noteq> ''websocket'' \<longrightarrow> shows_transport inp v))"

lemma to_lower_protocol: "p \<in> set editor_protocols \<Longrightarrow> to_lower p = p"
  by (erule protocol_cases) (simp_all add: to_lower_def lower_char_def)

lemma New_roundtrip:
  assumes new: "New ent now inp0 fp = Inr a" and inp: "newInput ent inp0 fp = Inr inp"
  shows "snd (ToView a) = None \<and> shows_input inp (fst (ToView a))"
proof -
  obtain settings doc where ok: "valid_input inp" "protocolSettings inp = Inr settings"
      "buildStream inp None = Inr doc" and a: "a = newAccount now inp (marshal settings, doc)"
    using new inp by (auto simp: New_iff buildProtocol_def)
  have p: "in_Protocol inp \<in> set editor_protocols" using ok(1) by (simp add: valid_input_def)
  have u: "unmarshal_map (defaultJSON (a_SettingsJSON a)) = Inr (GoMap settings)" by (simp add: a)
  have h: "v_Protocol (headView a) = in_Protocol inp" "v_Port (headView a) = in_Port inp"
    "v_Path (headView a) = []" "v_Host (headView a) = []"
    using to_lower_protocol [OF p] by (simp_all add: headView_def zero_View_def a)
  note cred = credentials_roundtrip [OF ok(2) p h(1)]
  let ?v = "(fst (extractProtocolView (headView a) settings))
              \<lparr>v_Editable := snd (extractProtocolView (headView a) settings)\<rparr>"
  have "shows_security inp (extractStreamView ?v doc) \<and>
        (in_Network inp \<noteq> ''websocket'' \<longrightarrow> shows_transport inp (extractStreamView ?v doc))"
    if "\<not> plain_proxy (in_Protocol inp)"
    using buildStream_new [OF ok(3) that, of ?v] ok(1) that h by (auto simp: valid_input_def)
  then show ?thesis
    using ToView_doc [OF u] cred h by (simp add: shows_input_def a)
qed

section \<open>Updates\<close>

lemma Update_iff:
  "Update now a inp0 = Inr a' \<longleftrightarrow>
     (\<exists>inp docs. updateInput a inp0 = Inr inp \<and> valid_input inp \<and>
                 updateProtocolJSON a inp = Inr docs \<and> a' = updatedAccount now a inp docs)"
  by (auto simp: Update_def validate_iff)

lemma updatedAccount_docs [simp]:
  "a_SettingsJSON (updatedAccount now a inp docs) = fst docs"
  "a_StreamSettingsJSON (updatedAccount now a inp docs) = snd docs"
  by (simp_all add: updatedAccount_def Let_def)

lemma updatedAccount_simps [simp]:
  "a_Name (updatedAccount now a inp docs) = in_Name inp"
  "a_Enabled (updatedAccount now a inp docs) = in_Enabled inp"
  "a_Port (updatedAccount now a inp docs) = in_Port inp"
  "a_QuotaBytes (updatedAccount now a inp docs) = in_QuotaBytes inp"
  "a_ExpiryTime (updatedAccount now a inp docs) = in_ExpiryTime inp"
  "a_MonthlyReset (updatedAccount now a inp docs) = in_MonthlyReset inp"
  "a_UpdatedAt (updatedAccount now a inp docs) = now"
  by (simp_all add: updatedAccount_def Let_def)

lemma updatedAccount_kept [simp]:
  "a_ID (updatedAccount now a inp docs) = a_ID a"
  "a_Listen (updatedAccount now a inp docs) = a_Listen a"
  "a_Protocol (updatedAccount now a inp docs) = a_Protocol a"
  "a_SniffingJSON (updatedAccount now a inp docs) = a_SniffingJSON a"
  "a_UpBytes (updatedAccount now a inp docs) = a_UpBytes a"
  "a_DownBytes (updatedAccount now a inp docs) = a_DownBytes a"
  "a_AllTimeBytes (updatedAccount now a inp docs) = a_AllTimeBytes a"
  "a_LastMonthlyReset (updatedAccount now a inp docs) = a_LastMonthlyReset a"
  "a_CreatedAt (updatedAccount now a inp docs) = a_CreatedAt a"
  by (simp_all add: updatedAccount_def Let_def)

lemma updatedAccount_reason:
  "a_DisabledReason (updatedAccount now a inp docs) =
     (if in_Enabled inp then []
      else if a_DisabledReason a \<in> {[], ''quota'', ''expiry''} then ''manual'' else a_DisabledReason a)"
  by (simp add: updatedAccount_def Let_def)

lemma updatedAccount_tag:
  "a_Tag (updatedAccount now a inp docs) =
     (if a_Tag a = [] \<or> in_Port inp \<noteq> a_Port a then accountTag (in_Port inp) (in_Name inp)
      else a_Tag a)"
  by (simp add: updatedAccount_def Let_def)

lemma normalize_port [simp]: "in_Port (normalizeEditableInput i) = in_Port i"
  by (simp add: normalizeEditableInput_def)

lemma mergeMissing_port [simp]:
  "in_Port (mergeMissing v i) = in_Port i" "in_Protocol (mergeMissing v i) = in_Protocol i"
  "in_Name (mergeMissing v i) = in_Name i"
  by (simp_all add: mergeMissing_def)

lemma updateInput_port: "updateInput a inp0 = Inr inp \<Longrightarrow> 1 \<le> in_Port inp \<and> in_Port inp \<le> 65535"
  by (auto simp: updateInput_def Let_def validPort_def split: if_split_asm)

lemma normalize_protocol:
  "in_Protocol (normalizeEditableInput i) = to_lower (trim_space (in_Protocol i))"
  by (simp add: normalizeEditableInput_def)

lemma trim_protocol: "p \<in> set editor_protocols \<Longrightarrow> trim_space p = p"
  by (erule protocol_cases) (simp_all add: trim_space_graphic graphic_def)

lemma updateInput_protocol:
  assumes up: "updateInput a inp0 = Inr inp" and p: "a_Protocol a \<in> set editor_protocols"
  shows "in_Protocol inp = a_Protocol a"
  using up p
  by (auto simp: updateInput_def Let_def normalize_protocol equal_fold_def to_lower_protocol
      trim_protocol trim_to_lower_trim split: if_split_asm)

lemma updateProtocolJSON_iff:
  "updateProtocolJSON a inp = Inr (sj, tj) \<longleftrightarrow>
     (\<exists>g settings. unmarshal_map (defaultJSON (a_SettingsJSON a)) = Inr g \<and>
        updateSettings (to_lower (a_Protocol a)) inp g = Inr settings \<and> sj = marshal settings \<and>
        buildStream inp (Some (defaultJSON (a_StreamSettingsJSON a))) = Inr tj)"
  by (auto simp: updateProtocolJSON_def)

lemma buildStream_object:
  "buildStream inp (Some t) = Inr d \<Longrightarrow> is_object t \<Longrightarrow> is_object d"
  by (auto simp: buildStream_def split: if_split_asm)

lemma is_object_default: "is_object t \<Longrightarrow> is_object (defaultJSON t)"
  by (simp add: defaultJSON_def is_object_def)

lemma Update_wf:
  assumes up: "Update now a inp0 = Inr a'" and wf: "account_wf a"
  shows "account_wf a'"
proof -
  obtain inp sj tj where i: "updateInput a inp0 = Inr inp" "valid_input inp"
      "updateProtocolJSON a inp = Inr (sj, tj)" "a' = updatedAccount now a inp (sj, tj)"
    using up by (auto simp: Update_iff)
  then have n: "length (in_Name inp) \<le> 80" "in_Name inp \<noteq> []" "0 \<le> in_QuotaBytes inp" "0 \<le> in_ExpiryTime inp"
    by (auto simp: valid_input_def field_checks_def)
  have d: "is_object sj" "is_object tj"
    using i(3) wf by (auto simp: updateProtocolJSON_iff account_wf_def
        intro: buildStream_object is_object_default)
  show ?thesis
    using wf n d updateInput_port [OF i(1)]
    by (simp add: account_wf_def i(4) updatedAccount_tag updatedAccount_reason)
qed

text \<open>
  What an update writes into the one client (or proxy account) of the settings; the update of the
  settings is this change of the client and the change of a few members.
\<close>

definition new_client :: "string \<Rightarrow> Input \<Rightarrow> object \<Rightarrow> object" where
  "new_client p inp c =
     (let email = JStr (accountEmail (in_Name inp) (in_Port inp)) in
      if p = ''vless'' then
        setOrDelete ''flow'' (in_Flow inp) (fmupd ''email'' email (fmupd ''id'' (JStr (in_Credential inp)) c))
      else if p = ''vmess'' then
        setOrDelete ''security'' (in_ClientSecurity inp)
          (fmupd ''email'' email (fmupd ''id'' (JStr (in_Credential inp)) c))
      else if plain_proxy p then
        fmupd ''pass'' (JStr (in_Password inp)) (fmupd ''user'' (JStr (in_Username inp)) c)
      else fmupd ''email'' email (fmupd ''password'' (JStr (in_Password inp)) c))"

definition client_key :: "string \<Rightarrow> string" where
  "client_key p = (if plain_proxy p then ''accounts'' else ''clients'')"

lemma writable_Inr: "writable g = Inr m \<longleftrightarrow> g = GoMap m"
  by (cases g) auto

lemmas updateSettings_eval =
  updateSettings_def new_client_def client_key_def plain_proxy_def Let_def oneObject_Inr

definition client_update :: "string \<Rightarrow> Input \<Rightarrow> object \<Rightarrow> object \<Rightarrow> object \<Rightarrow> bool" where
  "client_update p inp s0 s c \<longleftrightarrow>
     mget s0 (client_key p) = JArr [JObj c] \<and>
     mget s (client_key p) = JArr [JObj (new_client p inp c)] \<and>
     (\<forall>k. k \<noteq> client_key p \<longrightarrow> k \<noteq> ''decryption'' \<longrightarrow> mget s k = mget s0 k) \<and>
     mget s ''decryption'' = (if p = ''vless'' \<and> fmlookup s0 ''decryption'' = None then JStr ''none''
                            else mget s0 ''decryption'')"

lemma updateSettings_client:
  assumes ok: "updateSettings p inp g = Inr s" and "p \<noteq> ''shadowsocks''" and "p \<in> set editor_protocols"
  shows "\<exists>c. client_update p inp (entries_of g) s c"
  using assms(3)
proof (rule protocol_cases)
  assume "p = ''vless''"
  with ok show ?thesis by (clarsimp simp: updateSettings_eval client_update_def)
next
  assume "p = ''vmess''"
  with ok show ?thesis by (clarsimp simp: updateSettings_eval client_update_def)
next
  assume "p = ''trojan''"
  with ok show ?thesis by (clarsimp simp: updateSettings_eval client_update_def)
next
  assume "p = ''socks''"
  with ok show ?thesis by (clarsimp simp: updateSettings_eval client_update_def)
next
  assume "p = ''http''"
  with ok show ?thesis by (clarsimp simp: updateSettings_eval client_update_def)
next
  assume "p = ''shadowsocks''"
  with assms(2) show ?thesis by simp
qed

lemma updateSettings_shadowsocks:
  assumes ok: "updateSettings ''shadowsocks'' inp g = Inr s"
  shows "mget s ''method'' = JStr (in_Method inp)" "mget s ''password'' = JStr (in_ServerPassword inp)"
    "k \<noteq> ''method'' \<Longrightarrow> k \<noteq> ''password'' \<Longrightarrow> k \<noteq> ''clients'' \<Longrightarrow> mget s k = mget (entries_of g) k"
    "mget (entries_of g) ''clients'' = JArr [JObj c] \<Longrightarrow>
       mget s ''clients'' = JArr [JObj (new_client ''shadowsocks'' inp c)]"
proof -
  let ?s1 = "\<lambda>m. fmupd ''password'' (JStr (in_ServerPassword inp)) (fmupd ''method'' (JStr (in_Method inp)) m)"
  obtain m co where g: "g = GoMap m" and co: "oneObjectOptional (?s1 m) ''clients'' = Inr co"
    and s: "s = (case co of None \<Rightarrow> ?s1 m | Some c \<Rightarrow>
        fmupd ''clients'' (JArr [JObj (new_client ''shadowsocks'' inp c)]) (?s1 m))"
    using ok by (cases "oneObjectOptional (?s1 (entries_of g)) ''clients''")
      (auto simp: updateSettings_eval writable_Inr split: option.splits)
  show "mget s ''method'' = JStr (in_Method inp)" "mget s ''password'' = JStr (in_ServerPassword inp)"
    by (simp_all add: s split: option.split)
  show "k \<noteq> ''method'' \<Longrightarrow> k \<noteq> ''password'' \<Longrightarrow> k \<noteq> ''clients'' \<Longrightarrow> mget s k = mget (entries_of g) k"
    by (simp add: s g split: option.split)
  show "mget s ''clients'' = JArr [JObj (new_client ''shadowsocks'' inp c)]"
    if c: "mget (entries_of g) ''clients'' = JArr [JObj c]"
  proof -
    have "oneObjectOptional (?s1 m) ''clients'' = Inr (Some c)"
      using c g by (simp add: oneObjectOptional_Inr_Some)
    then have "co = Some c" using co by simp
    then show ?thesis by (simp add: s)
  qed
qed


lemma update_extract_client:
  assumes ok: "updateSettings p inp g = Inr s" and ed: "snd (extractProtocolView v0 (entries_of g))"
    and p: "p \<in> set editor_protocols" "p \<noteq> ''shadowsocks''" "in_Protocol inp = p" "v_Protocol v = p" "v_Protocol v0 = p"
  shows "shows_credentials inp (fst (extractProtocolView v s))"
proof -
  obtain c where c: "client_update p inp (entries_of g) s c"
    using updateSettings_client [OF ok p(2,1)] by blast
  show ?thesis
    using p(1)
  proof (rule protocol_cases)
    assume "p = ''vless''"
    with c ed p show ?thesis
      by (clarsimp simp: client_update_def updateSettings_eval extractProtocolView_def
          shows_credentials_def keyword_trim split: if_split_asm) (elim disjE; simp)
  next
    assume "p = ''vmess''"
    with c ed p show ?thesis
      by (clarsimp simp: client_update_def updateSettings_eval extractProtocolView_def
          shows_credentials_def keyword_trim split: if_split_asm)
  next
    assume "p = ''trojan''"
    with c ed p show ?thesis
      by (clarsimp simp: client_update_def updateSettings_eval extractProtocolView_def
          shows_credentials_def keyword_trim split: if_split_asm)
  next
    assume "p = ''socks''"
    with c ed p show ?thesis
      by (clarsimp simp: client_update_def updateSettings_eval extractProtocolView_def
          shows_credentials_def keyword_trim split: if_split_asm)
  next
    assume "p = ''http''"
    with c ed p show ?thesis
      by (clarsimp simp: client_update_def updateSettings_eval extractProtocolView_def
          shows_credentials_def keyword_trim split: if_split_asm)
  next
    assume "p = ''shadowsocks''"
    with p show ?thesis by simp
  qed
qed

lemma update_extract_shadowsocks:
  assumes ok: "updateSettings ''shadowsocks'' inp g = Inr s"
    and c: "mget (entries_of g) ''clients'' = JArr [JObj c]"
    and p: "in_Protocol inp = ''shadowsocks''" "v_Protocol v = ''shadowsocks''"
  shows "shows_credentials inp (fst (extractProtocolView v s))"
proof -
  have "oneObjectOptional s ''clients'' = Inr (Some (new_client ''shadowsocks'' inp c))"
    using updateSettings_shadowsocks(4) [OF ok c] by (simp add: oneObjectOptional_Inr_Some)
  then show ?thesis
    using updateSettings_shadowsocks(1,2) [OF ok] p
    by (simp add: extractProtocolView_def shows_credentials_def Let_def new_client_def plain_proxy_def)
qed

text \<open>Whether the settings document of an account has exactly one client entry.\<close>

definition has_client :: "Account \<Rightarrow> bool" where
  "has_client a \<longleftrightarrow>
     (case unmarshal_map (defaultJSON (a_SettingsJSON a)) of
        Inl e \<Rightarrow> False
      | Inr g \<Rightarrow> (case oneObject (entries_of g) ''clients'' of Inl e \<Rightarrow> False | Inr c \<Rightarrow> True))"

lemma Update_shows_credentials:
  assumes up: "Update now a inp0 = Inr a'" and inp: "updateInput a inp0 = Inr inp"
    and p: "a_Protocol a \<in> set editor_protocols" and ed: "v_Editable (fst (ToView a))"
    and ss: "a_Protocol a = ''shadowsocks'' \<Longrightarrow> has_client a"
  shows "shows_credentials inp (fst (ToView a'))"
proof -
  obtain g s tj where g: "unmarshal_map (defaultJSON (a_SettingsJSON a)) = Inr g"
    and s: "updateSettings (a_Protocol a) inp g = Inr s"
    and a': "a' = updatedAccount now a inp (marshal s, tj)"
    using up inp by (auto simp: Update_iff updateProtocolJSON_iff to_lower_protocol [OF p])
  have g': "unmarshal_map (defaultJSON (a_SettingsJSON a')) = Inr (GoMap s)" by (simp add: a')
  have h: "v_Protocol (headView a) = a_Protocol a" "v_Protocol (headView a') = a_Protocol a"
    by (simp_all add: headView_def a' to_lower_protocol [OF p])
  have ip: "in_Protocol inp = a_Protocol a" by (rule updateInput_protocol [OF inp p])
  have "shows_credentials inp (fst (extractProtocolView (headView a') s))"
  proof (cases "a_Protocol a = ''shadowsocks''")
    case True
    then obtain c where "mget (entries_of g) ''clients'' = JArr [JObj c]"
      using ss g by (auto simp: has_client_def oneObject_Inr split: sum.split_asm)
    then show ?thesis using update_extract_shadowsocks s True h ip by simp
  next
    case False
    have "snd (extractProtocolView (headView a) (entries_of g))"
      using ed by (simp add: ToView_doc(2) [OF g])
    from update_extract_client [OF s this p False ip h(2,1)] show ?thesis .
  qed
  then show ?thesis by (simp add: ToView_doc(2) [OF g'])
qed

section \<open>Updating the stream settings\<close>

definition stream_of :: "jtext \<Rightarrow> object" where
  "stream_of t = (case unmarshal_map (defaultJSON t) of Inl e \<Rightarrow> fmempty | Inr g \<Rightarrow> entries_of g)"

lemma buildStream_update:
  assumes ok: "buildStream inp (Some (defaultJSON t)) = Inr d" and np: "\<not> plain_proxy (in_Protocol inp)"
    and net: "in_Network inp \<in> set editor_networks" and sec: "in_Security inp \<in> {''none'', ''tls'', ''reality''}"
  obtains st where "setSecurity inp (fmupd ''security'' (JStr (in_Security inp))
                      (fmupd ''network'' (JStr (in_Network inp)) (stream_of t))) = Inr st"
    and "d = marshal (applyTransport (setTLS inp st) inp)"
proof -
  have "existing_stream (Some (defaultJSON t)) = GoMap m \<Longrightarrow> stream_of t = m" for m
    by (auto simp: existing_stream_def stream_of_def split: sum.split_asm)
  with ok np that show ?thesis
    by (auto simp: buildStream_def writable_Inr editor_network_default [OF net]
        editor_security_default [OF sec])
qed

definition editor_stream_keys :: "string list" where
  "editor_stream_keys = [''network'', ''security'', ''realitySettings'', ''tlsSettings'',
     ''wsSettings'', ''grpcSettings'', ''httpupgradeSettings'', ''xhttpSettings'']"

lemma buildStream_keeps:
  assumes ok: "buildStream inp (Some (defaultJSON t)) = Inr d" and np: "\<not> plain_proxy (in_Protocol inp)"
    and net: "in_Network inp \<in> set editor_networks" and sec: "in_Security inp \<in> {''none'', ''tls'', ''reality''}"
    and k: "k \<notin> set editor_stream_keys"
  shows "mget (stream_of d) k = mget (stream_of t) k"
proof -
  obtain st where st: "setSecurity inp (fmupd ''security'' (JStr (in_Security inp))
        (fmupd ''network'' (JStr (in_Network inp)) (stream_of t))) = Inr st"
    and d: "d = marshal (applyTransport (setTLS inp st) inp)"
    by (rule buildStream_update [OF ok np net sec])
  have ks: "k \<noteq> ''network''" "k \<noteq> ''security''" "k \<noteq> ''realitySettings''" "k \<noteq> ''tlsSettings''"
     "k \<notin> {''wsSettings'', ''grpcSettings'', ''httpupgradeSettings'', ''xhttpSettings''}"
    using k by (simp_all add: editor_stream_keys_def)
  have "mget (stream_of d) k = mget st k"
    using ks by (simp add: d stream_of_def applyTransport_keeps setTLS_other)
  also have "\<dots> = mget (stream_of t) k"
    using setSecurity_other [OF st ks(3)] ks(1,2) by simp
  finally show ?thesis .
qed

text \<open>
  The view of an updated account: what the input gives, and where the input is blank what the stored
  stream settings say for the network and the security of the input. The host of a WebSocket transport
  is written to \<open>headers.Host\<close> but read from \<open>host\<close> first.
\<close>

definition given :: "string \<Rightarrow> string \<Rightarrow> string" where
  "given new old = (if new \<noteq> [] then new else old)"

definition shows_security_over :: "Input \<Rightarrow> object \<Rightarrow> View \<Rightarrow> bool" where
  "shows_security_over inp st v \<longleftrightarrow>
     v_Security v = in_Security inp \<and>
     (in_Security inp = ''reality'' \<longrightarrow>
        v_ServerName v = in_ServerName inp \<and> v_Dest v = in_Dest inp \<and>
        v_PrivateKey v = in_PrivateKey inp \<and> v_ShortID v = in_ShortID inp) \<and>
     (in_Security inp = ''tls'' \<longrightarrow>
        v_ServerName v = given (in_ServerName inp) (stringValue (mget (object st ''tlsSettings'') ''serverName'')))"

definition shows_transport_over :: "Input \<Rightarrow> object \<Rightarrow> View \<Rightarrow> bool" where
  "shows_transport_over inp st v \<longleftrightarrow>
     v_Network v = in_Network inp \<and>
     (in_Network inp = ''ws'' \<longrightarrow>
        (let x = object st ''wsSettings'' in
         v_Path v = given (in_Path inp) (stringValue (mget x ''path'')) \<and>
         v_Host v = given (stringValue (mget x ''host''))
                      (given (in_Host inp)
                        (firstString [mget (object x ''headers'') ''Host'', mget (object x ''headers'') ''host''])))) \<and>
     (in_Network inp = ''grpc'' \<longrightarrow>
        v_ServiceName v = given (in_ServiceName inp) (stringValue (mget (object st ''grpcSettings'') ''serviceName''))) \<and>
     (\<forall>(n, key) \<in> {(''httpupgrade'', ''httpupgradeSettings''), (''xhttp'', ''xhttpSettings'')}. in_Network inp = n \<longrightarrow>
        v_Path v = given (in_Path inp) (stringValue (mget (object st key) ''path'')) \<and>
        v_Host v = given (in_Host inp) (stringValue (mget (object st key) ''host'')))"

lemma stream_security_update:
  assumes sec: "setSecurity inp st0 = Inr st" and v: "v_Security v = in_Security inp"
    and tls: "object st0 ''tlsSettings'' = object base ''tlsSettings''"
  shows "shows_security_over inp base (securityView (applyTransport (setTLS inp st) inp) v)"
proof -
  have kept: "object (applyTransport x inp) k = object x k" if "k \<in> {''realitySettings'', ''tlsSettings''}" for x k
    using that applyTransport_keeps [of k x inp] by (auto simp: object_def)
  consider "in_Security inp = ''reality''" | "in_Security inp = ''tls''"
    | "in_Security inp \<noteq> ''reality''" "in_Security inp \<noteq> ''tls''" by blast
  then show ?thesis
  proof cases
    case 1
    then have "st = fmupd ''realitySettings'' (JObj (realitySettings inp (object st0 ''realitySettings''))) st0"
      using sec by (simp add: setSecurity_def split: if_split_asm)
    then show ?thesis using 1 v
      by (simp add: securityView_def shows_security_over_def setTLS_def kept realitySettings_def Let_def)
  next
    case 2
    then have "object st ''tlsSettings'' = object base ''tlsSettings''"
      using sec tls by (auto simp: setSecurity_def object_def)
    then show ?thesis using 2 v
      by (simp add: securityView_def shows_security_over_def setTLS_def kept given_def)
  qed (use v in \<open>simp add: securityView_def shows_security_over_def\<close>)
qed

lemma stream_transport_update:
  assumes "v_Network v = in_Network inp"
    and "\<forall>k \<in> {''wsSettings'', ''grpcSettings'', ''httpupgradeSettings'', ''xhttpSettings''}. mget st k = mget base k"
  shows "shows_transport_over inp base (transportView (applyTransport st inp) v)"
proof -
  have ob: "object st k = object base k" if "k \<in> {''wsSettings'', ''grpcSettings'', ''httpupgradeSettings'', ''xhttpSettings''}" for k
    using assms(2) [rule_format, OF that] by (simp only: object_def)
  show ?thesis
    using assms(1)
    by (auto simp: applyTransport_def transportView_def shows_transport_over_def set_if_def given_def ob Let_def)
qed

lemma extractStream_update:
  assumes ok: "buildStream inp (Some (defaultJSON t)) = Inr d" and np: "\<not> plain_proxy (in_Protocol inp)"
    and val: "valid_input inp"
  obtains st st0 v' where "setSecurity inp st0 = Inr st"
    and "extractStreamView v d = transportView (applyTransport (setTLS inp st) inp)
           (securityView (applyTransport (setTLS inp st) inp) v')"
    and "v_Security v' = in_Security inp" "v_Network v' = in_Network inp"
    and "object st0 ''tlsSettings'' = object (stream_of t) ''tlsSettings''"
    and "\<forall>k \<in> {''wsSettings'', ''grpcSettings'', ''httpupgradeSettings'', ''xhttpSettings''}. mget (setTLS inp st) k = mget (stream_of t) k"
proof -
  have net: "in_Network inp \<in> set editor_networks" and sec: "in_Security inp \<in> {''none'', ''tls'', ''reality''}"
    using val np by (simp_all add: valid_input_def)
  let ?st0 = "fmupd ''security'' (JStr (in_Security inp)) (fmupd ''network'' (JStr (in_Network inp)) (stream_of t))"
  obtain st where st: "setSecurity inp ?st0 = Inr st" and d: "d = marshal (applyTransport (setTLS inp st) inp)"
    by (rule buildStream_update [OF ok np net sec])
  have other: "mget (setTLS inp st) k = mget ?st0 k" if "k \<notin> {''tlsSettings'', ''realitySettings''}" for k
    using that setSecurity_other [OF st] by (simp add: setTLS_other)
  have ne: "in_Network inp \<noteq> []" "in_Security inp \<noteq> []"
    using net sec by (auto simp: editor_networks_def)
  let ?v = "v\<lparr>v_Network := in_Network inp, v_Security := in_Security inp\<rparr>"
  have "extractStreamView v d = transportView (applyTransport (setTLS inp st) inp)
           (securityView (applyTransport (setTLS inp st) inp) ?v)"
    using other [of "''network''"] other [of "''security''"] ne
    by (simp add: extractStreamView_def d Let_def)
  from that [OF st this] show thesis by (simp add: object_def other)
qed

lemma Update_docs:
  assumes up: "Update now a inp0 = Inr a'" and inp: "updateInput a inp0 = Inr inp"
  shows "valid_input inp"
    and "buildStream inp (Some (defaultJSON (a_StreamSettingsJSON a))) = Inr (a_StreamSettingsJSON a')"
    and "\<exists>v. fst (ToView a') = extractStreamView v (a_StreamSettingsJSON a')"
proof -
  obtain s tj where i: "valid_input inp"
      "buildStream inp (Some (defaultJSON (a_StreamSettingsJSON a))) = Inr tj"
    and a': "a' = updatedAccount now a inp (marshal s, tj)"
    using up inp by (auto simp: Update_iff updateProtocolJSON_iff)
  then show "valid_input inp"
    "buildStream inp (Some (defaultJSON (a_StreamSettingsJSON a))) = Inr (a_StreamSettingsJSON a')"
    by simp_all
  have "unmarshal_map (defaultJSON (a_SettingsJSON a')) = Inr (GoMap s)" by (simp add: a')
  from ToView_doc(2) [OF this] show "\<exists>v. fst (ToView a') = extractStreamView v (a_StreamSettingsJSON a')"
    by (rule exI)
qed

lemma Update_shows_stream:
  assumes up: "Update now a inp0 = Inr a'" and inp: "updateInput a inp0 = Inr inp"
    and np: "\<not> plain_proxy (in_Protocol inp)"
  shows "shows_security_over inp (stream_of (a_StreamSettingsJSON a)) (fst (ToView a')) \<and>
         shows_transport_over inp (stream_of (a_StreamSettingsJSON a)) (fst (ToView a'))"
proof -
  obtain v where v: "fst (ToView a') = extractStreamView v (a_StreamSettingsJSON a')"
    using Update_docs(3) [OF up inp] by blast
  obtain st st0 v' where st: "setSecurity inp st0 = Inr st"
    and ev: "extractStreamView v (a_StreamSettingsJSON a') =
        transportView (applyTransport (setTLS inp st) inp)
          (securityView (applyTransport (setTLS inp st) inp) v')"
    and v': "v_Security v' = in_Security inp" "v_Network v' = in_Network inp"
    and same: "object st0 ''tlsSettings'' = object (stream_of (a_StreamSettingsJSON a)) ''tlsSettings''"
      "\<forall>k \<in> {''wsSettings'', ''grpcSettings'', ''httpupgradeSettings'', ''xhttpSettings''}.
         mget (setTLS inp st) k = mget (stream_of (a_StreamSettingsJSON a)) k"
    by (rule extractStream_update [OF Update_docs(2) [OF up inp] np Update_docs(1) [OF up inp]])
  have sec: "shows_security_over inp base (transportView s x) \<longleftrightarrow> shows_security_over inp base x" for base s x
    by (simp add: shows_security_over_def)
  show ?thesis
    unfolding v ev sec
    using stream_security_update [OF st v'(1) same(1)] stream_transport_update [OF _ same(2)] v' by simp
qed

text \<open>The head of the view is the account's.\<close>

definition view_head :: "View \<Rightarrow> (int \<times> string \<times> bool \<times> string \<times> int) \<times> (int \<times> int \<times> bool) \<times> (int \<times> int \<times> int) \<times> string" where
  "view_head v = ((v_ID v, v_Name v, v_Enabled v, v_DisabledReason v, v_Port v),
     (v_QuotaBytes v, v_ExpiryTime v, v_MonthlyReset v), (v_UpBytes v, v_DownBytes v, v_AllTime v), v_Tag v)"

lemma view_head_extract:
  "view_head (fst (extractProtocolView v s)) = view_head v" "view_head (securityView st v) = view_head v"
  "view_head (transportView st v) = view_head v" "view_head (v\<lparr>v_Editable := e\<rparr>) = view_head v"
  "view_head (v\<lparr>v_Network := n, v_Security := sc\<rparr>) = view_head v"
  by (simp_all add: extractProtocolView_def securityView_def transportView_def view_head_def Let_def
      split: sum.split option.split)

lemma view_head_stream: "view_head (extractStreamView v t) = view_head v"
  by (simp add: extractStreamView_def view_head_extract Let_def split: sum.split)

lemma ToView_head: "view_head (fst (ToView a)) = view_head (headView a)"
  using view_head_extract(1) [of "headView a"]
  by (auto simp: ToView_def view_head_stream view_head_extract Let_def split: sum.split prod.split)
    (metis fst_conv view_head_extract(1))

text \<open>The input an update works on: the request, and the account's view where the request is blank.\<close>

definition completed :: "Account \<Rightarrow> Input \<Rightarrow> Input \<Rightarrow> bool" where
  "completed a req inp \<longleftrightarrow>
     (let v = fst (ToView a) in
      in_Name inp = trim_space (in_Name req) \<and> in_Enabled inp = in_Enabled req \<and>
      in_Port inp = (if in_Port req = 0 then a_Port a else in_Port req) \<and> in_Protocol inp = a_Protocol a \<and>
      in_QuotaBytes inp = in_QuotaBytes req \<and> in_ExpiryTime inp = in_ExpiryTime req \<and>
      in_MonthlyReset inp = in_MonthlyReset req \<and>
      (\<forall>(new, asked, old) \<in> set
         [(in_Credential inp, in_Credential req, v_Credential v), (in_Username inp, in_Username req, v_Username v),
          (in_ServerName inp, in_ServerName req, v_ServerName v), (in_Dest inp, in_Dest req, v_Dest v),
          (in_PrivateKey inp, in_PrivateKey req, v_PrivateKey v), (in_ShortID inp, in_ShortID req, v_ShortID v),
          (in_Host inp, in_Host req, v_Host v), (in_Path inp, in_Path req, v_Path v),
          (in_ServiceName inp, in_ServiceName req, v_ServiceName v)].
         new = given (trim_space asked) (trim_space old)) \<and>
      (\<forall>(new, asked, old) \<in> set
         [(in_Password inp, in_Password req, v_Password v), (in_Flow inp, in_Flow req, v_Flow v),
          (in_ServerPassword inp, in_ServerPassword req, v_ServerPassword v),
          (in_ClientSecurity inp, in_ClientSecurity req, v_ClientSecurity v)].
         new = given asked old) \<and>
      (\<forall>(new, asked, old) \<in> set
         [(in_Network inp, in_Network req, v_Network v), (in_Security inp, in_Security req, v_Security v),
          (in_Method inp, in_Method req, v_Method v)].
         new = given (to_lower (trim_space asked)) (to_lower (trim_space old))))"

lemma lowered_twice: "to_lower (trim_space (to_lower (trim_space s))) = to_lower (trim_space s)"
  by (simp add: trim_to_lower_trim)

lemma updateInput_completed:
  assumes up: "updateInput a req = Inr inp" and p: "a_Protocol a \<in> set editor_protocols"
  shows "completed a req inp"
proof -
  let ?n = "normalizeEditableInput" and ?v = "fst (ToView a)"
  let ?i1 = "(?n req)\<lparr>in_Name := trim_space (in_Name (?n req))\<rparr>"
  obtain i3 where inp: "inp = ?n (mergeMissing ?v i3)"
    and i3: "\<exists>p q. i3 = ?i1\<lparr>in_Port := p, in_Protocol := q\<rparr> \<and> p = (if in_Port req = 0 then a_Port a else in_Port req)"
  proof -
    let ?i2 = "if in_Port ?i1 = 0 then ?i1\<lparr>in_Port := a_Port a\<rparr> else ?i1"
    let ?i3 = "if in_Protocol ?i2 = [] then ?i2\<lparr>in_Protocol := a_Protocol a\<rparr> else ?i2"
    have e1: "inp = ?n (mergeMissing ?v ?i3)" using up by (simp add: updateInput_def Let_def split: if_split_asm)
    have "?i3 = ?i1\<lparr>in_Port := (if in_Port req = 0 then a_Port a else in_Port req), in_Protocol := in_Protocol ?i3\<rparr>"
      by (simp add: normalizeEditableInput_def)
    then have e2: "\<exists>p q. ?i3 = ?i1\<lparr>in_Port := p, in_Protocol := q\<rparr> \<and> p = (if in_Port req = 0 then a_Port a else in_Port req)"
      by (intro exI conjI) (assumption | rule refl)+
    from that [OF e1 e2] show thesis .
  qed
  then obtain q where i3: "i3 = ?i1\<lparr>in_Port := (if in_Port req = 0 then a_Port a else in_Port req), in_Protocol := q\<rparr>"
    by blast
  note protocol = updateInput_protocol [OF up p]
  show ?thesis unfolding completed_def Let_def
    by (intro conjI; (rule protocol | simp add: inp i3 given_def normalizeEditableInput_def mergeMissing_def
          default_if_empty_def lowered_twice))
qed

section \<open>Clones\<close>

lemma rotateCredential_frame:
  assumes "rotateCredential ent a name port = Inr c"
  shows "\<exists>settings. c = a\<lparr>a_SettingsJSON := marshal settings\<rparr>"
  using assms by (auto simp: rotateCredential_def)

definition clone_base :: "int \<Rightarrow> int \<Rightarrow> Account \<Rightarrow> string \<Rightarrow> int \<Rightarrow> Account" where
  "clone_base now1 now2 a name port =
     a\<lparr>a_ID := 0, a_Name := name, a_Port := port, a_UpBytes := 0, a_DownBytes := 0,
       a_AllTimeBytes := 0, a_LastMonthlyReset := [], a_Tag := accountTag port name,
       a_CreatedAt := now1, a_UpdatedAt := now2,
       a_Enabled := (if a_DisabledReason a = ''quota'' then True else a_Enabled a),
       a_DisabledReason := []\<rparr>"

lemma Clone_iff:
  "Clone ent now1 now2 a name0 port = Inr c \<longleftrightarrow>
     1 \<le> port \<and> port \<le> 65535 \<and>
     (let name = (if trim_space name0 = [] then a_Name a @ '' copy'' else trim_space name0) in
      length name \<le> 80 \<and> rotateCredential ent (clone_base now1 now2 a name port) name port = Inr c)"
  by (auto simp: Clone_def clone_base_def Let_def validPort_def split: if_split_asm)

lemma Clone_fresh:
  assumes "Clone ent now1 now2 a name port = Inr c"
  shows "a_ID c = 0 \<and> a_UpBytes c = 0 \<and> a_DownBytes c = 0 \<and> a_AllTimeBytes c = 0 \<and>
         a_LastMonthlyReset c = [] \<and> a_DisabledReason c = [] \<and> a_Port c = port \<and>
         1 \<le> port \<and> port \<le> 65535 \<and> length (a_Name c) \<le> 80 \<and>
         a_Tag c = accountTag port (a_Name c) \<and>
         a_Protocol c = a_Protocol a \<and> a_StreamSettingsJSON c = a_StreamSettingsJSON a \<and>
         a_SniffingJSON c = a_SniffingJSON a \<and> a_QuotaBytes c = a_QuotaBytes a \<and>
         a_ExpiryTime c = a_ExpiryTime a \<and> a_MonthlyReset c = a_MonthlyReset a \<and>
         a_CreatedAt c = now1 \<and> a_UpdatedAt c = now2"
  using assms
  by (auto simp: Clone_iff Let_def clone_base_def split: if_split_asm dest!: rotateCredential_frame)

lemma Clone_name:
  assumes "Clone ent now1 now2 a name port = Inr c"
  shows "a_Name c = (if trim_space name = [] then a_Name a @ '' copy'' else trim_space name)"
  using assms by (auto simp: Clone_iff Let_def clone_base_def dest!: rotateCredential_frame)

lemma Clone_wf:
  assumes wf: "account_wf a" and c: "Clone ent now1 now2 a name port = Inr c"
  shows "account_wf c"
proof -
  obtain settings where "a_SettingsJSON c = marshal settings"
    using c by (auto simp: Clone_iff Let_def dest!: rotateCredential_frame)
  with wf Clone_fresh [OF c] Clone_name [OF c] show ?thesis
    by (simp add: account_wf_def)
qed

text \<open>The credential that the clone of an account carries in its settings.\<close>

definition rotated :: "entropy \<Rightarrow> string \<Rightarrow> string \<Rightarrow> object \<Rightarrow> object" where
  "rotated ent p name c =
     (if p = ''vless'' \<or> p = ''vmess'' then fmupd ''id'' (JStr (newUUID ent)) c
      else if p = ''trojan'' then fmupd ''password'' (JStr (randomSecret ent 18)) c
      else if p = ''shadowsocks'' then fmupd ''password'' (JStr (randomSecret ent 20)) c
      else fmupd ''pass'' (JStr (randomSecret ent 18)) (fmupd ''user'' (JStr (shortSlug name)) c))"

lemma rotate_client:
  assumes ok: "rotateSettings ent p name port g = Inr s" and p: "p \<in> set editor_protocols"
    and c: "mget (entries_of g) (client_key p) = JArr [JObj c]"
  shows "\<exists>c'. mget s (client_key p) = JArr [JObj c'] \<and>
              (\<forall>k. k \<noteq> ''email'' \<longrightarrow> mget c' k = mget (rotated ent p name c) k) \<and>
              (\<forall>k. k \<noteq> client_key p \<longrightarrow> mget s k = mget (entries_of g) k)"
  using p
proof (rule protocol_cases)
  assume "p = ''vless''"
  with ok c show ?thesis by (clarsimp simp: rotateSettings_def updateSettings_eval rotated_def)
next
  assume "p = ''vmess''"
  with ok c show ?thesis by (clarsimp simp: rotateSettings_def updateSettings_eval rotated_def)
next
  assume "p = ''trojan''"
  with ok c show ?thesis by (clarsimp simp: rotateSettings_def updateSettings_eval rotated_def)
next
  assume p: "p = ''shadowsocks''"
  with c have "oneObjectOptional (entries_of g) ''clients'' = Inr (Some c)"
    by (simp add: oneObjectOptional_Inr_Some client_key_def plain_proxy_def)
  with ok c p show ?thesis by (clarsimp simp: rotateSettings_def updateSettings_eval rotated_def)
next
  assume "p = ''socks''"
  with ok c show ?thesis by (clarsimp simp: rotateSettings_def updateSettings_eval rotated_def)
next
  assume "p = ''http''"
  with ok c show ?thesis by (clarsimp simp: rotateSettings_def updateSettings_eval rotated_def)
qed

section \<open>The first free port\<close>

lemma find_upto:
  "List.find P [a..b] = Some p \<longleftrightarrow> a \<le> p \<and> p \<le> b \<and> P p \<and> (\<forall>q. a \<le> q \<and> q < p \<longrightarrow> \<not> P q)"
  for a b p :: int
proof
  assume "List.find P [a..b] = Some p"
  then obtain i where i: "i < length [a..b]" "P ([a..b] ! i)" "p = [a..b] ! i" "\<forall>j<i. \<not> P ([a..b] ! j)"
    by (auto simp: find_Some_iff)
  have "\<not> P q" if "a \<le> q" "q < p" for q
    using i(4) [rule_format, of "nat (q - a)"] i(1,3) that by (auto simp: nth_upto)
  with i show "a \<le> p \<and> p \<le> b \<and> P p \<and> (\<forall>q. a \<le> q \<and> q < p \<longrightarrow> \<not> P q)" by (auto simp: nth_upto)
next
  assume r: "a \<le> p \<and> p \<le> b \<and> P p \<and> (\<forall>q. a \<le> q \<and> q < p \<longrightarrow> \<not> P q)"
  then show "List.find P [a..b] = Some p"
    by (auto simp: find_Some_iff nth_upto intro!: exI [of _ "nat (p - a)"])
qed


lemma NextPort_free:
  assumes "NextPort accounts = p" and "p \<noteq> 0"
  shows "PortMin \<le> p \<and> p \<le> PortMax \<and> p \<notin> a_Port ` set accounts \<and>
         (\<forall>q. PortMin \<le> q \<and> q < p \<longrightarrow> q \<in> a_Port ` set accounts)"
  using assms by (auto simp: NextPort_def find_upto split: option.split_asm)

lemma NextPort_none:
  "NextPort accounts = 0 \<longleftrightarrow> {PortMin..PortMax} \<subseteq> a_Port ` set accounts"
  by (auto simp: NextPort_def find_None_iff PortMin_def subset_iff find_upto split: option.split)

section \<open>Properties\<close>

text \<open>Sample data for the witnesses.\<close>

definition sample_entropy :: entropy where
  "sample_entropy =
     \<lparr>ent_uuid = replicate 16 171, ent_secret = (\<lambda>n. replicate n 7), ent_short = replicate 8 1,
      ent_x25519 = None\<rparr>"

definition sample_input :: Input where
  "sample_input =
     \<lparr>in_Name = ''alice'', in_Enabled = True, in_Port = 443, in_Protocol = ''trojan'',
      in_Credential = [], in_Username = [], in_Password = ''pw'', in_ServerPassword = [],
      in_ClientSecurity = [], in_Method = [], in_Flow = [], in_Network = ''ws'',
      in_Security = ''tls'', in_ServerName = ''a.example'', in_Dest = [], in_PrivateKey = [],
      in_ShortID = [], in_Host = ''new.example'', in_Path = ''/p'', in_ServiceName = [],
      in_QuotaBytes = 0, in_ExpiryTime = 0, in_MonthlyReset = False\<rparr>"

definition sample_account :: Account where
  "sample_account =
     \<lparr>a_ID = 3, a_Name = ''bob'', a_Enabled = True, a_DisabledReason = [], a_Listen = [],
      a_Port = 8443, a_Protocol = ''trojan'',
      a_SettingsJSON = marshal (obj [(''clients'', one_client [(''password'', JStr ''old''),
                                      (''level'', JStr ''1'')]), (''note'', JStr ''kept'')]),
      a_StreamSettingsJSON = marshal (obj [(''network'', JStr ''ws''), (''security'', JStr ''none''),
         (''wsSettings'', JObj (obj [(''host'', JStr ''old.example'')])), (''extra'', JBool True)]),
      a_SniffingJSON = default_sniffing, a_Tag = ''xport-8443-bob'', a_UpBytes = 10,
      a_DownBytes = 20, a_QuotaBytes = 0, a_AllTimeBytes = 90, a_ExpiryTime = 0,
      a_MonthlyReset = False, a_LastMonthlyReset = [], a_CreatedAt = 1, a_UpdatedAt = 2\<rparr>"

definition is_ok :: "'a res \<Rightarrow> bool" where
  "is_ok r \<longleftrightarrow> (case r of Inl e \<Rightarrow> False | Inr v \<Rightarrow> True)"

lemma is_okD: "is_ok r \<Longrightarrow> \<exists>v. r = Inr v"
  by (cases r) (auto simp: is_ok_def)

lemma sample_new: "is_ok (New sample_entropy 5 sample_input 20000)" "is_ok (New sample_entropy 9 sample_input 443)"
  by code_simp+

lemma sample_merged: "updateInput sample_account sample_input = Inr sample_input"
proof -
  have view: "fst (ToView sample_account) =
     zero_View\<lparr>v_ID := 3, v_Name := ''bob'', v_Enabled := True, v_Port := 8443, v_Protocol := ''trojan'',
       v_Password := ''old'', v_Network := ''ws'', v_Security := ''none'', v_Host := ''old.example'',
       v_UpBytes := 10, v_DownBytes := 20, v_AllTime := 90, v_Editable := True, v_Tag := ''xport-8443-bob''\<rparr>"
    by code_simp
  have norm: "normalizeEditableInput sample_input = sample_input"
    by code_simp
  have trim: "trim_space ''alice'' = ''alice''"
    by (simp add: trim_space_graphic graphic_def)
  have "mergeMissing (fst (ToView sample_account)) sample_input = sample_input"
    unfolding view by (simp add: mergeMissing_def sample_input_def default_if_empty_def zero_View_def)
  moreover have "sample_input\<lparr>in_Name := trim_space (in_Name sample_input)\<rparr> = sample_input"
    by (simp add: sample_input_def trim)
  moreover have "trim_space (in_Name sample_input) \<noteq> []"
    by (simp add: sample_input_def trim)
  moreover have "in_Port sample_input = 443" "in_Protocol sample_input = ''trojan''"
    "a_Protocol sample_account = ''trojan''"
    by (simp_all add: sample_input_def sample_account_def)
  ultimately show ?thesis
    by (simp add: updateInput_def norm Let_def validPort_def equal_fold_def)
qed

lemma sample_update: "is_ok (Update 7 sample_account sample_input)"
proof -
  have "valid_input sample_input" by code_simp
  then have "validateEditableInput sample_input = Inr ()" by (simp add: validate_iff)
  moreover have "is_ok (updateProtocolJSON sample_account sample_input)" by code_simp
  then obtain docs where "updateProtocolJSON sample_account sample_input = Inr docs"
    using is_okD by blast
  ultimately show ?thesis
    using sample_merged by (simp add: Update_def is_ok_def)
qed

lemma sample_clone: "is_ok (Clone sample_entropy t1 t2 sample_account ''eve'' 9443)"
proof -
  have trim: "trim_space ''eve'' = ''eve''"
    by (simp add: trim_space_graphic graphic_def)
  have "rotateCredential sample_entropy (clone_base t1 t2 sample_account ''eve'' 9443) ''eve'' 9443 =
        Inr (let c = clone_base t1 t2 sample_account ''eve'' 9443 in
             c\<lparr>a_SettingsJSON := marshal (case rotateSettings sample_entropy ''trojan'' ''eve'' 9443
                (GoMap (obj [(''clients'', one_client [(''password'', JStr ''old''), (''level'', JStr ''1'')]),
                             (''note'', JStr ''kept'')])) of Inr s \<Rightarrow> s)\<rparr>)"
    by (simp add: rotateCredential_def clone_base_def sample_account_def rotateSettings_def
        oneObject_Inr one_client_def Let_def to_lower_def lower_char_def)
  then obtain c where "rotateCredential sample_entropy (clone_base t1 t2 sample_account ''eve'' 9443) ''eve'' 9443
      = Inr c" by blast
  then have "Clone sample_entropy t1 t2 sample_account ''eve'' 9443 = Inr c"
    by (simp add: Clone_iff trim)
  then show ?thesis by (simp add: is_ok_def)
qed

lemma sample_wf: "account_wf sample_account"
  by code_simp

lemma sample_editable: "v_Editable (fst (ToView sample_account))"
  by code_simp

text \<open>(C26) An account that is created is well-formed and unused, and reading it back through the
  editor's view shows the port, the credentials, the security and the transport of the input that
  was stored.\<close>

theorem account_new_roundtrip:
  assumes "New ent now inp0 fp = Inr a"
  shows "account_wf a \<and> a_ID a = 0 \<and> a_UpBytes a = 0 \<and> a_DownBytes a = 0 \<and>
         (\<exists>inp. newInput ent inp0 fp = Inr inp \<and> valid_input inp \<and>
                snd (ToView a) = None \<and> shows_input inp (fst (ToView a)))"
proof -
  obtain inp where "newInput ent inp0 fp = Inr inp" "valid_input inp"
    using assms by (auto simp: New_iff)
  with New_wf [OF assms] New_roundtrip [OF assms] show ?thesis by blast
qed

theorem account_new_roundtrip_witness:
  "\<exists>a. New sample_entropy 5 sample_input 20000 = Inr a \<and> account_wf a \<and> snd (ToView a) = None"
  using is_okD [OF sample_new(1)] account_new_roundtrip by blast

text \<open>An update keeps the account's identity and its traffic: id, protocol, listen address,
  sniffing, counters, creation time and reset month are untouched, the account stays well-formed,
  and the tag changes only when the port does.\<close>

theorem account_update_keeps:
  assumes "Update now a inp0 = Inr a'" and "account_wf a"
  shows "account_wf a' \<and> a_ID a' = a_ID a \<and> a_Protocol a' = a_Protocol a \<and> a_Listen a' = a_Listen a \<and>
         a_SniffingJSON a' = a_SniffingJSON a \<and> a_UpBytes a' = a_UpBytes a \<and>
         a_DownBytes a' = a_DownBytes a \<and> a_AllTimeBytes a' = a_AllTimeBytes a \<and>
         a_CreatedAt a' = a_CreatedAt a \<and> a_LastMonthlyReset a' = a_LastMonthlyReset a \<and>
         (a_Port a' = a_Port a \<longrightarrow> a_Tag a' = a_Tag a) \<and>
         (\<not> a_Enabled a' \<longrightarrow> a_DisabledReason a' \<noteq> [])"
proof -
  obtain inp docs where "a' = updatedAccount now a inp docs"
    using assms(1) by (auto simp: Update_iff)
  moreover have "account_wf a'" using assms by (rule Update_wf)
  ultimately show ?thesis
    using assms(2) by (auto simp: updatedAccount_tag updatedAccount_reason account_wf_def)
qed

theorem account_update_keeps_witness:
  "\<exists>a'. Update 7 sample_account sample_input = Inr a' \<and> account_wf a' \<and> a_AllTimeBytes a' = 90"
proof -
  obtain a' where a': "Update 7 sample_account sample_input = Inr a'"
    using is_okD [OF sample_update] by blast
  show ?thesis using account_update_keeps [OF a' sample_wf] a' by (auto simp: sample_account_def)
qed

text \<open>An update keeps what the editor does not know: every other member of the settings, of
  the client entry and, for the protocols with a transport, of the stream settings has the value it
  had.\<close>

theorem account_update_unknown:
  assumes "Update now a inp0 = Inr a'" and "a_Protocol a \<in> set editor_protocols"
    and "\<not> plain_proxy (a_Protocol a)" and "unmarshal_map (defaultJSON (a_SettingsJSON a)) = Inr g"
    and "a_Protocol a \<noteq> ''shadowsocks''"
  shows "\<exists>s c c'. a_SettingsJSON a' = marshal s \<and>
           (\<forall>k. k \<notin> {''clients'', ''decryption''} \<longrightarrow> mget s k = mget (entries_of g) k) \<and>
           mget (entries_of g) ''clients'' = JArr [JObj c] \<and> mget s ''clients'' = JArr [JObj c'] \<and>
           (\<forall>k. k \<notin> {''id'', ''password'', ''email'', ''flow'', ''security''} \<longrightarrow> mget c' k = mget c k) \<and>
           (\<forall>k. k \<notin> set editor_stream_keys \<longrightarrow>
              mget (stream_of (a_StreamSettingsJSON a')) k = mget (stream_of (a_StreamSettingsJSON a)) k)"
proof -
  obtain inp s tj where inp: "updateInput a inp0 = Inr inp" "valid_input inp"
    and s: "updateSettings (a_Protocol a) inp g = Inr s"
    and tj: "buildStream inp (Some (defaultJSON (a_StreamSettingsJSON a))) = Inr tj"
    and a': "a' = updatedAccount now a inp (marshal s, tj)"
    using assms(1,4) by (auto simp: Update_iff updateProtocolJSON_iff to_lower_protocol [OF assms(2)])
  obtain c where c: "client_update (a_Protocol a) inp (entries_of g) s c"
    using updateSettings_client [OF s assms(5,2)] by blast
  have np: "\<not> plain_proxy (in_Protocol inp)"
    using updateInput_protocol [OF inp(1) assms(2)] assms(3) by simp
  have net: "in_Network inp \<in> set editor_networks" "in_Security inp \<in> {''none'', ''tls'', ''reality''}"
    using inp(2) np by (simp_all add: valid_input_def)
  have kept: "mget (new_client (a_Protocol a) inp c) k = mget c k"
    if "k \<notin> {''id'', ''password'', ''email'', ''flow'', ''security''}" for k
  proof -
    have n: "k \<noteq> ''id''" "k \<noteq> ''password''" "k \<noteq> ''email''" "k \<noteq> ''flow''" "k \<noteq> ''security''"
      using that by simp_all
    show ?thesis using assms(3) by (simp add: new_client_def Let_def n [THEN not_sym])
  qed
  show ?thesis
    using c kept buildStream_keeps [OF tj np net] assms(3)
    by (intro exI [of _ s] exI [of _ c] exI [of _ "new_client (a_Protocol a) inp c"])
      (simp add: a' client_update_def client_key_def)
qed

theorem account_update_unknown_witness:
  "\<exists>a' s. Update 7 sample_account sample_input = Inr a' \<and> a_SettingsJSON a' = marshal s \<and>
        mget s ''note'' = JStr ''kept''"
proof -
  obtain a' where a': "Update 7 sample_account sample_input = Inr a'"
    using is_okD [OF sample_update] by blast
  let ?g = "obj [(''clients'', one_client [(''password'', JStr ''old''), (''level'', JStr ''1'')]),
                 (''note'', JStr ''kept'')]"
  have proto: "a_Protocol sample_account = ''trojan''" by (simp add: sample_account_def)
  have g: "unmarshal_map (defaultJSON (a_SettingsJSON sample_account)) = Inr (GoMap ?g)"
    by (simp add: sample_account_def)
  have kept: "mget ?g ''note'' = JStr ''kept''" by code_simp
  obtain s where "a_SettingsJSON a' = marshal s"
    and "\<forall>k. k \<notin> {''clients'', ''decryption''} \<longrightarrow> mget s k = mget (entries_of (GoMap ?g)) k"
    using account_update_unknown [OF a' _ _ g] by (auto simp: proto editor_protocols_def plain_proxy_def)
  then have "mget s ''note'' = JStr ''kept''" using kept by (auto dest: spec [of _ "''note''"])
  then show ?thesis using a' \<open>a_SettingsJSON a' = marshal s\<close> by blast
qed

text \<open>(C27) What the editor shows after an update is the request, and the account as it was wherever the
  request is blank: name, switch, port, quota, expiry and monthly reset, the credentials, and for the
  protocols with a transport the security and the network with their server name, keys, path, service
  name and host (a blank one, after a change of the network, is what the stored document has for that
  network; the host of a WebSocket transport gives way to a stored member \<open>host\<close>).\<close>

theorem account_update_shows:
  assumes "Update now a req = Inr a'" and "a_Protocol a \<in> set editor_protocols"
    and "v_Editable (fst (ToView a))" and "a_Protocol a = ''shadowsocks'' \<longrightarrow> has_client a"
  defines "v \<equiv> fst (ToView a')"
  shows "\<exists>inp. completed a req inp \<and> valid_input inp \<and>
           v_Name v = in_Name inp \<and> v_Enabled v = in_Enabled inp \<and> v_Port v = in_Port inp \<and>
           v_QuotaBytes v = in_QuotaBytes inp \<and> v_ExpiryTime v = in_ExpiryTime inp \<and>
           v_MonthlyReset v = in_MonthlyReset inp \<and> shows_credentials inp v \<and>
           (\<not> plain_proxy (a_Protocol a) \<longrightarrow>
              shows_security_over inp (stream_of (a_StreamSettingsJSON a)) v \<and>
              shows_transport_over inp (stream_of (a_StreamSettingsJSON a)) v)"
proof -
  obtain inp docs where inp: "updateInput a req = Inr inp" "valid_input inp"
    and a': "a' = updatedAccount now a inp docs"
    using assms(1) by (auto simp: Update_iff)
  have p: "in_Protocol inp = a_Protocol a" by (rule updateInput_protocol [OF inp(1) assms(2)])
  have head: "v_Name v = in_Name inp" "v_Enabled v = in_Enabled inp" "v_Port v = in_Port inp"
    "v_QuotaBytes v = in_QuotaBytes inp" "v_ExpiryTime v = in_ExpiryTime inp" "v_MonthlyReset v = in_MonthlyReset inp"
    using ToView_head [of a'] by (simp_all add: v_def view_head_def headView_def a')
  have "shows_credentials inp v"
    using Update_shows_credentials [OF assms(1) inp(1) assms(2,3)] assms(4) by (simp add: v_def)
  then show ?thesis
    using updateInput_completed [OF inp(1) assms(2)] inp(2) p Update_shows_stream [OF assms(1) inp(1)] head
    by (intro exI [of _ inp]) (simp add: v_def)
qed

theorem account_update_shows_witness:
  "\<exists>a'. Update 7 sample_account sample_input = Inr a' \<and> v_Port (fst (ToView a')) = 443 \<and>
        v_QuotaBytes (fst (ToView a')) = in_QuotaBytes sample_input \<and>
        v_Security (fst (ToView a')) = ''tls'' \<and> v_Path (fst (ToView a')) = ''/p''"
proof -
  obtain a' where a': "Update 7 sample_account sample_input = Inr a'"
    using is_okD [OF sample_update] by blast
  have p: "a_Protocol sample_account = ''trojan''" by (simp add: sample_account_def)
  from account_update_shows [OF a' _ sample_editable] obtain inp
    where inp: "completed sample_account sample_input inp" "v_Port (fst (ToView a')) = in_Port inp"
      "v_QuotaBytes (fst (ToView a')) = in_QuotaBytes inp"
    and s: "shows_security_over inp (stream_of (a_StreamSettingsJSON sample_account)) (fst (ToView a'))"
      "shows_transport_over inp (stream_of (a_StreamSettingsJSON sample_account)) (fst (ToView a'))"
    by (auto simp: p editor_protocols_def plain_proxy_def)
  have texts: "trim_space ''/p'' = ''/p''" "to_lower ''tls'' = ''tls''" "to_lower ''ws'' = ''ws''"
    by code_simp+
  have "in_Port inp = 443" "in_QuotaBytes inp = in_QuotaBytes sample_input" "in_Security inp = ''tls''"
    "in_Network inp = ''ws''" "in_Path inp = ''/p''"
    using inp(1) by (simp_all add: completed_def Let_def given_def sample_input_def texts keyword_trim)
  then show ?thesis using s a' inp(2,3)
    by (intro exI [of _ a']) (simp add: shows_security_over_def shows_transport_over_def Let_def given_def)
qed

text \<open>The host of a WebSocket account is written to \<open>headers.Host\<close> but read from \<open>host\<close> first:
  when the stored document has \<open>wsSettings.host\<close>, an update that sets another host changes nothing
  that is shown.\<close>

theorem account_ws_host_ignored:
  assumes "Update now a inp0 = Inr a'" and "updateInput a inp0 = Inr inp"
    and "in_Network inp = ''ws''" "in_Host inp \<noteq> []" "\<not> plain_proxy (in_Protocol inp)"
    and "stringValue (mget (object (stream_of (a_StreamSettingsJSON a)) ''wsSettings'') ''host'') = h"
    and "h \<noteq> []"
  shows "v_Host (fst (ToView a')) = h"
  using Update_shows_stream [OF assms(1,2,5)] assms(3,6,7)
  by (simp add: shows_transport_over_def given_def Let_def)

theorem account_ws_host_ignored_witness:
  "\<exists>a'. Update 7 sample_account sample_input = Inr a' \<and> in_Host sample_input = ''new.example'' \<and>
        v_Host (fst (ToView a')) = ''old.example''"
proof -
  obtain a' where a': "Update 7 sample_account sample_input = Inr a'"
    using is_okD [OF sample_update] by blast
  have "stringValue (mget (object (stream_of (a_StreamSettingsJSON sample_account)) ''wsSettings'') ''host'')
        = ''old.example''"
    by code_simp
  then have "v_Host (fst (ToView a')) = ''old.example''"
    by (rule account_ws_host_ignored [OF a' sample_merged, rotated -2])
      (simp_all add: sample_input_def plain_proxy_def)
  then show ?thesis using a' by (simp add: sample_input_def)
qed

text \<open>(C22) A clone starts afresh: no id, zero counters, the requested port, a tag of its own, no
  disable reason; its transport, quota, expiry and reset policy are those of the original, and its
  client entry has the new credential while everything else in the settings is kept.\<close>

theorem account_clone_fresh:
  assumes "Clone ent now1 now2 a name port = Inr c" and "account_wf a"
    and "a_Protocol a \<in> set editor_protocols"
    and "unmarshal_map (defaultJSON (a_SettingsJSON a)) = Inr g"
    and "mget (entries_of g) (client_key (a_Protocol a)) = JArr [JObj cl]"
  shows "account_wf c \<and> a_ID c = 0 \<and> a_UpBytes c = 0 \<and> a_DownBytes c = 0 \<and> a_AllTimeBytes c = 0 \<and>
         a_LastMonthlyReset c = [] \<and> a_DisabledReason c = [] \<and> a_Port c = port \<and>
         a_Tag c = accountTag port (a_Name c) \<and> a_StreamSettingsJSON c = a_StreamSettingsJSON a \<and>
         a_QuotaBytes c = a_QuotaBytes a \<and> a_ExpiryTime c = a_ExpiryTime a \<and>
         a_MonthlyReset c = a_MonthlyReset a \<and>
         (\<exists>s cl'. a_SettingsJSON c = marshal s \<and> mget s (client_key (a_Protocol a)) = JArr [JObj cl'] \<and>
            (\<forall>k. k \<noteq> ''email'' \<longrightarrow>
               mget cl' k = mget (rotated ent (a_Protocol a) (a_Name c) cl) k) \<and>
            (\<forall>k. k \<noteq> client_key (a_Protocol a) \<longrightarrow> mget s k = mget (entries_of g) k))"
proof -
  define n where "n = (if trim_space name = [] then a_Name a @ '' copy'' else trim_space name)"
  have n: "a_Name c = n" using Clone_name [OF assms(1)] by (simp add: n_def)
  obtain s where s: "rotateSettings ent (a_Protocol a) n port g = Inr s" "a_SettingsJSON c = marshal s"
    using assms(1,4) to_lower_protocol [OF assms(3)]
    by (auto simp: Clone_iff Let_def n_def rotateCredential_def clone_base_def)
  show ?thesis
    using Clone_wf [OF assms(2,1)] Clone_fresh [OF assms(1)] rotate_client [OF s(1) assms(3,5)] s(2) n
    by auto
qed

theorem account_clone_fresh_witness:
  "\<exists>c. Clone sample_entropy 8 9 sample_account ''eve'' 9443 = Inr c \<and> account_wf c \<and> a_Port c = 9443"
proof -
  obtain c where c: "Clone sample_entropy 8 9 sample_account ''eve'' 9443 = Inr c"
    using is_okD [OF sample_clone] by blast
  let ?cl = "[(''password'', JStr ''old''), (''level'', JStr ''1'')]"
  have g: "unmarshal_map (defaultJSON (a_SettingsJSON sample_account)) =
             Inr (GoMap (obj [(''clients'', one_client ?cl), (''note'', JStr ''kept'')]))"
    and p: "a_Protocol sample_account = ''trojan''"
    by (simp_all add: sample_account_def)
  show ?thesis
    using account_clone_fresh [OF c sample_wf _ g, of "obj ?cl"] c
    by (simp add: p editor_protocols_def client_key_def plain_proxy_def one_client_def)
qed

text \<open>(C23) The port suggested for a new account is the least one of the range that no account has;
  it is 0 exactly when the range is used up.\<close>

theorem account_next_port:
  "(NextPort accounts = 0 \<longleftrightarrow> {PortMin..PortMax} \<subseteq> a_Port ` set accounts) \<and>
   (NextPort accounts = 0 \<or>
      (PortMin \<le> NextPort accounts \<and> NextPort accounts \<le> PortMax \<and>
       NextPort accounts \<notin> a_Port ` set accounts \<and>
       {PortMin..<NextPort accounts} \<subseteq> a_Port ` set accounts))"
proof (cases "NextPort accounts = 0")
  case True
  with NextPort_none [of accounts] show ?thesis by simp
next
  case False
  with NextPort_none [of accounts] NextPort_free [OF refl False] show ?thesis
    by (simp add: subset_iff)
qed

end
