(* ===== verification/Editor.thy ===== *)
theory Editor
  imports AccountOps
begin

text \<open>
  The service's view of the account editor (\<open>internal/service/editor_transport.go\<close>, and the
  readers of the stored JSON in \<open>expert.go\<close> and \<open>advanced.go\<close> that it uses): canonical spellings
  of transports, the view that says whether the form can represent an account, and the step before
  an update that turns empty form fields into cleared members.
\<close>

section \<open>Readers of the stored JSON\<close>

definition defaultAdvancedJSON :: "jtext \<Rightarrow> jtext" where
  "defaultAdvancedJSON v = (if v = Blank then Doc (JObj fmempty) else v)"

definition expertObject :: "object \<Rightarrow> string \<Rightarrow> object" where
  "expertObject m key = (case mget m key of JObj v \<Rightarrow> v | _ \<Rightarrow> fmempty)"

definition expertString :: "json \<Rightarrow> string" where
  "expertString v = (case v of JStr s \<Rightarrow> s | _ \<Rightarrow> [])"

fun expertFirstString :: "json list \<Rightarrow> string" where
  "expertFirstString [] = []"
| "expertFirstString (v # vs) =
     (let s = expertString v in if s \<noteq> [] then s else expertFirstString vs)"

definition expertBool :: "json \<Rightarrow> bool" where
  "expertBool v = (case v of JBool b \<Rightarrow> b | _ \<Rightarrow> False)"

definition expertRawKey :: "object \<Rightarrow> string" where
  "expertRawKey stream =
     (if fmlookup stream ''rawSettings'' \<noteq> None then ''rawSettings''
      else if fmlookup stream ''tcpSettings'' \<noteq> None then ''tcpSettings''
      else ''rawSettings'')"

definition expertXHTTPKey :: "object \<Rightarrow> string" where
  "expertXHTTPKey stream =
     (if fmlookup stream ''xhttpSettings'' \<noteq> None then ''xhttpSettings''
      else if fmlookup stream ''splithttpSettings'' \<noteq> None then ''splithttpSettings''
      else ''xhttpSettings'')"

definition expertMethod :: "object \<Rightarrow> string \<Rightarrow> string" where
  "expertMethod stream protocol =
     (let m = to_lower (trim_space (expertFirstString [mget stream ''method'', mget stream ''network'']));
          m = (if m = [] \<and> \<not> plain_proxy protocol then ''raw'' else m)
      in if m = ''tcp'' then ''raw''
         else if m = ''ws'' then ''websocket''
         else if m = ''splithttp'' then ''xhttp''
         else if m = ''mkcp'' then ''kcp''
         else m)"

definition expertMaps :: "Account \<Rightarrow> (gomap \<times> gomap) res" where
  "expertMaps a =
     (case unmarshal_map (defaultAdvancedJSON (a_SettingsJSON a)) of
        Inl e \<Rightarrow> Inl (Errorf ''invalid account settings JSON: %w'' [] [e])
      | Inr settings \<Rightarrow>
          (case unmarshal_map (defaultAdvancedJSON (a_StreamSettingsJSON a)) of
             Inl e \<Rightarrow> Inl (Errorf ''invalid stream settings JSON: %w'' [] [e])
           | Inr stream \<Rightarrow> Inr (settings, stream)))"

text \<open>\<open>json.Marshal\<close> of a map variable: a nil map is written as \<open>null\<close>.\<close>

fun marshal_map :: "gomap \<Rightarrow> jtext" where
  "marshal_map NilMap = Doc JNull"
| "marshal_map (GoMap m) = marshal m"

text \<open>A deletion from a map variable; on a nil map it does nothing.\<close>

fun edit_map :: "(object \<Rightarrow> object) \<Rightarrow> gomap \<Rightarrow> gomap" where
  "edit_map f NilMap = NilMap"
| "edit_map f (GoMap m) = GoMap (f m)"

section \<open>Canonical spellings\<close>

definition editorNetworkValue :: "string \<Rightarrow> string" where
  "editorNetworkValue val =
     (let v = to_lower (trim_space val) in
      if v = [] \<or> v = ''tcp'' \<or> v = ''raw'' then ''tcp''
      else if v = ''ws'' \<or> v = ''websocket'' then ''ws''
      else if v = ''xhttp'' \<or> v = ''splithttp'' then ''xhttp''
      else if v = ''grpc'' then ''grpc''
      else if v = ''httpupgrade'' then ''httpupgrade''
      else v)"

definition editorMethodValue :: "string \<Rightarrow> string" where
  "editorMethodValue val =
     (if editorNetworkValue val = ''tcp'' then ''raw''
      else if editorNetworkValue val = ''ws'' then ''websocket''
      else editorNetworkValue val)"

definition normalizeEditorInput :: "Input \<Rightarrow> Input" where
  "normalizeEditorInput inp =
     (let i1 = inp\<lparr>in_Protocol := to_lower (trim_space (in_Protocol inp)),
                   in_Network := editorNetworkValue (in_Network inp),
                   in_Security := to_lower (trim_space (in_Security inp))\<rparr>;
          i2 = (if plain_proxy (in_Protocol i1)
                then i1\<lparr>in_Network := [], in_Security := ''none'', in_Flow := []\<rparr> else i1)
      in if in_Protocol i2 \<noteq> ''vless'' then i2\<lparr>in_Flow := []\<rparr> else i2)"

section \<open>The editor's view\<close>

definition editorSecuritySupported :: "string \<Rightarrow> string \<Rightarrow> string \<Rightarrow> bool" where
  "editorSecuritySupported protocol network security =
     (if security \<noteq> ''none'' \<and> security \<noteq> ''tls'' \<and> security \<noteq> ''reality'' then False
      else if security = ''reality'' then
        (if protocol \<noteq> ''vless'' \<and> protocol \<noteq> ''trojan'' then False
         else network = ''tcp'' \<or> network = ''xhttp'' \<or> network = ''grpc'')
      else True)"

definition editorVisionCompatible :: "string \<Rightarrow> string \<Rightarrow> bool" where
  "editorVisionCompatible network security \<longleftrightarrow>
     network = ''tcp'' \<and> (security = ''tls'' \<or> security = ''reality'')"

text \<open>The transport fields, read again under the current method spellings.\<close>

definition methodView :: "object \<Rightarrow> string \<Rightarrow> View \<Rightarrow> View" where
  "methodView stream method v =
     (if method = ''websocket'' then
        (let x = expertObject stream ''wsSettings''; headers = expertObject x ''headers'' in
         v\<lparr>v_Path := expertString (mget x ''path''),
           v_Host := expertFirstString [mget x ''host'', mget headers ''Host'', mget headers ''host'']\<rparr>)
      else if method = ''grpc'' then
        v\<lparr>v_ServiceName := expertString (mget (expertObject stream ''grpcSettings'') ''serviceName'')\<rparr>
      else if method = ''httpupgrade'' then
        (let x = expertObject stream ''httpupgradeSettings'' in
         v\<lparr>v_Path := expertString (mget x ''path''), v_Host := expertString (mget x ''host'')\<rparr>)
      else if method = ''xhttp'' then
        (let x = expertObject stream (expertXHTTPKey stream) in
         v\<lparr>v_Path := expertString (mget x ''path''), v_Host := expertString (mget x ''host'')\<rparr>)
      else v)"

definition editorView :: "Account \<Rightarrow> View \<times> err option" where
  "editorView a =
     (let (v, err) = ToView a in
      if err \<noteq> None then (v, err)
      else
        (let protocol = to_lower (trim_space (a_Protocol a)) in
         if plain_proxy protocol then (v\<lparr>v_Network := [], v_Security := ''none''\<rparr>, None)
         else case unmarshal_map (defaultAdvancedJSON (a_StreamSettingsJSON a)) of
           Inl e \<Rightarrow> (v\<lparr>v_Editable := False\<rparr>, None)
         | Inr g \<Rightarrow>
             (let stream = entries_of g;
                  method = expertMethod stream protocol
              in if method \<notin> {''raw'', ''websocket'', ''xhttp'', ''grpc'', ''httpupgrade''}
                 then (v\<lparr>v_Editable := False\<rparr>, None)
                 else
                   (let v1 = v\<lparr>v_Network := (if method = ''raw'' then ''tcp''
                                              else if method = ''websocket'' then ''ws'' else method)\<rparr>;
                        security = to_lower (trim_space (expertString (mget stream ''security'')));
                        security = (if security = [] then ''none'' else security);
                        v2 = v1\<lparr>v_Security := security\<rparr>
                    in if \<not> editorSecuritySupported protocol (v_Network v2) security
                       then (v2\<lparr>v_Editable := False\<rparr>, None)
                       else if protocol = ''vless'' \<and> v_Flow v2 \<noteq> [] \<and>
                               \<not> editorVisionCompatible (v_Network v2) security
                       then (v2\<lparr>v_Editable := False\<rparr>, None)
                       else (methodView stream method v2, None)))))"

definition editorPublicView :: "Account \<Rightarrow> View" where
  "editorPublicView a =
     (fst (editorView a))\<lparr>v_Credential := [], v_Username := [], v_Password := [],
                          v_ServerPassword := [], v_PrivateKey := []\<rparr>"

section \<open>Explicit clears\<close>

definition blank_field :: "string \<Rightarrow> string \<Rightarrow> object \<Rightarrow> object" where
  "blank_field key val x = (if trim_space val = [] then fmdrop key x else x)"

definition put_or_delete :: "string \<Rightarrow> object \<Rightarrow> object \<Rightarrow> object" where
  "put_or_delete key x stream =
     (if x = fmempty then fmdrop key stream else fmupd key (JObj x) stream)"

definition clear_flow :: "Account \<Rightarrow> Input \<Rightarrow> object \<Rightarrow> object" where
  "clear_flow a inp settings =
     (if to_lower (trim_space (a_Protocol a)) = ''vless'' \<and> trim_space (in_Flow inp) = [] then
        (case mget settings ''clients'' of
           JArr [JObj client] \<Rightarrow> fmupd ''clients'' (JArr [JObj (fmdrop ''flow'' client)]) settings
         | _ \<Rightarrow> settings)
      else settings)"

definition clear_ws_host :: "Input \<Rightarrow> object \<Rightarrow> object" where
  "clear_ws_host inp x =
     (if trim_space (in_Host inp) = [] then
        (let x1 = fmdrop ''host'' x in
         case mget x1 ''headers'' of
           JObj headers \<Rightarrow>
             (let h = fmdrop ''host'' (fmdrop ''Host'' headers)
              in if h = fmempty then fmdrop ''headers'' x1 else fmupd ''headers'' (JObj h) x1)
         | _ \<Rightarrow> x1)
      else x)"

definition clear_transport :: "Input \<Rightarrow> object \<Rightarrow> object" where
  "clear_transport inp stream =
     (let method = editorMethodValue (in_Network inp) in
      if method = ''websocket'' then
        put_or_delete ''wsSettings''
          (clear_ws_host inp (blank_field ''path'' (in_Path inp) (expertObject stream ''wsSettings''))) stream
      else if method = ''grpc'' then
        put_or_delete ''grpcSettings''
          (blank_field ''serviceName'' (in_ServiceName inp) (expertObject stream ''grpcSettings'')) stream
      else if method = ''httpupgrade'' then
        put_or_delete ''httpupgradeSettings''
          (blank_field ''host'' (in_Host inp)
             (blank_field ''path'' (in_Path inp) (expertObject stream ''httpupgradeSettings''))) stream
      else if method = ''xhttp'' then
        (let key = expertXHTTPKey stream in
         put_or_delete key
           (blank_field ''host'' (in_Host inp)
              (blank_field ''path'' (in_Path inp) (expertObject stream key))) stream)
      else stream)"

definition sanitizeEditableBaseForExplicitClears :: "Account \<Rightarrow> Input \<Rightarrow> Account" where
  "sanitizeEditableBaseForExplicitClears a inp =
     (case expertMaps a of
        Inl e \<Rightarrow> a
      | Inr (settings, stream) \<Rightarrow>
          a\<lparr>a_SettingsJSON := marshal_map (edit_map (clear_flow a inp) settings),
            a_StreamSettingsJSON := marshal_map (edit_map (clear_transport inp) stream)\<rparr>)"

end
