(* ===== verification/Service.thy ===== *)
theory Service
  imports Ports Editor
begin

text \<open>
  The account service (\<open>internal/service/accounts.go\<close>, \<open>prepareInput\<close> of \<open>runtime.go\<close>): every
  change of the account list is computed from the stored list, applied to Xray and then stored; if
  storing fails, Xray gets the old list back.

  The state of an operation is a pair of the database and the state of the applier (\<open>xray.Applier\<close>,
  an interface whose implementation is an argument). The mutex of the service serialises the
  operations, so each is one step. \<open>Env\<close> collects what the operation reads from outside: the
  database engine, the operating system, the clock (milliseconds, and the month as \<open>2006-01\<close>) and
  the randomness; the clock is read once per operation.
\<close>

section \<open>Lists of accounts\<close>

fun indexID :: "Account list \<Rightarrow> int \<Rightarrow> nat option" where
  "indexID [] i = None"
| "indexID (v # vs) i = (if a_ID v = i then Some 0 else map_option Suc (indexID vs i))"

function firstUnused :: "int list \<Rightarrow> int \<Rightarrow> int" where
  "firstUnused used i = (if i \<in> set used then firstUnused used (i + 1) else i)"
  by pat_completeness auto
termination
proof (relation "measure (\<lambda>(used, i). length (filter (\<lambda>u. i \<le> u) used))")
  fix used :: "int list" and i
  assume i: "i \<in> set used"
  have "filter (\<lambda>u. i + 1 \<le> u) used = filter (\<lambda>u. u \<noteq> i) (filter (\<lambda>u. i \<le> u) used)"
    by (induction used) auto
  moreover have "length (filter (\<lambda>u. u \<noteq> i) (filter (\<lambda>u. i \<le> u) used)) < length (filter (\<lambda>u. i \<le> u) used)"
    using i by (intro length_filter_less [of i]) auto
  ultimately show "((used, i + 1), used, i) \<in> measure (\<lambda>(used, i). length (filter (\<lambda>u. i \<le> u) used))"
    by simp
qed simp

declare firstUnused.simps [simp del]

definition nextAvailableAccountID :: "Account list \<Rightarrow> int" where
  "nextAvailableAccountID accounts = firstUnused (filter (\<lambda>i. i > 0) (map a_ID accounts)) 1"

definition uniquePort :: "Account list \<Rightarrow> int \<Rightarrow> int \<Rightarrow> unit res" where
  "uniquePort accounts port exceptID =
     (case List.find (\<lambda>v. a_Port v = port \<and> a_ID v \<noteq> exceptID) accounts of
        None \<Rightarrow> Inr ()
      | Some v \<Rightarrow> Inl (Errorf ''port %d is already used by %q'' [itoa port, a_Name v] []))"

definition initializeMonthlyCycle :: "string \<Rightarrow> Account \<Rightarrow> bool \<Rightarrow> Account" where
  "initializeMonthlyCycle month a newlyEnabled =
     (if a_MonthlyReset a \<and> (newlyEnabled \<or> a_LastMonthlyReset a = [])
      then a\<lparr>a_LastMonthlyReset := month\<rparr> else a)"

section \<open>The environment of an operation\<close>

record Env =
  e_eng :: Engine
  e_os :: Os
  e_now :: int
  e_month :: string
  e_ent :: entropy

type_synonym 'x applier = "Account list \<Rightarrow> 'x \<Rightarrow> unit res \<times> 'x"

section \<open>Apply, then persist, or roll back\<close>

definition applyAndPersist ::
    "(Account list \<Rightarrow> 'd \<Rightarrow> unit res \<times> 'd) \<Rightarrow> 'x applier option \<Rightarrow> Account list \<Rightarrow> Account list \<Rightarrow>
     'd \<times> 'x \<Rightarrow> unit res \<times> 'd \<times> 'x" where
  "applyAndPersist replace applier old next w =
     (case applier of
        None \<Rightarrow> (Inl (ErrNew ''Xray applier is not configured''), w)
      | Some apply \<Rightarrow>
          (case apply next (snd w) of
             (Inl e, x) \<Rightarrow> (Inl e, (fst w, x))
           | (Inr _, x) \<Rightarrow>
               (case replace next (fst w) of
                  (Inr _, d) \<Rightarrow> (Inr (), (d, x))
                | (Inl e, d) \<Rightarrow>
                    (case apply old x of
                       (Inl r, x') \<Rightarrow>
                         (Inl (Errorf ''database update failed: %v; Xray rollback also failed: %v'' [] [e, r]), (d, x'))
                     | (Inr _, x') \<Rightarrow>
                         (Inl (Errorf ''database update failed; Xray was rolled back: %w'' [] [e]), (d, x'))))))"

text \<open>
  The shape of every change of the list: load it, compute the new one (and what the answer is read
  back by), apply and persist.
\<close>

definition change ::
    "('d \<Rightarrow> Account list res) \<Rightarrow> (Account list \<Rightarrow> 'd \<Rightarrow> unit res \<times> 'd) \<Rightarrow> 'x applier option \<Rightarrow>
     ('d \<Rightarrow> Account list \<Rightarrow> (Account list \<times> 'k) res) \<Rightarrow> 'd \<times> 'x \<Rightarrow> 'k res \<times> 'd \<times> 'x" where
  "change load replace applier step w =
     (case bindR (load (fst w)) (\<lambda>old. bindR (step (fst w) old) (\<lambda>(next, k). Inr (old, next, k))) of
        Inl e \<Rightarrow> (Inl e, w)
      | Inr (old, next, k) \<Rightarrow>
          (case applyAndPersist replace applier old next w of
             (Inl e, w') \<Rightarrow> (Inl e, w')
           | (Inr _, w') \<Rightarrow> (Inr k, w')))"

definition raw :: "Engine \<Rightarrow> Db \<Rightarrow> int \<Rightarrow> Account res" where
  "raw eng db i =
     bindR (Accounts eng db) (\<lambda>a.
       case indexID a i of
         None \<Rightarrow> Inl (ErrNew ''account not found'')
       | Some idx \<Rightarrow> Inr (a ! idx))"

definition findByPort :: "Engine \<Rightarrow> Db \<Rightarrow> int \<Rightarrow> Account res" where
  "findByPort eng db port =
     bindR (Accounts eng db) (\<lambda>a.
       case List.find (\<lambda>v. a_Port v = port) a of
         None \<Rightarrow> Inl (ErrNew ''account not found after save'')
       | Some v \<Rightarrow> Inr v)"

text \<open>A view that comes with an error is dropped by every caller.\<close>

definition view_res :: "View \<times> err option \<Rightarrow> View res" where
  "view_res ve = (case snd ve of None \<Rightarrow> Inr (fst ve) | Some e \<Rightarrow> Inl e)"

definition savedView :: "Engine \<Rightarrow> int res \<times> Db \<times> 'x \<Rightarrow> View res \<times> Db \<times> 'x" where
  "savedView eng rw =
     (bindR (fst rw) (\<lambda>port. bindR (findByPort eng (fst (snd rw)) port) (\<lambda>a. view_res (editorView a))),
      snd rw)"

abbreviation changeDb ::
    "Env \<Rightarrow> 'x applier option \<Rightarrow> (Db \<Rightarrow> Account list \<Rightarrow> (Account list \<times> 'k) res) \<Rightarrow> Db \<times> 'x \<Rightarrow>
     'k res \<times> Db \<times> 'x" where
  "changeDb env \<equiv> change (Accounts (e_eng env)) (ReplaceAccounts (e_eng env) (e_now env))"

section \<open>Reading\<close>

definition ListAccounts :: "Engine \<Rightarrow> Db \<Rightarrow> View list res" where
  "ListAccounts eng db = bindR (Accounts eng db) (\<lambda>as. Inr (map editorPublicView as))"

definition GetAccount :: "Engine \<Rightarrow> Db \<Rightarrow> int \<Rightarrow> View res" where
  "GetAccount eng db i = bindR (raw eng db i) (\<lambda>a. view_res (editorView a))"

section \<open>Creating\<close>

definition default_from :: "Engine \<Rightarrow> Db \<Rightarrow> string \<Rightarrow> string \<Rightarrow> string" where
  "default_from eng db key val =
     (if trim_space val = [] then
        (case Setting eng key db of Inr (Some v) \<Rightarrow> trim_space v | _ \<Rightarrow> val)
      else val)"

definition prepareInput :: "Env \<Rightarrow> Db \<Rightarrow> Input \<Rightarrow> Account list \<Rightarrow> Input res" where
  "prepareInput env db inp accounts =
     (let i1 = (if in_Protocol inp = [] then inp\<lparr>in_Protocol := ''vless''\<rparr> else inp) in
      bindR (if in_Port i1 = 0
             then bindR (automaticPort (e_eng env) (e_os env) db accounts) (\<lambda>p. Inr (i1\<lparr>in_Port := p\<rparr>))
             else Inr i1) (\<lambda>i2.
      (let protocol = to_lower (trim_space (in_Protocol i2)) in
       if (protocol = ''vless'' \<or> protocol = ''trojan'') \<and>
          (in_Security i2 = [] \<or> in_Security i2 = ''reality'')
       then Inr (i2\<lparr>in_ServerName := default_from (e_eng env) db ''default_reality_sni'' (in_ServerName i2),
                    in_Dest := default_from (e_eng env) db ''default_reality_dest'' (in_Dest i2)\<rparr>)
       else Inr i2)))"

definition createStep :: "Env \<Rightarrow> Input \<Rightarrow> Db \<Rightarrow> Account list \<Rightarrow> (Account list \<times> int) res" where
  "createStep env inp0 db old =
     bindR (prepareInput env db (normalizeEditorInput inp0) old) (\<lambda>inp.
     bindR (uniquePort old (in_Port inp) 0) (\<lambda>_.
     bindR (ensurePortFree (e_os env) (in_Port inp)) (\<lambda>_.
     bindR (New (e_ent env) (e_now env) inp (in_Port inp)) (\<lambda>a.
       Inr (old @ [initializeMonthlyCycle (e_month env) (a\<lparr>a_ID := nextAvailableAccountID old\<rparr>) False],
            in_Port inp)))))"

definition CreateAccount :: "Env \<Rightarrow> 'x applier option \<Rightarrow> Input \<Rightarrow> Db \<times> 'x \<Rightarrow> View res \<times> Db \<times> 'x" where
  "CreateAccount env applier inp w =
     savedView (e_eng env) (changeDb env applier (createStep env inp) w)"

section \<open>Updating\<close>

definition updateStep :: "Env \<Rightarrow> int \<Rightarrow> Input \<Rightarrow> Db \<Rightarrow> Account list \<Rightarrow> (Account list \<times> int) res" where
  "updateStep env i inp0 db old =
     (case indexID old i of
        None \<Rightarrow> Inl (ErrNew ''account not found'')
      | Some idx \<Rightarrow>
          (let cur = old ! idx;
               i1 = normalizeEditorInput inp0;
               inp = (if in_Port i1 = 0 then i1\<lparr>in_Port := a_Port cur\<rparr> else i1) in
           bindR (uniquePort old (in_Port inp) i) (\<lambda>_.
           bindR (if in_Port inp \<noteq> a_Port cur then ensurePortFree (e_os env) (in_Port inp) else Inr ()) (\<lambda>_.
           bindR (Update (e_now env) (sanitizeEditableBaseForExplicitClears cur inp) inp) (\<lambda>a0.
           (let a1 = (if \<not> a_Enabled cur \<and> \<not> a_Enabled a0
                      then a0\<lparr>a_DisabledReason := a_DisabledReason cur\<rparr> else a0);
                a = initializeMonthlyCycle (e_month env) a1 (\<not> a_MonthlyReset cur)
            in Inr (old[idx := a], a_Port a)))))))"

definition UpdateAccount :: "Env \<Rightarrow> 'x applier option \<Rightarrow> int \<Rightarrow> Input \<Rightarrow> Db \<times> 'x \<Rightarrow> View res \<times> Db \<times> 'x" where
  "UpdateAccount env applier i inp w =
     savedView (e_eng env) (changeDb env applier (updateStep env i inp) w)"

section \<open>Deleting and cloning\<close>

definition deleteStep :: "int \<Rightarrow> Db \<Rightarrow> Account list \<Rightarrow> (Account list \<times> unit) res" where
  "deleteStep i db old =
     (case indexID old i of
        None \<Rightarrow> Inl (ErrNew ''account not found'')
      | Some idx \<Rightarrow> Inr (take idx old @ drop (Suc idx) old, ()))"

definition DeleteAccount :: "Env \<Rightarrow> 'x applier option \<Rightarrow> int \<Rightarrow> Db \<times> 'x \<Rightarrow> unit res \<times> Db \<times> 'x" where
  "DeleteAccount env applier i w = changeDb env applier (deleteStep i) w"

definition cloneStep :: "Env \<Rightarrow> int \<Rightarrow> string \<Rightarrow> int \<Rightarrow> Db \<Rightarrow> Account list \<Rightarrow> (Account list \<times> int) res" where
  "cloneStep env i name port0 db old =
     (case indexID old i of
        None \<Rightarrow> Inl (ErrNew ''account not found'')
      | Some idx \<Rightarrow>
          bindR (if port0 = 0 then automaticPort (e_eng env) (e_os env) db old
                 else bindR (ensurePortFree (e_os env) port0) (\<lambda>_. Inr port0)) (\<lambda>port.
          bindR (uniquePort old port 0) (\<lambda>_.
          bindR (Clone (e_ent env) (e_now env) (e_now env) (old ! idx) name port) (\<lambda>a.
            Inr (old @ [initializeMonthlyCycle (e_month env) (a\<lparr>a_ID := nextAvailableAccountID old\<rparr>) True],
                 port)))))"

definition CloneAccount ::
    "Env \<Rightarrow> 'x applier option \<Rightarrow> int \<Rightarrow> string \<Rightarrow> int \<Rightarrow> Db \<times> 'x \<Rightarrow> View res \<times> Db \<times> 'x" where
  "CloneAccount env applier i name port w =
     savedView (e_eng env) (changeDb env applier (cloneStep env i name port) w)"

end
