(* ===== verification/Keys.thy ===== *)
theory Keys
  imports Prelude
begin

text \<open>
  What the program uses of \<open>encoding/base64\<close> (\<open>RawURLEncoding.DecodeString\<close>) and of
  \<open>crypto/ecdh\<close> (\<open>X25519().NewPrivateKey\<close> and \<open>PublicKey\<close>, RFC 7748), both part of the
  standard library. A byte is a \<open>nat\<close> below 256.
\<close>

section \<open>Base64 without padding, URL alphabet\<close>

fun index_char :: "string \<Rightarrow> char \<Rightarrow> nat option" where
  "index_char [] c = None"
| "index_char (x # xs) c = (if x = c then Some 0 else map_option Suc (index_char xs c))"

definition b64_value :: "char \<Rightarrow> nat option" where
  "b64_value c = index_char url_alphabet c"

fun all_some :: "'a option list \<Rightarrow> 'a list option" where
  "all_some [] = Some []"
| "all_some (None # xs) = None"
| "all_some (Some x # xs) = map_option ((#) x) (all_some xs)"

text \<open>Four symbols make three bytes; a last group of one symbol is an error, and the spare bits of a
  last group are dropped.\<close>

fun b64_bytes :: "nat list \<Rightarrow> nat list option" where
  "b64_bytes [] = Some []"
| "b64_bytes [p] = None"
| "b64_bytes [p, q] = Some [p * 4 + q div 16]"
| "b64_bytes [p, q, r] = Some [p * 4 + q div 16, q mod 16 * 16 + r div 4]"
| "b64_bytes (p # q # r # s # vs) =
     map_option (\<lambda>bs. [p * 4 + q div 16, q mod 16 * 16 + r div 4, r mod 4 * 64 + s] @ bs) (b64_bytes vs)"

text \<open>The decoder skips line ends.\<close>

definition base64_decode :: "string \<Rightarrow> nat list option" where
  "base64_decode s =
     Option.bind (all_some (map b64_value (filter (\<lambda>c. c \<notin> {CHR 0x0A, CHR 0x0D}) s))) b64_bytes"

lemma index_char_nth: "distinct xs \<Longrightarrow> n < length xs \<Longrightarrow> index_char xs (xs ! n) = Some n"
  by (induction xs arbitrary: n) (auto simp: nth_Cons split: nat.split)

lemma b64_value_char [simp]: "b64_value (b64_char n) = Some (n mod 64)"
  unfolding b64_value_def b64_char_def
  by (rule index_char_nth) (simp_all add: url_alphabet_def)

lemma b64_char_graphic: "b64_char n \<notin> {CHR 0x0A, CHR 0x0D}"
proof -
  have "list_all (\<lambda>c. c \<notin> {CHR 0x0A, CHR 0x0D}) url_alphabet" by (simp add: url_alphabet_def)
  moreover have "n mod 64 < length url_alphabet" by (simp add: url_alphabet_def)
  ultimately show ?thesis unfolding b64_char_def list_all_length by blast
qed

lemma all_some_map_Some [simp]: "all_some (map (\<lambda>x. Some (f x)) xs) = Some (map f xs)"
  by (induction xs) auto

text \<open>Splitting and joining bits.\<close>

lemma mod_join: "k < m \<Longrightarrow> (x * m + k) mod (m * n) = (x mod n) * m + (k::nat)"
  by (simp add: mod_mult2_eq)

lemma join_64:
  "k < 16 \<Longrightarrow> (x * 16 + k) mod 64 = (x mod 4) * 16 + (k::nat)"
  "j < 4 \<Longrightarrow> (x * 4 + j) mod 64 = (x mod 16) * 4 + (j::nat)"
  using mod_join [of k 16 x 4] mod_join [of j 4 x 16] by simp_all

lemma join_64_zero: "(x * 16) mod 64 = (x mod 4) * (16::nat)" "(x * 4) mod 64 = (x mod 16) * (4::nat)"
  using join_64 [of 0 x] join_64(2) [of 0 x] by simp_all

lemma byte_parts: "(x::nat) < 256 \<Longrightarrow> x div 4 < 64" "(x::nat) < 256 \<Longrightarrow> x div 16 < 16"
    "(x::nat) < 256 \<Longrightarrow> x div 64 < 4"
  by simp_all

lemma b64_bytes_encode:
  "list_all (\<lambda>b. b < 256) bs \<Longrightarrow>
     Option.bind (all_some (map b64_value (base64_raw_url bs))) b64_bytes = Some bs"
proof (induction bs rule: base64_raw_url.induct)
  case (4 a b c bs)
  then obtain vs where vs: "all_some (map b64_value (base64_raw_url bs)) = Some vs" "b64_bytes vs = Some bs"
    by (auto simp: bind_eq_Some_conv)
  then show ?case
    using 4(2) byte_parts(1) [of a] byte_parts(2) [of b] byte_parts(3) [of c]
    by (simp add: join_64)
next
  case (3 a b)
  then show ?case
    using byte_parts(1) [of a] byte_parts(2) [of b] by (simp add: join_64 join_64_zero)
qed (simp_all add: join_64 join_64_zero)

lemma base64_raw_url_chars: "c \<in> set (base64_raw_url bs) \<Longrightarrow> \<exists>n. c = b64_char n"
  by (induction bs rule: base64_raw_url.induct) auto

lemma base64_decode_encode:
  assumes "list_all (\<lambda>b. b < 256) bs"
  shows "base64_decode (base64_raw_url bs) = Some bs"
proof -
  have "filter (\<lambda>c. c \<notin> {CHR 0x0A, CHR 0x0D}) (base64_raw_url bs) = base64_raw_url bs"
    by (rule filter_True) (use base64_raw_url_chars b64_char_graphic in fastforce)
  then show ?thesis using b64_bytes_encode [OF assms] by (simp add: base64_decode_def)
qed

section \<open>X25519\<close>

definition field_p :: int where
  "field_p = 2 ^ 255 - 19"

definition le_nat :: "nat list \<Rightarrow> nat" where
  "le_nat bs = foldr (\<lambda>b n. b + 256 * n) bs 0"

definition le_bytes :: "nat \<Rightarrow> nat \<Rightarrow> nat list" where
  "le_bytes k n = map (\<lambda>i. n div 256 ^ i mod 256) [0..<k]"

text \<open>The scalar is the key with its three low bits and its top bit cleared and bit 254 set.\<close>

definition clamped :: "nat list \<Rightarrow> nat" where
  "clamped key = le_nat key mod 2 ^ 254 div 8 * 8 + 2 ^ 254"

definition power_p :: "int \<Rightarrow> nat \<Rightarrow> int" where
  "power_p a n =
     foldl (\<lambda>r i. if odd (n div 2 ^ i) then r * r mod field_p * a mod field_p else r * r mod field_p)
       1 (rev [0..<255])"

text \<open>One step of the Montgomery ladder on \<open>(x2, z2)\<close> and \<open>(x3, z3)\<close> with base \<open>u\<close>.\<close>

definition ladder_step :: "int \<Rightarrow> (int \<times> int) \<times> (int \<times> int) \<Rightarrow> (int \<times> int) \<times> (int \<times> int)" where
  "ladder_step u pq =
     (let ((x2, z2), (x3, z3)) = pq;
          a = x2 + z2; b = x2 - z2; aa = a * a mod field_p; bb = b * b mod field_p; e = aa - bb;
          da = (x3 - z3) * a mod field_p; cb = (x3 + z3) * b mod field_p
      in ((aa * bb mod field_p, e * (aa + 121665 * e) mod field_p),
          ((da + cb) * (da + cb) mod field_p, u * ((da - cb) * (da - cb) mod field_p) mod field_p)))"

definition ladder_bit :: "nat \<Rightarrow> int \<Rightarrow> (int \<times> int) \<times> (int \<times> int) \<Rightarrow> nat \<Rightarrow> (int \<times> int) \<times> (int \<times> int)" where
  "ladder_bit k u pq i =
     (if odd (k div 2 ^ i) then prod.swap (ladder_step u (prod.swap pq)) else ladder_step u pq)"

definition x25519_public :: "nat list \<Rightarrow> nat list" where
  "x25519_public key =
     (let ((x, z), _) = foldl (ladder_bit (clamped key) 9) ((1, 0), (9, 1)) (rev [0..<255])
      in le_bytes 32 (nat (x * power_p z (nat (field_p - 2)) mod field_p)))"

end
