(* ===== verification/Expert.thy ===== *)
theory Expert
  imports Service Keys "HOL-Library.Word"
begin

text \<open>
  The expert editor of an account (\<open>internal/service/expert.go\<close>): the fields it reads from the stored
  documents, the checks of its input and the update of the documents. The text fields that hold JSON
  are given by the document their trimmed text denotes; their lengths, which the input check looks at,
  are an argument of their own. A number is what \<open>encoding/json\<close> decodes it to (a \<open>float64\<close>, here
  its exact value), so the \<open>json.Number\<close> and \<open>[]string\<close> cases of the readers, which no decoded
  document reaches, are left out.
\<close>

record ExpertConfig =
  x_Protocol :: string
  x_Method :: string
  x_Security :: string
  x_FallbacksJSON :: jtext
  x_AcceptProxyProtocol :: bool
  x_HTTPHeaderJSON :: jtext
  x_RealityTarget :: string
  x_RealityServerNames :: "string list"
  x_RealityPrivateKey :: string
  x_RealityPublicKey :: string
  x_RealityShortIDs :: "string list"
  x_RealityXver :: "64 word"
  x_RealityMinClientVer :: string
  x_RealityMaxClientVer :: string
  x_RealityMaxTimeDiff :: "64 word"
  x_RealityShow :: bool
  x_RealityMLDSA65Seed :: string
  x_TLSALPN :: "string list"
  x_TLSMinVersion :: string
  x_TLSMaxVersion :: string
  x_TLSCipherSuites :: string
  x_TLSRejectUnknownSNI :: bool
  x_TLSCertificatesJSON :: jtext
  x_XHTTPMode :: string
  x_XHTTPXPaddingBytes :: string
  x_XHTTPNoSSEHeader :: bool
  x_XHTTPScMaxBufferedPosts :: int
  x_XHTTPScMaxEachPostBytes :: string
  x_XHTTPScStreamUpServerSecs :: string
  x_XHTTPUplinkHTTPMethod :: string
  x_SupportsFallbacks :: bool
  x_SupportsHTTPHeader :: bool
  x_SupportsReality :: bool
  x_SupportsTLS :: bool
  x_SupportsXHTTP :: bool

text \<open>
  What the readers need of the outside: the text \<open>json.Marshal\<close> writes for a value, and what the
  conversion of \<open>2 ^ 64\<close>, which no \<open>uint64\<close> holds, gives on the machine.
\<close>

record Outside =
  ow_print :: "json \<Rightarrow> string"
  ow_huge :: "64 word"

section \<open>Members of map variables\<close>

definition gput :: "string \<Rightarrow> json \<Rightarrow> gomap \<Rightarrow> gomap res" where
  "gput k v g = bindR (writable g) (\<lambda>m. Inr (GoMap (fmupd k v m)))"

definition gdrop :: "string \<Rightarrow> gomap \<Rightarrow> gomap" where
  "gdrop k g = edit_map (fmdrop k) g"

text \<open>An object written back as a member, or the member dropped when the object is empty.\<close>

definition put_nonempty :: "string \<Rightarrow> object \<Rightarrow> gomap \<Rightarrow> gomap res" where
  "put_nonempty k x g = (if x = fmempty then Inr (gdrop k g) else gput k (JObj x) g)"

section \<open>Readers\<close>

definition expertUint :: "Outside \<Rightarrow> json \<Rightarrow> 64 word" where
  "expertUint ow v =
     (case v of
        JNum n \<Rightarrow> if 0 < n \<and> n \<le> 2 ^ 64 then (if n < 2 ^ 64 then word_of_int \<lfloor>n\<rfloor> else ow_huge ow) else 0
      | _ \<Rightarrow> 0)"

definition expertInt64 :: "Outside \<Rightarrow> json \<Rightarrow> int" where
  "expertInt64 ow v =
     (let u = expertUint ow v in if uint u > 2 ^ 63 - 1 then 2 ^ 63 - 1 else uint u)"

definition expertScalarString :: "Outside \<Rightarrow> json \<Rightarrow> string" where
  "expertScalarString ow v =
     (case v of JNull \<Rightarrow> [] | JStr s \<Rightarrow> s | _ \<Rightarrow> trim_space (ow_print ow v))"

definition cleanStrings :: "string list \<Rightarrow> string list" where
  "cleanStrings xs = filter (\<lambda>s. s \<noteq> []) (map trim_space xs)"

definition expertStringSlice :: "json \<Rightarrow> string list" where
  "expertStringSlice v =
     (case v of
        JArr xs \<Rightarrow> map trim_space (filter (\<lambda>s. trim_space s \<noteq> []) (List.map_filter as_string xs))
      | _ \<Rightarrow> [])"

definition setExpertString :: "string \<Rightarrow> string \<Rightarrow> object \<Rightarrow> object" where
  "setExpertString key val m =
     (let v = trim_space val in if v = [] then fmdrop key m else fmupd key (JStr v) m)"

definition setFlag :: "string \<Rightarrow> bool \<Rightarrow> object \<Rightarrow> object" where
  "setFlag key b m = (if b then fmupd key (JBool True) m else fmdrop key m)"

definition setCount :: "string \<Rightarrow> int \<Rightarrow> object \<Rightarrow> object" where
  "setCount key n m = (if n > 0 then fmupd key (JNum (of_int n)) m else fmdrop key m)"

definition setStrings :: "string \<Rightarrow> string list \<Rightarrow> object \<Rightarrow> object" where
  "setStrings key xs m = fmupd key (JArr (map JStr (cleanStrings xs))) m"

definition setList :: "string \<Rightarrow> string list \<Rightarrow> object \<Rightarrow> object" where
  "setList key xs m = (if xs \<noteq> [] then setStrings key xs m else fmdrop key m)"

definition setArray :: "string \<Rightarrow> json list \<Rightarrow> object \<Rightarrow> object" where
  "setArray key vs m = (if vs \<noteq> [] then fmupd key (JArr vs) m else fmdrop key m)"

text \<open>The fields that an empty input leaves as they are stored.\<close>

definition keepString :: "string \<Rightarrow> string \<Rightarrow> object \<Rightarrow> object" where
  "keepString key val m = (if trim_space val \<noteq> [] then fmupd key (JStr (trim_space val)) m else m)"

definition keepStrings :: "string \<Rightarrow> string list \<Rightarrow> object \<Rightarrow> object" where
  "keepStrings key xs m = (if xs \<noteq> [] then setStrings key xs m else m)"

definition keepTarget :: "string \<Rightarrow> object \<Rightarrow> object" where
  "keepTarget val m =
     (if trim_space val \<noteq> [] then fmdrop ''dest'' (fmupd ''target'' (JStr (trim_space val)) m) else m)"

definition expertActiveTransportKeys :: "string \<Rightarrow> object \<Rightarrow> string list" where
  "expertActiveTransportKeys method stream =
     (if method = ''raw'' then [expertRawKey stream]
      else if method = ''xhttp'' then [expertXHTTPKey stream]
      else if method = ''websocket'' then [''wsSettings'']
      else if method = ''httpupgrade'' then [''httpupgradeSettings'']
      else if method = ''grpc'' then [''grpcSettings'']
      else [])"

definition expertSecurity :: "object \<Rightarrow> string" where
  "expertSecurity stream =
     (let s = to_lower (trim_space (expertString (mget stream ''security'')))
      in if s = [] then ''none'' else s)"

definition parseExpertArray :: "jtext \<Rightarrow> string \<Rightarrow> json list res" where
  "parseExpertArray t label =
     (case t of
        Blank \<Rightarrow> Inr []
      | Doc JNull \<Rightarrow> Inr []
      | Doc (JArr xs) \<Rightarrow> Inr xs
      | Doc v \<Rightarrow> Inl (Errorf ''%s must be a JSON array: %w'' [label] [ErrNew ''json: cannot unmarshal into Go value of type []interface {}''])
      | Bad \<Rightarrow> Inl (Errorf ''%s must be a JSON array: %w'' [label] [ErrNew ''invalid character'']))"

definition parseExpertObject :: "jtext \<Rightarrow> string \<Rightarrow> (object \<times> bool) res" where
  "parseExpertObject t label =
     (case t of
        Blank \<Rightarrow> Inr (fmempty, False)
      | Doc JNull \<Rightarrow> Inr (fmempty, False)
      | Doc (JObj m) \<Rightarrow> Inr (m, m \<noteq> fmempty)
      | Doc v \<Rightarrow> Inl (Errorf ''%s must be a JSON object: %w'' [label] [ErrNew ''json: cannot unmarshal into Go value of type map''])
      | Bad \<Rightarrow> Inl (Errorf ''%s must be a JSON object: %w'' [label] [ErrNew ''invalid character'']))"

text \<open>\<open>json.MarshalIndent\<close> of a decoded value does not fail.\<close>

definition indentJSON :: "json \<Rightarrow> jtext" where
  "indentJSON v = Doc v"

definition deriveRealityPublicKey :: "string \<Rightarrow> string res" where
  "deriveRealityPublicKey privateKey =
     (let k = trim_space privateKey in
      if k = [] then Inr []
      else case base64_decode k of
          None \<Rightarrow> Inl (ErrNew ''invalid REALITY private key'')
        | Some bs \<Rightarrow>
            if length bs \<noteq> 32 then Inl (ErrNew ''invalid REALITY private key'')
            else Inr (base64_raw_url (x25519_public bs)))"

section \<open>Checking the input\<close>

definition control_chars :: "string \<Rightarrow> bool" where
  "control_chars s \<longleftrightarrow> CHR 0x00 \<in> set s \<or> contains_any s [CHR 0x0D, CHR 0x0A]"

definition expert_checks :: "ExpertConfig \<Rightarrow> (string \<times> string \<times> nat) list" where
  "expert_checks inp =
     [(''REALITY target'', x_RealityTarget inp, 1024), (''REALITY private key'', x_RealityPrivateKey inp, 256),
      (''REALITY min client version'', x_RealityMinClientVer inp, 128),
      (''REALITY max client version'', x_RealityMaxClientVer inp, 128),
      (''REALITY ML-DSA seed'', x_RealityMLDSA65Seed inp, 4096), (''TLS min version'', x_TLSMinVersion inp, 64),
      (''TLS max version'', x_TLSMaxVersion inp, 64), (''TLS cipher suites'', x_TLSCipherSuites inp, 4096),
      (''XHTTP mode'', x_XHTTPMode inp, 64), (''XHTTP padding'', x_XHTTPXPaddingBytes inp, 256),
      (''XHTTP each-post bytes'', x_XHTTPScMaxEachPostBytes inp, 256),
      (''XHTTP stream-up seconds'', x_XHTTPScStreamUpServerSecs inp, 256),
      (''XHTTP uplink method'', x_XHTTPUplinkHTTPMethod inp, 32)]"

fun check_texts :: "(string \<times> string \<times> nat) list \<Rightarrow> unit res" where
  "check_texts [] = Inr ()"
| "check_texts ((name, val, mx) # cs) =
     (if length val > mx then Inl (Errorf ''%s is too long'' [name] [])
      else if control_chars val then Inl (Errorf ''%s contains invalid control characters'' [name] [])
      else check_texts cs)"

text \<open>The lengths of the texts of the fallbacks, of the header and of the certificates.\<close>

record Lengths =
  len_Fallbacks :: nat
  len_HTTPHeader :: nat
  len_TLSCertificates :: nat

definition validateExpertConfig :: "Lengths \<Rightarrow> ExpertConfig \<Rightarrow> unit res" where
  "validateExpertConfig ls inp =
     bindR (guardR (len_Fallbacks ls \<le> 128 * 2 ^ 10) (ErrNew ''fallbacks JSON is too large'')) (\<lambda>_.
     bindR (guardR (len_HTTPHeader ls \<le> 64 * 2 ^ 10) (ErrNew ''HTTP camouflage header JSON is too large'')) (\<lambda>_.
     bindR (guardR (len_TLSCertificates ls \<le> 256 * 2 ^ 10) (ErrNew ''TLS certificates JSON is too large'')) (\<lambda>_.
     bindR (guardR (length (x_RealityServerNames inp) \<le> 64 \<and> length (x_RealityShortIDs inp) \<le> 64 \<and>
                    length (x_TLSALPN inp) \<le> 64) (ErrNew ''expert list contains too many entries'')) (\<lambda>_.
     bindR (check_texts (expert_checks inp)) (\<lambda>_.
     bindR (guardR (list_all (\<lambda>v. length v \<le> 1024 \<and> \<not> control_chars v)
                      (x_RealityServerNames inp @ x_RealityShortIDs inp @ x_TLSALPN inp))
              (ErrNew ''expert list entry is invalid'')) (\<lambda>_.
     bindR (guardR (x_RealityXver inp \<le> 2) (ErrNew ''REALITY xver must be between 0 and 2'')) (\<lambda>_.
     guardR (0 \<le> x_XHTTPScMaxBufferedPosts inp) (ErrNew ''XHTTP scMaxBufferedPosts must not be negative''))))))))"

section \<open>Parts of the update\<close>

text \<open>Shared with the older editor of \<open>advanced.go\<close>: the copies of the PROXY flag in the transports go,
  and the flag itself is written to \<open>sockopt\<close>.\<close>

definition drop_proxy_copy :: "string \<Rightarrow> object \<Rightarrow> object" where
  "drop_proxy_copy key stream =
     (case mget stream key of
        JObj x \<Rightarrow> fmupd key (JObj (fmdrop ''acceptProxyProtocol'' x)) stream
      | _ \<Rightarrow> stream)"

definition sockopt_edit :: "bool \<Rightarrow> gomap \<Rightarrow> gomap res" where
  "sockopt_edit accept stream =
     (let sockopt = expertObject (entries_of stream) ''sockopt'' in
      if accept then gput ''sockopt'' (JObj (fmupd ''acceptProxyProtocol'' (JBool True) sockopt)) stream
      else put_nonempty ''sockopt'' (fmdrop ''acceptProxyProtocol'' sockopt) stream)"

definition expert_fallbacks :: "string \<Rightarrow> string \<Rightarrow> string \<Rightarrow> json list \<Rightarrow> gomap \<Rightarrow> gomap res" where
  "expert_fallbacks protocol method security fallbacks settings =
     (if fallbacks = [] then Inr (gdrop ''fallbacks'' settings)
      else if protocol \<noteq> ''vless'' \<and> protocol \<noteq> ''trojan''
      then Inl (ErrNew ''fallbacks are supported only for VLESS or Trojan'')
      else if method \<noteq> ''raw'' \<or> security \<noteq> ''tls''
      then Inl (ErrNew ''fallbacks require RAW/TCP transport with TLS'')
      else gput ''fallbacks'' (JArr fallbacks) settings)"

definition camouflage :: "object \<Rightarrow> bool" where
  "camouflage header \<longleftrightarrow> to_lower (trim_space (expertString (mget header ''type''))) \<in> {''none'', ''http''}"

definition expert_header :: "string \<Rightarrow> object \<times> bool \<Rightarrow> gomap \<Rightarrow> gomap res" where
  "expert_header method hdr stream =
     (if snd hdr \<and> method \<noteq> ''raw''
      then Inl (ErrNew ''HTTP camouflage header requires RAW/TCP transport'')
      else if method = ''raw'' then
        (let key = expertRawKey (entries_of stream); x = expertObject (entries_of stream) key in
         if snd hdr then
           (if camouflage (fst hdr) then put_nonempty key (fmupd ''header'' (JObj (fst hdr)) x) stream
            else Inl (ErrNew ''HTTP camouflage header type must be none or http''))
         else put_nonempty key (fmdrop ''header'' x) stream)
      else Inr stream)"

definition reality_edit :: "ExpertConfig \<Rightarrow> object \<Rightarrow> object" where
  "reality_edit inp r0 =
     (let r1 = keepTarget (x_RealityTarget inp) r0;
          r2 = keepStrings ''serverNames'' (x_RealityServerNames inp) r1;
          r3 = keepString ''privateKey'' (x_RealityPrivateKey inp) r2;
          r4 = keepStrings ''shortIds'' (x_RealityShortIDs inp) r3;
          r5 = fmupd ''xver'' (JNum (of_int (uint (x_RealityXver inp)))) r4;
          r6 = setExpertString ''minClientVer'' (x_RealityMinClientVer inp) r5;
          r7 = setExpertString ''maxClientVer'' (x_RealityMaxClientVer inp) r6;
          r8 = setCount ''maxTimeDiff'' (uint (x_RealityMaxTimeDiff inp)) r7;
          r9 = setFlag ''show'' (x_RealityShow inp) r8
      in setExpertString ''mldsa65Seed'' (x_RealityMLDSA65Seed inp) r9)"

definition expert_reality :: "string \<Rightarrow> ExpertConfig \<Rightarrow> gomap \<Rightarrow> gomap res" where
  "expert_reality security inp stream =
     (if security \<noteq> ''reality'' then Inr stream
      else bindR (if trim_space (x_RealityPrivateKey inp) \<noteq> []
                  then deriveRealityPublicKey (x_RealityPrivateKey inp) else Inr []) (\<lambda>_.
        gput ''realitySettings'' (JObj (reality_edit inp (expertObject (entries_of stream) ''realitySettings''))) stream))"

definition tls_edit :: "ExpertConfig \<Rightarrow> json list \<Rightarrow> object \<Rightarrow> object" where
  "tls_edit inp certs t0 =
     (let t1 = setList ''alpn'' (x_TLSALPN inp) t0;
          t2 = setExpertString ''minVersion'' (x_TLSMinVersion inp) t1;
          t3 = setExpertString ''maxVersion'' (x_TLSMaxVersion inp) t2;
          t4 = setExpertString ''cipherSuites'' (x_TLSCipherSuites inp) t3;
          t5 = setFlag ''rejectUnknownSni'' (x_TLSRejectUnknownSNI inp) t4
      in setArray ''certificates'' certs t5)"

definition expert_tls :: "string \<Rightarrow> ExpertConfig \<Rightarrow> gomap \<Rightarrow> gomap res" where
  "expert_tls security inp stream =
     (if security \<noteq> ''tls'' then Inr stream
      else bindR (parseExpertArray (x_TLSCertificatesJSON inp) ''TLS certificates'') (\<lambda>certs.
        gput ''tlsSettings'' (JObj (tls_edit inp certs (expertObject (entries_of stream) ''tlsSettings''))) stream))"

definition xhttp_edit :: "ExpertConfig \<Rightarrow> object \<Rightarrow> object" where
  "xhttp_edit inp e0 =
     (let e1 = setExpertString ''xPaddingBytes'' (x_XHTTPXPaddingBytes inp) e0;
          e2 = setFlag ''noSSEHeader'' (x_XHTTPNoSSEHeader inp) e1;
          e3 = setCount ''scMaxBufferedPosts'' (x_XHTTPScMaxBufferedPosts inp) e2;
          e4 = setExpertString ''scMaxEachPostBytes'' (x_XHTTPScMaxEachPostBytes inp) e3;
          e5 = setExpertString ''scStreamUpServerSecs'' (x_XHTTPScStreamUpServerSecs inp) e4
      in setExpertString ''uplinkHTTPMethod'' (to_upper (trim_space (x_XHTTPUplinkHTTPMethod inp))) e5)"

text \<open>\<open>extra\<close> is the same map as the member, so it is edited in place.\<close>

definition xhttp_object :: "ExpertConfig \<Rightarrow> object \<Rightarrow> object" where
  "xhttp_object inp x0 =
     (let x1 = setExpertString ''mode'' (trim_space (x_XHTTPMode inp)) x0 in
      case mget x0 ''extra'' of
        JObj extra \<Rightarrow> fmupd ''extra'' (JObj (xhttp_edit inp extra)) x1
      | _ \<Rightarrow> xhttp_edit inp x1)"

definition xhttp_modes :: "string list" where
  "xhttp_modes = [[], ''auto'', ''packet-up'', ''stream-up'', ''stream-one'']"

definition expert_xhttp :: "string \<Rightarrow> ExpertConfig \<Rightarrow> gomap \<Rightarrow> gomap res" where
  "expert_xhttp method inp stream =
     (if method \<noteq> ''xhttp'' then Inr stream
      else if trim_space (x_XHTTPMode inp) \<notin> set xhttp_modes
      then Inl (Errorf ''unsupported XHTTP mode %q'' [trim_space (x_XHTTPMode inp)] [])
      else let key = expertXHTTPKey (entries_of stream) in
        gput key (JObj (xhttp_object inp (expertObject (entries_of stream) key))) stream)"

section \<open>The update\<close>

definition expertEdit :: "int \<Rightarrow> ExpertConfig \<Rightarrow> Account \<Rightarrow> Account res" where
  "expertEdit now inp a =
     bindR (expertMaps a) (\<lambda>(settings0, stream0).
       (let protocol = to_lower (trim_space (a_Protocol a));
            method = expertMethod (entries_of stream0) protocol;
            security = expertSecurity (entries_of stream0) in
        bindR (parseExpertArray (x_FallbacksJSON inp) ''fallbacks'') (\<lambda>fallbacks.
        bindR (expert_fallbacks protocol method security fallbacks settings0) (\<lambda>settings.
        bindR (sockopt_edit (x_AcceptProxyProtocol inp)
                 (edit_map (fold drop_proxy_copy (expertActiveTransportKeys method (entries_of stream0))) stream0)) (\<lambda>s1.
        bindR (parseExpertObject (x_HTTPHeaderJSON inp) ''HTTP camouflage header'') (\<lambda>hdr.
        bindR (expert_header method hdr s1) (\<lambda>s2.
        bindR (expert_reality security inp s2) (\<lambda>s3.
        bindR (expert_tls security inp s3) (\<lambda>s4.
        bindR (expert_xhttp method inp s4) (\<lambda>s5.
          Inr (a\<lparr>a_SettingsJSON := marshal_map settings, a_StreamSettingsJSON := marshal_map s5,
                a_UpdatedAt := now\<rparr>)))))))))))"

text \<open>One account is edited in its place; the answer is then read back by its id.\<close>

definition editStep :: "(Account \<Rightarrow> Account res) \<Rightarrow> int \<Rightarrow> Db \<Rightarrow> Account list \<Rightarrow> (Account list \<times> unit) res" where
  "editStep edit i db old =
     (case indexID old i of
        None \<Rightarrow> Inl (ErrNew ''account not found'')
      | Some idx \<Rightarrow> bindR (edit (old ! idx)) (\<lambda>a. Inr (old[idx := a], ())))"

definition reread :: "Engine \<Rightarrow> int \<Rightarrow> (Account \<Rightarrow> 'v res) \<Rightarrow> unit res \<times> Db \<times> 'x \<Rightarrow> 'v res \<times> Db \<times> 'x" where
  "reread eng i view rw =
     (bindR (fst rw) (\<lambda>_. bindR (raw eng (fst (snd rw)) i) view), snd rw)"

section \<open>The view\<close>

definition expert_accepts :: "string list \<Rightarrow> object \<Rightarrow> bool" where
  "expert_accepts keys stream \<longleftrightarrow>
     (case mget stream ''sockopt'' of JObj s \<Rightarrow> expertBool (mget s ''acceptProxyProtocol'') | _ \<Rightarrow> False) \<or>
     list_ex (\<lambda>key. case mget stream key of JObj x \<Rightarrow> expertBool (mget x ''acceptProxyProtocol'') | _ \<Rightarrow> False) keys"

definition text_of_member :: "object \<Rightarrow> string \<Rightarrow> jtext \<Rightarrow> jtext" where
  "text_of_member m key absent = (case fmlookup m key of Some v \<Rightarrow> indentJSON v | None \<Rightarrow> absent)"

definition empty_array :: jtext where
  "empty_array = Doc (JArr [])"

definition zeroExpert :: ExpertConfig where
  "zeroExpert =
     \<lparr>x_Protocol = [], x_Method = [], x_Security = [], x_FallbacksJSON = Blank, x_AcceptProxyProtocol = False,
      x_HTTPHeaderJSON = Blank, x_RealityTarget = [], x_RealityServerNames = [], x_RealityPrivateKey = [],
      x_RealityPublicKey = [], x_RealityShortIDs = [], x_RealityXver = 0, x_RealityMinClientVer = [],
      x_RealityMaxClientVer = [], x_RealityMaxTimeDiff = 0, x_RealityShow = False, x_RealityMLDSA65Seed = [],
      x_TLSALPN = [], x_TLSMinVersion = [], x_TLSMaxVersion = [], x_TLSCipherSuites = [],
      x_TLSRejectUnknownSNI = False, x_TLSCertificatesJSON = Blank, x_XHTTPMode = [], x_XHTTPXPaddingBytes = [],
      x_XHTTPNoSSEHeader = False, x_XHTTPScMaxBufferedPosts = 0, x_XHTTPScMaxEachPostBytes = [],
      x_XHTTPScStreamUpServerSecs = [], x_XHTTPUplinkHTTPMethod = [], x_SupportsFallbacks = False,
      x_SupportsHTTPHeader = False, x_SupportsReality = False, x_SupportsTLS = False, x_SupportsXHTTP = False\<rparr>"

definition view_reality :: "Outside \<Rightarrow> object \<Rightarrow> ExpertConfig \<Rightarrow> ExpertConfig" where
  "view_reality ow r out =
     out\<lparr>x_RealityTarget := expertFirstString [mget r ''target'', mget r ''dest''],
         x_RealityServerNames := expertStringSlice (mget r ''serverNames''),
         x_RealityPrivateKey := expertString (mget r ''privateKey''),
         x_RealityPublicKey := (case deriveRealityPublicKey (expertString (mget r ''privateKey'')) of
                                  Inl e \<Rightarrow> [] | Inr k \<Rightarrow> k),
         x_RealityShortIDs := expertStringSlice (mget r ''shortIds''),
         x_RealityXver := expertUint ow (mget r ''xver''),
         x_RealityMinClientVer := expertString (mget r ''minClientVer''),
         x_RealityMaxClientVer := expertString (mget r ''maxClientVer''),
         x_RealityMaxTimeDiff := expertUint ow (mget r ''maxTimeDiff''),
         x_RealityShow := expertBool (mget r ''show''),
         x_RealityMLDSA65Seed := expertString (mget r ''mldsa65Seed'')\<rparr>"

definition view_tls :: "object \<Rightarrow> ExpertConfig \<Rightarrow> ExpertConfig" where
  "view_tls t out =
     out\<lparr>x_TLSALPN := expertStringSlice (mget t ''alpn''),
         x_TLSMinVersion := expertString (mget t ''minVersion''),
         x_TLSMaxVersion := expertString (mget t ''maxVersion''),
         x_TLSCipherSuites := expertString (mget t ''cipherSuites''),
         x_TLSRejectUnknownSNI := expertBool (mget t ''rejectUnknownSni''),
         x_TLSCertificatesJSON := text_of_member t ''certificates'' empty_array\<rparr>"

definition view_xhttp :: "Outside \<Rightarrow> object \<Rightarrow> ExpertConfig \<Rightarrow> ExpertConfig" where
  "view_xhttp ow x out =
     (let target = (case mget x ''extra'' of JObj extra \<Rightarrow> extra | _ \<Rightarrow> x) in
      out\<lparr>x_XHTTPMode := expertString (mget x ''mode''),
          x_XHTTPXPaddingBytes := expertScalarString ow (mget target ''xPaddingBytes''),
          x_XHTTPNoSSEHeader := expertBool (mget target ''noSSEHeader''),
          x_XHTTPScMaxBufferedPosts := expertInt64 ow (mget target ''scMaxBufferedPosts''),
          x_XHTTPScMaxEachPostBytes := expertScalarString ow (mget target ''scMaxEachPostBytes''),
          x_XHTTPScStreamUpServerSecs := expertScalarString ow (mget target ''scStreamUpServerSecs''),
          x_XHTTPUplinkHTTPMethod := expertString (mget target ''uplinkHTTPMethod'')\<rparr>)"

definition view_common :: "string \<Rightarrow> string \<Rightarrow> string \<Rightarrow> object \<Rightarrow> object \<Rightarrow> ExpertConfig" where
  "view_common protocol method security settings stream =
     zeroExpert\<lparr>x_Protocol := protocol, x_Method := method, x_Security := security,
       x_SupportsFallbacks := (protocol = ''vless'' \<or> protocol = ''trojan'') \<and> method = ''raw'' \<and> security = ''tls'',
       x_SupportsHTTPHeader := (method = ''raw''), x_SupportsReality := (security = ''reality''),
       x_SupportsTLS := (security = ''tls''), x_SupportsXHTTP := (method = ''xhttp''),
       x_FallbacksJSON := text_of_member settings ''fallbacks'' empty_array,
       x_AcceptProxyProtocol := expert_accepts (expertActiveTransportKeys method stream) stream,
       x_HTTPHeaderJSON := (if method = ''raw''
         then text_of_member (expertObject stream (expertRawKey stream)) ''header'' Blank else Blank)\<rparr>"

definition expert_fields :: "Outside \<Rightarrow> string \<Rightarrow> object \<Rightarrow> object \<Rightarrow> ExpertConfig" where
  "expert_fields ow protocol settings stream =
     (let method = expertMethod stream protocol; security = expertSecurity stream;
          o1 = view_common protocol method security settings stream;
          o2 = (if security = ''reality'' then view_reality ow (expertObject stream ''realitySettings'') o1 else o1);
          o3 = (if security = ''tls'' then view_tls (expertObject stream ''tlsSettings'') o2 else o2)
      in if method = ''xhttp'' then view_xhttp ow (expertObject stream (expertXHTTPKey stream)) o3 else o3)"

definition expertView :: "Outside \<Rightarrow> Account \<Rightarrow> ExpertConfig res" where
  "expertView ow a =
     bindR (expertMaps a) (\<lambda>(settings, stream).
       Inr (expert_fields ow (to_lower (trim_space (a_Protocol a))) (entries_of settings) (entries_of stream)))"

definition ExpertOf :: "Outside \<Rightarrow> Engine \<Rightarrow> Db \<Rightarrow> int \<Rightarrow> ExpertConfig res" where
  "ExpertOf ow eng db i = bindR (raw eng db i) (expertView ow)"

definition UpdateExpert ::
    "Outside \<Rightarrow> Env \<Rightarrow> 'x applier option \<Rightarrow> int \<Rightarrow> Lengths \<Rightarrow> ExpertConfig \<Rightarrow> Db \<times> 'x \<Rightarrow>
     ExpertConfig res \<times> Db \<times> 'x" where
  "UpdateExpert ow env applier i ls inp w =
     (case validateExpertConfig ls inp of
        Inl e \<Rightarrow> (Inl e, w)
      | Inr _ \<Rightarrow> reread (e_eng env) i (expertView ow)
                   (changeDb env applier (editStep (expertEdit (e_now env) inp) i) w))"

end
