(* ===== verification/PanelPath.thy ===== *)
theory PanelPath
  imports Address
begin

text \<open>
  The base path of the panel: its canonical form (\<open>internal/panelpath/path.go\<close>) and the mount of an
  imported entry URL (\<open>internal/server/basepath.go\<close>).
\<close>

section \<open>Canonical paths\<close>

definition slash :: string where
  "slash = ''/''"

definition Normalize :: "string \<Rightarrow> string" where
  "Normalize v =
     (let v = trim_space v in
      if v = [] \<or> v = slash then slash else slash @ trim_set slash v @ slash)"

definition ValidPath :: "string \<Rightarrow> bool" where
  "ValidPath v \<longleftrightarrow>
     v = slash \<or>
     has_prefix v slash \<and> has_suffix v slash \<and>
     \<not> contains_any v [CHR ''?'', CHR ''#'', CHR 0x5C, CHR 0x09, CHR 0x0D, CHR 0x0A, CHR '' ''] \<and>
     list_all (\<lambda>part. part \<noteq> [] \<and> part \<noteq> ''.'' \<and> part \<noteq> ''..'') (split_on (CHR ''/'') (trim_set slash v))"

section \<open>The mount\<close>

datatype mounted = Redirect string | Serve string

definition MountBasePath :: "string \<Rightarrow> string \<Rightarrow> mounted" where
  "MountBasePath base path =
     (let base = Normalize base in
      if base = slash then Serve path
      else if path = trim_suffix base slash then Redirect base
      else if has_prefix path base then
        (let p = slash @ trim_prefix path base in Serve (if p = ''//'' then slash else p))
      else Serve path)"

section \<open>Laws\<close>

lemma slash_ends:
  "trim_space (slash @ t @ slash) = slash @ t @ slash" "slash @ t @ slash \<noteq> slash"
  by (rule trim_space_graphic; simp add: slash_def graphic_def) (simp add: slash_def)

lemma dropWhile_stop: "s = [] \<or> \<not> P (hd s) \<Longrightarrow> dropWhile P s = s"
  by (cases s) auto

lemma trim_set_ends:
  assumes "\<forall>c \<in> set cs. t = [] \<or> hd t \<noteq> c" "\<forall>c \<in> set cs. t = [] \<or> last t \<noteq> c" "set a \<subseteq> set cs" "set b \<subseteq> set cs"
  shows "trim_set cs (a @ t @ b) = t"
proof (cases "t = []")
  case True
  have all: "dropWhile (\<lambda>c. c \<in> set cs) (a @ b) = []"
    unfolding dropWhile_eq_Nil_conv using assms(3,4) by auto
  show ?thesis unfolding trim_set_def True append_Nil all by simp
next
  case False
  have "dropWhile (\<lambda>c. c \<in> set cs) (a @ t @ b) = t @ b"
    using assms False by (subst dropWhile_append2) (auto intro!: dropWhile_stop)
  moreover have "dropWhile (\<lambda>c. c \<in> set cs) (rev b @ rev t) = rev t"
    using assms False by (subst dropWhile_append2) (auto intro!: dropWhile_stop simp: hd_rev)
  ultimately show ?thesis by (simp add: trim_set_def)
qed

lemma trim_set_bounds:
  assumes "t = trim_set cs s" "t \<noteq> []" "c \<in> set cs"
  shows "hd t \<noteq> c" "last t \<noteq> c"
proof -
  let ?d = "dropWhile (\<lambda>c. c \<in> set cs)"
  have t: "rev t = ?d (rev (?d s))" using assms(1) by (simp add: trim_set_def)
  have "?d (rev (?d s)) \<noteq> []" using t assms(2) by (metis rev_is_Nil_conv)
  from hd_dropWhile [OF this] have "hd (rev t) \<notin> set cs" by (simp only: t) simp
  then show "last t \<noteq> c" using assms(2,3) by (auto simp: hd_rev)
  obtain p where "rev (?d s) = p @ rev t" using t by (metis takeWhile_dropWhile_id)
  then have d: "?d s = t @ rev p" by (metis rev_append rev_rev_ident)
  then have ne: "?d s \<noteq> []" and hd: "hd (?d s) = hd t" using assms(2) by (simp_all only:) simp_all
  from hd_dropWhile [OF ne] show "hd t \<noteq> c" using assms(3) hd by auto
qed

lemma Normalize_idem [simp]: "Normalize (Normalize v) = Normalize v"
proof (cases "trim_space v = [] \<or> trim_space v = slash")
  case True
  have "trim_space slash = slash" by (rule trim_space_graphic) (simp_all add: slash_def graphic_def)
  then show ?thesis using True by (simp add: Normalize_def)
next
  case False
  define t where "t = trim_set slash (trim_space v)"
  have n: "Normalize v = slash @ t @ slash" using False by (simp add: Normalize_def t_def Let_def)
  have "trim_set slash (slash @ t @ slash) = t"
    by (rule trim_set_ends) (use trim_set_bounds [OF t_def] in auto)
  then show ?thesis unfolding n using slash_ends [of t] by (simp add: Normalize_def Let_def)
qed

lemma Normalize_ends: "has_prefix (Normalize v) slash" "has_suffix (Normalize v) slash"
  unfolding has_prefix_append has_suffix_append
  by (cases "trim_space v = [] \<or> trim_space v = slash"; auto simp: Normalize_def Let_def)+

text \<open>Below the mount every path is served as it is without one.\<close>

lemma mounted_below:
  assumes "Normalize base \<noteq> slash" "path \<noteq> slash"
  shows "MountBasePath base (trim_suffix (Normalize base) slash @ slash @ path) =
    Serve (slash @ path)"
proof -
  obtain b where b: "Normalize base = b @ slash"
    using Normalize_ends(2) [of base] by (auto simp: has_suffix_append)
  then have "trim_suffix (Normalize base) slash = b" by (simp add: trim_suffix_def has_suffix_def has_prefix_def slash_def)
  with b show ?thesis using assms
    by (simp add: MountBasePath_def Let_def slash_def has_prefix_append trim_prefix_def)
qed

end
