(* ===== verification/Settings.thy ===== *)
theory Settings
  imports Login Expert PanelPath
begin

text \<open>
  The settings of the panel (\<open>getSettings\<close> and \<open>updateSettings\<close> of \<open>internal/server/operations.go\<close>).
  A change is checked, the Xray configuration is given the new API port, the settings and the
  administrator are written in one transaction, the port is put back when that fails, and after a change
  of the administrator all sessions but the caller's new one are gone.

  What the request meets outside the database is the record \<open>Meeting\<close>: the clock, the keys' order of
  the transaction, the random bytes of a token, \<open>bcrypt\<close>'s new hash and the certificate loader. The Xray
  manager, when there is one, is a state \<open>'m\<close> with its operation \<open>ApplyWithAPIPort\<close>.
\<close>

section \<open>Input and view\<close>

record settingsInput =
  si_PanelListen :: string
  si_PanelBasePath :: string
  si_PanelCertFile :: string
  si_PanelKeyFile :: string
  si_PanelDomain :: string
  si_XrayAPIPort :: int
  si_PortMin :: int
  si_PortMax :: int
  si_DefaultRealitySNI :: string
  si_DefaultRealityDest :: string
  si_AdminUsername :: string
  si_CurrentPassword :: string
  si_NewPassword :: string

record settingsView =
  sv_PanelListen :: string
  sv_PanelBasePath :: string
  sv_PanelCertFile :: string
  sv_PanelKeyFile :: string
  sv_PanelDomain :: string
  sv_PanelTLS :: bool
  sv_XrayAPIPort :: int
  sv_PortMin :: int
  sv_PortMax :: int
  sv_DefaultRealitySNI :: string
  sv_DefaultRealityDest :: string
  sv_AdminUsername :: string

record Meeting =
  me_seen :: int
  me_saved :: int
  me_create :: int
  me_order :: "string list"
  me_random :: "nat list option"
  me_hash :: "string \<Rightarrow> string res"
  me_pair :: "string \<Rightarrow> string \<Rightarrow> unit res"

definition settingIntServer :: "Engine \<Rightarrow> string \<Rightarrow> int \<Rightarrow> Db \<Rightarrow> int" where
  "settingIntServer eng key fallback db =
     (let v = settingString eng key [] db in
      if v = [] then fallback else case atoi v of None \<Rightarrow> fallback | Some n \<Rightarrow> n)"

definition settings_view :: "Engine \<Rightarrow> Db \<Rightarrow> string \<Rightarrow> settingsView" where
  "settings_view eng db username =
     (let cert = settingString eng ''panel_cert_file'' [] db; key = settingString eng ''panel_key_file'' [] db in
      \<lparr>sv_PanelListen = settingString eng ''panel_listen'' ''127.0.0.1:8080'' db,
       sv_PanelBasePath = Normalize (settingString eng ''panel_base_path'' ''/'' db),
       sv_PanelCertFile = cert, sv_PanelKeyFile = key,
       sv_PanelDomain = settingString eng ''panel_domain'' [] db, sv_PanelTLS = (cert \<noteq> [] \<and> key \<noteq> []),
       sv_XrayAPIPort = settingIntServer eng ''xray_api_port'' 10085 db,
       sv_PortMin = settingIntServer eng ''port_min'' 20000 db,
       sv_PortMax = settingIntServer eng ''port_max'' 60000 db,
       sv_DefaultRealitySNI = settingString eng ''default_reality_sni'' [] db,
       sv_DefaultRealityDest = settingString eng ''default_reality_dest'' [] db,
       sv_AdminUsername = username\<rparr>)"

definition getSettings :: "Engine \<Rightarrow> int \<Rightarrow> Req \<Rightarrow> Db \<Rightarrow> Sessions \<Rightarrow> settingsView answer \<times> Sessions" where
  "getSettings eng now r db ss =
     (case sessionUsername now r ss of
        (None, ss1) \<Rightarrow> (Refused 401 (ErrNew ''unauthorized''), ss1)
      | (Some username, ss1) \<Rightarrow> (Answered 200 (settings_view eng db username), ss1))"

section \<open>Checks\<close>

type_synonym refusal = "int \<times> err"

definition thenS :: "'e + 'a \<Rightarrow> ('a \<Rightarrow> 'e + 'b) \<Rightarrow> 'e + 'b" where
  "thenS r f = (case r of Inl e \<Rightarrow> Inl e | Inr v \<Rightarrow> f v)"

definition demand :: "bool \<Rightarrow> int \<Rightarrow> err \<Rightarrow> refusal + unit" where
  "demand ok code e = (if ok then Inr () else Inl (code, e))"

definition coded :: "int \<Rightarrow> (err \<Rightarrow> err) \<Rightarrow> 'a res \<Rightarrow> refusal + 'a" where
  "coded code f r = (case r of Inl e \<Rightarrow> Inl (code, f e) | Inr v \<Rightarrow> Inr v)"

definition trimmed_settings :: "settingsInput \<Rightarrow> settingsInput" where
  "trimmed_settings i = i\<lparr>
     si_AdminUsername := trim_space (si_AdminUsername i), si_PanelListen := trim_space (si_PanelListen i),
     si_PanelBasePath := Normalize (si_PanelBasePath i), si_PanelCertFile := trim_space (si_PanelCertFile i),
     si_PanelKeyFile := trim_space (si_PanelKeyFile i), si_PanelDomain := trim_space (si_PanelDomain i)\<rparr>"

definition settings_texts :: "settingsInput \<Rightarrow> (string \<times> string \<times> nat) list" where
  "settings_texts i =
     [(''admin username'', si_AdminUsername i, 128), (''panel listen'', si_PanelListen i, 256),
      (''panel base path'', si_PanelBasePath i, 256), (''panel certificate path'', si_PanelCertFile i, 4096),
      (''panel private key path'', si_PanelKeyFile i, 4096), (''panel domain'', si_PanelDomain i, 253),
      (''default REALITY SNI'', si_DefaultRealitySNI i, 512),
      (''default REALITY target'', si_DefaultRealityDest i, 1024),
      (''current password'', si_CurrentPassword i, 4096), (''new password'', si_NewPassword i, 4096)]"

text \<open>The loop over the texts is the one of the expert editor.\<close>

definition validateSettingsInput :: "settingsInput \<Rightarrow> unit res" where
  "validateSettingsInput i =
     bindR (check_texts (settings_texts i)) (\<lambda>_.
       guardR (\<not> (si_PanelDomain i \<noteq> [] \<and>
                   contains_any (si_PanelDomain i)
                     [CHR ''/'', CHR 0x5C, CHR ''?'', CHR ''#'', CHR ''@'', CHR '' '', CHR 0x09]))
         (ErrNew ''invalid panel domain''))"

definition certificate_check :: "(string \<Rightarrow> string \<Rightarrow> unit res) \<Rightarrow> string \<Rightarrow> string \<Rightarrow> refusal + unit" where
  "certificate_check pair cert key =
     thenS (demand ((cert = []) = (key = [])) 400
              (ErrNew ''panel certificate and private key must be configured together'')) (\<lambda>_.
       if cert = [] then Inr ()
       else
         thenS (demand (has_prefix cert slash \<and> has_prefix key slash) 400
                  (ErrNew ''panel certificate paths must be absolute'')) (\<lambda>_.
           coded 400 (\<lambda>e. Errorf ''panel TLS certificate/key cannot be loaded: %v'' [] [e]) (pair cert key)))"

definition settings_checks :: "Meeting \<Rightarrow> settingsInput \<Rightarrow> refusal + unit" where
  "settings_checks me i =
     thenS (coded 400 (\<lambda>e. e) (validateSettingsInput i)) (\<lambda>_.
     thenS (demand (si_AdminUsername i \<noteq> []) 400 (ErrNew ''admin username is required'')) (\<lambda>_.
     thenS (demand (SplitHostPort (si_PanelListen i) \<noteq> None) 400 (ErrNew ''panel listen must be host:port'')) (\<lambda>_.
     thenS (demand (ValidPath (si_PanelBasePath i)) 400 (ErrNew ''invalid panel base path'')) (\<lambda>_.
     thenS (certificate_check (me_pair me) (si_PanelCertFile i) (si_PanelKeyFile i)) (\<lambda>_.
     thenS (demand (\<not> (si_XrayAPIPort i < 1 \<or> si_XrayAPIPort i > 65535)) 400 (ErrNew ''invalid Xray API port'')) (\<lambda>_.
     demand (\<not> (si_PortMin i < 1 \<or> si_PortMax i > 65535 \<or> si_PortMax i < si_PortMin i)) 400
       (ErrNew ''invalid account port range'')))))))"

definition free_of_accounts :: "Engine \<Rightarrow> Db \<Rightarrow> int \<Rightarrow> refusal + Account list" where
  "free_of_accounts eng db port =
     thenS (coded 500 (\<lambda>e. e) (Accounts eng db)) (\<lambda>accounts.
       case find (\<lambda>a. a_Port a = port) accounts of
         Some a \<Rightarrow> Inl (400, Errorf ''Xray API port conflicts with account %q'' [a_Name a] [])
       | None \<Rightarrow> Inr accounts)"

text \<open>The hash to store, and whether the administrator changes.\<close>

definition credentials ::
    "Web \<Rightarrow> (string \<Rightarrow> string res) \<Rightarrow> Engine \<Rightarrow> Db \<Rightarrow> string \<Rightarrow> settingsInput \<Rightarrow> refusal + string \<times> bool" where
  "credentials w hash eng db currentUser i =
     thenS (coded 500 (\<lambda>e. ErrNew ''admin lookup failed'') (AdminByName eng currentUser db)) (\<lambda>admin.
       let adminChanging = (si_AdminUsername i \<noteq> currentUser \<or> trim_space (si_NewPassword i) \<noteq> []) in
       if \<not> adminChanging then Inr (adm_PasswordHash admin, False)
       else
         thenS (demand (w_compare w (adm_PasswordHash admin) (si_CurrentPassword i)) 403
                  (ErrNew ''current password is incorrect'')) (\<lambda>_.
           if si_NewPassword i = [] then Inr (adm_PasswordHash admin, True)
           else
             thenS (demand (length (si_NewPassword i) \<ge> 12) 400
                      (ErrNew ''new password must be at least 12 characters'')) (\<lambda>_.
             thenS (coded 500 (\<lambda>e. ErrNew ''password hashing failed'') (hash (si_NewPassword i))) (\<lambda>h.
             Inr (h, True)))))"

definition settings_values :: "settingsInput \<Rightarrow> (string, string) fmap" where
  "settings_values i = fmap_of_list
     [(''panel_listen'', si_PanelListen i), (''panel_base_path'', si_PanelBasePath i),
      (''panel_cert_file'', si_PanelCertFile i), (''panel_key_file'', si_PanelKeyFile i),
      (''panel_domain'', si_PanelDomain i), (''xray_api_port'', itoa (si_XrayAPIPort i)),
      (''port_min'', itoa (si_PortMin i)), (''port_max'', itoa (si_PortMax i)),
      (''default_reality_sni'', trim_space (si_DefaultRealitySNI i)),
      (''default_reality_dest'', trim_space (si_DefaultRealityDest i))]"

section \<open>The change\<close>

record Changed =
  ch_restartRequired :: bool
  ch_xrayApiApplied :: bool
  ch_sessionRotated :: bool
  ch_cookie :: "string option"

type_synonym 'm port_apply = "Account list \<Rightarrow> int \<Rightarrow> 'm \<Rightarrow> unit res \<times> 'm"

definition change_api ::
    "'m port_apply \<Rightarrow> Account list \<Rightarrow> int \<Rightarrow> 'm option \<Rightarrow> (refusal + unit) \<times> 'm option" where
  "change_api install accounts port m =
     (case m of
        None \<Rightarrow> (Inl (503, ErrNew ''Xray manager is not configured''), None)
      | Some m \<Rightarrow>
          (let (q, m1) = install accounts port m in
           (coded 502 (\<lambda>e. Errorf ''Xray API port change failed: %v'' [] [e]) q, Some m1)))"

text \<open>The transaction failed with \<open>e\<close>.\<close>

definition undo_api ::
    "'m port_apply \<Rightarrow> Account list \<Rightarrow> bool \<Rightarrow> int \<Rightarrow> err \<Rightarrow> 'm option \<Rightarrow> refusal \<times> 'm option" where
  "undo_api install accounts apiChanged oldAPI e m =
     (case m of
        None \<Rightarrow> ((400, e), None)
      | Some m1 \<Rightarrow>
          if \<not> apiChanged then ((400, e), Some m1)
          else case install accounts oldAPI m1 of
              (Inl e2, m2) \<Rightarrow>
                ((502, Errorf ''settings save failed: %v; Xray API port rollback also failed: %v'' [] [e, e2]), Some m2)
            | (Inr _, m2) \<Rightarrow> ((400, e), Some m2))"

definition rotate_sessions ::
    "Meeting \<Rightarrow> bool \<Rightarrow> string \<Rightarrow> Sessions \<Rightarrow> (refusal + string option) \<times> Sessions" where
  "rotate_sessions me adminChanging user ss =
     (if \<not> adminChanging then (Inr None, ss)
      else case Create (me_random me) (me_create me) user (Clear ss) of
          (Inl e, ss1) \<Rightarrow> (Inl (500, ErrNew ''settings saved but session rotation failed; sign in again''), ss1)
        | (Inr token, ss1) \<Rightarrow> (Inr (Some token), ss1))"

definition store_settings ::
    "'m port_apply \<Rightarrow> Meeting \<Rightarrow> Engine \<Rightarrow> string \<Rightarrow> settingsInput \<Rightarrow> string \<Rightarrow> bool \<Rightarrow> bool \<Rightarrow> Account list \<Rightarrow>
     Sessions \<times> Db \<times> 'm option \<Rightarrow> Changed answer \<times> Sessions \<times> Db \<times> 'm option" where
  "store_settings install me eng user i newHash adminChanging apiChanged accounts s =
     (let (ss, db, m) = s;
          old = settings_view eng db user;
          restart = (sv_PanelListen old \<noteq> si_PanelListen i \<or> sv_PanelBasePath old \<noteq> si_PanelBasePath i \<or>
                     sv_PanelCertFile old \<noteq> si_PanelCertFile i \<or> sv_PanelKeyFile old \<noteq> si_PanelKeyFile i) in
      case ApplySettings eng (me_saved me) (settings_values i) (me_order me) user (si_AdminUsername i) newHash db of
        (Inl e, db1) \<Rightarrow>
          (let ((code, e1), m1) = undo_api install accounts apiChanged (sv_XrayAPIPort old) e m in
           (Refused code e1, ss, db1, m1))
      | (Inr _, db1) \<Rightarrow>
          (case rotate_sessions me adminChanging (si_AdminUsername i) ss of
             (Inl (code, e), ss1) \<Rightarrow> (Refused code e, ss1, db1, m)
           | (Inr cookie, ss1) \<Rightarrow>
               (Answered 200 \<lparr>ch_restartRequired = restart, ch_xrayApiApplied = apiChanged,
                              ch_sessionRotated = adminChanging, ch_cookie = cookie\<rparr>, ss1, db1, m)))"

definition updateSettings ::
    "Web \<Rightarrow> 'm port_apply \<Rightarrow> Meeting \<Rightarrow> Engine \<Rightarrow> Req \<Rightarrow> settingsInput option \<Rightarrow> Sessions \<times> Db \<times> 'm option \<Rightarrow>
     Changed answer \<times> Sessions \<times> Db \<times> 'm option" where
  "updateSettings w install me eng r body =
     with_body body (\<lambda>raw (ss0, db, m).
       case sessionUsername (me_seen me) r ss0 of
         (None, ss) \<Rightarrow> (Refused 401 (ErrNew ''unauthorized''), ss, db, m)
       | (Some user, ss) \<Rightarrow>
           (let i = trimmed_settings raw in
            case thenS (settings_checks me i) (\<lambda>_.
                 thenS (free_of_accounts eng db (si_XrayAPIPort i)) (\<lambda>accounts.
                 thenS (credentials w (me_hash me) eng db user i) (\<lambda>(newHash, adminChanging).
                 Inr (accounts, newHash, adminChanging)))) of
              Inl (code, e) \<Rightarrow> (Refused code e, ss, db, m)
            | Inr (accounts, newHash, adminChanging) \<Rightarrow>
                (let apiChanged = (settingIntServer eng ''xray_api_port'' 10085 db \<noteq> si_XrayAPIPort i) in
                 case (if apiChanged then change_api install accounts (si_XrayAPIPort i) m else (Inr (), m)) of
                   (Inl (code, e), m1) \<Rightarrow> (Refused code e, ss, db, m1)
                 | (Inr _, m1) \<Rightarrow>
                     store_settings install me eng user i newHash adminChanging apiChanged accounts (ss, db, m1))))"

end
