(* ===== verification/LoginPromises.thy ===== *)
theory LoginPromises
  imports Login StoreLaws
begin

text \<open>
  What the login and the gate promise: addresses that cannot be forged, the outcome of a login, the bound
  on guessed passwords, and the histories of the panel's sessions. The sample data of the witnesses is at
  the end.
\<close>


section \<open>Addresses cannot be forged\<close>

lemma split_on_cut: "split_on c (s @ c # t) = split_on c s @ split_on c t"
  by (induction s) (auto split: list.split)

lemma last_untrusted_append:
  "last_untrusted w (ps @ qs) = (case last_untrusted w ps of Some c \<Rightarrow> Some c | None \<Rightarrow> last_untrusted w qs)"
  by (induction ps) (simp_all add: Let_def)

lemma remoteIP_direct: "\<not> trustedProxy w (directRemoteIP r) \<Longrightarrow> remoteIP w r = directRemoteIP r"
  by (simp add: remoteIP_def)

lemma remoteIP_forwarded:
  assumes "trustedProxy w (directRemoteIP r)" "rq_header r ''X-Forwarded-For'' = forged @ CHR '','' # appended"
    and "last_untrusted w (rev (split_on (CHR '','') appended)) = Some c"
  shows "remoteIP w r = c"
proof -
  have "rev (split_on (CHR '','') (rq_header r ''X-Forwarded-For'')) =
      rev (split_on (CHR '','') appended) @ rev (split_on (CHR '','') forged)"
    by (simp only: assms(2) split_on_cut rev_append)
  then show ?thesis using assms(1,3) by (simp add: remoteIP_def last_untrusted_append)
qed

section \<open>The gate\<close>

lemma request_gate_spec:
  "fst (request_gate w now r ss) =
     (case Option.bind (rq_cookie r) (holder ss now) of
        None \<Rightarrow> Some (401, ErrNew ''unauthorized'')
      | Some u \<Rightarrow> if safe_method r \<or> sameOrigin w r then None
                  else Some (403, ErrNew ''cross-origin request rejected''))"
proof (cases "rq_cookie r")
  case (Some token)
  then show ?thesis
    using Valid_holder [of now token ss] by (auto simp: request_gate_def split: prod.split option.split)
qed (simp add: request_gate_def)

lemma request_gate_sessions:
  assumes "now \<le> t"
  shows "holder (snd (request_gate w now r ss)) t tok = holder ss t tok"
proof (cases "rq_cookie r")
  case (Some token)
  have "holder ss' t tok = holder ss t tok" if "Valid now token ss = (ok, ss')" for ok ss'
    using holder_Valid [OF assms, of token ss tok] that by simp
  with Some show ?thesis by (auto simp: request_gate_def split: prod.split)
qed (simp add: request_gate_def)

lemma require_spec:
  "require w now r nxt s =
     (case fst (request_gate w now r (fst s)) of
        Some (code, e) \<Rightarrow> (Refused code e, snd (request_gate w now r (fst s)), snd s)
      | None \<Rightarrow> nxt (snd (request_gate w now r (fst s)), snd s))"
  by (simp add: require_def split: prod.split option.split)

section \<open>The outcome of a login\<close>

lemma login_gate_spec:
  assumes "buckets_ok (au_ip au)" "buckets_ok (au_login au)"
  shows "fst (login_gate mo ip key au) \<longleftrightarrow> verdict (au_ip au) (mo_ip mo) ip \<and> verdict (au_login au) (mo_key mo) key"
    and "au_sessions (snd (login_gate mo ip key au)) = au_sessions au"
    and "au_ip (snd (login_gate mo ip key au)) = snd (Allowed (mo_ip mo) ip (au_ip au))"
  using Allowed_verdict [OF assms(1), of "mo_ip mo" ip] Allowed_verdict [OF assms(2), of "mo_key mo" key]
  by (auto simp: login_gate_def Let_def split: prod.split)

lemma login_accepts_spec:
  "login_accepts w eng db username password = Some a \<longleftrightarrow>
     AdminByName eng username db = Inr a \<and> w_compare w (adm_PasswordHash a) password \<and>
     username \<noteq> [] \<and> length username \<le> 128 \<and> length password \<le> 1024"
  by (auto simp: login_accepts_def Let_def split: sum.split)

text \<open>The cases of the handler, with the state that each leaves.\<close>

lemma login_cases:
  fixes user password :: string
  defines "username \<equiv> trim_space user"
  assumes "login w eng db mo r (Some (user, password)) au = (ans, au')"
  obtains
    (refused) "ans = Refused 429 (ErrNew ''too many login attempts; try again later'')"
      "\<not> fst (login_gate mo (remoteIP w r) (loginRateKey (remoteIP w r) username) au)"
      "au' = snd (login_gate mo (remoteIP w r) (loginRateKey (remoteIP w r) username) au)"
  | (wrong) "ans = Refused 401 (ErrNew ''invalid credentials'')"
      "fst (login_gate mo (remoteIP w r) (loginRateKey (remoteIP w r) username) au)"
      "login_accepts w eng db username password = None"
      "au' = login_failed mo (remoteIP w r) (loginRateKey (remoteIP w r) username)
               (snd (login_gate mo (remoteIP w r) (loginRateKey (remoteIP w r) username) au))"
  | (accepted) admin a2 q ss where
      "fst (login_gate mo (remoteIP w r) (loginRateKey (remoteIP w r) username) au)"
      "login_accepts w eng db username password = Some admin"
      "a2 = login_cleared (remoteIP w r) (loginRateKey (remoteIP w r) username)
               (snd (login_gate mo (remoteIP w r) (loginRateKey (remoteIP w r) username) au))"
      "Create (mo_random mo) (mo_create mo) (adm_Username admin) (au_sessions a2) = (q, ss)"
      "au' = a2\<lparr>au_sessions := ss\<rparr>"
      "ans = (case q of Inl e \<Rightarrow> Refused 500 (ErrNew ''session failure'') | Inr token \<Rightarrow> Answered 200 token)"
proof -
  obtain ok a1 where g: "login_gate mo (remoteIP w r) (loginRateKey (remoteIP w r) username) au = (ok, a1)"
    by (cases "login_gate mo (remoteIP w r) (loginRateKey (remoteIP w r) username) au")
  show thesis
  proof (cases "ok \<and> login_accepts w eng db username password \<noteq> None")
    case False
    then show thesis
      using assms g refused wrong by (auto simp: login_def with_body_def Let_def split: if_split_asm)
  next
    case True
    then obtain admin where a: "login_accepts w eng db username password = Some admin" by auto
    let ?a2 = "login_cleared (remoteIP w r) (loginRateKey (remoteIP w r) username) a1"
    obtain q ss where c: "Create (mo_random mo) (mo_create mo) (adm_Username admin) (au_sessions ?a2) = (q, ss)"
      by (cases "Create (mo_random mo) (mo_create mo) (adm_Username admin) (au_sessions ?a2)")
    show thesis
      by (rule accepted [of admin ?a2 q ss])
        (use assms g a c True in \<open>auto simp: login_def with_body_def Let_def split: sum.split_asm sum.split\<close>)
  qed
qed

lemma loginRateKey_nonempty: "loginRateKey ip username \<noteq> []"
  by (simp add: loginRateKey_def)

lemma login_cleared_sessions [simp]: "au_sessions (login_cleared ip key au) = au_sessions au"
  "au_sessions (login_failed mo ip key au) = au_sessions au"
  "au_ip (login_cleared ip key au) = Success ip (au_ip au)"
  "au_login (login_cleared ip key au) = Success key (au_login au)"
  by (simp_all add: login_cleared_def login_failed_def)

lemma login_gate_ip: "au_ip (snd (login_gate mo ip key au)) = snd (Allowed (mo_ip mo) ip (au_ip au))"
  by (auto simp: login_gate_def Let_def split: prod.split)

lemma login_gate_passed: "fst (login_gate mo ip key au) \<Longrightarrow> fst (Allowed (mo_ip mo) ip (au_ip au))"
  by (auto simp: login_gate_def Let_def split: prod.split_asm if_split_asm)

lemma login_gate_key:
  "fst (login_gate mo ip key au) \<Longrightarrow>
     au_login (snd (login_gate mo ip key au)) = snd (Allowed (mo_key mo) key (au_login au))"
  by (auto simp: login_gate_def Let_def split: prod.split_asm prod.split if_split_asm)

text \<open>Asking the limiters changes no count.\<close>

lemma login_gate_keeps:
  assumes "buckets_ok (au_ip au)" "buckets_ok (au_login au)"
  shows "live (au_ip (snd (login_gate mo ip key au))) (mo_ip mo) = live (au_ip au) (mo_ip mo)"
    and "live (au_login (snd (login_gate mo ip key au))) (mo_key mo) = live (au_login au) (mo_key mo)"
  using live_Allowed [OF assms(1), of "mo_ip mo" ip] live_Allowed [OF assms(2), of "mo_key mo" key]
  by (auto simp: login_gate_def Let_def split: prod.split)

section \<open>Histories of sessions\<close>

text \<open>
  What happens to the sessions of the panel, the newest event first: logins with their answers, requests
  at the gate, logouts, and the rotation after a change of the administrator (\<open>None\<close> when a restored
  backup only clears the sessions).
\<close>

text \<open>An attempt to log in, with the clock of its calls and the database it meets.\<close>

record Attempt =
  at_eng :: Engine
  at_db :: Db
  at_mo :: Moment
  at_req :: Req
  at_user :: string
  at_password :: string

datatype auth_event =
    ELogin Attempt "string answer"
  | EGate int Req
  | ELogout Req
  | ERotate "(string \<times> string) option"

inductive serves :: "Web \<Rightarrow> auth_event list \<Rightarrow> Auth \<Rightarrow> bool" for w where
  Start: "serves w [] NewAuth"
| Login: "serves w tr au \<Longrightarrow>
    login w (at_eng a) (at_db a) (at_mo a) (at_req a) (Some (at_user a, at_password a)) au = (ans, au') \<Longrightarrow>
    serves w (ELogin a ans # tr) au'"
| Gate: "serves w tr au \<Longrightarrow>
    serves w (EGate now r # tr) (au\<lparr>au_sessions := snd (request_gate w now r (au_sessions au))\<rparr>)"
| Logout: "serves w tr au \<Longrightarrow> serves w (ELogout r # tr) (snd (logout r au))"
| Clear: "serves w tr au \<Longrightarrow> serves w (ERotate None # tr) (au\<lparr>au_sessions := Clear (au_sessions au)\<rparr>)"
| Rotate: "serves w tr au \<Longrightarrow> Create random now user (Clear (au_sessions au)) = (Inr token, ss) \<Longrightarrow>
    serves w (ERotate (Some (token, user)) # tr) (au\<lparr>au_sessions := ss\<rparr>)"

inductive_cases serves_Nil: "serves w [] au"

text \<open>Whom the history makes the holder of a token.\<close>

fun issued :: "Web \<Rightarrow> auth_event list \<Rightarrow> string \<Rightarrow> string \<Rightarrow> bool" where
  "issued w [] token user = False"
| "issued w (ELogin a ans # tr) token user =
     (if ans = Answered 200 token
      then (\<exists>admin. login_accepts w (at_eng a) (at_db a) (trim_space (at_user a)) (at_password a) = Some admin \<and>
                    adm_Username admin = user)
      else issued w tr token user)"
| "issued w (EGate now r # tr) token user = issued w tr token user"
| "issued w (ELogout r # tr) token user = (rq_cookie r \<noteq> Some token \<and> issued w tr token user)"
| "issued w (ERotate c # tr) token user = (c = Some (token, user))"

definition known :: "Sessions \<Rightarrow> string \<Rightarrow> string option" where
  "known ss token = map_option Username (fmlookup (tokens ss) token)"

lemma holder_known: "holder ss t token = Some u \<Longrightarrow> known ss token = Some u"
  by (auto simp: holder_def known_def split: option.split_asm if_split_asm)

lemma known_prune: "known (pruneExpiredLocked now ss) token = Some u \<Longrightarrow> known ss token = Some u"
  by (auto simp: known_def pruneExpiredLocked_def split: option.split_asm if_split_asm)

lemma known_Create:
  "Create random now user ss = (Inr token, ss') \<Longrightarrow> known ss' tok = Some u \<Longrightarrow>
     (tok = token \<and> u = user) \<or> (tok \<noteq> token \<and> known ss tok = Some u)"
  using known_prune [of now ss tok u]
  by (cases "tok = token") (auto simp: Create_def Let_def known_def split: option.split_asm)

lemma Create_Inl: "Create random now user ss = (Inl e, ss') \<Longrightarrow> ss' = ss"
  by (auto simp: Create_def Let_def split: option.split_asm)

lemma known_gate: "known (snd (request_gate w now r ss)) tok = Some u \<Longrightarrow> known ss tok = Some u"
  by (auto simp: request_gate_def Valid_def Delete_def known_def split: option.split_asm if_split_asm)

lemma serves_issued: "serves w tr au \<Longrightarrow> known (au_sessions au) tok = Some u \<Longrightarrow> issued w tr tok u"
proof (induction arbitrary: tok u rule: serves.induct)
  case (Login tr au a ans au')
  from Login.hyps(2) show ?case
  proof (cases rule: login_cases)
    case refused
    then have "au_sessions au' = au_sessions au" by (simp add: login_gate_def Let_def split: prod.split)
    then show ?thesis using Login refused by simp
  next
    case wrong
    then have "au_sessions au' = au_sessions au" by (simp add: login_gate_def Let_def split: prod.split)
    then show ?thesis using Login wrong by simp
  next
    case (accepted admin a2 q ss)
    then have a2: "au_sessions a2 = au_sessions au" by (simp add: login_gate_def Let_def split: prod.split)
    show ?thesis
    proof (cases q)
      case (Inl e)
      with accepted Create_Inl a2 Login show ?thesis by fastforce
    next
      case (Inr token)
      from known_Create [OF accepted(4) [unfolded Inr], of tok u] accepted Login.prems a2 Login.IH [of tok u] Inr
      show ?thesis by auto
    qed
  qed
next
  case (Gate tr au now r)
  then show ?case using known_gate [of w now r "au_sessions au" tok u] by simp
next
  case (Logout tr au r)
  then show ?case by (auto simp: logout_def Delete_def known_def split: option.split_asm if_split_asm)
next
  case (Rotate tr au random now user token ss)
  from known_Create [OF Rotate.hyps(2), of tok u] Rotate.prems show ?case by (simp add: known_def Clear_def)
qed (simp_all add: known_def Clear_def NewAuth_def NewSessions_def)

section \<open>The life of one session\<close>

text \<open>
  What an event says of a token: it issues it (again), or it ends it. The random bytes of two tokens
  may agree; a history in which a token is issued twice is told apart by \<open>issues\<close>.
\<close>

fun issues :: "string \<Rightarrow> auth_event \<Rightarrow> bool" where
  "issues token (ELogin a ans) = (ans = Answered 200 token)"
| "issues token (ERotate (Some (tok, user))) = (tok = token)"
| "issues token e = False"

fun ends :: "string \<Rightarrow> auth_event \<Rightarrow> bool" where
  "ends token (ELogout r) = (rq_cookie r = Some token)"
| "ends token (ERotate c) = True"
| "ends token e = False"

fun seen_at :: "auth_event \<Rightarrow> int option" where
  "seen_at (ELogin a ans) = Some (mo_create (at_mo a))"
| "seen_at (EGate now r) = Some now"
| "seen_at e = None"

definition before :: "int \<Rightarrow> auth_event \<Rightarrow> bool" where
  "before t e \<longleftrightarrow> (case seen_at e of None \<Rightarrow> True | Some s \<Rightarrow> s < t)"

inductive_cases serves_inv: "serves w (e # tr) au"

lemmas serves_ConsE = serves_inv [consumes 1, case_names Login Gate Logout Clear Rotate]

lemma Create_ttl: "Create random now user ss = (q, ss') \<Longrightarrow> ttl ss' = ttl ss"
  by (auto simp: Create_def Let_def pruneExpiredLocked_def split: option.split_asm)

lemma login_gate_sessions: "au_sessions (snd (login_gate mo ip key au)) = au_sessions au"
  by (simp add: login_gate_def Let_def split: prod.split)

text \<open>A login leaves the sessions as they are, or creates one.\<close>

lemma login_sessions:
  assumes "login w eng db mo r (Some (user, password)) au = (ans, au')"
  obtains (same) "au_sessions au' = au_sessions au" "\<nexists>token. ans = Answered 200 token"
  | (new) token buf admin where "ans = Answered 200 token" "mo_random mo = Some buf"
      "Create (Some buf) (mo_create mo) (adm_Username admin) (au_sessions au) = (Inr token, au_sessions au')"
      "login_accepts w eng db (trim_space user) password = Some admin"
  using assms
proof (cases rule: login_cases)
  case (accepted admin a2 q ss)
  then have a2: "au_sessions a2 = au_sessions au" by (simp add: login_gate_sessions)
  show thesis
  proof (cases q)
    case (Inl e)
    with accepted a2 Create_Inl show thesis by (intro same) fastforce+
  next
    case (Inr token)
    with accepted a2 new show thesis by (auto simp: Create_def split: option.split_asm)
  qed
qed (use same in \<open>simp_all add: login_gate_sessions\<close>)

lemma ttl_Delete [simp]: "ttl (Delete tok ss) = ttl ss"
  by (simp add: Delete_def)

lemma ttl_gate: "ttl (snd (request_gate w now r ss)) = ttl ss"
  by (auto simp: request_gate_def Valid_def split: option.split prod.split)

lemma serves_ttl: "serves w tr au \<Longrightarrow> ttl (au_sessions au) = 24 * hour"
proof (induction rule: serves.induct)
  case (Login tr au a ans au')
  from Login.hyps(2) show ?case by (cases rule: login_sessions) (use Login.IH Create_ttl in fastforce)+
next
  case (Rotate tr au random now user token ss)
  then show ?case using Create_ttl [OF Rotate.hyps(2)] by (simp add: Clear_def)
qed (simp_all add: NewAuth_def NewSessions_def ttl_gate logout_def Clear_def split: option.split)

text \<open>Once unknown, a token stays unknown until it is issued again.\<close>

lemma stays_unknown:
  "serves w (later @ tr) au \<Longrightarrow> (\<And>au. serves w tr au \<Longrightarrow> known (au_sessions au) token = None) \<Longrightarrow>
     \<forall>e \<in> set later. \<not> issues token e \<Longrightarrow> known (au_sessions au) token = None"
proof (induction later arbitrary: au)
  case (Cons e later)
  from Cons.prems(1) have "serves w (e # later @ tr) au" by simp
  then show ?case
  proof (cases rule: serves_ConsE)
    case (Login a0 a ans)
    have u: "known (au_sessions a0) token = None" using Cons.IH [OF Login(2) Cons.prems(2)] Cons.prems(3) by simp
    from Login(3) show ?thesis
    proof (cases rule: login_sessions)
      case same
      then show ?thesis using u by simp
    next
      case (new tok buf admin)
      then show ?thesis using u known_Create [OF new(3), of token] Cons.prems(3) Login(1)
        by (cases "known (au_sessions au) token") auto
    qed
  next
    case (Gate a0 now r)
    then show ?thesis using Cons.IH [OF Gate(3) Cons.prems(2)] Cons.prems(3) known_gate [of w now r "au_sessions a0" token]
      by (cases "known (au_sessions au) token") auto
  next
    case (Logout a0 r)
    then show ?thesis using Cons.IH [OF Logout(3) Cons.prems(2)] Cons.prems(3)
      by (auto simp: logout_def Delete_def known_def split: option.split)
  next
    case (Clear a0)
    then show ?thesis by (simp add: known_def Clear_def)
  next
    case (Rotate a0 random now user tok ss)
    then show ?thesis using known_Create [OF Rotate(4), of token] Cons.prems(3)
      by (cases "known (au_sessions au) token") (auto simp: known_def Clear_def)
  qed
qed simp

lemma ended_unknown:
  assumes "serves w (e # tr) au" "ends token e" "\<not> issues token e"
  shows "known (au_sessions au) token = None"
  using assms(1)
proof (cases rule: serves_ConsE)
  case (Logout a0 r)
  then show ?thesis using assms(2) by (simp add: logout_def Delete_def known_def)
next
  case (Clear a0)
  then show ?thesis by (simp add: known_def Clear_def)
next
  case (Rotate a0 random now user tok ss)
  then show ?thesis using known_Create [OF Rotate(4), of token] assms(3)
    by (cases "known (au_sessions au) token") (auto simp: known_def Clear_def)
qed (use assms(2) in auto)

text \<open>The session of a login, at every instant after what has happened so far.\<close>

lemma session_holds:
  assumes "serves w (later @ ELogin a (Answered 200 token) # tr) au"
    and "\<forall>e \<in> set later. \<not> issues token e \<and> \<not> ends token e \<and> before now e" and "mo_create (at_mo a) < now"
  shows "\<exists>u. holder (au_sessions au) now token = (if now \<le> mo_create (at_mo a) + 24 * hour then Some u else None)"
  using assms(1,2)
proof (induction later arbitrary: au)
  case Nil
  then have "serves w (ELogin a (Answered 200 token) # tr) au" by simp
  then show ?case
  proof (cases rule: serves_ConsE)
    case (Login a0 b ans)
    from Login(3) show ?thesis
    proof (cases rule: login_sessions)
      case (new tok buf admin)
      then show ?thesis
        using holder_Create [OF new(3) , of now token] assms(3) serves_ttl [OF Login(2)] Login(1) by auto
    next
      case same
      then show ?thesis using Login(1) by blast
    qed
  qed auto
next
  case (Cons e later)
  from Cons.prems(1) have "serves w (e # later @ ELogin a (Answered 200 token) # tr) au" by simp
  then show ?case
  proof (cases rule: serves_ConsE)
    case (Login a0 b ans)
    have h: "\<exists>u. holder (au_sessions a0) now token = (if now \<le> mo_create (at_mo a) + 24 * hour then Some u else None)"
      using Cons.IH [OF Login(2)] Cons.prems(2) by simp
    from Login(3) show ?thesis
    proof (cases rule: login_sessions)
      case same
      then show ?thesis using h by simp
    next
      case (new tok buf admin)
      have "tok \<noteq> token" "mo_create (at_mo b) < now" using Cons.prems(2) Login(1) new(1) by (auto simp: before_def)
      then show ?thesis using holder_Create [OF new(3), of now token] h by simp
    qed
  next
    case (Gate a0 s r)
    then have "s \<le> now" using Cons.prems(2) by (auto simp: before_def)
    then show ?thesis using Cons.IH [OF Gate(3)] Cons.prems(2) Gate(2) request_gate_sessions [of s now w r "au_sessions a0" token] by simp
  next
    case (Logout a0 r)
    then show ?thesis using Cons.IH [OF Logout(3)] Cons.prems(2)
      by (cases "rq_cookie r") (auto simp: logout_def holder_Delete)
  qed (use Cons.prems(2) in auto)
qed

section \<open>Properties\<close>

text \<open>(C10) The address a request is rate-limited under cannot be chosen by the client: from a peer that is
  not a trusted proxy it is the peer's address whatever the headers say, and behind a trusted proxy it
  does not depend on the part of \<open>X-Forwarded-For\<close> that was there before the proxies appended theirs.\<close>

theorem remote_ip_unforgeable:
  assumes "\<not> trustedProxy w (directRemoteIP r) \<or>
     (\<exists>appended c. last_untrusted w (rev (split_on (CHR '','') appended)) = Some c \<and>
        (\<exists>forged. h ''X-Forwarded-For'' = forged @ CHR '','' # appended) \<and>
        (\<exists>forged. h' ''X-Forwarded-For'' = forged @ CHR '','' # appended))"
  shows "remoteIP w (r\<lparr>rq_header := h\<rparr>) = remoteIP w (r\<lparr>rq_header := h'\<rparr>)"
proof -
  have peer: "directRemoteIP (r\<lparr>rq_header := x\<rparr>) = directRemoteIP r" for x
    by (simp add: directRemoteIP_def cong: option.case_cong)
  show ?thesis
  proof (cases "trustedProxy w (directRemoteIP r)")
    case False
    then show ?thesis using remoteIP_direct peer by simp
  next
    case True
    then obtain ap c f f' where c: "last_untrusted w (rev (split_on (CHR '','') ap)) = Some c"
      and h: "h ''X-Forwarded-For'' = f @ CHR '','' # ap" "h' ''X-Forwarded-For'' = f' @ CHR '','' # ap"
      using assms by blast
    have "remoteIP w (r\<lparr>rq_header := h\<rparr>) = c" "remoteIP w (r\<lparr>rq_header := h'\<rparr>) = c"
      by (rule remoteIP_forwarded; use True peer c h in simp)+
    then show ?thesis by simp
  qed
qed

text \<open>(C8) What a login answers and leaves. A token is given only for the right password of an
  administrator in the database, with neither rate limit reached; it then speaks for that administrator
  for 24 hours and the counts of the address and of the address with the user are cleared. Otherwise no
  session appears: at a limit the password is not looked at and every count of both limiters stays what
  it was, and a wrong user or password is counted once for the address and once for the address with
  the user.\<close>

theorem login_outcome:
  assumes "login w eng db mo r (Some (user, password)) au = (ans, au')"
    and "limiter_inv (au_ip au)" "limiter_inv (au_login au)"
  defines "ip \<equiv> remoteIP w r" and "key \<equiv> loginRateKey (remoteIP w r) (trim_space user)"
  defines "unlocked \<equiv> verdict (au_ip au) (mo_ip mo) ip \<and> verdict (au_login au) (mo_key mo) key"
  defines "correct \<equiv> \<lambda>a. AdminByName eng (trim_space user) db = Inr a \<and> w_compare w (adm_PasswordHash a) password \<and>
             trim_space user \<noteq> [] \<and> length (trim_space user) \<le> 128 \<and> length password \<le> 1024"
  defines "cleared \<equiv> fmlookup (entries (au_ip au')) ip = None \<and> fmlookup (entries (au_login au')) key = None"
  shows "case ans of
      Answered code token \<Rightarrow> code = 200 \<and> unlocked \<and> (\<exists>a. correct a \<and>
        (\<forall>t > mo_create mo. holder (au_sessions au') t token =
           (if t \<le> mo_create mo + ttl (au_sessions au) then Some (adm_Username a) else None))) \<and> cleared
    | Refused code e \<Rightarrow> au_sessions au' = au_sessions au \<and>
        (code = 429 \<and> \<not> unlocked \<and> live (au_ip au') (mo_ip mo) = live (au_ip au) (mo_ip mo) \<and>
           live (au_login au') (mo_key mo) = live (au_login au) (mo_key mo) \<or>
         code = 401 \<and> unlocked \<and> (\<nexists>a. correct a) \<and>
           fmlookup (entries (au_ip au')) ip = Some (next_bucket (snd (Allowed (mo_ip mo) ip (au_ip au))) (mo_fail_ip mo) ip) \<and>
           fmlookup (entries (au_login au')) key = Some (next_bucket (snd (Allowed (mo_key mo) key (au_login au))) (mo_fail_key mo) key) \<or>
         code = 500 \<and> unlocked \<and> (\<exists>a. correct a) \<and> mo_random mo = None \<and> cleared)"
proof -
  note oks = inv_buckets_ok [OF assms(2)] inv_buckets_ok [OF assms(3)]
  note gate = login_gate_spec [OF oks, of mo ip key]
  have acc: "login_accepts w eng db (trim_space user) password = Some a \<longleftrightarrow> correct a" for a
    by (auto simp: login_accepts_spec correct_def)
  have none: "login_accepts w eng db (trim_space user) password = None \<longleftrightarrow> (\<nexists>a. correct a)"
    using acc by (metis not_None_eq option.inject)
  from assms(1) show ?thesis
  proof (cases rule: login_cases)
    case refused
    then show ?thesis using gate(1,2) login_gate_keeps [OF oks, of mo ip key] by (simp add: unlocked_def ip_def key_def)
  next
    case wrong
    have "buckets_ok (snd (Allowed (mo_ip mo) ip (au_ip au)))" "buckets_ok (snd (Allowed (mo_key mo) key (au_login au)))"
      using Allowed_inv [OF assms(2)] Allowed_inv [OF assms(3)] inv_buckets_ok by blast+
    note counts = this [THEN Fail_same_key]
    have au': "au' = login_failed mo ip key (snd (login_gate mo ip key au))" "fst (login_gate mo ip key au)"
      using wrong by (simp_all add: ip_def key_def)
    have "fmlookup (entries (au_ip au')) ip = Some (next_bucket (snd (Allowed (mo_ip mo) ip (au_ip au))) (mo_fail_ip mo) ip)"
      "fmlookup (entries (au_login au')) key = Some (next_bucket (snd (Allowed (mo_key mo) key (au_login au))) (mo_fail_key mo) key)"
      using counts login_gate_key [OF au'(2)] by (simp_all add: au'(1) login_failed_def login_gate_ip)
    then show ?thesis using wrong gate(1,2) none by (simp add: unlocked_def ip_def key_def)
  next
    case (accepted admin a2 q ss)
    have a2: "au_sessions a2 = au_sessions au" using accepted(3) gate(2) by (simp add: ip_def key_def)
    have is_open: "unlocked" using accepted(1) gate(1) by (simp add: unlocked_def ip_def key_def)
    have right: "correct admin" using accepted(2) acc by simp
    have cleared: "cleared" using accepted(3,5) by (simp add: cleared_def Success_def ip_def key_def)
    show ?thesis
    proof (cases q)
      case (Inl e)
      then have "mo_random mo = None" "ss = au_sessions au"
        using accepted(4) a2 Create_Inl by (auto simp: Create_def Let_def split: option.split_asm)
      then show ?thesis using accepted(5,6) Inl is_open right cleared by auto
    next
      case (Inr token)
      then obtain buf where buf: "mo_random mo = Some buf"
        using accepted(4) by (auto simp: Create_def split: option.split_asm)
      have h: "holder ss t token = (if t \<le> mo_create mo + ttl (au_sessions au) then Some (adm_Username admin) else None)"
        if "mo_create mo < t" for t
        using holder_Create [OF accepted(4) [unfolded buf Inr] that, of token] a2 by simp
      show ?thesis using accepted(5,6) Inr is_open right h cleared by auto
    qed
  qed
qed

text \<open>(C7) Whoever passes the gate was let in: in every history of the panel, a request that reaches a
  handler carries a token that the history issued, to an administrator whose password a login
  accepted or in a rotation, and that was not logged out or cleared since; and it reads only or comes
  from the panel's own origin.\<close>

theorem gate_provenance:
  assumes "serves w tr au" and "fst (request_gate w now r (au_sessions au)) = None"
  shows "\<exists>token user. rq_cookie r = Some token \<and> holder (au_sessions au) now token = Some user \<and>
           issued w tr token user \<and> (safe_method r \<or> sameOrigin w r)"
proof -
  obtain token user where t: "rq_cookie r = Some token" "holder (au_sessions au) now token = Some user"
    and o: "safe_method r \<or> sameOrigin w r"
    using assms(2) by (auto simp: request_gate_spec split: option.split_asm if_split_asm bind_splits)
  show ?thesis using serves_issued [OF assms(1) holder_known [OF t(2)]] t o by blast
qed

text \<open>(C19) A session works until it ends, and not a moment longer. After a login whose answer carried the
  token, and whatever happens then - other logins, requests at the gate, logouts of other sessions,
  changes of the administrator - as long as no new random token happens to be equal: the token passes
  the gate, for every request that reads only or comes from the panel's own origin, exactly if it was
  not logged out, the sessions were not rotated or cleared by a change of the administrator or a
  restored backup, and its 24 hours are not over.\<close>

theorem session_serves:
  assumes "serves w (later @ ELogin a (Answered 200 token) # tr) au"
    and "\<forall>e \<in> set later. \<not> issues token e \<and> before now e" and "mo_create (at_mo a) < now"
    and "rq_cookie q = Some token" "safe_method q \<or> sameOrigin w q"
  shows "fst (request_gate w now q (au_sessions au)) =
     (if (\<exists>e \<in> set later. ends token e) \<or> mo_create (at_mo a) + 24 * hour < now
      then Some (401, ErrNew ''unauthorized'') else None)"
proof (cases "\<exists>e \<in> set later. ends token e")
  case False
  then show ?thesis using session_holds [OF assms(1) _ assms(3)] assms(2,4,5) by (auto simp: request_gate_spec)
next
  case True
  then obtain l1 e l2 where l: "later = l1 @ e # l2" "ends token e" by (meson split_list)
  have "known (au_sessions au) token = None"
  proof (rule stays_unknown)
    show "serves w (l1 @ (e # l2 @ ELogin a (Answered 200 token) # tr)) au" using assms(1) l by simp
    show "known (au_sessions b) token = None" if "serves w (e # l2 @ ELogin a (Answered 200 token) # tr) b" for b
      using that l(2) assms(2) ended_unknown [OF that] l(1) by simp
  qed (use assms(2) l in simp)
  then have "holder (au_sessions au) now token = None" using holder_known by (metis not_None_eq option.distinct(1))
  with True show ?thesis using assms(4) by (simp add: request_gate_spec)
qed

section \<open>The properties on sample requests\<close>


lemma sample_parse_v4:
  "parse_v4 ''203.0.113.9'' = Some (203, 0, 113, 9)" "parse_v4 ''127.0.0.1'' = Some (127, 0, 0, 1)"
  "parse_v4 ''127.0.0.0'' = Some (127, 0, 0, 0)" "parse_v6 ''::1'' = Some [0, 0, 0, 0, 0, 0, 0, 1]"
  "atoi ''8'' = Some 8" "atoi ''128'' = Some 128"
  by code_simp+

lemma sample_parse:
  "ParseAddr ''203.0.113.9'' = Some (V4 0xCB007109)" "ParseAddr ''127.0.0.1'' = Some (V4 0x7F000001)"
  "ParseAddr ''127.0.0.0'' = Some (V4 0x7F000000)" "ParseAddr ''::1'' = Some (V6 1 [])"
  by (simp_all add: ParseAddr_def sample_parse_v4 v4_word_def v6_word_def)

lemma sample_cut:
  "cut_last (CHR ''/'') ''127.0.0.0/8'' = Some (''127.0.0.0'', ''8'')"
  "cut_last (CHR ''/'') ''::1/128'' = Some (''::1'', ''128'')"
  by code_simp+

lemma sample_digit: "char_digit (CHR ''1'') = Some 1"
  by code_simp

lemma sample_prefixes: "trustedProxyPrefixes [] = [(V4 0x7F000000, 8), (V6 1 [], 128)]"
  by (simp add: trustedProxyPrefixes_def ParsePrefix_def sample_cut sample_parse sample_parse_v4 sample_digit
      List.map_filter_simps)

definition sample_web :: Web where
  "sample_web = \<lparr>w_url = (\<lambda>s. None), w_compare = (=), w_dummy = ''-'', w_trusted = trustedProxyPrefixes []\<rparr>"

definition sample_request :: "string \<Rightarrow> (string \<Rightarrow> string) \<Rightarrow> string option \<Rightarrow> Req" where
  "sample_request remote h c = \<lparr>rq_method = ''GET'', rq_path = ''/api/login'', rq_remote = remote, rq_host = ''panel'',
     rq_tls = False, rq_header = h, rq_cookie = c\<rparr>"

lemma sample_strings:
  "SplitHostPort (trim_space ''203.0.113.9:5555'') = Some (''203.0.113.9'', ''5555'')"
  "SplitHostPort (trim_space ''127.0.0.1:99'') = Some (''127.0.0.1'', ''99'')"
  "trim_set brackets ''203.0.113.9'' = ''203.0.113.9''" "trim_set brackets ''127.0.0.1'' = ''127.0.0.1''"
  "without_zone ''203.0.113.9'' = ''203.0.113.9''" "without_zone ''127.0.0.1'' = ''127.0.0.1''"
  "candidate '' 203.0.113.9'' = ''203.0.113.9''" "takeWhile (\<lambda>x. x \<noteq> CHR ''%'') ''203.0.113.9'' = ''203.0.113.9''"
  "rev (split_on (CHR '','') '' 203.0.113.9'') = ['' 203.0.113.9'']"
  by code_simp+

lemma sample_direct:
  "directRemoteIP (sample_request ''203.0.113.9:5555'' h c) = ''203.0.113.9''"
  "directRemoteIP (sample_request ''127.0.0.1:99'' h c) = ''127.0.0.1''"
  by (simp_all add: directRemoteIP_def sample_request_def sample_strings)

lemma sample_trusted: "\<not> trustedProxy sample_web ''203.0.113.9''" "trustedProxy sample_web ''127.0.0.1''"
  by (simp_all add: trustedProxy_def sample_strings sample_parse sample_web_def sample_prefixes prefix_contains_def
       drop_bit_eq_div word_eq_iff_unsigned)

lemma sample_last: "last_untrusted sample_web (rev (split_on (CHR '','') '' 203.0.113.9'')) = Some ''203.0.113.9''"
  by (simp add: sample_strings address_like_def sample_parse sample_trusted)

lemma sample_remote: "remoteIP sample_web (sample_request ''203.0.113.9:5555'' h c) = ''203.0.113.9''"
  by (simp add: remoteIP_def sample_direct sample_trusted)

definition sample_db :: Db where
  "sample_db = \<lparr>db_rows = [], db_seq = 0,
     db_admins = fmupd ''admin'' \<lparr>row_hash = ''secret'', row_created = 1, row_updated = 1\<rparr> fmempty, db_settings = fmempty\<rparr>"

definition sample_moment :: Moment where
  "sample_moment = \<lparr>mo_ip = 1, mo_key = 1, mo_fail_key = 2, mo_fail_ip = 2, mo_create = 2, mo_order_key = [], mo_order_ip = [],
     mo_random = Some [2, 3, 4]\<rparr>"

definition sample_attempt :: "string \<Rightarrow> Attempt" where
  "sample_attempt password = \<lparr>at_eng = quiet, at_db = sample_db, at_mo = sample_moment,
     at_req = sample_request ''203.0.113.9:5555'' (\<lambda>k. []) None, at_user = '' admin'', at_password = password\<rparr>"

lemma sample_attempt_simps [simp]:
  "at_eng (sample_attempt p) = quiet" "at_db (sample_attempt p) = sample_db" "at_mo (sample_attempt p) = sample_moment"
  "at_req (sample_attempt p) = sample_request ''203.0.113.9:5555'' (\<lambda>k. []) None" "at_user (sample_attempt p) = '' admin''"
  "at_password (sample_attempt p) = p"
  by (simp_all add: sample_attempt_def)

lemma sample_trim: "trim_space '' admin'' = ''admin''"
  by code_simp

lemma sample_admin: "AdminByName quiet ''admin'' sample_db = Inr \<lparr>adm_Username = ''admin'', adm_PasswordHash = ''secret''\<rparr>"
  by (simp add: AdminByName_def sample_db_def)

lemma sample_accepts:
  "login_accepts sample_web quiet sample_db ''admin'' ''secret'' = Some \<lparr>adm_Username = ''admin'', adm_PasswordHash = ''secret''\<rparr>"
  "login_accepts sample_web quiet sample_db ''admin'' ''guess'' = None"
  by (simp_all add: login_accepts_def sample_admin sample_web_def)

lemma sample_gate: "fst (login_gate mo ip key NewAuth)"
  by (simp add: login_gate_def NewAuth_def NewLoginLimiter_def newLoginLimiter_def Allowed_def cleanupLocked_def Let_def
      time_is_zero_def split: prod.split)

lemma NewAuth_limits: "limiter_inv (au_ip NewAuth)" "limiter_inv (au_login NewAuth)"
  by (simp_all add: NewAuth_def NewLoginLimiter_def newLoginLimiter_inv)

lemma NewAuth_ttl: "ttl (au_sessions NewAuth) = 24 * hour"
  by (simp add: NewAuth_def NewSessions_def)

lemma sample_login:
  obtains token au' where
    "login sample_web quiet sample_db sample_moment (sample_request ''203.0.113.9:5555'' (\<lambda>k. []) None)
       (Some ('' admin'', ''secret'')) NewAuth = (Answered 200 token, au')"
proof -
  obtain ans au' where l: "login sample_web quiet sample_db sample_moment (sample_request ''203.0.113.9:5555'' (\<lambda>k. []) None)
      (Some ('' admin'', ''secret'')) NewAuth = (ans, au')" by fastforce
  then show thesis
  proof (cases rule: login_cases)
    case (accepted admin a2 q ss)
    have "fst (Create (Some b) t u x) \<noteq> Inl e" for b t u x e by (simp add: Create_def Let_def)
    then have "q \<noteq> Inl e" for e using accepted(4) by (metis Moment.select_convs(8) fst_conv sample_moment_def)
    then obtain t where "q = Inr t" by (cases q) auto
    then show ?thesis using that l accepted by simp
  qed (simp_all add: sample_gate sample_trim sample_accepts)
qed

lemma sample_guess:
  obtains e au' where
    "login sample_web quiet sample_db sample_moment (sample_request ''203.0.113.9:5555'' (\<lambda>k. []) None)
       (Some ('' admin'', ''guess'')) NewAuth = (Refused 401 e, au')"
proof -
  obtain ans au' where l: "login sample_web quiet sample_db sample_moment (sample_request ''203.0.113.9:5555'' (\<lambda>k. []) None)
      (Some ('' admin'', ''guess'')) NewAuth = (ans, au')" by fastforce
  then show thesis
  proof (cases rule: login_cases)
    case wrong
    then show ?thesis using that l by simp
  qed (simp_all add: sample_gate sample_trim sample_accepts)
qed

theorem remote_ip_unforgeable_witness:
  "remoteIP sample_web ((sample_request ''203.0.113.9:5555'' (\<lambda>k. []) None)\<lparr>rq_header := \<lambda>k. ''127.0.0.1''\<rparr>) =
     remoteIP sample_web ((sample_request ''203.0.113.9:5555'' (\<lambda>k. []) None)\<lparr>rq_header := \<lambda>k. ''1.1.1.1''\<rparr>) \<and>
   remoteIP sample_web ((sample_request ''127.0.0.1:99'' (\<lambda>k. []) None)\<lparr>rq_header := \<lambda>k. ''1.1.1.1, 203.0.113.9''\<rparr>) =
     remoteIP sample_web ((sample_request ''127.0.0.1:99'' (\<lambda>k. []) None)\<lparr>rq_header := \<lambda>k. ''9.9.9.9, 203.0.113.9''\<rparr>)"
proof (rule conjI; rule remote_ip_unforgeable)
  show "\<not> trustedProxy sample_web (directRemoteIP (sample_request ''203.0.113.9:5555'' (\<lambda>k. []) None)) \<or>
    (\<exists>appended c. last_untrusted sample_web (rev (split_on (CHR '','') appended)) = Some c \<and>
        (\<exists>forged. ''127.0.0.1'' = forged @ CHR '','' # appended) \<and> (\<exists>forged. ''1.1.1.1'' = forged @ CHR '','' # appended))"
    by (simp add: sample_direct sample_trusted)
  have "''1.1.1.1, 203.0.113.9'' = ''1.1.1.1'' @ CHR '','' # '' 203.0.113.9''"
    "''9.9.9.9, 203.0.113.9'' = ''9.9.9.9'' @ CHR '','' # '' 203.0.113.9''" by simp_all
  then show "\<not> trustedProxy sample_web (directRemoteIP (sample_request ''127.0.0.1:99'' (\<lambda>k. []) None)) \<or>
    (\<exists>appended c. last_untrusted sample_web (rev (split_on (CHR '','') appended)) = Some c \<and>
        (\<exists>forged. ''1.1.1.1, 203.0.113.9'' = forged @ CHR '','' # appended) \<and>
        (\<exists>forged. ''9.9.9.9, 203.0.113.9'' = forged @ CHR '','' # appended))"
    using sample_last by (intro disjI2 exI conjI)
qed

theorem login_outcome_witness:
  "\<exists>token au'. login sample_web quiet sample_db sample_moment (sample_request ''203.0.113.9:5555'' (\<lambda>k. []) None)
       (Some ('' admin'', ''secret'')) NewAuth = (Answered 200 token, au') \<and>
     holder (au_sessions au') 3 token = Some ''admin''"
proof -
  obtain token au' where l: "login sample_web quiet sample_db sample_moment (sample_request ''203.0.113.9:5555'' (\<lambda>k. []) None)
       (Some ('' admin'', ''secret'')) NewAuth = (Answered 200 token, au')" by (rule sample_login)
  from login_outcome [OF l NewAuth_limits] have "holder (au_sessions au') 3 token = Some ''admin''"
    by (auto simp: sample_trim sample_admin NewAuth_ttl sample_moment_def hour_def minute_def second_def)
  with l show ?thesis by blast
qed

lemma sample_history:
  obtains token au' where
    "login sample_web quiet sample_db sample_moment (sample_request ''203.0.113.9:5555'' (\<lambda>k. []) None)
       (Some ('' admin'', ''secret'')) NewAuth = (Answered 200 token, au')"
    "serves sample_web [ELogin (sample_attempt ''secret'') (Answered 200 token)] au'"
    "holder (au_sessions au') 3 token \<noteq> None"
proof -
  obtain token au' where l: "login sample_web quiet sample_db sample_moment (sample_request ''203.0.113.9:5555'' (\<lambda>k. []) None)
       (Some ('' admin'', ''secret'')) NewAuth = (Answered 200 token, au')" by (rule sample_login)
  have "serves sample_web [ELogin (sample_attempt ''secret'') (Answered 200 token)] au'"
    by (rule serves.Login [OF serves.Start]) (simp add: l)
  moreover from l have "holder (au_sessions au') 3 token \<noteq> None"
  proof (cases rule: login_cases)
    case (accepted admin a2 q ss)
    then have c: "Create (Some [2, 3, 4]) 2 (adm_Username admin) (au_sessions a2) = (Inr token, ss)"
      by (simp add: sample_moment_def split: sum.split_asm)
    have "ttl (au_sessions a2) = 24 * hour" using accepted(3)
      by (simp add: login_gate_def Let_def NewAuth_ttl split: prod.split)
    then show ?thesis using holder_Create [OF c, of 3 token] accepted(5)
      by (simp add: hour_def minute_def second_def)
  qed simp_all
  ultimately show thesis using that l by blast
qed

theorem gate_provenance_witness:
  "\<exists>tr au token. serves sample_web tr au \<and>
     fst (request_gate sample_web 3 (sample_request ''203.0.113.9:5555'' (\<lambda>k. []) (Some token)) (au_sessions au)) = None \<and>
     issued sample_web tr token ''admin''"
proof -
  obtain token au' where s: "serves sample_web [ELogin (sample_attempt ''secret'') (Answered 200 token)] au'"
    "holder (au_sessions au') 3 token \<noteq> None" by (rule sample_history)
  let ?r = "sample_request ''203.0.113.9:5555'' (\<lambda>k. []) (Some token)"
  have g: "fst (request_gate sample_web 3 ?r (au_sessions au')) = None"
    using s(2) by (auto simp: request_gate_spec sample_request_def safe_method_def)
  from gate_provenance [OF s(1) g] obtain t u where "rq_cookie ?r = Some t"
    "issued sample_web [ELogin (sample_attempt ''secret'') (Answered 200 token)] t u" by blast
  then have "issued sample_web [ELogin (sample_attempt ''secret'') (Answered 200 token)] token ''admin''"
    by (auto simp: sample_request_def sample_trim sample_accepts)
  with s g show ?thesis by blast
qed

theorem session_serves_witness:
  "\<exists>token au'. login sample_web quiet sample_db sample_moment (sample_request ''203.0.113.9:5555'' (\<lambda>k. []) None)
       (Some ('' admin'', ''secret'')) NewAuth = (Answered 200 token, au') \<and>
     fst (request_gate sample_web 9 (sample_request ''203.0.113.9:5555'' (\<lambda>k. []) (Some token))
       (snd (request_gate sample_web 3 (sample_request ''127.0.0.1:99'' (\<lambda>k. []) (Some token)) (au_sessions au')))) = None \<and>
     fst (request_gate sample_web 9 (sample_request ''203.0.113.9:5555'' (\<lambda>k. []) (Some token))
       (au_sessions (snd (logout (sample_request ''203.0.113.9:5555'' (\<lambda>k. []) (Some token)) au')))) =
       Some (401, ErrNew ''unauthorized'')"
proof -
  obtain token au' where l: "login sample_web quiet sample_db sample_moment (sample_request ''203.0.113.9:5555'' (\<lambda>k. []) None)
       (Some ('' admin'', ''secret'')) NewAuth = (Answered 200 token, au')"
    and s: "serves sample_web [ELogin (sample_attempt ''secret'') (Answered 200 token)] au'" by (rule sample_history)
  let ?q = "sample_request ''203.0.113.9:5555'' (\<lambda>k. []) (Some token)"
  have q: "rq_cookie ?q = Some token" "safe_method ?q \<or> sameOrigin sample_web ?q"
    by (simp_all add: sample_request_def safe_method_def)
  have c: "mo_create sample_moment = 2" by (simp add: sample_moment_def)
  note g = serves.Gate [OF s, of 3 "sample_request ''127.0.0.1:99'' (\<lambda>k. []) (Some token)"]
  have "fst (request_gate sample_web 9 ?q
       (snd (request_gate sample_web 3 (sample_request ''127.0.0.1:99'' (\<lambda>k. []) (Some token)) (au_sessions au')))) = None"
    using session_serves [of sample_web "[EGate 3 (sample_request ''127.0.0.1:99'' (\<lambda>k. []) (Some token))]"
        "sample_attempt ''secret''" token "[]"
        "au'\<lparr>au_sessions := snd (request_gate sample_web 3 (sample_request ''127.0.0.1:99'' (\<lambda>k. []) (Some token)) (au_sessions au'))\<rparr>",
        OF _ _ _ q, of 9] g
    by (simp add: c before_def hour_def minute_def second_def)
  moreover have "fst (request_gate sample_web 9 ?q (au_sessions (snd (logout ?q au')))) = Some (401, ErrNew ''unauthorized'')"
    using session_serves [of sample_web "[ELogout ?q]" "sample_attempt ''secret''" token "[]" "snd (logout ?q au')", OF _ _ _ q, of 9]
      serves.Logout [OF s, of ?q] q(1) by (simp add: c before_def)
  ultimately show ?thesis using l by blast
qed


end
