(* ===== verification/XrayConfig.thy ===== *)
theory XrayConfig
  imports Account
begin

text \<open>
  The Xray configuration (\<open>internal/xray/config.go\<close>, \<open>global_config.go\<close>): it is rebuilt from the
  enabled accounts and the preserved global sections, in which the panel owns the API, the
  statistics, the inbounds and the statistics switches. A base text is \<open>Blank\<close> when it is empty; the
  panel stores the empty text or a marshalled object. A base of white space only, which \<open>base_config\<close>
  would reject and \<open>parseGlobalConfigObject\<close> takes for empty, has no representation.
\<close>

section \<open>Inbounds\<close>

definition opt_member :: "string \<Rightarrow> string \<Rightarrow> (string \<times> json) list" where
  "opt_member key val = (if val = [] then [] else [(key, JStr val)])"

definition doc_of :: "jtext \<Rightarrow> json" where
  "doc_of t = (case t of Doc v \<Rightarrow> v | _ \<Rightarrow> JNull)"

definition inbound_json :: "Account \<Rightarrow> json" where
  "inbound_json a =
     JObj (obj (opt_member ''listen'' (a_Listen a) @
                [(''port'', JNum (of_int (a_Port a))), (''protocol'', JStr (a_Protocol a)),
                 (''settings'', doc_of (a_SettingsJSON a)),
                 (''streamSettings'', doc_of (a_StreamSettingsJSON a)), (''tag'', JStr (a_Tag a)),
                 (''sniffing'', doc_of (a_SniffingJSON a))]))"

definition api_inbound :: "int \<Rightarrow> json" where
  "api_inbound port =
     JObj (obj [(''listen'', JStr ''127.0.0.1''), (''port'', JNum (of_int port)),
                (''protocol'', JStr ''dokodemo-door''),
                (''settings'', JObj (obj [(''address'', JStr ''127.0.0.1'')])), (''tag'', JStr ''api'')])"

definition check_account :: "int set \<Rightarrow> string set \<Rightarrow> Account \<Rightarrow> unit res" where
  "check_account seenPorts seenTags a =
     bindR (guardR (\<not> (a_Port a < 1 \<or> a_Port a > 65535))
              (Errorf ''account %q has invalid port %d'' [a_Name a, itoa (a_Port a)] [])) (\<lambda>_.
     bindR (guardR (a_Port a \<notin> seenPorts) (Errorf ''duplicate port %d'' [itoa (a_Port a)] [])) (\<lambda>_.
     bindR (guardR (a_Tag a \<noteq> []) (Errorf ''account %q has empty tag'' [a_Name a] [])) (\<lambda>_.
     bindR (guardR (a_Tag a \<notin> seenTags) (Errorf ''duplicate tag %q'' [a_Tag a] [])) (\<lambda>_.
     bindR (guardR (json_valid (a_SettingsJSON a))
              (Errorf ''account %q has invalid settings JSON'' [a_Name a] [])) (\<lambda>_.
     bindR (guardR (json_valid (a_StreamSettingsJSON a))
              (Errorf ''account %q has invalid stream settings JSON'' [a_Name a] [])) (\<lambda>_.
     guardR (json_valid (a_SniffingJSON a))
       (Errorf ''account %q has invalid sniffing JSON'' [a_Name a] [])))))))"

fun account_inbounds :: "int set \<Rightarrow> string set \<Rightarrow> Account list \<Rightarrow> (json list \<times> int set) res" where
  "account_inbounds seenPorts seenTags [] = Inr ([], seenPorts)"
| "account_inbounds seenPorts seenTags (a # as) =
     (if \<not> a_Enabled a then account_inbounds seenPorts seenTags as
      else bindR (check_account seenPorts seenTags a) (\<lambda>_.
           bindR (account_inbounds (insert (a_Port a) seenPorts) (insert (a_Tag a) seenTags) as)
             (\<lambda>(js, ports). Inr (inbound_json a # js, ports))))"

section \<open>The whole configuration\<close>

definition mapObject :: "json \<Rightarrow> object" where
  "mapObject v = (case v of JObj m \<Rightarrow> m | _ \<Rightarrow> fmempty)"

definition isAPIRule :: "json \<Rightarrow> bool" where
  "isAPIRule v =
     (case v of
        JObj m \<Rightarrow>
          mget m ''outboundTag'' = JStr ''api'' \<and>
          (case mget m ''inboundTag'' of JArr tags \<Rightarrow> JStr ''api'' \<in> set tags | _ \<Rightarrow> False)
      | _ \<Rightarrow> False)"

definition api_rule :: json where
  "api_rule =
     JObj (obj [(''type'', JStr ''field''), (''inboundTag'', JArr [JStr ''api'']),
                (''outboundTag'', JStr ''api'')])"

definition default_member :: "string \<Rightarrow> json \<Rightarrow> object \<Rightarrow> object" where
  "default_member key v m = (if fmlookup m key = None then fmupd key v m else m)"

definition default_outbounds :: json where
  "default_outbounds =
     JArr [JObj (obj [(''protocol'', JStr ''freedom''), (''tag'', JStr ''direct'')]),
           JObj (obj [(''protocol'', JStr ''blackhole''), (''tag'', JStr ''blocked'')])]"

definition stats_policy :: "json \<Rightarrow> object" where
  "stats_policy v =
     (let policy = mapObject v; system = mapObject (mget policy ''system'')
      in fmupd ''system''
           (JObj (fmupd ''statsInboundDownlink'' (JBool True)
                   (fmupd ''statsInboundUplink'' (JBool True) system))) policy)"

definition api_routing :: "json \<Rightarrow> object" where
  "api_routing v =
     (let routing = mapObject v;
          oldRules = (case mget routing ''rules'' of JArr rs \<Rightarrow> rs | _ \<Rightarrow> [])
      in fmupd ''rules'' (JArr (api_rule # filter (\<lambda>r. \<not> isAPIRule r) oldRules)) routing)"

definition base_config :: "jtext \<Rightarrow> object res" where
  "base_config base =
     (if base = Blank then Inr fmempty
      else case unmarshal_map base of
        Inl e \<Rightarrow> Inl (Errorf ''invalid migrated global Xray config: %w'' [] [e])
      | Inr g \<Rightarrow> (case g of
          GoMap m \<Rightarrow> Inr m | NilMap \<Rightarrow> Inl (GoPanic ''assignment to entry in nil map'')))"

definition BuildConfigWithBase :: "Account list \<Rightarrow> int \<Rightarrow> jtext \<Rightarrow> object res" where
  "BuildConfigWithBase accounts apiPort0 base =
     bindR (account_inbounds {} {} accounts) (\<lambda>(js, seenPorts).
     (let apiPort = (if apiPort0 \<le> 0 then 10085 else apiPort0) in
      bindR (guardR (apiPort \<notin> seenPorts)
               (Errorf ''Xray API port %d conflicts with an account'' [itoa apiPort] [])) (\<lambda>_.
      bindR (base_config base) (\<lambda>cfg0.
      (let cfg = default_member ''outbounds'' default_outbounds
                   (default_member ''log'' (JObj (obj [(''loglevel'', JStr ''warning'')])) cfg0);
           cfg = fmupd ''api''
                   (JObj (obj [(''tag'', JStr ''api''),
                               (''services'', JArr [JStr ''HandlerService'', JStr ''LoggerService'',
                                                   JStr ''StatsService''])])) cfg;
           cfg = fmupd ''inbounds'' (JArr (js @ [api_inbound apiPort]))
                   (fmupd ''stats'' (JObj fmempty) cfg);
           cfg = fmupd ''policy'' (JObj (stats_policy (mget cfg ''policy''))) cfg
       in Inr (fmupd ''routing'' (JObj (api_routing (mget cfg ''routing''))) cfg))))))"

definition BuildConfig :: "Account list \<Rightarrow> int \<Rightarrow> object res" where
  "BuildConfig accounts apiPort = BuildConfigWithBase accounts apiPort Blank"

section \<open>The editable global sections\<close>

definition editableGlobalXraySections :: "string list" where
  "editableGlobalXraySections = [''routing'', ''dns'', ''outbounds'', ''policy'']"

definition managedGlobalXraySections :: "string list" where
  "managedGlobalXraySections = [''api'', ''stats'', ''inbounds'']"

text \<open>The size limit looks at the text; \<open>big\<close> says whether it is exceeded.\<close>

definition parseGlobalConfigObject :: "bool \<Rightarrow> jtext \<Rightarrow> string \<Rightarrow> object res" where
  "parseGlobalConfigObject big raw label =
     (if raw = Blank then Inr fmempty
      else if big then Inl (Errorf ''%s is too large'' [label] [])
      else case unmarshal_map raw of
        Inl e \<Rightarrow> Inl (Errorf ''parse %s: %w'' [label] [e])
      | Inr g \<Rightarrow> (case g of
          NilMap \<Rightarrow> Inl (ErrNew (label @ '' must be a JSON object''))
        | GoMap m \<Rightarrow> Inr m))"

definition EditableGlobalConfig :: "bool \<Rightarrow> jtext \<Rightarrow> object res" where
  "EditableGlobalConfig big base =
     bindR (parseGlobalConfigObject big base ''stored global Xray config'') (\<lambda>m.
       Inr (fmrestrict_set (set editableGlobalXraySections) m))"

text \<open>The first member that is not editable, in the order the \<open>range\<close> loop visits them.\<close>

definition section_error :: "string \<Rightarrow> err" where
  "section_error key =
     (if key \<in> set managedGlobalXraySections
      then Errorf ''%s is managed by X-port and cannot be overridden here'' [key] []
      else Errorf ''section %q is not editable here; allowed sections are routing, dns, outbounds, policy''
             [key] [])"

definition MergeEditableGlobalConfig ::
    "string list \<Rightarrow> bool \<Rightarrow> bool \<Rightarrow> jtext \<Rightarrow> jtext \<Rightarrow> (jtext \<times> jtext) res" where
  "MergeEditableGlobalConfig order big1 big2 baseJSON editableJSON =
     bindR (parseGlobalConfigObject big1 baseJSON ''stored global Xray config'') (\<lambda>base.
     bindR (parseGlobalConfigObject big2 editableJSON ''global Xray advanced config'') (\<lambda>editable.
     case List.find (\<lambda>k. fmlookup editable k \<noteq> None \<and> k \<notin> set editableGlobalXraySections) order of
       Some key \<Rightarrow> Inl (section_error key)
     | None \<Rightarrow>
         Inr (marshal (fmadd (fmdrop_set (set editableGlobalXraySections \<union> set managedGlobalXraySections) base) editable),
              marshal editable)))"

section \<open>What a built configuration contains\<close>

definition inbound_ok :: "Account \<Rightarrow> bool" where
  "inbound_ok a \<longleftrightarrow>
     1 \<le> a_Port a \<and> a_Port a \<le> 65535 \<and> a_Tag a \<noteq> [] \<and> json_valid (a_SettingsJSON a) \<and>
     json_valid (a_StreamSettingsJSON a) \<and> json_valid (a_SniffingJSON a)"

lemma check_account_ok:
  "check_account ports tags a = Inr u \<longleftrightarrow>
     inbound_ok a \<and> a_Port a \<notin> ports \<and> a_Tag a \<notin> tags"
  by (auto simp: check_account_def inbound_ok_def)

lemma account_inbounds_iff:
  "account_inbounds ports tags as = Inr (js, ports') \<longleftrightarrow>
     (let en = filter a_Enabled as in
      (\<forall>a \<in> set en. inbound_ok a \<and> a_Port a \<notin> ports \<and> a_Tag a \<notin> tags) \<and>
      distinct (map a_Port en) \<and> distinct (map a_Tag en) \<and>
      js = map inbound_json en \<and> ports' = ports \<union> a_Port ` set en)"
proof (induction as arbitrary: ports tags js)
  case Nil
  then show ?case by auto
next
  case (Cons a as)
  show ?case
  proof (cases "a_Enabled a")
    case False
    then show ?thesis by (simp add: Cons.IH)
  next
    case True
    have "account_inbounds ports tags (a # as) = Inr (js, ports') \<longleftrightarrow>
      inbound_ok a \<and> a_Port a \<notin> ports \<and> a_Tag a \<notin> tags \<and>
      (\<exists>js1. js = inbound_json a # js1 \<and>
        account_inbounds (insert (a_Port a) ports) (insert (a_Tag a) tags) as = Inr (js1, ports'))"
      using True by (auto simp: check_account_ok)
    also have "\<dots> \<longleftrightarrow> (let en = filter a_Enabled (a # as) in
      (\<forall>a \<in> set en. inbound_ok a \<and> a_Port a \<notin> ports \<and> a_Tag a \<notin> tags) \<and>
      distinct (map a_Port en) \<and> distinct (map a_Tag en) \<and>
      js = map inbound_json en \<and> ports' = ports \<union> a_Port ` set en)"
      using True by (auto simp: Cons.IH Let_def) (metis (mono_tags, lifting) image_eqI mem_Collect_eq)+
    finally show ?thesis .
  qed
qed

definition api_port :: "int \<Rightarrow> int" where
  "api_port p = (if p \<le> 0 then 10085 else p)"

definition config_ok :: "Account list \<Rightarrow> int \<Rightarrow> bool" where
  "config_ok as apiPort \<longleftrightarrow>
     (let en = filter a_Enabled as in
      (\<forall>a \<in> set en. inbound_ok a) \<and> distinct (map a_Port en) \<and> distinct (map a_Tag en) \<and>
      api_port apiPort \<notin> a_Port ` set en)"

lemma base_config_Inr:
  "base_config base = Inr m \<longleftrightarrow> (base = Blank \<and> m = fmempty) \<or> base = Doc (JObj m)"
  by (cases base rule: unmarshal_map.cases) (auto simp: base_config_def)

lemma BuildConfig_iff:
  "BuildConfigWithBase as apiPort base = Inr cfg \<longleftrightarrow>
     config_ok as apiPort \<and>
     (\<exists>m. base_config base = Inr m \<and>
       cfg = fmupd ''routing'' (JObj (api_routing (mget m ''routing'')))
              (fmupd ''policy'' (JObj (stats_policy (mget m ''policy'')))
                (fmupd ''inbounds'' (JArr (map inbound_json (filter a_Enabled as) @ [api_inbound (api_port apiPort)]))
                  (fmupd ''stats'' (JObj fmempty)
                    (fmupd ''api'' (JObj (obj [(''tag'', JStr ''api''),
                               (''services'', JArr [JStr ''HandlerService'', JStr ''LoggerService'',
                                                   JStr ''StatsService''])]))
                      (default_member ''outbounds'' default_outbounds
                        (default_member ''log'' (JObj (obj [(''loglevel'', JStr ''warning'')])) m)))))))"
proof -
  have dm: "k \<noteq> k' \<Longrightarrow> mget (default_member k v m) k' = mget m k'" for k k' v m
    by (simp add: default_member_def)
  show ?thesis
    unfolding BuildConfigWithBase_def config_ok_def
    by (simp add: account_inbounds_iff Let_def split_paired_Ex api_port_def [symmetric] dm)
      (auto simp: api_port_def)
qed

lemma config_members:
  assumes "BuildConfigWithBase as apiPort base = Inr cfg" "base_config base = Inr m"
  shows "mget cfg ''inbounds'' = JArr (map inbound_json (filter a_Enabled as) @ [api_inbound (api_port apiPort)])"
    and "mget cfg ''routing'' = JObj (api_routing (mget m ''routing''))"
    and "mget cfg ''policy'' = JObj (stats_policy (mget m ''policy''))"
    and "k \<notin> {''routing'', ''policy'', ''inbounds'', ''stats'', ''api'', ''outbounds'', ''log''} \<Longrightarrow> mget cfg k = mget m k"
    and "fmlookup m k = Some v \<Longrightarrow> k \<in> {''outbounds'', ''log''} \<Longrightarrow> mget cfg k = v"
  using assms by (auto simp: BuildConfig_iff default_member_def mget_def)

text \<open>Exactly one rule routes the API, and it comes first; the others keep their order.\<close>

definition rules_of :: "object \<Rightarrow> json list" where
  "rules_of routing = (case mget routing ''rules'' of JArr rs \<Rightarrow> rs | _ \<Rightarrow> [])"

lemma isAPIRule_api_rule: "isAPIRule api_rule"
  by (simp add: api_rule_def isAPIRule_def)

lemma api_routing_rules:
  "rules_of (api_routing v) = api_rule # filter (\<lambda>r. \<not> isAPIRule r) (rules_of (mapObject v))"
  by (simp add: api_routing_def rules_of_def Let_def)

lemma api_routing_once: "filter isAPIRule (rules_of (api_routing v)) = [api_rule]"
  by (simp add: api_routing_rules isAPIRule_api_rule)

lemma api_routing_idem: "api_routing (JObj (api_routing v)) = api_routing v"
  using isAPIRule_api_rule by (simp add: api_routing_def Let_def mapObject_def)

lemma stats_policy_idem: "stats_policy (JObj (stats_policy v)) = stats_policy v"
proof (rule fmap_ext)
  fix k show "fmlookup (stats_policy (JObj (stats_policy v))) k = fmlookup (stats_policy v) k"
    by (auto simp: stats_policy_def Let_def mapObject_def intro!: fmap_ext)
qed

text \<open>What the panel changes inside the routing and the policy, and nothing else there.\<close>

lemma api_routing_kept: "k \<noteq> ''rules'' \<Longrightarrow> mget (api_routing v) k = mget (mapObject v) k"
  by (simp add: api_routing_def Let_def)

lemma stats_policy_kept: "k \<noteq> ''system'' \<Longrightarrow> mget (stats_policy v) k = mget (mapObject v) k"
  by (simp add: stats_policy_def Let_def)

lemma stats_policy_system:
  "\<exists>s. mget (stats_policy v) ''system'' = JObj s \<and>
     mget s ''statsInboundUplink'' = JBool True \<and> mget s ''statsInboundDownlink'' = JBool True \<and>
     (\<forall>k. k \<notin> {''statsInboundUplink'', ''statsInboundDownlink''} \<longrightarrow>
        mget s k = mget (mapObject (mget (mapObject v) ''system'')) k)"
  by (simp add: stats_policy_def Let_def)

lemma config_default_sections:
  assumes "BuildConfigWithBase as apiPort base = Inr cfg" "base_config base = Inr m"
  shows "fmlookup cfg ''outbounds'' = Some (case fmlookup m ''outbounds'' of Some v \<Rightarrow> v | None \<Rightarrow> default_outbounds)"
    and "fmlookup cfg ''log'' =
      Some (case fmlookup m ''log'' of Some v \<Rightarrow> v | None \<Rightarrow> JObj (obj [(''loglevel'', JStr ''warning'')]))"
  using assms by (auto simp: BuildConfig_iff default_member_def split: option.split)

text \<open>Building again on top of a built configuration changes nothing.\<close>

lemma fmupd_same: "fmlookup m k = Some v \<Longrightarrow> fmupd k v m = m"
  by (rule fmap_ext) auto

lemma config_lookup:
  assumes "BuildConfigWithBase as apiPort base = Inr cfg" "base_config base = Inr m"
  shows "fmlookup cfg ''routing'' = Some (JObj (api_routing (mget m ''routing'')))"
    and "fmlookup cfg ''policy'' = Some (JObj (stats_policy (mget m ''policy'')))"
    and "fmlookup cfg ''inbounds'' =
      Some (JArr (map inbound_json (filter a_Enabled as) @ [api_inbound (api_port apiPort)]))"
    and "fmlookup cfg ''stats'' = Some (JObj fmempty)"
    and "fmlookup cfg ''api'' = Some (JObj (obj [(''tag'', JStr ''api''),
           (''services'', JArr [JStr ''HandlerService'', JStr ''LoggerService'', JStr ''StatsService''])]))"
  using assms by (simp_all add: BuildConfig_iff)

lemma config_defaults:
  assumes "BuildConfigWithBase as apiPort base = Inr cfg"
  shows "default_member ''log'' v cfg = cfg" "default_member ''outbounds'' v cfg = cfg"
  using assms by (auto simp: BuildConfig_iff default_member_def)

lemma BuildConfig_idem:
  assumes b: "BuildConfigWithBase as apiPort base = Inr cfg"
  shows "BuildConfigWithBase as apiPort (marshal cfg) = Inr cfg"
proof -
  obtain m where m: "base_config base = Inr m" using b by (auto simp: BuildConfig_iff)
  have ok: "config_ok as apiPort" using b by (simp add: BuildConfig_iff)
  have base: "base_config (marshal cfg) = Inr cfg" by (simp add: base_config_Inr marshal_def)
  note l = config_lookup [OF b m]
  have "mget cfg ''routing'' = JObj (api_routing (mget m ''routing''))"
      "mget cfg ''policy'' = JObj (stats_policy (mget m ''policy''))"
    using l by (simp_all add: mget_def)
  then show ?thesis
    unfolding BuildConfig_iff
    using ok base l
    by (simp add: config_defaults [OF b] api_routing_idem stats_policy_idem fmupd_same)
qed

section \<open>Editing the global sections\<close>

lemma parseGlobal_Inr:
  "parseGlobalConfigObject big raw label = Inr m \<longleftrightarrow>
     (raw = Blank \<and> m = fmempty) \<or> (\<not> big \<and> raw = Doc (JObj m))"
  by (cases raw rule: unmarshal_map.cases) (auto simp: parseGlobalConfigObject_def)

lemma Merge_iff:
  assumes order: "\<And>m. parseGlobalConfigObject big2 editable ''global Xray advanced config'' = Inr m \<Longrightarrow>
      set order = fmdom' m"
  shows "MergeEditableGlobalConfig order big1 big2 base editable = Inr (merged, normalized) \<longleftrightarrow>
    (\<exists>b e. parseGlobalConfigObject big1 base ''stored global Xray config'' = Inr b \<and>
       parseGlobalConfigObject big2 editable ''global Xray advanced config'' = Inr e \<and>
       fmdom' e \<subseteq> set editableGlobalXraySections \<and>
       merged = marshal (fmadd (fmdrop_set (set editableGlobalXraySections \<union> set managedGlobalXraySections) b) e) \<and>
       normalized = marshal e)"
proof -
  have "List.find (\<lambda>k. fmlookup e k \<noteq> None \<and> k \<notin> set editableGlobalXraySections) order = None \<longleftrightarrow>
      fmdom' e \<subseteq> set editableGlobalXraySections"
    if "parseGlobalConfigObject big2 editable ''global Xray advanced config'' = Inr e" for e
    using order [OF that] by (auto simp: find_None_iff fmdom'I fmlookup_dom'_iff) (metis option.distinct(1))
  then show ?thesis
    by (auto simp: MergeEditableGlobalConfig_def split: option.split option.split_asm)
qed

lemma Merge_members:
  assumes "fmdom' e \<subseteq> set editableGlobalXraySections"
    and "m = fmadd (fmdrop_set (set editableGlobalXraySections \<union> set managedGlobalXraySections) b) e"
  shows "k \<in> set editableGlobalXraySections \<Longrightarrow> fmlookup m k = fmlookup e k"
    and "k \<in> set managedGlobalXraySections \<Longrightarrow> fmlookup m k = None"
    and "k \<notin> set editableGlobalXraySections \<Longrightarrow> k \<notin> set managedGlobalXraySections \<Longrightarrow> fmlookup m k = fmlookup b k"
    and "fmrestrict_set (set editableGlobalXraySections) m = e"
proof -
  have out: "fmlookup e k = None" if "k \<notin> set editableGlobalXraySections" for k
    using assms(1) that by (metis fmdom'_notD subsetD)
  have disj: "k \<in> set managedGlobalXraySections \<Longrightarrow> k \<notin> set editableGlobalXraySections" for k
    by (auto simp: managedGlobalXraySections_def editableGlobalXraySections_def)
  show "k \<in> set editableGlobalXraySections \<Longrightarrow> fmlookup m k = fmlookup e k"
    by (auto simp: assms(2) fmdom'_notD)
  show "k \<in> set managedGlobalXraySections \<Longrightarrow> fmlookup m k = None"
    using disj [of k] out [of k] by (auto simp: assms(2))
  show "k \<notin> set editableGlobalXraySections \<Longrightarrow> k \<notin> set managedGlobalXraySections \<Longrightarrow> fmlookup m k = fmlookup b k"
    using out [of k] by (auto simp: assms(2))
  show "fmrestrict_set (set editableGlobalXraySections) m = e"
    by (rule fmap_ext) (auto simp: assms(2) out)
qed

section \<open>Properties\<close>

text \<open>(C29) A configuration is built exactly when the enabled accounts have valid documents, valid and
  distinct ports and tags, none of them the port of the API, and the base is an object; it then
  serves exactly the enabled accounts, in their order, and the API.\<close>

theorem config_built_iff:
  "(\<exists>cfg. BuildConfigWithBase as apiPort base = Inr cfg) =
     (config_ok as apiPort \<and> (\<exists>m. base_config base = Inr m)) \<and>
   {cfg. BuildConfigWithBase as apiPort base = Inr cfg} \<subseteq>
     {cfg. mget cfg ''inbounds'' =
        JArr (map inbound_json (filter a_Enabled as) @ [api_inbound (api_port apiPort)])}"
proof (intro conjI subsetI CollectI)
  show "(\<exists>cfg. BuildConfigWithBase as apiPort base = Inr cfg) =
     (config_ok as apiPort \<and> (\<exists>m. base_config base = Inr m))"
    by (simp add: BuildConfig_iff)
next
  fix cfg assume "cfg \<in> {cfg. BuildConfigWithBase as apiPort base = Inr cfg}"
  then have b: "BuildConfigWithBase as apiPort base = Inr cfg" by simp
  then obtain m where "base_config base = Inr m" by (auto simp: BuildConfig_iff)
  with b show "mget cfg ''inbounds'' =
      JArr (map inbound_json (filter a_Enabled as) @ [api_inbound (api_port apiPort)])"
    by (rule config_members(1))
qed

text \<open>(C30) Building is idempotent and touches only what the panel owns. Exactly one routing rule sends the
  API's traffic to the API; it comes first and the rules of the base that are not API rules follow in
  their order, and every other member of the routing (the domain strategy, the balancers) is that of the
  base. In the policy only the two statistics switches of its system part are set. Outbounds and log are
  those of the base, or the defaults where it has none; every section the panel does not know is kept.\<close>

theorem config_api_route:
  assumes "BuildConfigWithBase as apiPort base = Inr cfg" and "base_config base = Inr m"
  shows "BuildConfigWithBase as apiPort (marshal cfg) = Inr cfg \<and>
         (\<exists>r. mget cfg ''routing'' = JObj r \<and> filter isAPIRule (rules_of r) = [api_rule] \<and>
              rules_of r = api_rule # filter (\<lambda>x. \<not> isAPIRule x) (rules_of (mapObject (mget m ''routing''))) \<and>
              (\<forall>k. k \<noteq> ''rules'' \<longrightarrow> mget r k = mget (mapObject (mget m ''routing'')) k)) \<and>
         (\<exists>p s. mget cfg ''policy'' = JObj p \<and> mget p ''system'' = JObj s \<and>
              mget s ''statsInboundUplink'' = JBool True \<and> mget s ''statsInboundDownlink'' = JBool True \<and>
              (\<forall>k. k \<noteq> ''system'' \<longrightarrow> mget p k = mget (mapObject (mget m ''policy'')) k) \<and>
              (\<forall>k. k \<notin> {''statsInboundUplink'', ''statsInboundDownlink''} \<longrightarrow>
                 mget s k = mget (mapObject (mget (mapObject (mget m ''policy'')) ''system'')) k)) \<and>
         fmlookup cfg ''outbounds'' = Some (case fmlookup m ''outbounds'' of Some v \<Rightarrow> v | None \<Rightarrow> default_outbounds) \<and>
         fmlookup cfg ''log'' =
           Some (case fmlookup m ''log'' of Some v \<Rightarrow> v | None \<Rightarrow> JObj (obj [(''loglevel'', JStr ''warning'')])) \<and>
         (\<forall>k. k \<notin> {''routing'', ''policy'', ''inbounds'', ''stats'', ''api'', ''outbounds'', ''log''} \<longrightarrow>
              mget cfg k = mget m k)"
proof (intro conjI)
  show "BuildConfigWithBase as apiPort (marshal cfg) = Inr cfg" by (rule BuildConfig_idem [OF assms(1)])
  show "\<exists>p s. mget cfg ''policy'' = JObj p \<and> mget p ''system'' = JObj s \<and>
      mget s ''statsInboundUplink'' = JBool True \<and> mget s ''statsInboundDownlink'' = JBool True \<and>
      (\<forall>k. k \<noteq> ''system'' \<longrightarrow> mget p k = mget (mapObject (mget m ''policy'')) k) \<and>
      (\<forall>k. k \<notin> {''statsInboundUplink'', ''statsInboundDownlink''} \<longrightarrow>
         mget s k = mget (mapObject (mget (mapObject (mget m ''policy'')) ''system'')) k)"
    using config_members(3) [OF assms] stats_policy_system [of "mget m ''policy''"] stats_policy_kept by auto
qed (use config_members(2,4) [OF assms] config_default_sections [OF assms] in
      \<open>simp_all add: api_routing_rules isAPIRule_api_rule api_routing_kept\<close>)

theorem config_api_route_witness:
  "\<exists>cfg r. BuildConfig [] 0 = Inr cfg \<and> mget cfg ''routing'' = JObj r \<and> rules_of r = [api_rule]"
proof -
  have base: "base_config Blank = Inr fmempty" by (simp add: base_config_Inr)
  obtain cfg where cfg: "BuildConfigWithBase [] 0 Blank = Inr cfg"
    by (simp add: BuildConfig_iff base config_ok_def)
  from config_api_route [OF this base] cfg show ?thesis
    by (auto simp: BuildConfig_def rules_of_def mapObject_def)
qed

text \<open>Editing the global sections: after a merge the four editable sections are exactly those of
  the edited document, the sections the panel manages are gone, every other section of the stored
  base is kept, and reading the editable part back gives the edited document.\<close>

theorem global_config_merge:
  assumes "MergeEditableGlobalConfig order big1 big2 base editable = Inr (merged, normalized)"
    and "editable = Doc (JObj e)" "set order = fmdom' e"
  shows "\<exists>b m. parseGlobalConfigObject big1 base ''stored global Xray config'' = Inr b \<and>
           merged = marshal m \<and> normalized = marshal e \<and>
           EditableGlobalConfig False merged = Inr e \<and>
           (\<forall>k. fmlookup m k =
              (if k \<in> set editableGlobalXraySections then fmlookup e k
               else if k \<in> set managedGlobalXraySections then None else fmlookup b k))"
proof -
  have covers: "set order = fmdom' m" if "parseGlobalConfigObject big2 editable ''global Xray advanced config'' = Inr m" for m
    using that assms(2,3) by (auto simp: parseGlobal_Inr)
  obtain b where b: "parseGlobalConfigObject big1 base ''stored global Xray config'' = Inr b"
    and e: "fmdom' e \<subseteq> set editableGlobalXraySections"
    and merged: "merged = marshal (fmadd (fmdrop_set (set editableGlobalXraySections \<union> set managedGlobalXraySections) b) e)"
      "normalized = marshal e"
    using iffD1 [OF Merge_iff [OF covers] assms(1)] assms(2) by (auto simp: parseGlobal_Inr)
  note m = Merge_members [OF e refl, where b = b]
  have "EditableGlobalConfig False merged = Inr e"
    using m(4) by (simp add: EditableGlobalConfig_def merged(1) marshal_def parseGlobalConfigObject_def)
  then show ?thesis
    using b merged m(1-3) by (intro exI conjI allI) auto
qed

theorem global_config_merge_witness:
  "\<exists>merged normalized.
     MergeEditableGlobalConfig [''dns''] False False (Doc (JObj (obj [(''log'', JNull), (''api'', JNull)])))
       (Doc (JObj (obj [(''dns'', JBool True)]))) = Inr (merged, normalized) \<and>
     EditableGlobalConfig False merged = Inr (obj [(''dns'', JBool True)])"
proof -
  let ?b = "Doc (JObj (obj [(''log'', JNull), (''api'', JNull)]))"
  let ?e = "obj [(''dns'', JBool True)]"
  obtain merged normalized where m: "MergeEditableGlobalConfig [''dns''] False False ?b (Doc (JObj ?e)) = Inr (merged, normalized)"
    by (simp add: MergeEditableGlobalConfig_def parseGlobalConfigObject_def editableGlobalXraySections_def)
  have "EditableGlobalConfig False merged = Inr ?e"
    using global_config_merge [OF m refl] by auto
  with m show ?thesis by blast
qed

end
