(* ===== verification/XrayManager.thy ===== *)
theory XrayManager
  imports XrayConfig
begin

text \<open>
  Applying a configuration (\<open>internal/xray/manager.go\<close>, \<open>clearStartLimitForRollback\<close> of
  \<open>restart.go\<close>, \<open>ApplyWithBase\<close> of \<open>global_config.go\<close>): build it, let Xray test it, replace the
  configuration file, restart the service, and put the previous file back when the restart fails.

  The state is the manager's own fields and the content of the configuration file. What the file
  system, the Xray binary and systemd answer during one call is an \<open>Xos\<close>; \<open>answers\<close> gives the one
  of each call. \<open>restartAndVerify\<close> is one answer: its polling loop is about time only.
\<close>

record Xos =
  x_prepare :: "err option"          \<comment> \<open>directory, temporary file, mode, write, close\<close>
  x_test :: "object \<Rightarrow> err option"     \<comment> \<open>xray run -test\<close>
  x_read :: "err option"             \<comment> \<open>reading an existing configuration\<close>
  x_active :: bool                   \<comment> \<open>systemctl is-active\<close>
  x_rename :: "err option"
  x_restart :: "object \<Rightarrow> err option"  \<comment> \<open>restartAndVerify with this configuration\<close>
  x_restore :: "err option"          \<comment> \<open>restoreConfig\<close>
  x_limited :: bool                  \<comment> \<open>the failure says start-limit-hit\<close>
  x_show_limited :: bool             \<comment> \<open>systemctl show says so\<close>
  x_reset :: "err option"            \<comment> \<open>systemctl reset-failed\<close>
  x_restart2 :: "object \<Rightarrow> err option" \<comment> \<open>the restart after a restore\<close>

record Manager =
  m_BinaryPath :: string
  m_ConfigPath :: string
  m_Service :: string
  m_APIPort :: int
  m_BaseConfigJSON :: jtext
  m_file :: "object option"
  m_calls :: nat

definition opt_res :: "err option \<Rightarrow> unit res" where
  "opt_res e = (case e of None \<Rightarrow> Inr () | Some e \<Rightarrow> Inl e)"

lemma opt_res_Inr [simp]: "opt_res e = Inr u \<longleftrightarrow> e = None"
  by (simp add: opt_res_def split: option.split)

definition clearStartLimitForRollback :: "Xos \<Rightarrow> unit res" where
  "clearStartLimitForRollback os =
     (if \<not> (x_limited os \<or> x_show_limited os) then Inr () else opt_res (x_reset os))"

text \<open>What happens after the restart with the new configuration failed.\<close>

definition recover :: "Xos \<Rightarrow> object option \<Rightarrow> err \<Rightarrow> Manager \<Rightarrow> err \<times> Manager" where
  "recover os previous applyErr m =
     (case previous of
        None \<Rightarrow> (Errorf ''Xray restart failed (%w); no previous configuration exists to restore'' [] [applyErr], m)
      | Some prev \<Rightarrow>
          (case x_restore os of
             Some e \<Rightarrow>
               (Errorf ''Xray restart failed (%v); restoring previous configuration also failed: %w'' [] [applyErr, e], m)
           | None \<Rightarrow>
               (let m1 = m\<lparr>m_file := Some prev\<rparr> in
                case clearStartLimitForRollback os of
                  Inl e \<Rightarrow>
                    (Errorf ''Xray restart failed (%v); previous configuration restored but systemd recovery failed: %w''
                       [] [applyErr, e], m1)
                | Inr _ \<Rightarrow>
                    (case x_restart2 os prev of
                       Some e \<Rightarrow>
                         (Errorf ''Xray restart failed (%v); previous configuration restored but Xray could not restart: %w''
                            [] [applyErr, e], m1)
                     | None \<Rightarrow>
                         (Errorf ''Xray restart failed (%v); previous configuration and service restored'' [] [applyErr],
                          m1)))))"

definition installConfig :: "Xos \<Rightarrow> object \<Rightarrow> Manager \<Rightarrow> unit res \<times> Manager" where
  "installConfig os cfg m =
     (let previous = m_file m in
      if previous \<noteq> None \<and> x_read os \<noteq> None then
        (Inl (Errorf ''read existing Xray configuration: %w'' [] [the (x_read os)]), m)
      else if previous = Some cfg then
        (if m_Service m = [] then (Inr (), m)
         else if x_active os then (Inr (), m)
         else (opt_res (x_restart os cfg), m))
      else case x_rename os of
        Some e \<Rightarrow> (Inl e, m)
      | None \<Rightarrow>
          (let m1 = m\<lparr>m_file := Some cfg\<rparr> in
           if m_Service m = [] then (Inr (), m1)
           else case x_restart os cfg of
             None \<Rightarrow> (Inr (), m1)
           | Some applyErr \<Rightarrow> (let (e, m2) = recover os previous applyErr m1 in (Inl e, m2))))"

definition applyLocked :: "Xos \<Rightarrow> Account list \<Rightarrow> Manager \<Rightarrow> unit res \<times> Manager" where
  "applyLocked os accounts m =
     (case bindR (BuildConfigWithBase accounts (m_APIPort m) (m_BaseConfigJSON m)) (\<lambda>cfg.
           bindR (guardR (\<not> (m_BinaryPath m = [] \<or> m_ConfigPath m = []))
                    (ErrNew ''Xray runtime paths are not configured'')) (\<lambda>_.
           bindR (opt_res (x_prepare os)) (\<lambda>_.
           (case x_test os cfg of
              Some e \<Rightarrow> Inl (Errorf ''Xray config validation failed: %v: %s'' [] [e])
            | None \<Rightarrow> Inr cfg)))) of
        Inl e \<Rightarrow> (Inl e, m)
      | Inr cfg \<Rightarrow> installConfig os cfg m)"

definition next_call :: "Manager \<Rightarrow> Manager" where
  "next_call m = m\<lparr>m_calls := Suc (m_calls m)\<rparr>"

definition Apply :: "(nat \<Rightarrow> Xos) \<Rightarrow> Account list \<Rightarrow> Manager \<Rightarrow> unit res \<times> Manager" where
  "Apply answers accounts m = applyLocked (answers (m_calls m)) accounts (next_call m)"

definition ApplyWithAPIPort :: "(nat \<Rightarrow> Xos) \<Rightarrow> Account list \<Rightarrow> int \<Rightarrow> Manager \<Rightarrow> unit res \<times> Manager" where
  "ApplyWithAPIPort answers accounts port m =
     (case applyLocked (answers (m_calls m)) accounts (next_call (m\<lparr>m_APIPort := port\<rparr>)) of
        (Inr u, m') \<Rightarrow> (Inr u, m')
      | (Inl e, m') \<Rightarrow> (Inl e, m'\<lparr>m_APIPort := m_APIPort m\<rparr>))"

definition ApplyWithBase :: "(nat \<Rightarrow> Xos) \<Rightarrow> Account list \<Rightarrow> jtext \<Rightarrow> Manager \<Rightarrow> unit res \<times> Manager" where
  "ApplyWithBase answers accounts base m =
     (case applyLocked (answers (m_calls m)) accounts (next_call (m\<lparr>m_BaseConfigJSON := base\<rparr>)) of
        (Inr u, m') \<Rightarrow> (Inr u, m')
      | (Inl e, m') \<Rightarrow> (Inl e, m'\<lparr>m_BaseConfigJSON := m_BaseConfigJSON m\<rparr>))"

section \<open>Success and failure\<close>

lemma recover_fields [simp]:
  "m_APIPort (snd (recover os p e m)) = m_APIPort m"
  "m_BaseConfigJSON (snd (recover os p e m)) = m_BaseConfigJSON m"
  "m_Service (snd (recover os p e m)) = m_Service m"
  "m_BinaryPath (snd (recover os p e m)) = m_BinaryPath m"
  "m_ConfigPath (snd (recover os p e m)) = m_ConfigPath m"
  "m_calls (snd (recover os p e m)) = m_calls m"
  by (simp_all add: recover_def Let_def split: option.split sum.split)

lemma installConfig_fields [simp]:
  "m_APIPort (snd (installConfig os cfg m)) = m_APIPort m"
  "m_BaseConfigJSON (snd (installConfig os cfg m)) = m_BaseConfigJSON m"
  "m_Service (snd (installConfig os cfg m)) = m_Service m"
  "m_BinaryPath (snd (installConfig os cfg m)) = m_BinaryPath m"
  "m_ConfigPath (snd (installConfig os cfg m)) = m_ConfigPath m"
  "m_calls (snd (installConfig os cfg m)) = m_calls m"
  by (simp_all add: installConfig_def Let_def split_def split: option.split)

lemma applyLocked_fields [simp]:
  "m_APIPort (snd (applyLocked os as m)) = m_APIPort m"
  "m_BaseConfigJSON (snd (applyLocked os as m)) = m_BaseConfigJSON m"
  "m_Service (snd (applyLocked os as m)) = m_Service m"
  "m_BinaryPath (snd (applyLocked os as m)) = m_BinaryPath m"
  "m_ConfigPath (snd (applyLocked os as m)) = m_ConfigPath m"
  "m_calls (snd (applyLocked os as m)) = m_calls m"
  by (simp_all add: applyLocked_def split: sum.split)

lemma installConfig_ok:
  "installConfig os cfg m = (Inr u, m') \<Longrightarrow> m_file m' = Some cfg"
  by (auto simp: installConfig_def Let_def split_def split: if_split_asm option.split_asm)

text \<open>After a failure the file is the old one, if there was one and restoring it did not fail.\<close>

lemma installConfig_failed:
  assumes "installConfig os cfg m = (Inl e, m')" "m_file m \<noteq> None" "x_restore os = None"
  shows "m_file m' = m_file m"
  using assms
  by (auto simp: installConfig_def recover_def Let_def split_def
      split: if_split_asm option.split_asm sum.split_asm)

lemma applyLocked_ok:
  assumes "applyLocked os as m = (Inr u, m')"
  obtains cfg where "BuildConfigWithBase as (m_APIPort m) (m_BaseConfigJSON m) = Inr cfg"
    "x_test os cfg = None" "m_file m' = Some cfg"
  using assms
  by (auto simp: applyLocked_def split: sum.split_asm option.split_asm dest: installConfig_ok)

lemma applyLocked_failed:
  assumes "applyLocked os as m = (Inl e, m')" "m_file m \<noteq> None" "x_restore os = None"
  shows "m_file m' = m_file m"
  using assms installConfig_failed
  by (auto simp: applyLocked_def split: sum.split_asm)

text \<open>A configuration that Xray rejects never reaches the file.\<close>

lemma applyLocked_rejected:
  assumes "BuildConfigWithBase as (m_APIPort m) (m_BaseConfigJSON m) = Inr cfg" "x_test os cfg \<noteq> None"
  shows "snd (applyLocked os as m) = m" and "fst (applyLocked os as m) \<noteq> Inr u"
  using assms by (auto simp: applyLocked_def opt_res_def split: sum.splits option.splits)

section \<open>Properties\<close>

text \<open>(C32) Applying the accounts either installs the configuration built from them, tested by Xray, or
  reports an error; after an error the previous configuration file is in place (when there was one
  and putting it back did not fail), and a configuration that Xray rejects never reaches the file.
  The manager's own settings are untouched.\<close>

theorem apply_or_restore:
  "case Apply answers as m of
     (Inr u, m') \<Rightarrow> (\<exists>cfg. BuildConfigWithBase as (m_APIPort m) (m_BaseConfigJSON m) = Inr cfg \<and>
                      x_test (answers (m_calls m)) cfg = None \<and> m_file m' = Some cfg)
   | (Inl e, m') \<Rightarrow> m_file m' = m_file m \<or> m_file m = None \<or> x_restore (answers (m_calls m)) \<noteq> None"
proof (cases "Apply answers as m")
  case (Pair r m')
  then have a: "applyLocked (answers (m_calls m)) as (next_call m) = (r, m')" by (simp add: Apply_def)
  show ?thesis
  proof (cases r)
    case (Inl e)
    have "m_file (next_call m) = m_file m" by (simp add: next_call_def)
    with a Inl applyLocked_failed [of "answers (m_calls m)" as "next_call m" e m'] have
      "m_file m' = m_file m \<or> m_file m = None \<or> x_restore (answers (m_calls m)) \<noteq> None"
      by metis
    with Pair Inl show ?thesis by simp
  next
    case (Inr u)
    with a obtain cfg where "BuildConfigWithBase as (m_APIPort (next_call m)) (m_BaseConfigJSON (next_call m)) = Inr cfg"
      "x_test (answers (m_calls m)) cfg = None" "m_file m' = Some cfg"
      using applyLocked_ok by metis
    with Pair Inr show ?thesis by (auto simp: next_call_def)
  qed
qed

text \<open>(C29) A configuration that Xray's own test rejects changes nothing: the call fails, and the file
  on disk and the manager's settings are what they were, also for a call that tries out another base
  or API port.\<close>

theorem rejected_config_changes_nothing:
  assumes "BuildConfigWithBase as (m_APIPort m) base = Inr cfg" and "x_test (answers (m_calls m)) cfg \<noteq> None"
  shows "case ApplyWithBase answers as base m of
           (Inr u, m') \<Rightarrow> False | (Inl e, m') \<Rightarrow> m' = next_call m"
proof -
  let ?m = "next_call (m\<lparr>m_BaseConfigJSON := base\<rparr>)"
  have b: "BuildConfigWithBase as (m_APIPort ?m) (m_BaseConfigJSON ?m) = Inr cfg"
    using assms(1) by (simp add: next_call_def)
  note rej = applyLocked_rejected [OF b assms(2)]
  have "(next_call (m\<lparr>m_BaseConfigJSON := base\<rparr>))\<lparr>m_BaseConfigJSON := m_BaseConfigJSON m\<rparr> = next_call m"
    by (simp add: next_call_def)
  with rej show ?thesis
    by (cases "applyLocked (answers (m_calls m)) as ?m"; cases "fst (applyLocked (answers (m_calls m)) as ?m)")
      (auto simp: ApplyWithBase_def)
qed

definition rejecting :: Xos where
  "rejecting = \<lparr>x_prepare = None, x_test = (\<lambda>c. Some (ErrNew ''bad'')), x_read = None, x_active = True,
     x_rename = None, x_restart = (\<lambda>c. None), x_restore = None, x_limited = False,
     x_show_limited = False, x_reset = None, x_restart2 = (\<lambda>c. None)\<rparr>"

theorem rejected_config_changes_nothing_witness:
  "let m = \<lparr>m_BinaryPath = ''x'', m_ConfigPath = ''c'', m_Service = ''s'', m_APIPort = 0,
             m_BaseConfigJSON = Blank, m_file = Some fmempty, m_calls = 0\<rparr>
   in snd (ApplyWithBase (\<lambda>n. rejecting) [] (Doc (JObj fmempty)) m) = next_call m"
proof -
  let ?m = "\<lparr>m_BinaryPath = ''x'', m_ConfigPath = ''c'', m_Service = ''s'', m_APIPort = 0,
             m_BaseConfigJSON = Blank, m_file = Some fmempty, m_calls = 0\<rparr>"
  obtain cfg where "BuildConfigWithBase [] (m_APIPort ?m) (Doc (JObj fmempty)) = Inr cfg"
    by (simp add: BuildConfig_iff base_config_Inr config_ok_def)
  from rejected_config_changes_nothing [OF this, of "\<lambda>n. rejecting"] show ?thesis
    by (auto simp: rejecting_def Let_def split: prod.split_asm sum.split_asm)
qed

theorem apply_or_restore_witness:
  "let m = \<lparr>m_BinaryPath = ''x'', m_ConfigPath = ''c'', m_Service = ''s'', m_APIPort = 0,
             m_BaseConfigJSON = Blank, m_file = Some fmempty, m_calls = 0\<rparr>;
       crash = rejecting\<lparr>x_test := (\<lambda>c. None), x_restart := (\<lambda>c. Some (ErrNew ''crash''))\<rparr>
   in m_file (snd (Apply (\<lambda>n. crash) [] m)) = Some fmempty"
proof -
  let ?m = "\<lparr>m_BinaryPath = ''x'', m_ConfigPath = ''c'', m_Service = ''s'', m_APIPort = 0,
             m_BaseConfigJSON = Blank, m_file = Some fmempty, m_calls = 0\<rparr>"
  let ?crash = "rejecting\<lparr>x_test := (\<lambda>c. None), x_restart := (\<lambda>c. Some (ErrNew ''crash''))\<rparr>"
  obtain cfg where "BuildConfigWithBase [] 0 Blank = Inr cfg"
    by (simp add: BuildConfig_iff base_config_Inr config_ok_def)
  then have failed: "fst (Apply (\<lambda>n. ?crash) [] ?m) \<noteq> Inr ()" if "cfg \<noteq> fmempty"
    using that by (auto simp: Apply_def applyLocked_def installConfig_def next_call_def opt_res_def
        rejecting_def Let_def split_def)
  have "cfg \<noteq> fmempty" using \<open>BuildConfigWithBase [] 0 Blank = Inr cfg\<close> by (auto simp: BuildConfig_iff)
  with failed apply_or_restore [where answers = "\<lambda>n. ?crash" and as = "[]" and m = ?m] show ?thesis
    by (auto simp: Let_def rejecting_def split: prod.split_asm sum.split_asm)
qed

end
