(* ===== verification/ServiceLaws.thy ===== *)
theory ServiceLaws
  imports Service XrayManager
begin

text \<open>
  What the account service promises. The two interfaces it stands on are the repository of accounts
  (interpreted by the database) and the applier (interpreted by the Xray manager); on both together
  every change of the account list either takes effect in the database and in Xray, or in neither,
  or its error says that Xray could not be rolled back.
\<close>

section \<open>The applier\<close>

text \<open>What of an account the configuration depends on.\<close>

definition config_view :: "Account \<Rightarrow> bool \<times> string \<times> int \<times> string \<times> jtext \<times> jtext \<times> jtext \<times> string" where
  "config_view a =
     (a_Enabled a, a_Listen a, a_Port a, a_Protocol a, a_SettingsJSON a, a_StreamSettingsJSON a,
      a_SniffingJSON a, a_Tag a)"

lemma config_view_inbound:
  assumes "config_view a = config_view b"
  shows "a_Enabled a = a_Enabled b" "inbound_json a = inbound_json b" "inbound_ok a = inbound_ok b"
    "a_Port a = a_Port b" "a_Tag a = a_Tag b"
  using assms by (simp_all add: config_view_def inbound_json_def inbound_ok_def)

lemma map_enabled_cong:
  assumes "map config_view as = map config_view bs"
    and f: "\<And>a b. config_view a = config_view b \<Longrightarrow> f a = f b"
  shows "map f (filter a_Enabled as) = map f (filter a_Enabled bs)"
  using assms(1)
proof (induction as arbitrary: bs)
  case (Cons a as)
  then obtain b bs' where bs: "bs = b # bs'" "config_view a = config_view b" "map config_view as = map config_view bs'"
    by (cases bs) auto
  with Cons.IH [OF bs(3)] f [OF bs(2)] config_view_inbound(1) [OF bs(2)] show ?case by simp
qed simp

lemma config_ok_cong:
  assumes eq: "map config_view as = map config_view bs" and ok: "config_ok as p"
  shows "config_ok bs p"
proof -
  note cong = map_enabled_cong [OF eq]
  have ports: "map a_Port (filter a_Enabled as) = map a_Port (filter a_Enabled bs)"
    by (rule cong) (rule config_view_inbound)
  have tags: "map a_Tag (filter a_Enabled as) = map a_Tag (filter a_Enabled bs)"
    by (rule cong) (rule config_view_inbound)
  have oks: "map inbound_ok (filter a_Enabled as) = map inbound_ok (filter a_Enabled bs)"
    by (rule cong) (rule config_view_inbound)
  have "(\<forall>a \<in> set en. inbound_ok a) \<longleftrightarrow> set (map inbound_ok en) \<subseteq> {True}" for en by auto
  moreover have "a_Port ` set (filter a_Enabled as) = a_Port ` set (filter a_Enabled bs)"
    using arg_cong [OF ports, of set] by (simp only: set_map)
  ultimately show ?thesis
    using ok unfolding config_ok_def Let_def by (simp only: ports tags oks simp_thms not_False_eq_True)
qed

lemma BuildConfig_cong:
  assumes eq: "map config_view as = map config_view bs" and b: "BuildConfigWithBase as p base = Inr cfg"
  shows "BuildConfigWithBase bs p base = Inr cfg"
proof -
  have "map inbound_json (filter a_Enabled as) = map inbound_json (filter a_Enabled bs)"
    by (rule map_enabled_cong [OF eq]) (rule config_view_inbound)
  moreover have "config_ok bs p" using b config_ok_cong [OF eq] by (simp add: BuildConfig_iff)
  ultimately show ?thesis using b by (simp add: BuildConfig_iff)
qed

text \<open>
  \<open>running x as\<close>: the configuration in force is the one of the accounts \<open>as\<close>. A reliable applier
  keeps the configuration in force when it reports an error.
\<close>

locale config_applier =
  fixes install :: "'x applier"
    and running :: "'x \<Rightarrow> Account list \<Rightarrow> bool"
    and reliable :: "'x \<Rightarrow> bool"
  assumes install_ok: "install as x = (Inr u, x') \<Longrightarrow> running x' as"
    and install_failed: "reliable x \<Longrightarrow> install as x = (Inl e, x') \<Longrightarrow> running x bs \<Longrightarrow> running x' bs"
    and install_reliable: "reliable x \<Longrightarrow> reliable (snd (install as x))"
    and running_cong: "map config_view as = map config_view bs \<Longrightarrow> running x as \<Longrightarrow> running x bs"

definition manager_running :: "Manager \<Rightarrow> Account list \<Rightarrow> bool" where
  "manager_running m as \<longleftrightarrow>
     (\<exists>cfg. BuildConfigWithBase as (m_APIPort m) (m_BaseConfigJSON m) = Inr cfg \<and> m_file m = Some cfg)"

text \<open>A configuration file exists, and putting the previous one back does not fail.\<close>

definition manager_reliable :: "(nat \<Rightarrow> Xos) \<Rightarrow> Manager \<Rightarrow> bool" where
  "manager_reliable answers m \<longleftrightarrow> m_file m \<noteq> None \<and> (\<forall>n. x_restore (answers n) = None)"

lemma next_call_fields [simp]:
  "m_file (next_call m) = m_file m" "m_APIPort (next_call m) = m_APIPort m"
  "m_BaseConfigJSON (next_call m) = m_BaseConfigJSON m"
  by (simp_all add: next_call_def)

lemma Apply_fields:
  assumes "Apply answers as m = (r, m')"
  shows "m_APIPort m' = m_APIPort m" "m_BaseConfigJSON m' = m_BaseConfigJSON m"
proof -
  have m': "m' = snd (applyLocked (answers (m_calls m)) as (next_call m))"
    using assms by (simp add: Apply_def)
  show "m_APIPort m' = m_APIPort m" "m_BaseConfigJSON m' = m_BaseConfigJSON m"
    unfolding m' by simp_all
qed

lemma Apply_ok:
  assumes "Apply answers as m = (Inr u, m')"
  shows "manager_running m' as"
proof -
  obtain cfg where "BuildConfigWithBase as (m_APIPort (next_call m)) (m_BaseConfigJSON (next_call m)) = Inr cfg"
    "m_file m' = Some cfg"
    using assms unfolding Apply_def by (rule applyLocked_ok)
  then show ?thesis using Apply_fields [OF assms] by (auto simp: manager_running_def)
qed

lemma Apply_failed:
  assumes "manager_reliable answers m" "Apply answers as m = (Inl e, m')"
  shows "m_file m' = m_file m"
proof -
  have "m_file (next_call m) \<noteq> None" "x_restore (answers (m_calls m)) = None"
    using assms(1) by (simp_all add: manager_reliable_def)
  with assms(2) show ?thesis
    unfolding Apply_def using applyLocked_failed by fastforce
qed

lemma Apply_reliable:
  assumes rel: "manager_reliable answers m"
  shows "manager_reliable answers (snd (Apply answers as m))"
proof (cases "Apply answers as m")
  case (Pair r m')
  show ?thesis
  proof (cases r)
    case (Inl e)
    with Pair Apply_failed [OF rel] rel show ?thesis by (simp add: manager_reliable_def)
  next
    case (Inr u)
    with Pair have "manager_running m' as" by (simp add: Apply_ok)
    with Pair rel show ?thesis by (auto simp: manager_reliable_def manager_running_def)
  qed
qed

interpretation manager: config_applier "Apply answers" manager_running "manager_reliable answers"
  for answers
proof
  show "manager_running m' bs"
    if "manager_reliable answers m" "Apply answers as m = (Inl e, m')" "manager_running m bs" for as m e m' bs
    using that Apply_failed [OF that(1,2)] Apply_fields [OF that(2)] by (simp add: manager_running_def)
  show "manager_running m bs" if "map config_view as = map config_view bs" "manager_running m as" for as bs m
    using that BuildConfig_cong unfolding manager_running_def by blast
qed (auto intro: Apply_ok Apply_reliable)

section \<open>Both together\<close>

text \<open>The accounts that can be loaded are those the configuration in force was built from.\<close>

definition in_sync ::
    "('d \<Rightarrow> Account list res) \<Rightarrow> ('x \<Rightarrow> Account list \<Rightarrow> bool) \<Rightarrow> (Account list \<Rightarrow> Account list) \<Rightarrow>
     'd \<times> 'x \<Rightarrow> bool" where
  "in_sync load running stored w \<longleftrightarrow>
     (\<forall>as. load (fst w) = Inr as \<longrightarrow> (\<exists>bs. running (snd w) bs \<and> stored bs = as))"

text \<open>The error that says that the two have come apart.\<close>

definition reports_drift :: "err \<Rightarrow> bool" where
  "reports_drift e \<longleftrightarrow>
     (case e of Errorf f args es \<Rightarrow> f = ''database update failed: %v; Xray rollback also failed: %v''
      | _ \<Rightarrow> False)"

definition keeps_identified :: "('d \<Rightarrow> Account list \<Rightarrow> (Account list \<times> 'k) res) \<Rightarrow> bool" where
  "keeps_identified step \<longleftrightarrow>
     (\<forall>d old nxt k. step d old = Inr (nxt, k) \<longrightarrow> storable old \<and> (\<forall>a \<in> set old. identified a) \<longrightarrow>
        (\<forall>a \<in> set nxt. identified a))"

locale account_runtime =
  account_repo good load replace stored + config_applier install running reliable
  for good :: "'d \<Rightarrow> bool"
    and load :: "'d \<Rightarrow> Account list res"
    and replace :: "Account list \<Rightarrow> 'd \<Rightarrow> unit res \<times> 'd"
    and stored :: "Account list \<Rightarrow> Account list"
    and install :: "'x applier"
    and running :: "'x \<Rightarrow> Account list \<Rightarrow> bool"
    and reliable :: "'x \<Rightarrow> bool"
begin

abbreviation sync :: "'d \<times> 'x \<Rightarrow> bool" where
  "sync \<equiv> in_sync load running stored"

lemma persist_ok:
  assumes ok: "applyAndPersist replace (Some install) old nxt w = (Inr u, w')"
    and pos: "\<forall>a \<in> set nxt. identified a"
  shows "load (fst w') = bindR (load (fst w)) (\<lambda>_. Inr (stored nxt))" and "running (snd w') nxt"
    and "sync w'" and "storable nxt"
proof -
  obtain d x d' x' where w: "w = (d, x)" "w' = (d', x')" by (cases w; cases w')
  have a: "\<exists>v. install nxt x = (Inr v, x')" and r: "\<exists>v. replace nxt d = (Inr v, d')"
    using ok by (auto simp: applyAndPersist_def w split: prod.split_asm sum.split_asm)
  show l: "load (fst w') = bindR (load (fst w)) (\<lambda>_. Inr (stored nxt))"
    using r replace_load [OF _ pos] by (auto simp: w)
  show run: "running (snd w') nxt" using a install_ok by (auto simp: w)
  show "sync w'" using l run by (auto simp: in_sync_def)
  show "storable nxt" using r replace_storable [OF _ pos] by auto
qed

lemma persist_failed:
  assumes failed: "applyAndPersist replace (Some install) old nxt w = (Inl e, w')"
    and good: "good (fst w)" and old: "load (fst w) = Inr old" and rel: "reliable (snd w)" and insync: "sync w"
  shows "fst w' = fst w" and "sync w' \<or> reports_drift e"
proof -
  obtain d x d' x' where w: "w = (d, x)" "w' = (d', x')" by (cases w; cases w')
  have rollback: "stored old = old" using good old load_stored by (auto simp: w)
  from failed consider (rejected) "install nxt x = (Inl e, x')" "d' = d"
    | (rolled) v x1 f u where "install nxt x = (Inr v, x1)" "replace nxt d = (Inl f, d')" "install old x1 = (Inr u, x')"
    | (drift) f where "replace nxt d = (Inl f, d')" "reports_drift e"
    by (auto simp: applyAndPersist_def w reports_drift_def split: prod.split_asm sum.split_asm)
  then have "d' = d \<and> (sync w' \<or> reports_drift e)"
  proof cases
    case rejected
    with rel insync install_failed show ?thesis by (fastforce simp: in_sync_def w)
  next
    case rolled
    have "d' = d" using rolled(2) replace_failed by simp
    moreover have "running x' old" using rolled(3) install_ok by simp
    ultimately show ?thesis using old rollback by (auto simp: in_sync_def w)
  next
    case drift
    then show ?thesis using replace_failed by simp
  qed
  then show "fst w' = fst w" "sync w' \<or> reports_drift e" by (auto simp: w)
qed

text \<open>The same for a whole change of the list.\<close>

lemma change_ok:
  assumes ok: "change load replace (Some install) step w = (Inr k, w')"
    and good: "good (fst w)" and ids: "keeps_identified step"
  shows "\<exists>old nxt. load (fst w) = Inr old \<and> step (fst w) old = Inr (nxt, k) \<and>
           load (fst w') = Inr (stored nxt) \<and> running (snd w') nxt \<and> sync w' \<and> storable nxt"
proof -
  obtain old nxt where s: "load (fst w) = Inr old" "step (fst w) old = Inr (nxt, k)"
    and p: "\<exists>u. applyAndPersist replace (Some install) old nxt w = (Inr u, w')"
    using ok by (auto simp: change_def split: sum.split_asm prod.split_asm)
  have "storable old \<and> (\<forall>a \<in> set old. identified a)" using load_ok [OF good s(1)] .
  then have pos: "\<forall>a \<in> set nxt. identified a" using ids s(2) unfolding keeps_identified_def by blast
  obtain u where u: "applyAndPersist replace (Some install) old nxt w = (Inr u, w')" using p by blast
  have "load (fst w') = Inr (stored nxt)" using persist_ok(1) [OF u pos] s(1) by simp
  with s persist_ok(2-4) [OF u pos] show ?thesis by blast
qed

lemma change_failed:
  assumes failed: "change load replace (Some install) step w = (Inl e, w')"
    and good: "good (fst w)" and rel: "reliable (snd w)" and insync: "sync w"
  shows "fst w' = fst w \<and> (sync w' \<or> reports_drift e)"
proof (cases "w' = w")
  case True
  then show ?thesis using insync by simp
next
  case False
  then obtain old nxt where s: "load (fst w) = Inr old"
    and p: "applyAndPersist replace (Some install) old nxt w = (Inl e, w')"
    using failed by (auto simp: change_def split: sum.split_asm prod.split_asm)
  from persist_failed [OF p good s rel insync] show ?thesis by simp
qed

lemma persist_good:
  assumes "good (fst w)"
  shows "good (fst (snd (applyAndPersist replace applier old nxt w)))"
proof -
  have g: "good (snd (replace nxt (fst w)))" using assms by (rule replace_good)
  then show ?thesis
    using assms by (auto simp: applyAndPersist_def split: option.split prod.split sum.split)
qed

lemma change_good:
  assumes "good (fst w)"
  shows "good (fst (snd (change load replace applier step w)))"
proof -
  have "good (fst w')" if "applyAndPersist replace applier old nxt w = (r, w')" for old nxt r w'
    using persist_good [OF assms, of applier old nxt] that by simp
  then show ?thesis
    using assms by (auto simp: change_def split: sum.split prod.split)
qed

end

text \<open>The database and the Xray manager, under every engine, instant and course of events.\<close>

interpretation svc: account_runtime db_inv "Accounts eng" "ReplaceAccounts eng (int n + 1)"
    "sort_key a_ID" "Apply answers" manager_running "manager_reliable answers"
  for eng n answers
  by unfold_locales

section \<open>Identifiers and ports\<close>

lemma firstUnused_least:
  "firstUnused used i \<notin> set used \<and> i \<le> firstUnused used i \<and>
   (\<forall>j. i \<le> j \<and> j < firstUnused used i \<longrightarrow> j \<in> set used)"
proof (induction used i rule: firstUnused.induct)
  case (1 used i)
  show ?case
  proof (cases "i \<in> set used")
    case True
    note IH = 1 [OF True]
    have "j \<in> set used" if "i \<le> j" "j < firstUnused used (i + 1)" for j
      using IH that True by (cases "j = i") auto
    with IH True show ?thesis by (simp add: firstUnused.simps [of used i])
  next
    case False
    then show ?thesis by (auto simp: firstUnused.simps [of used i])
  qed
qed

lemma nextAvailableAccountID_least:
  "1 \<le> nextAvailableAccountID as \<and> nextAvailableAccountID as \<notin> a_ID ` set as \<and>
   (\<forall>j. 1 \<le> j \<and> j < nextAvailableAccountID as \<longrightarrow> j \<in> a_ID ` set as)"
proof -
  have used: "j \<in> set (filter (\<lambda>i. i > 0) (map a_ID as)) \<longleftrightarrow> 0 < j \<and> j \<in> a_ID ` set as" for j
    by auto
  have least: "n \<notin> U \<and> 1 \<le> n \<and> (\<forall>j. 1 \<le> j \<and> j < n \<longrightarrow> j \<in> U) \<Longrightarrow> (\<And>j. j \<in> U \<longleftrightarrow> 0 < j \<and> j \<in> S) \<Longrightarrow>
      1 \<le> n \<and> n \<notin> S \<and> (\<forall>j. 1 \<le> j \<and> j < n \<longrightarrow> j \<in> S)" for n :: int and U S
    by simp
  show ?thesis
    unfolding nextAvailableAccountID_def
    by (rule least [OF firstUnused_least used])
qed

lemma indexID_Some:
  "indexID as i = Some n \<longleftrightarrow> n < length as \<and> a_ID (as ! n) = i \<and> (\<forall>m < n. a_ID (as ! m) \<noteq> i)"
proof (induction as arbitrary: n)
  case (Cons a as)
  show ?case
  proof (cases n)
    case 0
    then show ?thesis by auto
  next
    case (Suc m)
    then show ?thesis using Cons.IH by (auto simp: less_Suc_eq_0_disj)
  qed
qed simp

lemma indexID_None: "indexID as i = None \<longleftrightarrow> i \<notin> a_ID ` set as"
  by (induction as) auto

lemma uniquePort_ok:
  "uniquePort as port i = Inr u \<longleftrightarrow> (\<forall>v \<in> set as. a_Port v = port \<longrightarrow> a_ID v = i)"
proof -
  have "uniquePort as port i = Inr u \<longleftrightarrow> List.find (\<lambda>v. a_Port v = port \<and> a_ID v \<noteq> i) as = None"
    by (simp add: uniquePort_def split: option.split)
  then show ?thesis by (auto simp: find_None_iff)
qed

lemma initializeMonthlyCycle_simps [simp]:
  "a_ID (initializeMonthlyCycle m a b) = a_ID a" "a_Port (initializeMonthlyCycle m a b) = a_Port a"
  "a_Tag (initializeMonthlyCycle m a b) = a_Tag a" "a_Name (initializeMonthlyCycle m a b) = a_Name a"
  "a_Enabled (initializeMonthlyCycle m a b) = a_Enabled a"
  "a_DisabledReason (initializeMonthlyCycle m a b) = a_DisabledReason a"
  "a_UpBytes (initializeMonthlyCycle m a b) = a_UpBytes a"
  "a_DownBytes (initializeMonthlyCycle m a b) = a_DownBytes a"
  "a_AllTimeBytes (initializeMonthlyCycle m a b) = a_AllTimeBytes a"
  "a_Protocol (initializeMonthlyCycle m a b) = a_Protocol a"
  "a_CreatedAt (initializeMonthlyCycle m a b) = a_CreatedAt a"
  "a_MonthlyReset (initializeMonthlyCycle m a b) = a_MonthlyReset a"
  "a_UpdatedAt (initializeMonthlyCycle m a b) = a_UpdatedAt a"
  by (simp_all add: initializeMonthlyCycle_def)

lemma initializeMonthlyCycle_wf [simp]:
  "account_wf (initializeMonthlyCycle m a b) = account_wf a"
  by (simp add: initializeMonthlyCycle_def account_wf_def)

text \<open>An account that resets monthly always carries the month it counts.\<close>

lemma initializeMonthlyCycle_month:
  "a_MonthlyReset a \<Longrightarrow> m \<noteq> [] \<Longrightarrow> a_LastMonthlyReset (initializeMonthlyCycle m a b) \<noteq> []"
  by (simp add: initializeMonthlyCycle_def)

lemma account_wf_id [simp]: "account_wf (a\<lparr>a_ID := i\<rparr>) = account_wf a"
  by (simp add: account_wf_def)

section \<open>The steps\<close>

text \<open>Creation and cloning append one account: a free id, a free port, well-formed.\<close>

definition appends :: "Os \<Rightarrow> Account list \<Rightarrow> Account list \<Rightarrow> int \<Rightarrow> bool" where
  "appends os old nxt port \<longleftrightarrow>
     (\<exists>a. nxt = old @ [a] \<and> a_ID a = nextAvailableAccountID old \<and> a_Port a = port \<and>
          port \<notin> a_Port ` set old \<and> tcp_free os port \<and> udp_free os port \<and>
          a_UpBytes a = 0 \<and> a_DownBytes a = 0 \<and> a_AllTimeBytes a = 0 \<and>
          a_CreatedAt a \<noteq> 0 \<and> a_UpdatedAt a \<noteq> 0)"

lemma appends_identified:
  "appends os old nxt port \<Longrightarrow> \<forall>a \<in> set old. identified a \<Longrightarrow> \<forall>a \<in> set nxt. identified a"
  using nextAvailableAccountID_least [of old] by (auto simp: appends_def identified_def)

lemma identified_positive: "\<forall>a \<in> set as. identified a \<Longrightarrow> \<forall>a \<in> set as. 0 < a_ID a"
  by (simp add: identified_def)

lemma createStep_appends:
  assumes step: "createStep env inp db old = Inr (nxt, port)" and pos: "\<forall>a \<in> set old. 0 < a_ID a"
    and now: "e_now env \<noteq> 0"
  shows "appends (e_os env) old nxt port \<and> account_wf (last nxt) \<and>
         (e_month env \<noteq> [] \<longrightarrow> a_MonthlyReset (last nxt) \<longrightarrow> a_LastMonthlyReset (last nxt) \<noteq> [])"
proof -
  obtain i a where i: "uniquePort old (in_Port i) 0 = Inr ()" "ensurePortFree (e_os env) (in_Port i) = Inr ()"
    "New (e_ent env) (e_now env) i (in_Port i) = Inr a" "port = in_Port i"
    and nxt: "nxt = old @ [initializeMonthlyCycle (e_month env) (a\<lparr>a_ID := nextAvailableAccountID old\<rparr>) False]"
    using step by (auto simp: createStep_def)
  obtain j where j: "newInput (e_ent env) i (in_Port i) = Inr j" "a_Port a = in_Port j"
    using i(3) by (auto simp: New_iff)
  have a_times: "a_CreatedAt a = e_now env" "a_UpdatedAt a = e_now env"
    using i(3) by (auto simp: New_iff)
  have "in_Port j = in_Port i"
    using j(1) by (auto simp: newInput_def Let_def split: if_split_asm)
  moreover have "in_Port i \<notin> a_Port ` set old"
    using i(1) pos by (auto simp: uniquePort_ok)
  ultimately show ?thesis
    using i j(2) New_wf [OF i(3)] now a_times by (auto simp: appends_def nxt initializeMonthlyCycle_month)
qed

lemma cloneStep_appends:
  assumes step: "cloneStep env i name port0 db old = Inr (nxt, port)" and pos: "\<forall>a \<in> set old. 0 < a_ID a"
    and now: "e_now env \<noteq> 0"
  shows "appends (e_os env) old nxt port"
proof -
  obtain idx a where a: "indexID old i = Some idx" "uniquePort old port 0 = Inr ()"
    "Clone (e_ent env) (e_now env) (e_now env) (old ! idx) name port = Inr a"
    and free: "(if port0 = 0 then automaticPort (e_eng env) (e_os env) db old
                 else bindR (ensurePortFree (e_os env) port0) (\<lambda>_. Inr port0)) = Inr port"
    and nxt: "nxt = old @ [initializeMonthlyCycle (e_month env) (a\<lparr>a_ID := nextAvailableAccountID old\<rparr>) True]"
    using step by (auto simp: cloneStep_def split: option.split_asm)
  have "tcp_free (e_os env) port \<and> udp_free (e_os env) port"
  proof (cases "port0 = 0")
    case True
    obtain mn mx ap where d: "portDefaults (e_eng env) db = (mn, mx, ap)" by (cases "portDefaults (e_eng env) db")
    from automaticPort_cases [OF d, of "e_os env" old] free True show ?thesis by (auto simp: candidate_def)
  qed (use free in auto)
  moreover have "port \<notin> a_Port ` set old"
    using a(2) pos by (auto simp: uniquePort_ok)
  ultimately show ?thesis
    using Clone_fresh [OF a(3)] now by (simp add: appends_def nxt)
qed


lemma indexID_nth: "indexID as i = Some n \<Longrightarrow> n < length as \<and> a_ID (as ! n) = i"
  by (simp add: indexID_Some)

text \<open>
  An update replaces one account and keeps its id, its traffic and its creation time; the port is
  the account's own or one that is free.
\<close>

definition replaces :: "Os \<Rightarrow> int \<Rightarrow> Account list \<Rightarrow> int \<Rightarrow> Account list \<Rightarrow> int \<Rightarrow> bool" where
  "replaces os now old i nxt port \<longleftrightarrow>
     (\<exists>n a. indexID old i = Some n \<and> nxt = old[n := a] \<and> a_ID a = i \<and> a_Port a = port \<and>
        a_UpBytes a = a_UpBytes (old ! n) \<and> a_DownBytes a = a_DownBytes (old ! n) \<and>
        a_AllTimeBytes a = a_AllTimeBytes (old ! n) \<and> a_CreatedAt a = a_CreatedAt (old ! n) \<and>
        a_Protocol a = a_Protocol (old ! n) \<and> a_UpdatedAt a = now \<and>
        (\<not> a_Enabled (old ! n) \<and> \<not> a_Enabled a \<longrightarrow> a_DisabledReason a = a_DisabledReason (old ! n)) \<and>
        (\<forall>v \<in> set old. a_Port v = port \<longrightarrow> a_ID v = i) \<and>
        (port \<noteq> a_Port (old ! n) \<longrightarrow> tcp_free os port \<and> udp_free os port))"

lemma sanitize_fields [simp]:
  "a_ID (sanitizeEditableBaseForExplicitClears a inp) = a_ID a"
  "a_Port (sanitizeEditableBaseForExplicitClears a inp) = a_Port a"
  "a_UpBytes (sanitizeEditableBaseForExplicitClears a inp) = a_UpBytes a"
  "a_DownBytes (sanitizeEditableBaseForExplicitClears a inp) = a_DownBytes a"
  "a_AllTimeBytes (sanitizeEditableBaseForExplicitClears a inp) = a_AllTimeBytes a"
  "a_CreatedAt (sanitizeEditableBaseForExplicitClears a inp) = a_CreatedAt a"
  "a_Protocol (sanitizeEditableBaseForExplicitClears a inp) = a_Protocol a"
  "a_Enabled (sanitizeEditableBaseForExplicitClears a inp) = a_Enabled a"
  "a_DisabledReason (sanitizeEditableBaseForExplicitClears a inp) = a_DisabledReason a"
  "a_Tag (sanitizeEditableBaseForExplicitClears a inp) = a_Tag a"
  by (simp_all add: sanitizeEditableBaseForExplicitClears_def split: sum.split prod.split)

lemma updateInput_nonzero_port:
  "updateInput a inp0 = Inr inp \<Longrightarrow> in_Port inp0 \<noteq> 0 \<Longrightarrow> in_Port inp = in_Port inp0"
  by (auto simp: updateInput_def Let_def split: if_split_asm)

lemma updateStep_replaces:
  assumes step: "updateStep env i inp0 db old = Inr (nxt, port)"
    and ports: "\<forall>a \<in> set old. a_Port a \<noteq> 0"
  shows "replaces (e_os env) (e_now env) old i nxt port"
proof -
  define inp1 where "inp1 = normalizeEditorInput inp0"
  obtain n where n: "indexID old i = Some n" using step by (auto simp: updateStep_def split: option.split_asm)
  define inp where "inp = (if in_Port inp1 = 0 then inp1\<lparr>in_Port := a_Port (old ! n)\<rparr> else inp1)"
  obtain a0 where u: "uniquePort old (in_Port inp) i = Inr ()"
    "in_Port inp \<noteq> a_Port (old ! n) \<longrightarrow> ensurePortFree (e_os env) (in_Port inp) = Inr ()"
    "Update (e_now env) (sanitizeEditableBaseForExplicitClears (old ! n) inp) inp = Inr a0"
    and nxt: "nxt = old[n := initializeMonthlyCycle (e_month env)
        (if \<not> a_Enabled (old ! n) \<and> \<not> a_Enabled a0
         then a0\<lparr>a_DisabledReason := a_DisabledReason (old ! n)\<rparr> else a0) (\<not> a_MonthlyReset (old ! n))]"
    and port: "port = a_Port a0"
    using step n by (auto simp: updateStep_def Let_def inp_def inp1_def split: if_split_asm)
  have nl: "n < length old" "a_ID (old ! n) = i" using indexID_nth [OF n] by simp_all
  obtain j docs where j: "updateInput (sanitizeEditableBaseForExplicitClears (old ! n) inp) inp = Inr j"
    "a0 = updatedAccount (e_now env) (sanitizeEditableBaseForExplicitClears (old ! n) inp) j docs"
    using u(3) by (auto simp: Update_iff)
  have "in_Port inp \<noteq> 0" using ports nl(1) by (auto simp: inp_def)
  from updateInput_nonzero_port [OF j(1) this] have p: "port = in_Port inp" by (simp add: port j(2))
  have only: "\<forall>v \<in> set old. a_Port v = port \<longrightarrow> a_ID v = i" using u(1) p by (simp add: uniquePort_ok)
  have free: "port \<noteq> a_Port (old ! n) \<longrightarrow> tcp_free (e_os env) port \<and> udp_free (e_os env) port"
    using u(2) p by simp
  let ?a = "initializeMonthlyCycle (e_month env)
        (if \<not> a_Enabled (old ! n) \<and> \<not> a_Enabled a0
         then a0\<lparr>a_DisabledReason := a_DisabledReason (old ! n)\<rparr> else a0) (\<not> a_MonthlyReset (old ! n))"
  have kept: "a_ID ?a = i" "a_UpBytes ?a = a_UpBytes (old ! n)" "a_DownBytes ?a = a_DownBytes (old ! n)"
    "a_AllTimeBytes ?a = a_AllTimeBytes (old ! n)" "a_CreatedAt ?a = a_CreatedAt (old ! n)"
    "a_Protocol ?a = a_Protocol (old ! n)" "a_UpdatedAt ?a = e_now env" "a_Port ?a = port"
    using nl(2) by (simp_all add: j(2) p [unfolded port] port)
  have reason: "\<not> a_Enabled (old ! n) \<and> \<not> a_Enabled ?a \<longrightarrow> a_DisabledReason ?a = a_DisabledReason (old ! n)"
    by simp
  show ?thesis
    unfolding replaces_def nxt
    by (rule exI [of _ n], rule exI [of _ ?a]) (intro conjI n refl kept reason only free)
qed

lemma replaces_identified:
  assumes r: "replaces os now old i nxt port" and "now \<noteq> 0" and old: "\<forall>a \<in> set old. identified a"
  shows "\<forall>a \<in> set nxt. identified a"
proof
  fix b
  assume b: "b \<in> set nxt"
  obtain n a where n: "indexID old i = Some n" "nxt = old[n := a]" "a_ID a = i"
      "a_CreatedAt a = a_CreatedAt (old ! n)" "a_UpdatedAt a = now"
    using r by (auto simp: replaces_def)
  have "old ! n \<in> set old" "a_ID (old ! n) = i" using indexID_nth [OF n(1)] by simp_all
  then have "identified a" using old n assms(2) by (auto simp: identified_def)
  moreover have "b = a \<or> b \<in> set old"
    using b n(2) set_update_subset_insert [of old n a] by auto
  ultimately show "identified b" using old by auto
qed

lemma deleteStep_iff:
  "deleteStep i db old = Inr (nxt, u) \<longleftrightarrow>
     (\<exists>n. indexID old i = Some n \<and> nxt = take n old @ drop (Suc n) old)"
  by (auto simp: deleteStep_def split: option.split)

lemma deleteStep_filter:
  assumes "deleteStep i db old = Inr (nxt, u)" "distinct (map a_ID old)"
  shows "nxt = filter (\<lambda>a. a_ID a \<noteq> i) old \<and> i \<in> a_ID ` set old"
proof -
  obtain n where n: "indexID old i = Some n" and nxt: "nxt = take n old @ drop (Suc n) old"
    using assms(1) by (auto simp: deleteStep_iff)
  have nl: "n < length old" "a_ID (old ! n) = i" using n by (simp_all add: indexID_Some)
  have split: "old = take n old @ old ! n # drop (Suc n) old" using nl(1) by (rule id_take_nth_drop)
  have "distinct (map a_ID (take n old @ old ! n # drop (Suc n) old))" using assms(2) split by simp
  then have "i \<notin> a_ID ` set (take n old @ drop (Suc n) old)" using nl(2) by auto
  then have "\<forall>a \<in> set (take n old @ drop (Suc n) old). a_ID a \<noteq> i" by blast
  then have "filter (\<lambda>a. a_ID a \<noteq> i) (take n old @ old ! n # drop (Suc n) old) = nxt"
    using nl(2) nxt by (simp add: filter_id_conv)
  moreover have "i \<in> a_ID ` set old" using nl by (metis imageI nth_mem)
  ultimately show ?thesis using split by simp
qed

lemma create_keeps_identified: "e_now env \<noteq> 0 \<Longrightarrow> keeps_identified (createStep env inp)"
  unfolding keeps_identified_def
  using createStep_appends appends_identified identified_positive by blast

lemma clone_keeps_identified: "e_now env \<noteq> 0 \<Longrightarrow> keeps_identified (cloneStep env i name port)"
  unfolding keeps_identified_def
  using cloneStep_appends appends_identified identified_positive by blast

lemma update_keeps_identified:
  assumes "e_now env \<noteq> 0" shows "keeps_identified (updateStep env i inp)"
proof -
  have "\<forall>a \<in> set nxt. identified a"
    if "updateStep env i inp d old = Inr (nxt, port)" "storable old" "\<forall>a \<in> set old. identified a" for d old nxt port
  proof -
    have "\<forall>a \<in> set old. a_Port a \<noteq> 0" using that(2) by (auto simp: storable_def)
    from replaces_identified [OF updateStep_replaces [OF that(1) this] assms that(3)] show ?thesis .
  qed
  then show ?thesis unfolding keeps_identified_def by blast
qed

lemma delete_keeps_identified: "keeps_identified (deleteStep i)"
proof -
  have "\<forall>a \<in> set old. identified a \<Longrightarrow> \<forall>a \<in> set (take n old @ drop (Suc n) old). identified a" for old n
    using set_take_subset [of n old] set_drop_subset [of "Suc n" old] by auto
  then show ?thesis unfolding keeps_identified_def deleteStep_iff by blast
qed

section \<open>A manager that takes a new parameter\<close>

text \<open>
  \<open>ApplyWithAPIPort\<close> and \<open>ApplyWithBase\<close>: the accounts are installed with another value of one of the
  manager's own fields, which is kept only on success.
\<close>

locale param_applier =
  fixes install :: "Account list \<Rightarrow> 'p \<Rightarrow> 'm \<Rightarrow> unit res \<times> 'm"
    and param :: "'m \<Rightarrow> 'p"
    and running :: "'m \<Rightarrow> Account list \<Rightarrow> bool"
    and reliable :: "'m \<Rightarrow> bool"
  assumes install_ok: "install as p m = (Inr u, m') \<Longrightarrow> param m' = p \<and> running m' as"
    and install_failed: "reliable m \<Longrightarrow> install as p m = (Inl e, m') \<Longrightarrow>
      param m' = param m \<and> (running m bs \<longrightarrow> running m' bs)"

lemma applied_fields:
  assumes "applyLocked os as m = (q, m')"
  shows "m_APIPort m' = m_APIPort m" "m_BaseConfigJSON m' = m_BaseConfigJSON m"
  using applyLocked_fields(1,2) [of os as m] assms by simp_all

lemma applied_running:
  assumes "applyLocked os as m = (Inr u, m')"
  shows "manager_running m' as"
proof -
  obtain cfg where "BuildConfigWithBase as (m_APIPort m) (m_BaseConfigJSON m) = Inr cfg" "m_file m' = Some cfg"
    using assms by (rule applyLocked_ok)
  then show ?thesis using applied_fields [OF assms] by (auto simp: manager_running_def)
qed

interpretation manager_port: param_applier "ApplyWithAPIPort answers" m_APIPort manager_running "manager_reliable answers"
  for answers
proof
  show "m_APIPort m' = p \<and> manager_running m' as" if "ApplyWithAPIPort answers as p m = (Inr u, m')" for as p m u m'
    using that applied_fields(1) applied_running
    by (fastforce simp: ApplyWithAPIPort_def split: prod.split_asm sum.split_asm)
  show "m_APIPort m' = m_APIPort m \<and> (manager_running m bs \<longrightarrow> manager_running m' bs)"
    if rel: "manager_reliable answers m" and f: "ApplyWithAPIPort answers as p m = (Inl e, m')" for as p m e m' bs
  proof -
    let ?m = "next_call (m\<lparr>m_APIPort := p\<rparr>)"
    obtain m1 where l: "applyLocked (answers (m_calls m)) as ?m = (Inl e, m1)" "m' = m1\<lparr>m_APIPort := m_APIPort m\<rparr>"
      using f by (auto simp: ApplyWithAPIPort_def split: prod.split_asm sum.split_asm)
    have "m_file m1 = m_file ?m"
      by (rule applyLocked_failed [OF l(1)]) (use rel in \<open>simp_all add: manager_reliable_def\<close>)
    then show ?thesis using l(2) applied_fields [OF l(1)] by (simp add: manager_running_def)
  qed
qed

interpretation manager_base: param_applier "ApplyWithBase answers" m_BaseConfigJSON manager_running "manager_reliable answers"
  for answers
proof
  show "m_BaseConfigJSON m' = p \<and> manager_running m' as" if "ApplyWithBase answers as p m = (Inr u, m')" for as p m u m'
    using that applied_fields(2) applied_running
    by (fastforce simp: ApplyWithBase_def split: prod.split_asm sum.split_asm)
  show "m_BaseConfigJSON m' = m_BaseConfigJSON m \<and> (manager_running m bs \<longrightarrow> manager_running m' bs)"
    if rel: "manager_reliable answers m" and f: "ApplyWithBase answers as p m = (Inl e, m')" for as p m e m' bs
  proof -
    let ?m = "next_call (m\<lparr>m_BaseConfigJSON := p\<rparr>)"
    obtain m1 where l: "applyLocked (answers (m_calls m)) as ?m = (Inl e, m1)" "m' = m1\<lparr>m_BaseConfigJSON := m_BaseConfigJSON m\<rparr>"
      using f by (auto simp: ApplyWithBase_def split: prod.split_asm sum.split_asm)
    have "m_file m1 = m_file ?m"
      by (rule applyLocked_failed [OF l(1)]) (use rel in \<open>simp_all add: manager_reliable_def\<close>)
    then show ?thesis using l(2) applied_fields [OF l(1)] by (simp add: manager_running_def)
  qed
qed

end
