(* ===== verification/Runtime.thy ===== *)
theory Runtime
  imports ServiceLaws
begin

text \<open>
  The running state of the accounts (\<open>internal/service/runtime.go\<close>, \<open>toggle.go\<close>): traffic that is
  counted, monthly reset, quota and expiry, switching an account on and off, and restoring a
  backup.
\<close>

section \<open>One account at one instant\<close>

definition month_due :: "string \<Rightarrow> Account \<Rightarrow> bool" where
  "month_due monthKey a \<longleftrightarrow>
     a_MonthlyReset a \<and> a_LastMonthlyReset a \<noteq> [] \<and> a_LastMonthlyReset a \<noteq> monthKey"

definition expired :: "int \<Rightarrow> Account \<Rightarrow> bool" where
  "expired nowMS a \<longleftrightarrow> a_ExpiryTime a > 0 \<and> nowMS \<ge> a_ExpiryTime a"

definition overQuota :: "Account \<Rightarrow> bool" where
  "overQuota a \<longleftrightarrow> a_QuotaBytes a > 0 \<and> add64 (a_UpBytes a) (a_DownBytes a) \<ge> a_QuotaBytes a"

text \<open>The results carry \<open>(account, changedThis, configChanged)\<close>.\<close>

definition monthlyReset :: "int \<Rightarrow> string \<Rightarrow> Account \<Rightarrow> Account \<times> bool \<times> bool" where
  "monthlyReset nowMS monthKey a =
     (if month_due monthKey a then
        (let a1 = a\<lparr>a_UpBytes := 0, a_DownBytes := 0, a_LastMonthlyReset := monthKey\<rparr> in
         if \<not> a_Enabled a1 \<and> a_DisabledReason a1 = ''quota'' \<and>
            (a_ExpiryTime a1 = 0 \<or> nowMS < a_ExpiryTime a1)
         then (a1\<lparr>a_Enabled := True, a_DisabledReason := []\<rparr>, True, True)
         else (a1, True, False))
      else (a, False, False))"

definition suspend :: "string \<Rightarrow> Account \<Rightarrow> Account \<times> bool \<times> bool" where
  "suspend reason a =
     (let config = a_Enabled a; a1 = (if a_Enabled a then a\<lparr>a_Enabled := False\<rparr> else a) in
      if a_DisabledReason a1 \<noteq> reason then (a1\<lparr>a_DisabledReason := reason\<rparr>, True, config)
      else (a1, config, config))"

definition enforceLimits :: "int \<Rightarrow> Account \<Rightarrow> Account \<times> bool \<times> bool" where
  "enforceLimits nowMS a =
     (if expired nowMS a then suspend ''expiry'' a
      else if overQuota a then suspend ''quota'' a
      else (a, False, False))"

definition runtimeStep :: "int \<Rightarrow> string \<Rightarrow> Account \<Rightarrow> Account \<times> bool \<times> bool" where
  "runtimeStep nowMS monthKey a =
     (let (a1, changed1, config1) = monthlyReset nowMS monthKey a;
          (a2, changed2, config2) = enforceLimits nowMS a1;
          changed = changed1 \<or> changed2
      in (if changed then a2\<lparr>a_UpdatedAt := nowMS\<rparr> else a2, changed, config1 \<or> config2))"

section \<open>Operations\<close>

definition persistRuntimeState ::
    "(Account list \<Rightarrow> 'd \<Rightarrow> unit res \<times> 'd) \<Rightarrow> 'x applier option \<Rightarrow> Account list \<Rightarrow> Account list \<Rightarrow> bool \<Rightarrow>
     'd \<times> 'x \<Rightarrow> unit res \<times> 'd \<times> 'x" where
  "persistRuntimeState replace applier current next configChanged w =
     (let store = (\<lambda>x. case replace next (fst w) of
           (Inr _, d) \<Rightarrow> (Inr (), (d, x))
         | (Inl e, d) \<Rightarrow>
             (Inl (Errorf ''persist account state: %w'' [] [e]),
              (d, case applier of
                    Some apply \<Rightarrow> if configChanged then snd (apply current x) else x
                  | None \<Rightarrow> x)))
      in if \<not> configChanged then store (snd w)
         else case applier of
           None \<Rightarrow> (Inl (ErrNew ''Xray applier is not configured''), w)
         | Some apply \<Rightarrow>
             (case apply next (snd w) of
                (Inl e, x) \<Rightarrow> (Inl (Errorf ''apply automatic account state: %w'' [] [e]), (fst w, x))
              | (Inr _, x) \<Rightarrow> store x))"

abbreviation persistDb ::
    "Env \<Rightarrow> 'x applier option \<Rightarrow> Account list \<Rightarrow> Account list \<Rightarrow> bool \<Rightarrow> Db \<times> 'x \<Rightarrow> unit res \<times> Db \<times> 'x" where
  "persistDb env \<equiv> persistRuntimeState (ReplaceAccounts (e_eng env) (e_now env))"

record Traffic =
  t_Up :: int
  t_Down :: int

text \<open>The deltas of a statistics map, in the order its entries are visited.\<close>

definition deltas_of :: "(string, Traffic) fmap \<Rightarrow> string list \<Rightarrow> TrafficDelta list" where
  "deltas_of stats order =
     concat (map (\<lambda>tag. case fmlookup stats tag of
                         None \<Rightarrow> []
                       | Some t \<Rightarrow> [\<lparr>d_Tag = tag, d_Up = t_Up t, d_Down = t_Down t\<rparr>]) order)"

text \<open>\<open>now\<close> of the call gives \<open>nowMS\<close> and \<open>monthKey\<close>; the clock of the store is \<open>e_now\<close>.\<close>

definition ApplyTraffic ::
    "Env \<Rightarrow> 'x applier option \<Rightarrow> (string, Traffic) fmap \<Rightarrow> string list \<Rightarrow> int \<Rightarrow> string \<Rightarrow> Db \<times> 'x \<Rightarrow>
     unit res \<times> Db \<times> 'x" where
  "ApplyTraffic env applier stats order nowMS monthKey w =
     (case AddTrafficBatch (e_eng env) (e_now env) (deltas_of stats order) (fst w) of
        (Inl e, d) \<Rightarrow> (Inl e, (d, snd w))
      | (Inr _, d) \<Rightarrow>
          (case Accounts (e_eng env) d of
             Inl e \<Rightarrow> (Inl e, (d, snd w))
           | Inr current \<Rightarrow>
               (let steps = map (runtimeStep nowMS monthKey) current;
                    next = map fst steps;
                    dbChanged = (\<exists>s \<in> set steps. fst (snd s));
                    configChanged = (\<exists>s \<in> set steps. snd (snd s))
                in if \<not> dbChanged \<and> \<not> configChanged then (Inr (), (d, snd w))
                   else persistDb env applier current next configChanged (d, snd w))))"

definition resetAccount :: "int \<Rightarrow> Account \<Rightarrow> Account \<times> bool" where
  "resetAccount now a =
     (let a1 = a\<lparr>a_UpBytes := 0, a_DownBytes := 0, a_UpdatedAt := now\<rparr> in
      if \<not> a_Enabled a1 \<and> a_DisabledReason a1 = ''quota'' \<and>
         (a_ExpiryTime a1 = 0 \<or> a_UpdatedAt a1 < a_ExpiryTime a1)
      then (a1\<lparr>a_Enabled := True, a_DisabledReason := []\<rparr>, True) else (a1, False))"

definition ResetAccountTraffic :: "Env \<Rightarrow> 'x applier option \<Rightarrow> int \<Rightarrow> Db \<times> 'x \<Rightarrow> unit res \<times> Db \<times> 'x" where
  "ResetAccountTraffic env applier i w =
     (case Accounts (e_eng env) (fst w) of
        Inl e \<Rightarrow> (Inl e, w)
      | Inr current \<Rightarrow>
          (case indexID current i of
             None \<Rightarrow> (Inl (ErrNew ''account not found''), w)
           | Some idx \<Rightarrow>
               (let (a, configChanged) = resetAccount (e_now env) (current ! idx)
                in persistDb env applier current (current[idx := a]) configChanged w)))"

definition toggled :: "int \<Rightarrow> bool \<Rightarrow> Account \<Rightarrow> Account res" where
  "toggled now enabled a =
     (if enabled then
        (if a_ExpiryTime a > 0 \<and> now \<ge> a_ExpiryTime a then Inl (ErrNew ''account has expired'')
         else if a_QuotaBytes a > 0 \<and> add64 (a_UpBytes a) (a_DownBytes a) \<ge> a_QuotaBytes a
         then Inl (Errorf ''traffic quota is exhausted; reset traffic or raise the quota first'' [] [])
         else Inr (a\<lparr>a_Enabled := True, a_DisabledReason := [], a_UpdatedAt := now\<rparr>))
      else Inr (a\<lparr>a_Enabled := False, a_DisabledReason := ''manual'', a_UpdatedAt := now\<rparr>))"

definition SetEnabled :: "Env \<Rightarrow> 'x applier option \<Rightarrow> int \<Rightarrow> bool \<Rightarrow> Db \<times> 'x \<Rightarrow> View res \<times> Db \<times> 'x" where
  "SetEnabled env applier i enabled w =
     (case Accounts (e_eng env) (fst w) of
        Inl e \<Rightarrow> (Inl e, w)
      | Inr current \<Rightarrow>
          (case indexID current i of
             None \<Rightarrow> (Inl (ErrNew ''account not found''), w)
           | Some idx \<Rightarrow>
               if a_Enabled (current ! idx) = enabled then (Inr (PublicView (current ! idx)), w)
               else case toggled (e_now env) enabled (current ! idx) of
                 Inl e \<Rightarrow> (Inl e, w)
               | Inr a \<Rightarrow>
                   (case persistDb env applier current (current[idx := a]) True w of
                      (Inl e, w') \<Rightarrow> (Inl e, w')
                    | (Inr _, w') \<Rightarrow> (Inr (PublicView a), w'))))"

definition RestoreSnapshot ::
    "Env \<Rightarrow> 'x applier option \<Rightarrow> string list \<Rightarrow> string list \<Rightarrow> Snapshot \<Rightarrow> Db \<times> 'x \<Rightarrow> unit res \<times> Db \<times> 'x" where
  "RestoreSnapshot env applier order oldOrder snapshot w =
     (case applier of
        None \<Rightarrow> (Inl (ErrNew ''Xray applier is not configured''), w)
      | Some apply \<Rightarrow>
          (case takeSnapshot (e_eng env) (e_now env) (fst w) of
             Inl e \<Rightarrow> (Inl e, w)
           | Inr old \<Rightarrow>
               (case ReplaceSnapshot (e_eng env) (e_now env) order snapshot (fst w) of
                  (Inl e, d) \<Rightarrow> (Inl (Errorf ''restore database failed: %w'' [] [e]), (d, snd w))
                | (Inr _, d) \<Rightarrow>
                    (case apply (sn_Accounts snapshot) (snd w) of
                       (Inr _, x) \<Rightarrow> (Inr (), (d, x))
                     | (Inl e, x) \<Rightarrow>
                         (Inl (Errorf ''backup Xray validation failed; database and Xray were rolled back: %w'' [] [e]),
                          (snd (ReplaceSnapshot (e_eng env) (e_now env) oldOrder old d),
                           snd (apply (sn_Accounts old) x)))))))"

section \<open>The step of one account\<close>

lemma monthlyReset_simps:
  assumes "monthlyReset nowMS monthKey a = (a1, ch, cf)"
  shows "a_ID a1 = a_ID a" "a_Tag a1 = a_Tag a" "a_Port a1 = a_Port a" "a_AllTimeBytes a1 = a_AllTimeBytes a"
    "a_ExpiryTime a1 = a_ExpiryTime a" "a_QuotaBytes a1 = a_QuotaBytes a" "a_CreatedAt a1 = a_CreatedAt a"
    "a_UpdatedAt a1 = a_UpdatedAt a"
    "cf \<longleftrightarrow> a_Enabled a1 \<noteq> a_Enabled a" "cf \<longrightarrow> ch" "ch \<longleftrightarrow> month_due monthKey a" "\<not> ch \<longrightarrow> a1 = a"
    "\<not> month_due monthKey a1"
    "ch \<longrightarrow> a_UpBytes a1 = 0 \<and> a_DownBytes a1 = 0"
    "cf \<longrightarrow> a_Enabled a1 \<and> a_DisabledReason a = ''quota'' \<and> \<not> expired nowMS a"
    "\<not> cf \<longrightarrow> a_DisabledReason a1 = a_DisabledReason a"
  using assms by (auto simp: monthlyReset_def Let_def month_due_def expired_def split: if_split_asm)

lemma suspend_simps:
  assumes "suspend reason a = (a1, ch, cf)"
  shows "a1 = a\<lparr>a_Enabled := False, a_DisabledReason := reason\<rparr>" "cf \<longleftrightarrow> a_Enabled a" "\<not> ch \<longrightarrow> a1 = a" "cf \<longrightarrow> ch"
  using assms by (auto simp: suspend_def Let_def split: if_split_asm)

lemma overQuota_zero: "a_UpBytes a = 0 \<Longrightarrow> a_DownBytes a = 0 \<Longrightarrow> \<not> overQuota a"
  by (simp add: overQuota_def add64_def wrap64_def)

lemma limits_cong [simp]:
  "expired t (a\<lparr>a_Enabled := b, a_DisabledReason := r\<rparr>) = expired t a"
  "expired t (a\<lparr>a_UpdatedAt := u\<rparr>) = expired t a"
  "overQuota (a\<lparr>a_Enabled := b, a_DisabledReason := r\<rparr>) = overQuota a"
  "overQuota (a\<lparr>a_UpdatedAt := u\<rparr>) = overQuota a"
  "month_due mk (a\<lparr>a_Enabled := b, a_DisabledReason := r\<rparr>) = month_due mk a"
  "month_due mk (a\<lparr>a_UpdatedAt := u\<rparr>) = month_due mk a"
  by (simp_all add: expired_def overQuota_def month_due_def)

text \<open>Whether an account must be off, and what its reason must then be.\<close>

definition limit_of :: "int \<Rightarrow> Account \<Rightarrow> string option" where
  "limit_of t a = (if expired t a then Some ''expiry'' else if overQuota a then Some ''quota'' else None)"

definition within_limits :: "int \<Rightarrow> Account \<Rightarrow> bool" where
  "within_limits t a \<longleftrightarrow>
     (case limit_of t a of None \<Rightarrow> True | Some r \<Rightarrow> \<not> a_Enabled a \<and> a_DisabledReason a = r)"

lemma enforce_limit:
  "enforceLimits t a = (case limit_of t a of None \<Rightarrow> (a, False, False) | Some r \<Rightarrow> suspend r a)"
  by (simp add: enforceLimits_def limit_of_def)

lemma enforce_simps:
  assumes "enforceLimits t a = (a1, ch, cf)"
  shows "a1 = (case limit_of t a of None \<Rightarrow> a | Some r \<Rightarrow> a\<lparr>a_Enabled := False, a_DisabledReason := r\<rparr>)"
    "cf \<longleftrightarrow> limit_of t a \<noteq> None \<and> a_Enabled a" "\<not> ch \<longrightarrow> a1 = a" "cf \<longrightarrow> ch"
  using assms suspend_simps [of _ a a1 ch cf]
  by (auto simp: enforce_limit split: option.split option.split_asm)

lemma limit_of_cong [simp]:
  "limit_of t (a\<lparr>a_Enabled := b, a_DisabledReason := r\<rparr>) = limit_of t a"
  "limit_of t (a\<lparr>a_UpdatedAt := u\<rparr>) = limit_of t a"
  by (simp_all add: limit_of_def)

lemma within_limits_cong [simp]: "within_limits t (a\<lparr>a_UpdatedAt := u\<rparr>) = within_limits t a"
  by (simp add: within_limits_def split: option.split)

lemma enforce_within: "enforceLimits t a = (a1, ch, cf) \<Longrightarrow> within_limits t a1"
  by (drule enforce_simps(1)) (auto simp: within_limits_def split: option.split)

lemma enforce_nothing: "within_limits t a \<Longrightarrow> enforceLimits t a = (a, False, False)"
  by (auto simp: enforce_limit within_limits_def suspend_def split: option.splits)

lemma runtimeStep_unfold:
  assumes "runtimeStep t mk a = (a', ch, cf)"
  obtains a1 ch1 cf1 a2 ch2 cf2 where "monthlyReset t mk a = (a1, ch1, cf1)"
    "enforceLimits t a1 = (a2, ch2, cf2)" "ch = (ch1 \<or> ch2)" "cf = (cf1 \<or> cf2)"
    "a' = (if ch then a2\<lparr>a_UpdatedAt := t\<rparr> else a2)"
  using assms by (auto simp: runtimeStep_def Let_def split: prod.split_asm)

lemma runtimeStep_within:
  assumes "runtimeStep t mk a = (a', ch, cf)"
  shows "within_limits t a' \<and> \<not> month_due mk a'"
proof -
  obtain a1 ch1 cf1 a2 ch2 cf2 where s: "monthlyReset t mk a = (a1, ch1, cf1)"
    "enforceLimits t a1 = (a2, ch2, cf2)" "a' = (if ch then a2\<lparr>a_UpdatedAt := t\<rparr> else a2)"
    by (rule runtimeStep_unfold [OF assms])
  have "within_limits t a2" by (rule enforce_within [OF s(2)])
  moreover have "month_due mk a2 = month_due mk a1"
    using enforce_simps(1) [OF s(2)] by (simp split: option.split)
  moreover have "\<not> month_due mk a1" by (rule monthlyReset_simps(13) [OF s(1)])
  ultimately show ?thesis by (simp add: s(3))
qed

lemma runtimeStep_unchanged: "runtimeStep t mk a = (a', False, cf) \<Longrightarrow> a' = a"
  by (erule runtimeStep_unfold) (auto dest: enforce_simps(3) monthlyReset_simps(12))

text \<open>The second flag says exactly whether the account was switched on or off.\<close>

lemma runtimeStep_config:
  assumes "runtimeStep t mk a = (a', ch, cf)"
  shows "cf \<longleftrightarrow> a_Enabled a' \<noteq> a_Enabled a"
proof -
  obtain a1 ch1 cf1 a2 ch2 cf2 where s: "monthlyReset t mk a = (a1, ch1, cf1)"
    "enforceLimits t a1 = (a2, ch2, cf2)" "ch = (ch1 \<or> ch2)" "cf = (cf1 \<or> cf2)"
    "a' = (if ch then a2\<lparr>a_UpdatedAt := t\<rparr> else a2)"
    by (rule runtimeStep_unfold [OF assms])
  note m = monthlyReset_simps [OF s(1)]
  note e = enforce_simps [OF s(2)]
  have en: "a_Enabled a2 \<longleftrightarrow> a_Enabled a1 \<and> limit_of t a1 = None"
    unfolding e(1) by (simp split: option.split)
  have "cf1 \<Longrightarrow> limit_of t a1 = None"
    using m overQuota_zero [of a1] by (auto simp: limit_of_def expired_def)
  then have "cf \<longleftrightarrow> a_Enabled a2 \<noteq> a_Enabled a" using m(9) m(15) e(2) en s(4) by auto
  then show ?thesis using s(5) by simp
qed

lemma runtimeStep_idem:
  assumes "runtimeStep t mk a = (a', ch, cf)"
  shows "runtimeStep t mk a' = (a', False, False)"
  using runtimeStep_within [OF assms]
  by (simp add: runtimeStep_def monthlyReset_def enforce_nothing)

lemma runtimeStep_keeps:
  assumes "runtimeStep t mk a = (a', ch, cf)"
  shows "a_ID a' = a_ID a" "a_Port a' = a_Port a" "a_Tag a' = a_Tag a" "a_AllTimeBytes a' = a_AllTimeBytes a"
    "a_QuotaBytes a' = a_QuotaBytes a" "a_ExpiryTime a' = a_ExpiryTime a" "a_CreatedAt a' = a_CreatedAt a"
    "a_UpdatedAt a' = (if ch then t else a_UpdatedAt a)"
proof -
  obtain a1 ch1 cf1 a2 ch2 cf2 where s: "monthlyReset t mk a = (a1, ch1, cf1)"
    "enforceLimits t a1 = (a2, ch2, cf2)" "a' = (if ch then a2\<lparr>a_UpdatedAt := t\<rparr> else a2)"
    by (rule runtimeStep_unfold [OF assms])
  note m = monthlyReset_simps [OF s(1)]
  have "a2 = a1 \<or> (\<exists>r. a2 = a1\<lparr>a_Enabled := False, a_DisabledReason := r\<rparr>)"
    using enforce_simps(1) [OF s(2)] by (auto split: option.split_asm)
  then show "a_ID a' = a_ID a" "a_Port a' = a_Port a" "a_Tag a' = a_Tag a" "a_AllTimeBytes a' = a_AllTimeBytes a"
    "a_QuotaBytes a' = a_QuotaBytes a" "a_ExpiryTime a' = a_ExpiryTime a" "a_CreatedAt a' = a_CreatedAt a"
    "a_UpdatedAt a' = (if ch then t else a_UpdatedAt a)"
    using m(1-8) s(3) by (auto)
qed

text \<open>Only a suspension for quota is undone, and only by the reset of a new month.\<close>

lemma runtimeStep_manual:
  assumes "runtimeStep t mk a = (a', ch, cf)" "a_Enabled a'" "\<not> a_Enabled a"
  shows "month_due mk a \<and> a_DisabledReason a = ''quota'' \<and> \<not> expired t a"
proof -
  obtain a1 ch1 cf1 a2 ch2 cf2 where s: "monthlyReset t mk a = (a1, ch1, cf1)"
    "enforceLimits t a1 = (a2, ch2, cf2)" "a' = (if ch then a2\<lparr>a_UpdatedAt := t\<rparr> else a2)"
    by (rule runtimeStep_unfold [OF assms(1)])
  have "a_Enabled a2" using assms(2) s(3) by (simp split: if_split_asm)
  then have "a_Enabled a1" using enforce_simps(1) [OF s(2)] by (auto split: option.split_asm)
  then show ?thesis using monthlyReset_simps [OF s(1)] assms(3) by auto
qed

section \<open>Persisting a new running state\<close>

context account_runtime
begin

text \<open>A change of the stored accounts that Xray does not see keeps database and Xray together.\<close>

lemma sync_map:
  assumes insync: "sync (d, x)" and load': "load d' = bindR (load d) (\<lambda>as. Inr (map f as))"
    and f: "\<And>a. a_ID (f a) = a_ID a" "\<And>a. config_view (f a) = config_view a"
  shows "sync (d', x)"
  unfolding in_sync_def
proof (intro allI impI)
  fix as' assume "load (fst (d', x)) = Inr as'"
  then obtain as where as: "load d = Inr as" "as' = map f as" using load' by auto
  then obtain bs where bs: "running x bs" "stored bs = as" using insync by (auto simp: in_sync_def)
  have "map config_view (map f bs) = map config_view bs" by (simp add: f comp_def)
  from running_cong [OF this [symmetric] bs(1)] have "running x (map f bs)" .
  moreover have "stored (map f bs) = as'" using stored_map [OF f(1)] bs(2) as(2) by simp
  ultimately show "\<exists>bs. running (snd (d', x)) bs \<and> stored bs = as'" by auto
qed

lemma runtime_ok:
  assumes ok: "persistRuntimeState replace (Some install) cur nxt cc w = (Inr u, w')"
    and ids: "\<forall>a \<in> set nxt. identified a"
  shows "load (fst w') = bindR (load (fst w)) (\<lambda>_. Inr (stored nxt))" and "storable nxt"
    and "cc \<Longrightarrow> running (snd w') nxt" and "\<not> cc \<Longrightarrow> snd w' = snd w"
proof -
  obtain d x d' x' where w: "w = (d, x)" "w' = (d', x')" by (cases w; cases w')
  have r: "\<exists>v. replace nxt d = (Inr v, d')"
    using ok by (auto simp: persistRuntimeState_def Let_def w split: if_split_asm prod.split_asm sum.split_asm)
  show "load (fst w') = bindR (load (fst w)) (\<lambda>_. Inr (stored nxt))" "storable nxt"
    using r replace_load [OF _ ids] replace_storable [OF _ ids] by (auto simp: w)
  show "running (snd w') nxt" if "cc"
  proof -
    have "\<exists>v. install nxt x = (Inr v, x')"
      using ok that by (auto simp: persistRuntimeState_def Let_def w split: prod.split_asm sum.split_asm)
    then show ?thesis using install_ok by (auto simp: w)
  qed
  show "snd w' = snd w" if "\<not> cc"
    using ok that by (auto simp: persistRuntimeState_def Let_def w split: prod.split_asm sum.split_asm)
qed

text \<open>
  A failure leaves the database as it was; Xray runs the old accounts again unless applying them
  failed, too.
\<close>

lemma runtime_failed:
  assumes failed: "persistRuntimeState replace (Some install) cur nxt cc w = (Inl e, w')"
    and good: "good (fst w)" and cur: "load (fst w) = Inr cur" and rel: "reliable (snd w)" and insync: "sync w"
  shows "fst w' = fst w" and "sync w' \<or> (\<exists>x1 f. install cur x1 = (Inl f, snd w'))"
proof -
  obtain d x d' x' where w: "w = (d, x)" "w' = (d', x')" by (cases w; cases w')
  have same: "stored cur = cur" using good cur load_stored by (auto simp: w)
  from failed consider (rejected) f where "cc" "install nxt x = (Inl f, x')" "d' = d"
    | (rolled) f x1 where "cc" "replace nxt d = (Inl f, d')" "x' = snd (install cur x1)"
    | (db) f where "\<not> cc" "replace nxt d = (Inl f, d')" "x' = x"
    by (auto simp: persistRuntimeState_def Let_def w split: if_split_asm prod.split_asm sum.split_asm)
  then have "d' = d \<and> (sync w' \<or> (\<exists>x1 f. install cur x1 = (Inl f, x')))"
  proof cases
    case rejected
    with rel insync install_failed show ?thesis by (fastforce simp: in_sync_def w)
  next
    case rolled
    have "d' = d" using rolled(2) replace_failed by simp
    show ?thesis
    proof (cases "install cur x1")
      case (Pair r x2)
      then have "x2 = x'" using rolled(3) by simp
      then show ?thesis
        using Pair \<open>d' = d\<close> cur same install_ok by (cases r) (auto simp: in_sync_def w)
    qed
  next
    case db
    then have "d' = d" using replace_failed by simp
    with db(3) insync show ?thesis by (simp add: w)
  qed
  then show "fst w' = fst w" "sync w' \<or> (\<exists>x1 f. install cur x1 = (Inl f, snd w'))" by (auto simp: w)
qed

lemma runtime_sync:
  assumes ok: "persistRuntimeState replace (Some install) cur (map f cur) cc w = (Inr u, w')"
    and cur: "load (fst w) = Inr cur" and good: "good (fst w)"
    and ids: "\<forall>a \<in> set cur. identified (f a)" and insync: "sync w"
    and f: "\<And>a. a_ID (f a) = a_ID a" "\<not> cc \<Longrightarrow> \<forall>a \<in> set cur. config_view (f a) = config_view a"
  shows "sync w'" and "load (fst w') = Inr (map f cur)"
proof -
  have ids': "\<forall>a \<in> set (map f cur). identified a" using ids by simp
  have "stored (map f cur) = map f cur"
    using stored_map [OF f(1)] load_stored [OF good cur] by simp
  then show l: "load (fst w') = Inr (map f cur)" using runtime_ok(1) [OF ok ids'] cur by simp
  show "sync w'"
  proof (cases cc)
    case True
    with runtime_ok(3) [OF ok ids'] runtime_ok(1) [OF ok ids'] cur show ?thesis by (auto simp: in_sync_def)
  next
    case False
    define g where "g a = (if a \<in> set cur then f a else a)" for a
    have g: "a_ID (g a) = a_ID a" "config_view (g a) = config_view a" for a
      using f False by (simp_all add: g_def)
    have "map g cur = map f cur" by (simp add: g_def)
    then have "load (fst w') = bindR (load (fst w)) (\<lambda>as. Inr (map g as))" using l cur by simp
    from sync_map [OF _ this g] insync have "sync (fst w', snd w)" by simp
    then show ?thesis using runtime_ok(4) [OF ok ids' False] by (metis prod.collapse)
  qed
qed

lemma runtime_good:
  assumes "good (fst w)"
  shows "good (fst (snd (persistRuntimeState replace applier cur nxt cc w)))"
proof -
  have "good (snd (replace nxt (fst w)))" using assms by (rule replace_good)
  then show ?thesis
    using assms by (auto simp: persistRuntimeState_def Let_def split: option.split prod.split sum.split)
qed

end

section \<open>Counting traffic\<close>

definition add_traffic :: "Engine \<Rightarrow> int \<Rightarrow> TrafficDelta list \<Rightarrow> Account \<Rightarrow> Account" where
  "add_traffic eng now ds a =
     fold (addTrafficRow eng now) (filter (\<lambda>d. d_Tag d \<noteq> [] \<and> (d_Up d \<noteq> 0 \<or> d_Down d \<noteq> 0)) ds) a"

lemma Accounts_AddTraffic:
  assumes "AddTrafficBatch eng now ds db = (Inr u, db')"
  shows "Accounts eng' db' = bindR (Accounts eng' db) (\<lambda>as. Inr (map (add_traffic eng now ds) as))"
proof -
  obtain vs where vs: "validDeltas ds = Inr vs"
    and db': "db' = db\<lparr>db_rows := map (\<lambda>a. fold (addTrafficRow eng now) vs a) (db_rows db)\<rparr>"
    using AddTrafficBatch_rows [OF assms] by blast
  have "vs = filter (\<lambda>d. d_Tag d \<noteq> [] \<and> (d_Up d \<noteq> 0 \<or> d_Down d \<noteq> 0)) ds"
    using validDeltas_filter [OF vs] by simp
  then have "(\<lambda>a. fold (addTrafficRow eng now) vs a) = add_traffic eng now ds"
    by (simp add: add_traffic_def fun_eq_iff)
  then show ?thesis
    by (simp add: Accounts_def db' bindR_def sort_key_map add_traffic_def split: sum.split)
qed

lemma add_traffic_keeps:
  "a_ID (add_traffic eng now ds a) = a_ID a"
  "config_view (add_traffic eng now ds a) = config_view a"
proof -
  have row: "config_view (addTrafficRow eng now d a) = config_view a" for d a
    by (simp add: addTrafficRow_def config_view_def)
  have "config_view (fold (addTrafficRow eng now) vs a) = config_view a" for vs a
    by (induction vs arbitrary: a) (simp_all add: row)
  then show "config_view (add_traffic eng now ds a) = config_view a" by (simp add: add_traffic_def)
qed (simp add: add_traffic_def)

lemma runtimeStep_config_view:
  assumes "runtimeStep t mk a = (a', ch, cf)" "\<not> cf"
  shows "config_view a' = config_view a"
proof -
  obtain a1 ch1 cf1 a2 ch2 cf2 where s: "monthlyReset t mk a = (a1, ch1, cf1)"
    "enforceLimits t a1 = (a2, ch2, cf2)" "a' = (if ch then a2\<lparr>a_UpdatedAt := t\<rparr> else a2)"
    by (rule runtimeStep_unfold [OF assms(1)])
  have "a_Enabled a' = a_Enabled a" using runtimeStep_config [OF assms(1)] assms(2) by simp
  moreover have "config_view (b\<lparr>a_Enabled := e\<rparr>) = config_view (a\<lparr>a_Enabled := e\<rparr>)"
    if "b = a1 \<or> (\<exists>r. b = a1\<lparr>a_Enabled := False, a_DisabledReason := r\<rparr>)" for b e
  proof -
    have "config_view (a1\<lparr>a_Enabled := e\<rparr>) = config_view (a\<lparr>a_Enabled := e\<rparr>)" for e
      using s(1) by (auto simp: monthlyReset_def Let_def config_view_def split: if_split_asm)
    then show ?thesis using that by (auto simp: config_view_def)
  qed
  moreover have "a2 = a1 \<or> (\<exists>r. a2 = a1\<lparr>a_Enabled := False, a_DisabledReason := r\<rparr>)"
    using enforce_simps(1) [OF s(2)] by (auto split: option.split_asm)
  ultimately have "config_view (a2\<lparr>a_Enabled := e\<rparr>) = config_view (a\<lparr>a_Enabled := e\<rparr>)" for e by blast
  then have "config_view (a2\<lparr>a_Enabled := a_Enabled a2\<rparr>) = config_view (a\<lparr>a_Enabled := a_Enabled a2\<rparr>)" by blast
  moreover have "a_Enabled a2 = a_Enabled a" using \<open>a_Enabled a' = a_Enabled a\<close> s(3) by (cases ch) simp_all
  ultimately show ?thesis using s(3) by (simp add: config_view_def)
qed

lemma runtimeStep_identified:
  "t \<noteq> 0 \<Longrightarrow> identified a \<Longrightarrow> identified (fst (runtimeStep t mk a))"
  using runtimeStep_keeps [of t mk a "fst (runtimeStep t mk a)" "fst (snd (runtimeStep t mk a))"
      "snd (snd (runtimeStep t mk a))"]
  by (simp add: identified_def)

text \<open>A world in which database and Xray agree, at the manager and the database of the program.\<close>

abbreviation world_sync :: "Engine \<Rightarrow> Db \<times> Manager \<Rightarrow> bool" where
  "world_sync eng \<equiv> in_sync (Accounts eng) manager_running (sort_key a_ID)"

lemma now_nat: "0 < t \<Longrightarrow> \<exists>n. t = int n + 1"
  by (rule exI [of _ "nat (t - 1)"]) simp

lemma ApplyTraffic_ok:
  assumes ok: "ApplyTraffic env (Some (Apply answers)) stats order t mk (db, x) = (Inr u, (db', x'))"
    and now: "0 < e_now env" "t \<noteq> 0" and inv: "db_inv db" and insync: "world_sync (e_eng env) (db, x)"
  shows "db_inv db'" "world_sync (e_eng env) (db', x')"
    "Accounts (e_eng env) db = Inr as \<Longrightarrow>
       Accounts (e_eng env) db' = Inr (map (\<lambda>a. fst (runtimeStep t mk (add_traffic (e_eng env) (e_now env) (deltas_of stats order) a))) as)"
proof -
  obtain n where n: "e_now env = int n + 1" using now_nat [OF now(1)] by blast
  let ?ds = "deltas_of stats order"
  obtain d where d: "AddTrafficBatch (e_eng env) (e_now env) ?ds db = (Inr (), d)"
    using ok by (auto simp: ApplyTraffic_def split: prod.split_asm sum.split_asm)
  obtain cur where cur: "Accounts (e_eng env) d = Inr cur"
    using ok d by (auto simp: ApplyTraffic_def split: sum.split_asm)
  let ?steps = "map (runtimeStep t mk) cur"
  let ?f = "\<lambda>a. fst (runtimeStep t mk a)"
  let ?cc = "\<exists>s \<in> set ?steps. snd (snd s)"
  let ?ch = "\<exists>s \<in> set ?steps. fst (snd s)"
  have dinv: "db_inv d" using AddTrafficBatch_inv [OF inv, of "e_now env" "e_eng env" ?ds] d now(1) by simp
  have dsync: "world_sync (e_eng env) (d, x)"
    by (rule svc.sync_map [OF insync Accounts_AddTraffic [OF d] add_traffic_keeps])
  have as: "Accounts (e_eng env) db = Inr as \<Longrightarrow> cur = map (add_traffic (e_eng env) (e_now env) ?ds) as" for as
    using Accounts_AddTraffic [OF d, of "e_eng env"] cur by simp
  have "db_inv db' \<and> world_sync (e_eng env) (db', x') \<and> Accounts (e_eng env) db' = Inr (map ?f cur)"
  proof (cases "?ch \<or> ?cc")
    case False
    then have same: "db' = d" "x' = x"
      using ok d cur by (auto simp: ApplyTraffic_def Let_def)
    have "?f a = a" if "a \<in> set cur" for a
    proof (cases "runtimeStep t mk a")
      case (fields a' ch cf)
      with False that have "\<not> ch" by auto
      with fields runtimeStep_unchanged show ?thesis by auto
    qed
    then have "map ?f cur = cur" by (simp add: map_idI)
    with same dinv dsync cur show ?thesis by simp
  next
    case True
    let ?w = "persistDb env (Some (Apply answers)) cur (map ?f cur) ?cc (d, x)"
    have p: "?w = (Inr (), (db', x'))"
      using ok d cur True by (auto simp: ApplyTraffic_def Let_def comp_def split: if_split_asm)
    have ids: "\<forall>a \<in> set cur. identified (?f a)"
      using repo.load_ok [OF dinv cur] runtimeStep_identified now(2) by blast
    have keep: "a_ID (?f a) = a_ID a" for a
      by (cases "runtimeStep t mk a") (auto dest: runtimeStep_keeps(1))
    have cv: "\<forall>a \<in> set cur. config_view (?f a) = config_view a" if "\<not> ?cc"
    proof
      fix a assume "a \<in> set cur"
      with that have "\<not> snd (snd (runtimeStep t mk a))" by auto
      then show "config_view (?f a) = config_view a"
        by (cases "runtimeStep t mk a") (auto dest: runtimeStep_config_view)
    qed
    have c: "Accounts (e_eng env) (fst (d, x)) = Inr cur" "db_inv (fst (d, x))"
      using cur dinv by simp_all
    note s = svc.runtime_sync [OF p [unfolded n] c ids dsync keep cv]
    have "db_inv (fst (snd ?w))"
      unfolding n by (rule svc.runtime_good) (simp add: dinv)
    with p s show ?thesis by simp
  qed
  then show "db_inv db'" "world_sync (e_eng env) (db', x')"
    "Accounts (e_eng env) db = Inr as \<Longrightarrow>
       Accounts (e_eng env) db' = Inr (map (\<lambda>a. ?f (add_traffic (e_eng env) (e_now env) ?ds a)) as)"
    using as [of as] by (simp_all add: comp_def)
qed

section \<open>Restoring a backup\<close>

definition no_faults :: "Engine \<Rightarrow> bool" where
  "no_faults eng \<longleftrightarrow> (\<forall>s. fault eng s = None)"

lemma insertAdminsTx_succeeds:
  assumes "no_faults eng" "\<forall>a \<in> set as. adm_Username a \<noteq> [] \<and> adm_PasswordHash a \<noteq> []"
    "distinct (map adm_Username as)" "\<forall>a \<in> set as. fmlookup (db_admins db) (adm_Username a) = None"
  shows "\<exists>db'. insertAdminsTx eng now bad wrap as db = Inr db'"
  using assms
proof (induction as arbitrary: db)
  case (Cons a as)
  let ?db1 = "db\<lparr>db_admins := fmupd (adm_Username a)
      \<lparr>row_hash = adm_PasswordHash a, row_created = now, row_updated = now\<rparr> (db_admins db)\<rparr>"
  have "adm_Username b \<noteq> adm_Username a" if "b \<in> set as" for b using Cons.prems(3) that by (metis distinct.simps(2) image_eqI list.simps(9) set_map)
  then have "\<exists>db'. insertAdminsTx eng now bad wrap as ?db1 = Inr db'"
    using Cons.prems by (intro Cons.IH) auto
  moreover have "insertAdmin eng now a db = Inr ?db1"
    using Cons.prems by (simp add: insertAdmin_Inr no_faults_def)
  ultimately show ?case using Cons.prems by simp
qed simp

lemma insertSettingsTx_succeeds:
  assumes "no_faults eng" "distinct ks" "\<forall>k \<in> set ks. fmlookup (db_settings db) k = None"
  shows "\<exists>db'. insertSettingsTx eng m ks db = Inr db'"
  using assms
proof (induction ks arbitrary: db)
  case (Cons k ks)
  have "\<exists>db'. insertSettingsTx eng m ks db1 = Inr db'"
    if "db1 = db \<or> (\<exists>v. db1 = db\<lparr>db_settings := fmupd k v (db_settings db)\<rparr>)" for db1
    using Cons.prems that by (intro Cons.IH) auto
  with Cons.prems show ?case by (auto simp: no_faults_def split: option.split)
qed simp

lemma ReplaceSnapshot_succeeds:
  assumes nf: "no_faults eng" and acc: "storable (sn_Accounts sn)" "\<forall>a \<in> set (sn_Accounts sn). 0 < a_ID a"
    and adm: "sn_Admins sn \<noteq> []" "distinct (map adm_Username (sn_Admins sn))"
      "\<forall>a \<in> set (sn_Admins sn). adm_Username a \<noteq> [] \<and> adm_PasswordHash a \<noteq> []"
    and order: "distinct order"
  shows "\<exists>db'. ReplaceSnapshot eng now order sn db = (Inr (), db')"
proof -
  have f: "fault eng s = None" for s using nf by (simp add: no_faults_def)
  let ?db0 = "db\<lparr>db_rows := []\<rparr>"
  have st: "storable (db_rows ?db0)" by (simp add: storable_def)
  obtain db1 where db1: "insertAccountsTx eng now (sn_Accounts sn) ?db0 = Inr db1"
    using insertAccountsTx_positive [OF acc(2) st, of eng now] acc(1) f by auto
  obtain db2 where db2: "insertAdminsTx eng now (ErrNew ''snapshot contains invalid administrator'') (\<lambda>a e. e)
      (sn_Admins sn) (db1\<lparr>db_admins := fmempty\<rparr>) = Inr db2"
    using insertAdminsTx_succeeds [OF nf adm(3,2), of "db1\<lparr>db_admins := fmempty\<rparr>" now
        "ErrNew ''snapshot contains invalid administrator''" "\<lambda>a e. e"] by auto
  obtain db3 where db3: "insertSettingsTx eng (sn_Settings sn) order (db2\<lparr>db_settings := fmempty\<rparr>) = Inr db3"
    using insertSettingsTx_succeeds [OF nf order, of "db2\<lparr>db_settings := fmempty\<rparr>" "sn_Settings sn"] by auto
  show ?thesis
    using adm(1) db1 db2 db3 f by (auto simp: ReplaceSnapshot_def transaction_Inr)
qed

lemma admin_list_valid:
  assumes "admins_ok db"
  shows "distinct (map adm_Username (admin_list (db_admins db)))"
    "a \<in> set (admin_list (db_admins db)) \<Longrightarrow> adm_Username a \<noteq> [] \<and> adm_PasswordHash a \<noteq> []"
proof -
  have u: "map adm_Username (admin_list (db_admins db)) = map fst (sorted_list_of_fmap (db_admins db))"
    by (simp add: admin_list_def split_def comp_def)
  show "distinct (map adm_Username (admin_list (db_admins db)))"
    unfolding u by (simp add: sorted_list_of_fmap_def comp_def sorted_list_of_fset.rep_eq)
  assume "a \<in> set (admin_list (db_admins db))"
  then obtain k r where "(k, r) \<in> set (sorted_list_of_fmap (db_admins db))"
    and a: "a = \<lparr>adm_Username = k, adm_PasswordHash = row_hash r\<rparr>"
    by (auto simp: admin_list_def)
  then have "fmlookup (db_admins db) k = Some r"
    by (auto simp: sorted_list_of_fmap_def fmlookup_dom_iff)
  with assms have "k \<noteq> [] \<and> row_hash r \<noteq> []" by (auto simp: admins_ok_def fmpred_iff)
  then show "adm_Username a \<noteq> [] \<and> adm_PasswordHash a \<noteq> []" by (simp add: a)
qed

text \<open>The tables read the same.\<close>

definition same_tables :: "Engine \<Rightarrow> Db \<Rightarrow> Db \<Rightarrow> bool" where
  "same_tables eng db db' \<longleftrightarrow>
     Accounts eng db' = Accounts eng db \<and> Admins eng db' = Admins eng db \<and> Settings eng db' = Settings eng db"

text \<open>
  A backup that Xray rejects leaves every table as it was before, provided the panel has an
  administrator and the engine does not fail.
\<close>

lemma RestoreSnapshot_rejected:
  assumes res: "RestoreSnapshot env (Some apply) order oldOrder sn (db, x) = (Inl e, (db', x'))"
    and nf: "no_faults (e_eng env)" and inv: "db_inv db" and adm: "db_admins db \<noteq> fmempty"
    and oldOrder: "set oldOrder = fmdom' (db_settings db)" "distinct oldOrder"
  shows "same_tables (e_eng env) db db'"
proof -
  let ?eng = "e_eng env"
  have f: "fault ?eng s = None" for s using nf by (simp add: no_faults_def)
  obtain old where old: "takeSnapshot ?eng (e_now env) db = Inr old"
    using f by (simp add: takeSnapshot_def Accounts_def Admins_def Settings_def)
  then have sn: "sn_Accounts old = sort_key a_ID (db_rows db)" "sn_Admins old = admin_list (db_admins db)"
    "sn_Settings old = db_settings db"
    using f by (auto simp: takeSnapshot_def Accounts_def Admins_def Settings_def)
  have ad: "admins_ok db" using inv by (simp add: db_inv_def)
  have "sorted_list_of_fmap (db_admins db) \<noteq> []"
  proof
    assume "sorted_list_of_fmap (db_admins db) = []"
    then have "fmlookup (db_admins db) = (\<lambda>k. None)"
      using map_of_sorted_list [of "db_admins db"] by simp
    then show False using adm by (auto intro: fmap_ext)
  qed
  then have ne: "sn_Admins old \<noteq> []" by (simp add: sn admin_list_def)
  have acc: "storable (sn_Accounts old) \<and> (\<forall>a \<in> set (sn_Accounts old). 0 < a_ID a)"
    using Accounts_storable [of db ?eng] inv f by (simp add: sn Accounts_def db_inv_def)
  show ?thesis
  proof (cases "ReplaceSnapshot ?eng (e_now env) order sn db")
    case (Pair r d)
    show ?thesis
    proof (cases r)
      case (Inl e1)
      then have "db' = db"
        using res old Pair ReplaceSnapshot_failed by (auto simp: RestoreSnapshot_def)
      then show ?thesis by (simp add: same_tables_def)
    next
      case (Inr u)
      then have db': "db' = snd (ReplaceSnapshot ?eng (e_now env) oldOrder old d)"
        using res old Pair by (auto simp: RestoreSnapshot_def split: prod.split_asm sum.split_asm)
      obtain d' where d': "ReplaceSnapshot ?eng (e_now env) oldOrder old d = (Inr (), d')"
        using ReplaceSnapshot_succeeds [OF nf _ _ ne _ _ oldOrder(2), of "e_now env" d] acc
          admin_list_valid [OF ad] by (auto simp: sn(2))
      obtain sn' where sn': "takeSnapshot ?eng 0 d' = Inr sn'"
        using f by (simp add: takeSnapshot_def Accounts_def Admins_def Settings_def)
      have "sn_Accounts sn' = sn_Accounts old \<and> sn_Admins sn' = sn_Admins old \<and> sn_Settings sn' = sn_Settings old"
        by (rule snapshot_roundtrip [OF inv old d' _ sn']) (simp add: sn oldOrder)
      then show ?thesis
        using old sn' db' d' f
        by (auto simp: same_tables_def takeSnapshot_def Accounts_def Admins_def Settings_def)
    qed
  qed
qed

end
