(* ===== verification/Guarantees.thy ===== *)
theory Guarantees
  imports Runtime
begin

text \<open>
  What the account service guarantees about the program as a whole: the operations on the account
  list, the traffic loop and backups, over the database and the Xray manager together. The
  interpretations \<open>svc\<close>, \<open>repo\<close> and \<open>manager\<close> carry the proofs.
\<close>

section \<open>The outcome of a change\<close>

text \<open>
  Every change ends in one of two ways: the database is as it was and the answer is an error, or the
  new list is stored. Database and Xray agree afterwards, or the error says that they do not.
\<close>

definition outcome ::
    "Engine \<Rightarrow> Db \<times> Manager \<Rightarrow> 'k res \<Rightarrow> Db \<times> Manager \<Rightarrow> (Account list \<Rightarrow> Account list \<Rightarrow> bool) \<Rightarrow> bool" where
  "outcome eng w r w' changed \<longleftrightarrow>
     db_inv (fst w') \<and>
     (world_sync eng w' \<or> (case r of Inl e \<Rightarrow> reports_drift e | Inr k \<Rightarrow> False)) \<and>
     ((fst w' = fst w \<and> (case r of Inl e \<Rightarrow> True | Inr k \<Rightarrow> False)) \<or>
      (\<exists>old nxt. Accounts eng (fst w) = Inr old \<and> changed old nxt \<and>
                 Accounts eng (fst w') = Inr (sort_key a_ID nxt)))"

text \<open>The state an operation starts in.\<close>

definition steady :: "Env \<Rightarrow> (nat \<Rightarrow> Xos) \<Rightarrow> Db \<times> Manager \<Rightarrow> bool" where
  "steady env answers w \<longleftrightarrow>
     0 < e_now env \<and> db_inv (fst w) \<and> manager_reliable answers (snd w) \<and> world_sync (e_eng env) w"

lemma changeDb_outcome:
  assumes c: "changeDb env (Some (Apply answers)) step w = (r, w')"
    and st: "steady env answers w" and ids: "keeps_identified step"
  shows "outcome (e_eng env) w r w' (\<lambda>old nxt. \<exists>k. r = Inr k \<and> step (fst w) old = Inr (nxt, k))"
proof -
  obtain n where n: "e_now env = int n + 1" using st now_nat by (auto simp: steady_def)
  have c': "change (Accounts (e_eng env)) (ReplaceAccounts (e_eng env) (int n + 1)) (Some (Apply answers)) step w = (r, w')"
    using c n by simp
  have s: "db_inv (fst w)" "manager_reliable answers (snd w)" "world_sync (e_eng env) w"
    using st by (simp_all add: steady_def)
  have good: "db_inv (fst w')"
    using svc.change_good [OF s(1), of "e_eng env" n "Some (Apply answers)" step] c' by simp
  show ?thesis
  proof (cases r)
    case (Inl e)
    with svc.change_failed [OF c' [unfolded Inl] s] good show ?thesis by (simp add: outcome_def)
  next
    case (Inr k)
    with svc.change_ok [OF c' [unfolded Inr] s(1) ids] good show ?thesis
      by (auto simp: outcome_def)
  qed
qed

lemma outcome_mono:
  "outcome eng w r w' P \<Longrightarrow> (\<And>old nxt. Accounts eng (fst w) = Inr old \<Longrightarrow> P old nxt \<Longrightarrow> Q old nxt) \<Longrightarrow>
   outcome eng w r w' Q"
  unfolding outcome_def by blast

lemma outcome_savedView:
  assumes "outcome eng w r w' P" and "\<And>old nxt. P old nxt \<Longrightarrow> \<exists>k. r = Inr k"
  shows "outcome eng w (fst (savedView eng (r, w'))) w' P"
  using assms by (cases r) (auto simp: outcome_def savedView_def reports_drift_def)

lemma steady_rows:
  assumes "steady env answers w" "Accounts (e_eng env) (fst w) = Inr old"
  shows "\<forall>a \<in> set old. 0 < a_ID a" "\<forall>a \<in> set old. a_Port a \<noteq> 0" "distinct (map a_ID old)"
    "e_now env \<noteq> 0"
proof -
  have "storable old \<and> (\<forall>a \<in> set old. identified a)"
    using repo.load_ok assms unfolding steady_def by blast
  then show "\<forall>a \<in> set old. 0 < a_ID a" "\<forall>a \<in> set old. a_Port a \<noteq> 0" "distinct (map a_ID old)"
    by (auto simp: storable_def identified_def)
  show "e_now env \<noteq> 0" using assms(1) by (simp add: steady_def)
qed

section \<open>Creating, cloning, updating and deleting\<close>

text \<open>(C1) Creating an account appends one account with the least unused id, a free port that no
  other account has and zero counters, in the database and in Xray, or it changes nothing; when the
  two cannot be kept together the error says so.\<close>

theorem create_account_outcome:
  assumes "CreateAccount env (Some (Apply answers)) inp w = (r, w')" and "steady env answers w"
  shows "outcome (e_eng env) w r w' (\<lambda>old nxt. \<exists>port. appends (e_os env) old nxt port \<and> account_wf (last nxt))"
proof -
  obtain r0 where c: "changeDb env (Some (Apply answers)) (createStep env inp) w = (r0, w')"
    and r: "r = fst (savedView (e_eng env) (r0, w'))"
    using assms(1) by (cases "changeDb env (Some (Apply answers)) (createStep env inp) w")
      (auto simp: CreateAccount_def savedView_def)
  have "e_now env \<noteq> 0" using assms(2) by (simp add: steady_def)
  from changeDb_outcome [OF c assms(2) create_keeps_identified [OF this]]
  have "outcome (e_eng env) w r w' (\<lambda>old nxt. \<exists>k. r0 = Inr k \<and> createStep env inp (fst w) old = Inr (nxt, k))"
    unfolding r by (rule outcome_savedView) blast
  then show ?thesis
    by (rule outcome_mono) (use createStep_appends steady_rows [OF assms(2)] in blast)
qed

text \<open>Cloning appends one account in the same way.\<close>

theorem clone_account_outcome:
  assumes "CloneAccount env (Some (Apply answers)) i name port0 w = (r, w')" and "steady env answers w"
  shows "outcome (e_eng env) w r w' (\<lambda>old nxt. \<exists>port. appends (e_os env) old nxt port \<and> i \<in> a_ID ` set old)"
proof -
  obtain r0 where c: "changeDb env (Some (Apply answers)) (cloneStep env i name port0) w = (r0, w')"
    and r: "r = fst (savedView (e_eng env) (r0, w'))"
    using assms(1) by (cases "changeDb env (Some (Apply answers)) (cloneStep env i name port0) w")
      (auto simp: CloneAccount_def savedView_def)
  have "e_now env \<noteq> 0" using assms(2) by (simp add: steady_def)
  from changeDb_outcome [OF c assms(2) clone_keeps_identified [OF this]]
  have "outcome (e_eng env) w r w' (\<lambda>old nxt. \<exists>k. r0 = Inr k \<and> cloneStep env i name port0 (fst w) old = Inr (nxt, k))"
    unfolding r by (rule outcome_savedView) blast
  then show ?thesis
  proof (rule outcome_mono)
    fix old nxt
    assume old: "Accounts (e_eng env) (fst w) = Inr old"
      and "\<exists>k. r0 = Inr k \<and> cloneStep env i name port0 (fst w) old = Inr (nxt, k)"
    then obtain k where s: "cloneStep env i name port0 (fst w) old = Inr (nxt, k)" by blast
    note rows = steady_rows [OF assms(2) old]
    have "i \<in> a_ID ` set old"
      using s indexID_None [of old i] by (auto simp: cloneStep_def split: option.split_asm)
    with cloneStep_appends [OF s rows(1,4)]
    show "\<exists>port. appends (e_os env) old nxt port \<and> i \<in> a_ID ` set old" by blast
  qed
qed

text \<open>(C2) An update replaces one account and no other, in the database and in Xray, or changes
  nothing: id, protocol, traffic and creation time stay, the port is the old one or a free one, and
  an account that stays switched off keeps the reason.\<close>

theorem update_account_outcome:
  assumes "UpdateAccount env (Some (Apply answers)) i inp w = (r, w')" and "steady env answers w"
  shows "outcome (e_eng env) w r w' (\<lambda>old nxt. \<exists>port. replaces (e_os env) (e_now env) old i nxt port)"
proof -
  obtain r0 where c: "changeDb env (Some (Apply answers)) (updateStep env i inp) w = (r0, w')"
    and r: "r = fst (savedView (e_eng env) (r0, w'))"
    using assms(1) by (cases "changeDb env (Some (Apply answers)) (updateStep env i inp) w")
      (auto simp: UpdateAccount_def savedView_def)
  have "e_now env \<noteq> 0" using assms(2) by (simp add: steady_def)
  from changeDb_outcome [OF c assms(2) update_keeps_identified [OF this]]
  have "outcome (e_eng env) w r w' (\<lambda>old nxt. \<exists>k. r0 = Inr k \<and> updateStep env i inp (fst w) old = Inr (nxt, k))"
    unfolding r by (rule outcome_savedView) blast
  then show ?thesis
    by (rule outcome_mono) (use updateStep_replaces steady_rows [OF assms(2)] in blast)
qed

text \<open>(C3) Deleting removes exactly the account with the id, in the database and in Xray, or changes
  nothing.\<close>

theorem delete_account_outcome:
  assumes "DeleteAccount env (Some (Apply answers)) i w = (r, w')" and "steady env answers w"
  shows "outcome (e_eng env) w r w' (\<lambda>old nxt. i \<in> a_ID ` set old \<and> nxt = filter (\<lambda>a. a_ID a \<noteq> i) old)"
  using changeDb_outcome [OF assms(1) [unfolded DeleteAccount_def] assms(2) delete_keeps_identified]
  by (rule outcome_mono) (use deleteStep_filter steady_rows [OF assms(2)] in blast)


section \<open>A world for the witnesses\<close>

definition benign :: Xos where
  "benign = \<lparr>x_prepare = None, x_test = (\<lambda>c. None), x_read = None, x_active = True,
     x_rename = None, x_restart = (\<lambda>c. None), x_restore = None, x_limited = False,
     x_show_limited = False, x_reset = None, x_restart2 = (\<lambda>c. None)\<rparr>"

definition calm :: Env where
  "calm = \<lparr>e_eng = quiet, e_os = \<lparr>tcp_free = (\<lambda>p. True), udp_free = (\<lambda>p. True), rand_below = (\<lambda>n. None)\<rparr>,
     e_now = 9, e_month = ''2024-01'', e_ent = sample_entropy\<rparr>"

definition serving :: "Account list \<Rightarrow> Db \<times> Manager" where
  "serving as =
     (\<lparr>db_rows = as, db_seq = 9, db_admins = fmempty, db_settings = fmempty\<rparr>,
      \<lparr>m_BinaryPath = ''xray'', m_ConfigPath = ''config'', m_Service = [], m_APIPort = 0,
       m_BaseConfigJSON = Blank,
       m_file = (case BuildConfig as 0 of Inr cfg \<Rightarrow> Some cfg | Inl e \<Rightarrow> None), m_calls = 0\<rparr>)"

lemma calm_simps [simp]:
  "e_eng calm = quiet" "e_now calm = 9" "tcp_free (e_os calm) p" "udp_free (e_os calm) p"
  "e_month calm = ''2024-01''" "e_ent calm = sample_entropy"
  by (simp_all add: calm_def)

lemma built: "config_ok as 0 \<Longrightarrow> \<exists>cfg. BuildConfigWithBase as 0 Blank = Inr cfg"
  by (simp add: BuildConfig_iff base_config_Inr)

lemma serving_running: "config_ok as 0 \<Longrightarrow> manager_running (snd (serving as)) as"
  using built [of as] by (auto simp: serving_def manager_running_def BuildConfig_def)

lemma serving_steady:
  assumes "config_ok as 0" "rows_ok (fst (serving as))" "sorted (map a_ID as)"
  shows "steady calm (\<lambda>n. benign) (serving as)"
proof -
  have "Accounts quiet (fst (serving as)) = Inr as"
    using assms(3) by (simp add: Accounts_def serving_def sort_key_sorted)
  then have "world_sync quiet (serving as)"
    using serving_running [OF assms(1)] assms(3) sort_key_sorted by (fastforce simp: in_sync_def)
  moreover have "db_inv (fst (serving as))"
    using assms(2) by (simp add: db_inv_def serving_def admins_ok_def settings_ok_def)
  moreover have "manager_reliable (\<lambda>n. benign) (snd (serving as))"
    using built [OF assms(1)] by (auto simp: manager_reliable_def serving_def benign_def BuildConfig_def)
  ultimately show ?thesis by (simp add: steady_def)
qed

lemma benign_apply:
  assumes "config_ok nxt 0"
  shows "\<exists>x. Apply (\<lambda>n. benign) nxt (snd (serving as)) = (Inr (), x)"
  using built [OF assms]
  by (auto simp: Apply_def applyLocked_def installConfig_def serving_def benign_def next_call_def
      opt_res_def Let_def)

text \<open>In this world a change that is computed is carried out.\<close>

lemma calm_change:
  assumes "step (fst (serving as)) as = Inr (nxt, k)" "sorted (map a_ID as)" "config_ok nxt 0"
    "storable nxt" "\<forall>a \<in> set nxt. 0 < a_ID a"
  shows "\<exists>w'. changeDb calm (Some (Apply (\<lambda>n. benign))) step (serving as) = (Inr k, w')"
proof -
  have load: "Accounts quiet (fst (serving as)) = Inr as"
    using assms(2) by (simp add: Accounts_def serving_def sort_key_sorted)
  obtain x where x: "Apply (\<lambda>n. benign) nxt (snd (serving as)) = (Inr (), x)"
    using benign_apply [OF assms(3)] by blast
  have "\<exists>d. ReplaceAccounts quiet 9 nxt (fst (serving as)) = (Inr (), d)"
    using ReplaceAccounts_positive [OF assms(5), of quiet 9] assms(4) by (simp add: no_fault_replace_def)
  then show ?thesis
    using load x assms(1) by (auto simp: change_def applyAndPersist_def)
qed

lemma sample_served:
  "config_ok [sample_account] 0" "rows_ok (fst (serving [sample_account]))" "config_ok [] 0"
  "rows_ok (fst (serving []))"
  by (simp_all add: config_ok_def inbound_ok_def sample_account_def rows_ok_def row_ok_def serving_def
      api_port_def default_sniffing_def marshal_def json_valid_def)

theorem create_account_outcome_witness:
  "\<exists>r w'. CreateAccount calm (Some (Apply (\<lambda>n. benign))) sample_input (serving []) = (r, w') \<and>
          outcome quiet (serving []) r w' (\<lambda>old nxt. \<exists>port. appends (e_os calm) old nxt port \<and> account_wf (last nxt)) \<and>
          fst w' \<noteq> fst (serving [])"
proof -
  obtain a where a: "New sample_entropy 9 sample_input 443 = Inr a"
    using is_okD [OF sample_new(2)] by blast
  have norm: "normalizeEditorInput sample_input = sample_input" by code_simp
  have prep: "prepareInput calm d sample_input [] = Inr sample_input" for d
  proof -
    have "to_lower (trim_space ''trojan'') = ''trojan''"
      by (simp add: trim_space_graphic graphic_def to_lower_def lower_char_def)
    then show ?thesis by (simp add: prepareInput_def sample_input_def)
  qed
  define b where "b = initializeMonthlyCycle ''2024-01'' (a\<lparr>a_ID := nextAvailableAccountID []\<rparr>) False"
  have port: "in_Port sample_input = 443" by (simp add: sample_input_def)
  have step: "createStep calm sample_input (fst (serving [])) [] = Inr ([b], 443)"
    using a by (simp add: createStep_def norm prep port uniquePort_ok b_def)
  have wf: "account_wf b" using New_wf [OF a] by (simp add: b_def)
  have "0 < a_ID b" using nextAvailableAccountID_least [of "[]"] by (simp add: b_def)
  moreover have "a_Port b = 443"
    using createStep_appends [OF step] by (simp add: appends_def)
  ultimately have c: "config_ok [b] 0" "storable [b]" "0 < a_ID b"
    using wf by (auto simp: config_ok_def api_port_def inbound_ok_def account_wf_def is_object_def storable_def
        json_valid_def split: jtext.split_asm json.split_asm)
  obtain w1 where w1: "changeDb calm (Some (Apply (\<lambda>n. benign))) (createStep calm sample_input) (serving []) = (Inr 443, w1)"
    using calm_change [where as = "[]" and step = "createStep calm sample_input", OF step] c by auto
  then obtain r where r: "CreateAccount calm (Some (Apply (\<lambda>n. benign))) sample_input (serving []) = (r, w1)"
    by (simp add: CreateAccount_def savedView_def)
  note out = create_account_outcome [OF r serving_steady [OF sample_served(3,4)]]
  have "fst w1 \<noteq> fst (serving [])"
    using changeDb_outcome [OF w1 serving_steady [OF sample_served(3,4)] create_keeps_identified] step
    by (auto simp: outcome_def Accounts_def serving_def)
  with r out show ?thesis by simp
qed

theorem clone_account_outcome_witness:
  "\<exists>r w'. CloneAccount calm (Some (Apply (\<lambda>n. benign))) 3 ''eve'' 9443 (serving [sample_account]) = (r, w') \<and>
          outcome quiet (serving [sample_account]) r w'
            (\<lambda>old nxt. \<exists>port. appends (e_os calm) old nxt port \<and> 3 \<in> a_ID ` set old)"
proof -
  obtain r w' where r: "CloneAccount calm (Some (Apply (\<lambda>n. benign))) 3 ''eve'' 9443 (serving [sample_account]) = (r, w')"
    by (cases "CloneAccount calm (Some (Apply (\<lambda>n. benign))) 3 ''eve'' 9443 (serving [sample_account])")
  from clone_account_outcome [OF r serving_steady [OF sample_served(1,2)]] r show ?thesis by simp
qed

theorem update_account_outcome_witness:
  "\<exists>r w'. UpdateAccount calm (Some (Apply (\<lambda>n. benign))) 3 sample_input (serving [sample_account]) = (r, w') \<and>
          outcome quiet (serving [sample_account]) r w'
            (\<lambda>old nxt. \<exists>port. replaces (e_os calm) 9 old 3 nxt port)"
proof -
  obtain r w' where r: "UpdateAccount calm (Some (Apply (\<lambda>n. benign))) 3 sample_input (serving [sample_account]) = (r, w')"
    by (cases "UpdateAccount calm (Some (Apply (\<lambda>n. benign))) 3 sample_input (serving [sample_account])")
  from update_account_outcome [OF r serving_steady [OF sample_served(1,2)]] r show ?thesis by simp
qed

theorem delete_account_outcome_witness:
  "\<exists>w'. DeleteAccount calm (Some (Apply (\<lambda>n. benign))) 3 (serving [sample_account]) = (Inr (), w') \<and>
        Accounts quiet (fst w') = Inr []"
proof -
  have i: "a_ID sample_account = 3" by (simp add: sample_account_def)
  have step: "deleteStep 3 (fst (serving [sample_account])) [sample_account] = Inr ([], ())"
    by (simp add: deleteStep_def i)
  obtain w' where w': "DeleteAccount calm (Some (Apply (\<lambda>n. benign))) 3 (serving [sample_account]) = (Inr (), w')"
    using calm_change [where as = "[sample_account]" and step = "deleteStep 3", OF step] sample_served(3)
    by (auto simp: DeleteAccount_def storable_def)
  have "Accounts quiet (fst (serving [sample_account])) = Inr [sample_account]"
    by (simp add: Accounts_def serving_def)
  then show ?thesis
    using delete_account_outcome [OF w' serving_steady [OF sample_served(1,2)]] w' i
    by (auto simp: outcome_def)
qed

section \<open>Traffic, limits and switching\<close>



text \<open>(C21) A round over all accounts that succeeds stores for each account what its counted traffic
  and then its limits make of it, and leaves database and Xray in agreement.\<close>

theorem apply_traffic_round:
  assumes "ApplyTraffic env (Some (Apply answers)) stats order t mk (db, x) = (Inr u, (db', x'))"
    and "0 < e_now env" "t \<noteq> 0" and "db_inv db" and "world_sync (e_eng env) (db, x)"
    and "Accounts (e_eng env) db = Inr as"
  shows "db_inv db' \<and> world_sync (e_eng env) (db', x') \<and>
         Accounts (e_eng env) db' =
           Inr (map (\<lambda>a. fst (runtimeStep t mk (add_traffic (e_eng env) (e_now env) (deltas_of stats order) a))) as)"
  using ApplyTraffic_ok [OF assms(1-5)] assms(6) by blast

theorem apply_traffic_round_witness:
  "\<exists>w'. ApplyTraffic calm (Some (Apply (\<lambda>n. benign))) fmempty [] 10 ''2024-01'' (serving [sample_account]) = (Inr (), w') \<and>
        Accounts quiet (fst w') = Inr [sample_account]"
proof -
  have load: "Accounts quiet (fst (serving [sample_account])) = Inr [sample_account]"
    by (simp add: Accounts_def serving_def)
  have batch: "AddTrafficBatch quiet 9 [] d = (Inr (), d)" for d by (simp add: AddTrafficBatch_def)
  have step: "runtimeStep 10 ''2024-01'' sample_account = (sample_account, False, False)"
    by (simp add: runtimeStep_def monthlyReset_def month_due_def enforceLimits_def expired_def overQuota_def
        sample_account_def)
  have run: "ApplyTraffic calm (Some (Apply (\<lambda>n. benign))) fmempty [] 10 ''2024-01'' (serving [sample_account]) =
      (Inr (), serving [sample_account])"
    using load batch step by (simp add: ApplyTraffic_def deltas_of_def Let_def)
  then have run': "ApplyTraffic calm (Some (Apply (\<lambda>n. benign))) fmempty [] 10 ''2024-01''
      (fst (serving [sample_account]), snd (serving [sample_account])) =
      (Inr (), (fst (serving [sample_account]), snd (serving [sample_account])))" by simp
  have "db_inv (fst (serving [sample_account]))" "world_sync quiet (serving [sample_account])"
    using serving_steady [OF sample_served(1,2)] by (simp_all add: steady_def)
  with apply_traffic_round [OF run'] load run step show ?thesis
    by (auto simp: deltas_of_def add_traffic_def)
qed

text \<open>(C4) Switching an account on or off changes that account and nothing else of the list: a success
  means the account has the wanted state and, when it was switched on, is neither expired nor over
  its quota; database and Xray agree. A failure leaves the list as it was.\<close>

theorem set_enabled_outcome:
  assumes "SetEnabled env (Some (Apply answers)) i enabled w = (r, w')" and "steady env answers w"
  shows "db_inv (fst w') \<and>
         (case r of
            Inl e \<Rightarrow> fst w' = fst w
          | Inr v \<Rightarrow> world_sync (e_eng env) w' \<and>
              (\<exists>old n a. Accounts (e_eng env) (fst w) = Inr old \<and> indexID old i = Some n \<and>
                 Accounts (e_eng env) (fst w') = Inr (old[n := a]) \<and> a_Enabled a = enabled \<and>
                 (a = old ! n \<or> a_Enabled (old ! n) \<noteq> enabled \<and>
                    config_view (a\<lparr>a_Enabled := a_Enabled (old ! n)\<rparr>) = config_view (old ! n) \<and>
                    a_UpBytes a = a_UpBytes (old ! n) \<and> a_DownBytes a = a_DownBytes (old ! n) \<and>
                    (\<not> enabled \<and> a_DisabledReason a = ''manual'' \<or>
                     enabled \<and> limit_of (e_now env) a = None \<and> a_DisabledReason a = []))))"
proof -
  obtain n0 where n0: "e_now env = int n0 + 1" using assms(2) now_nat by (auto simp: steady_def)
  have st: "db_inv (fst w)" "manager_reliable answers (snd w)" "world_sync (e_eng env) w"
    using assms(2) by (simp_all add: steady_def)
  show ?thesis
  proof (cases "w' = w \<and> (\<exists>e. r = Inl e)")
    case True
    then show ?thesis using st by auto
  next
    case False
    then obtain old n where old: "Accounts (e_eng env) (fst w) = Inr old" and n: "indexID old i = Some n"
      using assms(1) by (auto simp: SetEnabled_def split: sum.split_asm option.split_asm)
    have nl: "n < length old" using indexID_nth [OF n] by simp
    have loaded: "storable old" "\<forall>a \<in> set old. identified a"
      using repo.load_ok [OF st(1) old] by simp_all
    show ?thesis
    proof (cases "a_Enabled (old ! n) = enabled")
      case True
      then have "w' = w" "r = Inr (PublicView (old ! n))" using assms(1) old n by (auto simp: SetEnabled_def)
      then show ?thesis using True old n nl st
        by (auto intro!: exI [of _ "old ! n"])
    next
      case en: False
      then obtain a where a: "toggled (e_now env) enabled (old ! n) = Inr a"
        using False assms(1) old n by (auto simp: SetEnabled_def split: sum.split_asm)
      let ?p = "persistDb env (Some (Apply answers)) old (old[n := a]) True w"
      obtain q where p: "?p = (q, w')" and rq: "case q of Inl e \<Rightarrow> r = Inl e | Inr u \<Rightarrow> r = Inr (PublicView a)"
        using assms(1) old n en a
        by (cases ?p; cases "fst ?p") (auto simp: SetEnabled_def)
      have at: "a_Enabled a = enabled" "a_ID a = a_ID (old ! n)" "a_CreatedAt a = a_CreatedAt (old ! n)"
        "a_UpdatedAt a = e_now env" "a_UpBytes a = a_UpBytes (old ! n)" "a_DownBytes a = a_DownBytes (old ! n)"
        "config_view (a\<lparr>a_Enabled := a_Enabled (old ! n)\<rparr>) = config_view (old ! n)"
        "\<not> enabled \<and> a_DisabledReason a = ''manual'' \<or> enabled \<and> limit_of (e_now env) a = None \<and> a_DisabledReason a = []"
        using a by (auto simp: toggled_def config_view_def limit_of_def expired_def overQuota_def split: if_split_asm)
      define f where "f b = (if b = old ! n then a else b)" for b
      have "distinct (map a_ID old)" using loaded by (simp add: storable_def)
      then have upd: "old[n := a] = map f old"
        using nl by (intro nth_equalityI) (auto simp: f_def nth_list_update distinct_map dest: nth_eq_iff_index_eq)
      have fid: "a_ID (f b) = a_ID b" for b by (simp add: f_def at)
      have ids: "\<forall>b \<in> set old. identified (f b)"
        using loaded(2) nl assms(2) by (auto simp: f_def identified_def at steady_def)
      have good: "db_inv (fst w')"
        using svc.runtime_good [OF st(1), of "e_eng env" n0 "Some (Apply answers)" old "old[n := a]" True] p n0 by simp
      show ?thesis
      proof (cases q)
        case (Inl e)
        with p n0 svc.runtime_failed(1) [OF _ st(1) old st(2,3)] have "fst w' = fst w" by metis
        then show ?thesis using good rq Inl by simp
      next
        case (Inr u)
        have p': "persistRuntimeState (ReplaceAccounts (e_eng env) (int n0 + 1)) (Some (Apply answers)) old (map f old) True w = (Inr u, w')"
          using p n0 Inr upd by simp
        have nocf: "\<not> True \<Longrightarrow> \<forall>a \<in> set old. config_view (f a) = config_view a" by simp
        note s = svc.runtime_sync [OF p' old st(1) ids st(3) fid nocf]
        from s good rq Inr old n en at show ?thesis
          by (auto simp: upd [symmetric] intro!: exI [of _ a])
      qed
    qed
  qed
qed

theorem set_enabled_outcome_witness:
  "\<exists>r w'. SetEnabled calm (Some (Apply (\<lambda>n. benign))) 3 False (serving [sample_account]) = (r, w') \<and>
          db_inv (fst w')"
proof -
  obtain r w' where r: "SetEnabled calm (Some (Apply (\<lambda>n. benign))) 3 False (serving [sample_account]) = (r, w')"
    by (cases "SetEnabled calm (Some (Apply (\<lambda>n. benign))) 3 False (serving [sample_account])")
  from set_enabled_outcome [OF r serving_steady [OF sample_served(1,2)]] r show ?thesis by auto
qed

section \<open>Backups\<close>

text \<open>(C23) A backup survives the way out and back: a snapshot that was taken from a well-formed
  database, restored into any other one, gives the same accounts, administrators and settings when a
  snapshot is taken there.\<close>

theorem snapshot_survives:
  assumes "db_inv db" and "takeSnapshot eng now db = Inr sn"
    and "ReplaceSnapshot eng' now' order sn db2 = (Inr u, db')"
    and "set order = fmdom' (sn_Settings sn)" and "takeSnapshot eng'' now'' db' = Inr sn'"
  shows "sn_Accounts sn' = sn_Accounts sn \<and> sn_Admins sn' = sn_Admins sn \<and> sn_Settings sn' = sn_Settings sn"
  using assms by (rule snapshot_roundtrip)

definition root_db :: Db where
  "root_db = \<lparr>db_rows = [sample_account], db_seq = 9,
     db_admins = fmupd ''root'' \<lparr>row_hash = ''hash'', row_created = 1, row_updated = 1\<rparr> fmempty,
     db_settings = fmupd ''k'' ''v'' fmempty\<rparr>"

lemma root_db_inv: "db_inv root_db"
  by (simp add: db_inv_def rows_ok_def row_ok_def admins_ok_def settings_ok_def root_db_def sample_account_def
      fmpred_upd)

lemma root_admins: "admin_list (db_admins root_db) = [\<lparr>adm_Username = ''root'', adm_PasswordHash = ''hash''\<rparr>]"
proof -
  have "sorted_list_of_fmap (db_admins root_db) = [(''root'', \<lparr>row_hash = ''hash'', row_created = 1, row_updated = 1\<rparr>)]"
    by (simp add: root_db_def sorted_list_of_fmap_def sorted_list_of_fset.rep_eq)
  then show ?thesis by (simp add: admin_list_def)
qed

lemma quiet_no_faults: "no_faults quiet"
  by (simp add: no_faults_def)

lemma root_snapshot:
  obtains sn where "takeSnapshot quiet 9 root_db = Inr sn" "sn_Accounts sn = [sample_account]"
    "sn_Admins sn = [\<lparr>adm_Username = ''root'', adm_PasswordHash = ''hash''\<rparr>]" "sn_Settings sn = db_settings root_db"
  using root_admins by (simp add: takeSnapshot_def Accounts_def Admins_def Settings_def root_db_def)

lemma root_replaced:
  assumes "sn_Accounts sn = [sample_account]"
    and "sn_Admins sn = [\<lparr>adm_Username = ''root'', adm_PasswordHash = ''hash''\<rparr>]"
  shows "\<exists>d. ReplaceSnapshot quiet 9 [''k''] sn db = (Inr (), d)"
  by (rule ReplaceSnapshot_succeeds [OF quiet_no_faults])
    (simp_all add: assms storable_def sample_account_def)

theorem snapshot_survives_witness:
  "\<exists>sn d sn'. takeSnapshot quiet 9 root_db = Inr sn \<and> ReplaceSnapshot quiet 9 [''k''] sn empty_db = (Inr (), d) \<and>
     takeSnapshot quiet 8 d = Inr sn' \<and> sn_Accounts sn' = [sample_account]"
proof -
  obtain sn where sn: "takeSnapshot quiet 9 root_db = Inr sn" "sn_Accounts sn = [sample_account]"
    "sn_Admins sn = [\<lparr>adm_Username = ''root'', adm_PasswordHash = ''hash''\<rparr>]" "sn_Settings sn = db_settings root_db"
    by (rule root_snapshot)
  obtain d where d: "ReplaceSnapshot quiet 9 [''k''] sn empty_db = (Inr (), d)"
    using root_replaced [OF sn(2,3)] by blast
  obtain sn' where sn': "takeSnapshot quiet 8 d = Inr sn'"
    by (simp add: takeSnapshot_def Accounts_def Admins_def Settings_def)
  have "set [''k''] = fmdom' (sn_Settings sn)" by (simp add: sn(4) root_db_def)
  from snapshot_survives [OF root_db_inv sn(1) d this sn'] sn d sn' show ?thesis by auto
qed

text \<open>(C22) A backup that Xray rejects leaves the accounts, the administrators and the settings as they
  were, when the panel had an administrator and the database itself does not fail.\<close>

theorem restore_rejected:
  assumes "RestoreSnapshot env (Some apply) order oldOrder sn (db, x) = (Inl e, (db', x'))"
    and "no_faults (e_eng env)" and "db_inv db" and "db_admins db \<noteq> fmempty"
    and "set oldOrder = fmdom' (db_settings db)" "distinct oldOrder"
  shows "same_tables (e_eng env) db db'"
  using assms by (rule RestoreSnapshot_rejected)

theorem restore_rejected_witness:
  "\<exists>sn e w'. RestoreSnapshot calm (Some (\<lambda>as x. (Inl (ErrNew ''no''), x))) [''k''] [''k''] sn (root_db, ()) = (Inl e, w') \<and>
     same_tables quiet root_db (fst w')"
proof -
  obtain sn where sn: "takeSnapshot quiet 9 root_db = Inr sn" "sn_Accounts sn = [sample_account]"
    "sn_Admins sn = [\<lparr>adm_Username = ''root'', adm_PasswordHash = ''hash''\<rparr>]" "sn_Settings sn = db_settings root_db"
    by (rule root_snapshot)
  obtain d where d: "ReplaceSnapshot quiet 9 [''k''] sn root_db = (Inr (), d)"
    using root_replaced [OF sn(2,3)] by blast
  obtain e db' where r: "RestoreSnapshot calm (Some (\<lambda>as x. (Inl (ErrNew ''no''), x))) [''k''] [''k''] sn (root_db, ())
      = (Inl e, (db', ()))"
    using sn(1) d by (simp add: RestoreSnapshot_def)
  have "db_admins root_db \<noteq> fmempty" by (simp add: root_db_def)
  then have "same_tables (e_eng calm) root_db db'"
    by (rule restore_rejected [OF r _ root_db_inv, rotated]) (simp_all add: quiet_no_faults root_db_def)
  with r show ?thesis by fastforce
qed

end
