(* ===== verification/SettingsPromises.thy ===== *)
theory SettingsPromises
  imports Settings LoginPromises Guarantees
begin

text \<open>
  What a change of the settings promises: all or nothing in database, sessions and Xray (the manager's
  side of it is the locale \<open>port_applier\<close>), the administrator changes only with the current password, and
  what was entered is shown. The sample data of the witnesses is at the end.
\<close>


section \<open>What the manager promises of a new port\<close>

locale port_applier = param_applier install port running reliable
  for install :: "'m port_apply" and port running reliable
begin

lemma change_failed:
  assumes "change_api install as p m = (Inl (code, e), m')" "\<forall>x. m = Some x \<longrightarrow> reliable x"
  shows "code \<in> {502, 503} \<and> map_option port m' = map_option port m \<and>
         (\<forall>x x' bs. m = Some x \<longrightarrow> m' = Some x' \<longrightarrow> running x bs \<longrightarrow> running x' bs)"
  using assms install_failed
  by (auto simp: change_api_def coded_def split: option.split_asm prod.split_asm sum.split_asm)

lemma change_done:
  assumes "change_api install as p m = (Inr u, m')"
  obtains x where "m' = Some x" "port x = p" "running x as"
  using assms install_ok
  by (fastforce simp: change_api_def coded_def split: option.split_asm prod.split_asm sum.split_asm)

text \<open>The undoing after a failed transaction: the port and the accounts are back, or the answer says
  that they are not.\<close>

lemma port_put_back:
  assumes "undo_api install as True old e (Some x) = ((code, e'), m')"
  shows "(\<exists>e2. code = 502 \<and> e' = Errorf ''settings save failed: %v; Xray API port rollback also failed: %v'' [] [e, e2]) \<or>
         (\<exists>x'. m' = Some x' \<and> port x' = old \<and> running x' as)"
  using assms install_ok by (auto simp: undo_api_def split: prod.split_asm sum.split_asm)

end

interpretation manager_port_change: port_applier "ApplyWithAPIPort answers" m_APIPort manager_running "manager_reliable answers"
  for answers ..

section \<open>The cases of the handler\<close>

lemma thenS_Inr [simp]: "thenS r f = Inr v \<longleftrightarrow> (\<exists>x. r = Inr x \<and> f x = Inr v)"
  by (cases r) (simp_all add: thenS_def)

lemma thenS_simps [simp]: "thenS (Inr v) f = f v" "thenS (Inl e) f = Inl e"
  by (simp_all add: thenS_def)

lemma demand_Inr [simp]: "demand ok code e = Inr u \<longleftrightarrow> ok"
  by (simp add: demand_def)

lemma coded_Inr [simp]: "coded code f r = Inr v \<longleftrightarrow> r = Inr v"
  by (cases r) (simp_all add: coded_def)

lemma sessionUsername_holder:
  "fst (sessionUsername now r ss) = Option.bind (rq_cookie r) (holder ss now)"
  "now \<le> t \<Longrightarrow> holder (snd (sessionUsername now r ss)) t tok = holder ss t tok"
  "ttl (snd (sessionUsername now r ss)) = ttl ss"
  by (auto simp: sessionUsername_def UsernameOf_holder holder_UsernameOf UsernameOf_def Delete_def holder_def split: option.split)

lemma updateSettings_cases:
  assumes "updateSettings w install me eng r (Some inp) (ss, db, m) = (ans, ss', db', m')"
  defines "i \<equiv> trimmed_settings inp" and "ss1 \<equiv> snd (sessionUsername (me_seen me) r ss)"
    and "changed \<equiv> settingIntServer eng ''xray_api_port'' 10085 db \<noteq> si_XrayAPIPort (trimmed_settings inp)"
  obtains
    (refused) code e where "ans = Refused code e" "ss' = ss1" "db' = db" "m' = m"
  | (api) code e as where "ans = Refused code e" "ss' = ss1" "db' = db"
      "change_api install as (si_XrayAPIPort i) m = (Inl (code, e), m')"
  | (stored) user as hash renewed m1 where "fst (sessionUsername (me_seen me) r ss) = Some user"
      "settings_checks me i = Inr ()" "free_of_accounts eng db (si_XrayAPIPort i) = Inr as"
      "credentials w (me_hash me) eng db user i = Inr (hash, renewed)"
      "(if changed then change_api install as (si_XrayAPIPort i) m else (Inr (), m)) = (Inr (), m1)"
      "store_settings install me eng user i hash renewed changed as (ss1, db, m1) = (ans, ss', db', m')"
proof (cases "fst (sessionUsername (me_seen me) r ss)")
  case None
  then show thesis using assms(1) refused
    by (auto simp: updateSettings_def with_body_def ss1_def split: prod.split_asm)
next
  case (Some user)
  let ?checks = "thenS (settings_checks me i) (\<lambda>_.
      thenS (free_of_accounts eng db (si_XrayAPIPort i)) (\<lambda>accounts.
      thenS (credentials w (me_hash me) eng db user i) (\<lambda>(newHash, adminChanging).
      Inr (accounts, newHash, adminChanging))))"
  have ses: "sessionUsername (me_seen me) r ss = (Some user, ss1)"
    using Some by (simp add: ss1_def prod_eq_iff)
  show thesis
  proof (cases ?checks)
    case (Inl ce)
    obtain code e where "ce = (code, e)" by (cases ce)
    then have "updateSettings w install me eng r (Some inp) (ss, db, m) = (Refused code e, ss1, db, m)"
      using Inl ses by (simp add: updateSettings_def with_body_def i_def)
    then show thesis using assms(1) refused by simp
  next
    case (Inr v)
    obtain as hash renewed where v: "v = (as, hash, renewed)" by (cases v)
    have ok: "settings_checks me i = Inr ()" "free_of_accounts eng db (si_XrayAPIPort i) = Inr as"
      "credentials w (me_hash me) eng db user i = Inr (hash, renewed)"
      using Inr by (auto simp: v)
    obtain q m1 where q: "(if changed then change_api install as (si_XrayAPIPort i) m else (Inr (), m)) = (q, m1)"
      by fastforce
    have upd: "updateSettings w install me eng r (Some inp) (ss, db, m) =
       (case q of Inl (code, e) \<Rightarrow> (Refused code e, ss1, db, m1)
        | Inr _ \<Rightarrow> store_settings install me eng user i hash renewed changed as (ss1, db, m1))"
    proof -
      have c: "settingIntServer eng ''xray_api_port'' 10085 db = si_XrayAPIPort i \<longleftrightarrow> \<not> changed"
        by (simp add: changed_def i_def)
      show ?thesis using ses ok q
        by (cases changed; cases q) (auto simp: updateSettings_def with_body_def Let_def i_def [symmetric] c)
    qed
    show thesis
    proof (cases q)
      case (Inl ce)
      obtain code e where ce: "ce = (code, e)" by (cases ce)
      have changed using q Inl by (cases changed) simp_all
      then show thesis using q Inl ce upd assms(1) by (intro api) simp_all
    next
      case (Inr u)
      then show thesis using Some ok q upd assms(1) by (intro stored) simp_all
    qed
  qed
qed

lemma rotate_cases:
  assumes "rotate_sessions me renewed user ss = (q, ss')"
  obtains (same) "\<not> renewed" "q = Inr None" "ss' = ss"
  | (failed) "renewed" "me_random me = None" "ss' = Clear ss"
      "q = Inl (500, ErrNew ''settings saved but session rotation failed; sign in again'')"
  | (fresh) buf token where "renewed" "me_random me = Some buf" "q = Inr (Some token)"
      "Create (Some buf) (me_create me) user (Clear ss) = (Inr token, ss')"
  using assms
  by (cases renewed; cases "me_random me")
    (auto simp: rotate_sessions_def Create_def Let_def)

lemma store_settings_cases:
  assumes "store_settings install me eng user i hash renewed changed as (ss, db, m) = (ans, ss', db', m')"
  obtains
    (failed) e code e1 where "db' = db" "ss' = ss" "ans = Refused code e1"
      "undo_api install as changed (settingIntServer eng ''xray_api_port'' 10085 db) e m = ((code, e1), m')"
  | (saved) q u where
      "ApplySettings eng (me_saved me) (settings_values i) (me_order me) user (si_AdminUsername i) hash db = (Inr u, db')"
      "rotate_sessions me renewed (si_AdminUsername i) ss = (q, ss')" "m' = m"
      "case q of Inl (code, e) \<Rightarrow> ans = Refused code e
       | Inr cookie \<Rightarrow> \<exists>c. ans = Answered 200 c \<and> ch_cookie c = cookie \<and> ch_sessionRotated c = renewed"
proof -
  obtain q1 db1 where a: "ApplySettings eng (me_saved me) (settings_values i) (me_order me) user (si_AdminUsername i) hash db = (q1, db1)"
    by fastforce
  have port: "sv_XrayAPIPort (settings_view eng db user) = settingIntServer eng ''xray_api_port'' 10085 db"
    by (simp add: settings_view_def Let_def)
  show thesis
  proof (cases q1)
    case (Inl e)
    then have "db1 = db" using a ApplySettings_failed by blast
    obtain code e1 m1 where u: "undo_api install as changed (settingIntServer eng ''xray_api_port'' 10085 db) e m = ((code, e1), m1)"
      by (metis surj_pair)
    show thesis using assms a Inl \<open>db1 = db\<close> u by (intro failed) (auto simp: store_settings_def Let_def port)
  next
    case (Inr u)
    obtain q ss1 where q: "rotate_sessions me renewed (si_AdminUsername i) ss = (q, ss1)" by fastforce
    show thesis
      by (rule saved [of u q])
        (use assms a Inr q in \<open>auto simp: store_settings_def Let_def split: sum.split sum.split_asm prod.split_asm\<close>)
  qed
qed

text \<open>The administrator changes only with \<open>renewed\<close>, and then the current password was right.\<close>

lemma credentials_Inr:
  assumes "credentials w new eng db user i = Inr (hash, renewed)"
  obtains admin where "AdminByName eng user db = Inr admin"
    "\<not> renewed \<longrightarrow> hash = adm_PasswordHash admin \<and> si_AdminUsername i = user"
    "renewed \<longrightarrow> w_compare w (adm_PasswordHash admin) (si_CurrentPassword i)"
  using assms by (auto simp: credentials_def Let_def split: if_split_asm)

text \<open>Which hash is stored: that of the new password, when there is one to set, else the old one.\<close>

definition new_password :: "string \<Rightarrow> settingsInput \<Rightarrow> bool" where
  "new_password user i \<longleftrightarrow>
     si_NewPassword i \<noteq> [] \<and> (si_AdminUsername i \<noteq> user \<or> trim_space (si_NewPassword i) \<noteq> [])"

lemma credentials_hash:
  assumes "credentials w new eng db user i = Inr (hash, renewed)"
  shows "\<exists>a. AdminByName eng user db = Inr a \<and>
      (if new_password user i then new (si_NewPassword i) = Inr hash \<and> 12 \<le> length (si_NewPassword i)
       else hash = adm_PasswordHash a) \<and>
      (renewed \<longleftrightarrow> si_AdminUsername i \<noteq> user \<or> trim_space (si_NewPassword i) \<noteq> [])"
  using assms by (auto simp: credentials_def Let_def new_password_def split: if_split_asm)

text \<open>What a stored change has done to the database, on behalf of the user of the request's session.\<close>

definition change_stored ::
    "Meeting \<Rightarrow> Engine \<Rightarrow> Req \<Rightarrow> settingsInput \<Rightarrow> Sessions \<Rightarrow> Db \<Rightarrow> Db \<Rightarrow> bool \<Rightarrow> bool" where
  "change_stored me eng r i ss db db' renewed \<longleftrightarrow>
     (\<exists>user a hash. Option.bind (rq_cookie r) (holder ss (me_seen me)) = Some user \<and> AdminByName eng user db = Inr a \<and>
        settings_applied (settings_values i) user (si_AdminUsername i) hash db db' \<and>
        (if new_password user i then me_hash me (si_NewPassword i) = Inr hash \<and> 12 \<le> length (si_NewPassword i)
         else hash = adm_PasswordHash a) \<and>
        (renewed \<longleftrightarrow> si_AdminUsername i \<noteq> user \<or> trim_space (si_NewPassword i) \<noteq> []))"

lemma same_administrator:
  assumes "settings_applied vals user user hash db db'" "AdminByName eng user db = Inr admin" "hash = adm_PasswordHash admin"
  shows "map_option row_hash (fmlookup (db_admins db') u) = map_option row_hash (fmlookup (db_admins db) u)"
  using assms by (auto simp: settings_applied_def AdminByName_def split: option.split_asm)

section \<open>What is stored is read again\<close>

lemma settings_lookup:
  "fmlookup (settings_values i) ''panel_listen'' = Some (si_PanelListen i)"
  "fmlookup (settings_values i) ''panel_base_path'' = Some (si_PanelBasePath i)"
  "fmlookup (settings_values i) ''panel_cert_file'' = Some (si_PanelCertFile i)"
  "fmlookup (settings_values i) ''panel_key_file'' = Some (si_PanelKeyFile i)"
  "fmlookup (settings_values i) ''panel_domain'' = Some (si_PanelDomain i)"
  "fmlookup (settings_values i) ''xray_api_port'' = Some (itoa (si_XrayAPIPort i))"
  "fmlookup (settings_values i) ''port_min'' = Some (itoa (si_PortMin i))"
  "fmlookup (settings_values i) ''port_max'' = Some (itoa (si_PortMax i))"
  "fmlookup (settings_values i) ''default_reality_sni'' = Some (trim_space (si_DefaultRealitySNI i))"
  "fmlookup (settings_values i) ''default_reality_dest'' = Some (trim_space (si_DefaultRealityDest i))"
  by (simp_all add: settings_values_def fmlookup_of_list)

lemma applied_string:
  assumes "settings_applied vals old new hash db db'" "fmlookup vals k = Some v" "k \<noteq> []"
    and "fault eng (SSelectSetting k) = None"
  shows "settingString eng k fallback db' = v"
  using assms by (simp add: settingString_def Setting_def settings_applied_def)

lemma applied_int:
  assumes "settings_applied vals old new hash db db'" "fmlookup vals k = Some (itoa n)" "k \<noteq> []"
    and "fault eng (SSelectSetting k) = None" "int64_range n"
  shows "settingIntServer eng k fallback db' = n"
proof -
  have "itoa n \<noteq> []" using atoi_itoa [OF assms(5)] by (auto simp: atoi_def parse_nat_def)
  then show ?thesis
    using atoi_itoa [OF assms(5)] by (simp add: settingIntServer_def applied_string [OF assms(1-4)] Let_def)
qed

lemma settings_checks_range:
  assumes "settings_checks me i = Inr ()"
  shows "1 \<le> si_XrayAPIPort i \<and> si_XrayAPIPort i \<le> 65535 \<and> 1 \<le> si_PortMin i \<and> si_PortMin i \<le> si_PortMax i \<and>
         si_PortMax i \<le> 65535"
  using assms by (simp add: settings_checks_def)

section \<open>The manager follows the settings\<close>

text \<open>The manager runs the stored accounts with the stored API port.\<close>

definition serving_port ::
    "('m \<Rightarrow> int) \<Rightarrow> ('m \<Rightarrow> Account list \<Rightarrow> bool) \<Rightarrow> Engine \<Rightarrow> Db \<Rightarrow> 'm \<Rightarrow> bool" where
  "serving_port port running eng db m \<longleftrightarrow>
     port m = settingIntServer eng ''xray_api_port'' 10085 db \<and>
     (\<exists>as. Accounts eng db = Inr as \<and> running m as)"

lemma free_of_accounts_Inr: "free_of_accounts eng db port = Inr as \<Longrightarrow> Accounts eng db = Inr as"
  by (auto simp: free_of_accounts_def split: option.split_asm)

lemma applied_accounts: "settings_applied vals old new hash db db' \<Longrightarrow> Accounts eng db' = Accounts eng db"
  by (simp add: settings_applied_def Accounts_def)

context port_applier begin

lemma update_serving:
  assumes upd: "updateSettings w install me eng r (Some inp) (ss, db, Some m) = (ans, ss', db', m')"
    and order: "set (me_order me) = fmdom' (settings_values (trimmed_settings inp))"
    and reads: "fault eng (SSelectSetting ''xray_api_port'') = None"
    and ok: "reliable m" "serving_port port running eng db m"
  shows "(\<exists>x. m' = Some x \<and> serving_port port running eng db' x) \<or>
    (\<exists>e e2. ans = Refused 502 (Errorf ''settings save failed: %v; Xray API port rollback also failed: %v'' [] [e, e2]))"
  using upd
proof (cases rule: updateSettings_cases)
  case refused
  then show ?thesis using ok by auto
next
  case (api code e as)
  then obtain x where x: "m' = Some x"
    by (auto simp: change_api_def split: prod.split_asm)
  from change_failed [OF api(4)] ok x have "port x = port m" "\<And>bs. running m bs \<Longrightarrow> running x bs" by auto
  then show ?thesis using x api(3) ok(2) by (auto simp: serving_port_def)
next
  case (stored user as hash renewed m1)
  let ?i = "trimmed_settings inp"
  note acc = free_of_accounts_Inr [OF stored(3)]
  show ?thesis
  proof (cases "settingIntServer eng ''xray_api_port'' 10085 db \<noteq> si_XrayAPIPort ?i")
    case True
    then obtain x where m1: "m1 = Some x" "port x = si_XrayAPIPort ?i" "running x as"
      using stored(5) by (auto elim: change_done)
    from stored(6) show ?thesis
    proof (cases rule: store_settings_cases)
      case (failed e code e1)
      then have "undo_api install as True (settingIntServer eng ''xray_api_port'' 10085 db) e (Some x) = ((code, e1), m')"
        using True m1 by simp
      from port_put_back [OF this] show ?thesis using failed(1,3) acc by (auto simp: serving_port_def)
    next
      case (saved q u)
      note s = ApplySettings_spec [OF saved(1) order]
      have "settingIntServer eng ''xray_api_port'' 10085 db' = si_XrayAPIPort ?i"
        by (rule applied_int [OF s settings_lookup(6) _ reads]) (use settings_checks_range [OF stored(2)] in simp_all)
      then show ?thesis using saved(3) m1 acc applied_accounts [OF s] by (auto simp: serving_port_def)
    qed
  next
    case False
    then have m1: "m1 = Some m" using stored(5) by simp
    from stored(6) show ?thesis
    proof (cases rule: store_settings_cases)
      case (failed e code e1)
      then have "m' = Some m" using False m1 by (simp add: undo_api_def)
      then show ?thesis using failed(1) ok by simp
    next
      case (saved q u)
      note s = ApplySettings_spec [OF saved(1) order]
      have "settingIntServer eng ''xray_api_port'' 10085 db' = si_XrayAPIPort ?i"
        by (rule applied_int [OF s settings_lookup(6) _ reads]) (use settings_checks_range [OF stored(2)] in simp_all)
      then show ?thesis using saved(3) m1 ok False applied_accounts [OF s] by (auto simp: serving_port_def)
    qed
  qed
qed

end

section \<open>Properties\<close>

text \<open>(C15) A change of the settings happens as a whole or not at all. An answer without error has stored
  every setting, the administrator's name, and as the administrator's hash that of the new password when
  one is set and else the one that was stored; the sessions are untouched unless name or password
  change. An answer with an error has left the database and the sessions as they were, except that the
  random source failed for the new session, when everything is stored and nobody is logged in. The Xray
  manager runs the stored accounts with the stored API port afterwards as before, or the answer says
  that putting the port back failed too.\<close>

theorem settings_change_outcome:
  assumes "updateSettings w (ApplyWithAPIPort answers) me eng r (Some inp) (ss, db, Some m) = (ans, ss', db', m')"
    and "set (me_order me) = fmdom' (settings_values (trimmed_settings inp))"
    and "fault eng (SSelectSetting ''xray_api_port'') = None"
    and "manager_reliable answers m" "serving_port m_APIPort manager_running eng db m"
  defines "i \<equiv> trimmed_settings inp"
  shows "(case ans of
      Answered code c \<Rightarrow> code = 200 \<and> change_stored me eng r i ss db db' (ch_sessionRotated c) \<and>
        (\<not> ch_sessionRotated c \<longrightarrow> (\<forall>t tok. me_seen me \<le> t \<longrightarrow> holder ss' t tok = holder ss t tok))
    | Refused code e \<Rightarrow>
        db' = db \<and> (\<forall>t tok. me_seen me \<le> t \<longrightarrow> holder ss' t tok = holder ss t tok) \<or>
        code = 500 \<and> me_random me = None \<and> (\<forall>t tok. holder ss' t tok = None) \<and>
        change_stored me eng r i ss db db' True) \<and>
    ((\<exists>x. m' = Some x \<and> serving_port m_APIPort manager_running eng db' x) \<or>
     (\<exists>e e2. ans = Refused 502 (Errorf ''settings save failed: %v; Xray API port rollback also failed: %v'' [] [e, e2])))"
    (is "?ans \<and> ?serve")
proof
  show ?serve by (rule manager_port_change.update_serving [OF assms(1-5)])
  note same = sessionUsername_holder(2)
  from assms(1) show ?ans
  proof (cases rule: updateSettings_cases)
    case (stored user as hash renewed m1)
    from stored(6) show ?thesis
    proof (cases rule: store_settings_cases)
      case (failed e code e1)
      then show ?thesis using same by simp
    next
      case (saved q u)
      have s: "change_stored me eng r i ss db db' renewed"
        using ApplySettings_spec [OF saved(1) assms(2)] stored(1) credentials_hash [OF stored(4)]
        unfolding i_def sessionUsername_holder(1) change_stored_def by blast
      from saved(2) show ?thesis
      proof (cases rule: rotate_cases)
        case same
        then obtain c where "ans = Answered 200 c" "ch_sessionRotated c = renewed" using saved(4) by auto
        then show ?thesis using s same sessionUsername_holder(2) by simp
      next
        case failed
        then show ?thesis using saved(4) s by (simp add: holder_Clear)
      next
        case (fresh buf token)
        then obtain c where "ans = Answered 200 c" "ch_sessionRotated c = renewed" using saved(4) by auto
        then show ?thesis using s fresh(1) by simp
      qed
    qed
  qed (use same in auto)
qed

text \<open>(C14) Whoever changes the administrator proved to be that administrator: the entry of a user
  changes only in a request whose session belongs to a user of the database and which carries the
  current password of that user; the entries that change are that user's and the one of the new name;
  and no session survives but the one that the answer hands out, for the new name.\<close>

theorem settings_credentials:
  assumes "updateSettings w install me eng r (Some inp) (ss, db, m) = (ans, ss', db', m')"
    and "set (me_order me) = fmdom' (settings_values (trimmed_settings inp))"
    and "map_option row_hash (fmlookup (db_admins db') u) \<noteq> map_option row_hash (fmlookup (db_admins db) u)"
  defines "new \<equiv> si_AdminUsername (trimmed_settings inp)"
  shows "\<exists>token user a. rq_cookie r = Some token \<and> holder ss (me_seen me) token = Some user \<and>
     AdminByName eng user db = Inr a \<and> w_compare w (adm_PasswordHash a) (si_CurrentPassword inp) \<and> u \<in> {user, new} \<and>
     (\<forall>t tok v. me_create me < t \<and> holder ss' t tok = Some v \<longrightarrow>
        v = new \<and> (\<exists>c. ans = Answered 200 c \<and> ch_cookie c = Some tok))"
  using assms(1)
proof (cases rule: updateSettings_cases)
  case (stored user as hash renewed m1)
  obtain admin where a: "AdminByName eng user db = Inr admin"
    "\<not> renewed \<longrightarrow> hash = adm_PasswordHash admin \<and> si_AdminUsername (trimmed_settings inp) = user"
    "renewed \<longrightarrow> w_compare w (adm_PasswordHash admin) (si_CurrentPassword (trimmed_settings inp))"
    using stored(4) by (rule credentials_Inr)
  obtain token where t: "rq_cookie r = Some token" "holder ss (me_seen me) token = Some user"
    using stored(1) by (auto simp: sessionUsername_holder(1) bind_eq_Some_conv)
  from stored(6) show ?thesis
  proof (cases rule: store_settings_cases)
    case (failed e code e1)
    then show ?thesis using assms(3) by simp
  next
    case (saved q v)
    note s = ApplySettings_spec [OF saved(1) assms(2)]
    have renewed: renewed
      using same_administrator [of "settings_values (trimmed_settings inp)" user hash db db' eng admin u] s a assms(3) by auto
    have u: "u \<in> {user, new}"
      using s assms(3) by (auto simp: settings_applied_def new_def split: if_split_asm)
    have rest: "v = new \<and> (\<exists>c. ans = Answered 200 c \<and> ch_cookie c = Some tok)"
      if "me_create me < t" "holder ss' t tok = Some v" for t tok v
      using saved(2)
    proof (cases rule: rotate_cases)
      case same
      then show ?thesis using renewed by simp
    next
      case failed
      then show ?thesis using that by (simp add: holder_Clear)
    next
      case (fresh buf tk)
      then have "tok = tk" "v = new"
        using holder_Create [OF fresh(4) that(1), of tok] that(2)
        by (auto simp: holder_Clear new_def split: if_split_asm)
      then show ?thesis using saved(4) fresh(3) by auto
    qed
    have "w_compare w (adm_PasswordHash admin) (si_CurrentPassword inp)"
      using a(3) renewed by (simp add: trimmed_settings_def)
    then show ?thesis using t a(1) u rest by blast
  qed
qed (use assms(3) in simp_all)

text \<open>(C16) The settings read back as they were entered, up to white space around them and the
  canonical base path: after an accepted change the session of the answer (or, without a new one, the
  session of the request) sees exactly what it sent.\<close>

theorem settings_shown:
  assumes "updateSettings w install me eng r (Some inp) (ss, db, m) = (Answered 200 c, ss', db', m')"
    and "set (me_order me) = fmdom' (settings_values (trimmed_settings inp))"
    and "\<forall>k. fault eng (SSelectSetting k) = None"
    and "rq_cookie q = (if ch_sessionRotated c then ch_cookie c else rq_cookie r)"
    and "me_create me < now" "now \<le> me_create me + ttl ss" "me_seen me \<le> now"
    and "\<not> ch_sessionRotated c \<longrightarrow>
           (\<forall>token. rq_cookie r = Some token \<longrightarrow> holder ss now token = holder ss (me_seen me) token)"
  defines "i \<equiv> trimmed_settings inp"
  shows "fst (getSettings eng now q db' ss') = Answered 200
    \<lparr>sv_PanelListen = si_PanelListen i, sv_PanelBasePath = si_PanelBasePath i,
     sv_PanelCertFile = si_PanelCertFile i, sv_PanelKeyFile = si_PanelKeyFile i,
     sv_PanelDomain = si_PanelDomain i, sv_PanelTLS = (si_PanelCertFile i \<noteq> []),
     sv_XrayAPIPort = si_XrayAPIPort i, sv_PortMin = si_PortMin i, sv_PortMax = si_PortMax i,
     sv_DefaultRealitySNI = trim_space (si_DefaultRealitySNI i),
     sv_DefaultRealityDest = trim_space (si_DefaultRealityDest i), sv_AdminUsername = si_AdminUsername i\<rparr>"
  using assms(1)
proof (cases rule: updateSettings_cases)
  case (stored user as hash renewed m1)
  have a: "\<not> renewed \<longrightarrow> si_AdminUsername i = user"
    using credentials_Inr [OF stored(4)] unfolding i_def by blast
  from stored(6) show ?thesis
  proof (cases rule: store_settings_cases)
    case (saved z v)
    note s = ApplySettings_spec [OF saved(1) assms(2), folded i_def]
    have r: "ch_sessionRotated c = renewed" and z: "z = Inr (ch_cookie c)"
      using saved(4) by (auto split: sum.split_asm)
    have "Option.bind (rq_cookie q) (holder ss' now) = Some (si_AdminUsername i)"
      using saved(2) unfolding z
    proof (cases rule: rotate_cases)
      case same
      then show ?thesis
        using stored(1) assms(4,7,8) a r by (auto simp: sessionUsername_holder bind_eq_Some_conv)
    next
      case (fresh buf token)
      have "ttl (Clear (snd (sessionUsername (me_seen me) r ss))) = ttl ss"
        by (simp add: Clear_def sessionUsername_holder(3))
      then have "holder ss' now token = Some (si_AdminUsername i)"
        using holder_Create [OF fresh(4) assms(5), of token] assms(6) by (simp add: i_def)
      then show ?thesis using fresh(1,3) assms(4) r by simp
    qed simp
    then have user: "fst (sessionUsername now q ss') = Some (si_AdminUsername i)"
      by (simp add: sessionUsername_holder(1))
    have pair: "(si_PanelCertFile i = []) = (si_PanelKeyFile i = [])"
      using stored(2) by (simp add: i_def settings_checks_def certificate_check_def)
    have base: "Normalize (si_PanelBasePath i) = si_PanelBasePath i"
      by (simp add: i_def trimmed_settings_def)
    note range = settings_checks_range [OF stored(2), folded i_def]
    note str = applied_string [OF s _ _ assms(3) [rule_format]] and num = applied_int [OF s _ _ assms(3) [rule_format]]
    have "settings_view eng db' (si_AdminUsername i) = \<lparr>sv_PanelListen = si_PanelListen i, sv_PanelBasePath = si_PanelBasePath i,
     sv_PanelCertFile = si_PanelCertFile i, sv_PanelKeyFile = si_PanelKeyFile i,
     sv_PanelDomain = si_PanelDomain i, sv_PanelTLS = (si_PanelCertFile i \<noteq> []),
     sv_XrayAPIPort = si_XrayAPIPort i, sv_PortMin = si_PortMin i, sv_PortMax = si_PortMax i,
     sv_DefaultRealitySNI = trim_space (si_DefaultRealitySNI i),
     sv_DefaultRealityDest = trim_space (si_DefaultRealityDest i), sv_AdminUsername = si_AdminUsername i\<rparr>"
      using range pair unfolding settings_view_def Let_def
      by (simp add: str [OF settings_lookup(1)] str [OF settings_lookup(2)] str [OF settings_lookup(3)]
          str [OF settings_lookup(4)] str [OF settings_lookup(5)] num [OF settings_lookup(6)]
          num [OF settings_lookup(7)] num [OF settings_lookup(8)] str [OF settings_lookup(9)]
          str [OF settings_lookup(10)] base)
    then show ?thesis using user by (auto simp: getSettings_def split: prod.split)
  qed simp
qed simp_all


section \<open>The properties on a sample change\<close>


definition sample_settings :: "int \<Rightarrow> string \<Rightarrow> settingsInput" where
  "sample_settings p password = \<lparr>si_PanelListen = ''127.0.0.1:8080'', si_PanelBasePath = '' x'', si_PanelCertFile = [],
     si_PanelKeyFile = [], si_PanelDomain = [], si_XrayAPIPort = p, si_PortMin = 20000, si_PortMax = 60000,
     si_DefaultRealitySNI = [], si_DefaultRealityDest = [], si_AdminUsername = ''admin'', si_CurrentPassword = ''secret'',
     si_NewPassword = password\<rparr>"

definition setting_keys :: "string list" where
  "setting_keys = [''panel_listen'', ''panel_base_path'', ''panel_cert_file'', ''panel_key_file'', ''panel_domain'',
     ''xray_api_port'', ''port_min'', ''port_max'', ''default_reality_sni'', ''default_reality_dest'']"

definition sample_meeting :: Meeting where
  "sample_meeting = \<lparr>me_seen = 5, me_saved = 6, me_create = 7, me_order = setting_keys, me_random = Some [2, 3, 4],
     me_hash = Inr, me_pair = (\<lambda>c k. Inr ())\<rparr>"

definition sample_sessions :: Sessions where
  "sample_sessions = (NewSessions (24 * hour))\<lparr>tokens := fmupd ''t'' \<lparr>Username = ''admin'', Expires = 100\<rparr> fmempty\<rparr>"

lemma setting_keys_dom: "set (me_order sample_meeting) = fmdom' (settings_values i)"
  by (simp add: sample_meeting_def setting_keys_def settings_values_def)

lemma sample_setting_texts:
  "trim_space ''127.0.0.1:8080'' = ''127.0.0.1:8080''" "Normalize '' x'' = ''/x/''" "trim_space ''admin'' = ''admin''"
  "SplitHostPort ''127.0.0.1:8080'' = Some (''127.0.0.1'', ''8080'')" "ValidPath ''/x/''"
  "trim_space ''longer secret'' = ''longer secret''"
  by code_simp+

lemma sample_trimmed:
  "trimmed_settings (sample_settings p pw) = (sample_settings p pw)\<lparr>si_PanelBasePath := ''/x/''\<rparr>"
  by (simp add: trimmed_settings_def sample_settings_def sample_setting_texts)

lemma sample_settings_checks:
  assumes "1 \<le> p" "p \<le> 65535" "pw = [] \<or> pw = ''longer secret''"
  shows "settings_checks sample_meeting (trimmed_settings (sample_settings p pw)) = Inr ()"
proof -
  have "validateSettingsInput (trimmed_settings (sample_settings p pw)) = Inr ()"
    using assms(3) unfolding sample_trimmed
    by (auto simp: validateSettingsInput_def settings_texts_def sample_settings_def control_chars_def contains_any_def)
  then show ?thesis using assms(1,2) unfolding sample_trimmed
    by (simp add: settings_checks_def certificate_check_def) (simp add: sample_settings_def sample_setting_texts)
qed

lemma upsert_quiet: "\<exists>s. upsertSettingsTx quiet vals order db = Inr (db\<lparr>db_settings := s\<rparr>)"
proof (induction order arbitrary: db)
  case Nil
  have "db = db\<lparr>db_settings := db_settings db\<rparr>" by simp
  then show ?case by (metis upsertSettingsTx.simps(1))
next
  case (Cons k ks)
  obtain s1 where "upsertSettingsTx quiet vals ks db = Inr (db\<lparr>db_settings := s1\<rparr>)" using Cons by blast
  moreover have "\<exists>s. upsertSettingsTx quiet vals ks (db\<lparr>db_settings := x\<rparr>) = Inr (db\<lparr>db_settings := s\<rparr>)" for x
    using Cons [of "db\<lparr>db_settings := x\<rparr>"] by simp
  ultimately show ?case by (cases "fmlookup vals k") auto
qed

lemma apply_quiet:
  assumes "h \<noteq> []"
  shows "\<exists>d. ApplySettings quiet now vals order ''admin'' ''admin'' h sample_db = (Inr (), d) \<and>
    map_option row_hash (fmlookup (db_admins d) ''admin'') = Some h"
proof -
  obtain s where "upsertSettingsTx quiet vals order sample_db = Inr (sample_db\<lparr>db_settings := s\<rparr>)"
    using upsert_quiet by blast
  then show ?thesis using assms
    by (simp add: ApplySettings_def transaction_Inr applyAdminTx_def) (simp add: sample_db_def)
qed

text \<open>The request is answered and the change made, whatever the manager is, once the port is installed.\<close>

lemma sample_settings_update:
  assumes "1 \<le> p" "p \<le> 65535" "pw = [] \<or> pw = ''longer secret''"
    and "(if p \<noteq> 10085 then change_api install [] p m else (Inr (), m)) = (Inr (), m1)"
  obtains c ss' d where
    "updateSettings sample_web install sample_meeting quiet (sample_request ''127.0.0.1:99'' (\<lambda>k. []) (Some ''t''))
       (Some (sample_settings p pw)) (sample_sessions, sample_db, m) = (Answered 200 c, ss', d, m1)"
    "ch_sessionRotated c \<longleftrightarrow> pw \<noteq> []"
    "map_option row_hash (fmlookup (db_admins d) ''admin'') = Some (if pw = [] then ''secret'' else pw)"
proof -
  let ?r = "sample_request ''127.0.0.1:99'' (\<lambda>k. []) (Some ''t'')" and ?i = "trimmed_settings (sample_settings p pw)"
  have ses: "sessionUsername 5 ?r sample_sessions = (Some ''admin'', sample_sessions)"
    by (simp add: sessionUsername_def sample_request_def UsernameOf_def sample_sessions_def)
  have acc: "free_of_accounts quiet sample_db (si_XrayAPIPort ?i) = Inr []"
    by (simp add: free_of_accounts_def Accounts_def sample_db_def)
  define h where "h = (if pw = [] then ''secret'' else pw)"
  have cred: "credentials sample_web (me_hash sample_meeting) quiet sample_db ''admin'' ?i = Inr (h, pw \<noteq> [])"
    using assms(3) unfolding sample_trimmed
    by (auto simp: credentials_def sample_admin sample_settings_def sample_setting_texts sample_web_def
        sample_meeting_def demand_def h_def)
  have port: "settingIntServer quiet ''xray_api_port'' 10085 sample_db = 10085" "si_XrayAPIPort ?i = p"
    "si_AdminUsername ?i = ''admin''"
    by (simp_all add: settingIntServer_def settingString_def Setting_def sample_db_def sample_trimmed)
      (simp_all add: sample_settings_def)
  have "h \<noteq> []" using assms(3) by (auto simp: h_def)
  then obtain d where d: "ApplySettings quiet (me_saved sample_meeting) (settings_values ?i) (me_order sample_meeting)
       ''admin'' ''admin'' h sample_db = (Inr (), d)"
    and row: "map_option row_hash (fmlookup (db_admins d) ''admin'') = Some h" using apply_quiet by blast
  obtain z ss' where z: "rotate_sessions sample_meeting (pw \<noteq> []) ''admin'' sample_sessions = (Inr z, ss')"
    by (cases "pw \<noteq> []") (simp_all add: rotate_sessions_def Create_def Let_def sample_meeting_def)
  have "\<exists>c. store_settings install sample_meeting quiet ''admin'' ?i h (pw \<noteq> []) (p \<noteq> 10085) []
      (sample_sessions, sample_db, m1) = (Answered 200 c, ss', d, m1) \<and> (ch_sessionRotated c \<longleftrightarrow> pw \<noteq> [])"
    using d z by (simp add: store_settings_def port Let_def)
  then obtain c where "store_settings install sample_meeting quiet ''admin'' ?i h (pw \<noteq> []) (p \<noteq> 10085) []
      (sample_sessions, sample_db, m1) = (Answered 200 c, ss', d, m1)" "ch_sessionRotated c \<longleftrightarrow> pw \<noteq> []" by blast
  moreover have "me_seen sample_meeting = 5" by (simp add: sample_meeting_def)
  ultimately show thesis
    using ses acc cred sample_settings_checks [OF assms(1-3)] port(1,2) assms(4)
    by (intro that [of c ss' d, OF _ _ row [unfolded h_def]]) (auto simp: updateSettings_def with_body_def Let_def)
qed

definition sample_manager :: Manager where
  "sample_manager = (snd (serving []))\<lparr>m_APIPort := 10085,
     m_file := (case BuildConfigWithBase [] 10085 Blank of Inr cfg \<Rightarrow> Some cfg | Inl e \<Rightarrow> None)\<rparr>"

lemma built_at: "\<exists>cfg. BuildConfigWithBase [] p Blank = Inr cfg"
  by (simp add: BuildConfig_iff base_config_Inr config_ok_def)

lemma sample_manager_simps:
  "m_BinaryPath sample_manager = ''xray''" "m_ConfigPath sample_manager = ''config''"
  "m_APIPort sample_manager = 10085" "m_BaseConfigJSON sample_manager = Blank" "m_Service sample_manager = []"
  "m_file sample_manager = (case BuildConfigWithBase [] 10085 Blank of Inr cfg \<Rightarrow> Some cfg | Inl e \<Rightarrow> None)"
  by (simp_all add: sample_manager_def serving_def)

lemma sample_manager_runs:
  "manager_reliable (\<lambda>n. benign) sample_manager"
  "serving_port m_APIPort manager_running quiet sample_db sample_manager"
proof -
  obtain cfg where cfg: "BuildConfigWithBase [] 10085 Blank = Inr cfg" using built_at by blast
  then show "manager_reliable (\<lambda>n. benign) sample_manager"
    by (simp add: manager_reliable_def benign_def sample_manager_simps)
  show "serving_port m_APIPort manager_running quiet sample_db sample_manager"
    by (simp add: serving_port_def manager_running_def sample_manager_simps cfg
      settingIntServer_def settingString_def Setting_def sample_db_def Accounts_def)
qed

lemma sample_manager_moves:
  "\<exists>x. change_api (ApplyWithAPIPort (\<lambda>n. benign)) [] p (Some sample_manager) = (Inr (), Some x)"
proof -
  obtain cfg where cfg: "BuildConfigWithBase [] p Blank = Inr cfg" using built_at by blast
  let ?m = "next_call (sample_manager\<lparr>m_APIPort := p\<rparr>)"
  have "m_BinaryPath ?m \<noteq> []" "m_ConfigPath ?m \<noteq> []" "m_APIPort ?m = p" "m_BaseConfigJSON ?m = Blank" "m_Service ?m = []"
    by (simp_all add: next_call_def sample_manager_simps)
  then have "\<exists>x. applyLocked benign [] ?m = (Inr (), x)"
    using cfg by (simp add: applyLocked_def installConfig_def benign_def opt_res_def Let_def)
  then show ?thesis by (auto simp: change_api_def ApplyWithAPIPort_def coded_def)
qed

theorem settings_change_outcome_witness:
  "\<exists>c ss' d x. updateSettings sample_web (ApplyWithAPIPort (\<lambda>n. benign)) sample_meeting quiet
       (sample_request ''127.0.0.1:99'' (\<lambda>k. []) (Some ''t'')) (Some (sample_settings 10086 []))
       (sample_sessions, sample_db, Some sample_manager) = (Answered 200 c, ss', d, Some x) \<and>
     fmlookup (db_settings d) ''xray_api_port'' = Some (itoa 10086) \<and> serving_port m_APIPort manager_running quiet d x"
proof -
  obtain x where "change_api (ApplyWithAPIPort (\<lambda>n. benign)) [] 10086 (Some sample_manager) = (Inr (), Some x)"
    using sample_manager_moves by blast
  then have x: "(if 10086 \<noteq> (10085 :: int) then change_api (ApplyWithAPIPort (\<lambda>n. benign)) [] 10086 (Some sample_manager)
      else (Inr (), Some sample_manager)) = (Inr (), Some x)" by simp
  obtain c ss' d where u: "updateSettings sample_web (ApplyWithAPIPort (\<lambda>n. benign)) sample_meeting quiet
       (sample_request ''127.0.0.1:99'' (\<lambda>k. []) (Some ''t'')) (Some (sample_settings 10086 []))
       (sample_sessions, sample_db, Some sample_manager) = (Answered 200 c, ss', d, Some x)"
    by (rule sample_settings_update [OF _ _ disjI1 [OF refl] x]) simp_all
  let ?i = "trimmed_settings (sample_settings 10086 [])"
  note out = settings_change_outcome [OF u setting_keys_dom quiet_simps(1) sample_manager_runs]
  then have serve: "serving_port m_APIPort manager_running quiet d x" by simp
  from out obtain user hash where
    "settings_applied (settings_values ?i) user (si_AdminUsername ?i) hash sample_db d" by (auto simp: change_stored_def)
  then have "fmlookup (db_settings d) ''xray_api_port'' = Some (itoa (si_XrayAPIPort ?i))"
    by (simp add: settings_applied_def settings_lookup)
  moreover have "si_XrayAPIPort ?i = 10086" by (simp add: sample_trimmed) (simp add: sample_settings_def)
  ultimately show ?thesis using u serve by (intro exI conjI) simp_all
qed

lemma no_port_change: "(if 10085 \<noteq> (10085 :: int) then change_api install [] 10085 None else (Inr (), None)) = (Inr (), None)"
  by simp

theorem settings_credentials_witness:
  "\<exists>token user a. holder sample_sessions 5 token = Some user \<and> AdminByName quiet user sample_db = Inr a \<and>
     w_compare sample_web (adm_PasswordHash a) ''secret''"
proof -
  let ?r = "sample_request ''127.0.0.1:99'' (\<lambda>k. []) (Some ''t'')" and ?i = "sample_settings 10085 ''longer secret''"
  obtain c ss' d where u: "updateSettings sample_web (ApplyWithAPIPort (\<lambda>n. benign)) sample_meeting quiet ?r (Some ?i)
       (sample_sessions, sample_db, None) = (Answered 200 c, ss', d, None)"
    and row: "map_option row_hash (fmlookup (db_admins d) ''admin'') = Some (if ''longer secret'' = [] then ''secret'' else ''longer secret'')"
    by (rule sample_settings_update [OF _ _ disjI2 [OF refl] no_port_change]) simp_all
  have "map_option row_hash (fmlookup (db_admins d) ''admin'') \<noteq> map_option row_hash (fmlookup (db_admins sample_db) ''admin'')"
    unfolding row by (simp add: sample_db_def)
  from settings_credentials [OF u setting_keys_dom this] show ?thesis
    by (auto simp: sample_meeting_def sample_settings_def)
qed

theorem settings_shown_witness:
  "\<exists>ss' d v. fst (getSettings quiet 50 (sample_request ''127.0.0.1:99'' (\<lambda>k. []) (Some ''t'')) d ss') = Answered 200 v \<and>
     sv_PanelBasePath v = ''/x/'' \<and> sv_PortMin v = 20000"
proof -
  let ?r = "sample_request ''127.0.0.1:99'' (\<lambda>k. []) (Some ''t'')" and ?i = "sample_settings 10085 []"
  obtain c ss' d where u: "updateSettings sample_web (ApplyWithAPIPort (\<lambda>n. benign)) sample_meeting quiet ?r (Some ?i)
       (sample_sessions, sample_db, None) = (Answered 200 c, ss', d, None)" and c: "ch_sessionRotated c \<longleftrightarrow> ([] :: string) \<noteq> []"
    by (rule sample_settings_update [OF _ _ disjI1 [OF refl] no_port_change]) simp_all
  have "fst (getSettings quiet 50 ?r d ss') = Answered 200
    \<lparr>sv_PanelListen = si_PanelListen (trimmed_settings ?i), sv_PanelBasePath = si_PanelBasePath (trimmed_settings ?i),
     sv_PanelCertFile = si_PanelCertFile (trimmed_settings ?i), sv_PanelKeyFile = si_PanelKeyFile (trimmed_settings ?i),
     sv_PanelDomain = si_PanelDomain (trimmed_settings ?i), sv_PanelTLS = (si_PanelCertFile (trimmed_settings ?i) \<noteq> []),
     sv_XrayAPIPort = si_XrayAPIPort (trimmed_settings ?i), sv_PortMin = si_PortMin (trimmed_settings ?i),
     sv_PortMax = si_PortMax (trimmed_settings ?i),
     sv_DefaultRealitySNI = trim_space (si_DefaultRealitySNI (trimmed_settings ?i)),
     sv_DefaultRealityDest = trim_space (si_DefaultRealityDest (trimmed_settings ?i)),
     sv_AdminUsername = si_AdminUsername (trimmed_settings ?i)\<rparr>"
    by (rule settings_shown [OF u setting_keys_dom])
      (simp_all add: c, simp_all add: sample_meeting_def sample_sessions_def NewSessions_def hour_def minute_def second_def
         sample_request_def holder_def)
  then show ?thesis
    by (intro exI conjI) (assumption, simp_all add: sample_trimmed, simp_all add: sample_settings_def)
qed


end
