(* ===== verification/LoginTurns.thy ===== *)
theory LoginTurns
  imports LoginPromises
begin

text \<open>
  Logins that run at the same time (\<open>login\<close> of \<open>internal/server/server.go\<close>). The handler holds no lock from
  end to end: each call of a limiter or of the sessions takes that object's own lock, and bcrypt runs between
  them, so the server interleaves the requests at these calls. A request is its phase; a turn runs one
  call. The first lemma shows that a request whose turns run in one piece is \<open>Login.login\<close>; the bound on
  guessed passwords is proved for every interleaving.
\<close>

section \<open>One request, call by call\<close>

datatype Phase =
    CheckIp
  | CheckKey
  | Compare
  | CountKey
  | CountIp
  | ClearKey Admin
  | ClearIp Admin
  | Issue Admin
  | Done "string answer"

record Call =
  ca_req :: Req
  ca_user :: string
  ca_password :: string

text \<open>What a turn meets: the clock, the order of an eviction, the random source and the database.\<close>

record Beat =
  be_now :: int
  be_order :: "string list"
  be_random :: "nat list option"
  be_eng :: Engine
  be_db :: Db

definition call_ip :: "Web \<Rightarrow> Call \<Rightarrow> string" where
  "call_ip w c = remoteIP w (ca_req c)"

definition call_key :: "Web \<Rightarrow> Call \<Rightarrow> string" where
  "call_key w c = loginRateKey (call_ip w c) (trim_space (ca_user c))"

fun login_turn :: "Web \<Rightarrow> Call \<Rightarrow> Beat \<Rightarrow> Phase \<Rightarrow> Auth \<Rightarrow> Phase \<times> Auth" where
  "login_turn w c b CheckIp au =
     (let (ok, l) = Allowed (be_now b) (call_ip w c) (au_ip au) in
      (if ok then CheckKey else Done (Refused 429 (ErrNew ''too many login attempts; try again later'')),
       au\<lparr>au_ip := l\<rparr>))"
| "login_turn w c b CheckKey au =
     (let (ok, l) = Allowed (be_now b) (call_key w c) (au_login au) in
      (if ok then Compare else Done (Refused 429 (ErrNew ''too many login attempts; try again later'')),
       au\<lparr>au_login := l\<rparr>))"
| "login_turn w c b Compare au =
     (case login_accepts w (be_eng b) (be_db b) (trim_space (ca_user c)) (ca_password c) of
        None \<Rightarrow> (CountKey, au)
      | Some admin \<Rightarrow> (ClearKey admin, au))"
| "login_turn w c b CountKey au =
     (CountIp, au\<lparr>au_login := Fail (be_order b) (be_now b) (call_key w c) (au_login au)\<rparr>)"
| "login_turn w c b CountIp au =
     (Done (Refused 401 (ErrNew ''invalid credentials'')),
      au\<lparr>au_ip := Fail (be_order b) (be_now b) (call_ip w c) (au_ip au)\<rparr>)"
| "login_turn w c b (ClearKey admin) au =
     (ClearIp admin, au\<lparr>au_login := Success (call_key w c) (au_login au)\<rparr>)"
| "login_turn w c b (ClearIp admin) au =
     (Issue admin, au\<lparr>au_ip := Success (call_ip w c) (au_ip au)\<rparr>)"
| "login_turn w c b (Issue admin) au =
     (case Create (be_random b) (be_now b) (adm_Username admin) (au_sessions au) of
        (Inl e, ss) \<Rightarrow> (Done (Refused 500 (ErrNew ''session failure'')), au\<lparr>au_sessions := ss\<rparr>)
      | (Inr token, ss) \<Rightarrow> (Done (Answered 200 token), au\<lparr>au_sessions := ss\<rparr>))"
| "login_turn w c b (Done ans) au = (Done ans, au)"

text \<open>A request that nothing interrupts.\<close>

definition beat :: "int \<Rightarrow> string list \<Rightarrow> nat list option \<Rightarrow> Engine \<Rightarrow> Db \<Rightarrow> Beat" where
  "beat t ord rnd eng db = \<lparr>be_now = t, be_order = ord, be_random = rnd, be_eng = eng, be_db = db\<rparr>"

fun in_one_piece :: "Web \<Rightarrow> Call \<Rightarrow> Beat list \<Rightarrow> Phase \<times> Auth \<Rightarrow> Phase \<times> Auth" where
  "in_one_piece w c [] s = s"
| "in_one_piece w c (b # bs) s = in_one_piece w c bs (login_turn w c b (fst s) (snd s))"

definition beats_of :: "Moment \<Rightarrow> Engine \<Rightarrow> Db \<Rightarrow> Admin option \<Rightarrow> Beat list" where
  "beats_of mo eng db found =
     beat (mo_ip mo) [] None eng db # beat (mo_key mo) [] None eng db # beat (mo_key mo) [] None eng db #
     (case found of
        None \<Rightarrow> [beat (mo_fail_key mo) (mo_order_key mo) None eng db, beat (mo_fail_ip mo) (mo_order_ip mo) None eng db]
      | Some a \<Rightarrow> [beat (mo_create mo) [] None eng db, beat (mo_create mo) [] None eng db,
                   beat (mo_create mo) [] (mo_random mo) eng db])"

lemma in_one_piece_login:
  assumes "login w eng db mo (ca_req c) (Some (ca_user c, ca_password c)) au = (ans, au')"
  shows "in_one_piece w c (beats_of mo eng db (login_accepts w eng db (trim_space (ca_user c)) (ca_password c)))
           (CheckIp, au) = (Done ans, au')"
proof -
  let ?ip = "call_ip w c" and ?key = "call_key w c"
  obtain ok1 l1 where 1: "Allowed (mo_ip mo) ?ip (au_ip au) = (ok1, l1)" by fastforce
  obtain ok2 l2 where 2: "Allowed (mo_key mo) ?key (au_login au) = (ok2, l2)" by fastforce
  have fin: "in_one_piece w c bs (Done a, x) = (Done a, x)" for bs a x by (induction bs) simp_all
  note unfolded = call_ip_def call_key_def login_gate_def login_def with_body_def beats_of_def beat_def Let_def
  show ?thesis
  proof (cases "ok1 \<and> ok2")
    case False
    then show ?thesis using assms 1 2 by (auto simp: unfolded fin split: option.split)
  next
    case True
    show ?thesis
    proof (cases "login_accepts w eng db (trim_space (ca_user c)) (ca_password c)")
      case None
      then show ?thesis using assms 1 2 True by (simp add: unfolded login_failed_def)
    next
      case (Some admin)
      obtain q ss where "Create (mo_random mo) (mo_create mo) (adm_Username admin) (au_sessions au) = (q, ss)" by fastforce
      then show ?thesis using assms 1 2 True Some
        by (auto simp: unfolded login_cleared_def split: sum.split sum.split_asm)
    qed
  qed
qed

section \<open>The server's requests\<close>

text \<open>
  The requests of a period with their phases, and what may happen: a turn of one of them, or anything else
  the panel does, which may change the sessions but never touches the limiters.
\<close>

datatype turn_event = Turn nat Beat | Elsewhere Sessions

type_synonym Requests = "(Call \<times> Phase) list"

fun turn_step :: "Web \<Rightarrow> turn_event \<Rightarrow> Requests \<times> Auth \<Rightarrow> Requests \<times> Auth" where
  "turn_step w (Turn i b) (rs, au) =
     (if i < length rs
      then (let (ph, au') = login_turn w (fst (rs ! i)) b (snd (rs ! i)) au in (rs[i := (fst (rs ! i), ph)], au'))
      else (rs, au))"
| "turn_step w (Elsewhere ss) (rs, au) = (rs, au\<lparr>au_sessions := ss\<rparr>)"

definition turns :: "Web \<Rightarrow> turn_event list \<Rightarrow> Requests \<times> Auth \<Rightarrow> Requests \<times> Auth" where
  "turns w es s = fold (turn_step w) es s"

lemma turns_simps [simp]: "turns w [] s = s" "turns w (e # es) s = turns w es (turn_step w e s)"
  by (simp_all add: turns_def)

section \<open>What one turn changes\<close>

definition in_flight :: "Phase \<Rightarrow> bool" where
  "in_flight ph \<longleftrightarrow> (case ph of CheckIp \<Rightarrow> False | Done ans \<Rightarrow> False | _ \<Rightarrow> True)"

definition clears :: "Phase \<Rightarrow> bool" where
  "clears ph \<longleftrightarrow> (case ph of ClearKey a \<Rightarrow> True | ClearIp a \<Rightarrow> True | _ \<Rightarrow> False)"

definition wrong :: "Phase \<Rightarrow> bool" where
  "wrong ph \<longleftrightarrow> ph = CountKey \<or> ph = CountIp \<or> ph = Done (Refused 401 (ErrNew ''invalid credentials''))"

fun tally :: "('a \<Rightarrow> bool) \<Rightarrow> 'a list \<Rightarrow> int" where
  "tally P [] = 0"
| "tally P (x # xs) = (if P x then 1 else 0) + tally P xs"

lemma tally_update:
  "i < length xs \<Longrightarrow> tally P (xs[i := y]) + (if P (xs ! i) then 1 else 0) = tally P xs + (if P y then 1 else 0)"
proof (induction xs arbitrary: i)
  case (Cons x xs)
  show ?case
  proof (cases i)
    case (Suc j)
    then show ?thesis using Cons.IH [of j] Cons.prems by simp
  qed simp
qed simp

lemma tally_mono: "(\<And>x. P x \<Longrightarrow> Q x) \<Longrightarrow> tally P xs \<le> tally Q xs"
  by (induction xs) auto

lemma tally_nonneg: "0 \<le> tally P xs"
  by (induction xs) auto

lemma tally_pos: "i < length xs \<Longrightarrow> P (xs ! i) \<Longrightarrow> 1 \<le> tally P xs"
  using tally_update [of i xs P "xs ! i"]
proof (induction xs arbitrary: i)
  case (Cons x xs)
  then show ?case using tally_nonneg [of P xs] by (cases i) (auto intro: order_trans)
qed simp

lemma tally_length: "tally P xs \<le> int (length xs)"
  by (induction xs) auto

text \<open>The count of one address, while its window runs.\<close>

definition counted :: "LoginLimiter \<Rightarrow> int \<Rightarrow> int \<Rightarrow> string \<Rightarrow> int \<Rightarrow> bool" where
  "counted l t0 t ip n \<longleftrightarrow>
     0 \<le> n \<and> (\<exists>s \<ge> t0. live l t ip = (if n = 0 then None else Some \<lparr>Count = n, Since = s\<rparr>))"

lemma time_sub_less: "t < t0 + win \<Longrightarrow> t0 \<le> s \<Longrightarrow> 0 < win \<Longrightarrow> win \<le> 2 ^ 62 \<Longrightarrow> time_sub t s < win"
  by (auto simp: time_sub_def)

lemma counted_step:
  assumes c: "counted l t0 t ip n" and ok: "buckets_ok l" "int (fmcount (entries l)) < capacity l" "0 < window l"
    and le: "t0 \<le> t" "t \<le> ev_time e" "ev_time e < t0 + window l" "window l \<le> 2 ^ 62"
    and e: "\<forall>s. e \<noteq> EvSuccess s ip"
  shows "counted (limiter_step e l) t0 (ev_time e) ip (n + (case e of EvFail ord s k \<Rightarrow> if k = ip then 1 else 0 | _ \<Rightarrow> 0))"
proof -
  obtain s where n: "0 \<le> n" "t0 \<le> s" and live: "live l t ip = (if n = 0 then None else Some \<lparr>Count = n, Since = s\<rparr>)"
    using c by (auto simp: counted_def)
  have "time_sub (ev_time e) s < window l" using time_sub_less [of "ev_time e" t0 "window l" s] le ok(3) n(2) by simp
  then have kept: "expire (window l) (ev_time e) (live l t) ip = (if n = 0 then None else Some \<lparr>Count = n, Since = s\<rparr>)"
    using live by (simp add: expire_def)
  note after = fun_cong [OF live_step [OF ok le(2)], of ip]
  show ?thesis
  proof (cases e)
    case (EvAllowed x k)
    then show ?thesis using after kept n by (auto simp: counted_def)
  next
    case (EvSuccess x k)
    then have "k \<noteq> ip" using e by auto
    then show ?thesis using EvSuccess after kept n by (auto simp: counted_def)
  next
    case (EvFail ord x k)
    show ?thesis
    proof (cases "k = ip")
      case True
      have "t0 \<le> x" using EvFail le by simp
      then show ?thesis
        using EvFail True after kept n by (cases "n = 0") (auto simp: counted_def count_failure_def)
    next
      case False
      then show ?thesis using EvFail after kept n by (auto simp: counted_def count_failure_def)
    qed
  qed
qed

lemma counted_verdict:
  assumes "counted l t0 t ip n" "t0 \<le> t" "t \<le> s" "s < t0 + window l" "0 < window l" "window l \<le> 2 ^ 62"
  shows "verdict l s ip \<longleftrightarrow> n = 0 \<or> n < max_fails l"
proof -
  obtain u where u: "t0 \<le> u" "live l t ip = (if n = 0 then None else Some \<lparr>Count = n, Since = u\<rparr>)"
    using assms(1) by (auto simp: counted_def)
  have "time_sub s u < window l" using time_sub_less [of s t0 "window l" u] assms u(1) by simp
  moreover have "live l s ip = expire (window l) s (live l t) ip" using assms(3) by (simp add: live_def)
  ultimately have "live l s ip = (if n = 0 then None else Some \<lparr>Count = n, Since = u\<rparr>)"
    using u(2) by (simp add: expire_def)
  then show ?thesis by (auto simp: live_verdict)
qed

lemma counted_later:
  assumes "counted l t0 t ip n" "t \<le> s" "t0 \<le> t" "s < t0 + window l" "0 < window l" "window l \<le> 2 ^ 62"
  shows "counted l t0 s ip n"
proof -
  obtain u where u: "0 \<le> n" "t0 \<le> u" "live l t ip = (if n = 0 then None else Some \<lparr>Count = n, Since = u\<rparr>)"
    using assms(1) by (auto simp: counted_def)
  have "time_sub s u < window l" using time_sub_less [of s t0 "window l" u] assms u(2) by simp
  moreover have "live l s ip = expire (window l) s (live l t) ip" using assms(2) by (simp add: live_def)
  ultimately show ?thesis using u by (auto simp: counted_def expire_def)
qed

lemma Allowed_config [simp]:
  "window (snd (Allowed now k l)) = window l" "max_fails (snd (Allowed now k l)) = max_fails l"
  "capacity (snd (Allowed now k l)) = capacity l"
  by (simp_all add: Allowed_def Let_def split: option.split)


lemma Success_config [simp]:
  "window (Success k l) = window l" "max_fails (Success k l) = max_fails l" "capacity (Success k l) = capacity l"
  by (simp_all add: Success_def)

text \<open>The call a turn makes of the limiter of addresses.\<close>

definition ip_call :: "Web \<Rightarrow> Call \<Rightarrow> Beat \<Rightarrow> Phase \<Rightarrow> limiter_event option" where
  "ip_call w c b ph =
     (case ph of
        CheckIp \<Rightarrow> Some (EvAllowed (be_now b) (call_ip w c))
      | CountIp \<Rightarrow> Some (EvFail (be_order b) (be_now b) (call_ip w c))
      | ClearIp a \<Rightarrow> Some (EvSuccess (be_now b) (call_ip w c))
      | _ \<Rightarrow> None)"

lemma turn_ip:
  "login_turn w c b ph au = (ph', au') \<Longrightarrow>
     au_ip au' = (case ip_call w c b ph of None \<Rightarrow> au_ip au | Some e \<Rightarrow> limiter_step e (au_ip au))"
  by (cases ph) (auto simp: ip_call_def split: prod.splits option.splits sum.splits if_splits)

lemma ip_call_time: "ip_call w c b ph = Some e \<Longrightarrow> ev_time e = be_now b"
  by (auto simp: ip_call_def split: Phase.splits)

lemma limiter_step_kept_count:
  "(\<And>ord t k. e \<noteq> EvFail ord t k) \<Longrightarrow> fmcount (entries (limiter_step e l)) \<le> fmcount (entries l)"
proof (cases e)
  case (EvAllowed t k)
  then show ?thesis using cleanup_count [of t False l] by (auto simp: Allowed_def Let_def fmcount_drop split: option.split)
qed (auto simp: Success_def fmcount_drop)

definition from_ip :: "Web \<Rightarrow> string \<Rightarrow> (Phase \<Rightarrow> bool) \<Rightarrow> Call \<times> Phase \<Rightarrow> bool" where
  "from_ip w ip P r \<longleftrightarrow> call_ip w (fst r) = ip \<and> P (snd r)"

definition unanswered :: "Phase \<Rightarrow> bool" where
  "unanswered ph \<longleftrightarrow> (case ph of Done ans \<Rightarrow> False | _ \<Rightarrow> True)"

definition told_wrong :: "Phase \<Rightarrow> bool" where
  "told_wrong ph \<longleftrightarrow> ph = Done (Refused 401 (ErrNew ''invalid credentials''))"

text \<open>
  The count of the address is the number of its requests that have been told they were wrong; a request
  in flight passed the check when the count was below the limit, so the two together stay below the limit
  and the number in flight. Every request that is not answered has a free bucket set aside.
\<close>

definition guess_inv :: "Web \<Rightarrow> string \<Rightarrow> int \<Rightarrow> int \<Rightarrow> int \<Rightarrow> int \<Rightarrow> Requests \<Rightarrow> Auth \<Rightarrow> int \<Rightarrow> bool" where
  "guess_inv w ip t0 n d t rs au cnt \<longleftrightarrow>
     counted (au_ip au) t0 t ip cnt \<and> buckets_ok (au_ip au) \<and>
     int (fmcount (entries (au_ip au))) + tally (unanswered \<circ> snd) rs \<le> capacity (au_ip au) \<and>
     cnt + tally (from_ip w ip in_flight) rs \<le> max_fails (au_ip au) - 1 + n \<and>
     tally (from_ip w ip told_wrong) rs = d + cnt"

lemmas phase_simps = in_flight_def unanswered_def told_wrong_def clears_def from_ip_def

lemma turn_bounded:
  assumes inv: "guess_inv w ip t0 n d t rs au cnt" and i: "i < length rs" "rs ! i = (c, ph)"
    and turn: "login_turn w c b ph au = (ph', au')"
    and cfg: "0 < window (au_ip au)" "window (au_ip au) \<le> 2 ^ 62" "1 \<le> max_fails (au_ip au)"
    and time: "0 < t0" "t0 \<le> t" "t \<le> be_now b" "be_now b < t0 + window (au_ip au)"
    and ip: "call_ip w c \<noteq> []" and clears: "\<not> from_ip w ip clears (c, ph)"
    and par: "tally (from_ip w ip in_flight) (rs[i := (c, ph')]) \<le> n"
  shows "\<exists>cnt'. guess_inv w ip t0 n d (be_now b) (rs[i := (c, ph')]) au' cnt'"
proof -
  let ?l = "au_ip au"
  note I = inv [unfolded guess_inv_def]
  have counted: "counted ?l t0 t ip cnt" and ok: "buckets_ok ?l" using I by simp_all
  note un = tally_update [OF i(1), of "unanswered \<circ> snd" "(c, ph')"]
    and fl = tally_update [OF i(1), of "from_ip w ip in_flight" "(c, ph')"]
    and wr = tally_update [OF i(1), of "from_ip w ip told_wrong" "(c, ph')"]
  note tallies = un fl wr
  show ?thesis
  proof (cases "ip_call w c b ph")
    case None
    then have same: "au_ip au' = ?l" using turn_ip [OF turn] by simp
    have "counted ?l t0 (be_now b) ip cnt" by (rule counted_later [OF counted time(3,2,4) cfg(1,2)])
    moreover have "unanswered ph' \<longrightarrow> unanswered ph" "in_flight ph' \<longrightarrow> in_flight ph"
      "call_ip w c = ip \<longrightarrow> told_wrong ph' = told_wrong ph"
      using turn None clears by (cases ph; auto simp: ip_call_def phase_simps split: prod.splits option.splits sum.splits if_splits)+
    ultimately show ?thesis
      using I tallies i(2) unfolding guess_inv_def same
      by (intro exI [of _ cnt]) (auto simp: from_ip_def split: if_split_asm)
  next
    case (Some e)
    then have step: "au_ip au' = limiter_step e ?l" using turn_ip [OF turn] by simp
    have un_ph: "unanswered ph" using Some by (auto simp: ip_call_def unanswered_def split: Phase.splits)
    then have "1 \<le> tally (unanswered \<circ> snd) rs" using tally_pos [OF i(1), of "unanswered \<circ> snd"] i(2) by simp
    then have room: "int (fmcount (entries ?l)) < capacity ?l" using I by simp
    note t = ip_call_time [OF Some]
    have ok': "buckets_ok (limiter_step e ?l)"
      by (rule limiter_step_buckets_ok [OF ok room, of t])
        (use Some ip time t in \<open>auto simp: ip_call_def split: Phase.splits\<close>)
    let ?k = "cnt + (case e of EvFail ord s k \<Rightarrow> if k = ip then 1 else 0 | _ \<Rightarrow> 0)"
    have e: "\<forall>s. e \<noteq> EvSuccess s ip" using Some clears by (auto simp: ip_call_def phase_simps split: Phase.splits)
    have c': "counted (limiter_step e ?l) t0 (be_now b) ip ?k"
      using counted_step [OF counted ok room cfg(1) time(2) _ _ cfg(2) e] time t by simp
    from Some show ?thesis
    proof (cases ph)
      case CheckIp
      then have e': "e = EvAllowed (be_now b) (call_ip w c)" using Some by (simp add: ip_call_def)
      have ph': "ph' = (if verdict ?l (be_now b) (call_ip w c) then CheckKey else Done (Refused 429 (ErrNew ''too many login attempts; try again later'')))"
        using turn CheckIp Allowed_verdict [OF ok, of "be_now b" "call_ip w c"] by (auto split: prod.splits)
      have "cnt \<le> max_fails ?l - 1" if "verdict ?l (be_now b) ip"
        using counted_verdict [OF counted time(2,3,4) cfg(1,2)] that cfg(3) by auto
      then show ?thesis
        using I tallies i(2) CheckIp par c' ok' limiter_step_kept_count [of e ?l] ph' unfolding guess_inv_def step
        by (intro exI [of _ cnt]) (auto simp: e' phase_simps split: if_split_asm)
    next
      case CountIp
      then have e': "e = EvFail (be_order b) (be_now b) (call_ip w c)" using Some by (simp add: ip_call_def)
      then show ?thesis
        using I tallies i(2) CountIp turn c' ok' limiter_step_count [OF ok room, of e] unfolding guess_inv_def step
        by (intro exI [of _ ?k]) (auto simp: phase_simps split: if_split_asm)
    next
      case (ClearIp a)
      then have e': "e = EvSuccess (be_now b) (call_ip w c)" using Some by (simp add: ip_call_def)
      then show ?thesis
        using I tallies i(2) ClearIp turn c' ok' limiter_step_kept_count [of e ?l] clears unfolding guess_inv_def step
        by (intro exI [of _ cnt]) (auto simp: phase_simps split: if_split_asm)
    qed (simp_all add: ip_call_def)
  qed
qed

section \<open>All interleavings\<close>

text \<open>The instants of a period are in order and before its end.\<close>

fun in_period :: "int \<Rightarrow> int \<Rightarrow> turn_event list \<Rightarrow> bool" where
  "in_period t end_t [] = True"
| "in_period t end_t (Turn i b # es) = (t \<le> be_now b \<and> be_now b < end_t \<and> in_period (be_now b) end_t es)"
| "in_period t end_t (Elsewhere ss # es) = in_period t end_t es"

text \<open>A condition on every state of a run.\<close>

fun always :: "(Requests \<Rightarrow> bool) \<Rightarrow> Web \<Rightarrow> turn_event list \<Rightarrow> Requests \<times> Auth \<Rightarrow> bool" where
  "always P w [] s = P (fst s)"
| "always P w (e # es) s = (P (fst s) \<and> always P w es (turn_step w e s))"

lemma always_now: "always P w es s \<Longrightarrow> P (fst s)"
  by (cases es) simp_all

definition at_most :: "Web \<Rightarrow> string \<Rightarrow> int \<Rightarrow> Requests \<Rightarrow> bool" where
  "at_most w ip n rs \<longleftrightarrow> tally (from_ip w ip in_flight) rs \<le> n \<and> tally (from_ip w ip clears) rs = 0"

lemma turn_config:
  assumes "login_turn w c b ph au = (ph', au')"
  shows "window (au_ip au') = window (au_ip au)" "max_fails (au_ip au') = max_fails (au_ip au)"
  using turn_ip [OF assms] by (auto split: option.split)

lemma turns_bounded:
  assumes "guess_inv w ip t0 n d t rs au cnt"
    and "0 < window (au_ip au)" "window (au_ip au) \<le> 2 ^ 62" "1 \<le> max_fails (au_ip au)"
    and "0 < t0" "t0 \<le> t" "in_period t (t0 + window (au_ip au)) es"
    and "\<forall>(c, ph) \<in> set rs. call_ip w c \<noteq> []" and "always (at_most w ip n) w es (rs, au)"
    and "turns w es (rs, au) = (rs', au')"
  shows "\<exists>t' cnt'. guess_inv w ip t0 n d t' rs' au' cnt' \<and> max_fails (au_ip au') = max_fails (au_ip au)"
  using assms
proof (induction es arbitrary: rs au t cnt)
  case Nil
  then show ?case by auto
next
  case (Cons e es)
  show ?case
  proof (cases e)
    case (Elsewhere ss)
    have "guess_inv w ip t0 n d t rs (au\<lparr>au_sessions := ss\<rparr>) cnt" using Cons.prems(1) by (simp add: guess_inv_def)
    from Cons.IH [OF this] show ?thesis using Cons.prems Elsewhere by simp
  next
    case (Turn i b)
    show ?thesis
    proof (cases "i < length rs")
      case False
      have "always (at_most w ip n) w es (rs, au)" "turns w es (rs, au) = (rs', au')"
        using Cons.prems(9,10) Turn False by simp_all
      moreover have "counted (au_ip au) t0 (be_now b) ip cnt"
        by (rule counted_later [of _ _ t]) (use Cons.prems Turn in \<open>simp_all add: guess_inv_def\<close>)
      then have "guess_inv w ip t0 n d (be_now b) rs au cnt" using Cons.prems(1) by (simp add: guess_inv_def)
      ultimately show ?thesis using Cons.IH [of "be_now b" rs au cnt] Cons.prems Turn by simp
    next
      case True
      obtain c ph where r: "rs ! i = (c, ph)" by fastforce
      obtain ph' a where turn: "login_turn w c b ph au = (ph', a)" by fastforce
      have next_s: "always (at_most w ip n) w es (rs[i := (c, ph')], a)" "turns w es (rs[i := (c, ph')], a) = (rs', au')"
        using Cons.prems(9,10) Turn True r turn by simp_all
      have ip: "call_ip w c \<noteq> []" using Cons.prems(8) True r nth_mem [of i rs] by auto
      have "at_most w ip n rs" using Cons.prems(9) by simp
      then have "\<not> from_ip w ip clears (c, ph)"
        using tally_pos [OF True, of "from_ip w ip clears"] r by (auto simp: at_most_def)
      moreover have "tally (from_ip w ip in_flight) (rs[i := (c, ph')]) \<le> n"
        using always_now [OF next_s(1)] by (simp add: at_most_def)
      ultimately obtain cnt' where inv': "guess_inv w ip t0 n d (be_now b) (rs[i := (c, ph')]) a cnt'"
        using turn_bounded [OF Cons.prems(1) True r turn Cons.prems(2,3,4,5,6) _ _ ip] Cons.prems(7) Turn by auto
      have "\<forall>(c, ph) \<in> set (rs[i := (c, ph')]). call_ip w c \<noteq> []"
        using Cons.prems(8) ip set_update_subset_insert [of rs i "(c, ph')"] by auto
      then show ?thesis
        using Cons.IH [OF inv' _ _ _ Cons.prems(5) _ _ _ next_s] Cons.prems(2,3,4,6,7) turn_config [OF turn] Turn by simp
    qed
  qed
qed

section \<open>Properties\<close>

text \<open>(C9) Guessing is bounded, however the server interleaves the calls of concurrent logins with each
  other and with everything else it does: take a period of one window of the address limiter (the
  panel's 30 minutes) that starts with no failure counted for an address, in which no password from
  that address is right and never more than \<open>n\<close> of its requests are between their check and their
  answer. Then at most \<open>max_fails - 1 + n\<close> of its passwords (23 and \<open>n\<close>) are compared and found wrong;
  one request at a time gets \<open>max_fails\<close>. All its further attempts are refused unseen. The requests of
  the period and the addresses counted before fit into the limiter, so no count is evicted.\<close>

theorem login_guess_bound:
  assumes "limiter_inv (au_ip au)" "window (au_ip au) \<le> 2 ^ 62"
    and "int (fmcount (entries (au_ip au)) + length rs) \<le> capacity (au_ip au)"
    and "0 < t0" "in_period t0 (t0 + window (au_ip au)) es" "live (au_ip au) t0 ip = None"
    and "\<forall>(c, ph) \<in> set rs. call_ip w c \<noteq> []" and "always (at_most w ip n) w es (rs, au)"
    and "turns w es (rs, au) = (rs', au')"
  shows "tally (from_ip w ip wrong) rs' \<le> tally (from_ip w ip wrong) rs + max_fails (au_ip au) - 1 + n"
proof -
  have cfg: "0 < window (au_ip au)" "1 \<le> max_fails (au_ip au)" using assms(1) by (simp_all add: limiter_inv_def)
  have n: "tally (from_ip w ip in_flight) rs \<le> n" using always_now [OF assms(8)] by (simp add: at_most_def)
  have "counted (au_ip au) t0 t0 ip 0" using assms(6) by (auto simp: counted_def)
  then have "guess_inv w ip t0 n (tally (from_ip w ip told_wrong) rs) t0 rs au 0"
    using assms(3) cfg n inv_buckets_ok [OF assms(1)] tally_length [of "unanswered \<circ> snd" rs] by (simp add: guess_inv_def)
  from turns_bounded [OF this cfg(1) assms(2) cfg(2) assms(4) order_refl assms(5,7,8,9)] obtain t' cnt where
    inv: "guess_inv w ip t0 n (tally (from_ip w ip told_wrong) rs) t' rs' au' cnt"
    and mx: "max_fails (au_ip au') = max_fails (au_ip au)" by blast
  have split: "tally (from_ip w ip wrong) xs \<le> tally (from_ip w ip told_wrong) xs + tally (from_ip w ip in_flight) xs" for xs
    by (induction xs) (auto simp: from_ip_def wrong_def told_wrong_def in_flight_def split: Phase.split)
  have "tally (from_ip w ip told_wrong) rs \<le> tally (from_ip w ip wrong) rs"
    by (rule tally_mono) (auto simp: from_ip_def wrong_def told_wrong_def)
  with inv mx split [of rs'] show ?thesis by (simp add: guess_inv_def)
qed

text \<open>Two requests at once on a limiter that allows one failure: both are compared, as many as the bound says.\<close>

definition sample_try :: Call where
  "sample_try = \<lparr>ca_req = sample_request ''203.0.113.9:5555'' (\<lambda>k. []) None, ca_user = '' admin'', ca_password = ''guess''\<rparr>"

definition sample_beat :: Beat where
  "sample_beat = beat 5 [] None quiet sample_db"

definition sample_strict :: Auth where
  "sample_strict = NewAuth\<lparr>au_ip := newLoginLimiter 1 minute 8\<rparr>"

lemma sample_try_simps: "call_ip sample_web sample_try = ''203.0.113.9''" "trim_space (ca_user sample_try) = ''admin''"
  "ca_password sample_try = ''guess''" "be_now sample_beat = 5" "be_eng sample_beat = quiet" "be_db sample_beat = sample_db"
  by (simp_all add: call_ip_def sample_try_def sample_remote sample_trim sample_beat_def beat_def)

lemma Allowed_nothing:
  assumes "entries l = fmempty"
  shows "fst (Allowed t k l)" "entries (snd (Allowed t k l)) = fmempty"
proof -
  have "fmprune keep (fmempty :: (string, loginAttempt) fmap) = fmempty" for keep by (rule fmap_ext) simp
  then show "fst (Allowed t k l)" "entries (snd (Allowed t k l)) = fmempty"
    using assms by (simp_all add: Allowed_def cleanupLocked_def Let_def)
qed

lemma sample_turn_check:
  assumes "entries (au_ip au) = fmempty" "entries (au_login au) = fmempty"
  obtains au' where "login_turn sample_web sample_try sample_beat CheckIp au = (CheckKey, au')"
      "entries (au_ip au') = fmempty" "entries (au_login au') = fmempty"
  using assms that Allowed_nothing [of "au_ip au" 5 "''203.0.113.9''"]
  by (cases "Allowed 5 ''203.0.113.9'' (au_ip au)") (auto simp: sample_try_simps)

lemma sample_turn_key:
  assumes "entries (au_ip au) = fmempty" "entries (au_login au) = fmempty"
  obtains au' where "login_turn sample_web sample_try sample_beat CheckKey au = (Compare, au')"
      "entries (au_ip au') = fmempty" "entries (au_login au') = fmempty"
  using assms that Allowed_nothing [of "au_login au" 5 "call_key sample_web sample_try"]
  by (cases "Allowed 5 (call_key sample_web sample_try) (au_login au)") (auto simp: sample_try_simps)

lemma sample_turn_compare: "login_turn sample_web sample_try sample_beat Compare au = (CountKey, au)"
  by (simp add: sample_try_simps sample_accepts)

theorem login_guess_bound_witness:
  "\<exists>es rs' au'. turns sample_web es ([(sample_try, CheckIp), (sample_try, CheckIp)], sample_strict) = (rs', au') \<and>
     tally (from_ip sample_web ''203.0.113.9'' wrong) rs' = 2 \<and>
     tally (from_ip sample_web ''203.0.113.9'' wrong) rs' \<le> max_fails (au_ip sample_strict) - 1 + 2"
proof -
  let ?e = "\<lambda>i. Turn i sample_beat" and ?P = "at_most sample_web ''203.0.113.9'' 2"
  have l: "au_ip sample_strict = newLoginLimiter 1 minute 8" by (simp add: sample_strict_def)
  have cfg: "window (au_ip sample_strict) = minute" "capacity (au_ip sample_strict) = 8" "entries (au_ip sample_strict) = fmempty"
    by (simp_all add: l newLoginLimiter_def minute_def second_def)
  have "entries (au_login sample_strict) = fmempty" by (simp add: sample_strict_def NewAuth_def NewLoginLimiter_def newLoginLimiter_def)
  note start = cfg(3) this
  obtain a1 where 1: "login_turn sample_web sample_try sample_beat CheckIp sample_strict = (CheckKey, a1)"
    and e1: "entries (au_ip a1) = fmempty" "entries (au_login a1) = fmempty" by (rule sample_turn_check [OF start])
  obtain a2 where 2: "login_turn sample_web sample_try sample_beat CheckIp a1 = (CheckKey, a2)"
    and e2: "entries (au_ip a2) = fmempty" "entries (au_login a2) = fmempty" by (rule sample_turn_check [OF e1])
  obtain a3 where 3: "login_turn sample_web sample_try sample_beat CheckKey a2 = (Compare, a3)"
    and e3: "entries (au_ip a3) = fmempty" "entries (au_login a3) = fmempty" by (rule sample_turn_key [OF e2])
  obtain a4 where 4: "login_turn sample_web sample_try sample_beat CheckKey a3 = (Compare, a4)"
    by (rule sample_turn_key [OF e3])
  note turn = 1 2 3 4 sample_turn_compare
  let ?es = "[?e 0, ?e 1, ?e 0, ?e 1, ?e 0, ?e 1]"
  have run: "turns sample_web ?es ([(sample_try, CheckIp), (sample_try, CheckIp)], sample_strict) =
      ([(sample_try, CountKey), (sample_try, CountKey)], a4)" by (simp add: turn del: login_turn.simps)
  have "tally (from_ip sample_web ''203.0.113.9'' wrong) [(sample_try, CountKey), (sample_try, CountKey)]
      \<le> tally (from_ip sample_web ''203.0.113.9'' wrong) [(sample_try, CheckIp), (sample_try, CheckIp)]
        + max_fails (au_ip sample_strict) - 1 + 2"
  proof (rule login_guess_bound [OF _ _ _ _ _ _ _ _ run, of 5])
    show "limiter_inv (au_ip sample_strict)" by (simp add: l newLoginLimiter_inv)
    show "always ?P sample_web ?es ([(sample_try, CheckIp), (sample_try, CheckIp)], sample_strict)"
      by (simp add: turn at_most_def phase_simps del: login_turn.simps)
  qed (simp_all add: cfg minute_def second_def sample_try_simps live_def expire_def)
  then show ?thesis using run
    by (intro exI [of _ ?es] exI [of _ "[(sample_try, CountKey), (sample_try, CountKey)]"] exI [of _ a4])
      (simp add: from_ip_def wrong_def sample_try_simps)
qed

end
