(* ===== verification/GlobalConfig.thy ===== *)
theory GlobalConfig
  imports Guarantees
begin

text \<open>
  Editing the global Xray sections (\<open>internal/service/global_config.go\<close>). The base configuration is a
  text in the settings table; a \<open>Codec\<close> reads such a text as a document and writes a document as a text
  (\<open>json.Unmarshal\<close> and \<open>MarshalIndent\<close>).
\<close>

section \<open>Operations\<close>

record Codec =
  co_read :: "string \<Rightarrow> jtext"
  co_write :: "jtext \<Rightarrow> string"

definition global_key :: string where
  "global_key = ''xray_global_config''"

definition maxEditableGlobalConfigBytes :: nat where
  "maxEditableGlobalConfigBytes = 2 * 2 ^ 20"

definition too_large :: "string \<Rightarrow> bool" where
  "too_large text \<longleftrightarrow> length (trim_space text) > maxEditableGlobalConfigBytes"

definition stored_base :: "Engine \<Rightarrow> Db \<Rightarrow> string res" where
  "stored_base eng db = bindR (Setting eng global_key db) (\<lambda>v. Inr (case v of None \<Rightarrow> [] | Some base \<Rightarrow> base))"

definition GlobalXrayConfig :: "Codec \<Rightarrow> Engine \<Rightarrow> Db \<Rightarrow> object res" where
  "GlobalXrayConfig c eng db =
     bindR (stored_base eng db) (\<lambda>base. EditableGlobalConfig (too_large base) (co_read c base))"

type_synonym 'x base_apply = "Account list \<Rightarrow> jtext \<Rightarrow> 'x \<Rightarrow> unit res \<times> 'x"

text \<open>What is computed before anything is changed.\<close>

definition merge_base ::
    "Codec \<Rightarrow> Engine \<Rightarrow> string list \<Rightarrow> string \<Rightarrow> Db \<Rightarrow> (string \<times> jtext \<times> jtext \<times> Account list) res" where
  "merge_base c eng order text db =
     bindR (stored_base eng db) (\<lambda>oldBase.
     bindR (MergeEditableGlobalConfig order (too_large oldBase) (too_large text) (co_read c oldBase) (co_read c text))
       (\<lambda>(merged, normalized).
     bindR (Accounts eng db) (\<lambda>accounts. Inr (oldBase, merged, normalized, accounts))))"

definition UpdateGlobalXrayConfig ::
    "Codec \<Rightarrow> Engine \<Rightarrow> 'x base_apply option \<Rightarrow> string list \<Rightarrow> string \<Rightarrow> Db \<times> 'x \<Rightarrow> jtext res \<times> Db \<times> 'x" where
  "UpdateGlobalXrayConfig c eng applier order text w =
     (case applier of
        None \<Rightarrow> (Inl (ErrNew ''Xray global configuration applier is not configured''), w)
      | Some install \<Rightarrow>
          (let (db, x) = w in
           case merge_base c eng order text db of
             Inl e \<Rightarrow> (Inl e, db, x)
           | Inr (oldBase, merged, normalized, accounts) \<Rightarrow>
               (case install accounts merged x of
                  (Inl e, x1) \<Rightarrow> (Inl e, db, x1)
                | (Inr _, x1) \<Rightarrow>
                    (case SetSetting eng global_key (co_write c merged) db of
                       (Inr _, db1) \<Rightarrow> (Inr normalized, db1, x1)
                     | (Inl e, db1) \<Rightarrow>
                         (case install accounts (co_read c oldBase) x1 of
                            (Inl e2, x2) \<Rightarrow>
                              (Inl (Errorf ''save global Xray config failed: %v; runtime rollback also failed: %v'' [] [e, e2]), db1, x2)
                          | (Inr _, x2) \<Rightarrow>
                              (Inl (Errorf ''save global Xray config failed; runtime configuration was rolled back: %w'' [] [e]), db1, x2))))))"

section \<open>Laws\<close>

text \<open>The manager runs the stored accounts on the stored base.\<close>

definition serving_base ::
    "('x \<Rightarrow> jtext) \<Rightarrow> ('x \<Rightarrow> Account list \<Rightarrow> bool) \<Rightarrow> Codec \<Rightarrow> Engine \<Rightarrow> Db \<Rightarrow> 'x \<Rightarrow> bool" where
  "serving_base base running c eng db x \<longleftrightarrow>
     (\<exists>text as. stored_base eng db = Inr text \<and> base x = co_read c text \<and> Accounts eng db = Inr as \<and> running x as)"

text \<open>The merged document is read back as it is written.\<close>

definition codec_ok :: "Codec \<Rightarrow> Engine \<Rightarrow> string list \<Rightarrow> string \<Rightarrow> Db \<Rightarrow> bool" where
  "codec_ok c eng order text db \<longleftrightarrow>
     (\<forall>old merged normalized accounts. merge_base c eng order text db = Inr (old, merged, normalized, accounts) \<longrightarrow>
        co_read c (co_write c merged) = merged)"

lemma merge_base_Inr:
  assumes "merge_base c eng order text db = Inr (oldBase, merged, normalized, accounts)"
  shows "stored_base eng db = Inr oldBase" "Accounts eng db = Inr accounts"
    "MergeEditableGlobalConfig order (too_large oldBase) (too_large text) (co_read c oldBase) (co_read c text) =
       Inr (merged, normalized)"
  using assms by (auto simp: merge_base_def)

lemma SetSetting_cases:
  assumes "SetSetting eng global_key v db = (q, db')"
  obtains (failed) e where "q = Inl e" "db' = db"
  | (stored) "q = Inr ()" "db' = db\<lparr>db_settings := fmupd global_key v (db_settings db)\<rparr>"
proof (cases "exec eng (SUpsertSetting global_key)")
  case (Inl e)
  then show thesis using assms by (intro failed [of e]) (auto simp: SetSetting_def global_key_def)
next
  case (Inr u)
  then show thesis using assms by (intro stored) (auto simp: SetSetting_def global_key_def)
qed

lemma stored_base_after:
  "stored_base eng db = Inr b \<Longrightarrow> stored_base eng (db\<lparr>db_settings := fmupd global_key v (db_settings db)\<rparr>) = Inr v"
  by (auto simp: stored_base_def Setting_def)

text \<open>The cases of an update.\<close>

lemma UpdateGlobal_cases:
  assumes "UpdateGlobalXrayConfig c eng (Some install) order text (db, x) = (r, db', x')"
  obtains
    (refused) e where "r = Inl e" "db' = db" "x' = x" "merge_base c eng order text db = Inl e"
  | (rejected) e old merged normalized accounts where "r = Inl e" "db' = db"
      "merge_base c eng order text db = Inr (old, merged, normalized, accounts)" "install accounts merged x = (Inl e, x')"
  | (saved) old merged normalized accounts where "r = Inr normalized"
      "merge_base c eng order text db = Inr (old, merged, normalized, accounts)" "install accounts merged x = (Inr (), x')"
      "db' = db\<lparr>db_settings := fmupd global_key (co_write c merged) (db_settings db)\<rparr>"
  | (undone) e old merged normalized accounts x1 where "r = Inl e" "db' = db"
      "merge_base c eng order text db = Inr (old, merged, normalized, accounts)" "install accounts merged x = (Inr (), x1)"
      "install accounts (co_read c old) x1 = (Inr (), x')"
  | (split) e e2 where "db' = db"
      "r = Inl (Errorf ''save global Xray config failed: %v; runtime rollback also failed: %v'' [] [e, e2])"
proof (cases "merge_base c eng order text db")
  case (Inl e)
  then show thesis using assms by (intro refused) (auto simp: UpdateGlobalXrayConfig_def)
next
  case (Inr t)
  obtain old merged normalized accounts where t: "t = (old, merged, normalized, accounts)" by (cases t)
  obtain q x1 where i: "install accounts merged x = (q, x1)" by fastforce
  obtain q2 db1 where set: "SetSetting eng global_key (co_write c merged) db = (q2, db1)" by fastforce
  obtain q3 x2 where i2: "install accounts (co_read c old) x1 = (q3, x2)" by fastforce
  note upd = assms [unfolded UpdateGlobalXrayConfig_def, simplified, unfolded Inr t, simplified, unfolded i, simplified]
  show thesis
  proof (cases q)
    case (Inl e)
    then show thesis using rejected [OF _ _ Inr [unfolded t]] upd i by simp
  next
    case (Inr u)
    from set show thesis
    proof (cases rule: SetSetting_cases)
      case stored
      then show thesis
        using saved [OF _ \<open>merge_base c eng order text db = Inr t\<close> [unfolded t]] upd i Inr set by simp
    next
      case (failed e)
      note m = \<open>merge_base c eng order text db = Inr t\<close> [unfolded t]
      show thesis
      proof (cases q3)
        case (Inl e2)
        have "db' = db \<and> r = Inl (Errorf ''save global Xray config failed: %v; runtime rollback also failed: %v'' [] [e, e2])"
          using upd i i2 \<open>q = Inr u\<close> set failed Inl by auto
        then show thesis by (intro split) simp_all
      next
        case (Inr v)
        have "db' = db \<and> x' = x2 \<and>
            r = Inl (Errorf ''save global Xray config failed; runtime configuration was rolled back: %w'' [] [e])"
          using upd i i2 \<open>q = Inr u\<close> set failed Inr by auto
        then show thesis using i i2 \<open>q = Inr u\<close> Inr by (intro undone [OF _ _ m]) simp_all
      qed
    qed
  qed
qed

locale base_applier = param_applier install base running reliable
  for install :: "'x base_apply" and base running reliable
begin

lemma update_serving:
  assumes upd: "UpdateGlobalXrayConfig c eng (Some install) order text (db, x) = (r, db', x')"
    and codec: "codec_ok c eng order text db" and ok: "reliable x" "serving_base base running c eng db x"
  shows "serving_base base running c eng db' x' \<or>
    (\<exists>e e2. r = Inl (Errorf ''save global Xray config failed: %v; runtime rollback also failed: %v'' [] [e, e2]))"
  using upd
proof (cases rule: UpdateGlobal_cases)
  case (rejected e old merged normalized accounts)
  then show ?thesis using install_failed [OF ok(1) rejected(4)] ok(2) by (auto simp: serving_base_def)
next
  case (saved old merged normalized accounts)
  note m = merge_base_Inr [OF saved(2)]
  have "co_read c (co_write c merged) = merged"
    using saved(2) codec unfolding codec_ok_def by blast
  then show ?thesis
    using install_ok [OF saved(3)] stored_base_after [OF m(1)] m(2) saved(4)
    by (auto simp: serving_base_def Accounts_def)
next
  case (undone e old merged normalized accounts x1)
  note m = merge_base_Inr [OF undone(3)]
  show ?thesis using install_ok [OF undone(5)] m(1,2) undone(2) by (auto simp: serving_base_def)
qed (use ok in auto)

end

interpretation manager_base_change: base_applier "ApplyWithBase answers" m_BaseConfigJSON manager_running "manager_reliable answers"
  for answers ..

section \<open>Properties\<close>

text \<open>(C31) Editing the global sections is all or nothing. A success stores a base whose editable sections
  are exactly those entered, without the managed sections and with every other section as it was, and
  the editor shows it again as long as it is not over the size limit; a failure stores nothing. The
  manager runs the stored accounts on the stored base afterwards as before, or the error says that the
  rollback failed too.\<close>

theorem global_config_outcome:
  assumes "UpdateGlobalXrayConfig c eng (Some (ApplyWithBase answers)) order text (db, m) = (r, db', m')"
    and "codec_ok c eng order text db" and "\<forall>e. co_read c text = Doc (JObj e) \<longrightarrow> set order = fmdom' e"
    and "manager_reliable answers m" "serving_base m_BaseConfigJSON manager_running c eng db m"
  shows "(case r of
      Inl e \<Rightarrow> db' = db
    | Inr normalized \<Rightarrow> (\<exists>old b e n v. stored_base eng db = Inr old \<and>
        parseGlobalConfigObject (too_large old) (co_read c old) ''stored global Xray config'' = Inr b \<and>
        parseGlobalConfigObject (too_large text) (co_read c text) ''global Xray advanced config'' = Inr e \<and>
        normalized = marshal e \<and> v = co_write c (marshal n) \<and>
        db' = db\<lparr>db_settings := fmupd global_key v (db_settings db)\<rparr> \<and>
        (\<forall>k. fmlookup n k = (if k \<in> set editableGlobalXraySections then fmlookup e k
               else if k \<in> set managedGlobalXraySections then None else fmlookup b k)) \<and>
        (\<not> too_large v \<longrightarrow> GlobalXrayConfig c eng db' = Inr e))) \<and>
    (serving_base m_BaseConfigJSON manager_running c eng db' m' \<or>
     (\<exists>e e2. r = Inl (Errorf ''save global Xray config failed: %v; runtime rollback also failed: %v'' [] [e, e2])))"
proof
  show "serving_base m_BaseConfigJSON manager_running c eng db' m' \<or>
     (\<exists>e e2. r = Inl (Errorf ''save global Xray config failed: %v; runtime rollback also failed: %v'' [] [e, e2]))"
    by (rule manager_base_change.update_serving [OF assms(1,2,4,5)])
  from assms(1) show "case r of
      Inl e \<Rightarrow> db' = db
    | Inr normalized \<Rightarrow> (\<exists>old b e n v. stored_base eng db = Inr old \<and>
        parseGlobalConfigObject (too_large old) (co_read c old) ''stored global Xray config'' = Inr b \<and>
        parseGlobalConfigObject (too_large text) (co_read c text) ''global Xray advanced config'' = Inr e \<and>
        normalized = marshal e \<and> v = co_write c (marshal n) \<and>
        db' = db\<lparr>db_settings := fmupd global_key v (db_settings db)\<rparr> \<and>
        (\<forall>k. fmlookup n k = (if k \<in> set editableGlobalXraySections then fmlookup e k
               else if k \<in> set managedGlobalXraySections then None else fmlookup b k)) \<and>
        (\<not> too_large v \<longrightarrow> GlobalXrayConfig c eng db' = Inr e))"
  proof (cases rule: UpdateGlobal_cases)
    case (saved old merged normalized accounts)
    note m = merge_base_Inr [OF saved(2)]
    have covers: "set order = fmdom' e \<or> e = fmempty"
      if "parseGlobalConfigObject (too_large text) (co_read c text) ''global Xray advanced config'' = Inr e" for e
      using that assms(3) by (auto simp: parseGlobal_Inr)
    obtain b e where be: "parseGlobalConfigObject (too_large old) (co_read c old) ''stored global Xray config'' = Inr b"
        "parseGlobalConfigObject (too_large text) (co_read c text) ''global Xray advanced config'' = Inr e"
      and n: "merged = marshal (fmadd (fmdrop_set (set editableGlobalXraySections \<union> set managedGlobalXraySections) b) e)"
        "normalized = marshal e" and none: "List.find (\<lambda>k. fmlookup e k \<noteq> None \<and> k \<notin> set editableGlobalXraySections) order = None"
      using m(3) by (auto simp: MergeEditableGlobalConfig_def split: option.split_asm)
    have sub: "fmdom' e \<subseteq> set editableGlobalXraySections"
      using covers [OF be(2)] none by (auto simp: find_None_iff fmlookup_dom'_iff)
    define n' where "n' = fmadd (fmdrop_set (set editableGlobalXraySections \<union> set managedGlobalXraySections) b) e"
    note mem = Merge_members [OF sub n'_def]
    have read: "GlobalXrayConfig c eng db' = Inr e" if "\<not> too_large (co_write c (marshal n'))"
    proof -
      have "co_read c (co_write c (marshal n')) = marshal n'"
        using assms(2) saved(2) n(1) unfolding codec_ok_def n'_def by blast
      then show ?thesis
        using that stored_base_after [OF m(1), of "co_write c (marshal n')"] mem(4) saved(4) n
        by (simp add: GlobalXrayConfig_def EditableGlobalConfig_def parseGlobalConfigObject_def marshal_def n'_def)
    qed
    have "\<forall>k. fmlookup n' k = (if k \<in> set editableGlobalXraySections then fmlookup e k
               else if k \<in> set managedGlobalXraySections then None else fmlookup b k)"
      using mem(1-3) by auto
    then show ?thesis using saved(1,4) m(1) be n read by (auto simp: n'_def)
  qed simp_all
qed


section \<open>The property on a sample edit\<close>

definition sample_codec :: Codec where
  "sample_codec = \<lparr>co_read = (\<lambda>s. if s = ''{}'' then marshal fmempty else if s = [] then Blank else Bad),
     co_write = (\<lambda>t. if t = marshal fmempty then ''{}'' else ''?'')\<rparr>"

lemma sample_codec_simps:
  "co_read sample_codec ''{}'' = marshal fmempty" "co_read sample_codec [] = Blank"
  "co_write sample_codec (marshal fmempty) = ''{}''" "co_write sample_codec t \<in> {''{}'', ''?''}"
  by (simp_all add: sample_codec_def)

lemma sample_small: "\<not> too_large []" "\<not> too_large ''{}''" "\<not> too_large ''?''"
  by (simp_all add: too_large_def maxEditableGlobalConfigBytes_def trim_space_graphic graphic_def)

lemma sample_merge:
  "merge_base sample_codec quiet [] ''{}'' (fst (serving [])) = Inr ([], marshal fmempty, marshal fmempty, [])"
proof -
  have "fmadd (fmdrop_set X fmempty) fmempty = (fmempty :: object)" for X by (rule fmap_ext) simp
  then show ?thesis
    by (simp add: sample_small merge_base_def stored_base_def Setting_def serving_def MergeEditableGlobalConfig_def
        parseGlobalConfigObject_def sample_codec_simps marshal_def Accounts_def)
qed

theorem global_config_outcome_witness:
  "\<exists>d m. UpdateGlobalXrayConfig sample_codec quiet (Some (ApplyWithBase (\<lambda>n. benign))) [] ''{}'' (serving []) =
       (Inr (marshal fmempty), d, m) \<and>
     GlobalXrayConfig sample_codec quiet d = Inr fmempty \<and>
     serving_base m_BaseConfigJSON manager_running sample_codec quiet d m"
proof -
  let ?m = "snd (serving [])" and ?d = "fst (serving [])"
  obtain cfg where cfg: "BuildConfigWithBase [] 0 (marshal fmempty) = Inr cfg"
    by (simp add: BuildConfig_iff base_config_Inr config_ok_def marshal_def)
  let ?n = "next_call (?m\<lparr>m_BaseConfigJSON := marshal fmempty\<rparr>)"
  have "m_BinaryPath ?n \<noteq> []" "m_ConfigPath ?n \<noteq> []" "m_APIPort ?n = 0" "m_BaseConfigJSON ?n = marshal fmempty" "m_Service ?n = []"
    by (simp_all add: next_call_def serving_def)
  then have "\<exists>x. applyLocked benign [] ?n = (Inr (), x)"
    using cfg by (simp add: applyLocked_def installConfig_def benign_def opt_res_def Let_def)
  then obtain x where x: "ApplyWithBase (\<lambda>n. benign) [] (marshal fmempty) ?m = (Inr (), x)"
    by (auto simp: ApplyWithBase_def)
  define d where "d = ?d\<lparr>db_settings := fmupd global_key ''{}'' (db_settings ?d)\<rparr>"
  have "SetSetting quiet global_key ''{}'' ?d = (Inr (), d)"
    by (simp add: SetSetting_def exec_def d_def global_key_def)
  then have u: "UpdateGlobalXrayConfig sample_codec quiet (Some (ApplyWithBase (\<lambda>n. benign))) [] ''{}'' (?d, ?m) =
       (Inr (marshal fmempty), d, x)"
    using sample_merge x by (simp add: UpdateGlobalXrayConfig_def sample_codec_simps split_def)
  have codec: "codec_ok sample_codec quiet [] ''{}'' ?d"
    using sample_merge by (simp add: codec_ok_def sample_codec_simps)
  have "manager_reliable (\<lambda>n. benign) ?m" "manager_running ?m []"
    using serving_steady [of "[]"] serving_running [of "[]"] sample_served(3,4) by (simp_all add: steady_def)
  moreover have "serving_base m_BaseConfigJSON manager_running sample_codec quiet ?d ?m"
    using \<open>manager_running ?m []\<close>
    by (auto simp: serving_base_def stored_base_def Setting_def Accounts_def) (simp_all add: serving_def sample_codec_simps)
  ultimately have out: "(\<exists>e n. marshal fmempty = marshal e \<and>
      (\<not> too_large (co_write sample_codec (marshal n)) \<longrightarrow> GlobalXrayConfig sample_codec quiet d = Inr e)) \<and>
      serving_base m_BaseConfigJSON manager_running sample_codec quiet d x"
    using global_config_outcome [OF u codec] by (simp add: sample_codec_simps marshal_def) blast
  have "\<not> too_large (co_write sample_codec t)" for t
    using sample_codec_simps(4) [of t] sample_small by auto
  then have "GlobalXrayConfig sample_codec quiet d = Inr fmempty" using out by (auto simp: marshal_def)
  moreover have "serving [] = (?d, ?m)" by simp
  ultimately show ?thesis using u out by (intro exI [of _ d] exI [of _ x] conjI) simp_all
qed

end
