(* ===== verification/Advanced.thy ===== *)
theory Advanced
  imports Expert
begin

text \<open>
  The older editor of fallbacks, PROXY protocol and HTTP camouflage (\<open>internal/service/advanced.go\<close>). It
  keeps the spellings of older panels (\<open>network\<close> with \<open>tcp\<close> as default) and shares the parsers and the
  \<open>sockopt\<close> edit with the expert editor.
\<close>

record AdvancedConfig =
  ac_Protocol :: string
  ac_Network :: string
  ac_Security :: string
  ac_FallbacksJSON :: jtext
  ac_AcceptProxyProtocol :: bool
  ac_HTTPHeaderJSON :: jtext
  ac_SupportsFallbacks :: bool
  ac_SupportsHTTPHeader :: bool

definition advancedProxyTransportKeys :: "string list" where
  "advancedProxyTransportKeys =
     [''tcpSettings'', ''rawSettings'', ''wsSettings'', ''grpcSettings'', ''httpupgradeSettings'', ''xhttpSettings'']"

definition advancedNetwork :: "string \<Rightarrow> object \<Rightarrow> string" where
  "advancedNetwork protocol stream =
     (let n = to_lower (trim_space (expertString (mget stream ''network'')))
      in if n = [] \<and> \<not> plain_proxy protocol then ''tcp'' else n)"

abbreviation tcp_network :: "string \<Rightarrow> bool" where
  "tcp_network n \<equiv> n = ''tcp'' \<or> n = ''raw''"

definition parseFallbacks :: "jtext \<Rightarrow> json list res" where
  "parseFallbacks t = parseExpertArray t ''fallbacks''"

definition parseHTTPHeader :: "jtext \<Rightarrow> (object \<times> bool) res" where
  "parseHTTPHeader t =
     bindR (parseExpertObject t ''HTTP camouflage header'') (\<lambda>(v, ok).
       if \<not> ok then Inr (v, ok)
       else if camouflage v then Inr (v, True)
       else Inl (ErrNew ''HTTP camouflage header type must be none or http''))"

definition advanced_fallbacks :: "string \<Rightarrow> string \<Rightarrow> string \<Rightarrow> json list \<Rightarrow> gomap \<Rightarrow> gomap res" where
  "advanced_fallbacks protocol network security fallbacks settings =
     (if fallbacks = [] then Inr (gdrop ''fallbacks'' settings)
      else if protocol \<noteq> ''vless'' \<and> protocol \<noteq> ''trojan''
      then Inl (ErrNew ''fallbacks are only supported for VLESS or Trojan'')
      else if \<not> tcp_network network then Inl (ErrNew ''fallbacks require TCP/RAW transport'')
      else if security \<noteq> ''tls'' then Inl (ErrNew ''fallbacks require TLS transport security'')
      else gput ''fallbacks'' (JArr fallbacks) settings)"

definition advanced_header_key :: "string \<Rightarrow> object \<Rightarrow> string" where
  "advanced_header_key network stream =
     (if network = ''raw'' \<or> fmlookup stream ''rawSettings'' \<noteq> None then ''rawSettings'' else ''tcpSettings'')"

definition advanced_header :: "string \<Rightarrow> object \<times> bool \<Rightarrow> gomap \<Rightarrow> gomap res" where
  "advanced_header network hdr stream =
     (if snd hdr \<and> \<not> tcp_network network
      then Inl (ErrNew ''HTTP camouflage header requires TCP/RAW transport'')
      else if tcp_network network then
        (let key = advanced_header_key network (entries_of stream);
             transport = expertObject (entries_of stream) key in
         if snd hdr then gput key (JObj (fmupd ''header'' (JObj (fst hdr)) transport)) stream
         else put_nonempty key (fmdrop ''header'' transport) stream)
      else Inr stream)"

definition advancedEdit :: "int \<Rightarrow> AdvancedConfig \<Rightarrow> Account \<Rightarrow> Account res" where
  "advancedEdit now inp a =
     bindR (expertMaps a) (\<lambda>(settings0, stream0).
       (let protocol = to_lower (trim_space (a_Protocol a));
            network = advancedNetwork protocol (entries_of stream0);
            security = expertSecurity (entries_of stream0) in
        bindR (parseFallbacks (ac_FallbacksJSON inp)) (\<lambda>fallbacks.
        bindR (advanced_fallbacks protocol network security fallbacks settings0) (\<lambda>settings.
        bindR (sockopt_edit (ac_AcceptProxyProtocol inp)
                 (edit_map (fold drop_proxy_copy advancedProxyTransportKeys) stream0)) (\<lambda>s1.
        bindR (parseHTTPHeader (ac_HTTPHeaderJSON inp)) (\<lambda>hdr.
        bindR (advanced_header network hdr s1) (\<lambda>s2.
          Inr (a\<lparr>a_SettingsJSON := marshal_map settings, a_StreamSettingsJSON := marshal_map s2,
                a_UpdatedAt := now\<rparr>))))))))"

fun first_header :: "object \<Rightarrow> string list \<Rightarrow> jtext" where
  "first_header stream [] = Blank"
| "first_header stream (key # keys) =
     (case fmlookup (expertObject stream key) ''header'' of
        Some h \<Rightarrow> indentJSON h
      | None \<Rightarrow> first_header stream keys)"

definition advanced_fields :: "string \<Rightarrow> object \<Rightarrow> object \<Rightarrow> AdvancedConfig" where
  "advanced_fields protocol settings stream =
     (let network = advancedNetwork protocol stream in
      \<lparr>ac_Protocol = protocol, ac_Network = network, ac_Security = expertSecurity stream,
       ac_FallbacksJSON = text_of_member settings ''fallbacks'' empty_array,
       ac_AcceptProxyProtocol = expert_accepts advancedProxyTransportKeys stream,
       ac_HTTPHeaderJSON = (if tcp_network network then first_header stream [''rawSettings'', ''tcpSettings''] else Blank),
       ac_SupportsFallbacks = (protocol = ''vless'' \<or> protocol = ''trojan'') \<and> tcp_network network,
       ac_SupportsHTTPHeader = tcp_network network\<rparr>)"

text \<open>Unlike the expert view, the errors of the two documents are not wrapped.\<close>

definition advancedView :: "Account \<Rightarrow> AdvancedConfig res" where
  "advancedView a =
     bindR (unmarshal_map (defaultAdvancedJSON (a_SettingsJSON a))) (\<lambda>settings.
     bindR (unmarshal_map (defaultAdvancedJSON (a_StreamSettingsJSON a))) (\<lambda>stream.
       Inr (advanced_fields (to_lower (trim_space (a_Protocol a))) (entries_of settings) (entries_of stream))))"

definition AdvancedOf :: "Engine \<Rightarrow> Db \<Rightarrow> int \<Rightarrow> AdvancedConfig res" where
  "AdvancedOf eng db i = bindR (raw eng db i) advancedView"

definition UpdateAdvanced ::
    "Env \<Rightarrow> 'x applier option \<Rightarrow> int \<Rightarrow> AdvancedConfig \<Rightarrow> Db \<times> 'x \<Rightarrow> AdvancedConfig res \<times> Db \<times> 'x" where
  "UpdateAdvanced env applier i inp w =
     reread (e_eng env) i advancedView (changeDb env applier (editStep (advancedEdit (e_now env) inp) i) w)"

end
