(* ===== verification/Panel.thy ===== *)
theory Panel
  imports Settings GlobalConfig Advanced
begin

text \<open>
  The panel as a whole (\<open>Handler\<close> and the account handlers of \<open>internal/server/server.go\<close>, \<open>ux_routes.go\<close>,
  \<open>operations.go\<close>): the routes with the gate in front of them, the mount of the base path, the security
  headers, and for each request the handler that answers it, over the sessions and limiters, the
  database and the Xray manager together.

  The handlers that are not modelled here (firewall, backups, updates, share links, logs, monitoring)
  are the argument \<open>other\<close>; they may change anything, the rest \<open>'o\<close> of the program's state included.
\<close>

section \<open>Routes\<close>

datatype endpoint =
    LoginE | LogoutE | ListAccountsE | CreateE | GetE | UpdateE | DeleteE | CloneE | ResetTrafficE | SetEnabledE
  | SuggestPortE | AdvancedE | UpdateAdvancedE | ExpertE | UpdateExpertE | GlobalConfigE | UpdateGlobalConfigE
  | SettingsE | UpdateSettingsE | VersionE | Other string

text \<open>Method, pattern, handler, and whether \<open>require\<close> stands before it.\<close>

definition gatedO :: "string \<Rightarrow> string \<Rightarrow> string \<Rightarrow> string \<times> string \<times> endpoint \<times> bool" where
  "gatedO meth pat name = (meth, pat, Other name, True)"

definition base_routes :: "(string \<times> string \<times> endpoint \<times> bool) list" where
  "base_routes =
     [(''POST'', ''/api/login'', LoginE, False), (''POST'', ''/api/logout'', LogoutE, True),
      gatedO ''GET'' ''/api/health'' ''health'', gatedO ''GET'' ''/api/overview'' ''overview'',
      (''GET'', ''/api/accounts'', ListAccountsE, True), (''POST'', ''/api/accounts'', CreateE, True),
      (''GET'', ''/api/accounts/{id}'', GetE, True), (''PUT'', ''/api/accounts/{id}'', UpdateE, True),
      (''DELETE'', ''/api/accounts/{id}'', DeleteE, True), (''POST'', ''/api/accounts/{id}/clone'', CloneE, True),
      (''POST'', ''/api/accounts/{id}/traffic/reset'', ResetTrafficE, True),
      gatedO ''GET'' ''/api/accounts/{id}/share'' ''shareAccount'', gatedO ''GET'' ''/api/accounts/{id}/qr'' ''qrAccount'',
      gatedO ''GET'' ''/api/xray/update'' ''checkXrayUpdate'', gatedO ''POST'' ''/api/xray/update'' ''updateXray'',
      gatedO ''POST'' ''/api/xray/restart'' ''restartXray'', gatedO ''GET'' ''/api/logs'' ''logs'',
      gatedO ''GET'' ''/api/backups'' ''listBackups'', gatedO ''POST'' ''/api/backups'' ''createBackup'',
      gatedO ''GET'' ''/api/backups/{name}/download'' ''downloadBackup'',
      gatedO ''POST'' ''/api/backups/{name}/restore'' ''restoreBackup'',
      gatedO ''DELETE'' ''/api/backups/{name}'' ''deleteBackup'',
      (''GET'', ''/api/settings'', SettingsE, True), (''PUT'', ''/api/settings'', UpdateSettingsE, True)]"

definition extra_routes :: "(string \<times> string \<times> endpoint \<times> bool) list" where
  "extra_routes =
     [gatedO ''GET'' ''/api/firewall'' ''firewallRead'', gatedO ''PUT'' ''/api/firewall/notes'' ''firewallNote'',
      gatedO ''PUT'' ''/api/firewall/purpose'' ''firewallPurpose'',
      gatedO ''POST'' ''/api/firewall/rules'' ''firewallRuleChange'',
      gatedO ''POST'' ''/api/firewall/control'' ''firewallControl'',
      gatedO ''POST'' ''/api/firewall/edit'' ''firewallExternalEdit'',
      gatedO ''POST'' ''/api/firewall/rules/confirm'' ''firewallRuleConfirm'',
      gatedO ''GET'' ''/api/firewall/raw'' ''firewallRaw'', gatedO ''GET'' ''/api/accounts/export'' ''exportAccounts'',
      gatedO ''GET'' ''/api/xray/geodata'' ''checkGeodata'', gatedO ''POST'' ''/api/xray/geodata'' ''updateGeodata'',
      gatedO ''POST'' ''/api/backups/import'' ''importBackup'', gatedO ''POST'' ''/api/xport/restart'' ''restartPanel'',
      (''GET'', ''/api/xport/version'', VersionE, False),
      gatedO ''GET'' ''/api/xport/update-state'' ''panelUpdateState'',
      gatedO ''GET'' ''/api/xport/update'' ''checkPanelUpdate'', gatedO ''POST'' ''/api/xport/update'' ''updatePanel'']"

definition ux_routes :: "(string \<times> string \<times> endpoint \<times> bool) list" where
  "ux_routes =
     [(''PATCH'', ''/api/accounts/{id}/enabled'', SetEnabledE, True),
      gatedO ''GET'' ''/api/accounts/online'' ''accountOnlineConnections'',
      (''GET'', ''/api/accounts/port-suggestion'', SuggestPortE, True),
      (''GET'', ''/api/accounts/{id}/advanced'', AdvancedE, True),
      (''PUT'', ''/api/accounts/{id}/advanced'', UpdateAdvancedE, True),
      (''GET'', ''/api/accounts/{id}/expert'', ExpertE, True),
      (''PUT'', ''/api/accounts/{id}/expert'', UpdateExpertE, True),
      (''GET'', ''/api/xray/config'', GlobalConfigE, True), (''PUT'', ''/api/xray/config'', UpdateGlobalConfigE, True),
      gatedO ''GET'' ''/api/xray/rollback'' ''checkXrayRollback'', gatedO ''POST'' ''/api/xray/rollback'' ''rollbackXray'']"

definition routes :: "(string \<times> string \<times> endpoint \<times> bool) list" where
  "routes = base_routes @ extra_routes @ ux_routes"

text \<open>
  \<open>ServeMux\<close>: segment by segment, a name in braces stands for one segment that is not empty; \<open>GET\<close> serves
  \<open>HEAD\<close> too; of several matching patterns the most specific one is taken, here the one with the fewest
  names.
\<close>

fun match_segs :: "string list \<Rightarrow> string list \<Rightarrow> string list option" where
  "match_segs [] [] = Some []"
| "match_segs (p # ps) (s # ss) =
     (if has_prefix p ''{'' then (if s = [] then None else map_option (Cons s) (match_segs ps ss))
      else if p = s then match_segs ps ss else None)"
| "match_segs _ _ = None"

text \<open>A path with empty, \<open>.\<close> or \<open>..\<close> segments is answered with a redirect to its clean form; an empty last
  segment is only a trailing slash.\<close>

definition clean_path :: "string \<Rightarrow> bool" where
  "clean_path path \<longleftrightarrow>
     (case split_on (CHR ''/'') path of
        [] # segs \<Rightarrow> segs \<noteq> [] \<and> last segs \<notin> {''.'', ''..''} \<and> (\<forall>x\<in>set (butlast segs). x \<notin> {[], ''.'', ''..''})
      | _ \<Rightarrow> False)"

definition match_route ::
    "string \<Rightarrow> string list \<Rightarrow> string \<times> string \<times> endpoint \<times> bool \<Rightarrow> (string list \<times> endpoint \<times> bool) option" where
  "match_route meth segs rt =
     (let (m, pat, e, gate) = rt in
      if m = meth \<or> (m = ''GET'' \<and> meth = ''HEAD'')
      then map_option (\<lambda>vs. (vs, e, gate)) (match_segs (split_on (CHR ''/'') pat) segs)
      else None)"

definition route_of :: "string \<Rightarrow> string \<Rightarrow> (string list \<times> endpoint \<times> bool) option" where
  "route_of meth path =
     (case sort_key (\<lambda>x. length (fst x)) (List.map_filter (match_route meth (split_on (CHR ''/'') path)) routes) of
        [] \<Rightarrow> None
      | x # _ \<Rightarrow> Some x)"

section \<open>The state and a request\<close>

record Panel =
  pa_auth :: Auth
  pa_db :: Db
  pa_manager :: Manager

datatype Body =
    BadBody | BLogin "string \<times> string" | BInput Input | BClone string int | BEnabled bool
  | BAdvanced AdvancedConfig | BExpert Lengths ExpertConfig | BConfig string | BSettings settingsInput

datatype Payload =
    POk | PToken string | PViews "View list" | PView View | PPort int int int | PAdvanced AdvancedConfig
  | PExpert ExpertConfig | PSections object | PDoc jtext | PSettings settingsView | PChanged Changed
  | PVersion | PStatic | POther string

text \<open>What the program is started with, and what one request brings and meets.\<close>

record World =
  wo_web :: Web
  wo_base :: "string option"
  wo_xray :: "nat \<Rightarrow> Xos"
  wo_codec :: Codec
  wo_outside :: Outside

record Call =
  ca_req :: Req
  ca_body :: Body
  ca_now :: int
  ca_user_at :: int
  ca_moment :: Moment
  ca_meeting :: Meeting
  ca_env :: Env
  ca_order :: "string list"

type_synonym 'o handler = "Panel \<times> 'o \<Rightarrow> Payload answer \<times> Panel \<times> 'o"

definition with_sessions :: "Sessions \<Rightarrow> Panel \<Rightarrow> Panel" where
  "with_sessions ss p = p\<lparr>pa_auth := (pa_auth p)\<lparr>au_sessions := ss\<rparr>\<rparr>"

section \<open>Handlers\<close>

definition answer_map :: "('a \<Rightarrow> 'b) \<Rightarrow> 'a answer \<Rightarrow> 'b answer" where
  "answer_map f a = (case a of Refused c e \<Rightarrow> Refused c e | Answered c v \<Rightarrow> Answered c (f v))"

text \<open>The account's id in the path.\<close>

definition with_id :: "string list \<Rightarrow> (int \<Rightarrow> 'o handler) \<Rightarrow> 'o handler" where
  "with_id vs h s =
     (case vs of
        [v] \<Rightarrow> (case atoi v of None \<Rightarrow> (Refused 400 (ErrNew ''invalid account id''), s) | Some i \<Rightarrow> h i s)
      | _ \<Rightarrow> (Refused 400 (ErrNew ''invalid account id''), s))"

text \<open>A handler that only reads: the status of its errors and the payload of its answer.\<close>

definition reply_with :: "int \<Rightarrow> (err \<Rightarrow> err) \<Rightarrow> ('r \<Rightarrow> Payload) \<Rightarrow> (Panel \<Rightarrow> 'r res) \<Rightarrow> 'o handler" where
  "reply_with bad msg pack f s =
     ((case f (fst s) of Inl e \<Rightarrow> Refused bad (msg e) | Inr v \<Rightarrow> Answered 200 (pack v)), s)"

text \<open>A handler that changes the accounts: every error is a 400.\<close>

definition change_with :: "int \<Rightarrow> ('r \<Rightarrow> Payload) \<Rightarrow> (Db \<times> Manager \<Rightarrow> 'r res \<times> Db \<times> Manager) \<Rightarrow> 'o handler" where
  "change_with code pack f s =
     (let (p, rest) = s; (q, d, m) = f (pa_db p, pa_manager p) in
      (case q of Inl e \<Rightarrow> Refused 400 e | Inr v \<Rightarrow> Answered code (pack v),
       p\<lparr>pa_db := d, pa_manager := m\<rparr>, rest))"

definition bad_request :: "'o handler" where
  "bad_request s = (Refused 400 (ErrNew ''invalid request''), s)"

abbreviation database_error :: "err \<Rightarrow> err" where
  "database_error e \<equiv> ErrNew ''database error''"

definition handle_login :: "World \<Rightarrow> Call \<Rightarrow> 'o handler" where
  "handle_login wo c s =
     (let (p, rest) = s;
          (a, au) = login (wo_web wo) (e_eng (ca_env c)) (pa_db p) (ca_moment c) (ca_req c)
                      (case ca_body c of BLogin b \<Rightarrow> Some b | _ \<Rightarrow> None) (pa_auth p)
      in (answer_map PToken a, p\<lparr>pa_auth := au\<rparr>, rest))"

definition handle_logout :: "Call \<Rightarrow> 'o handler" where
  "handle_logout c s =
     (let (p, rest) = s; (a, au) = logout (ca_req c) (pa_auth p) in (answer_map (\<lambda>_. POk) a, p\<lparr>pa_auth := au\<rparr>, rest))"

definition handle_settings :: "Call \<Rightarrow> 'o handler" where
  "handle_settings c s =
     (let (p, rest) = s;
          (a, ss) = getSettings (e_eng (ca_env c)) (ca_user_at c) (ca_req c) (pa_db p) (au_sessions (pa_auth p))
      in (answer_map PSettings a, with_sessions ss p, rest))"

definition handle_update_settings :: "World \<Rightarrow> Call \<Rightarrow> 'o handler" where
  "handle_update_settings wo c s =
     (let (p, rest) = s;
          (a, ss, d, m) = updateSettings (wo_web wo) (ApplyWithAPIPort (wo_xray wo)) (ca_meeting c) (e_eng (ca_env c))
             (ca_req c) (case ca_body c of BSettings i \<Rightarrow> Some i | _ \<Rightarrow> None)
             (au_sessions (pa_auth p), pa_db p, Some (pa_manager p))
      in (answer_map PChanged a,
          (with_sessions ss p)\<lparr>pa_db := d, pa_manager := (case m of Some x \<Rightarrow> x | None \<Rightarrow> pa_manager p)\<rparr>, rest))"

definition handle_global_config :: "World \<Rightarrow> Call \<Rightarrow> 'o handler" where
  "handle_global_config wo c s =
     (case ca_body c of
        BConfig text \<Rightarrow>
          if text = [] then (Refused 400 (ErrNew ''config is required''), s)
          else change_with 200 PDoc
                 (UpdateGlobalXrayConfig (wo_codec wo) (e_eng (ca_env c)) (Some (ApplyWithBase (wo_xray wo))) (ca_order c) text) s
      | _ \<Rightarrow> bad_request s)"

definition suggested_port :: "Env \<Rightarrow> Db \<Rightarrow> (int \<times> int \<times> int) res" where
  "suggested_port env db =
     bindR (SuggestPort (e_eng env) (e_os env) db) (\<lambda>port.
       let (lo, hi, api) = portDefaults (e_eng env) db in Inr (port, lo, hi))"

definition listAccounts :: "Call \<Rightarrow> 'o handler" where
  "listAccounts c =
     reply_with 500 database_error PViews (\<lambda>p. ListAccounts (e_eng (ca_env c)) (pa_db p))"

definition getAccount :: "Call \<Rightarrow> string list \<Rightarrow> 'o handler" where
  "getAccount c vs =
     with_id vs (\<lambda>i. reply_with 404 (\<lambda>e. e) PView (\<lambda>p. GetAccount (e_eng (ca_env c)) (pa_db p) i))"

definition createAccount :: "World \<Rightarrow> Call \<Rightarrow> 'o handler" where
  "createAccount wo c =
     (case ca_body c of
        BInput inp \<Rightarrow> change_with 201 PView (CreateAccount (ca_env c) (Some (Apply (wo_xray wo))) inp)
      | _ \<Rightarrow> bad_request)"

definition updateAccount :: "World \<Rightarrow> Call \<Rightarrow> string list \<Rightarrow> 'o handler" where
  "updateAccount wo c vs =
     with_id vs (\<lambda>i. case ca_body c of
        BInput inp \<Rightarrow> change_with 200 PView (UpdateAccount (ca_env c) (Some (Apply (wo_xray wo))) i inp)
      | _ \<Rightarrow> bad_request)"

definition deleteAccount :: "World \<Rightarrow> Call \<Rightarrow> string list \<Rightarrow> 'o handler" where
  "deleteAccount wo c vs =
     with_id vs (\<lambda>i. change_with 200 (\<lambda>_. POk) (DeleteAccount (ca_env c) (Some (Apply (wo_xray wo))) i))"

definition cloneAccount :: "World \<Rightarrow> Call \<Rightarrow> string list \<Rightarrow> 'o handler" where
  "cloneAccount wo c vs =
     with_id vs (\<lambda>i. case ca_body c of
        BClone name port \<Rightarrow> change_with 201 PView (CloneAccount (ca_env c) (Some (Apply (wo_xray wo))) i name port)
      | _ \<Rightarrow> bad_request)"

definition resetTraffic :: "World \<Rightarrow> Call \<Rightarrow> string list \<Rightarrow> 'o handler" where
  "resetTraffic wo c vs =
     with_id vs (\<lambda>i. change_with 200 (\<lambda>_. POk) (ResetAccountTraffic (ca_env c) (Some (Apply (wo_xray wo))) i))"

definition setAccountEnabled :: "World \<Rightarrow> Call \<Rightarrow> string list \<Rightarrow> 'o handler" where
  "setAccountEnabled wo c vs =
     with_id vs (\<lambda>i. case ca_body c of
        BEnabled on \<Rightarrow> change_with 200 PView (SetEnabled (ca_env c) (Some (Apply (wo_xray wo))) i on)
      | _ \<Rightarrow> bad_request)"

definition suggestAccountPort :: "Call \<Rightarrow> 'o handler" where
  "suggestAccountPort c =
     reply_with 409 (\<lambda>e. e) (\<lambda>(port, lo, hi). PPort port lo hi) (\<lambda>p. suggested_port (ca_env c) (pa_db p))"

definition getAccountAdvanced :: "Call \<Rightarrow> string list \<Rightarrow> 'o handler" where
  "getAccountAdvanced c vs =
     with_id vs (\<lambda>i. reply_with 400 (\<lambda>e. e) PAdvanced (\<lambda>p. AdvancedOf (e_eng (ca_env c)) (pa_db p) i))"

definition updateAccountAdvanced :: "World \<Rightarrow> Call \<Rightarrow> string list \<Rightarrow> 'o handler" where
  "updateAccountAdvanced wo c vs =
     with_id vs (\<lambda>i. case ca_body c of
        BAdvanced inp \<Rightarrow> change_with 200 PAdvanced (UpdateAdvanced (ca_env c) (Some (Apply (wo_xray wo))) i inp)
      | _ \<Rightarrow> bad_request)"

definition getAccountExpert :: "World \<Rightarrow> Call \<Rightarrow> string list \<Rightarrow> 'o handler" where
  "getAccountExpert wo c vs =
     with_id vs (\<lambda>i. reply_with 400 (\<lambda>e. e) PExpert (\<lambda>p. ExpertOf (wo_outside wo) (e_eng (ca_env c)) (pa_db p) i))"

definition updateAccountExpert :: "World \<Rightarrow> Call \<Rightarrow> string list \<Rightarrow> 'o handler" where
  "updateAccountExpert wo c vs =
     with_id vs (\<lambda>i. case ca_body c of
        BExpert ls inp \<Rightarrow>
          change_with 200 PExpert (UpdateExpert (wo_outside wo) (ca_env c) (Some (Apply (wo_xray wo))) i ls inp)
      | _ \<Rightarrow> bad_request)"

definition getXrayGlobalConfig :: "World \<Rightarrow> Call \<Rightarrow> 'o handler" where
  "getXrayGlobalConfig wo c =
     reply_with 500 (\<lambda>e. e) PSections (\<lambda>p. GlobalXrayConfig (wo_codec wo) (e_eng (ca_env c)) (pa_db p))"

fun handle ::
    "World \<Rightarrow> (string \<Rightarrow> Call \<Rightarrow> 'o handler) \<Rightarrow> Call \<Rightarrow> string list \<Rightarrow> endpoint \<Rightarrow> 'o handler" where
  "handle wo other c vs LoginE = handle_login wo c"
| "handle wo other c vs LogoutE = handle_logout c"
| "handle wo other c vs ListAccountsE = listAccounts c"
| "handle wo other c vs GetE = getAccount c vs"
| "handle wo other c vs CreateE = createAccount wo c"
| "handle wo other c vs UpdateE = updateAccount wo c vs"
| "handle wo other c vs DeleteE = deleteAccount wo c vs"
| "handle wo other c vs CloneE = cloneAccount wo c vs"
| "handle wo other c vs ResetTrafficE = resetTraffic wo c vs"
| "handle wo other c vs SetEnabledE = setAccountEnabled wo c vs"
| "handle wo other c vs SuggestPortE = suggestAccountPort c"
| "handle wo other c vs AdvancedE = getAccountAdvanced c vs"
| "handle wo other c vs UpdateAdvancedE = updateAccountAdvanced wo c vs"
| "handle wo other c vs ExpertE = getAccountExpert wo c vs"
| "handle wo other c vs UpdateExpertE = updateAccountExpert wo c vs"
| "handle wo other c vs GlobalConfigE = getXrayGlobalConfig wo c"
| "handle wo other c vs UpdateGlobalConfigE = handle_global_config wo c"
| "handle wo other c vs SettingsE = handle_settings c"
| "handle wo other c vs UpdateSettingsE = handle_update_settings wo c"
| "handle wo other c vs VersionE = (\<lambda>s. (Answered 200 PVersion, s))"
| "handle wo other c vs (Other name) = other name c"

section \<open>The server\<close>

definition behind_gate :: "World \<Rightarrow> Call \<Rightarrow> 'o handler \<Rightarrow> 'o handler" where
  "behind_gate wo c h s =
     (let (a, ss, p, rest) = require (wo_web wo) (ca_now c) (ca_req c)
            (\<lambda>(ss, p, rest). let (a, p1, rest1) = h (with_sessions ss p, rest) in (a, au_sessions (pa_auth p1), p1, rest1))
            (au_sessions (pa_auth (fst s)), s)
      in (a, with_sessions ss p, rest))"

definition route_path :: "World \<Rightarrow> (string \<Rightarrow> Call \<Rightarrow> 'o handler) \<Rightarrow> Call \<Rightarrow> string \<Rightarrow> 'o handler" where
  "route_path wo other c path s =
     (let meth = rq_method (ca_req c) in
      if meth \<noteq> ''CONNECT'' \<and> \<not> clean_path path then (Refused 301 (ErrNew ''moved permanently''), s)
      else case route_of meth path of
        Some (vs, e, True) \<Rightarrow> behind_gate wo c (handle wo other c vs e) s
      | Some (vs, e, False) \<Rightarrow> handle wo other c vs e s
      | None \<Rightarrow>
          if has_prefix path ''/api/'' then (Refused 404 (ErrNew ''404 page not found''), s)
          else if meth \<noteq> ''GET'' \<and> meth \<noteq> ''HEAD'' then (Refused 405 (ErrNew []), s)
          else (Answered 200 PStatic, s))"

definition serve :: "World \<Rightarrow> (string \<Rightarrow> Call \<Rightarrow> 'o handler) \<Rightarrow> Call \<Rightarrow> 'o handler" where
  "serve wo other c s =
     (let path = rq_path (ca_req c) in
      case wo_base wo of
        None \<Rightarrow> route_path wo other c path s
      | Some base \<Rightarrow>
          (case MountBasePath base path of
             Redirect to \<Rightarrow> (Refused 307 (ErrNew to), s)
           | Serve path1 \<Rightarrow> route_path wo other c path1 s))"

definition securityHeaders :: "Web \<Rightarrow> Req \<Rightarrow> (string \<times> string) list" where
  "securityHeaders w r =
     [(''X-Content-Type-Options'', ''nosniff''), (''X-Frame-Options'', ''DENY''), (''Referrer-Policy'', ''no-referrer''),
      (''Content-Security-Policy'', ''default-src 'self'; base-uri 'none'; object-src 'none'; frame-ancestors 'none'; form-action 'self'; style-src 'self' 'unsafe-inline'; img-src 'self' data:; connect-src 'self'; script-src 'self'' @ [CHR 0x27]),
      (''Permissions-Policy'', ''camera=(), microphone=(), geolocation=()''),
      (''Cross-Origin-Opener-Policy'', ''same-origin''), (''Cross-Origin-Resource-Policy'', ''same-origin'')] @
     (if has_prefix (rq_path r) ''/api/'' then [(''Cache-Control'', ''no-store, max-age=0''), (''Pragma'', ''no-cache'')] else []) @
     (if requestScheme w r = ''https'' then [(''Strict-Transport-Security'', ''max-age=31536000'')] else [])"

end
