(* ===== verification/ExpertGuarantees.thy ===== *)
theory ExpertGuarantees
  imports Advanced Guarantees
begin

text \<open>
  What the two editors promise: what was entered is what the editor shows afterwards, members no editor
  knows are kept, one account is changed and no other, and database and Xray stay together.
\<close>

section \<open>Reading what was written\<close>

named_theorems editor_simps \<open>readers over writers\<close>

lemma gput_Inr [simp]: "gput k v g = Inr h \<longleftrightarrow> (\<exists>m. g = GoMap m \<and> h = GoMap (fmupd k v m))"
  by (cases g) (auto simp: gput_def)

lemma entries_gdrop [simp]: "entries_of (gdrop k g) = fmdrop k (entries_of g)"
  by (cases g) (simp_all add: gdrop_def)

lemma put_nonempty_entries:
  "put_nonempty k x g = Inr h \<Longrightarrow>
     entries_of h = (if x = fmempty then fmdrop k (entries_of g) else fmupd k (JObj x) (entries_of g))"
  by (auto simp: put_nonempty_def split: if_split_asm)

lemma cleanStrings_slice [editor_simps]: "expertStringSlice (JArr (map JStr (cleanStrings xs))) = cleanStrings xs"
proof -
  have "List.map_filter as_string (map JStr ys) = ys" for ys by (induction ys) (auto simp: List.map_filter_simps)
  moreover have "map trim_space (filter (\<lambda>s. trim_space s \<noteq> []) (filter (\<lambda>s. s \<noteq> []) (map trim_space xs))) =
      filter (\<lambda>s. s \<noteq> []) (map trim_space xs)" for xs
    by (induction xs) auto
  ultimately show ?thesis by (simp add: expertStringSlice_def cleanStrings_def)
qed

lemma setExpertString_get [editor_simps]:
  "expertString (mget (setExpertString k v m) k) = trim_space v"
  "expertScalarString ow (mget (setExpertString k v m) k) = trim_space v"
  "k' \<noteq> k \<Longrightarrow> mget (setExpertString k v m) k' = mget m k'"
  by (auto simp: setExpertString_def expertString_def expertScalarString_def Let_def)

lemma setFlag_get [editor_simps]:
  "expertBool (mget (setFlag k b m) k) = b"
  "k' \<noteq> k \<Longrightarrow> mget (setFlag k b m) k' = mget m k'"
  by (auto simp: setFlag_def expertBool_def)

lemma setCount_other [editor_simps]: "k' \<noteq> k \<Longrightarrow> mget (setCount k n m) k' = mget m k'"
  by (auto simp: setCount_def)

lemma setStrings_get [editor_simps]:
  "expertStringSlice (mget (setStrings k xs m) k) = cleanStrings xs"
  "k' \<noteq> k \<Longrightarrow> mget (setStrings k xs m) k' = mget m k'"
  by (auto simp: setStrings_def cleanStrings_slice)

lemma expertUint_of_int:
  "0 \<le> n \<Longrightarrow> n < 2 ^ 64 \<Longrightarrow> expertUint ow (JNum (of_int n)) = word_of_int n"
  by (cases "n = 0") (auto simp: expertUint_def)

lemma setCount_get [editor_simps]:
  "0 \<le> n \<Longrightarrow> n < 2 ^ 64 \<Longrightarrow> expertUint ow (mget (setCount k n m) k) = word_of_int n"
  using expertUint_of_int [of n ow] by (auto simp: setCount_def expertUint_def)

lemma setCount_uint [editor_simps]: "expertUint ow (mget (setCount k (uint w) m) k) = w"
  by (subst setCount_get) (use uint_lt2p [of w] in \<open>simp_all\<close>)

lemma setCount_int64 [editor_simps]:
  assumes "0 \<le> n" "n < 2 ^ 63"
  shows "expertInt64 ow (mget (setCount k n m) k) = n"
proof -
  have "n < 2 ^ 64" using assms(2) by simp
  then have "uint (word_of_int n :: 64 word) = n" using assms(1) by (simp add: uint_word_of_int)
  then show ?thesis
    using assms setCount_get [OF assms(1) \<open>n < 2 ^ 64\<close>] by (simp add: expertInt64_def)
qed

section \<open>What a saved form shows\<close>

text \<open>The lists and objects an input denotes.\<close>

definition array_of :: "jtext \<Rightarrow> json list" where
  "array_of t = (case t of Doc (JArr xs) \<Rightarrow> xs | _ \<Rightarrow> [])"

definition header_shown :: "jtext \<Rightarrow> jtext" where
  "header_shown t = (case t of Doc (JObj m) \<Rightarrow> if m = fmempty then Blank else t | _ \<Rightarrow> Blank)"

definition shown_common :: "ExpertConfig \<Rightarrow> ExpertConfig \<Rightarrow> ExpertConfig" where
  "shown_common inp v =
     v\<lparr>x_FallbacksJSON := Doc (JArr (array_of (x_FallbacksJSON inp))),
       x_AcceptProxyProtocol := x_AcceptProxyProtocol inp,
       x_HTTPHeaderJSON := header_shown (x_HTTPHeaderJSON inp)\<rparr>"

definition kept :: "string \<Rightarrow> string \<Rightarrow> string" where
  "kept new old = (if trim_space new = [] then old else trim_space new)"

definition kept_list :: "string list \<Rightarrow> string list \<Rightarrow> string list" where
  "kept_list new old = (if new = [] then old else cleanStrings new)"

text \<open>An empty target, key or list leaves the stored one; the public key is the one of the private key.\<close>

definition shown_reality :: "ExpertConfig \<Rightarrow> ExpertConfig \<Rightarrow> ExpertConfig" where
  "shown_reality inp v =
     v\<lparr>x_RealityTarget := kept (x_RealityTarget inp) (x_RealityTarget v),
       x_RealityServerNames := kept_list (x_RealityServerNames inp) (x_RealityServerNames v),
       x_RealityPrivateKey := kept (x_RealityPrivateKey inp) (x_RealityPrivateKey v),
       x_RealityPublicKey := (case deriveRealityPublicKey (kept (x_RealityPrivateKey inp) (x_RealityPrivateKey v)) of
                                Inl e \<Rightarrow> [] | Inr k \<Rightarrow> k),
       x_RealityShortIDs := kept_list (x_RealityShortIDs inp) (x_RealityShortIDs v),
       x_RealityXver := x_RealityXver inp,
       x_RealityMinClientVer := trim_space (x_RealityMinClientVer inp),
       x_RealityMaxClientVer := trim_space (x_RealityMaxClientVer inp),
       x_RealityMaxTimeDiff := x_RealityMaxTimeDiff inp,
       x_RealityShow := x_RealityShow inp,
       x_RealityMLDSA65Seed := trim_space (x_RealityMLDSA65Seed inp)\<rparr>"

definition shown_tls :: "ExpertConfig \<Rightarrow> ExpertConfig \<Rightarrow> ExpertConfig" where
  "shown_tls inp v =
     v\<lparr>x_TLSALPN := cleanStrings (x_TLSALPN inp),
       x_TLSMinVersion := trim_space (x_TLSMinVersion inp), x_TLSMaxVersion := trim_space (x_TLSMaxVersion inp),
       x_TLSCipherSuites := trim_space (x_TLSCipherSuites inp),
       x_TLSRejectUnknownSNI := x_TLSRejectUnknownSNI inp,
       x_TLSCertificatesJSON := Doc (JArr (array_of (x_TLSCertificatesJSON inp)))\<rparr>"

definition shown_xhttp :: "ExpertConfig \<Rightarrow> ExpertConfig \<Rightarrow> ExpertConfig" where
  "shown_xhttp inp v =
     v\<lparr>x_XHTTPMode := trim_space (x_XHTTPMode inp),
       x_XHTTPXPaddingBytes := trim_space (x_XHTTPXPaddingBytes inp),
       x_XHTTPNoSSEHeader := x_XHTTPNoSSEHeader inp,
       x_XHTTPScMaxBufferedPosts := x_XHTTPScMaxBufferedPosts inp,
       x_XHTTPScMaxEachPostBytes := trim_space (x_XHTTPScMaxEachPostBytes inp),
       x_XHTTPScStreamUpServerSecs := trim_space (x_XHTTPScStreamUpServerSecs inp),
       x_XHTTPUplinkHTTPMethod := to_upper (trim_space (x_XHTTPUplinkHTTPMethod inp))\<rparr>"

definition shown :: "ExpertConfig \<Rightarrow> ExpertConfig \<Rightarrow> ExpertConfig" where
  "shown inp v =
     (let v1 = shown_common inp v;
          v2 = (if x_SupportsReality v then shown_reality inp v1 else v1);
          v3 = (if x_SupportsTLS v then shown_tls inp v2 else v2)
      in if x_SupportsXHTTP v then shown_xhttp inp v3 else v3)"

lemma trim_to_upper_trim [simp]: "trim_space (to_upper (trim_space s)) = to_upper (trim_space s)"
proof -
  have up: "letterless w \<Longrightarrow> has_prefix (map upper_char s) w \<longleftrightarrow> has_prefix s w" for w s
  proof (induction w arbitrary: s)
    case (Cons d w)
    have "upper_char c = d \<longleftrightarrow> c = d" for c
      using Cons.prems by (auto simp: upper_char_def letterless_def Let_def)
    with Cons show ?case by (cases s) (auto simp: has_prefix_def letterless_def)
  qed (simp add: has_prefix_def)
  have lead: "list_all letterless ws \<Longrightarrow> leading_seq ws (map upper_char s) = leading_seq ws s" for ws s
  proof -
    assume "list_all letterless ws"
    then have "find (\<lambda>w. w \<noteq> [] \<and> has_prefix (map upper_char s) w) ws
             = find (\<lambda>w. w \<noteq> [] \<and> has_prefix s w) ws"
      by (induction ws) (auto simp: up)
    then show ?thesis by (simp add: leading_seq_def)
  qed
  have "list_all letterless (map rev space_seqs)"
    using letterless_spaces by (simp add: list_all_iff letterless_def)
  then show ?thesis
    using trim_space_left [of s] trim_space_right [of s]
    by (simp add: trim_space_id_iff to_upper_def flip: rev_map)
      (simp add: rev_map lead letterless_spaces)
qed

text \<open>Each group of fields, as the view reads it after its edit.\<close>

lemma keepString_get [editor_simps]:
  "expertString (mget (keepString k t m) k) = kept t (expertString (mget m k))"
  "k' \<noteq> k \<Longrightarrow> mget (keepString k t m) k' = mget m k'"
  by (simp_all add: keepString_def kept_def expertString_def)

lemma keepStrings_get [editor_simps]:
  "expertStringSlice (mget (keepStrings k xs m) k) = kept_list xs (expertStringSlice (mget m k))"
  "k' \<noteq> k \<Longrightarrow> mget (keepStrings k xs m) k' = mget m k'"
  by (simp_all add: keepStrings_def kept_list_def editor_simps)

lemma keepTarget_get [editor_simps]:
  "expertFirstString [mget (keepTarget t m) ''target'', mget (keepTarget t m) ''dest''] =
     kept t (expertFirstString [mget m ''target'', mget m ''dest''])"
  "k \<noteq> ''target'' \<Longrightarrow> k \<noteq> ''dest'' \<Longrightarrow> mget (keepTarget t m) k = mget m k"
  by (simp_all add: keepTarget_def kept_def expertString_def)

lemma setList_get [editor_simps]:
  "expertStringSlice (mget (setList k xs m) k) = cleanStrings xs"
  "k' \<noteq> k \<Longrightarrow> mget (setList k xs m) k' = mget m k'"
  by (cases "xs = []") (simp_all add: setList_def editor_simps, simp_all add: cleanStrings_def expertStringSlice_def)

lemma text_of_setArray [editor_simps]:
  "text_of_member (setArray k vs m) k empty_array = Doc (JArr vs)"
  by (auto simp: setArray_def text_of_member_def empty_array_def indentJSON_def)

lemma setArray_other [editor_simps]: "k' \<noteq> k \<Longrightarrow> mget (setArray k vs m) k' = mget m k'"
  by (simp add: setArray_def)

lemma expertUint_uint [editor_simps]: "expertUint ow (JNum (of_int (uint w))) = w"
  using expertUint_of_int [of "uint w" ow] uint_lt2p [of w] by simp

lemma view_reality_edit:
  "view_reality ow (reality_edit inp r) out = shown_reality inp (view_reality ow r out)"
  unfolding view_reality_def reality_edit_def shown_reality_def Let_def
  by (simp add: editor_simps del: expertFirstString.simps of_int_uint)

lemma view_tls_edit:
  "view_tls (tls_edit inp certs t) out =
     shown_tls inp (view_tls t out)\<lparr>x_TLSCertificatesJSON := Doc (JArr certs)\<rparr>"
  unfolding view_tls_def tls_edit_def shown_tls_def Let_def
  by (simp add: editor_simps)

lemma view_xhttp_edit:
  assumes "0 \<le> x_XHTTPScMaxBufferedPosts inp" "x_XHTTPScMaxBufferedPosts inp < 2 ^ 63"
  shows "view_xhttp ow (xhttp_object inp x) out = shown_xhttp inp (view_xhttp ow x out)"
proof -
  have edit: "expertScalarString ow (mget (xhttp_edit inp e) ''xPaddingBytes'') = trim_space (x_XHTTPXPaddingBytes inp)"
    "expertBool (mget (xhttp_edit inp e) ''noSSEHeader'') = x_XHTTPNoSSEHeader inp"
    "expertInt64 ow (mget (xhttp_edit inp e) ''scMaxBufferedPosts'') = x_XHTTPScMaxBufferedPosts inp"
    "expertScalarString ow (mget (xhttp_edit inp e) ''scMaxEachPostBytes'') = trim_space (x_XHTTPScMaxEachPostBytes inp)"
    "expertScalarString ow (mget (xhttp_edit inp e) ''scStreamUpServerSecs'') = trim_space (x_XHTTPScStreamUpServerSecs inp)"
    "expertString (mget (xhttp_edit inp e) ''uplinkHTTPMethod'') = to_upper (trim_space (x_XHTTPUplinkHTTPMethod inp))"
    "mget (xhttp_edit inp e) ''mode'' = mget e ''mode''" "mget (xhttp_edit inp e) ''extra'' = mget e ''extra''" for e
    using setCount_int64 [OF assms] by (simp_all add: xhttp_edit_def Let_def editor_simps)
  show ?thesis
    unfolding view_xhttp_def xhttp_object_def shown_xhttp_def Let_def
    by (cases "mget x ''extra''") (simp_all add: edit editor_simps)
qed


section \<open>The steps on the stream settings\<close>

lemma expertObject_upd: "expertObject (fmupd k v m) k' = (if k = k' then (case v of JObj x \<Rightarrow> x | _ \<Rightarrow> fmempty) else expertObject m k')"
  by (simp add: expertObject_def)

lemma expertObject_drop: "expertObject (fmdrop k m) k' = (if k = k' then fmempty else expertObject m k')"
  by (simp add: expertObject_def)

lemma expertObject_cong: "fmlookup m' k = fmlookup m k \<Longrightarrow> expertObject m' k = expertObject m k"
  by (simp add: expertObject_def mget_def)

definition proxied :: "object \<Rightarrow> string \<Rightarrow> bool" where
  "proxied m k = expertBool (mget (expertObject m k) ''acceptProxyProtocol'')"

lemma expert_accepts_proxied: "expert_accepts keys m \<longleftrightarrow> proxied m ''sockopt'' \<or> list_ex (proxied m) keys"
proof -
  have "(case mget m k of JObj x \<Rightarrow> expertBool (mget x ''acceptProxyProtocol'') | _ \<Rightarrow> False) = proxied m k" for k
    by (simp add: proxied_def expertObject_def expertBool_def split: json.split)
  then show ?thesis by (simp add: expert_accepts_def)
qed

lemma drop_proxy_copy_get:
  "k' \<noteq> k \<Longrightarrow> fmlookup (drop_proxy_copy k m) k' = fmlookup m k'"
  "expertObject (drop_proxy_copy k m) k = fmdrop ''acceptProxyProtocol'' (expertObject m k)"
  "k' |\<in>| fmdom (drop_proxy_copy k m) \<longleftrightarrow> k' |\<in>| fmdom m"
  by (auto simp: drop_proxy_copy_def expertObject_def mget_def split: json.split option.split_asm
      intro: fmdomI)

lemma drop_proxy_copies_empty: "fold drop_proxy_copy keys fmempty = fmempty"
  by (induction keys) (simp_all add: drop_proxy_copy_def)

lemma entries_drop_copies:
  "entries_of (edit_map (fold drop_proxy_copy keys) g) = fold drop_proxy_copy keys (entries_of g)"
  by (cases g) (simp_all add: drop_proxy_copies_empty)

lemma sockopt_edit_get:
  assumes "sockopt_edit b g = Inr h"
  shows "k \<noteq> ''sockopt'' \<Longrightarrow> fmlookup (entries_of h) k = fmlookup (entries_of g) k"
    and "proxied (entries_of h) ''sockopt'' = b"
  using assms
  by (auto simp: sockopt_edit_def Let_def proxied_def expertObject_upd expertObject_drop expertBool_def
      dest!: put_nonempty_entries split: if_split_asm)

lemma expert_header_get:
  assumes "expert_header method hdr g = Inr h"
  shows "k \<noteq> expertRawKey (entries_of g) \<or> method \<noteq> ''raw'' \<Longrightarrow> fmlookup (entries_of h) k = fmlookup (entries_of g) k"
    and "method = ''raw'' \<Longrightarrow> expertObject (entries_of h) (expertRawKey (entries_of g)) =
           (if snd hdr then fmupd ''header'' (JObj (fst hdr)) else fmdrop ''header'')
             (expertObject (entries_of g) (expertRawKey (entries_of g)))"
    and "snd hdr \<Longrightarrow> method = ''raw''"
  using assms
  by (auto simp: expert_header_def Let_def expertObject_upd expertObject_drop
      dest!: put_nonempty_entries split: if_split_asm)

lemma expert_reality_get:
  assumes "expert_reality security inp g = Inr h"
  shows "k \<noteq> ''realitySettings'' \<or> security \<noteq> ''reality'' \<Longrightarrow> fmlookup (entries_of h) k = fmlookup (entries_of g) k"
    and "security = ''reality'' \<Longrightarrow> expertObject (entries_of h) ''realitySettings'' =
           reality_edit inp (expertObject (entries_of g) ''realitySettings'')"
  using assms by (auto simp: expert_reality_def expertObject_upd split: if_split_asm)

lemma expert_tls_get:
  assumes "expert_tls security inp g = Inr h"
  shows "k \<noteq> ''tlsSettings'' \<or> security \<noteq> ''tls'' \<Longrightarrow> fmlookup (entries_of h) k = fmlookup (entries_of g) k"
    and "security = ''tls'' \<Longrightarrow> \<exists>certs. parseExpertArray (x_TLSCertificatesJSON inp) ''TLS certificates'' = Inr certs \<and>
           expertObject (entries_of h) ''tlsSettings'' = tls_edit inp certs (expertObject (entries_of g) ''tlsSettings'')"
  using assms by (auto simp: expert_tls_def expertObject_upd split: if_split_asm)

lemma expert_xhttp_get:
  assumes "expert_xhttp method inp g = Inr h"
  shows "k \<noteq> expertXHTTPKey (entries_of g) \<or> method \<noteq> ''xhttp'' \<Longrightarrow> fmlookup (entries_of h) k = fmlookup (entries_of g) k"
    and "method = ''xhttp'' \<Longrightarrow> expertObject (entries_of h) (expertXHTTPKey (entries_of g)) =
           xhttp_object inp (expertObject (entries_of g) (expertXHTTPKey (entries_of g)))"
  using assms by (auto simp: expert_xhttp_def expertObject_upd Let_def split: if_split_asm)

lemma parseExpertArray_Inr: "parseExpertArray t label = Inr xs \<Longrightarrow> xs = array_of t"
  by (auto simp: parseExpertArray_def array_of_def split: jtext.split_asm json.split_asm)

lemma parseExpertObject_Inr:
  "parseExpertObject t label = Inr hdr \<Longrightarrow> header_shown t = (if snd hdr then Doc (JObj (fst hdr)) else Blank)"
  by (auto simp: parseExpertObject_def header_shown_def split: jtext.split_asm json.split_asm)

lemma expert_fallbacks_get:
  assumes "expert_fallbacks protocol method security fs g = Inr h"
  shows "text_of_member (entries_of h) ''fallbacks'' empty_array = Doc (JArr fs)"
    and "k \<noteq> ''fallbacks'' \<Longrightarrow> fmlookup (entries_of h) k = fmlookup (entries_of g) k"
  using assms
  by (auto simp: expert_fallbacks_def text_of_member_def indentJSON_def empty_array_def split: if_split_asm)


text \<open>Which transport the readers look at after the edit.\<close>

lemma drop_copies_get:
  "k \<notin> set keys \<Longrightarrow> fmlookup (fold drop_proxy_copy keys m) k = fmlookup m k"
  "k |\<in>| fmdom (fold drop_proxy_copy keys m) \<longleftrightarrow> k |\<in>| fmdom m"
  "expertObject (fold drop_proxy_copy keys m) k =
     (if k \<in> set keys then fmdrop ''acceptProxyProtocol'' (expertObject m k) else expertObject m k)"
proof (induction keys arbitrary: m)
  case (Cons key keys)
  { case 1 then show ?case using Cons(1) [of "drop_proxy_copy key m"] by (simp add: drop_proxy_copy_get) }
  { case 2 show ?case using Cons(2) [of "drop_proxy_copy key m"] by (simp add: drop_proxy_copy_get) }
  { case 3 show ?case
      using Cons(3) [of "drop_proxy_copy key m"] expertObject_cong [OF drop_proxy_copy_get(1) [of k key m]]
      by (cases "k = key") (simp_all add: drop_proxy_copy_get) }
qed simp_all

lemma raw_key_dom:
  "expertRawKey m = (if ''rawSettings'' |\<in>| fmdom m then ''rawSettings''
     else if ''tcpSettings'' |\<in>| fmdom m then ''tcpSettings'' else ''rawSettings'')"
  by (simp add: expertRawKey_def fmlookup_dom_iff)

lemma xhttp_key_dom:
  "expertXHTTPKey m = (if ''xhttpSettings'' |\<in>| fmdom m then ''xhttpSettings''
     else if ''splithttpSettings'' |\<in>| fmdom m then ''splithttpSettings'' else ''xhttpSettings'')"
  by (simp add: expertXHTTPKey_def fmlookup_dom_iff)

lemma fmdom_cong: "fmlookup m' k = fmlookup m k \<Longrightarrow> k |\<in>| fmdom m' \<longleftrightarrow> k |\<in>| fmdom m"
  by (metis fmdom_notD fmdom_notI)

lemma expertObject_absent: "k |\<notin>| fmdom m \<Longrightarrow> expertObject m k = fmempty"
  by (simp add: expertObject_def mget_def fmdom_notD)

lemma raw_key_after:
  assumes same: "\<And>k. k = ''rawSettings'' \<or> k = ''tcpSettings'' \<Longrightarrow> k \<noteq> expertRawKey m \<Longrightarrow> k |\<in>| fmdom m' \<longleftrightarrow> k |\<in>| fmdom m"
    and one: "\<not> (''rawSettings'' |\<in>| fmdom m \<and> ''tcpSettings'' |\<in>| fmdom m)"
  shows "expertObject m' (expertRawKey m') = expertObject m' (expertRawKey m)"
proof (cases "''tcpSettings'' |\<in>| fmdom m")
  case True
  with one have key: "expertRawKey m = ''tcpSettings''" by (simp add: raw_key_dom)
  with same [of "''rawSettings''"] True one have "''rawSettings'' |\<notin>| fmdom m'" by simp
  then show ?thesis by (simp add: key raw_key_dom [of m'] expertObject_absent)
next
  case False
  then have key: "expertRawKey m = ''rawSettings''" by (simp add: raw_key_dom)
  with same [of "''tcpSettings''"] False have "''tcpSettings'' |\<notin>| fmdom m'" by simp
  then show ?thesis by (simp add: key raw_key_dom [of m'])
qed

definition transport_keys :: "string set" where
  "transport_keys = {''rawSettings'', ''tcpSettings'', ''xhttpSettings'', ''splithttpSettings'', ''wsSettings'',
     ''httpupgradeSettings'', ''grpcSettings''}"

definition fixed_keys :: "string set" where
  "fixed_keys = {''method'', ''network'', ''security''}"

lemma key_facts:
  "expertRawKey m \<in> transport_keys" "expertXHTTPKey m \<in> transport_keys"
  "set (expertActiveTransportKeys method m) \<subseteq> transport_keys"
  "''sockopt'' \<notin> transport_keys" "''realitySettings'' \<notin> transport_keys" "''tlsSettings'' \<notin> transport_keys"
  "fixed_keys \<inter> transport_keys = {}" "''sockopt'' \<notin> fixed_keys" "''realitySettings'' \<notin> fixed_keys"
  "''tlsSettings'' \<notin> fixed_keys"
  by (auto simp: transport_keys_def fixed_keys_def expertRawKey_def expertXHTTPKey_def expertActiveTransportKeys_def)

text \<open>All the steps together, on the members of the document.\<close>

lemma expert_steps:
  assumes s1: "sockopt_edit b (edit_map (fold drop_proxy_copy keys) g0) = Inr g1"
    and s2: "expert_header method hdr g1 = Inr g2" and s3: "expert_reality security inp g2 = Inr g3"
    and s4: "expert_tls security inp g3 = Inr g4" and s5: "expert_xhttp method inp g4 = Inr g5"
    and keys: "keys = expertActiveTransportKeys method (entries_of g0)"
  shows "k \<notin> transport_keys \<Longrightarrow> k \<notin> {''sockopt'', ''realitySettings'', ''tlsSettings''} \<Longrightarrow>
           fmlookup (entries_of g5) k = fmlookup (entries_of g0) k"
    and "k \<in> transport_keys \<Longrightarrow> k \<notin> set keys \<Longrightarrow> fmlookup (entries_of g5) k = fmlookup (entries_of g0) k"
    and "proxied (entries_of g5) ''sockopt'' = b"
    and "k \<in> set keys \<Longrightarrow> expertObject (entries_of g5) k =
           (if method = ''raw'' then (if snd hdr then fmupd ''header'' (JObj (fst hdr)) else fmdrop ''header'')
            else if method = ''xhttp'' then xhttp_object inp else id)
             (fmdrop ''acceptProxyProtocol'' (expertObject (entries_of g0) k))"
    and "method = ''xhttp'' \<Longrightarrow> expertXHTTPKey (entries_of g0) |\<in>| fmdom (entries_of g5)"
    and "security = ''reality'' \<Longrightarrow> expertObject (entries_of g5) ''realitySettings'' =
           reality_edit inp (expertObject (entries_of g0) ''realitySettings'')"
    and "security = ''tls'' \<Longrightarrow> \<exists>certs. parseExpertArray (x_TLSCertificatesJSON inp) ''TLS certificates'' = Inr certs \<and>
           expertObject (entries_of g5) ''tlsSettings'' = tls_edit inp certs (expertObject (entries_of g0) ''tlsSettings'')"
proof -
  let ?m0 = "entries_of g0" and ?m1 = "entries_of g1" and ?m5 = "entries_of g5"
  note copies = drop_copies_get [where keys = keys and m = ?m0]
  note g1 = sockopt_edit_get [OF s1, unfolded entries_drop_copies]
  note g2 = expert_header_get [OF s2] and g3 = expert_reality_get [OF s3] and g4 = expert_tls_get [OF s4]
    and g5 = expert_xhttp_get [OF s5]
  have dom1: "k |\<in>| fmdom ?m1 \<longleftrightarrow> k |\<in>| fmdom ?m0" if "k \<in> transport_keys" for k
    using that g1(1) [of k] copies(2) [of k] key_facts(4) by (metis fmdom_notD fmdom_notI)
  have rk: "expertRawKey ?m1 = expertRawKey ?m0"
    using dom1 by (simp add: raw_key_dom transport_keys_def)
  have late: "fmlookup (entries_of g4) k = fmlookup (entries_of g2) k" if "k \<in> transport_keys \<union> fixed_keys \<union> {''sockopt''}" for k
  proof -
    have "k \<noteq> ''realitySettings''" "k \<noteq> ''tlsSettings''" using that key_facts(5,6,9,10) by auto
    then show ?thesis using g3(1) [of k] g4(1) [of k] by simp
  qed
  have xk: "expertXHTTPKey (entries_of g4) = expertXHTTPKey ?m0" if "method = ''xhttp''"
  proof -
    have "k |\<in>| fmdom (entries_of g4) \<longleftrightarrow> k |\<in>| fmdom ?m0" if "k \<in> transport_keys" for k
      using that late [of k] g2(1) [of k] dom1 [of k] \<open>method = _\<close> by (auto simp: fmlookup_dom_iff)
    then show ?thesis by (simp add: xhttp_key_dom transport_keys_def)
  qed
  have k5: "fmlookup ?m5 k = fmlookup (entries_of g4) k" if "method = ''xhttp'' \<Longrightarrow> k \<noteq> expertXHTTPKey ?m0" for k
    using that g5(1) [of k] xk by auto
  have k2: "fmlookup (entries_of g2) k = fmlookup ?m1 k" if "method = ''raw'' \<Longrightarrow> k \<noteq> expertRawKey ?m0" for k
    using that g2(1) [of k] rk by auto
  have active: "method = ''raw'' \<Longrightarrow> keys = [expertRawKey ?m0]" "method = ''xhttp'' \<Longrightarrow> keys = [expertXHTTPKey ?m0]"
    "set keys \<subseteq> transport_keys"
    using keys key_facts(3) by (auto simp: expertActiveTransportKeys_def)
  show out: "fmlookup ?m5 k = fmlookup ?m0 k"
    if "k \<notin> transport_keys" "k \<notin> {''sockopt'', ''realitySettings'', ''tlsSettings''}" for k
  proof -
    have "k \<noteq> expertRawKey ?m0" "k \<noteq> expertXHTTPKey ?m0" "k \<notin> set keys"
      using that(1) key_facts(1,2) active(3) by auto
    then show ?thesis
      using that(2) k5 [of k] g4(1) [of k] g3(1) [of k] k2 [of k] g1(1) [of k] copies(1) [of k] by simp
  qed
  show "fmlookup ?m5 k = fmlookup ?m0 k" if "k \<in> transport_keys" "k \<notin> set keys" for k
  proof -
    have "method = ''raw'' \<Longrightarrow> k \<noteq> expertRawKey ?m0" "method = ''xhttp'' \<Longrightarrow> k \<noteq> expertXHTTPKey ?m0" "k \<noteq> ''sockopt''"
      using that active(1,2) key_facts(4) by auto
    then show ?thesis using that k5 [of k] late [of k] k2 [of k] g1(1) [of k] copies(1) [of k] by simp
  qed
  have "fmlookup ?m5 ''sockopt'' = fmlookup ?m1 ''sockopt''"
  proof -
    have "''sockopt'' \<noteq> expertRawKey ?m0" "''sockopt'' \<noteq> expertXHTTPKey ?m0"
      by (simp_all add: expertRawKey_def expertXHTTPKey_def)
    then show ?thesis using k5 [of "''sockopt''"] late [of "''sockopt''"] k2 [of "''sockopt''"] by simp
  qed
  from expertObject_cong [OF this] show "proxied ?m5 ''sockopt'' = b" using g1(2) by (simp add: proxied_def)
  show "expertObject ?m5 k =
           (if method = ''raw'' then (if snd hdr then fmupd ''header'' (JObj (fst hdr)) else fmdrop ''header'')
            else if method = ''xhttp'' then xhttp_object inp else id)
             (fmdrop ''acceptProxyProtocol'' (expertObject ?m0 k))" if k: "k \<in> set keys" for k
  proof -
    have t: "k \<in> transport_keys" using k active(3) by blast
    have o1: "expertObject ?m1 k = fmdrop ''acceptProxyProtocol'' (expertObject ?m0 k)"
      using expertObject_cong [OF g1(1) [of k]] copies(3) [of k] k t key_facts(4) by auto
    have o4: "expertObject (entries_of g4) k = expertObject (entries_of g2) k"
      using expertObject_cong [OF late] t by simp
    consider (raw) "method = ''raw''" | (xhttp) "method = ''xhttp''" | (other) "method \<noteq> ''raw''" "method \<noteq> ''xhttp''"
      by blast
    then show ?thesis
    proof cases
      case raw
      then have "k = expertRawKey ?m1" using k active(1) rk by simp
      then show ?thesis using raw g2(2) o1 o4 expertObject_cong [OF k5, of k] by auto
    next
      case xhttp
      then have key: "k = expertXHTTPKey (entries_of g4)" using k active(2) xk by simp
      have "expertObject (entries_of g2) k = expertObject ?m1 k" by (rule expertObject_cong, rule k2) (simp add: xhttp)
      then show ?thesis using xhttp g5(2) o1 o4 key by simp
    next
      case other
      have "expertObject (entries_of g2) k = expertObject ?m1 k" by (rule expertObject_cong, rule k2) (simp add: other)
      moreover have "expertObject ?m5 k = expertObject (entries_of g4) k" by (rule expertObject_cong, rule k5) (simp add: other)
      ultimately show ?thesis using other o1 o4 by simp
    qed
  qed
  show "expertXHTTPKey ?m0 |\<in>| fmdom ?m5" if "method = ''xhttp''"
    using s5 that xk [OF that] by (auto simp: expert_xhttp_def Let_def split: if_split_asm)
  have sec0: "fmlookup (entries_of g2) k = fmlookup ?m0 k" if "k \<in> {''realitySettings'', ''tlsSettings''}" for k
  proof -
    have "k \<notin> transport_keys" "k \<noteq> ''sockopt''" using that key_facts(5,6) by auto
    then have "k \<noteq> expertRawKey ?m0" "k \<notin> set keys" "k \<noteq> ''sockopt''" using key_facts(1) active(3) by auto
    then show ?thesis using k2 [of k] g1(1) [of k] copies(1) [of k] by simp
  qed
  have sec5: "fmlookup ?m5 k = fmlookup (entries_of g4) k" if "k \<in> {''realitySettings'', ''tlsSettings''}" for k
  proof -
    have "k \<noteq> expertXHTTPKey ?m0" using that by (auto simp: expertXHTTPKey_def)
    then show ?thesis using k5 [of k] by simp
  qed
  show "expertObject ?m5 ''realitySettings'' = reality_edit inp (expertObject ?m0 ''realitySettings'')"
    if "security = ''reality''"
  proof -
    have "expertObject (entries_of g4) ''realitySettings'' = expertObject (entries_of g3) ''realitySettings''"
      by (rule expertObject_cong, rule g4(1)) (simp add: that)
    then show ?thesis
      using g3(2) [OF that] expertObject_cong [OF sec5] expertObject_cong [OF sec0] by simp
  qed
  show "\<exists>certs. parseExpertArray (x_TLSCertificatesJSON inp) ''TLS certificates'' = Inr certs \<and>
           expertObject ?m5 ''tlsSettings'' = tls_edit inp certs (expertObject ?m0 ''tlsSettings'')"
    if "security = ''tls''"
  proof -
    have "expertObject (entries_of g3) ''tlsSettings'' = expertObject (entries_of g2) ''tlsSettings''"
      by (rule expertObject_cong, rule g3(1)) (simp add: that)
    then show ?thesis
      using g4(2) [OF that] expertObject_cong [OF sec5] expertObject_cong [OF sec0] by simp
  qed
qed


section \<open>The form shows what was entered\<close>

definition one_raw_key :: "Account \<Rightarrow> bool" where
  "one_raw_key a \<longleftrightarrow>
     (case expertMaps a of
        Inl e \<Rightarrow> True
      | Inr (settings, stream) \<Rightarrow>
          \<not> (''rawSettings'' |\<in>| fmdom (entries_of stream) \<and> ''tcpSettings'' |\<in>| fmdom (entries_of stream)))"

text \<open>The counts a \<open>float64\<close> holds exactly.\<close>

definition exact_counts :: "ExpertConfig \<Rightarrow> bool" where
  "exact_counts inp \<longleftrightarrow> uint (x_RealityMaxTimeDiff inp) \<le> 2 ^ 53 \<and> x_XHTTPScMaxBufferedPosts inp \<le> 2 ^ 53"

lemma expertMaps_marshal:
  "expertMaps (a\<lparr>a_SettingsJSON := marshal_map f, a_StreamSettingsJSON := marshal_map g, a_UpdatedAt := t\<rparr>) = Inr (f, g)"
proof -
  have "unmarshal_map (defaultAdvancedJSON (marshal_map h)) = Inr h" for h
    by (cases h) (simp_all add: defaultAdvancedJSON_def marshal_def)
  then show ?thesis by (simp add: expertMaps_def)
qed

lemma fixed_cong:
  assumes "\<And>k. k \<in> fixed_keys \<Longrightarrow> fmlookup m' k = fmlookup m k"
  shows "expertMethod m' p = expertMethod m p" "expertSecurity m' = expertSecurity m"
  using assms [of "''method''"] assms [of "''network''"] assms [of "''security''"]
  by (simp_all add: expertMethod_def expertSecurity_def mget_def fixed_keys_def)

lemma mget_xhttp_object: "mget (xhttp_object inp x) ''acceptProxyProtocol'' = mget x ''acceptProxyProtocol''"
  by (cases "mget x ''extra''") (simp_all add: xhttp_object_def xhttp_edit_def Let_def editor_simps)

lemma view_xhttp_drop: "view_xhttp ow (fmdrop ''acceptProxyProtocol'' x) out = view_xhttp ow x out"
  by (cases "mget x ''extra''") (simp_all add: view_xhttp_def)

lemma expert_edit_shows:
  assumes e: "expertEdit now inp a = Inr a'" and v: "0 \<le> x_XHTTPScMaxBufferedPosts inp"
    and c: "exact_counts inp" and one: "one_raw_key a"
  shows "\<exists>old. expertView ow a = Inr old \<and> expertView ow a' = Inr (shown inp old)"
proof -
  obtain f0 g0 where maps: "expertMaps a = Inr (f0, g0)"
    using e by (auto simp: expertEdit_def)
  define p where "p = to_lower (trim_space (a_Protocol a))"
  define m where "m = expertMethod (entries_of g0) p"
  define sec where "sec = expertSecurity (entries_of g0)"
  define keys where "keys = expertActiveTransportKeys m (entries_of g0)"
  obtain fs f hdr g1 g2 g3 g4 g5 where
    fs: "parseExpertArray (x_FallbacksJSON inp) ''fallbacks'' = Inr fs"
    and f: "expert_fallbacks p m sec fs f0 = Inr f"
    and hdr: "parseExpertObject (x_HTTPHeaderJSON inp) ''HTTP camouflage header'' = Inr hdr"
    and s: "sockopt_edit (x_AcceptProxyProtocol inp) (edit_map (fold drop_proxy_copy keys) g0) = Inr g1"
      "expert_header m hdr g1 = Inr g2" "expert_reality sec inp g2 = Inr g3" "expert_tls sec inp g3 = Inr g4"
      "expert_xhttp m inp g4 = Inr g5"
    and a': "a' = a\<lparr>a_SettingsJSON := marshal_map f, a_StreamSettingsJSON := marshal_map g5, a_UpdatedAt := now\<rparr>"
    using e unfolding expertEdit_def maps p_def [symmetric] keys_def m_def sec_def
    by (auto simp: Let_def p_def)
  let ?m0 = "entries_of g0" and ?m5 = "entries_of g5"
  note steps = expert_steps [OF s keys_def]
  have fixed: "fmlookup ?m5 k = fmlookup ?m0 k" if "k \<in> fixed_keys" for k
    using steps(1) [of k] that key_facts(7-10) by auto
  have m5: "expertMethod ?m5 p = m" and sec5: "expertSecurity ?m5 = sec"
    using fixed_cong [of ?m5 ?m0] fixed by (simp_all add: m_def sec_def)
  have raw: "expertObject ?m5 (expertRawKey ?m5) =
      (if snd hdr then fmupd ''header'' (JObj (fst hdr)) else fmdrop ''header'')
        (fmdrop ''acceptProxyProtocol'' (expertObject ?m0 (expertRawKey ?m0)))" if "m = ''raw''"
  proof -
    have keys: "keys = [expertRawKey ?m0]" using that by (simp add: keys_def expertActiveTransportKeys_def)
    have "k |\<in>| fmdom ?m5 \<longleftrightarrow> k |\<in>| fmdom ?m0"
      if "k = ''rawSettings'' \<or> k = ''tcpSettings''" "k \<noteq> expertRawKey ?m0" for k
    proof -
      have "k \<in> transport_keys" "k \<notin> set keys" using that keys by (auto simp: transport_keys_def)
      from fmdom_cong [OF steps(2) [OF this]] show ?thesis .
    qed
    then have "expertObject ?m5 (expertRawKey ?m5) = expertObject ?m5 (expertRawKey ?m0)"
      using one maps by (intro raw_key_after) (auto simp: one_raw_key_def)
    then show ?thesis using steps(4) [of "expertRawKey ?m0"] keys that by simp
  qed
  have xhttp: "expertObject ?m5 (expertXHTTPKey ?m5) =
      xhttp_object inp (fmdrop ''acceptProxyProtocol'' (expertObject ?m0 (expertXHTTPKey ?m0)))" if "m = ''xhttp''"
  proof -
    have keys: "keys = [expertXHTTPKey ?m0]" using that by (simp add: keys_def expertActiveTransportKeys_def)
    have other: "k |\<in>| fmdom ?m5 \<longleftrightarrow> k |\<in>| fmdom ?m0"
      if "k \<in> {''xhttpSettings'', ''splithttpSettings''}" "k \<noteq> expertXHTTPKey ?m0" for k
    proof -
      have "k \<in> transport_keys" "k \<notin> set keys" using that keys by (auto simp: transport_keys_def)
      from fmdom_cong [OF steps(2) [OF this]] show ?thesis .
    qed
    have "expertXHTTPKey ?m5 = expertXHTTPKey ?m0"
      using steps(5) [OF that] other [of "''xhttpSettings''"]
      by (simp add: xhttp_key_dom split: if_split_asm)
    then show ?thesis using steps(4) [of "expertXHTTPKey ?m0"] keys that by simp
  qed
  have accepts: "expert_accepts (expertActiveTransportKeys m ?m5) ?m5 = x_AcceptProxyProtocol inp"
  proof -
    have "\<not> proxied ?m5 k" if "k \<in> set keys" "m \<noteq> ''raw''" "m \<noteq> ''xhttp''" for k
      using steps(4) [OF that(1)] that(2,3) by (simp add: proxied_def expertBool_def)
    moreover have "\<not> proxied ?m5 (expertRawKey ?m5)" if "m = ''raw''"
      using raw [OF that] by (simp add: proxied_def expertBool_def)
    moreover have "\<not> proxied ?m5 (expertXHTTPKey ?m5)" if "m = ''xhttp''"
      using xhttp [OF that] by (simp add: proxied_def expertBool_def mget_xhttp_object)
    ultimately have "\<not> list_ex (proxied ?m5) (expertActiveTransportKeys m ?m5)"
      by (auto simp: expertActiveTransportKeys_def keys_def)
    then show ?thesis using steps(3) by (simp add: expert_accepts_proxied)
  qed
  have fallbacks: "text_of_member (entries_of f) ''fallbacks'' empty_array = Doc (JArr (array_of (x_FallbacksJSON inp)))"
    using expert_fallbacks_get(1) [OF f] parseExpertArray_Inr [OF fs] by simp
  have header: "(if m = ''raw'' then text_of_member (expertObject ?m5 (expertRawKey ?m5)) ''header'' Blank else Blank) =
      header_shown (x_HTTPHeaderJSON inp)"
    using raw parseExpertObject_Inr [OF hdr] expert_header_get(3) [OF s(2)]
    by (auto simp: text_of_member_def indentJSON_def)
  have common: "view_common p m sec (entries_of f) ?m5 = shown_common inp (view_common p m sec (entries_of f0) ?m0)"
    by (simp add: view_common_def shown_common_def accepts fallbacks header)
  have "expert_fields ow p (entries_of f) ?m5 = shown inp (expert_fields ow p (entries_of f0) ?m0)"
  proof -
    have commute: "shown_common inp (view_reality ow r v) = view_reality ow r (shown_common inp v)"
      "shown_common inp (view_tls r v) = view_tls r (shown_common inp v)"
      "shown_common inp (view_xhttp ow r v) = view_xhttp ow r (shown_common inp v)"
      "shown_reality inp (view_xhttp ow r v) = view_xhttp ow r (shown_reality inp v)"
      "shown_tls inp (view_xhttp ow r v) = view_xhttp ow r (shown_tls inp v)" for r v
      by (simp_all add: shown_common_def view_reality_def view_tls_def view_xhttp_def shown_reality_def
          shown_tls_def Let_def)
    have tls: "view_tls (expertObject ?m5 ''tlsSettings'') out = shown_tls inp (view_tls (expertObject ?m0 ''tlsSettings'') out)"
      if "sec = ''tls''" for out
      using steps(7) [OF that] parseExpertArray_Inr
      by (auto simp: view_tls_edit) (simp add: shown_tls_def)
    have supports: "x_SupportsReality (expert_fields ow p f m) = (expertSecurity m = ''reality'')"
      "x_SupportsTLS (expert_fields ow p f m) = (expertSecurity m = ''tls'')"
      "x_SupportsXHTTP (expert_fields ow p f m) = (expertMethod m p = ''xhttp'')" for f m
      by (simp_all add: expert_fields_def Let_def view_common_def view_reality_def view_tls_def view_xhttp_def)
    have posts: "0 \<le> x_XHTTPScMaxBufferedPosts inp" "x_XHTTPScMaxBufferedPosts inp < 2 ^ 63"
      using v c by (simp_all add: exact_counts_def)
    show ?thesis
      unfolding shown_def supports Let_def
      unfolding expert_fields_def Let_def m5 sec5 m_def [symmetric] sec_def [symmetric] common
      by (simp add: steps(6) view_reality_edit tls xhttp view_xhttp_edit [OF posts] view_xhttp_drop commute)
  qed
  then show ?thesis
    using maps expertMaps_marshal [where a = a and f = f and g = g5 and t = now] by (simp add: expertView_def a' p_def)
qed

section \<open>Editors of the documents of one account\<close>

text \<open>
  What both editors are to the service: a function that, when it succeeds, gives the account with its two
  documents and its time of change replaced, where only the members \<open>ks\<close> of the settings and \<open>kt\<close>
  of the stream settings can differ.
\<close>

definition edits_documents :: "int \<Rightarrow> string set \<Rightarrow> string set \<Rightarrow> Account \<Rightarrow> Account \<Rightarrow> bool" where
  "edits_documents now ks kt a a' \<longleftrightarrow>
     (\<exists>f g f' g'. expertMaps a = Inr (f, g) \<and>
        a' = a\<lparr>a_SettingsJSON := marshal_map f', a_StreamSettingsJSON := marshal_map g', a_UpdatedAt := now\<rparr> \<and>
        (\<forall>k. k \<notin> ks \<longrightarrow> fmlookup (entries_of f') k = fmlookup (entries_of f) k) \<and>
        (\<forall>k. k \<notin> kt \<longrightarrow> fmlookup (entries_of g') k = fmlookup (entries_of g) k))"

definition edited :: "int \<Rightarrow> string set \<Rightarrow> string set \<Rightarrow> int \<Rightarrow> Account list \<Rightarrow> Account list \<Rightarrow> bool" where
  "edited now ks kt i old nxt \<longleftrightarrow>
     (\<exists>n a'. indexID old i = Some n \<and> edits_documents now ks kt (old ! n) a' \<and> nxt = old[n := a'])"

lemma edits_documents_id: "edits_documents now ks kt a a' \<Longrightarrow> a_ID a' = a_ID a"
  "edits_documents now ks kt a a' \<Longrightarrow> now \<noteq> 0 \<Longrightarrow> identified a \<Longrightarrow> identified a'"
  by (auto simp: edits_documents_def identified_def)

lemma raw_found:
  assumes "db_inv db" "Accounts eng db = Inr as" "a \<in> set as"
  shows "raw eng db (a_ID a) = Inr a"
proof -
  have "distinct (map a_ID as)" using repo.load_ok [OF assms(1,2)] by (simp add: storable_def)
  obtain n where n: "indexID as (a_ID a) = Some n"
    using indexID_None [of as "a_ID a"] assms(3) by (cases "indexID as (a_ID a)") auto
  then have "n < length as" "a_ID (as ! n) = a_ID a" using indexID_nth by auto
  then have "as ! n = a" using \<open>distinct _\<close> assms(3) by (auto simp: distinct_map dest: inj_onD)
  then show ?thesis using n assms(2) by (simp add: raw_def)
qed

lemma outcome_reread:
  assumes "outcome eng w r w' P" and "\<And>old nxt. P old nxt \<Longrightarrow> \<exists>k. r = Inr k"
  shows "outcome eng w (fst (reread eng i view (r, w'))) w' P"
  using assms by (cases r) (auto simp: outcome_def reread_def reports_drift_def)

locale account_editor =
  fixes edit :: "Account \<Rightarrow> Account res" and now :: int and ks kt :: "string set"
  assumes edit_documents: "edit a = Inr a' \<Longrightarrow> edits_documents now ks kt a a'"
begin

lemma step_edited: "editStep edit i db old = Inr (nxt, u) \<Longrightarrow> edited now ks kt i old nxt"
  by (auto simp: editStep_def edited_def dest: edit_documents split: option.split_asm)

lemma step_identified: "now \<noteq> 0 \<Longrightarrow> keeps_identified (editStep edit i)"
  unfolding keeps_identified_def
proof (intro allI impI ballI)
  fix d old nxt k a
  assume now: "now \<noteq> 0" and s: "editStep edit i d old = Inr (nxt, k)"
    and old: "storable old \<and> (\<forall>a \<in> set old. identified a)" and a: "a \<in> set nxt"
  obtain n a' where n: "indexID old i = Some n" and e: "edits_documents now ks kt (old ! n) a'"
    and nxt: "nxt = old[n := a']"
    using step_edited [OF s] by (auto simp: edited_def)
  have "old ! n \<in> set old" using indexID_nth [OF n] by simp
  then have "identified a'" using edits_documents_id(2) [OF e now] old by blast
  with old a set_update_subset_insert [of old n a'] show "identified a" unfolding nxt by blast
qed

lemma update_outcome:
  assumes "reread (e_eng env) i view (changeDb env (Some (Apply answers)) (editStep edit i) w) = (r, w')"
    and st: "steady env answers w" and now: "now = e_now env"
  shows "outcome (e_eng env) w r w' (edited now ks kt i)"
proof -
  obtain r0 where c: "changeDb env (Some (Apply answers)) (editStep edit i) w = (r0, w')"
    and r: "r = fst (reread (e_eng env) i view (r0, w'))"
    using assms(1) by (cases "changeDb env (Some (Apply answers)) (editStep edit i) w")
      (auto simp: reread_def)
  have "now \<noteq> 0" using st now by (simp add: steady_def)
  from changeDb_outcome [OF c st step_identified [OF this]]
  have "outcome (e_eng env) w r w' (\<lambda>old nxt. \<exists>k. r0 = Inr k \<and> editStep edit i (fst w) old = Inr (nxt, k))"
    unfolding r by (rule outcome_reread) blast
  then show ?thesis by (rule outcome_mono) (use step_edited in blast)
qed

text \<open>After a success the account is read back as it was edited.\<close>

lemma update_stored:
  assumes c: "changeDb env (Some (Apply answers)) (editStep edit i) w = (Inr u, w')"
    and st: "steady env answers w" and now: "now = e_now env"
  shows "\<exists>a a'. raw (e_eng env) (fst w) i = Inr a \<and> edit a = Inr a' \<and> raw (e_eng env) (fst w') i = Inr a'"
proof -
  have "now \<noteq> 0" using st now by (simp add: steady_def)
  from changeDb_outcome [OF c st step_identified [OF this]]
  obtain old nxt where inv: "db_inv (fst w')" and old: "Accounts (e_eng env) (fst w) = Inr old"
    and s: "editStep edit i (fst w) old = Inr (nxt, u)"
    and new: "Accounts (e_eng env) (fst w') = Inr (sort_key a_ID nxt)"
    by (auto simp: outcome_def)
  obtain n a' where n: "indexID old i = Some n" and e: "edit (old ! n) = Inr a'" and nxt: "nxt = old[n := a']"
    using s by (auto simp: editStep_def split: option.split_asm)
  have nl: "n < length old" "a_ID (old ! n) = i" using indexID_nth [OF n] by simp_all
  have "a_ID a' = i" using edits_documents_id(1) [OF edit_documents [OF e]] nl(2) by simp
  moreover have "a' \<in> set (sort_key a_ID nxt)" using nl(1) by (simp add: nxt set_update_memI)
  ultimately have "raw (e_eng env) (fst w') i = Inr a'" using raw_found [OF inv new] by blast
  moreover have "raw (e_eng env) (fst w) i = Inr (old ! n)" using old n by (simp add: raw_def)
  ultimately show ?thesis using e by auto
qed

lemma update_stored_as:
  assumes "changeDb env (Some (Apply answers)) (editStep edit i) w = (Inr u, w')" "steady env answers w"
    "raw (e_eng env) (fst w) i = Inr a" "edit a = Inr a'" "now = e_now env"
  shows "raw (e_eng env) (fst w') i = Inr a'"
  using update_stored [OF assms(1,2,5)] assms(3,4) by auto

lemma update_reads_back:
  assumes "reread (e_eng env) i view (changeDb env (Some (Apply answers)) (editStep edit i) w) = (Inr v, w')"
    and "steady env answers w" and "now = e_now env"
  shows "\<exists>a a'. raw (e_eng env) (fst w) i = Inr a \<and> edit a = Inr a' \<and> raw (e_eng env) (fst w') i = Inr a' \<and>
           view a' = Inr v"
proof -
  obtain u where c: "changeDb env (Some (Apply answers)) (editStep edit i) w = (Inr u, w')"
    and v: "bindR (raw (e_eng env) (fst w') i) view = Inr v"
    using assms(1) by (cases "changeDb env (Some (Apply answers)) (editStep edit i) w")
      (auto simp: reread_def)
  from update_stored [OF c assms(2,3)] v show ?thesis by auto
qed

end

definition expert_stream_keys :: "string set" where
  "expert_stream_keys = transport_keys \<union> {''sockopt'', ''realitySettings'', ''tlsSettings''}"

definition advanced_stream_keys :: "string set" where
  "advanced_stream_keys = set advancedProxyTransportKeys \<union> {''sockopt''}"

interpretation expert: account_editor "expertEdit now inp" now "{''fallbacks''}" expert_stream_keys
  for now inp
proof
  fix a a' assume e: "expertEdit now inp a = Inr a'"
  obtain f0 g0 where maps: "expertMaps a = Inr (f0, g0)" using e by (auto simp: expertEdit_def)
  define p where "p = to_lower (trim_space (a_Protocol a))"
  define m where "m = expertMethod (entries_of g0) p"
  define sec where "sec = expertSecurity (entries_of g0)"
  obtain fs f hdr g1 g2 g3 g4 g5 where f: "expert_fallbacks p m sec fs f0 = Inr f"
    and s: "sockopt_edit (x_AcceptProxyProtocol inp)
        (edit_map (fold drop_proxy_copy (expertActiveTransportKeys m (entries_of g0))) g0) = Inr g1"
      "expert_header m hdr g1 = Inr g2" "expert_reality sec inp g2 = Inr g3" "expert_tls sec inp g3 = Inr g4"
      "expert_xhttp m inp g4 = Inr g5"
    and a': "a' = a\<lparr>a_SettingsJSON := marshal_map f, a_StreamSettingsJSON := marshal_map g5, a_UpdatedAt := now\<rparr>"
    using e unfolding expertEdit_def maps m_def sec_def by (auto simp: Let_def p_def)
  show "edits_documents now {''fallbacks''} expert_stream_keys a a'"
    unfolding edits_documents_def expert_stream_keys_def
    using maps a' expert_fallbacks_get(2) [OF f] expert_steps(1) [OF s refl] by blast
qed

interpretation advanced: account_editor "advancedEdit now inp" now "{''fallbacks''}" advanced_stream_keys
  for now inp
proof
  fix a a' assume e: "advancedEdit now inp a = Inr a'"
  obtain f0 g0 where maps: "expertMaps a = Inr (f0, g0)" using e by (auto simp: advancedEdit_def)
  obtain p n sec fs f hdr g1 g2 where f: "advanced_fallbacks p n sec fs f0 = Inr f"
    and s: "sockopt_edit (ac_AcceptProxyProtocol inp)
        (edit_map (fold drop_proxy_copy advancedProxyTransportKeys) g0) = Inr g1" "advanced_header n hdr g1 = Inr g2"
    and a': "a' = a\<lparr>a_SettingsJSON := marshal_map f, a_StreamSettingsJSON := marshal_map g2, a_UpdatedAt := now\<rparr>"
    using e unfolding advancedEdit_def maps by (auto simp: Let_def)
  have fk: "fmlookup (entries_of f) k = fmlookup (entries_of f0) k" if "k \<noteq> ''fallbacks''" for k
    using f that by (auto simp: advanced_fallbacks_def split: if_split_asm)
  have "advanced_header_key n m \<in> set advancedProxyTransportKeys" for m
    by (simp add: advanced_header_key_def advancedProxyTransportKeys_def)
  then have hk: "fmlookup (entries_of g2) k = fmlookup (entries_of g1) k" if "k \<notin> set advancedProxyTransportKeys" for k
    using s(2) that
    by (auto simp: advanced_header_def Let_def dest!: put_nonempty_entries split: if_split_asm)
  have "fmlookup (entries_of g2) k = fmlookup (entries_of g0) k" if "k \<notin> advanced_stream_keys" for k
    using that hk [of k] sockopt_edit_get(1) [OF s(1), of k] drop_copies_get(1) [of k advancedProxyTransportKeys "entries_of g0"]
    by (simp add: advanced_stream_keys_def entries_drop_copies)
  with maps a' fk show "edits_documents now {''fallbacks''} advanced_stream_keys a a'"
    unfolding edits_documents_def by blast
qed

section \<open>The guarantees\<close>

lemma UpdateExpert_cases:
  assumes "UpdateExpert ow env applier i ls inp w = (r, w')"
  shows "(\<exists>e. validateExpertConfig ls inp = Inl e \<and> r = Inl e \<and> w' = w) \<or>
         validateExpertConfig ls inp = Inr () \<and>
         reread (e_eng env) i (expertView ow) (changeDb env applier (editStep (expertEdit (e_now env) inp) i) w) = (r, w')"
  using assms by (auto simp: UpdateExpert_def split: sum.split_asm)

text \<open>(C6) Saving the expert form changes the settings and stream documents of the account with the id and
  nothing else of it, of the documents only the members the form knows, and no other account, in the
  database and in Xray; or it changes nothing, or the error says that the two have come apart.\<close>

theorem expert_update_outcome:
  assumes "UpdateExpert ow env (Some (Apply answers)) i ls inp w = (r, w')" and "steady env answers w"
  shows "outcome (e_eng env) w r w' (edited (e_now env) {''fallbacks''} expert_stream_keys i)"
  using UpdateExpert_cases [OF assms(1)]
proof
  assume "\<exists>e. validateExpertConfig ls inp = Inl e \<and> r = Inl e \<and> w' = w"
  then show ?thesis using assms(2) by (auto simp: outcome_def steady_def)
qed (use expert.update_outcome assms(2) in blast)

text \<open>(C5) A form that is saved shows afterwards what was entered: every field of the sections the account
  has is the trimmed input, an empty REALITY target, key or list leaves the stored value, the public
  key is the one of the private key, and the other sections stay as they were. Excluded are accounts
  that have both \<open>rawSettings\<close> and \<open>tcpSettings\<close>, where dropping an empty one uncovers the other, and
  counts beyond \<open>2 ^ 53\<close>, which a \<open>float64\<close> rounds.\<close>

theorem expert_update_shows:
  assumes "UpdateExpert ow env (Some (Apply answers)) i ls inp w = (Inr v, w')" and "steady env answers w"
    and "exact_counts inp" and "raw (e_eng env) (fst w) i = Inr a" and "one_raw_key a"
  shows "\<exists>old. ExpertOf ow (e_eng env) (fst w) i = Inr old \<and> v = shown inp old \<and>
               ExpertOf ow (e_eng env) (fst w') i = Inr v"
proof -
  have valid: "validateExpertConfig ls inp = Inr ()"
    and run: "reread (e_eng env) i (expertView ow) (changeDb env (Some (Apply answers))
                (editStep (expertEdit (e_now env) inp) i) w) = (Inr v, w')"
    using UpdateExpert_cases [OF assms(1)] by auto
  obtain a' where e: "expertEdit (e_now env) inp a = Inr a'" and a': "raw (e_eng env) (fst w') i = Inr a'"
    and v: "expertView ow a' = Inr v"
    using expert.update_reads_back [OF run assms(2) refl] assms(4) by auto
  have "0 \<le> x_XHTTPScMaxBufferedPosts inp" using valid by (simp add: validateExpertConfig_def)
  from expert_edit_shows [OF e this assms(3,5), of ow]
  show ?thesis using v a' assms(4) by (auto simp: ExpertOf_def)
qed

text \<open>The older editor changes only the fallbacks, the socket options and the transport members of the
  account with the id, under the same terms.\<close>

theorem advanced_update_outcome:
  assumes "UpdateAdvanced env (Some (Apply answers)) i inp w = (r, w')" and "steady env answers w"
  shows "outcome (e_eng env) w r w' (edited (e_now env) {''fallbacks''} advanced_stream_keys i)"
  using advanced.update_outcome [OF assms(1) [unfolded UpdateAdvanced_def] assms(2) refl] .

section \<open>Witnesses\<close>

definition sample_expert :: ExpertConfig where
  "sample_expert = zeroExpert\<lparr>x_AcceptProxyProtocol := True\<rparr>"

definition no_lengths :: Lengths where
  "no_lengths = \<lparr>len_Fallbacks = 0, len_HTTPHeader = 0, len_TLSCertificates = 0\<rparr>"

definition sample_advanced :: AdvancedConfig where
  "sample_advanced = \<lparr>ac_Protocol = [], ac_Network = [], ac_Security = [], ac_FallbacksJSON = Blank,
     ac_AcceptProxyProtocol = True, ac_HTTPHeaderJSON = Blank, ac_SupportsFallbacks = False, ac_SupportsHTTPHeader = False\<rparr>"

definition sample_outside :: Outside where
  "sample_outside = \<lparr>ow_print = (\<lambda>v. []), ow_huge = 0\<rparr>"

definition sample_stream :: object where
  "sample_stream = obj [(''network'', JStr ''ws''), (''security'', JStr ''none''),
         (''wsSettings'', JObj (obj [(''host'', JStr ''old.example'')])), (''extra'', JBool True)]"

lemma sample_reading:
  "expertMethod sample_stream ''trojan'' = ''websocket''" "expertSecurity sample_stream = ''none''"
  "to_lower (trim_space (a_Protocol sample_account)) = ''trojan''"
  "advancedNetwork ''trojan'' sample_stream = ''ws''"
  by code_simp+

lemma sample_maps: "\<exists>f. expertMaps sample_account = Inr (GoMap f, GoMap sample_stream)"
  by (simp add: expertMaps_def defaultAdvancedJSON_def sample_account_def sample_stream_def marshal_def)

lemma sample_expert_fields:
  "x_FallbacksJSON sample_expert = Blank" "x_HTTPHeaderJSON sample_expert = Blank"
  "x_AcceptProxyProtocol sample_expert" "exact_counts sample_expert"
  by (simp_all add: sample_expert_def zeroExpert_def exact_counts_def)

lemma sockopt_on: "\<exists>h. sockopt_edit True (GoMap m) = Inr (GoMap h)"
  by (simp add: sockopt_edit_def gput_def Let_def)

lemma blank_parses: "parseExpertArray Blank l = Inr []" "parseExpertObject Blank l = Inr (fmempty, False)"
  by (simp_all add: parseExpertArray_def parseExpertObject_def)

lemma websocket_none:
  "expert_header ''websocket'' (fmempty, False) g = Inr g" "expert_reality ''none'' inp g = Inr g"
  "expert_tls ''none'' inp g = Inr g" "expert_xhttp ''websocket'' inp g = Inr g"
  "expert_fallbacks p m sec [] g = Inr (gdrop ''fallbacks'' g)"
  "advanced_fallbacks p m sec [] g = Inr (gdrop ''fallbacks'' g)" "advanced_header ''ws'' (fmempty, False) g = Inr g"
  by (simp_all add: expert_header_def expert_reality_def expert_tls_def expert_xhttp_def expert_fallbacks_def
      advanced_fallbacks_def advanced_header_def)

lemma sample_expert_edit: "\<exists>a. expertEdit 9 sample_expert sample_account = Inr a"
proof -
  obtain f where maps: "expertMaps sample_account = Inr (GoMap f, GoMap sample_stream)" using sample_maps by blast
  obtain h where h: "sockopt_edit True (GoMap (fold drop_proxy_copy (expertActiveTransportKeys ''websocket'' sample_stream)
      sample_stream)) = Inr (GoMap h)"
    using sockopt_on by blast
  show ?thesis
    unfolding expertEdit_def maps Let_def
    by (simp add: sample_reading sample_expert_fields blank_parses websocket_none h)
qed

lemma sample_advanced_fields: "ac_FallbacksJSON sample_advanced = Blank" "ac_HTTPHeaderJSON sample_advanced = Blank"
  "ac_AcceptProxyProtocol sample_advanced"
  by (simp_all add: sample_advanced_def)

lemma sample_advanced_edit: "\<exists>a. advancedEdit 9 sample_advanced sample_account = Inr a"
proof -
  obtain f where maps: "expertMaps sample_account = Inr (GoMap f, GoMap sample_stream)" using sample_maps by blast
  obtain h where h: "sockopt_edit True (GoMap (fold drop_proxy_copy advancedProxyTransportKeys sample_stream)) = Inr (GoMap h)"
    using sockopt_on by blast
  show ?thesis
    unfolding advancedEdit_def maps Let_def parseFallbacks_def parseHTTPHeader_def
    by (simp add: sample_reading sample_advanced_fields blank_parses websocket_none h)
qed

lemma sample_expert_valid: "validateExpertConfig no_lengths sample_expert = Inr ()"
  by (simp add: validateExpertConfig_def no_lengths_def sample_expert_def zeroExpert_def expert_checks_def
      control_chars_def contains_any_def)

lemma marshal_map_valid: "json_valid (marshal_map g)"
  by (cases g) (simp_all add: json_valid_def marshal_def)

lemma sample_edited:
  assumes "edits_documents 9 ks kt sample_account a"
  shows "config_ok [a] 0" "storable [a]" "0 < a_ID a" "a_ID a = 3"
  using assms
  by (auto simp: edits_documents_def config_ok_def sample_account_def storable_def api_port_def inbound_ok_def
      marshal_map_valid default_sniffing_def marshal_def json_valid_def [of "Doc _"])

lemma sample_edit_run:
  assumes "edit sample_account = Inr a" "edits_documents 9 ks kt sample_account a"
  shows "\<exists>w'. changeDb calm (Some (Apply (\<lambda>n. benign))) (editStep edit 3) (serving [sample_account]) = (Inr (), w')"
proof -
  have "a_ID sample_account = 3" by (simp add: sample_account_def)
  then have step: "editStep edit 3 (fst (serving [sample_account])) [sample_account] = Inr ([a], ())"
    using assms(1) by (simp add: editStep_def)
  note ok = sample_edited [OF assms(2)]
  show ?thesis
    using calm_change [where as = "[sample_account]" and step = "editStep edit 3", OF step] ok by simp
qed

lemma sample_raw: "raw quiet (fst (serving [sample_account])) 3 = Inr sample_account"
  by (simp add: raw_def Accounts_def serving_def sample_account_def)

theorem expert_update_shows_witness:
  "\<exists>v w' old. UpdateExpert sample_outside calm (Some (Apply (\<lambda>n. benign))) 3 no_lengths sample_expert
       (serving [sample_account]) = (Inr v, w') \<and>
     ExpertOf sample_outside quiet (fst (serving [sample_account])) 3 = Inr old \<and>
     v = shown sample_expert old \<and> x_AcceptProxyProtocol v"
proof -
  obtain a where a: "expertEdit 9 sample_expert sample_account = Inr a" using sample_expert_edit by blast
  note docs = expert.edit_documents [OF a]
  obtain w' where w': "changeDb calm (Some (Apply (\<lambda>n. benign))) (editStep (expertEdit 9 sample_expert) 3)
      (serving [sample_account]) = (Inr (), w')"
    using sample_edit_run [where edit = "expertEdit 9 sample_expert", OF a docs] by blast
  have steady: "steady calm (\<lambda>n. benign) (serving [sample_account])" by (rule serving_steady [OF sample_served(1,2)]) simp
  have one: "one_raw_key sample_account"
    using sample_maps by (auto simp: one_raw_key_def sample_stream_def)
  have u: "raw (e_eng calm) (fst w') 3 = Inr a"
    by (rule expert.update_stored_as [OF w' steady _ a]) (simp_all add: sample_raw)
  have "0 \<le> x_XHTTPScMaxBufferedPosts sample_expert" by (simp add: sample_expert_def zeroExpert_def)
  from expert_edit_shows [OF a this sample_expert_fields(4) one]
  obtain v0 where v0: "expertView sample_outside a = Inr v0" by blast
  then have run: "UpdateExpert sample_outside calm (Some (Apply (\<lambda>n. benign))) 3 no_lengths sample_expert
       (serving [sample_account]) = (Inr v0, w')"
    using w' u v0 by (simp add: UpdateExpert_def sample_expert_valid reread_def)
  from expert_update_shows [OF run steady sample_expert_fields(4) _ one] sample_raw
  obtain old where "ExpertOf sample_outside quiet (fst (serving [sample_account])) 3 = Inr old" "v0 = shown sample_expert old"
    by auto
  with run sample_expert_fields(3) show ?thesis
    by (auto simp: shown_def shown_common_def shown_reality_def shown_tls_def shown_xhttp_def Let_def)
qed

theorem expert_update_outcome_witness:
  "\<exists>r w'. UpdateExpert sample_outside calm (Some (Apply (\<lambda>n. benign))) 3 no_lengths sample_expert
       (serving [sample_account]) = (r, w') \<and>
     outcome quiet (serving [sample_account]) r w' (edited 9 {''fallbacks''} expert_stream_keys 3)"
proof -
  obtain r w' where r: "UpdateExpert sample_outside calm (Some (Apply (\<lambda>n. benign))) 3 no_lengths sample_expert
      (serving [sample_account]) = (r, w')"
    by (cases "UpdateExpert sample_outside calm (Some (Apply (\<lambda>n. benign))) 3 no_lengths sample_expert
      (serving [sample_account])")
  from expert_update_outcome [OF r serving_steady [OF sample_served(1,2)]] r show ?thesis by simp
qed

theorem advanced_update_outcome_witness:
  "\<exists>r w'. UpdateAdvanced calm (Some (Apply (\<lambda>n. benign))) 3 sample_advanced (serving [sample_account]) = (r, w') \<and>
     outcome quiet (serving [sample_account]) r w' (edited 9 {''fallbacks''} advanced_stream_keys 3) \<and>
     fst w' \<noteq> fst (serving [sample_account])"
proof -
  obtain a where a: "advancedEdit 9 sample_advanced sample_account = Inr a" using sample_advanced_edit by blast
  note docs = advanced.edit_documents [OF a]
  obtain w' where w': "changeDb calm (Some (Apply (\<lambda>n. benign))) (editStep (advancedEdit 9 sample_advanced) 3)
      (serving [sample_account]) = (Inr (), w')"
    using sample_edit_run [where edit = "advancedEdit 9 sample_advanced", OF a docs] by blast
  have steady: "steady calm (\<lambda>n. benign) (serving [sample_account])" by (rule serving_steady [OF sample_served(1,2)]) simp
  obtain r where r: "UpdateAdvanced calm (Some (Apply (\<lambda>n. benign))) 3 sample_advanced (serving [sample_account]) = (r, w')"
    using w' by (simp add: UpdateAdvanced_def reread_def)
  have "raw (e_eng calm) (fst w') 3 = Inr a"
    by (rule advanced.update_stored_as [OF w' steady _ a]) (simp_all add: sample_raw)
  moreover have "a_UpdatedAt a = 9" using docs by (auto simp: edits_documents_def)
  ultimately have "fst w' \<noteq> fst (serving [sample_account])" using sample_raw by (auto simp: sample_account_def)
  with r advanced_update_outcome [OF r steady] show ?thesis by simp
qed

end
