(* ===== verification/PanelPromises.thy ===== *)
theory PanelPromises
  imports Panel SettingsPromises ExpertGuarantees
begin

text \<open>
  What the panel promises as a whole, over every route: strangers change nothing, reading requests read,
  and no sequence of requests and traffic rounds makes the tables or the limiters ill-formed. The first
  sections look at the table of routes, at the gate, and at what each handler touches.
\<close>


section \<open>The table of routes\<close>

text \<open>Only the login and the version probe stand outside the gate, and a \<open>GET\<close> never has a handler that
  changes something.\<close>

definition reading :: "endpoint \<Rightarrow> bool" where
  "reading e \<longleftrightarrow> e \<in> {ListAccountsE, GetE, SuggestPortE, AdvancedE, ExpertE, GlobalConfigE, SettingsE, VersionE} \<or>
     (\<exists>name. e = Other name)"

lemma routes_gated: "(meth, pat, e, gate) \<in> set routes \<Longrightarrow> gate \<or> (meth = ''POST'' \<and> e = LoginE) \<or> e = VersionE"
  by (auto simp: routes_def base_routes_def extra_routes_def ux_routes_def gatedO_def)

lemma routes_get: "(''GET'', pat, e, gate) \<in> set routes \<Longrightarrow> reading e"
  by (auto simp: routes_def base_routes_def extra_routes_def ux_routes_def gatedO_def reading_def)

lemma routes_no_head: "(''HEAD'', pat, e, gate) \<notin> set routes"
  by (auto simp: routes_def base_routes_def extra_routes_def ux_routes_def gatedO_def)

lemma route_of_in:
  assumes "route_of meth path = Some (vs, e, gate)"
  obtains m pat where "(m, pat, e, gate) \<in> set routes" "m = meth \<or> m = ''GET'' \<and> meth = ''HEAD''"
proof -
  let ?ms = "List.map_filter (match_route meth (split_on (CHR ''/'') path)) routes"
  have "(vs, e, gate) \<in> set (sort_key (\<lambda>x. length (fst x)) ?ms)"
    using assms by (cases "sort_key (\<lambda>x. length (fst x)) ?ms") (auto simp: route_of_def)
  then have "(vs, e, gate) \<in> set ?ms" by simp
  then obtain rt where "rt \<in> set routes" "match_route meth (split_on (CHR ''/'') path) rt = Some (vs, e, gate)"
    by (auto simp: List.map_filter_def)
  then show thesis using that by (auto simp: match_route_def split: prod.split_asm if_split_asm)
qed

lemma route_gated: "route_of meth path = Some (vs, e, False) \<Longrightarrow> (meth = ''POST'' \<and> e = LoginE) \<or> e = VersionE"
  by (erule route_of_in) (use routes_gated in fastforce)

lemma route_reading:
  assumes "route_of meth path = Some (vs, e, gate)" "meth = ''GET'' \<or> meth = ''HEAD''"
  shows "reading e"
  using assms(1)
proof (rule route_of_in)
  fix m pat assume r: "(m, pat, e, gate) \<in> set routes" "m = meth \<or> m = ''GET'' \<and> meth = ''HEAD''"
  have "m \<noteq> ''HEAD''" using r(1) routes_no_head by blast
  then have "m = ''GET''" using r(2) assms(2) by auto
  then show ?thesis using r(1) routes_get by blast
qed

section \<open>The gate\<close>

lemma behind_gate_spec:
  "behind_gate wo c h (p, rest) =
     (case fst (request_gate (wo_web wo) (ca_now c) (ca_req c) (au_sessions (pa_auth p))) of
        Some (code, e) \<Rightarrow>
          (Refused code e, with_sessions (snd (request_gate (wo_web wo) (ca_now c) (ca_req c) (au_sessions (pa_auth p)))) p, rest)
      | None \<Rightarrow> h (with_sessions (snd (request_gate (wo_web wo) (ca_now c) (ca_req c) (au_sessions (pa_auth p)))) p, rest))"
proof -
  have id: "with_sessions (au_sessions (pa_auth q)) q = q" for q by (simp add: with_sessions_def)
  show ?thesis
    by (auto simp: behind_gate_def require_spec Let_def id split: option.split prod.split)
qed

lemma with_sessions_simps [simp]:
  "pa_db (with_sessions ss p) = pa_db p" "pa_manager (with_sessions ss p) = pa_manager p"
  "au_sessions (pa_auth (with_sessions ss p)) = ss" "au_ip (pa_auth (with_sessions ss p)) = au_ip (pa_auth p)"
  "au_login (pa_auth (with_sessions ss p)) = au_login (pa_auth p)"
  by (simp_all add: with_sessions_def)

section \<open>What the handlers touch\<close>

lemmas handler_defs [simp] =
  listAccounts_def getAccount_def createAccount_def updateAccount_def deleteAccount_def cloneAccount_def resetTraffic_def setAccountEnabled_def suggestAccountPort_def getAccountAdvanced_def updateAccountAdvanced_def getAccountExpert_def updateAccountExpert_def getXrayGlobalConfig_def

lemma with_id_cases:
  assumes "with_id vs h s = out"
  obtains (bad) "out = (Refused 400 (ErrNew ''invalid account id''), s)" | (id) i where "out = h i s"
  using assms by (auto simp: with_id_def split: list.split_asm option.split_asm)

lemma reply_with_state [simp]: "snd (reply_with bad msg pack f s) = s"
  by (simp add: reply_with_def)

lemma with_id_state: "(\<And>i. snd (h i s) = s) \<Longrightarrow> snd (with_id vs h s) = s"
  by (rule with_id_cases [of vs h s "with_id vs h s"]) auto

lemma sessionUsername_sessions: "getSettings eng now r db ss = (a, ss') \<Longrightarrow> ss' = snd (sessionUsername now r ss)"
  by (auto simp: getSettings_def split: prod.split_asm option.split_asm)

text \<open>A handler that reads leaves everything but the expired session of the request.\<close>

lemma reading_state:
  assumes "reading e" "\<forall>name. e \<noteq> Other name" "handle wo other c vs e (p, rest) = (ans, p', rest')"
  shows "pa_db p' = pa_db p \<and> pa_manager p' = pa_manager p \<and> rest' = rest"
proof (cases "e = SettingsE")
  case True
  then show ?thesis using assms(3) by (auto simp: handle_settings_def Let_def split: prod.split_asm)
next
  case False
  have "snd (handle wo other c vs e (p, rest)) = (p, rest)"
    using assms(1,2) False by (auto simp: reading_def with_id_state)
  then show ?thesis using assms(3) by simp
qed

section \<open>Invariants of the state\<close>

definition panel_inv :: "Panel \<Rightarrow> bool" where
  "panel_inv p \<longleftrightarrow> db_inv (pa_db p) \<and> limiter_inv (au_ip (pa_auth p)) \<and> limiter_inv (au_login (pa_auth p))"

text \<open>A request as it reaches the panel: its clocks run, its address is known, and the orders in which the
  limiters and the settings are visited are complete.\<close>

definition sound_call :: "World \<Rightarrow> Call \<Rightarrow> Panel \<Rightarrow> bool" where
  "sound_call wo c p \<longleftrightarrow>
     0 < e_now (ca_env c) \<and> remoteIP (wo_web wo) (ca_req c) \<noteq> [] \<and>
     0 < mo_fail_key (ca_moment c) \<and> 0 < mo_fail_ip (ca_moment c) \<and>
     (\<forall>i l. visits_all (mo_order_key (ca_moment c)) (snd (Allowed i l (au_login (pa_auth p))))) \<and>
     (\<forall>i l. visits_all (mo_order_ip (ca_moment c)) (snd (Allowed i l (au_ip (pa_auth p))))) \<and>
     (\<forall>i. set (me_order (ca_meeting c)) = fmdom' (settings_values i))"

lemma login_limits:
  assumes "login w eng db mo r body au = (a, au')" "limiter_inv (au_ip au)" "limiter_inv (au_login au)"
    and "remoteIP w r \<noteq> []" "0 < mo_fail_key mo" "0 < mo_fail_ip mo"
    and "\<forall>i l. visits_all (mo_order_key mo) (snd (Allowed i l (au_login au)))"
      "\<forall>i l. visits_all (mo_order_ip mo) (snd (Allowed i l (au_ip au)))"
  shows "limiter_inv (au_ip au') \<and> limiter_inv (au_login au')"
proof (cases body)
  case None
  then show ?thesis using assms(1-3) by (simp add: login_def with_body_def)
next
  case (Some b)
  obtain user password where b: "b = (user, password)" by (cases b)
  let ?ip = "remoteIP w r" and ?key = "loginRateKey (remoteIP w r) (trim_space user)"
  let ?g = "login_gate mo ?ip ?key au"
  note a = Allowed_inv [OF assms(2), of "mo_ip mo" ?ip] Allowed_inv [OF assms(3), of "mo_key mo" ?key]
  have inv: "limiter_inv (au_ip (snd ?g))" "limiter_inv (au_login (snd ?g))"
    using assms(2,3) a by (auto simp: login_gate_def Let_def split: prod.split)
  have eq: "fst ?g \<Longrightarrow> au_login (snd ?g) = snd (Allowed (mo_key mo) ?key (au_login au))"
    by (auto simp: login_gate_def Let_def split: prod.split_asm prod.split if_split_asm)
  from assms(1) [unfolded Some b] show ?thesis
  proof (cases rule: login_cases)
    case refused
    then show ?thesis using inv by (simp only:)
  next
    case wrong
    have "limiter_inv (Fail (mo_order_key mo) (mo_fail_key mo) ?key (au_login (snd ?g)))"
      using inv(2) assms(5,7) eq [OF wrong(2)] loginRateKey_nonempty by (intro Fail_inv) auto
    moreover have "limiter_inv (Fail (mo_order_ip mo) (mo_fail_ip mo) ?ip (au_ip (snd ?g)))"
      using inv(1) assms(4,6,8) by (intro Fail_inv) (auto simp: login_gate_ip)
    ultimately show ?thesis using wrong(4) by (simp add: login_failed_def)
  next
    case (accepted admin a2 q ss)
    show ?thesis using Success_inv [OF inv(1)] Success_inv [OF inv(2)] accepted(3,5) by simp
  qed
qed

lemma change_with_cases:
  assumes "change_with code pack f (p, rest) = (a, p', rest')"
  obtains q d m where "f (pa_db p, pa_manager p) = (q, d, m)" "p' = p\<lparr>pa_db := d, pa_manager := m\<rparr>" "rest' = rest"
  using assms by (cases "f (pa_db p, pa_manager p)") (auto simp: change_with_def)

lemma change_with_inv:
  assumes "change_with code pack f (p, rest) = (a, p', rest')" "panel_inv p"
    and "\<And>w. db_inv (fst w) \<Longrightarrow> db_inv (fst (snd (f w)))"
  shows "panel_inv p'"
  using assms(1)
proof (rule change_with_cases)
  fix q d m assume f: "f (pa_db p, pa_manager p) = (q, d, m)" and p': "p' = p\<lparr>pa_db := d, pa_manager := m\<rparr>"
  have "db_inv d" using assms(2) assms(3) [of "(pa_db p, pa_manager p)"] f by (simp add: panel_inv_def)
  then show ?thesis using assms(2) p' by (simp add: panel_inv_def)
qed

text \<open>The operations of the service, each keeping the tables.\<close>

lemma changeDb_good:
  assumes "0 < e_now env" "db_inv (fst w)"
  shows "db_inv (fst (snd (changeDb env applier step w)))"
proof -
  obtain n where "e_now env = int n + 1" using now_nat [OF assms(1)] by blast
  then show ?thesis using svc.change_good [OF assms(2), of "e_eng env" n applier step] by simp
qed

lemma persistDb_good:
  assumes "0 < e_now env" "db_inv (fst w)"
  shows "db_inv (fst (snd (persistDb env applier cur nxt cc w)))"
proof -
  obtain n where "e_now env = int n + 1" using now_nat [OF assms(1)] by blast
  then show ?thesis using svc.runtime_good [OF assms(2), of "e_eng env" n applier cur nxt cc] by simp
qed

lemma reread_state [simp]: "snd (savedView eng rw) = snd rw" "snd (reread eng i v rw2) = snd rw2"
  by (simp_all add: savedView_def reread_def)

lemma service_good:
  assumes "0 < e_now env" "db_inv (fst w)"
  shows "db_inv (fst (snd (CreateAccount env applier inp w)))"
    "db_inv (fst (snd (UpdateAccount env applier i inp w)))"
    "db_inv (fst (snd (DeleteAccount env applier i w)))"
    "db_inv (fst (snd (CloneAccount env applier i name port w)))"
    "db_inv (fst (snd (UpdateAdvanced env applier i ainp w)))"
    "db_inv (fst (snd (UpdateExpert ow env applier i ls einp w)))"
    "db_inv (fst (snd (ResetAccountTraffic env applier i w)))"
    "db_inv (fst (snd (SetEnabled env applier i on w)))"
proof -
  show "db_inv (fst (snd (CreateAccount env applier inp w)))" "db_inv (fst (snd (UpdateAccount env applier i inp w)))"
    "db_inv (fst (snd (DeleteAccount env applier i w)))" "db_inv (fst (snd (CloneAccount env applier i name port w)))"
    "db_inv (fst (snd (UpdateAdvanced env applier i ainp w)))"
    by (simp_all add: CreateAccount_def UpdateAccount_def DeleteAccount_def CloneAccount_def UpdateAdvanced_def
        changeDb_good [OF assms])
  show "db_inv (fst (snd (UpdateExpert ow env applier i ls einp w)))"
    using assms(2) by (simp add: UpdateExpert_def changeDb_good [OF assms] split: sum.split)
  show "db_inv (fst (snd (ResetAccountTraffic env applier i w)))"
    using assms(2) persistDb_good [OF assms]
    by (simp add: ResetAccountTraffic_def Let_def split: sum.split option.split prod.split)
  have p: "db_inv (fst w')" if "persistDb env applier cur nxt cc w = (q, w')" for cur nxt cc q w'
    using persistDb_good [OF assms, of applier cur nxt cc] that by simp
  show "db_inv (fst (snd (SetEnabled env applier i on w)))"
    using assms(2) p by (auto simp: SetEnabled_def split: sum.split option.split prod.split)
qed

lemma global_config_good: "db_inv (fst w) \<Longrightarrow> db_inv (fst (snd (UpdateGlobalXrayConfig c eng (Some install) order text w)))"
proof -
  assume inv: "db_inv (fst w)"
  obtain r d x where u: "UpdateGlobalXrayConfig c eng (Some install) order text (fst w, snd w) = (r, d, x)"
    by (metis surj_pair)
  have "db_inv d"
    using u
  proof (cases rule: UpdateGlobal_cases)
    case (saved old merged normalized accounts)
    then show ?thesis using inv by (simp add: db_inv_def settings_ok_def global_key_def)
  qed (use inv in simp_all)
  then show ?thesis using u by simp
qed

lemma settings_good:
  assumes "updateSettings w install me eng r body (ss, db, m) = (a, ss', db', m')" "db_inv db"
    and "\<forall>i. set (me_order me) = fmdom' (settings_values i)"
  shows "db_inv db'"
proof (cases body)
  case None
  then show ?thesis using assms(1,2) by (simp add: updateSettings_def with_body_def)
next
  case (Some inp)
  from assms(1) [unfolded Some] show ?thesis
  proof (cases rule: updateSettings_cases)
    case (stored user as hash renewed m1)
    from stored(6) show ?thesis
    proof (cases rule: store_settings_cases)
      case (saved q u)
      have "set (me_order me) = fmdom' (settings_values (trimmed_settings inp))" using assms(3) by blast
      from ApplySettings_inv [OF assms(2) this, of eng "me_saved me" user "si_AdminUsername (trimmed_settings inp)" hash]
      show ?thesis using saved(1) by simp
    qed (use assms(2) in simp)
  qed (use assms(2) in simp_all)
qed

lemma traffic_good:
  assumes "0 < e_now env" "db_inv (fst w)"
  shows "db_inv (fst (snd (ApplyTraffic env applier stats order now mk w)))"
proof -
  have d: "db_inv d" if "AddTrafficBatch (e_eng env) (e_now env) xs (fst w) = (q, d)" for xs q d
    using AddTrafficBatch_inv [OF assms(2), of "e_now env" "e_eng env" xs] that assms(1) by simp
  have p: "db_inv (fst (snd (persistDb env applier cur nxt cc (d, x))))" if "db_inv d" for cur nxt cc d x
    using persistDb_good [OF assms(1), of "(d, x)" applier cur nxt cc] that by simp
  show ?thesis using d p by (auto simp: ApplyTraffic_def Let_def split: sum.split prod.split)
qed

section \<open>One request keeps the state well-formed\<close>

lemma settings_inv:
  assumes "handle_update_settings wo c (p, rest) = (a, p', rest')" "panel_inv p" "sound_call wo c p"
  shows "panel_inv p'"
proof -
  obtain q ss d m where u: "updateSettings (wo_web wo) (ApplyWithAPIPort (wo_xray wo)) (ca_meeting c) (e_eng (ca_env c))
      (ca_req c) (case ca_body c of BSettings i \<Rightarrow> Some i | _ \<Rightarrow> None)
      (au_sessions (pa_auth p), pa_db p, Some (pa_manager p)) = (q, ss, d, m)"
    by (metis surj_pair)
  have "db_inv d"
    by (rule settings_good [OF u]) (use assms(2,3) in \<open>simp_all add: panel_inv_def sound_call_def\<close>)
  then show ?thesis using assms(1,2) u by (auto simp: handle_update_settings_def Let_def panel_inv_def)
qed

lemma with_id_inv:
  assumes "with_id vs h (p, rest) = (a, p', rest')" "panel_inv p"
    and "\<And>i. h i (p, rest) = (a, p', rest') \<Longrightarrow> panel_inv p'"
  shows "panel_inv p'"
  using assms(1) by (rule with_id_cases) (use assms(2,3) in auto)

lemma body_inv:
  assumes "panel_inv p" shows "bad_request (p, rest) = (a, p', rest') \<Longrightarrow> panel_inv p'"
  using assms by (simp add: bad_request_def)

lemma handle_inv:
  assumes "handle wo other c vs e (p, rest) = (a, p', rest')" "panel_inv p" "sound_call wo c p" "\<forall>name. e \<noteq> Other name"
  shows "panel_inv p'"
proof (cases "reading e")
  case True
  show ?thesis
  proof (cases "e = SettingsE")
    case True
    then show ?thesis using assms(1,2) by (auto simp: handle_settings_def Let_def panel_inv_def split: prod.split_asm)
  next
    case False
    have "snd (handle wo other c vs e (p, rest)) = (p, rest)"
      using True False assms(4) by (auto simp: reading_def with_id_state)
    then show ?thesis using assms(1,2) by simp
  qed
next
  case False
  have now: "0 < e_now (ca_env c)" using assms(3) by (simp add: sound_call_def)
  note ch = change_with_inv [OF _ assms(2)] and good = service_good [OF now]
  note kept = ch [OF _ good(1)] ch [OF _ good(2)] ch [OF _ good(3)] ch [OF _ good(4)] ch [OF _ good(5)] ch [OF _ good(6)]
    ch [OF _ good(7)] ch [OF _ good(8)] ch [OF _ global_config_good] body_inv [OF assms(2)]
  note by_id = with_id_inv [OF _ assms(2)]
  show ?thesis
  proof (cases e)
    case LoginE
    obtain q au where l: "login (wo_web wo) (e_eng (ca_env c)) (pa_db p) (ca_moment c) (ca_req c)
        (case ca_body c of BLogin b \<Rightarrow> Some b | _ \<Rightarrow> None) (pa_auth p) = (q, au)" by fastforce
    have "limiter_inv (au_ip au) \<and> limiter_inv (au_login au)"
      by (rule login_limits [OF l]) (use assms(2,3) in \<open>simp_all add: panel_inv_def sound_call_def\<close>)
    then show ?thesis using assms(1,2) l LoginE by (auto simp: handle_login_def Let_def panel_inv_def)
  next
    case LogoutE
    then show ?thesis using assms(1,2) by (auto simp: handle_logout_def logout_def Let_def panel_inv_def split: option.split_asm)
  next
    case UpdateGlobalConfigE
    then show ?thesis using assms(1) assms(2)
      by (auto simp: handle_global_config_def split: Body.split_asm if_split_asm dest: kept)
  next
    case UpdateSettingsE
    then show ?thesis using assms(1) settings_inv [OF _ assms(2,3)] by simp
  qed (use assms False in \<open>auto simp: reading_def split: Body.split_asm elim!: by_id dest: kept\<close>)
qed

section \<open>One request\<close>

text \<open>The path a request is served under, once the base path is off; and what answers it there.\<close>

definition served_path :: "World \<Rightarrow> Req \<Rightarrow> string option" where
  "served_path wo r =
     (case wo_base wo of
        None \<Rightarrow> Some (rq_path r)
      | Some base \<Rightarrow> (case MountBasePath base (rq_path r) of Redirect to \<Rightarrow> None | Serve path \<Rightarrow> Some path))"

definition endpoint_of :: "World \<Rightarrow> Req \<Rightarrow> endpoint option" where
  "endpoint_of wo r = Option.bind (served_path wo r) (\<lambda>path. map_option (\<lambda>(vs, e, gate). e) (route_of (rq_method r) path))"

lemma route_path_cases:
  assumes "route_path wo other c path (p, rest) = (ans, p', rest')"
  obtains
    (behind) vs e where "route_of (rq_method (ca_req c)) path = Some (vs, e, True)"
      "behind_gate wo c (handle wo other c vs e) (p, rest) = (ans, p', rest')"
  | (entry) vs where "route_of (rq_method (ca_req c)) path = Some (vs, LoginE, False)"
      "handle_login wo c (p, rest) = (ans, p', rest')" "rq_method (ca_req c) = ''POST''"
  | (asis) "p' = p" "rest' = rest" "\<And>code v. ans = Answered code v \<Longrightarrow> v \<in> {PVersion, PStatic}"
proof -
  consider (unclean) "rq_method (ca_req c) \<noteq> ''CONNECT''" "\<not> clean_path path"
    | (none) "route_of (rq_method (ca_req c)) path = None"
    | (found) vs e gate where "\<not> (rq_method (ca_req c) \<noteq> ''CONNECT'' \<and> \<not> clean_path path)"
        "route_of (rq_method (ca_req c)) path = Some (vs, e, gate)"
    by fastforce
  then show thesis
  proof cases
    case unclean
    then show thesis using assms by (intro asis) (auto simp: route_path_def)
  next
    case none
    then show thesis using assms by (intro asis) (auto simp: route_path_def Let_def split: if_split_asm)
  next
    case (found vs e gate)
    show thesis
    proof (cases gate)
      case True
      then show thesis using assms found by (intro behind) (auto simp: route_path_def)
    next
      case False
      then consider "rq_method (ca_req c) = ''POST''" "e = LoginE" | "e = VersionE"
        using route_gated [of "rq_method (ca_req c)" path vs e] found(2) by auto
      then show thesis
      proof cases
        case 1
        then show thesis using assms found False by (intro entry) (auto simp: route_path_def)
      next
        case 2
        then show thesis using assms found False by (intro asis) (auto simp: route_path_def)
      qed
    qed
  qed
qed

lemma serve_cases:
  assumes "serve wo other c (p, rest) = (ans, p', rest')"
  obtains
    (gated) path vs e where "route_of (rq_method (ca_req c)) path = Some (vs, e, True)" "endpoint_of wo (ca_req c) = Some e"
      "behind_gate wo c (handle wo other c vs e) (p, rest) = (ans, p', rest')"
  | (login) "handle_login wo c (p, rest) = (ans, p', rest')" "endpoint_of wo (ca_req c) = Some LoginE" "rq_method (ca_req c) = ''POST''"
  | (plain) "p' = p" "rest' = rest" "\<And>code v. ans = Answered code v \<Longrightarrow> v \<in> {PVersion, PStatic}"
proof -
  have route: thesis
    if r: "route_path wo other c path (p, rest) = (ans, p', rest')" and at: "served_path wo (ca_req c) = Some path" for path
    using r
  proof (cases rule: route_path_cases)
    case behind
    then show thesis using at by (intro gated) (auto simp: endpoint_of_def)
  next
    case entry
    then show thesis using at by (intro login) (auto simp: endpoint_of_def)
  qed (rule plain)
  show thesis
  proof (cases "wo_base wo")
    case None
    then show thesis using assms route by (simp add: serve_def served_path_def)
  next
    case (Some base)
    show thesis
    proof (cases "MountBasePath base (rq_path (ca_req c))")
      case (Redirect to)
      then show thesis using assms Some by (intro plain) (auto simp: serve_def)
    next
      case (Serve path)
      then show thesis using assms Some route by (simp add: serve_def served_path_def)
    qed
  qed
qed

section \<open>Properties\<close>

text \<open>(C11) Nothing is done for a stranger: a request that does not pass the gate (no session, an expired
  one, or a change from another origin) leaves the database, the Xray manager and everything else the
  program has as they were, on every route and whatever the handlers would do. It is a login, whose
  outcome is that of \<open>login\<close>; or the sessions and limits stay too and at most the version or a static
  file is answered.\<close>

theorem strangers_change_nothing:
  assumes "serve wo other c (p, rest) = (ans, p', rest')"
    and "fst (request_gate (wo_web wo) (ca_now c) (ca_req c) (au_sessions (pa_auth p))) \<noteq> None"
  shows "pa_db p' = pa_db p \<and> pa_manager p' = pa_manager p \<and> rest' = rest \<and>
    ((\<exists>a body. login (wo_web wo) (e_eng (ca_env c)) (pa_db p) (ca_moment c) (ca_req c) body (pa_auth p) = (a, pa_auth p') \<and>
        ans = answer_map PToken a \<and> endpoint_of wo (ca_req c) = Some LoginE) \<or>
     (\<forall>t tok. ca_now c \<le> t \<longrightarrow> holder (au_sessions (pa_auth p')) t tok = holder (au_sessions (pa_auth p)) t tok) \<and>
     au_ip (pa_auth p') = au_ip (pa_auth p) \<and> au_login (pa_auth p') = au_login (pa_auth p) \<and>
     (\<forall>code v. ans = Answered code v \<longrightarrow> v \<in> {PVersion, PStatic}))"
  using assms(1)
proof (cases rule: serve_cases)
  case (gated path vs e)
  obtain code err where g: "fst (request_gate (wo_web wo) (ca_now c) (ca_req c) (au_sessions (pa_auth p))) = Some (code, err)"
    using assms(2) by auto
  show ?thesis using gated(3) by (auto simp: behind_gate_spec g request_gate_sessions)
next
  case login
  obtain a au where l: "login (wo_web wo) (e_eng (ca_env c)) (pa_db p) (ca_moment c) (ca_req c)
      (case ca_body c of BLogin b \<Rightarrow> Some b | _ \<Rightarrow> None) (pa_auth p) = (a, au)" by fastforce
  then have "ans = answer_map PToken a" "p' = p\<lparr>pa_auth := au\<rparr>" "rest' = rest"
    using login(1) by (auto simp: handle_login_def Let_def)
  then show ?thesis using l login(2) by auto
qed simp_all

text \<open>(C12) Reading is reading: a \<open>GET\<close> or \<open>HEAD\<close> request, which the gate lets pass without looking at its
  origin, changes neither the database nor the Xray manager nor anything else, on every route whose
  handler is modelled.\<close>

theorem safe_requests_read:
  assumes "serve wo other c (p, rest) = (ans, p', rest')" and "safe_method (ca_req c)"
  shows "pa_db p' = pa_db p \<and> pa_manager p' = pa_manager p \<and> rest' = rest \<or>
    (\<exists>name. endpoint_of wo (ca_req c) = Some (Other name))"
  using assms(1)
proof (cases rule: serve_cases)
  case (gated path vs e)
  have e: "reading e" using route_reading [OF gated(1)] assms(2) by (simp add: safe_method_def)
  show ?thesis
  proof (cases "\<exists>name. e = Other name")
    case True
    then show ?thesis using gated(2) by blast
  next
    case False
    then have "pa_db p' = pa_db p \<and> pa_manager p' = pa_manager p \<and> rest' = rest"
      using gated(3) reading_state [OF e] by (auto simp: behind_gate_spec split: option.split_asm) fastforce+
    then show ?thesis by blast
  qed
next
  case login
  then show ?thesis using assms(2) by (simp add: safe_method_def)
qed simp

section \<open>Every state the panel reaches\<close>

text \<open>Requests one after the other, and rounds of the traffic loop between them.\<close>

inductive panel_run ::
    "World \<Rightarrow> (string \<Rightarrow> Call \<Rightarrow> 'o handler) \<Rightarrow> Panel \<times> 'o \<Rightarrow> Panel \<times> 'o \<Rightarrow> bool" for wo other s0 where
  Begin: "panel_run wo other s0 s0"
| Request: "panel_run wo other s0 s \<Longrightarrow> sound_call wo c (fst s) \<Longrightarrow> serve wo other c s = (ans, s') \<Longrightarrow>
    panel_run wo other s0 s'"
| Traffic: "panel_run wo other s0 (p, rest) \<Longrightarrow> 0 < e_now env \<Longrightarrow>
    ApplyTraffic env (Some (Apply (wo_xray wo))) stats order now mk (pa_db p, pa_manager p) = (q, d, m) \<Longrightarrow>
    panel_run wo other s0 (p\<lparr>pa_db := d, pa_manager := m\<rparr>, rest)"

lemma with_sessions_inv [simp]: "panel_inv (with_sessions ss p) = panel_inv p"
  by (simp add: panel_inv_def)

lemma sound_call_sessions [simp]: "sound_call wo c (with_sessions ss p) = sound_call wo c p"
  by (simp add: sound_call_def)

lemma serve_inv:
  assumes "serve wo other c (p, rest) = (ans, p', rest')" "panel_inv p" "sound_call wo c p"
    and "\<And>name q r. panel_inv q \<Longrightarrow> panel_inv (fst (snd (other name c (q, r))))"
  shows "panel_inv p'"
  using assms(1)
proof (cases rule: serve_cases)
  case (gated path vs e)
  let ?g = "request_gate (wo_web wo) (ca_now c) (ca_req c) (au_sessions (pa_auth p))"
  let ?p = "with_sessions (snd ?g) p"
  show ?thesis
  proof (cases "fst ?g")
    case None
    then have h: "handle wo other c vs e (?p, rest) = (ans, p', rest')"
      using gated(3) by (simp add: behind_gate_spec)
    show ?thesis
    proof (cases "\<exists>name. e = Other name")
      case True
      then obtain name where "other name c (?p, rest) = (ans, p', rest')" using h by auto
      then show ?thesis using assms(4) [of ?p name rest] assms(2) by simp
    next
      case False
      then show ?thesis using handle_inv [OF h] assms(2,3) by simp
    qed
  next
    case (Some ce)
    then show ?thesis using gated(3) assms(2) by (auto simp: behind_gate_spec split: prod.split_asm)
  qed
next
  case login
  then show ?thesis using handle_inv [of wo other c "[]" LoginE] assms(2,3) by simp
qed (use assms(2) in simp)

text \<open>(C13) Whatever requests come, in whatever order and with whatever faults of the database and of Xray,
  and whatever the traffic loop does between them: the tables stay well-formed and the two limiters stay
  within their capacities, as long as the handlers that are not modelled keep this too.\<close>

theorem panel_stays_sound:
  assumes "panel_run wo other (p0, rest0) s" and "panel_inv p0"
    and "\<forall>name c q r. panel_inv q \<longrightarrow> panel_inv (fst (snd (other name c (q, r))))"
  shows "db_inv (pa_db (fst s)) \<and>
    int (fmcount (entries (au_ip (pa_auth (fst s))))) \<le> capacity (au_ip (pa_auth (fst s))) \<and>
    int (fmcount (entries (au_login (pa_auth (fst s))))) \<le> capacity (au_login (pa_auth (fst s)))"
proof -
  from assms(1) have "panel_inv (fst s)"
  proof (induction rule: panel_run.induct)
    case Begin
    then show ?case using assms(2) by simp
  next
    case (Request s c ans s')
    obtain p rest where s: "s = (p, rest)" by (cases s)
    obtain p' rest' where s': "s' = (p', rest')" by (cases s')
    show ?case using serve_inv [OF Request.hyps(3) [unfolded s s']] Request s s' assms(3) by simp
  next
    case (Traffic p rest env stats order now mk q d m)
    have "db_inv d"
      using traffic_good [OF Traffic.hyps(2), of "(pa_db p, pa_manager p)" "Some (Apply (wo_xray wo))" stats order now mk]
        Traffic.hyps(3) Traffic.IH by (simp add: panel_inv_def)
    then show ?case using Traffic.IH by (simp add: panel_inv_def)
  qed
  then show ?thesis by (simp add: panel_inv_def limiter_inv_def)
qed

section \<open>The properties on sample requests\<close>

definition sample_world :: World where
  "sample_world = \<lparr>wo_web = sample_web, wo_base = Some ''/x/'', wo_xray = (\<lambda>n. benign), wo_codec = sample_codec,
     wo_outside = sample_outside\<rparr>"

definition sample_panel :: Panel where
  "sample_panel = \<lparr>pa_auth = NewAuth, pa_db = fst (serving []), pa_manager = snd (serving [])\<rparr>"

definition untouched :: "string \<Rightarrow> Call \<Rightarrow> unit handler" where
  "untouched name c s = (Answered 200 (POther name), s)"

definition sample_call :: "string \<Rightarrow> string \<Rightarrow> Call" where
  "sample_call meth path = \<lparr>ca_req = (sample_request ''203.0.113.9:5555'' (\<lambda>k. []) None)\<lparr>rq_method := meth, rq_path := path\<rparr>,
     ca_body = BInput sample_input, ca_now = 5, ca_user_at = 5, ca_moment = sample_moment, ca_meeting = sample_meeting,
     ca_env = calm, ca_order = []\<rparr>"

lemma sample_routes:
  "route_of ''POST'' ''/api/accounts'' = Some ([], CreateE, True)"
  "route_of ''GET'' ''/api/accounts/online'' = Some ([], Other ''accountOnlineConnections'', True)"
  "route_of ''HEAD'' ''/api/accounts/7/expert'' = Some ([''7''], ExpertE, True)"
  by code_simp+

lemma sample_clean: "clean_path ''/api/accounts''" "clean_path ''/api/accounts/7/expert''" "\<not> clean_path ''/api//accounts''"
  "clean_path ''/''" "clean_path ''/a/''" "\<not> clean_path ''/a/..''"
  by code_simp+

lemma sample_mount: "MountBasePath ''/x/'' ''/x/api/accounts'' = Serve ''/api/accounts''"
  "MountBasePath ''/x/'' ''/x/api/accounts/7/expert'' = Serve ''/api/accounts/7/expert''"
  by code_simp+

lemma sample_call_simps:
  "rq_method (ca_req (sample_call m u)) = m" "rq_path (ca_req (sample_call m u)) = u" "rq_cookie (ca_req (sample_call m u)) = None"
  "wo_base sample_world = Some ''/x/''" "wo_web sample_world = sample_web" "ca_env (sample_call m u) = calm"
  by (simp_all add: sample_call_def sample_request_def sample_world_def)

lemma sample_stranger:
  "fst (request_gate (wo_web sample_world) (ca_now (sample_call m u)) (ca_req (sample_call m u)) ss) \<noteq> None"
  by (simp add: request_gate_def sample_call_simps)

theorem strangers_change_nothing_witness:
  "\<exists>p' code e. serve sample_world untouched (sample_call ''POST'' ''/x/api/accounts'') (sample_panel, ()) = (Refused code e, p', ()) \<and>
     pa_db p' = pa_db sample_panel \<and> pa_manager p' = pa_manager sample_panel"
proof -
  let ?c = "sample_call ''POST'' ''/x/api/accounts''"
  obtain ans p' u where "serve sample_world untouched ?c (sample_panel, ()) = (ans, p', u)"
    by (metis surj_pair)
  then have s: "serve sample_world untouched ?c (sample_panel, ()) = (ans, p', ())" by simp
  then have "behind_gate sample_world ?c (handle sample_world untouched ?c [] CreateE) (sample_panel, ()) = (ans, p', ())"
    by (simp add: serve_def route_path_def Let_def sample_call_simps sample_mount sample_routes sample_clean)
  then obtain code e where "ans = Refused code e"
    using sample_stranger [of "''POST''" "''/x/api/accounts''" "au_sessions (pa_auth sample_panel)"]
    by (auto simp: behind_gate_spec)
  with s strangers_change_nothing [OF s sample_stranger] show ?thesis
    by (intro exI [of _ p'] exI [of _ code] exI [of _ e] conjI) (simp_all only:)
qed

theorem safe_requests_read_witness:
  "\<exists>ans p'. serve sample_world untouched (sample_call ''HEAD'' ''/x/api/accounts/7/expert'') (sample_panel, ()) = (ans, p', ()) \<and>
     pa_db p' = pa_db sample_panel \<and> pa_manager p' = pa_manager sample_panel"
proof -
  let ?c = "sample_call ''HEAD'' ''/x/api/accounts/7/expert''"
  obtain ans p' u where "serve sample_world untouched ?c (sample_panel, ()) = (ans, p', u)"
    by (metis surj_pair)
  then have s: "serve sample_world untouched ?c (sample_panel, ()) = (ans, p', ())" by simp
  have "safe_method (ca_req ?c)" by (simp add: safe_method_def sample_call_simps)
  moreover have "endpoint_of sample_world (ca_req ?c) = Some ExpertE"
    by (simp add: endpoint_of_def served_path_def sample_call_simps sample_mount sample_routes sample_clean)
  ultimately show ?thesis using safe_requests_read [OF s] s by auto
qed

lemma sample_sound: "sound_call sample_world (sample_call m u) sample_panel"
proof -
  have "remoteIP sample_web (ca_req (sample_call m u)) = ''203.0.113.9''"
    by (simp add: remoteIP_def directRemoteIP_def sample_call_def sample_request_def sample_strings sample_trusted)
  moreover have none: "fmprune P fmempty = (fmempty :: (string, loginAttempt) fmap)" for P
    by (rule fmap_ext) simp
  have "visits_all [] (snd (Allowed i l (au_login NewAuth)))" "visits_all [] (snd (Allowed i l (au_ip NewAuth)))" for i l
    by (simp_all add: visits_all_def Allowed_def NewAuth_def NewLoginLimiter_def newLoginLimiter_def cleanupLocked_def
        Let_def time_is_zero_def none)
  ultimately show ?thesis
    using setting_keys_dom
    by (simp add: sound_call_def sample_call_simps) (simp add: sample_call_def sample_moment_def sample_panel_def)
qed

theorem panel_stays_sound_witness:
  "\<exists>ans s. serve sample_world untouched (sample_call ''POST'' ''/x/api/accounts'') (sample_panel, ()) = (ans, s) \<and>
     db_inv (pa_db (fst s)) \<and> int (fmcount (entries (au_ip (pa_auth (fst s))))) \<le> capacity (au_ip (pa_auth (fst s)))"
proof -
  obtain ans s where s: "serve sample_world untouched (sample_call ''POST'' ''/x/api/accounts'') (sample_panel, ()) = (ans, s)"
    by (metis surj_pair)
  have run: "panel_run sample_world untouched (sample_panel, ()) s"
    by (rule panel_run.Request [OF panel_run.Begin _ s]) (simp add: sample_sound)
  have inv: "panel_inv sample_panel"
    using serving_steady [OF sample_served(3,4)] NewAuth_limits
    by (simp add: panel_inv_def sample_panel_def steady_def)
  from panel_stays_sound [OF run inv] s show ?thesis by (auto simp: untouched_def)
qed

end
