(* ===== verification/FirewallHandlers.thy ===== *)
theory FirewallHandlers
  imports FirewallPending Digest
begin

text \<open>
  The handlers that change the firewall (\<open>internal/server/firewall.go\<close>): adding and removing an
  allowance, drop policies, pausing and resuming, and editing a rule of another manager. Each
  checks the request against a fresh inspection, the entries that are pending, the ports that must
  stay open and the live listeners, arms a recovery timer where connectivity can be lost, makes the
  change, and saves the entry that the confirmation looks for.

  A request brings its own engines, random bytes and clock: \<open>q_eng n\<close> serves the \<open>n\<close>-th statement of
  the request on the database, and the clock is read once.
\<close>

section \<open>Requests\<close>

record Request =
  q_eng :: "nat \<Rightarrow> Engine"
  q_now :: int
  q_unit :: "nat list res"
  q_token :: "nat list res"

definition firewallGuardPort :: "Engine \<Rightarrow> Db \<Rightarrow> int" where
  "firewallGuardPort eng db =
     (case SplitHostPort (settingString eng ''panel_listen'' ''127.0.0.1:8080'' db) of
        None \<Rightarrow> 8080
      | Some (_, p) \<Rightarrow>
          (case atoi p of None \<Rightarrow> 8080 | Some n \<Rightarrow> if n < 1 \<or> n > 65535 then 8080 else n))"

definition discoveredSSHPort :: "Discovery \<Rightarrow> int \<Rightarrow> bool" where
  "discoveredSSHPort d p \<longleftrightarrow> p \<in> set (ds_SSHPorts d)"

definition discoveredDockerPort :: "Discovery \<Rightarrow> int \<Rightarrow> bool" where
  "discoveredDockerPort d p \<longleftrightarrow> list_ex (\<lambda>n. pp_Port n = p) (ds_Docker d)"

fun critical_port :: "Discovery \<Rightarrow> int list \<Rightarrow> unit res" where
  "critical_port d [] = Inr ()"
| "critical_port d (p # ps) =
     (if discoveredSSHPort d p then Inl (ErrNew ''configured SSH management port protected'')
      else if discoveredDockerPort d p then Inl (ErrNew ''Docker published port protected'')
      else critical_port d ps)"

definition firewallCriticalPorts :: "'h Timers \<Rightarrow> 'h Tools \<Rightarrow> int list \<Rightarrow> 'h \<Rightarrow> unit res" where
  "firewallCriticalPorts tm t ports h =
     (case FirewallDiscovery tm t h of
        Inl e \<Rightarrow> Inl (Errorf ''cannot verify SSH/Docker critical ports: %w'' [] [e])
      | Inr d \<Rightarrow>
          if ds_SSHUncertain d then Inl (ErrNew ''SSH effective port cannot be verified'')
          else if ds_DockerUncertain d then Inl (ErrNew ''Docker published ports cannot be verified'')
          else critical_port d ports)"

section \<open>Accounts on a port\<close>

text \<open>
  \<open>Blank\<close> stands for the empty text here. \<open>None\<close> is the nil slice: the account is associated with no
  port.
\<close>

definition struct_fields :: "jtext \<Rightarrow> object option" where
  "struct_fields t = (case t of Doc v \<Rightarrow> map_item v | _ \<Rightarrow> None)"

fun bool_field :: "json \<Rightarrow> bool option" where
  "bool_field JNull = Some False"
| "bool_field (JBool b) = Some b"
| "bool_field v = None"

definition accountFirewallTransports :: "Account \<Rightarrow> string list" where
  "accountFirewallTransports a =
     (let protocol = to_lower (trim_space (a_Protocol a)) in
      if protocol = ''shadowsocks'' then
        (case Option.bind (struct_fields (a_SettingsJSON a)) (\<lambda>m. str_field (mget m ''network'')) of
           None \<Rightarrow> []
         | Some s \<Rightarrow>
             (let network = to_lower (trim_space s) in
              if network = ''tcp,udp'' \<or> network = ''udp,tcp'' then [''tcp'', ''udp'']
              else if network = ''tcp'' \<or> network = ''udp'' then [network] else []))
      else if protocol = ''socks'' then
        (case Option.bind (struct_fields (a_SettingsJSON a)) (\<lambda>m. bool_field (mget m ''udp'')) of
           None \<Rightarrow> [] | Some u \<Rightarrow> if u then [''tcp'', ''udp''] else [''tcp''])
      else
        (case (if a_StreamSettingsJSON a = Blank then Some []
               else Option.bind (struct_fields (a_StreamSettingsJSON a)) (\<lambda>m. str_field (mget m ''network''))) of
           None \<Rightarrow> []
         | Some s \<Rightarrow>
             (let n = to_lower (trim_space s); network = (if n = [] then ''tcp'' else n) in
              if network \<in> {''tcp'', ''raw'', ''ws'', ''websocket'', ''grpc'', ''http'', ''h2'', ''httpupgrade'', ''xhttp''}
              then [''tcp'']
              else if network \<in> {''mkcp'', ''kcp'', ''quic''} then [''udp''] else [])))"

text \<open>The entry \<open>protocol/port\<close> of the map \<open>accountFirewallMatches\<close> builds.\<close>

definition accountFirewallMatches :: "Account list \<Rightarrow> string \<Rightarrow> int \<Rightarrow> Account list" where
  "accountFirewallMatches accounts proto port =
     filter (\<lambda>a. proto \<in> set (accountFirewallTransports a) \<and> ValidRule (a_Port a) proto \<and> a_Port a = port) accounts"

section \<open>Adding and removing an allowance\<close>

text \<open>A timer has been armed; the change is made and its entry saved.\<close>

definition save_pending ::
  "Codec \<Rightarrow> (nat \<Rightarrow> Engine) \<Rightarrow> int \<Rightarrow> string \<Rightarrow> string \<Rightarrow> firewallPending res \<times> Db \<Rightarrow> 'h \<Rightarrow> reply \<times> Db \<times> 'h" where
  "save_pending c eng now event lost saved h =
     (case saved of
        (Inl e, db) \<Rightarrow> (WriteError 500 lost, db, h)
      | (Inr p, db) \<Rightarrow> (Accepted p, firewallAudit c eng now event (p_ID p) db, h))"

definition rule_remove ::
  "Codec \<Rightarrow> 'h Timers \<Rightarrow> 'h Tools \<Rightarrow> Request \<Rightarrow> string \<Rightarrow> int \<Rightarrow> string \<Rightarrow> string \<Rightarrow> string \<Rightarrow> Db \<Rightarrow> 'h \<Rightarrow>
   reply \<times> Db \<times> 'h" where
  "rule_remove c tm t q backend port proto zone i db h =
     (case Setting (q_eng q 1) (''firewall_owned:'' @ i) db of
        Inl e \<Rightarrow> (WriteError 500 ''could not check rule ownership'', db, h)
      | Inr v \<Rightarrow>
          if v \<noteq> Some ''v1'' then (WriteError 403 ''only X-port created rules can be deleted'', db, h)
          else if port = 22 \<or> port = firewallGuardPort (q_eng q 2) db
            then (WriteError 403 ''management port protected'', db, h)
          else (case firewallCriticalPorts tm t [port] h of
            Inl e \<Rightarrow> (WriteErr 409 e, db, h)
          | Inr _ \<Rightarrow>
              (case FirewallListeners tm t h of
                 Inl e \<Rightarrow> (WriteError 409 ''cannot verify listeners; deletion blocked'', db, h)
               | Inr ports \<Rightarrow>
                   if port \<in> set ports
                     then (WriteError 409 ''port has an active listener; stop it first'', db, h)
                   else (case ScheduleFirewallRestore tm (q_unit q) (q_now q) backend port proto zone h of
                     (Inl e, h1) \<Rightarrow> (WriteErr 409 (Errorf ''could not arm connection recovery: %v'' [] [e]), db, h1)
                   | (Inr (unit, deadline), h1) \<Rightarrow>
                       (case ApplyFirewall tm t ''remove'' port proto zone h1 of
                          (Inl e, h2) \<Rightarrow> (WriteErr 409 (Errorf ''firewall operation failed: %v'' [] [e]), db, h2)
                        | (Inr _, h2) \<Rightarrow>
                            save_pending c (from_step 4 (q_eng q)) (q_now q) ''remove-pending''
                              ''rule temporarily removed; recovery timer remains armed because confirmation state could not be saved''
                              (firewallPendingSave c (q_eng q 3) (q_token q) i unit deadline db) h2)))))"

definition rule_add ::
  "Codec \<Rightarrow> 'h Timers \<Rightarrow> 'h Tools \<Rightarrow> Request \<Rightarrow> int \<Rightarrow> string \<Rightarrow> string \<Rightarrow> string \<Rightarrow> Db \<Rightarrow> 'h \<Rightarrow>
   reply \<times> Db \<times> 'h" where
  "rule_add c tm t q port proto zone i db h =
     (case ApplyFirewall tm t ''add'' port proto zone h of
        (Inl e, h1) \<Rightarrow> (WriteErr 409 (Errorf ''firewall operation failed: %v'' [] [e]), db, h1)
      | (Inr _, h1) \<Rightarrow>
          (case SetSetting (q_eng q 1) (''firewall_owned:'' @ i) ''v1'' db of
             (Inl e, db1) \<Rightarrow>
               (let (rb, h2) = ApplyFirewall tm t ''remove'' port proto zone h1
                in (WriteErr 500 (Errorf ''ownership persistence failed; rollback: %v'' []
                      (case rb of Inl e \<Rightarrow> [e] | Inr _ \<Rightarrow> [])), db1, h2))
           | (Inr _, db1) \<Rightarrow>
               (WriteOk, firewallAudit c (from_step 2 (q_eng q)) (q_now q) ''add'' i db1, h1)))"

definition firewallRuleChange ::
  "Codec \<Rightarrow> 'h Timers \<Rightarrow> 'h Tools \<Rightarrow> Request \<Rightarrow> string \<Rightarrow> int \<Rightarrow> string \<Rightarrow> string \<Rightarrow> Db \<Rightarrow> 'h \<Rightarrow>
   reply \<times> Db \<times> 'h" where
  "firewallRuleChange c tm t q action port proto zone db h =
     (if \<not> ValidRule port proto \<or> (action \<noteq> ''add'' \<and> action \<noteq> ''remove'')
        then (WriteError 400 ''invalid firewall rule'', db, h)
      else case InspectFirewall tm t h of
        Inl e \<Rightarrow> (WriteError 502 ''could not inspect firewall'', db, h)
      | Inr snap \<Rightarrow>
          if \<not> sn_Writable snap
            then (WriteErr 409 (Errorf ''read-only firewall: %s'' []
                    (case sn_UnsafeReason snap of None \<Rightarrow> [] | Some e \<Rightarrow> [e])), db, h)
          else if sn_Backend snap \<noteq> ''firewalld'' \<and> sn_Backend snap \<noteq> ''ufw''
            then (WriteError 409 ''unsupported firewall backend'', db, h)
          else if sn_Backend snap = ''ufw'' \<and> zone \<noteq> []
            then (WriteError 400 ''UFW does not support zones'', db, h)
          else if sn_Backend snap = ''firewalld'' \<and> \<not> ValidZone zone
            then (WriteError 400 ''invalid zone'', db, h)
          else
            (let i = RuleID (sn_Backend snap) zone port proto in
             case ensureNoPending c (q_eng q 0) (q_now q) i db of
               Inl e \<Rightarrow> (WriteErr 409 e, db, h)
             | Inr _ \<Rightarrow>
                 if action = ''remove'' then rule_remove c tm t q (sn_Backend snap) port proto zone i db h
                 else rule_add c tm t q port proto zone i db h))"

section \<open>Drop policies, pausing and resuming\<close>

definition control_actions :: "string list" where
  "control_actions =
     [''add-drop'', ''remove-drop'', ''pause-allow'', ''resume-allow'', ''pause-drop'', ''resume-drop'']"

definition drop_id :: "string \<Rightarrow> int \<Rightarrow> string \<Rightarrow> string" where
  "drop_id zone port proto = ''firewalld:'' @ zone @ '':rich:'' @ port_spec port proto @ '':deny:both''"

definition control_id :: "string \<Rightarrow> int \<Rightarrow> string \<Rightarrow> string \<Rightarrow> string" where
  "control_id action port proto zone =
     (if action = ''add-drop'' \<or> action = ''remove-drop'' \<or> action = ''pause-drop'' \<or> action = ''resume-drop''
      then drop_id zone port proto else RuleID ''firewalld'' zone port proto)"

text \<open>The rules on the port: how many, and the one with the id; or the error that stops the request.\<close>

definition control_target :: "string \<Rightarrow> int \<Rightarrow> string \<Rightarrow> string \<Rightarrow> Rule list \<Rightarrow> reply + (nat \<times> Rule)" where
  "control_target zone port proto i rules =
     (let on_port = filter (\<lambda>r. ContainsPort r port \<and> r_Protocol r = proto) rules in
      case find (\<lambda>r. r_Zone r \<noteq> zone \<or> r_Conflict r) on_port of
        Some r \<Rightarrow>
          Inl (if r_Zone r \<noteq> zone
               then WriteError 409 ''same port is configured in another zone; use original manager''
               else WriteError 409 ''overlapping firewall policies require manual reconciliation'')
      | None \<Rightarrow>
          if length on_port > 1 then Inl (WriteError 409 ''ambiguous firewall rules'')
          else Inr (length on_port, (case find (\<lambda>r. r_ID r = i) on_port of None \<Rightarrow> zero_Rule | Some r \<Rightarrow> r)))"

definition listener_check ::
  "'h Timers \<Rightarrow> 'h Tools \<Rightarrow> Engine \<Rightarrow> string \<Rightarrow> int \<Rightarrow> string \<Rightarrow> Db \<Rightarrow> 'h \<Rightarrow> reply option" where
  "listener_check tm t eng action port proto db h =
     (if action \<noteq> ''add-drop'' \<and> action \<noteq> ''pause-allow'' \<and> action \<noteq> ''resume-drop'' then None
      else case FirewallListeners tm t h of
        Inl e \<Rightarrow> Some (WriteError 409 ''cannot verify live listeners; unsafe change blocked'')
      | Inr listeners \<Rightarrow>
          if port \<notin> set listeners then None
          else if action = ''add-drop'' \<or> action = ''resume-drop''
            then Some (WriteError 409 ''active listener detected; DROP activation blocked'')
          else (case Accounts eng db of
            Inl e \<Rightarrow> Some (WriteError 500 ''cannot verify account ownership'')
          | Inr accounts \<Rightarrow>
              (case accountFirewallMatches accounts proto port of
                 [a] \<Rightarrow> if a_Enabled a then None
                        else Some (WriteError 409 ''non-Xray or ambiguous listening port protected'')
               | _ \<Rightarrow> Some (WriteError 409 ''non-Xray or ambiguous listening port protected''))))"

text \<open>
  Everything \<open>firewallControl\<close> checks before it distinguishes the actions: the rule the request is
  about, then the ports that must stay open, the ownership and the listeners.
\<close>

definition control_gate ::
  "Codec \<Rightarrow> 'h Timers \<Rightarrow> 'h Tools \<Rightarrow> Request \<Rightarrow> string \<Rightarrow> string \<Rightarrow> int \<Rightarrow> string \<Rightarrow> string \<Rightarrow> Db \<Rightarrow> 'h \<Rightarrow>
   reply + (nat \<times> Rule)" where
  "control_gate c tm t q action given port proto zone db h =
     (if \<not> ValidRule port proto \<or> \<not> ValidZone zone
        then Inl (WriteError 400 ''invalid firewall port/protocol/zone'')
      else if action \<notin> set control_actions then Inl (WriteError 400 ''unsupported firewall control action'')
      else if control_id action port proto zone \<noteq> given
        then Inl (WriteError 409 ''rule changed or stale selection'')
      else case InspectFirewall tm t h of
        Inl e \<Rightarrow> Inl (WriteError 502 ''cannot inspect firewall before rule change'')
      | Inr snap \<Rightarrow>
          if \<not> sn_Writable snap \<or> sn_Backend snap \<noteq> ''firewalld''
            then Inl (WriteError 409 ''firewalld read-only; cannot change policies'')
          else if opaque_zone snap zone
            then Inl (WriteError 409 ''zone contains complex rich rules; edit through original manager'')
          else if zone \<notin> set (sn_Zones snap) then Inl (WriteError 409 ''unknown firewalld zone'')
          else (case bindR (ensureNoPending c (q_eng q 0) (q_now q) (RuleID ''firewalld'' zone port proto) db) (\<lambda>_.
                       ensureNoPending c (q_eng q 1) (q_now q) (drop_id zone port proto) db) of
            Inl e \<Rightarrow> Inl (WriteErr 409 e)
          | Inr _ \<Rightarrow> control_target zone port proto given (sn_Rules snap)))"

definition control_checks ::
  "Codec \<Rightarrow> 'h Timers \<Rightarrow> 'h Tools \<Rightarrow> Request \<Rightarrow> string \<Rightarrow> string \<Rightarrow> int \<Rightarrow> string \<Rightarrow> string \<Rightarrow> Db \<Rightarrow> 'h \<Rightarrow>
   reply + (nat \<times> Rule)" where
  "control_checks c tm t q action given port proto zone db h =
     (case control_gate c tm t q action given port proto zone db h of
        Inl r \<Rightarrow> Inl r
      | Inr mt \<Rightarrow>
          if port = 22 \<or> port = firewallGuardPort (q_eng q 2) db
            then Inl (WriteError 403 ''SSH and panel management ports are protected'')
          else (case firewallCriticalPorts tm t [port] h of
            Inl e \<Rightarrow> Inl (WriteErr 409 e)
          | Inr _ \<Rightarrow>
              (case Setting (q_eng q 3) (''firewall_owned:'' @ given) db of
                 Inl e \<Rightarrow> Inl (WriteError 500 ''cannot check rule ownership'')
               | Inr v \<Rightarrow>
                   if action \<noteq> ''add-drop'' \<and> setting_text v \<noteq> ''v1''
                     then Inl (WriteError 403 ''only X-port owned rules can be controlled'')
                   else (case listener_check tm t (q_eng q 4) action port proto db h of
                           Some r \<Rightarrow> Inl r | None \<Rightarrow> Inr mt))))"

text \<open>The second half: resuming a paused rule.\<close>

definition paused_valid :: "string \<Rightarrow> string \<Rightarrow> int \<Rightarrow> string \<Rightarrow> string \<Rightarrow> Rule \<Rightarrow> bool" where
  "paused_valid action i port proto zone r \<longleftrightarrow>
     r_ID r = i \<and>
     \<not> (action = ''resume-allow'' \<and> (r_Kind r \<noteq> ''port'' \<or> r_Action r \<noteq> ''allow'')) \<and>
     \<not> (action = ''resume-drop'' \<and> (r_Kind r \<noteq> ''rich'' \<or> r_Action r \<noteq> ''deny'' \<or> r_Family r \<noteq> ''both'')) \<and>
     r_Port r = port \<and> r_Protocol r = proto \<and> r_Zone r = zone \<and> r_Backend r = ''firewalld''"

definition apply_resume ::
  "'h Timers \<Rightarrow> 'h Tools \<Rightarrow> string \<Rightarrow> string \<Rightarrow> int \<Rightarrow> string \<Rightarrow> string \<Rightarrow> 'h \<Rightarrow> unit res \<times> 'h" where
  "apply_resume tm t action dir port proto zone =
     (if action = ''resume-drop'' then ApplySimpleDrop tm t dir port proto zone
      else ApplyFirewall tm t dir port proto zone)"

definition control_resume ::
  "Codec \<Rightarrow> 'h Timers \<Rightarrow> 'h Tools \<Rightarrow> Request \<Rightarrow> string \<Rightarrow> string \<Rightarrow> nat \<Rightarrow> int \<Rightarrow> string \<Rightarrow> string \<Rightarrow> Db \<Rightarrow> 'h \<Rightarrow>
   reply \<times> Db \<times> 'h" where
  "control_resume c tm t q action i matching port proto zone db h =
     (case Setting (q_eng q 5) (firewallPausedKey i) db of
        Inl e \<Rightarrow> (WriteError 500 ''cannot load paused rule'', db, h)
      | Inr v \<Rightarrow>
          if setting_text v = [] then (WriteError 409 ''no paused rule to resume'', db, h)
          else if (case dec_rule c (setting_text v) of None \<Rightarrow> True
                   | Some r \<Rightarrow> \<not> paused_valid action i port proto zone r)
            then (WriteError 409 ''paused rule snapshot invalid'', db, h)
          else if matching \<noteq> 0
            then (WriteError 409 ''rule already exists or was changed externally'', db, h)
          else (case apply_resume tm t action ''add'' port proto zone h of
             (Inl e, h1) \<Rightarrow> (WriteErr 409 (Errorf ''resume failed: %v'' [] [e]), db, h1)
           | (Inr _, h1) \<Rightarrow>
               (case SetSetting (q_eng q 6) (firewallPausedKey i) [] db of
                  (Inl e, db1) \<Rightarrow>
                    (let (rb, h2) = apply_resume tm t action ''remove'' port proto zone h1
                     in (WriteErr 500 (Errorf ''resume metadata failed; rollback: %v'' []
                           (case rb of Inl e \<Rightarrow> [e] | Inr _ \<Rightarrow> [])), db1, h2))
                | (Inr _, db1) \<Rightarrow>
                    (WriteOk, firewallAudit c (from_step 7 (q_eng q)) (q_now q) action i db1, h1))))"

text \<open>The rule a change is about, and the preconditions of each action.\<close>

fun no_paused :: "(nat \<Rightarrow> Engine) \<Rightarrow> string list \<Rightarrow> Db \<Rightarrow> reply option" where
  "no_paused eng [] db = None"
| "no_paused eng (i # is) db =
     (case Setting (eng 0) (firewallPausedKey i) db of
        Inl e \<Rightarrow> Some (WriteError 500 ''cannot inspect existing paused rule'')
      | Inr v \<Rightarrow>
          if setting_text v \<noteq> []
          then Some (WriteError 409 ''port has paused rule metadata; resume or clear it first'')
          else no_paused (from_step 1 eng) is db)"

definition not_paused :: "Engine \<Rightarrow> string \<Rightarrow> Db \<Rightarrow> reply option" where
  "not_paused eng i db =
     (case Setting eng (firewallPausedKey i) db of
        Inl e \<Rightarrow> Some (WriteError 500 ''cannot inspect paused metadata'')
      | Inr v \<Rightarrow> if setting_text v \<noteq> [] then Some (WriteError 409 ''rule already has paused metadata'') else None)"

definition add_drop_rule :: "string \<Rightarrow> int \<Rightarrow> string \<Rightarrow> string \<Rightarrow> Rule" where
  "add_drop_rule i port proto zone =
     zero_Rule\<lparr>r_ID := i, r_Port := port, r_Protocol := proto, r_Zone := zone, r_Backend := ''firewalld'',
               r_Kind := ''rich'', r_Action := ''deny'', r_Family := ''both''\<rparr>"

definition control_ready ::
  "Request \<Rightarrow> string \<Rightarrow> string \<Rightarrow> nat \<Rightarrow> Rule \<Rightarrow> int \<Rightarrow> string \<Rightarrow> string \<Rightarrow> Db \<Rightarrow> reply + Rule" where
  "control_ready q action i matching target port proto zone db =
     (if action = ''add-drop'' then
        (if matching \<noteq> 0 then Inl (WriteError 409 ''port is already governed by another policy'')
         else case no_paused (from_step 5 (q_eng q))
                     [RuleID ''firewalld'' zone port proto, drop_id zone port proto] db of
           Some r \<Rightarrow> Inl r
         | None \<Rightarrow> Inr (add_drop_rule i port proto zone))
      else if action = ''remove-drop'' \<or> action = ''pause-drop'' then
        (if matching \<noteq> 1 \<or> r_ID target \<noteq> i \<or> r_Kind target \<noteq> ''rich'' \<or> r_Action target \<noteq> ''deny'' \<or>
            r_Family target \<noteq> ''both'' \<or> \<not> r_Runtime target \<or> \<not> r_Permanent target
         then Inl (WriteError 409 ''DROP rule changed or is not a complete dual-family policy'')
         else if action = ''pause-drop''
         then (case not_paused (q_eng q 5) i db of Some r \<Rightarrow> Inl r | None \<Rightarrow> Inr target)
         else Inr target)
      else if action = ''pause-allow'' then
        (if matching \<noteq> 1 \<or> r_ID target \<noteq> i \<or> r_Kind target \<noteq> ''port'' \<or> r_Action target \<noteq> ''allow'' \<or>
            \<not> r_Runtime target \<or> \<not> r_Permanent target
         then Inl (WriteError 409 ''allow rule changed or runtime/permanent differ'')
         else (case not_paused (q_eng q 5) i db of Some r \<Rightarrow> Inl r | None \<Rightarrow> Inr target))
      else Inr target)"

text \<open>Arming the timer that undoes the action, and the action itself.\<close>

definition control_arm ::
  "'h Timers \<Rightarrow> Request \<Rightarrow> string \<Rightarrow> int \<Rightarrow> string \<Rightarrow> string \<Rightarrow> 'h \<Rightarrow> (string \<times> int) res \<times> 'h" where
  "control_arm tm q action port proto zone =
     (if action = ''add-drop''
      then ScheduleFirewallDropUndo tm (q_unit q) (q_now q) ''remove'' port proto zone
      else if action = ''remove-drop'' \<or> action = ''pause-drop''
      then ScheduleFirewallDropUndo tm (q_unit q) (q_now q) ''add'' port proto zone
      else ScheduleFirewallRestore tm (q_unit q) (q_now q) ''firewalld'' port proto zone)"

definition control_apply ::
  "'h Timers \<Rightarrow> 'h Tools \<Rightarrow> string \<Rightarrow> int \<Rightarrow> string \<Rightarrow> string \<Rightarrow> 'h \<Rightarrow> unit res \<times> 'h" where
  "control_apply tm t kind port proto zone =
     (if kind = ''pause-allow'' then ApplyFirewall tm t ''remove'' port proto zone
      else if kind = ''add-drop'' then ApplySimpleDrop tm t ''add'' port proto zone
      else ApplySimpleDrop tm t ''remove'' port proto zone)"

definition control_change ::
  "Codec \<Rightarrow> 'h Timers \<Rightarrow> 'h Tools \<Rightarrow> Request \<Rightarrow> string \<Rightarrow> string \<Rightarrow> nat \<Rightarrow> Rule \<Rightarrow> int \<Rightarrow> string \<Rightarrow> string \<Rightarrow>
   Db \<Rightarrow> 'h \<Rightarrow> reply \<times> Db \<times> 'h" where
  "control_change c tm t q action i matching target port proto zone db h =
     (case control_ready q action i matching target port proto zone db of
        Inl r \<Rightarrow> (r, db, h)
      | Inr rule \<Rightarrow>
          (case control_arm tm q action port proto zone h of
             (Inl e, h1) \<Rightarrow>
               (WriteErr 409 (Errorf ''cannot arm native 120-second recovery: %v'' [] [e]), db, h1)
           | (Inr (unit, deadline), h1) \<Rightarrow>
               (case control_apply tm t action port proto zone h1 of
                  (Inl e, h2) \<Rightarrow>
                    (WriteErr 409 (Errorf ''policy operation failed; recovery remains armed: %v'' [] [e]), db, h2)
                | (Inr _, h2) \<Rightarrow>
                    save_pending c (from_step 8 (q_eng q)) (q_now q) (action @ ''-pending'')
                      ''rule changed but pending confirmation could not be saved; recovery remains armed''
                      (firewallPendingSaveKind c (q_eng q 7) (q_token q) i unit deadline action rule db) h2)))"

definition firewallControl ::
  "Codec \<Rightarrow> 'h Timers \<Rightarrow> 'h Tools \<Rightarrow> Request \<Rightarrow> string \<Rightarrow> string \<Rightarrow> int \<Rightarrow> string \<Rightarrow> string \<Rightarrow> Db \<Rightarrow> 'h \<Rightarrow>
   reply \<times> Db \<times> 'h" where
  "firewallControl c tm t q action given port proto zone db h =
     (case control_checks c tm t q action given port proto zone db h of
        Inl r \<Rightarrow> (r, db, h)
      | Inr (matching, target) \<Rightarrow>
          (let i = control_id action port proto zone in
           if action = ''resume-allow'' \<or> action = ''resume-drop''
           then control_resume c tm t q action i matching port proto zone db h
           else control_change c tm t q action i matching target port proto zone db h))"

section \<open>Editing an allowance of another manager\<close>

definition truth :: "bool \<Rightarrow> string" where
  "truth b = (if b then ''true'' else ''false'')"

definition firewallRuleRevision :: "Rule \<Rightarrow> string" where
  "firewallRuleRevision r =
     hex_encode (take 12 (Sum256 (join_with ''|''
       [r_ID r, itoa (r_Port r), r_Protocol r, r_Zone r, r_Kind r, r_Action r, r_Family r,
        truth (r_Runtime r), truth (r_Permanent r), truth (r_Conflict r)])))"

record EditRequest =
  x_ID :: string
  x_Revision :: string
  x_NewPort :: int
  x_NewProtocol :: string
  x_Acknowledged :: bool

definition edit_source :: "EditRequest \<Rightarrow> FirewallInspect.Snapshot \<Rightarrow> reply + Rule" where
  "edit_source x snap =
     (if sn_Backend snap \<noteq> ''firewalld'' \<or> \<not> sn_Writable snap
        then Inl (WriteError 409 ''firewalld is read-only'')
      else case find (\<lambda>r. r_ID r = x_ID x) (sn_Rules snap) of
        None \<Rightarrow> Inl (WriteError 409 ''source rule changed or disappeared'')
      | Some r \<Rightarrow>
          if firewallRuleRevision r \<noteq> x_Revision x
            then Inl (WriteError 409 ''source rule changed since page load; refresh before editing'')
          else if IsRange r \<or> r_Kind r \<noteq> ''port'' \<or> r_Action r \<noteq> ''allow'' \<or> \<not> r_Runtime r \<or>
                  \<not> r_Permanent r \<or> r_Conflict r \<or> \<not> ValidZone (r_Zone r) \<or> opaque_zone snap (r_Zone r)
            then Inl (WriteError 409 ''only simple, fully synchronized port allowances can be edited'')
          else Inr r)"

fun no_metadata :: "(nat \<Rightarrow> Engine) \<Rightarrow> string list \<Rightarrow> Db \<Rightarrow> reply option" where
  "no_metadata eng [] db = None"
| "no_metadata eng (k # ks) db =
     (case Setting (eng 0) k db of
        Inl e \<Rightarrow> Some (WriteError 500 ''cannot inspect destination metadata'')
      | Inr v \<Rightarrow>
          if setting_text v \<noteq> []
          then Some (WriteError 409 ''destination has existing metadata; cannot overwrite'')
          else no_metadata (from_step 1 eng) ks db)"

definition edit_metadata :: "Codec \<Rightarrow> Request \<Rightarrow> string \<Rightarrow> string \<Rightarrow> Db \<Rightarrow> reply option" where
  "edit_metadata c q source target db =
     (case Setting (q_eng q 2) (''firewall_owned:'' @ source) db of
        Inl e \<Rightarrow> Some (WriteError 500 ''could not inspect source ownership'')
      | Inr v \<Rightarrow>
          if setting_text v = ''v1'' then Some (WriteError 403 ''this endpoint only edits external rules'')
          else (case bindR (ensureNoPending c (q_eng q 3) (q_now q) source db) (\<lambda>_.
                       ensureNoPending c (q_eng q 4) (q_now q) target db) of
            Inl e \<Rightarrow> Some (WriteErr 409 e)
          | Inr _ \<Rightarrow>
              (case Setting (q_eng q 5) (''firewall_owned:'' @ target) db of
                 Inl e \<Rightarrow> Some (WriteError 500 ''could not inspect target ownership'')
               | Inr w \<Rightarrow>
                   if setting_text w \<noteq> []
                   then Some (WriteError 409 ''destination has existing ownership metadata'')
                   else no_metadata (from_step 6 (q_eng q))
                          (map (\<lambda>prefix. prefix @ target)
                             [''firewall_note:'', ''firewall_purpose:'', ''firewall_paused:'']) db)))"

definition edit_overlap :: "Rule \<Rightarrow> EditRequest \<Rightarrow> Rule \<Rightarrow> bool" where
  "edit_overlap source x r \<longleftrightarrow>
     r_ID r \<noteq> r_ID source \<and>
     (r_Port r = r_Port source \<and> r_Protocol r = r_Protocol source \<and> r_Zone r = r_Zone source \<or>
      ContainsPort r (x_NewPort x) \<and> r_Protocol r = x_NewProtocol x)"

definition edit_listeners :: "'h Timers \<Rightarrow> 'h Tools \<Rightarrow> Rule \<Rightarrow> EditRequest \<Rightarrow> 'h \<Rightarrow> reply option" where
  "edit_listeners tm t source x h =
     (case FirewallListeners tm t h of
        Inl e \<Rightarrow> Some (WriteError 409 ''cannot inspect live listeners; external edit blocked'')
      | Inr listeners \<Rightarrow>
          if r_Port source \<in> set listeners \<or> x_NewPort x \<in> set listeners
          then Some (WriteError 409 ''an active listener uses the source or destination port'') else None)"

text \<open>Every check before the timer is armed; the rule to replace.\<close>

definition edit_checks ::
  "Codec \<Rightarrow> 'h Timers \<Rightarrow> 'h Tools \<Rightarrow> Request \<Rightarrow> EditRequest \<Rightarrow> Db \<Rightarrow> 'h \<Rightarrow> reply + Rule" where
  "edit_checks c tm t q x db h =
     (if \<not> x_Acknowledged x \<or> x_ID x = [] \<or> length (x_ID x) > 140 \<or> length (x_Revision x) \<noteq> 24 \<or>
         \<not> ValidRule (x_NewPort x) (x_NewProtocol x)
        then Inl (WriteError 400 ''explicit external-rule consent and a valid revision are required'')
      else case InspectFirewall tm t h of
        Inl e \<Rightarrow> Inl (WriteError 502 ''cannot inspect firewall before external edit'')
      | Inr snap \<Rightarrow>
          (case edit_source x snap of
             Inl r \<Rightarrow> Inl r
           | Inr source \<Rightarrow>
               (case firewallCriticalPorts tm t [r_Port source, x_NewPort x] h of
                  Inl e \<Rightarrow> Inl (WriteErr 409 e)
                | Inr _ \<Rightarrow>
                    if r_Port source = x_NewPort x \<and> r_Protocol source = x_NewProtocol x
                      then Inl (WriteError 400 ''new rule must differ from existing port/protocol'')
                    else if r_Port source = 22 \<or> r_Port source = firewallGuardPort (q_eng q 0) db \<or>
                            x_NewPort x = 22 \<or> x_NewPort x = firewallGuardPort (q_eng q 1) db
                      then Inl (WriteError 403 ''management ports cannot be edited'')
                    else (case edit_metadata c q (r_ID source)
                                 (RuleID ''firewalld'' (r_Zone source) (x_NewPort x) (x_NewProtocol x)) db of
                      Some r \<Rightarrow> Inl r
                    | None \<Rightarrow>
                        if list_ex (edit_overlap source x) (sn_Rules snap)
                          then Inl (WriteError 409 ''source or destination overlaps another rule'')
                        else (case edit_listeners tm t source x h of Some r \<Rightarrow> Inl r | None \<Rightarrow> Inr source)))))"

definition edit_target :: "Rule \<Rightarrow> EditRequest \<Rightarrow> Rule" where
  "edit_target source x =
     zero_Rule\<lparr>r_ID := RuleID ''firewalld'' (r_Zone source) (x_NewPort x) (x_NewProtocol x),
               r_Port := x_NewPort x, r_Protocol := x_NewProtocol x, r_Zone := r_Zone source,
               r_Backend := ''firewalld'', r_Kind := ''port'', r_Action := ''allow'', r_Family := ''both''\<rparr>"

text \<open>The last rule with the new id decides whether the new rule is there.\<close>

definition edit_visible :: "Rule \<Rightarrow> Rule \<Rightarrow> Rule list \<Rightarrow> bool" where
  "edit_visible source target rules \<longleftrightarrow>
     \<not> list_ex (\<lambda>r. r_ID r = r_ID source) rules \<and>
     (case filter (\<lambda>r. r_ID r = r_ID target) rules of
        [] \<Rightarrow> False
      | found \<Rightarrow> (let r = last found in
          r_Kind r = ''port'' \<and> r_Action r = ''allow'' \<and> r_Runtime r \<and> r_Permanent r \<and> \<not> r_Conflict r))"

definition edit_apply :: "'h Timers \<Rightarrow> 'h Tools \<Rightarrow> Rule \<Rightarrow> EditRequest \<Rightarrow> 'h \<Rightarrow> reply option \<times> 'h" where
  "edit_apply tm t source x h =
     (case ApplyFirewall tm t ''add'' (x_NewPort x) (x_NewProtocol x) (r_Zone source) h of
        (Inl e, h1) \<Rightarrow>
          (Some (WriteErr 409 (Errorf ''destination add failed; watchdog remains armed: %v'' [] [e])), h1)
      | (Inr _, h1) \<Rightarrow>
          (case ApplyFirewall tm t ''remove'' (r_Port source) (r_Protocol source) (r_Zone source) h1 of
             (Inl e, h2) \<Rightarrow>
               (Some (WriteErr 409 (Errorf ''source removal failed; watchdog will restore original rule: %v'' [] [e])), h2)
           | (Inr _, h2) \<Rightarrow>
               (case InspectFirewall tm t h2 of
                  Inl e \<Rightarrow> (Some (WriteError 502 ''edit made; cannot verify result; watchdog stays armed''), h2)
                | Inr changed \<Rightarrow>
                    if \<not> edit_visible source (edit_target source x) (sn_Rules changed)
                    then (Some (WriteError 409 ''external edit not in expected final state; watchdog remains armed''), h2)
                    else (None, h2))))"

definition firewallExternalEdit ::
  "Codec \<Rightarrow> 'h Timers \<Rightarrow> 'h Tools \<Rightarrow> Request \<Rightarrow> EditRequest \<Rightarrow> Db \<Rightarrow> 'h \<Rightarrow> reply \<times> Db \<times> 'h" where
  "firewallExternalEdit c tm t q x db h =
     (case edit_checks c tm t q x db h of
        Inl r \<Rightarrow> (r, db, h)
      | Inr source \<Rightarrow>
          (case ScheduleFirewallEditUndo tm (q_unit q) (q_now q) (r_Port source) (r_Protocol source)
                  (x_NewPort x) (x_NewProtocol x) (r_Zone source) h of
             (Inl e, h1) \<Rightarrow> (WriteErr 409 (Errorf ''cannot arm external-rule recovery: %v'' [] [e]), db, h1)
           | (Inr (unit, deadline), h1) \<Rightarrow>
               (case edit_apply tm t source x h1 of
                  (Some r, h2) \<Rightarrow> (r, db, h2)
                | (None, h2) \<Rightarrow>
                    save_pending c (from_step 10 (q_eng q)) (q_now q) ''edit-external-pending''
                      ''edit made but confirmation cannot persist; watchdog stays armed''
                      (firewallPendingExternalEdit c (q_eng q 9) (q_token q) source (edit_target source x)
                         unit deadline db) h2)))"

section \<open>Annotations and the native listing\<close>

definition annotate ::
  "string \<Rightarrow> string \<Rightarrow> string \<Rightarrow> nat \<Rightarrow> nat \<Rightarrow> 'h Timers \<Rightarrow> 'h Tools \<Rightarrow> Request \<Rightarrow> string \<Rightarrow> string \<Rightarrow> Db \<Rightarrow> 'h \<Rightarrow>
   (reply + string) \<times> Db" where
  "annotate prefix long unsaved bytes limit tm t q i given db h =
     (let v = trim_space given in
      if length v > bytes \<or> rune_count v > limit then (Inl (WriteError 400 long), db)
      else case InspectFirewall tm t h of
        Inl e \<Rightarrow> (Inl (WriteError 502 ''failed to inspect firewall rules''), db)
      | Inr snap \<Rightarrow>
          if \<not> list_ex (\<lambda>r. r_ID r = i) (sn_Rules snap)
            then (Inl (WriteError 404 ''firewall rule was not found''), db)
          else (case SetSetting (q_eng q 0) (prefix @ i) v db of
            (Inl e, db1) \<Rightarrow> (Inl (WriteError 500 unsaved), db1)
          | (Inr _, db1) \<Rightarrow> (Inr v, db1)))"

definition firewallNote ::
  "'h Timers \<Rightarrow> 'h Tools \<Rightarrow> Request \<Rightarrow> string \<Rightarrow> string \<Rightarrow> Db \<Rightarrow> 'h \<Rightarrow> (reply + string) \<times> Db" where
  "firewallNote = annotate ''firewall_note:'' ''note is too long'' ''could not save note'' 360 120"

definition firewallPurpose ::
  "'h Timers \<Rightarrow> 'h Tools \<Rightarrow> Request \<Rightarrow> string \<Rightarrow> string \<Rightarrow> Db \<Rightarrow> 'h \<Rightarrow> (reply + string) \<times> Db" where
  "firewallPurpose = annotate ''firewall_purpose:'' ''purpose is too long'' ''could not save purpose'' 180 60"

definition firewallRaw :: "'h Timers \<Rightarrow> 'h Tools \<Rightarrow> 'h \<Rightarrow> reply + string" where
  "firewallRaw tm t h =
     (case NativeFirewallRules tm t h of
        Inl e \<Rightarrow> Inl (WriteError 502 ''could not read native firewall rules'')
      | Inr raw \<Rightarrow> Inr raw)"

end
