(* ===== verification/FirewallRecovery.thy ===== *)
theory FirewallRecovery
  imports FirewallHandlers
begin

text \<open>
  What the recovery timers of the firewall handlers are worth. A timer runs a short shell script with
  its parameters as arguments; here is what such a script executes, and the lemmas show that the
  scripts of the control and edit handlers put the tables of \<open>firewall-cmd\<close> back to what they were
  before the request, however far the change has come.
\<close>

section \<open>What a recovery script runs\<close>

text \<open>
  \<open>sh -c script name args\<close> for the scripts above: a line \<open>set -eu\<close>, then one simple command on each
  line, whose words may be quoted and hold the parameters \<open>$0\<close> to \<open>$9\<close>.
\<close>

fun expand :: "string list \<Rightarrow> string \<Rightarrow> string" where
  "expand ps [] = []"
| "expand ps [c] = [c]"
| "expand ps (c # d # s) =
     (if c = CHR ''$'' \<and> digit d
      then (let n = the (char_digit d) in if n < length ps then ps ! n else []) @ expand ps s
      else c # expand ps (d # s))"

definition unquoted :: "string \<Rightarrow> string" where
  "unquoted w = (if has_prefix w [CHR 0x22] then butlast (tl w) else w)"

definition sh_commands :: "string list \<Rightarrow> string list list" where
  "sh_commands worker =
     map (\<lambda>line. map (\<lambda>w. expand (drop 3 worker) (unquoted w)) (split_on (CHR '' '') line))
       (tl (split_on newline (worker ! 2)))"

text \<open>The command line that \<open>systemd-run\<close> is given after its own options.\<close>

definition timer_worker :: "string list \<Rightarrow> string list" where
  "timer_worker argv = dropWhile (\<lambda>w. has_prefix w ''--'') argv"

text \<open>The commands with \<open>firewall-cmd\<close> as the tool; \<open>set -e\<close> stops at the first one that fails.\<close>

fun sh_run :: "'h Tools \<Rightarrow> string list list \<Rightarrow> 'h \<Rightarrow> 'h option" where
  "sh_run t [] h = Some h"
| "sh_run t (cmd # cmds) h =
     (case act t (''firewall-cmd'' # tl cmd) h of (Inl e, h') \<Rightarrow> None | (Inr out, h') \<Rightarrow> sh_run t cmds h')"

definition recovered :: "'h Tools \<Rightarrow> string list \<Rightarrow> 'h \<Rightarrow> 'h option" where
  "recovered t argv h = sh_run t (sh_commands (timer_worker argv)) h"

definition zone_commands :: "string \<Rightarrow> string \<Rightarrow> string \<Rightarrow> string list list" where
  "zone_commands exe zone arg = [exe # tl (zone_cmd False zone arg), exe # tl (zone_cmd True zone arg)]"

lemma sh_run_zone:
  assumes "sh_run t (zone_commands exe zone arg @ cmds) h = Some h2" "table_step t rt pm arg f"
  shows "\<exists>h1. rt h1 = f zone (rt h) \<and> pm h1 = f zone (pm h) \<and> sh_run t cmds h1 = Some h2"
proof -
  from assms(1) obtain o1 h1 o2 h1' where a: "act t (zone_cmd False zone arg) h = (Inr o1, h1)"
    "act t (zone_cmd True zone arg) h1 = (Inr o2, h1')" "sh_run t cmds h1' = Some h2"
    by (auto simp: zone_commands_def zone_cmd_def split: prod.split_asm sum.split_asm)
  have "rt h1 = f zone (rt h) \<and> pm h1 = pm h" using table_step_act [OF assms(2) a(1)] by auto
  moreover have "rt h1' = rt h1 \<and> pm h1' = f zone (pm h1)" using table_step_act [OF assms(2) a(2)] by auto
  ultimately show ?thesis using a(3) by auto
qed

section \<open>Arming\<close>

definition armed ::
  "'h Timers \<Rightarrow> nat list res \<Rightarrow> int \<Rightarrow> 'h \<Rightarrow> string \<times> int \<Rightarrow> string list \<Rightarrow> 'h \<Rightarrow> bool" where
  "armed tm rand now h unit_deadline argv h1 \<longleftrightarrow>
     tm_run tm argv h = (Inr (), h1) \<and> snd unit_deadline = now + 120000 \<and> ''--unit='' @ fst unit_deadline \<in> set argv \<and>
     (\<exists>bs. rand = Inr bs \<and> fst unit_deadline = ''xport-fw-restore-'' @ hex_encode bs)"

definition unarmed :: "'h Timers \<Rightarrow> 'h \<Rightarrow> 'h \<Rightarrow> bool" where
  "unarmed tm h h1 \<longleftrightarrow> h1 = h \<or> (\<exists>argv e. tm_run tm argv h = (Inl e, h1))"

lemma worker_after_options:
  "timer_worker ([''--quiet'', ''--unit='' @ u, ''--on-active=120s'', ''--timer-property=AccuracySec=1s'',
      ''--property=Type=exec'', ''--property=NoNewPrivileges=yes''] @ ''/bin/sh'' # worker) = ''/bin/sh'' # worker"
  by (simp add: timer_worker_def has_prefix_def)

lemma arm_timer_cases:
  assumes "arm_timer tm rand now failed (''/bin/sh'' # worker) h = (r, h1)"
  shows "(\<exists>e. r = Inl e) \<and> unarmed tm h h1 \<or>
    (\<exists>ud argv. r = Inr ud \<and> armed tm rand now h ud argv h1 \<and> timer_worker argv = ''/bin/sh'' # worker)"
proof (cases rand)
  case (Inl e)
  then show ?thesis using assms by (auto simp: arm_timer_def unarmed_def)
next
  case (Inr bs)
  let ?argv = "[''--quiet'', ''--unit='' @ ''xport-fw-restore-'' @ hex_encode bs, ''--on-active=120s'',
    ''--timer-property=AccuracySec=1s'', ''--property=Type=exec'', ''--property=NoNewPrivileges=yes''] @ ''/bin/sh'' # worker"
  obtain r1 h2 where run: "tm_run tm ?argv h = (r1, h2)" by (cases "tm_run tm ?argv h")
  show ?thesis
  proof (cases r1)
    case (Inl e)
    then have "r = Inl (Errorf failed [] [e])" "h1 = h2"
      using assms run by (simp_all add: arm_timer_def Inr)
    then show ?thesis using run Inl unfolding unarmed_def by blast
  next
    case Inr': (Inr u)
    have "r = Inr (''xport-fw-restore-'' @ hex_encode bs, now + 120000)" "h1 = h2"
      using assms run Inr' by (simp_all add: arm_timer_def Inr)
    moreover have "armed tm rand now h (''xport-fw-restore-'' @ hex_encode bs, now + 120000) ?argv h2"
      using run Inr' by (simp add: armed_def Inr)
    ultimately show ?thesis using worker_after_options by blast
  qed
qed

lemma arm_cases:
  assumes "(if c then (Inl e0, h) else case path of Inl e \<Rightarrow> (Inl e, h)
     | Inr x \<Rightarrow> arm_timer tm rand now failed (''/bin/sh'' # worker x) h) = (r, h1)"
  obtains (unarmed) e where "r = Inl e" "unarmed tm h h1"
  | (armed) ud argv x where "\<not> c" "path = Inr x" "r = Inr ud" "armed tm rand now h ud argv h1" "timer_worker argv = ''/bin/sh'' # worker x"
proof (cases c)
  case True
  then show ?thesis using assms that(1) by (auto simp: unarmed_def)
next
  case False
  show ?thesis
  proof (cases path)
    case (Inl e)
    then show ?thesis using assms that(1) False by (auto simp: unarmed_def)
  next
    case (Inr x)
    then have "arm_timer tm rand now failed (''/bin/sh'' # worker x) h = (r, h1)" using assms False by simp
    from arm_timer_cases [OF this] that False Inr show ?thesis by blast
  qed
qed

lemma add_port_script:
  "sh_commands [''/bin/sh'', ''-c'',
      ''set -eu'' @ script_line [quoted ''$1'', quoted ''--zone=$2'', quoted ''--add-port=$3/$4''] @
      script_line [quoted ''$1'', ''--permanent'', quoted ''--zone=$2'', quoted ''--add-port=$3/$4''],
      name, exe, zone, itoa port, proto] = zone_commands exe zone (''--add-port='' @ port_spec port proto)"
  by (simp add: sh_commands_def script_line_def quoted_def unquoted_def digit_def char_digit_def newline_def
      has_prefix_def zone_commands_def zone_cmd_def port_spec_def)

lemma rich_script:
  "sh_commands [''/bin/sh'', ''-c'',
      ''set -eu'' @ script_line [quoted ''$1'', quoted ''--zone=$2'', quoted ''$3$4''] @
      script_line [quoted ''$1'', ''--permanent'', quoted ''--zone=$2'', quoted ''$3$4''],
      name, exe, zone, edit, rich] = zone_commands exe zone (edit @ rich)"
  by (simp add: sh_commands_def script_line_def quoted_def unquoted_def digit_def char_digit_def newline_def
      has_prefix_def zone_commands_def zone_cmd_def)

lemma edit_script:
  "sh_commands [''/bin/sh'', ''-c'',
      ''set -eu'' @ script_line [quoted ''$1'', quoted ''--zone=$2'', quoted ''--add-port=$3/$4''] @
      script_line [quoted ''$1'', ''--permanent'', quoted ''--zone=$2'', quoted ''--add-port=$3/$4''] @
      script_line [quoted ''$1'', quoted ''--zone=$2'', quoted ''--remove-port=$5/$6''] @
      script_line [quoted ''$1'', ''--permanent'', quoted ''--zone=$2'', quoted ''--remove-port=$5/$6''],
      name, exe, zone, itoa oldPort, oldProto, itoa newPort, newProto] =
    zone_commands exe zone (''--add-port='' @ port_spec oldPort oldProto) @
    zone_commands exe zone (''--remove-port='' @ port_spec newPort newProto)"
  by (simp add: sh_commands_def script_line_def quoted_def unquoted_def digit_def char_digit_def newline_def
      has_prefix_def zone_commands_def zone_cmd_def port_spec_def)

lemma ScheduleFirewallRestore_cases:
  assumes "ScheduleFirewallRestore tm rand now ''firewalld'' port proto zone h = (r, h1)"
  obtains (unarmed) e where "r = Inl e" "unarmed tm h h1"
  | (armed) ud argv exe where "r = Inr ud" "armed tm rand now h ud argv h1"
      "sh_commands (timer_worker argv) = zone_commands exe zone (''--add-port='' @ port_spec port proto)"
proof (cases "ValidRule port proto \<and> ValidZone zone")
  case False
  then show ?thesis using assms that(1) by (auto simp: ScheduleFirewallRestore_def unarmed_def split: if_split_asm)
next
  case True
  let ?w = "\<lambda>exe. [''-c'',
      ''set -eu'' @ script_line [quoted ''$1'', quoted ''--zone=$2'', quoted ''--add-port=$3/$4''] @
      script_line [quoted ''$1'', ''--permanent'', quoted ''--zone=$2'', quoted ''--add-port=$3/$4''],
      ''xport-recovery'', exe, zone, itoa port, proto]"
  have "(if False then (Inl (ErrNew []), h) else case tool_path tm ''firewall-cmd'' ''recovery utility unavailable: %w'' ''invalid recovery utility path'' of
      Inl e \<Rightarrow> (Inl e, h) | Inr exe \<Rightarrow> arm_timer tm rand now ''could not schedule firewall restore: %w: %s'' (''/bin/sh'' # ?w exe) h) = (r, h1)"
    using assms True by (simp add: ScheduleFirewallRestore_def cong: sum.case_cong)
  then show ?thesis
    by (rule arm_cases) (rule that(1), assumption+, rule that(2), assumption+, simp only:, rule add_port_script)
qed

lemma ScheduleFirewallDropUndo_cases:
  assumes "ScheduleFirewallDropUndo tm rand now undo port proto zone h = (r, h1)"
  obtains (unarmed) e where "r = Inl e" "unarmed tm h h1"
  | (armed) ud argv exe rich where "r = Inr ud" "armed tm rand now h ud argv h1" "RichDropText port proto = Inr rich"
      "sh_commands (timer_worker argv) =
         zone_commands exe zone ((if undo = ''remove'' then ''--remove-rich-rule='' else ''--add-rich-rule='') @ rich)"
proof (cases "(undo = ''add'' \<or> undo = ''remove'') \<and> ValidRule port proto \<and> ValidZone zone")
  case False
  then show ?thesis using assms that(1) by (auto simp: ScheduleFirewallDropUndo_def unarmed_def split: if_split_asm)
next
  case True
  let ?path = "bindR (RichDropText port proto) (\<lambda>rich.
                  bindR (tool_path tm ''firewall-cmd'' ''firewall-cmd recovery unavailable: %w''
                           ''invalid firewalld executable'') (\<lambda>exe. Inr (rich, exe)))"
  let ?edit = "if undo = ''remove'' then ''--remove-rich-rule='' else ''--add-rich-rule=''"
  let ?w = "\<lambda>(rich, exe). [''-c'',
             ''set -eu'' @ script_line [quoted ''$1'', quoted ''--zone=$2'', quoted ''$3$4''] @
             script_line [quoted ''$1'', ''--permanent'', quoted ''--zone=$2'', quoted ''$3$4''],
             ''xport-rich-recovery'', exe, zone, ?edit, rich]"
  have "(if False then (Inl (ErrNew []), h) else case ?path of
      Inl e \<Rightarrow> (Inl e, h) | Inr x \<Rightarrow> arm_timer tm rand now ''cannot schedule rich recovery: %w: %s'' (''/bin/sh'' # ?w x) h) = (r, h1)"
    using assms True by (auto simp: ScheduleFirewallDropUndo_def split: sum.split_asm)
  then show ?thesis
  proof (rule arm_cases)
    fix ud argv x assume a: "?path = Inr x" "r = Inr ud" "armed tm rand now h ud argv h1" "timer_worker argv = ''/bin/sh'' # ?w x"
    obtain rich exe where x: "x = (rich, exe)" "RichDropText port proto = Inr rich" using a(1) by auto
    show ?thesis
      by (rule that(2) [OF a(2,3) x(2), of exe]) (simp only: a(4) x(1) prod.case, rule rich_script)
  qed (rule that(1))
qed

lemma ScheduleFirewallEditUndo_cases:
  assumes "ScheduleFirewallEditUndo tm rand now oldPort oldProto newPort newProto zone h = (r, h1)"
  obtains (unarmed) e where "r = Inl e" "unarmed tm h h1"
  | (armed) ud argv exe where "r = Inr ud" "armed tm rand now h ud argv h1"
      "sh_commands (timer_worker argv) = zone_commands exe zone (''--add-port='' @ port_spec oldPort oldProto) @
         zone_commands exe zone (''--remove-port='' @ port_spec newPort newProto)"
proof (cases "ValidRule oldPort oldProto \<and> ValidRule newPort newProto \<and> ValidZone zone \<and> (oldPort \<noteq> newPort \<or> oldProto \<noteq> newProto)")
  case False
  then show ?thesis using assms that(1) by (auto simp: ScheduleFirewallEditUndo_def unarmed_def split: if_split_asm)
next
  case True
  let ?w = "\<lambda>exe. [''-c'',
      ''set -eu'' @ script_line [quoted ''$1'', quoted ''--zone=$2'', quoted ''--add-port=$3/$4''] @
      script_line [quoted ''$1'', ''--permanent'', quoted ''--zone=$2'', quoted ''--add-port=$3/$4''] @
      script_line [quoted ''$1'', quoted ''--zone=$2'', quoted ''--remove-port=$5/$6''] @
      script_line [quoted ''$1'', ''--permanent'', quoted ''--zone=$2'', quoted ''--remove-port=$5/$6''],
      ''xport-external-recovery'', exe, zone, itoa oldPort, oldProto, itoa newPort, newProto]"
  have "(if False then (Inl (ErrNew []), h) else case tool_path tm ''firewall-cmd'' ''external rule recovery utility unavailable: %w''
      ''invalid firewalld executable'' of
      Inl e \<Rightarrow> (Inl e, h) | Inr exe \<Rightarrow> arm_timer tm rand now ''cannot schedule external rule recovery: %w: %s'' (''/bin/sh'' # ?w exe) h) = (r, h1)"
    using assms True by (auto simp: ScheduleFirewallEditUndo_def split: sum.split_asm)
  then show ?thesis
    by (rule arm_cases) (rule that(1), assumption+, rule that(2), assumption+, simp only:, rule edit_script)
qed

section \<open>What the checks know of the tables\<close>

lemma unmarked_id: "r_ID (unmarked r) = r_ID r"
  by (simp add: unmarked_def)

lemma listed_allowance:
  assumes "port_spec p proto \<in> set (port_specs t h zone b)" "ValidRule p proto"
    and rules: "unmarked ` set (sn_Rules snap) = (\<Union>z \<in> set (sn_Zones snap). zone_listed t h z)"
    and "zone \<in> set (sn_Zones snap)"
  obtains r where "r \<in> set (sn_Rules snap)" "r_ID r = RuleID ''firewalld'' zone p proto" "r_Port r = p"
    "r_Protocol r = proto" "r_Zone r = zone" "\<not> IsRange r"
proof -
  let ?spec = "port_spec p proto"
  let ?x = "port_rule ((new_port_rule zone ?spec (the (ParsePortSpec ?spec)))
      \<lparr>r_Runtime := ?spec \<in> set (port_specs t h zone False), r_Permanent := ?spec \<in> set (port_specs t h zone True)\<rparr>)"
  have "?spec \<in> set (port_specs t h zone False) \<union> set (port_specs t h zone True)"
    using assms(1) by (cases b) auto
  then have "?x \<in> zone_listed t h zone"
    unfolding zone_listed_def port_listed_def by (intro UnI1 imageI) (simp add: single_spec [OF assms(2)])
  with assms(4) have "?x \<in> unmarked ` set (sn_Rules snap)" unfolding rules by (rule UN_I)
  then obtain r where r: "r \<in> set (sn_Rules snap)" "unmarked r = ?x" by (elim imageE) (rule that, simp_all)
  have "r_ID (unmarked r) = RuleID ''firewalld'' zone p proto \<and> r_Port (unmarked r) = p \<and> r_Protocol (unmarked r) = proto \<and>
      r_Zone (unmarked r) = zone \<and> \<not> IsRange (unmarked r)"
    unfolding r(2) using single_spec [OF assms(2)]
    by (simp add: port_rule_def new_port_rule_def IsRange_def zero_Rule_def RuleID_def)
  then show ?thesis using that [OF r(1)] by (simp only: unmarked_view unmarked_id simp_thms)
qed

lemma allowance_view:
  assumes "r \<in> set (sn_Rules snap)" "r_Kind r \<noteq> ''rich''"
    and rules: "unmarked ` set (sn_Rules snap) = (\<Union>z \<in> set (sn_Zones snap). zone_listed t h z)"
    and valid: "\<forall>z \<in> set (sn_Zones snap). ValidZone z"
  obtains spec ps where "ParsePortSpec spec = Some ps" "r_ID r = ''firewalld:'' @ r_Zone r @ '':'' @ spec"
    "r_Zone r \<in> set (sn_Zones snap)" "r_Port r = r_Port ps" "r_Protocol r = r_Protocol ps" "IsRange r = IsRange ps"
    "r_Runtime r \<longleftrightarrow> spec \<in> set (port_specs t h (r_Zone r) False)"
    "r_Permanent r \<longleftrightarrow> spec \<in> set (port_specs t h (r_Zone r) True)"
proof -
  obtain z where z: "z \<in> set (sn_Zones snap)" "unmarked r \<in> zone_listed t h z" using assms(1) rules by blast
  have zz: "r_Zone r = z" using zone_listed_ok [OF z(2)] valid z(1) by (auto simp: unmarked_view)
  have "unmarked r \<notin> rich_listed z rs ps" for rs ps
  proof
    assume "unmarked r \<in> rich_listed z rs ps"
    then obtain l q a b where q: "parseSimpleRichRule l z = Some q"
      and u: "unmarked r = q\<lparr>r_Runtime := a, r_Permanent := b\<rparr>" by (auto simp: rich_listed_def)
    have "r_Kind q = ''rich''" by (rule parse_richE [OF q]) (simp add: rich_rule_def)
    then have "r_Kind (unmarked r) = ''rich''" by (simp add: u)
    with assms(2) show False by (simp add: unmarked_view)
  qed
  then have "unmarked r \<in> port_listed z (port_specs t h z False) (port_specs t h z True)"
    using z(2) by (auto simp: zone_listed_def)
  from zone_cmd_listed [OF this] obtain spec ps where s: "ParsePortSpec spec = Some ps"
    and x: "unmarked r = port_rule ((new_port_rule z spec ps)\<lparr>r_Runtime := spec \<in> set (port_specs t h z False),
      r_Permanent := spec \<in> set (port_specs t h z True)\<rparr>)" by blast
  have "r_ID (unmarked r) = ''firewalld:'' @ z @ '':'' @ spec \<and> r_Port (unmarked r) = r_Port ps \<and>
      r_Protocol (unmarked r) = r_Protocol ps \<and> IsRange (unmarked r) = IsRange ps \<and>
      (r_Runtime (unmarked r) \<longleftrightarrow> spec \<in> set (port_specs t h z False)) \<and>
      (r_Permanent (unmarked r) \<longleftrightarrow> spec \<in> set (port_specs t h z True))"
    unfolding x by (simp add: port_rule_def new_port_rule_def IsRange_def)
  then show ?thesis using that [OF s] z(1) unfolding zz by (simp only: unmarked_view unmarked_id simp_thms)
qed

text \<open>A rule of the snapshot that is in both configurations is in both tables.\<close>

lemma allowance_in_tables:
  assumes "go_orders t" "Inspect t h = Inr snap" "sn_Backend snap = ''firewalld''" "port_tables t rt pm"
    and "r \<in> set (sn_Rules snap)" "r_Kind r = ''port''" "r_Runtime r" "r_Permanent r"
    and "\<not> IsRange r \<and> spec = port_spec (r_Port r) (r_Protocol r) \<or> r_ID r = ''firewalld:'' @ r_Zone r @ '':'' @ spec"
  shows "(r_Zone r, spec) \<in> rt h \<and> (r_Zone r, spec) \<in> pm h \<and> r_ID r = ''firewalld:'' @ r_Zone r @ '':'' @ spec"
proof -
  note f = inspect_firewalld_facts [OF assms(2,3,1)]
  have rules: "unmarked ` set (sn_Rules snap) = (\<Union>z \<in> set (sn_Zones snap). zone_listed t h z)"
    and valid: "\<forall>z \<in> set (sn_Zones snap). ValidZone z" and rd: "\<forall>z \<in> set (sn_Zones snap). ports_readable t h z"
    using f by - (elim conjE, assumption)+
  have "r_Kind r \<noteq> ''rich''" using assms(6) by simp
  from allowance_view [OF assms(5) this rules valid] obtain spec' ps where v: "ParsePortSpec spec' = Some ps"
    "r_ID r = ''firewalld:'' @ r_Zone r @ '':'' @ spec'" "r_Zone r \<in> set (sn_Zones snap)" "r_Port r = r_Port ps"
    "r_Protocol r = r_Protocol ps" "IsRange r = IsRange ps"
    "r_Runtime r \<longleftrightarrow> spec' \<in> set (port_specs t h (r_Zone r) False)"
    "r_Permanent r \<longleftrightarrow> spec' \<in> set (port_specs t h (r_Zone r) True)" .
  have "spec = spec'" using assms(9) ParsePortSpec_sound [OF v(1)] v(2,4,5,6) by auto
  with v assms(7,8) listed_in_table [OF assms(4), of h "r_Zone r"] rd show ?thesis by auto
qed

lemma absent_in_tables:
  assumes "go_orders t" "Inspect t h = Inr snap" "sn_Backend snap = ''firewalld''" "port_tables t rt pm"
    and "zone \<in> set (sn_Zones snap)" "ValidRule p proto"
    and none: "\<And>r. r \<in> set (sn_Rules snap) \<Longrightarrow> r_ID r = RuleID ''firewalld'' zone p proto \<Longrightarrow> r_Port r = p \<Longrightarrow>
      r_Protocol r = proto \<Longrightarrow> r_Zone r = zone \<Longrightarrow> \<not> IsRange r \<Longrightarrow> False"
  shows "(zone, port_spec p proto) \<notin> rt h \<and> (zone, port_spec p proto) \<notin> pm h"
proof -
  note f = inspect_firewalld_facts [OF assms(2,3,1)]
  have rules: "unmarked ` set (sn_Rules snap) = (\<Union>z \<in> set (sn_Zones snap). zone_listed t h z)"
    and rd: "\<forall>z \<in> set (sn_Zones snap). ports_readable t h z"
    using f by - (elim conjE, assumption)+
  have "port_spec p proto \<notin> set (port_specs t h zone b)" for b
    by (rule notI, erule listed_allowance [OF _ assms(6) rules assms(5)], erule none)
  with listed_in_table [OF assms(4), of h zone] rd assms(5) show ?thesis by auto
qed

lemma drop_in_tables:
  assumes "go_orders t" "Inspect t h = Inr snap" "sn_Backend snap = ''firewalld''" "sn_Writable snap" "rich_tables t rt pm"
    and "zone \<in> set (sn_Zones snap)" "RichDropText port proto = Inr rich"
  shows "filter (rule_matches port proto zone) (sn_Rules snap) = [] \<Longrightarrow> (zone, rich) \<notin> rt h \<and> (zone, rich) \<notin> pm h"
    and "r \<in> set (sn_Rules snap) \<Longrightarrow> rule_matches port proto zone r \<Longrightarrow> own_drop r \<Longrightarrow> (zone, rich) \<in> rt h \<and> (zone, rich) \<in> pm h"
proof -
  note f = inspect_firewalld_facts [OF assms(2,3,1)]
  have rules: "unmarked ` set (sn_Rules snap) = (\<Union>z \<in> set (sn_Zones snap). zone_listed t h z)"
    and valid: "\<forall>z \<in> set (sn_Zones snap). ValidZone z" and "zone_readable t h zone"
    using f assms(4,6) by - (elim conjE, simp)+
  note tables = rich_in_table [OF assms(5) this(3)]
  have "rich \<noteq> []" by (rule RichDropText_not_Nil [OF assms(7)])
  with eqset_imp_iff [OF tables(1), of rich] eqset_imp_iff [OF tables(2), of rich]
  have tab: "(zone, rich) \<in> rt h \<longleftrightarrow> rich \<in> trim_space ` set (rich_lines t h zone False)"
    "(zone, rich) \<in> pm h \<longleftrightarrow> rich \<in> trim_space ` set (rich_lines t h zone True)" by simp_all
  show "filter (rule_matches port proto zone) (sn_Rules snap) = [] \<Longrightarrow> (zone, rich) \<notin> rt h \<and> (zone, rich) \<notin> pm h"
    unfolding tab by (intro conjI no_rule_no_drop [OF _ assms(7) rules assms(6)])
  show "r \<in> set (sn_Rules snap) \<Longrightarrow> rule_matches port proto zone r \<Longrightarrow> own_drop r \<Longrightarrow> (zone, rich) \<in> rt h \<and> (zone, rich) \<in> pm h"
    unfolding tab by (intro conjI own_drop_listed [OF _ _ _ assms(7) rules valid])
qed

section \<open>What the helper leaves behind\<close>

lemma run_helper_cases:
  assumes "run_helper tm f h = (r, h')"
  shows "(\<exists>e. r = Inl e) \<and> h' = h \<or> (\<exists>r'. f h = (r', h') \<and> (\<forall>v. r = Inr v \<longrightarrow> r' = Inr v))"
  using assms by (auto simp: run_helper_def split: option.split_asm sum.split_asm prod.split_asm)

definition partly_made ::
  "('h \<Rightarrow> table) \<Rightarrow> ('h \<Rightarrow> table) \<Rightarrow> (table \<Rightarrow> table) \<Rightarrow> 'h \<Rightarrow> unit res \<times> 'h \<Rightarrow> bool" where
  "partly_made rt pm f h y \<longleftrightarrow>
     rt (snd y) \<in> {rt h, f (rt h)} \<and> pm (snd y) \<in> {pm h, f (pm h)} \<and>
     (\<forall>u. fst y = Inr u \<longrightarrow> rt (snd y) = f (rt h) \<and> pm (snd y) = f (pm h))"

lemma made_partly: "made_in_both rt pm f failed restored h y \<Longrightarrow> partly_made rt pm f h y"
  by (auto simp: made_in_both_def partly_made_def split: prod.split_asm sum.split_asm)

lemma refused_partly: "refused h y \<Longrightarrow> partly_made rt pm f h y"
  by (auto simp: refused_def partly_made_def)

lemma run_helper_partly:
  assumes "partly_made rt pm f h (g h)"
  shows "partly_made rt pm f h (run_helper tm g h)"
proof -
  obtain r h' where y: "run_helper tm g h = (r, h')" by (cases "run_helper tm g h")
  from run_helper_cases [OF this] assms show ?thesis
    unfolding y by (auto simp: partly_made_def)
qed

lemma Change_elsewhere:
  assumes "\<not> fst (runningManagers t h)" "zone \<noteq> []"
  shows "refused h (Change t action p proto zone h)"
proof (cases "Inspect t h")
  case (Inl e)
  then show ?thesis by (simp add: Change_def refused_def)
next
  case (Inr snap)
  have b: "sn_Backend snap \<noteq> ''firewalld''"
    using Inspect_backend [OF Inr] assms(1) by (auto simp: backend_of_def split: if_split_asm prod.split)
  show ?thesis
    unfolding Change_def Inr sum.case Let_def change_ufw_def
    by (simp add: b assms(2) refused_def)
qed

lemma Change_partly:
  assumes "go_orders t" "port_tables t rt pm" "zone \<noteq> []"
  shows "partly_made rt pm (edit_table action zone (port_spec p proto)) h (Change t action p proto zone h)"
proof (cases "fst (runningManagers t h)")
  case True
  show ?thesis by (rule made_partly [OF conjunct1 [OF Change_made [OF assms(1,2) True]]])
next
  case False
  show ?thesis by (rule refused_partly [OF Change_elsewhere [OF False assms(3)]])
qed

lemma valid_port_text: "ValidRule p proto \<Longrightarrow> atoi (itoa p) = Some p"
  by (rule atoi_itoa) (auto simp: ValidRule_def)

lemma ApplyFirewall_partly:
  assumes "go_orders t" "port_tables t rt pm" "zone \<noteq> []"
  shows "partly_made rt pm (edit_table action zone (port_spec p proto)) h (ApplyFirewall tm t action p proto zone h)"
proof -
  have r: "partly_made rt pm f h (Inl e, h)" for e f by (simp add: refused_partly refused_def)
  have "partly_made rt pm (edit_table action zone (port_spec p proto)) h (firewallApplyHelper t [action, itoa p, proto, zone] h)"
    if "ValidRule p proto" using Change_partly [OF assms] r that by (simp add: valid_port_text)
  then show ?thesis unfolding ApplyFirewall_def
    by (auto simp del: firewallApplyHelper.simps simp: r intro!: run_helper_partly)
qed

lemma ApplySimpleDrop_partly:
  assumes "go_orders t" "rich_tables t rt pm" "RichDropText p proto = Inr rich"
  shows "partly_made rt pm (edit_table action zone rich) h (ApplySimpleDrop tm t action p proto zone h)"
proof -
  have r: "partly_made rt pm f h (Inl e, h)" for e f by (simp add: refused_partly refused_def)
  have "partly_made rt pm (edit_table action zone rich) h (firewallPolicyHelper t [action, itoa p, proto, zone] h)"
    if "ValidRule p proto"
    using made_partly [OF conjunct1 [OF ChangeSimpleDrop_made [OF assms]]] r that by (simp add: valid_port_text)
  then show ?thesis unfolding ApplySimpleDrop_def
    by (auto simp del: firewallPolicyHelper.simps simp: r intro!: run_helper_partly)
qed

lemma undone:
  assumes "partly_made rt pm (edit_table action zone entry) h (r, h')"
    and "(zone, entry) \<in> rt h \<longleftrightarrow> action = ''remove''" "(zone, entry) \<in> pm h \<longleftrightarrow> action = ''remove''"
    and "rt h2 = edit_table undo zone entry (rt h')" "pm h2 = edit_table undo zone entry (pm h')"
    and "undo = ''remove'' \<longleftrightarrow> action \<noteq> ''remove''"
  shows "rt h2 = rt h \<and> pm h2 = pm h"
  using assms by (auto simp: partly_made_def edit_table_def)

lemma edit_step:
  assumes "table_edits t rt pm add remove"
  shows "table_step t rt pm ((if action = ''remove'' then remove else add) @ entry) (\<lambda>zone. edit_table action zone entry)"
proof -
  have "(\<lambda>zone. edit_table action zone entry) =
      (if action = ''remove'' then (\<lambda>zone T. T - {(zone, entry)}) else (\<lambda>zone. insert (zone, entry)))"
    by (intro ext) (simp add: edit_table_def)
  with assms show ?thesis by (simp add: table_edits_def)
qed

section \<open>Control\<close>

lemma InspectFirewall_ok: "InspectFirewall tm t h = Inr snap \<Longrightarrow> Inspect t h = Inr snap"
  by (auto simp: InspectFirewall_def ask_helper_def run_helper_def split: option.split_asm sum.split_asm)

lemma control_gate_ok:
  assumes "control_gate c tm t q action given port proto zone db h = Inr (m, target)"
  shows "given = control_id action port proto zone \<and> ValidRule port proto \<and> ValidZone zone \<and>
    (\<exists>snap. Inspect t h = Inr snap \<and> sn_Writable snap \<and> sn_Backend snap = ''firewalld'' \<and> zone \<in> set (sn_Zones snap) \<and>
       control_target zone port proto given (sn_Rules snap) = Inr (m, target))"
proof -
  obtain snap where s: "InspectFirewall tm t h = Inr snap"
    using assms by (cases "InspectFirewall tm t h") (auto simp: control_gate_def split: if_split_asm)
  from assms show ?thesis
    unfolding control_gate_def s sum.case InspectFirewall_ok [OF s]
    by (auto split: if_split_asm sum.split_asm)
qed

lemma control_checks_gate:
  "control_checks c tm t q action given port proto zone db h = Inr mt \<Longrightarrow>
   control_gate c tm t q action given port proto zone db h = Inr mt"
  unfolding control_checks_def by (auto split: if_split_asm sum.split_asm option.split_asm)

lemma control_target_ok:
  assumes "control_target zone port proto i rules = Inr (m, target)"
  defines "on_port \<equiv> filter (\<lambda>r. ContainsPort r port \<and> r_Protocol r = proto) rules"
  shows "m = length on_port" "r \<in> set on_port \<Longrightarrow> r_Zone r = zone \<and> \<not> r_Conflict r"
    "target = zero_Rule \<or> target \<in> set on_port \<and> r_ID target = i"
proof -
  from assms(1) have f: "find (\<lambda>r. r_Zone r \<noteq> zone \<or> r_Conflict r) on_port = None" "m = length on_port"
    "target = (case find (\<lambda>r. r_ID r = i) on_port of None \<Rightarrow> zero_Rule | Some r \<Rightarrow> r)"
    by (auto simp: control_target_def Let_def on_port_def split: option.split_asm if_split_asm)
  show "m = length on_port" by (rule f(2))
  show "r \<in> set on_port \<Longrightarrow> r_Zone r = zone \<and> \<not> r_Conflict r" using f(1) by (auto simp: find_None_iff)
  show "target = zero_Rule \<or> target \<in> set on_port \<and> r_ID target = i"
    unfolding f(3) by (auto simp: find_Some_iff split: option.split)
qed

definition control_entry :: "string \<Rightarrow> int \<Rightarrow> string \<Rightarrow> string" where
  "control_entry action port proto =
     (if action = ''pause-allow'' then port_spec port proto
      else (case RichDropText port proto of Inl e \<Rightarrow> [] | Inr rich \<Rightarrow> rich))"

definition control_tables :: "string \<Rightarrow> 'h Tools \<Rightarrow> ('h \<Rightarrow> table) \<Rightarrow> ('h \<Rightarrow> table) \<Rightarrow> bool" where
  "control_tables action t rt pm \<longleftrightarrow>
     (if action = ''pause-allow'' then port_tables t rt pm else rich_tables t rt pm)"

definition control_edit :: "string \<Rightarrow> string" where
  "control_edit action = (if action = ''add-drop'' then ''add'' else ''remove'')"

definition change_actions :: "string list" where
  "change_actions = [''add-drop'', ''remove-drop'', ''pause-drop'', ''pause-allow'']"

lemma control_known:
  assumes "go_orders t" "control_tables action t rt pm"
    and gate: "control_gate c tm t q action given port proto zone db h = Inr (m, target)"
    and ready: "control_ready q action given m target port proto zone db = Inr rule"
    and "action \<in> set change_actions"
  shows "((zone, control_entry action port proto) \<in> rt h \<longleftrightarrow> control_edit action = ''remove'') \<and>
    ((zone, control_entry action port proto) \<in> pm h \<longleftrightarrow> control_edit action = ''remove'')"
proof -
  let ?on = "\<lambda>snap. filter (\<lambda>r. ContainsPort r port \<and> r_Protocol r = proto) (sn_Rules snap)"
  from control_gate_ok [OF gate] obtain snap where given: "given = control_id action port proto zone"
    and v: "ValidRule port proto" and i: "Inspect t h = Inr snap" "sn_Writable snap" "sn_Backend snap = ''firewalld''"
    "zone \<in> set (sn_Zones snap)" and target: "control_target zone port proto given (sn_Rules snap) = Inr (m, target)"
    by - (elim conjE exE, rule that)
  note on = control_target_ok [OF target]
  obtain rich where rich: "RichDropText port proto = Inr rich" using v by (auto simp: RichDropText_def)
  consider (allow) "action = ''pause-allow''" | (add) "action = ''add-drop''"
    | (drop) "action = ''remove-drop'' \<or> action = ''pause-drop''"
    using assms(5) by (auto simp: change_actions_def)
  then show ?thesis
  proof cases
    case allow
    have t: "m = 1" "r_ID target = given" "r_Kind target = ''port''" "r_Runtime target" "r_Permanent target"
      using ready by (auto simp: control_ready_def allow split: if_split_asm)
    then have "target \<in> set (?on snap)" using on(3) by (auto simp: zero_Rule_def)
    then have r: "target \<in> set (sn_Rules snap)" "r_Zone target = zone" using on(2) by auto
    have "r_ID target = ''firewalld:'' @ r_Zone target @ '':'' @ port_spec port proto"
      by (simp add: t(2) given allow control_id_def RuleID_def r(2))
    moreover have "port_tables t rt pm" using assms(2) by (simp add: control_tables_def allow)
    ultimately show ?thesis
      using allowance_in_tables [OF assms(1) i(1,3) _ r(1) t(3,4,5)] r(2)
      by (simp add: control_entry_def control_edit_def allow)
  next
    case add
    have "m = 0" using ready by (auto simp: control_ready_def add split: if_split_asm)
    then have "?on snap = []" using on(1) by simp
    then have "filter (rule_matches port proto zone) (sn_Rules snap) = []" by (auto simp: filter_empty_conv rule_matches_def)
    moreover have "rich_tables t rt pm" using assms(2) by (simp add: control_tables_def add)
    ultimately show ?thesis
      using drop_in_tables(1) [OF assms(1) i(1,3,2) _ i(4) rich] by (simp add: control_entry_def control_edit_def add rich)
  next
    case drop
    have t: "m = 1" "r_ID target = given" "r_Kind target = ''rich''" "r_Action target = ''deny''"
      "r_Family target = ''both''" "r_Runtime target" "r_Permanent target"
      using ready drop by (auto simp: control_ready_def split: if_split_asm)
    then have o: "target \<in> set (?on snap)" using on(3) by (auto simp: zero_Rule_def)
    then have r: "target \<in> set (sn_Rules snap)" "rule_matches port proto zone target" "own_drop target"
      using on(2) [OF o] t by (auto simp: rule_matches_def own_drop_def)
    have ne: "action \<noteq> ''pause-allow''" "action \<noteq> ''add-drop''" using drop by auto
    have "rich_tables t rt pm" using assms(2) by (simp add: control_tables_def ne)
    from drop_in_tables(2) [OF assms(1) i(1,3,2) this i(4) rich r] show ?thesis
      by (simp add: control_entry_def control_edit_def ne rich)
  qed
qed

section \<open>Armed before the change, and undone by the timer\<close>

definition recoverable ::
  "Codec \<Rightarrow> 'h Timers \<Rightarrow> 'h Tools \<Rightarrow> Request \<Rightarrow> ('h \<Rightarrow> table) \<Rightarrow> ('h \<Rightarrow> table) \<Rightarrow> (table \<Rightarrow> table) \<Rightarrow> string \<Rightarrow>
   Db \<Rightarrow> 'h \<Rightarrow> reply \<times> Db \<times> 'h \<Rightarrow> bool" where
  "recoverable c tm t q rt pm f i db h y \<longleftrightarrow>
     (case y of (reply, db', h') \<Rightarrow>
        (\<exists>code e. reply = WriteErr code e) \<and> db' = db \<and> unarmed tm h h' \<or>
        (\<exists>ud argv h1. armed tm (q_unit q) (q_now q) h ud argv h1 \<and>
           (\<forall>h2. recovered t argv h' = Some h2 \<longrightarrow> rt h2 = rt h \<and> pm h2 = pm h) \<and>
           (case reply of
              WriteErr code e \<Rightarrow> db' = db
            | WriteOk \<Rightarrow> False
            | Accepted p \<Rightarrow>
                p_ID p = i \<and> p_Unit p = fst ud \<and> p_Deadline p = snd ud \<and>
                look db' (firewallPendingKey i) = Some (enc_pending c p) \<and>
                rt h' = f (rt h) \<and> pm h' = f (pm h))))"

lemma unarmed_recoverable:
  "unarmed tm h h' \<Longrightarrow> recoverable c tm t q rt pm f i db h (WriteErr code e, db, h')"
  unfolding recoverable_def by simp

lemma armed_recoverable:
  assumes "armed tm (q_unit q) (q_now q) h ud argv h1"
    and "\<forall>h2. recovered t argv h' = Some h2 \<longrightarrow> rt h2 = rt h \<and> pm h2 = pm h"
    and "case reply of WriteErr code e \<Rightarrow> db' = db | WriteOk \<Rightarrow> False
      | Accepted p \<Rightarrow> p_ID p = i \<and> p_Unit p = fst ud \<and> p_Deadline p = snd ud \<and>
          look db' (firewallPendingKey i) = Some (enc_pending c p) \<and> rt h' = f (rt h) \<and> pm h' = f (pm h)"
  shows "recoverable c tm t q rt pm f i db h (reply, db', h')"
  unfolding recoverable_def prod.case using assms by blast

lemma save_entry_cases:
  assumes "save_entry c eng p db = (r, db')"
  shows "(case r of Inl e \<Rightarrow> db' = db | Inr p' \<Rightarrow> p' = p \<and> look db' (firewallPendingKey (p_ID p)) = Some (enc_pending c p))"
  using assms
  by (auto simp: save_entry_def Let_def bindR_def dest: SetSetting_fails dest!: SetSetting_ok
      split: prod.split_asm sum.split sum.split_asm)

lemma save_kind_cases:
  assumes "firewallPendingSaveKind c eng rand i unit deadline kind rule db = (r, db')"
  shows "(case r of Inl e \<Rightarrow> db' = db
    | Inr p \<Rightarrow> p_ID p = i \<and> p_Unit p = unit \<and> p_Deadline p = deadline \<and> p_Kind p = kind \<and>
        look db' (firewallPendingKey i) = Some (enc_pending c p))"
  using assms
  by (auto simp: firewallPendingSaveKind_def dest!: save_entry_cases split: sum.split_asm if_split_asm sum.split)

lemma save_edit_cases:
  assumes "firewallPendingExternalEdit c eng rand source destination unit deadline db = (r, db')"
  shows "(case r of Inl e \<Rightarrow> db' = db
    | Inr p \<Rightarrow> p_ID p = r_ID source \<and> p_Unit p = unit \<and> p_Deadline p = deadline \<and> p_Kind p = ''edit-external'' \<and>
        look db' (firewallPendingKey (r_ID source)) = Some (enc_pending c p))"
  using assms
  by (auto simp: firewallPendingExternalEdit_def dest!: save_entry_cases split: sum.split_asm if_split_asm sum.split)

lemma pending_not_audit: "firewallPendingKey i \<noteq> ''firewall_audit''"
  by (simp add: firewallPendingKey_def)

lemma save_pending_recoverable:
  assumes "armed tm (q_unit q) (q_now q) h ud argv h1"
    and "\<forall>h2. recovered t argv h' = Some h2 \<longrightarrow> rt h2 = rt h \<and> pm h2 = pm h"
    and "rt h' = f (rt h)" "pm h' = f (pm h)"
    and saved: "case fst s of Inl e \<Rightarrow> snd s = db
      | Inr p \<Rightarrow> p_ID p = i \<and> p_Unit p = fst ud \<and> p_Deadline p = snd ud \<and>
          look (snd s) (firewallPendingKey i) = Some (enc_pending c p)"
  shows "recoverable c tm t q rt pm f i db h (save_pending c eng now event lost s h')"
proof -
  obtain r db' where s: "s = (r, db')" by (cases s)
  show ?thesis
    unfolding save_pending_def s prod.case
    by (cases r) (use saved in \<open>simp_all add: s armed_recoverable [OF assms(1,2)] assms(3,4) audit_other [OF pending_not_audit]\<close>)
qed

lemma armed_error_recoverable:
  assumes "armed tm (q_unit q) (q_now q) h ud argv h1"
    and "\<forall>h2. recovered t argv h' = Some h2 \<longrightarrow> rt h2 = rt h \<and> pm h2 = pm h"
  shows "recoverable c tm t q rt pm f i db h (WriteErr code e, db, h')"
  by (rule armed_recoverable [OF assms]) simp

definition tables_kept :: "'h Timers \<Rightarrow> ('h \<Rightarrow> table) \<Rightarrow> ('h \<Rightarrow> table) \<Rightarrow> bool" where
  "tables_kept tm rt pm \<longleftrightarrow> (\<forall>argv h r h1. tm_run tm argv h = (r, h1) \<longrightarrow> rt h1 = rt h \<and> pm h1 = pm h)"

lemma armed_keeps: "armed tm rand now h ud argv h1 \<Longrightarrow> tables_kept tm rt pm \<Longrightarrow> rt h1 = rt h \<and> pm h1 = pm h"
  unfolding armed_def tables_kept_def by blast

lemma control_arm_cases:
  assumes "control_arm tm q action port proto zone h = (r, h1)" "action \<in> set change_actions" "ValidRule port proto"
  obtains (unarmed) e where "r = Inl e" "unarmed tm h h1"
  | (armed) ud argv exe where "r = Inr ud" "armed tm (q_unit q) (q_now q) h ud argv h1"
      "sh_commands (timer_worker argv) = zone_commands exe zone
         ((if action = ''pause-allow'' then ''--add-port='' else if action = ''add-drop'' then ''--remove-rich-rule=''
           else ''--add-rich-rule='') @ control_entry action port proto)"
proof -
  consider (allow) "action = ''pause-allow''" | (add) "action = ''add-drop''"
    | (drop) "action = ''remove-drop'' \<or> action = ''pause-drop''"
    using assms(2) by (auto simp: change_actions_def)
  then show ?thesis
  proof cases
    case allow
    then have "ScheduleFirewallRestore tm (q_unit q) (q_now q) ''firewalld'' port proto zone h = (r, h1)"
      using assms(1) by (simp add: control_arm_def)
    then show ?thesis
    proof (rule ScheduleFirewallRestore_cases)
      fix ud argv exe assume "r = Inr ud" "armed tm (q_unit q) (q_now q) h ud argv h1"
        "sh_commands (timer_worker argv) = zone_commands exe zone (''--add-port='' @ port_spec port proto)"
      then show ?thesis using that(2) by (simp add: allow control_entry_def)
    qed (rule that(1))
  next
    case add
    then have "ScheduleFirewallDropUndo tm (q_unit q) (q_now q) ''remove'' port proto zone h = (r, h1)"
      using assms(1) by (simp add: control_arm_def)
    then show ?thesis
    proof (rule ScheduleFirewallDropUndo_cases)
      fix ud argv exe rich assume "r = Inr ud" "armed tm (q_unit q) (q_now q) h ud argv h1" "RichDropText port proto = Inr rich"
        "sh_commands (timer_worker argv) = zone_commands exe zone
          ((if ''remove'' = ''remove'' then ''--remove-rich-rule='' else ''--add-rich-rule='') @ rich)"
      then show ?thesis using that(2) by (simp add: add control_entry_def)
    qed (rule that(1))
  next
    case drop
    then have "ScheduleFirewallDropUndo tm (q_unit q) (q_now q) ''add'' port proto zone h = (r, h1)"
      using assms(1) by (auto simp: control_arm_def)
    then show ?thesis
    proof (rule ScheduleFirewallDropUndo_cases)
      fix ud argv exe rich assume a: "r = Inr ud" "armed tm (q_unit q) (q_now q) h ud argv h1" "RichDropText port proto = Inr rich"
        "sh_commands (timer_worker argv) = zone_commands exe zone
          ((if ''add'' = ''remove'' then ''--remove-rich-rule='' else ''--add-rich-rule='') @ rich)"
      have "action \<noteq> ''pause-allow''" "action \<noteq> ''add-drop''" using drop by auto
      with a show ?thesis using that(2) by (simp add: control_entry_def)
    qed (rule that(1))
  qed
qed

lemma no_paused_error: "no_paused eng ks db = Some r \<Longrightarrow> \<exists>code e. r = WriteErr code e"
  by (induction eng ks db rule: no_paused.induct) (auto split: sum.split_asm if_split_asm)

lemma control_apply_partly:
  assumes "go_orders t" "control_tables action t rt pm" "ValidRule port proto" "ValidZone zone" "action \<in> set change_actions"
  shows "partly_made rt pm (edit_table (control_edit action) zone (control_entry action port proto)) h
    (control_apply tm t action port proto zone h)"
proof -
  have z: "zone \<noteq> []" using assms(4) by (auto simp: ValidZone_def)
  obtain rich where rich: "RichDropText port proto = Inr rich" using assms(3) by (auto simp: RichDropText_def)
  show ?thesis
  proof (cases "action = ''pause-allow''")
    case True
    then show ?thesis using ApplyFirewall_partly [OF assms(1) _ z] assms(2)
      by (simp add: control_apply_def control_entry_def control_edit_def control_tables_def)
  next
    case False
    then show ?thesis using ApplySimpleDrop_partly [OF assms(1) _ rich] assms(2)
      by (simp add: control_apply_def control_entry_def control_edit_def control_tables_def rich)
  qed
qed

lemma control_recovers:
  assumes "control_tables action t rt pm" "action \<in> set change_actions"
    and "sh_commands (timer_worker argv) = zone_commands exe zone
         ((if action = ''pause-allow'' then ''--add-port='' else if action = ''add-drop'' then ''--remove-rich-rule=''
           else ''--add-rich-rule='') @ entry)"
    and "recovered t argv h' = Some h2"
  shows "rt h2 = edit_table (if action = ''add-drop'' then ''remove'' else ''add'') zone entry (rt h') \<and>
    pm h2 = edit_table (if action = ''add-drop'' then ''remove'' else ''add'') zone entry (pm h')"
proof -
  let ?undo = "if action = ''add-drop'' then ''remove'' else ''add''"
  let ?add = "if action = ''pause-allow'' then ''--add-port='' else ''--add-rich-rule=''"
  let ?remove = "if action = ''pause-allow'' then ''--remove-port='' else ''--remove-rich-rule=''"
  have "table_edits t rt pm ?add ?remove"
    using assms(1) by (simp add: control_tables_def port_tables_def rich_tables_def split: if_split_asm)
  note st = edit_step [OF this, of ?undo entry]
  have eq: "(if ?undo = ''remove'' then ?remove else ?add) =
      (if action = ''pause-allow'' then ''--add-port='' else if action = ''add-drop'' then ''--remove-rich-rule=''
           else ''--add-rich-rule='')" by simp
  have "sh_run t (zone_commands exe zone ((if ?undo = ''remove'' then ?remove else ?add) @ entry) @ []) h' = Some h2"
    unfolding eq using assms(3,4) by (simp only: recovered_def append_Nil2)
  from sh_run_zone [OF this st] show ?thesis by (elim exE conjE) (simp only: sh_run.simps option.inject)
qed

lemma control_change_recoverable:
  assumes "go_orders t" "control_tables action t rt pm" "tables_kept tm rt pm" "action \<in> set change_actions"
    and gate: "control_gate c tm t q action given port proto zone db h = Inr (m, target)"
  shows "recoverable c tm t q rt pm (edit_table (control_edit action) zone (control_entry action port proto)) given db h
    (control_change c tm t q action given m target port proto zone db h)"
proof (cases "control_ready q action given m target port proto zone db")
  case (Inl r)
  have "\<exists>code e. r = WriteErr code e"
    using Inl by (auto simp: control_ready_def not_paused_def dest!: no_paused_error split: if_split_asm option.split_asm sum.split_asm)
  then show ?thesis using Inl unarmed_recoverable [of tm h h] by (auto simp: control_change_def unarmed_def)
next
  case (Inr rule)
  note known = control_known [OF assms(1,2) gate Inr assms(4)]
  have v: "ValidRule port proto" "ValidZone zone" using control_gate_ok [OF gate] by blast+
  obtain r1 h1 where arm: "control_arm tm q action port proto zone h = (r1, h1)"
    by (cases "control_arm tm q action port proto zone h")
  from arm assms(4) v(1) show ?thesis
  proof (rule control_arm_cases)
    fix e assume "r1 = Inl e" "unarmed tm h h1"
    then show ?thesis by (simp add: control_change_def Inr arm unarmed_recoverable)
  next
    fix ud argv exe
    assume r1: "r1 = Inr ud" and armed: "armed tm (q_unit q) (q_now q) h ud argv h1"
      and sh: "sh_commands (timer_worker argv) = zone_commands exe zone
         ((if action = ''pause-allow'' then ''--add-port='' else if action = ''add-drop'' then ''--remove-rich-rule=''
           else ''--add-rich-rule='') @ control_entry action port proto)"
    obtain unit deadline where ud: "ud = (unit, deadline)" by (cases ud)
    note kept = armed_keeps [OF armed assms(3)]
    obtain r2 h2 where app: "control_apply tm t action port proto zone h1 = (r2, h2)"
      by (cases "control_apply tm t action port proto zone h1")
    note part = control_apply_partly [OF assms(1,2) v assms(4), where h = h1 and tm = tm, unfolded app]
    have known1: "((zone, control_entry action port proto) \<in> rt h1 \<longleftrightarrow> control_edit action = ''remove'')"
      "((zone, control_entry action port proto) \<in> pm h1 \<longleftrightarrow> control_edit action = ''remove'')" using known kept by simp_all
    have undo: "\<forall>h3. recovered t argv h2 = Some h3 \<longrightarrow> rt h3 = rt h \<and> pm h3 = pm h"
    proof (intro allI impI)
      fix h3 assume rec: "recovered t argv h2 = Some h3"
      note run = control_recovers [OF assms(2,4) sh rec]
      have "rt h3 = rt h1 \<and> pm h3 = pm h1"
        by (rule undone [OF part known1 conjunct1 [OF run] conjunct2 [OF run]]) (simp add: control_edit_def)
      with kept show "rt h3 = rt h \<and> pm h3 = pm h" by simp
    qed
    show ?thesis
    proof (cases r2)
      case (Inl e)
      then show ?thesis
        by (simp add: control_change_def Inr arm r1 ud app armed_error_recoverable [OF armed undo])
    next
      case Inr': (Inr u)
      have f: "rt h2 = edit_table (control_edit action) zone (control_entry action port proto) (rt h)"
        "pm h2 = edit_table (control_edit action) zone (control_entry action port proto) (pm h)"
        using part kept Inr' by (simp_all add: partly_made_def)
      obtain r3 db3 where s: "firewallPendingSaveKind c (q_eng q 7) (q_token q) given unit deadline action rule db = (r3, db3)"
        by (cases "firewallPendingSaveKind c (q_eng q 7) (q_token q) given unit deadline action rule db")
      have "case fst (r3, db3) of Inl e \<Rightarrow> snd (r3, db3) = db
        | Inr p \<Rightarrow> p_ID p = given \<and> p_Unit p = fst ud \<and> p_Deadline p = snd ud \<and>
          look (snd (r3, db3)) (firewallPendingKey given) = Some (enc_pending c p)"
        using save_kind_cases [OF s] by (cases r3) (simp_all add: ud)
      from save_pending_recoverable [OF armed undo, where f = "edit_table (control_edit action) zone (control_entry action port proto)", OF f this]
      show ?thesis by (simp add: control_change_def Inr arm r1 ud app Inr' s)
    qed
  qed
qed

section \<open>External edit\<close>

lemma edit_source_ok:
  assumes "edit_source x snap = Inr source"
  shows "sn_Backend snap = ''firewalld'' \<and> source \<in> set (sn_Rules snap) \<and> r_ID source = x_ID x \<and> \<not> IsRange source \<and>
    r_Kind source = ''port'' \<and> r_Runtime source \<and> r_Permanent source \<and> ValidZone (r_Zone source)"
  using assms
  by (auto simp: edit_source_def find_Some_iff split: if_split_asm option.split_asm)

lemma edit_checks_ok:
  assumes "edit_checks c tm t q x db h = Inr source"
  shows "\<exists>snap. Inspect t h = Inr snap \<and> edit_source x snap = Inr source \<and> ValidRule (x_NewPort x) (x_NewProtocol x) \<and>
    (r_Port source \<noteq> x_NewPort x \<or> r_Protocol source \<noteq> x_NewProtocol x) \<and>
    (\<forall>r \<in> set (sn_Rules snap). \<not> edit_overlap source x r)"
proof -
  have v: "ValidRule (x_NewPort x) (x_NewProtocol x)" using assms by (auto simp: edit_checks_def split: if_split_asm)
  obtain snap where i: "InspectFirewall tm t h = Inr snap"
    using assms by (cases "InspectFirewall tm t h") (auto simp: edit_checks_def split: if_split_asm)
  obtain source' where s: "edit_source x snap = Inr source'"
    using assms i by (cases "edit_source x snap") (auto simp: edit_checks_def split: if_split_asm)
  have "source' = source \<and> (r_Port source \<noteq> x_NewPort x \<or> r_Protocol source \<noteq> x_NewProtocol x) \<and>
    (\<forall>r \<in> set (sn_Rules snap). \<not> edit_overlap source x r)"
    using assms unfolding edit_checks_def i s sum.case
    by (auto simp: list_ex_iff split: if_split_asm sum.split_asm option.split_asm)
  with v s InspectFirewall_ok [OF i] show ?thesis by blast
qed

abbreviation old_entry :: "Rule \<Rightarrow> string \<times> string" where
  "old_entry source \<equiv> (r_Zone source, port_spec (r_Port source) (r_Protocol source))"

abbreviation new_entry :: "Rule \<Rightarrow> EditRequest \<Rightarrow> string \<times> string" where
  "new_entry source x \<equiv> (r_Zone source, port_spec (x_NewPort x) (x_NewProtocol x))"

lemma edit_known:
  assumes "go_orders t" "port_tables t rt pm" "edit_checks c tm t q x db h = Inr source"
  shows "old_entry source \<in> rt h" "old_entry source \<in> pm h" "new_entry source x \<notin> rt h" "new_entry source x \<notin> pm h"
    "ValidZone (r_Zone source)"
proof -
  from edit_checks_ok [OF assms(3)] obtain snap where i: "Inspect t h = Inr snap" "edit_source x snap = Inr source"
    and v: "ValidRule (x_NewPort x) (x_NewProtocol x)" and ne: "r_Port source \<noteq> x_NewPort x \<or> r_Protocol source \<noteq> x_NewProtocol x"
    and no: "\<forall>r \<in> set (sn_Rules snap). \<not> edit_overlap source x r" by blast
  have s: "sn_Backend snap = ''firewalld''" "source \<in> set (sn_Rules snap)" "\<not> IsRange source" "r_Kind source = ''port''"
    "r_Runtime source" "r_Permanent source" "ValidZone (r_Zone source)"
    using edit_source_ok [OF i(2)] by blast+
  show "ValidZone (r_Zone source)" by (rule s(7))
  have old: "old_entry source \<in> rt h \<and> old_entry source \<in> pm h \<and>
      r_ID source = ''firewalld:'' @ r_Zone source @ '':'' @ port_spec (r_Port source) (r_Protocol source)"
    using allowance_in_tables [OF assms(1) i(1) s(1) assms(2) s(2,4,5,6)] s(3) by blast
  then show "old_entry source \<in> rt h" "old_entry source \<in> pm h" by blast+
  note f = inspect_firewalld_facts [OF i(1) s(1) assms(1)]
  have rules: "unmarked ` set (sn_Rules snap) = (\<Union>z \<in> set (sn_Zones snap). zone_listed t h z)"
    and valid: "\<forall>z \<in> set (sn_Zones snap). ValidZone z" using f by - (elim conjE, assumption)+
  have "r_Kind source \<noteq> ''rich''" using s(4) by simp
  from allowance_view [OF s(2) this rules valid] obtain spec ps where z: "r_Zone source \<in> set (sn_Zones snap)"
    and ps: "ParsePortSpec spec = Some ps" "r_Port source = r_Port ps" "r_Protocol source = r_Protocol ps"
      "IsRange source = IsRange ps" .
  have vs: "ValidRule (r_Port source) (r_Protocol source)" using ParsePortSpec_sound [OF ps(1)] ps(2-4) s(3) by auto
  have "new_entry source x \<notin> rt h \<and> new_entry source x \<notin> pm h"
  proof (rule absent_in_tables [OF assms(1) i(1) s(1) assms(2) z v])
    fix r assume r: "r \<in> set (sn_Rules snap)" "r_ID r = RuleID ''firewalld'' (r_Zone source) (x_NewPort x) (x_NewProtocol x)"
      "r_Port r = x_NewPort x" "r_Protocol r = x_NewProtocol x" "r_Zone r = r_Zone source" "\<not> IsRange r"
    then have "ContainsPort r (x_NewPort x)" by (simp add: ContainsPort_def)
    with no r have "r_ID r = r_ID source" by (auto simp: edit_overlap_def)
    then have "port_spec (x_NewPort x) (x_NewProtocol x) = port_spec (r_Port source) (r_Protocol source)"
      using old r(2) by (simp add: RuleID_def)
    then have eq: "port_spec (x_NewPort x) (x_NewProtocol x) = port_spec (r_Port source) (r_Protocol source)" .
    have "ParsePort (port_spec (x_NewPort x) (x_NewProtocol x)) = Some (x_NewPort x, x_NewProtocol x)"
      "ParsePort (port_spec (r_Port source) (r_Protocol source)) = Some (r_Port source, r_Protocol source)"
      using v vs by (simp_all only: ParsePort_iff simp_thms)
    then have "Some (x_NewPort x, x_NewProtocol x) = Some (r_Port source, r_Protocol source)" unfolding eq by (rule trans [OF sym])
    then show False using ne by simp
  qed
  then show "new_entry source x \<notin> rt h" "new_entry source x \<notin> pm h" by blast+
qed

lemma partly_cases:
  assumes "partly_made rt pm f h (r, h')"
  shows "rt h' \<in> {rt h, f (rt h)}" "pm h' \<in> {pm h, f (pm h)}" "\<not> isl r \<Longrightarrow> rt h' = f (rt h) \<and> pm h' = f (pm h)"
  using assms by (simp_all add: partly_made_def) (cases r; simp)

lemma edit_table_views: "edit_table ''add'' z e = insert (z, e)" "edit_table ''remove'' z e = (\<lambda>T. T - {(z, e)})"
  by (intro ext; simp add: edit_table_def)+

lemma edit_apply_tables:
  assumes "go_orders t" "port_tables t rt pm" "ValidZone (r_Zone source)" "edit_apply tm t source x h = (r, h')"
  shows "(\<exists>T1. T1 \<in> {rt h, insert (new_entry source x) (rt h)} \<and> rt h' \<in> {T1, T1 - {old_entry source}}) \<and>
    (\<exists>T1. T1 \<in> {pm h, insert (new_entry source x) (pm h)} \<and> pm h' \<in> {T1, T1 - {old_entry source}}) \<and>
    (case r of
       None \<Rightarrow> rt h' = insert (new_entry source x) (rt h) - {old_entry source} \<and>
         pm h' = insert (new_entry source x) (pm h) - {old_entry source}
     | Some r \<Rightarrow> \<exists>code e. r = WriteErr code e)"
proof -
  have z: "r_Zone source \<noteq> []" using assms(3) by (auto simp: ValidZone_def)
  obtain r1 h1 where a: "ApplyFirewall tm t ''add'' (x_NewPort x) (x_NewProtocol x) (r_Zone source) h = (r1, h1)"
    by (cases "ApplyFirewall tm t ''add'' (x_NewPort x) (x_NewProtocol x) (r_Zone source) h")
  note p1 = partly_cases [OF ApplyFirewall_partly [OF assms(1,2) z, where tm = tm and action = "''add''" and h = h and
      p = "x_NewPort x" and proto = "x_NewProtocol x", unfolded a edit_table_views]]
  show ?thesis
  proof (cases r1)
    case (Inl e)
    then have "h' = h1" "\<exists>code e. r = Some (WriteErr code e)" using assms(4) a by (auto simp: edit_apply_def)
    then show ?thesis using p1(1,2) by auto
  next
    case (Inr u)
    obtain r2 h2 where b: "ApplyFirewall tm t ''remove'' (r_Port source) (r_Protocol source) (r_Zone source) h1 = (r2, h2)"
      by (cases "ApplyFirewall tm t ''remove'' (r_Port source) (r_Protocol source) (r_Zone source) h1")
    note p2 = partly_cases [OF ApplyFirewall_partly [OF assms(1,2) z, where tm = tm and action = "''remove''" and h = h1 and
        p = "r_Port source" and proto = "r_Protocol source", unfolded b edit_table_views]]
    have r: "h' = h2" "r = None \<longrightarrow> \<not> isl r2" "\<forall>y. r = Some y \<longrightarrow> (\<exists>code e. y = WriteErr code e)"
      using assms(4) a b Inr by (auto simp: edit_apply_def split: sum.split_asm if_split_asm)
    have "rt h' = insert (new_entry source x) (rt h) - {old_entry source} \<and>
      pm h' = insert (new_entry source x) (pm h) - {old_entry source}" if "r = None"
      using p1(3) p2(3) r that Inr by simp
    with r(3) have "case r of
       None \<Rightarrow> rt h' = insert (new_entry source x) (rt h) - {old_entry source} \<and>
         pm h' = insert (new_entry source x) (pm h) - {old_entry source}
     | Some r \<Rightarrow> \<exists>code e. r = WriteErr code e" by (cases r) simp_all
    with p1(1,2) p2(1,2) show ?thesis unfolding r(1) by (intro conjI exI [of _ "rt h1"] exI [of _ "pm h1"])
  qed
qed

lemma edit_recovers:
  assumes "port_tables t rt pm"
    and "sh_commands (timer_worker argv) = zone_commands exe zone (''--add-port='' @ old) @ zone_commands exe zone (''--remove-port='' @ new)"
    and "recovered t argv h' = Some h2"
  shows "rt h2 = insert (zone, old) (rt h') - {(zone, new)} \<and> pm h2 = insert (zone, old) (pm h') - {(zone, new)}"
proof -
  have e: "table_step t rt pm (''--add-port='' @ old) (\<lambda>zone. insert (zone, old))"
    "table_step t rt pm (''--remove-port='' @ new) (\<lambda>zone T. T - {(zone, new)})"
    using assms(1) unfolding port_tables_def table_edits_def by blast+
  have "sh_run t (zone_commands exe zone (''--add-port='' @ old) @ zone_commands exe zone (''--remove-port='' @ new) @ []) h' = Some h2"
    using assms(2,3) by (simp only: recovered_def append_Nil2)
  from sh_run_zone [OF this e(1)] obtain h1 where h1: "rt h1 = insert (zone, old) (rt h')" "pm h1 = insert (zone, old) (pm h')"
    "sh_run t (zone_commands exe zone (''--remove-port='' @ new) @ []) h1 = Some h2" by (elim exE conjE) (rule that)
  from sh_run_zone [OF h1(3) e(2)] h1(1,2) show ?thesis by (elim exE conjE) (simp only: sh_run.simps option.inject)
qed

lemma edited_back:
  "T1 \<in> {T, insert new T} \<Longrightarrow> T2 \<in> {T1, T1 - {old}} \<Longrightarrow> old \<in> T \<Longrightarrow> new \<notin> T \<Longrightarrow> insert old T2 - {new} = T"
  by auto

lemma external_edit_recoverable:
  assumes "go_orders t" "port_tables t rt pm" "tables_kept tm rt pm" "edit_checks c tm t q x db h = Inr source"
  shows "recoverable c tm t q rt pm (\<lambda>T. insert (new_entry source x) T - {old_entry source}) (r_ID source) db h
    (firewallExternalEdit c tm t q x db h)"
proof -
  note known = edit_known [OF assms(1,2,4)]
  obtain r1 h1 where arm: "ScheduleFirewallEditUndo tm (q_unit q) (q_now q) (r_Port source) (r_Protocol source)
                  (x_NewPort x) (x_NewProtocol x) (r_Zone source) h = (r1, h1)"
    by (cases "ScheduleFirewallEditUndo tm (q_unit q) (q_now q) (r_Port source) (r_Protocol source)
                  (x_NewPort x) (x_NewProtocol x) (r_Zone source) h")
  then show ?thesis
  proof (rule ScheduleFirewallEditUndo_cases)
    fix e assume "r1 = Inl e" "unarmed tm h h1"
    then show ?thesis by (simp add: firewallExternalEdit_def assms(4) arm unarmed_recoverable)
  next
    fix ud argv exe
    assume r1: "r1 = Inr ud" and armed: "armed tm (q_unit q) (q_now q) h ud argv h1"
      and sh: "sh_commands (timer_worker argv) = zone_commands exe (r_Zone source) (''--add-port='' @ port_spec (r_Port source) (r_Protocol source)) @
         zone_commands exe (r_Zone source) (''--remove-port='' @ port_spec (x_NewPort x) (x_NewProtocol x))"
    obtain unit deadline where ud: "ud = (unit, deadline)" by (cases ud)
    note kept = armed_keeps [OF armed assms(3)]
    obtain r2 h2 where app: "edit_apply tm t source x h1 = (r2, h2)" by (cases "edit_apply tm t source x h1")
    note made = edit_apply_tables [OF assms(1,2) known(5) app, unfolded conjunct1 [OF kept] conjunct2 [OF kept]]
    have undo: "\<forall>h3. recovered t argv h2 = Some h3 \<longrightarrow> rt h3 = rt h \<and> pm h3 = pm h"
    proof (intro allI impI)
      fix h3 assume "recovered t argv h2 = Some h3"
      from edit_recovers [OF assms(2) sh this] made show "rt h3 = rt h \<and> pm h3 = pm h"
        by (elim conjE exE) (simp only: edited_back [OF _ _ known(1,3)] edited_back [OF _ _ known(2,4)] simp_thms)
    qed
    show ?thesis
    proof (cases r2)
      case (Some r)
      then obtain code e where "r = WriteErr code e" using made by auto
      with Some show ?thesis
        by (simp add: firewallExternalEdit_def assms(4) arm r1 ud app armed_error_recoverable [OF armed undo])
    next
      case None
      have f: "rt h2 = insert (new_entry source x) (rt h) - {old_entry source}"
        "pm h2 = insert (new_entry source x) (pm h) - {old_entry source}" using made None by simp_all
      let ?s = "firewallPendingExternalEdit c (q_eng q 9) (q_token q) source (edit_target source x) unit deadline db"
      obtain r3 db3 where s: "?s = (r3, db3)" by (cases ?s)
      have "case fst (r3, db3) of Inl e \<Rightarrow> snd (r3, db3) = db
        | Inr p \<Rightarrow> p_ID p = r_ID source \<and> p_Unit p = fst ud \<and> p_Deadline p = snd ud \<and>
          look (snd (r3, db3)) (firewallPendingKey (r_ID source)) = Some (enc_pending c p)"
        using save_edit_cases [OF s] by (cases r3) (simp_all add: ud)
      from save_pending_recoverable [OF armed undo, where f = "\<lambda>T. insert (new_entry source x) T - {old_entry source}", OF f this]
      show ?thesis by (simp add: firewallExternalEdit_def assms(4) arm r1 ud app None s)
    qed
  qed
qed

section \<open>Early errors\<close>

lemma control_gate_error: "control_gate c tm t q action given port proto zone db h = Inl r \<Longrightarrow> \<exists>code e. r = WriteErr code e"
  by (cases "InspectFirewall tm t h")
    (auto simp: control_gate_def control_target_def Let_def split: if_split_asm sum.split_asm option.split_asm)

lemma listener_check_error: "listener_check tm t eng action port proto db h = Some r \<Longrightarrow> \<exists>code e. r = WriteErr code e"
  by (cases "FirewallListeners tm t h")
    (auto simp: listener_check_def split: if_split_asm sum.split_asm list.split_asm)

lemma control_checks_error:
  assumes "control_checks c tm t q action given port proto zone db h = Inl r"
  shows "\<exists>code e. r = WriteErr code e"
proof (cases "control_gate c tm t q action given port proto zone db h")
  case (Inl r')
  then show ?thesis using assms control_gate_error by (auto simp: control_checks_def)
next
  case (Inr mt)
  then show ?thesis
    using assms listener_check_error by (auto simp: control_checks_def split: if_split_asm sum.split_asm option.split_asm)
qed

lemma edit_source_error: "edit_source x snap = Inl r \<Longrightarrow> \<exists>code e. r = WriteErr code e"
  by (auto simp: edit_source_def split: if_split_asm option.split_asm)

lemma no_metadata_error: "no_metadata eng ks db = Some r \<Longrightarrow> \<exists>code e. r = WriteErr code e"
  by (induction eng ks db rule: no_metadata.induct) (auto split: sum.split_asm if_split_asm)

lemma edit_metadata_error: "edit_metadata c q source target db = Some r \<Longrightarrow> \<exists>code e. r = WriteErr code e"
  unfolding edit_metadata_def by (auto split: if_split_asm sum.split_asm dest: no_metadata_error)

lemma edit_listeners_error: "edit_listeners tm t source x h = Some r \<Longrightarrow> \<exists>code e. r = WriteErr code e"
  by (auto simp: edit_listeners_def split: if_split_asm sum.split_asm)

lemma edit_checks_error:
  assumes "edit_checks c tm t q x db h = Inl r"
  shows "\<exists>code e. r = WriteErr code e"
proof (cases "InspectFirewall tm t h")
  case (Inl e)
  then show ?thesis using assms by (auto simp: edit_checks_def split: if_split_asm)
next
  case (Inr snap)
  show ?thesis
  proof (cases "edit_source x snap")
    case Inl': (Inl r')
    then show ?thesis using assms Inr edit_source_error [OF Inl'] by (auto simp: edit_checks_def split: if_split_asm)
  next
    case Inr': (Inr source)
    show ?thesis
      using assms edit_metadata_error edit_listeners_error unfolding edit_checks_def Inr Inr' sum.case
      by (auto split: if_split_asm sum.split_asm option.split_asm)
  qed
qed

end
