(* ===== verification/FirewallPromises.thy ===== *)
theory FirewallPromises
  imports FirewallRecovery
begin

text \<open>
  What the firewall handlers promise of their recovery timers, with requests to the small host of
  \<open>FirewallGuarantees\<close> on which the promises can be checked.
\<close>

section \<open>A request on the small host\<close>

definition empty_db :: Db where
  "empty_db = \<lparr>db_rows = [], db_seq = 0, db_admins = fmempty, db_settings = fmempty\<rparr>"

definition sample_request :: Request where
  "sample_request =
     \<lparr>q_eng = (\<lambda>_. sound_engine), q_now = 100, q_unit = Inr (replicate 12 0), q_token = Inr (replicate 16 0)\<rparr>"

lemma sample_request_fields:
  "q_eng sample_request n = sound_engine" "q_now sample_request = 100" "q_unit sample_request = Inr (replicate 12 0)"
  "q_token sample_request = Inr (replicate 16 0)"
  by (simp_all add: sample_request_def)

lemma empty_settings: "Setting sound_engine k empty_db = Inr None"
  by (simp add: Setting_def exec_def sound_engine_def empty_db_def)

lemma sample_guard: "firewallGuardPort sound_engine empty_db = 8080"
  by code_simp

lemma nothing_pending: "ensureNoPending c sound_engine now i empty_db = Inr ()"
  by (simp add: ensureNoPending_def empty_settings setting_text_def)

lemma sample_critical:
  "firewallCriticalPorts sample_timers sample_rich ps (False, False) = Inr ()"
  "firewallCriticalPorts sample_timers sample_ports ps h = Inr ()"
proof -
  have none: "critical_port (\<lparr>ds_Processes = [], ds_SSHPorts = [], ds_SSHUncertain = False,
        ds_FTPRanges = [], ds_Docker = [], ds_DockerUncertain = False\<rparr>) ps = Inr ()"
    by (induction ps) (simp_all add: discoveredSSHPort_def discoveredDockerPort_def)
  have "FirewallDiscovery sample_timers sample_rich (False, False) = Inr \<lparr>ds_Processes = [], ds_SSHPorts = [],
        ds_SSHUncertain = False, ds_FTPRanges = [], ds_Docker = [], ds_DockerUncertain = False\<rparr>" by code_simp
  with none show "firewallCriticalPorts sample_timers sample_rich ps (False, False) = Inr ()"
    by (simp add: firewallCriticalPorts_def)
  have "\<forall>b1 b2. FirewallDiscovery sample_timers sample_ports (b1, b2) = Inr \<lparr>ds_Processes = [], ds_SSHPorts = [],
        ds_SSHUncertain = False, ds_FTPRanges = [], ds_Docker = [], ds_DockerUncertain = False\<rparr>"
    unfolding all_bool_eq by (intro conjI; code_simp)
  with none show "firewallCriticalPorts sample_timers sample_ports ps h = Inr ()"
    by (cases h) (simp add: firewallCriticalPorts_def)
qed

lemma sample_listeners:
  "FirewallListeners sample_timers sample_rich (False, False) = Inr []"
  "FirewallListeners sample_timers sample_ports (True, True) = Inr []"
  "FirewallListeners sample_timers sample_ports (False, False) = Inr []"
  by code_simp+

lemma sample_tables_kept: "tables_kept sample_timers rt pm"
  by (simp add: tables_kept_def sample_timers_def)

definition quiet_snapshot :: "(bool \<times> bool) Tools \<Rightarrow> FirewallInspect.Snapshot" where
  "quiet_snapshot t = (first_snapshot t (True, False))\<lparr>sn_Writable := True, sn_DefaultZone := ''public'',
       sn_Zones := [''public''], sn_Services := fmupd ''public'' [] fmempty\<rparr>"

lemma quiet_fields:
  "sn_Writable (quiet_snapshot t)" "sn_Backend (quiet_snapshot t) = ''firewalld''" "sn_Zones (quiet_snapshot t) = [''public'']"
  "sn_Rules (quiet_snapshot t) = []" "\<not> opaque_zone (quiet_snapshot t) z"
  by (simp_all add: quiet_snapshot_def first_snapshot_def backend_of_def opaque_zone_def)

lemma quiet_inspect:
  "Inspect sample_rich (False, False) = Inr (quiet_snapshot sample_rich)"
  "Inspect sample_ports (False, False) = Inr (quiet_snapshot sample_ports)"
  "InspectFirewall sample_timers sample_rich (False, False) = Inr (quiet_snapshot sample_rich)"
  "InspectFirewall sample_timers sample_ports (False, False) = Inr (quiet_snapshot sample_ports)"
  using sample_inspect_tools [OF sample_rich_def] sample_inspect_tools [OF sample_ports_def]
  by (simp_all add: quiet_snapshot_def InspectFirewall_def ask_helper_def run_helper_def sample_timers_def)

lemma sample_port_texts: "ValidRule 80 ''tcp''" "RichDropText 80 ''tcp'' = Inr sample_drop"
  "atoi (itoa 80) = Some 80"
  by code_simp+

lemma sample_add_drop:
  "ApplySimpleDrop sample_timers sample_rich ''add'' 80 ''tcp'' ''public'' (False, False) = (Inr (), (True, True))"
proof -
  have acts: "act sample_rich (zone_cmd False ''public'' (''--add-rich-rule='' @ sample_drop)) (False, False) = (Inr [], (True, False))"
    "act sample_rich (zone_cmd True ''public'' (''--add-rich-rule='' @ sample_drop)) (True, False) = (Inr [], (True, True))"
    by (simp_all add: act_def sample_rich_def sample_tools_def sample_write_def command_def)
  have "ChangeSimpleDrop sample_rich ''add'' 80 ''tcp'' ''public'' (False, False) = (Inr (), (True, True))"
    unfolding ChangeSimpleDrop_def quiet_inspect sum.case both_configs_def
    using acts by (simp add: sample_port_texts sample_texts quiet_fields)
  then show ?thesis
    by (simp add: ApplySimpleDrop_def sample_port_texts sample_texts run_helper_def sample_timers_def)
qed

lemma sample_control:
  "\<exists>p db'. firewallControl sample_codec sample_timers sample_rich sample_request ''add-drop'' (drop_id ''public'' 80 ''tcp'') 80 ''tcp''
     ''public'' empty_db (False, False) = (Accepted p, db', (True, True))"
proof -
  let ?id = "drop_id ''public'' 80 ''tcp''"
  have i: "control_id ''add-drop'' 80 ''tcp'' ''public'' = ?id" by (simp add: control_id_def)
  have gate: "control_gate sample_codec sample_timers sample_rich sample_request ''add-drop'' ?id 80 ''tcp'' ''public'' empty_db (False, False) =
      Inr (0, zero_Rule)"
    unfolding control_gate_def quiet_inspect sum.case
    by (simp add: sample_port_texts sample_texts i control_actions_def quiet_fields sample_request_fields nothing_pending
        control_target_def)
  have listen: "listener_check sample_timers sample_rich e ''add-drop'' 80 ''tcp'' db (False, False) = None" for e db
    by (simp add: listener_check_def sample_listeners)
  have checks: "control_checks sample_codec sample_timers sample_rich sample_request ''add-drop'' ?id 80 ''tcp'' ''public'' empty_db (False, False) =
      Inr (0, zero_Rule)"
    unfolding control_checks_def gate sum.case
    by (simp add: sample_request_fields sample_guard sample_critical empty_settings listen)
  have ready: "control_ready sample_request ''add-drop'' ?id 0 zero_Rule 80 ''tcp'' ''public'' empty_db =
      Inr (add_drop_rule ?id 80 ''tcp'' ''public'')"
    by (simp add: control_ready_def from_step_def sample_request_fields empty_settings setting_text_def)
  have arm: "\<exists>u. control_arm sample_timers sample_request ''add-drop'' 80 ''tcp'' ''public'' (False, False) =
      (Inr (u, 120100), (False, False)) \<and> u \<noteq> []"
    by (simp add: control_arm_def ScheduleFirewallDropUndo_def sample_port_texts sample_texts tool_path_def arm_timer_def
        sample_timers_def sample_request_fields has_prefix_def)
  then obtain u where arm: "control_arm sample_timers sample_request ''add-drop'' 80 ''tcp'' ''public'' (False, False) =
      (Inr (u, 120100), (False, False))" "u \<noteq> []" by blast
  have save: "\<exists>p db'. firewallPendingSaveKind sample_codec sound_engine (Inr (replicate 16 0)) ?id u 120100 ''add-drop'' rule empty_db =
      (Inr p, db')" for rule
    using arm(2) by (simp add: firewallPendingSaveKind_def newFirewallToken_def save_entry_def SetSetting_def sound_engine_def
        firewallPendingKey_def drop_id_def exec_def)
  show ?thesis
    unfolding firewallControl_def checks sum.case prod.case Let_def i control_change_def ready
    using save [of "add_drop_rule ?id 80 ''tcp'' ''public''"]
    by (auto simp: arm control_apply_def sample_add_drop sample_request_fields save_pending_def)
qed

definition busy_rule :: Rule where
  "busy_rule = port_rule ((new_port_rule ''public'' ''80/tcp'' (zero_Rule\<lparr>r_Port := 80, r_Protocol := ''tcp''\<rparr>))
     \<lparr>r_Runtime := True, r_Permanent := True\<rparr>)"

definition busy_snapshot :: FirewallInspect.Snapshot where
  "busy_snapshot = (quiet_snapshot sample_ports)\<lparr>sn_Rules := [busy_rule]\<rparr>"

lemma busy_fields:
  "sn_Writable busy_snapshot" "sn_Backend busy_snapshot = ''firewalld''" "sn_Zones busy_snapshot = [''public'']"
  "sn_Rules busy_snapshot = [busy_rule]" "\<not> opaque_zone busy_snapshot z"
  by (simp_all add: busy_snapshot_def quiet_snapshot_def first_snapshot_def backend_of_def opaque_zone_def)

lemma busy_ask: "ask sample_ports argv h = Inr (trim_space (fst (sample_read ''--list-ports'' ''80/tcp'' argv h)))"
  by (simp add: ask_def sample_ports_def sample_tools_def sample_read_def command_def Let_def)

lemma itoa_80: "itoa 80 = ''80''"
  by code_simp

lemma busy_entries: "port_entries ''public'' ''80/tcp'' ''80/tcp'' =
    [(''80/tcp'', (new_port_rule ''public'' ''80/tcp'' (zero_Rule\<lparr>r_Port := 80, r_Protocol := ''tcp''\<rparr>))\<lparr>r_Runtime := True, r_Permanent := True\<rparr>)]"
proof -
  have "ParsePortSpec ''80/tcp'' = Some (zero_Rule\<lparr>r_Port := 80, r_Protocol := ''tcp''\<rparr>)"
    using single_spec [of 80 "''tcp''"] sample_port_texts(1) by (simp add: port_spec_def itoa_80)
  moreover have "Prelude.fields ''80/tcp'' = [''80/tcp'']" by code_simp
  ultimately show ?thesis by (simp add: port_entries_def add_port_spec_def mark_seen_def)
qed

lemma busy_ok: "rule_ok busy_rule" "\<not> r_Conflict busy_rule"
  by (simp_all add: rule_ok_def busy_rule_def port_rule_def new_port_rule_def zero_Rule_def FirstPort_def LastPort_def IsRange_def)

lemma busy_arranged:
  assumes "sn_Rules snap = [busy_rule]"
  shows "arrange_rules sample_ports snap = Inr snap"
proof -
  have o: "go_orders sample_ports" by (simp add: sample_ports_def sample_orders)
  from arrange_rules_facts [OF o, of snap] busy_ok obtain out where out: "arrange_rules sample_ports snap = Inr (snap\<lparr>sn_Rules := out\<rparr>)"
    "map unmarked out = t_order sample_ports [busy_rule]" "\<forall>i < length out. r_Conflict (out ! i) \<longleftrightarrow> shares_port out i"
    by (auto simp: assms)
  have "t_order sample_ports [busy_rule] = [busy_rule]" by (simp add: sample_ports_def sample_tools_def rules_by_def)
  with out(2) obtain r where r: "out = [r]" "unmarked r = busy_rule" by (auto simp: map_eq_Cons_conv)
  have "\<not> r_Conflict r" using out(3) by (simp add: r(1) shares_port_def)
  with r show ?thesis using out(1) assms by simp
qed

lemma busy_inspect: "Inspect sample_ports (True, True) = Inr busy_snapshot"
proof -
  let ?h = "(True, True)"
  let ?first = "(first_snapshot sample_ports (True, False))\<lparr>sn_Writable := True\<rparr>"
  let ?s = "?first\<lparr>sn_DefaultZone := ''public'', sn_Zones := [''public'']\<rparr>"
  have r: "runningManagers sample_ports ?h = (True, False)" by (simp add: sample_ports_def sample_running)
  have "independentInputChainBlocker (Doc (JObj (obj [(''nftables'', JArr [JObj (obj [(''metainfo'', JNull)])])]))) False = Inr []"
    by (simp add: independentInputChainBlocker_def)
  then have n: "nativeInputBlocker sample_ports False ?h = Inr []"
    by (simp add: nativeInputBlocker_def busy_ask) (simp add: sample_ports_def sample_tools_def)
  have c: "check_chains sample_ports ?h (True, False) (first_snapshot sample_ports (True, False)) = ?first"
    by (simp add: check_chains_def n)
  have t: "trim_space ''80/tcp'' = ''80/tcp''" by code_simp
  have listed: "ask sample_ports (zone_cmd b ''public'' ''--list-ports'') ?h = Inr ''80/tcp''" for b
    unfolding busy_ask sample_read_def by (cases b) (simp_all add: t state_not_listed)
  have other: "arg \<noteq> ''--list-ports'' \<Longrightarrow> ask sample_ports (zone_cmd b z arg) ?h = Inr []" for b z arg
    unfolding busy_ask sample_read_def by (simp add: state_not_listed)
  have line: "add_rich_line ''public'' b (x, []) [] = (x, [])" for b x
    by (simp only: add_rich_line_def sample_texts option.case fst_conv snd_conv trim_space_Nil) simp
  have rich: "rich_batch sample_ports ?h ''public'' b (x, []) = (x, [])" for b x
    using other [of "''--list-rich-rules''"] by (simp add: rich_batch_def sample_texts line)
  have z: "zone_rules sample_ports ?h ''public'' ''80/tcp'' ''80/tcp'' ?s = ?s\<lparr>sn_Services := fmupd ''public'' [] fmempty, sn_Rules := [busy_rule]\<rparr>"
    unfolding zone_rules_def Let_def busy_entries rich prod.case
    using other [of "''--list-services''"] by (simp add: add_rules_def first_snapshot_def busy_rule_def sample_texts)
  have i: "inspect_firewalld sample_ports ?h ?first = Inr (?s\<lparr>sn_Services := fmupd ''public'' [] fmempty, sn_Rules := [busy_rule]\<rparr>)"
  proof -
    have d: "ask sample_ports [''firewall-cmd'', ''--get-default-zone''] ?h = Inr ''public''"
      "ask sample_ports [''firewall-cmd'', ''--get-active-zones''] ?h = Inr []"
      unfolding busy_ask sample_read_def by (simp_all add: sample_texts zone_cmd_def)
    show ?thesis
      unfolding inspect_firewalld_def d bindR_Inr sample_texts Let_def by (simp add: listed z sample_texts)
  qed
  have a: "arrange_rules sample_ports (?s\<lparr>sn_Services := fmupd ''public'' [] fmempty, sn_Rules := [busy_rule]\<rparr>) =
      Inr (?s\<lparr>sn_Services := fmupd ''public'' [] fmempty, sn_Rules := [busy_rule]\<rparr>)"
    by (rule busy_arranged) simp
  have b: "inspect_backend sample_ports ?h ?first = Inr (?s\<lparr>sn_Services := fmupd ''public'' [] fmempty, sn_Rules := [busy_rule]\<rparr>)"
    unfolding inspect_backend_def i by (simp add: first_snapshot_def backend_of_def)
  show ?thesis
    unfolding Inspect_def r Let_def c b bindR_Inr a by (simp add: busy_snapshot_def quiet_snapshot_def)
qed

lemma sha_round_length: "length v = 8 \<Longrightarrow> length (sha_round v kw) = 8"
  by (cases "(v, kw)" rule: sha_round.cases) (auto simp: Let_def)

lemma sha_rounds_length: "length v = 8 \<Longrightarrow> length (foldl sha_round v kws) = 8"
  by (induction kws arbitrary: v) (simp_all add: sha_round_length)

lemma compress_length: "length v = 8 \<Longrightarrow> length (compress v block) = 8"
  by (simp add: compress_def Let_def sha_rounds_length)

lemma digest_length: "length (Sum256 s) = 32"
proof -
  have p: "list_all (\<lambda>d. n mod d \<noteq> 0) [2..<n]" if "n \<in> {2, 3, 5, 7, 11, 13, 17, 19}" for n :: nat
    using that by (elim insertE) (simp_all add: upt_rec)
  have "{2, 3, 5, 7, 11, 13, 17, 19} \<subseteq> set small_primes"
  proof
    fix n :: nat assume n: "n \<in> {2, 3, 5, 7, 11, 13, 17, 19}"
    then have "n \<in> set [2..<312]" by (elim insertE) simp_all
    with p [OF n] show "n \<in> set small_primes" by (simp only: small_primes_def set_filter mem_Collect_eq simp_thms)
  qed
  from card_mono [OF _ this] card_length [of small_primes] have "8 \<le> length small_primes" by simp
  then have i: "length initial_hash = 8" by (simp add: initial_hash_def)
  have "length v = 8 \<Longrightarrow> length (foldl compress v blocks) = 8" for v blocks
    by (induction blocks arbitrary: v) (simp_all add: compress_length)
  then have "length (foldl compress initial_hash blocks) = 8" for blocks using i by blast
  moreover have "length (concat (map bytes32 ws)) = 4 * length ws" for ws
    by (induction ws) (simp_all add: bytes32_def)
  ultimately show ?thesis by (simp add: Sum256_def sha256_def)
qed

lemma revision_length: "length (firewallRuleRevision r) = 24"
proof -
  show ?thesis by (simp add: firewallRuleRevision_def digest_length hex_encode_length)
qed

definition sample_edit :: EditRequest where
  "sample_edit = \<lparr>x_ID = ''firewalld:public:80/tcp'', x_Revision = firewallRuleRevision busy_rule, x_NewPort = 81,
     x_NewProtocol = ''tcp'', x_Acknowledged = True\<rparr>"

lemma sample_edit_checks:
  "edit_checks sample_codec sample_timers sample_ports sample_request sample_edit empty_db (True, True) = Inr busy_rule"
proof -
  have b: "r_ID busy_rule = ''firewalld:public:80/tcp''" "r_Port busy_rule = 80" "r_Protocol busy_rule = ''tcp''"
    "r_Zone busy_rule = ''public''" "r_Kind busy_rule = ''port''" "r_Action busy_rule = ''allow''" "r_Runtime busy_rule"
    "r_Permanent busy_rule" "\<not> IsRange busy_rule" "\<not> r_Conflict busy_rule" "\<not> ContainsPort busy_rule 81"
    by (simp_all add: busy_rule_def port_rule_def new_port_rule_def zero_Rule_def IsRange_def ContainsPort_def)
  have i: "InspectFirewall sample_timers sample_ports (True, True) = Inr busy_snapshot"
    by (simp add: InspectFirewall_def ask_helper_def run_helper_def sample_timers_def busy_inspect)
  have s: "edit_source sample_edit busy_snapshot = Inr busy_rule"
    by (simp add: edit_source_def sample_edit_def busy_fields b sample_texts)
  have m: "edit_metadata sample_codec sample_request i j empty_db = None" for i j
    by (simp add: edit_metadata_def sample_request_fields empty_settings nothing_pending setting_text_def from_step_def)
  have l: "edit_listeners sample_timers sample_ports busy_rule sample_edit (True, True) = None"
    by (simp add: edit_listeners_def sample_listeners)
  have v: "ValidRule 81 ''tcp''" by code_simp
  show ?thesis
    unfolding edit_checks_def i s sum.case m l option.case
    by (simp add: sample_edit_def revision_length v sample_critical sample_request_fields sample_guard busy_fields b edit_overlap_def)
qed

section \<open>Properties\<close>

text \<open>(C38) Drop policies and pauses are armed before they are made: if the request is answered with
  anything but an early error, a recovery timer has been started before any change, and the
  tables are back to what they were before the request whenever its commands succeed, however far
  the change has come, also where a client was killed and nobody knows what it did. A reply that asks for a confirmation comes with the entry saved under the
  rule, with the timer's unit and deadline, and with the change made in both configurations.\<close>

theorem control_recoverable:
  assumes "go_orders t" and "control_tables action t rt pm" and "tables_kept tm rt pm"
    and "action \<in> set change_actions"
  shows "recoverable c tm t q rt pm (edit_table (control_edit action) zone (control_entry action port proto)) given db h
    (firewallControl c tm t q action given port proto zone db h)"
proof (cases "control_checks c tm t q action given port proto zone db h")
  case (Inl r)
  have "\<exists>code e. r = WriteErr code e" using control_checks_error [OF Inl] .
  then show ?thesis using unarmed_recoverable [of tm h h] by (auto simp: firewallControl_def Inl unarmed_def)
next
  case (Inr mt)
  obtain m target where mt: "mt = (m, target)" by (cases mt)
  note gate = control_checks_gate [OF Inr, unfolded mt]
  have i: "control_id action port proto zone = given" using control_gate_ok [OF gate] by blast
  have "\<not> (action = ''resume-allow'' \<or> action = ''resume-drop'')" using assms(4) by (auto simp: change_actions_def)
  then show ?thesis
    using control_change_recoverable [OF assms gate] by (simp add: firewallControl_def Inr mt i)
qed

theorem control_recoverable_witness:
  "\<exists>p db'. firewallControl sample_codec sample_timers sample_rich sample_request ''add-drop'' (drop_id ''public'' 80 ''tcp'') 80 ''tcp''
      ''public'' empty_db (False, False) = (Accepted p, db', (True, True)) \<and>
    recoverable sample_codec sample_timers sample_rich sample_request (sample_rt sample_drop) (sample_pm sample_drop)
      (edit_table ''add'' ''public'' sample_drop) (drop_id ''public'' 80 ''tcp'') empty_db (False, False) (Accepted p, db', (True, True))"
proof -
  obtain p db' where run: "firewallControl sample_codec sample_timers sample_rich sample_request ''add-drop''
      (drop_id ''public'' 80 ''tcp'') 80 ''tcp'' ''public'' empty_db (False, False) = (Accepted p, db', (True, True))"
    using sample_control by blast
  have o: "go_orders sample_rich" by (simp add: sample_rich_def sample_orders)
  have t: "control_tables ''add-drop'' sample_rich (sample_rt sample_drop) (sample_pm sample_drop)"
    using sample_rich_tables by (simp add: control_tables_def)
  have a: "''add-drop'' \<in> set change_actions" by (simp add: change_actions_def)
  have e: "control_entry ''add-drop'' 80 ''tcp'' = sample_drop" "control_edit ''add-drop'' = ''add''"
    by (simp_all add: control_entry_def control_edit_def sample_port_texts)
  show ?thesis
    using control_recoverable [OF o t sample_tables_kept a, of sample_codec sample_request "''public''" 80 "''tcp''"
        "drop_id ''public'' 80 ''tcp''" empty_db "(False, False)", unfolded e run] run by blast
qed

text \<open>(C39) The edit of an allowance of another manager is armed in the same way: the timer puts the old
  allowance back and removes the new one, and so restores both tables exactly.\<close>

theorem edit_recoverable:
  assumes "go_orders t" and "port_tables t rt pm" and "tables_kept tm rt pm"
  shows "case edit_checks c tm t q x db h of
      Inl r \<Rightarrow> (\<exists>code e. r = WriteErr code e) \<and> firewallExternalEdit c tm t q x db h = (r, db, h)
    | Inr source \<Rightarrow> r_ID source = x_ID x \<and>
        recoverable c tm t q rt pm (\<lambda>T. insert (new_entry source x) T - {old_entry source}) (x_ID x) db h
          (firewallExternalEdit c tm t q x db h)"
proof (cases "edit_checks c tm t q x db h")
  case (Inl r)
  then show ?thesis using edit_checks_error [OF Inl] by (simp add: firewallExternalEdit_def)
next
  case (Inr source)
  have "r_ID source = x_ID x" using edit_checks_ok [OF Inr] edit_source_ok by blast
  then show ?thesis using external_edit_recoverable [OF assms Inr] Inr by simp
qed

theorem edit_recoverable_witness:
  "edit_checks sample_codec sample_timers sample_ports sample_request sample_edit empty_db (True, True) = Inr busy_rule \<and>
   recoverable sample_codec sample_timers sample_ports sample_request (sample_rt ''80/tcp'') (sample_pm ''80/tcp'')
     (\<lambda>T. insert (new_entry busy_rule sample_edit) T - {old_entry busy_rule}) (x_ID sample_edit) empty_db (True, True)
     (firewallExternalEdit sample_codec sample_timers sample_ports sample_request sample_edit empty_db (True, True))"
proof -
  have o: "go_orders sample_ports" by (simp add: sample_ports_def sample_orders)
  show ?thesis
    using edit_recoverable [OF o sample_port_tables sample_tables_kept, of sample_codec sample_request sample_edit empty_db "(True, True)",
        unfolded sample_edit_checks sum.case] sample_edit_checks by blast
qed

section \<open>Removing a rule that is not there\<close>

lemma Change_absent:
  assumes "go_orders t" "port_tables t rt pm" "zone \<noteq> []" "(zone, port_spec p proto) \<notin> rt h"
  shows "refused h (Change t ''remove'' p proto zone h)"
proof (cases "fst (runningManagers t h)")
  case True
  then show ?thesis using Change_made [OF assms(1,2) True, of "''remove''" zone p proto] assms(4)
    by (auto simp: untouched_or_listed_def)
next
  case False
  show ?thesis by (rule Change_elsewhere [OF False assms(3)])
qed

lemma ApplyFirewall_absent:
  assumes "go_orders t" "port_tables t rt pm" "ValidZone zone" "ValidRule p proto" "(zone, port_spec p proto) \<notin> rt h"
  shows "refused h (ApplyFirewall tm t ''remove'' p proto zone h)"
proof -
  have z: "zone \<noteq> []" using assms(3) by (auto simp: ValidZone_def)
  obtain e where "Change t ''remove'' p proto zone h = (Inl e, h)"
    using Change_absent [OF assms(1,2) z assms(5)] by (auto simp: refused_def)
  then show ?thesis
    using assms(3,4) by (auto simp: ApplyFirewall_def run_helper_def valid_port_text refused_def split: option.split)
qed

definition operation_failed :: "err \<Rightarrow> reply" where
  "operation_failed e = WriteErr 409 (Errorf ''firewall operation failed: %v'' [] [e])"

lemma critical_error:
  assumes "firewallCriticalPorts tm t ps h = Inl (Errorf ''firewall operation failed: %v'' [] [e])"
  shows False
proof -
  have c: "critical_port d ps = Inl e \<Longrightarrow> \<exists>m. e = ErrNew m" for d e
    by (induction ps) (auto split: if_split_asm)
  show ?thesis
    using assms
    by (auto simp: firewallCriticalPorts_def dest!: c split: sum.split_asm if_split_asm)
qed

lemma rule_remove_failed:
  assumes "rule_remove c tm t q backend port proto zone i db h = (operation_failed e, db', h')"
  obtains unit deadline h1 where
    "ScheduleFirewallRestore tm (q_unit q) (q_now q) backend port proto zone h = (Inr (unit, deadline), h1)"
    "ApplyFirewall tm t ''remove'' port proto zone h1 = (Inl e, h')" "db' = db"
  using assms unfolding rule_remove_def
  by (auto simp: operation_failed_def save_pending_def dest: critical_error split: if_split_asm sum.split_asm prod.split_asm)

text \<open>(C40) A removal that the firewall refuses because the rule is not there any more is not harmless:
  its timer has been armed when the error is answered, no entry is left to confirm, and the timer
  then adds the allowance to both tables although neither had it.\<close>

theorem removal_of_absent_rule:
  assumes "go_orders t" and "port_tables t rt pm" and "tables_kept tm rt pm"
    and "InspectFirewall tm t h = Inr snap" and "sn_Backend snap = ''firewalld''"
    and "(zone, port_spec port proto) \<notin> rt h" and "(zone, port_spec port proto) \<notin> pm h"
    and "\<not> isl (ensureNoPending c (q_eng q 0) (q_now q) (RuleID ''firewalld'' zone port proto) db)"
    and "firewallRuleChange c tm t q ''remove'' port proto zone db h = (operation_failed e, db', h')"
  shows "db' = db \<and> rt h' = rt h \<and> pm h' = pm h \<and>
    (\<exists>ud argv h1. armed tm (q_unit q) (q_now q) h ud argv h1 \<and>
       (\<forall>h2. recovered t argv h' = Some h2 \<longrightarrow>
          rt h2 = insert (zone, port_spec port proto) (rt h) \<and> pm h2 = insert (zone, port_spec port proto) (pm h)))"
proof -
  let ?i = "RuleID ''firewalld'' zone port proto"
  have v: "ValidRule port proto" "ValidZone zone"
    and remove: "rule_remove c tm t q ''firewalld'' port proto zone ?i db h = (operation_failed e, db', h')"
    using assms(8,9) unfolding firewallRuleChange_def assms(4) sum.case assms(5) Let_def
    by (auto simp: operation_failed_def split: if_split_asm sum.split_asm)
  from remove obtain unit deadline h1
    where arm: "ScheduleFirewallRestore tm (q_unit q) (q_now q) ''firewalld'' port proto zone h = (Inr (unit, deadline), h1)"
      and app: "ApplyFirewall tm t ''remove'' port proto zone h1 = (Inl e, h')" and db: "db' = db"
    by (rule rule_remove_failed)
  from arm show ?thesis
  proof (rule ScheduleFirewallRestore_cases)
    fix ud argv exe
    assume a: "armed tm (q_unit q) (q_now q) h ud argv h1"
      and sh: "sh_commands (timer_worker argv) = zone_commands exe zone (''--add-port='' @ port_spec port proto)"
    note kept = armed_keeps [OF a assms(3)]
    then have "(zone, port_spec port proto) \<notin> rt h1" using assms(6) by simp
    from ApplyFirewall_absent [OF assms(1,2) v(2,1) this, of tm] app have h: "h' = h1" by (auto simp: refused_def)
    have "control_tables ''pause-allow'' t rt pm" using assms(2) by (simp add: control_tables_def)
    from control_recovers [OF this, of argv exe zone "port_spec port proto" h'] sh
    have "\<forall>h2. recovered t argv h' = Some h2 \<longrightarrow>
        rt h2 = insert (zone, port_spec port proto) (rt h') \<and> pm h2 = insert (zone, port_spec port proto) (pm h')"
      by (simp add: change_actions_def edit_table_def)
    with a kept h db show ?thesis by metis
  qed simp
qed

definition owned_db :: Db where
  "owned_db = empty_db\<lparr>db_settings := fmupd ''firewall_owned:firewalld:public:80/tcp'' ''v1'' fmempty\<rparr>"

lemma owned_quiet: "ensureNoPending sample_codec sound_engine 100 (''firewalld:public:80/tcp'') owned_db = Inr ()"
  by (simp add: ensureNoPending_def Setting_def exec_def sound_engine_def owned_db_def empty_db_def firewallPendingKey_def setting_text_def)

lemma sample_removal:
  "\<exists>e. firewallRuleChange sample_codec sample_timers sample_ports sample_request ''remove'' 80 ''tcp'' ''public'' owned_db (False, False) =
     (operation_failed e, owned_db, (False, False))"
proof -
  have i: "RuleID ''firewalld'' ''public'' 80 ''tcp'' = ''firewalld:public:80/tcp''" by code_simp
  have owned: "Setting sound_engine ''firewall_owned:firewalld:public:80/tcp'' owned_db = Inr (Some ''v1'')"
    by (simp add: Setting_def exec_def sound_engine_def owned_db_def)
  have g: "firewallGuardPort sound_engine owned_db = 8080" by code_simp
  have arm: "\<exists>u. ScheduleFirewallRestore sample_timers (Inr (replicate 12 0)) 100 ''firewalld'' 80 ''tcp'' ''public'' (False, False) =
      (Inr (u, 120100), (False, False))"
    by (simp add: ScheduleFirewallRestore_def sample_port_texts sample_texts tool_path_def arm_timer_def
        sample_timers_def has_prefix_def)
  have "refused (False, False) (ApplyFirewall sample_timers sample_ports ''remove'' 80 ''tcp'' ''public'' (False, False))"
    by (rule ApplyFirewall_absent [OF _ sample_port_tables])
      (simp_all add: sample_ports_def sample_orders sample_texts sample_port_texts sample_rt_def)
  then obtain e where a: "ApplyFirewall sample_timers sample_ports ''remove'' 80 ''tcp'' ''public'' (False, False) = (Inl e, (False, False))"
    by (auto simp: refused_def)
  have "\<exists>e. rule_remove sample_codec sample_timers sample_ports sample_request ''firewalld'' 80 ''tcp'' ''public''
      ''firewalld:public:80/tcp'' owned_db (False, False) = (operation_failed e, owned_db, (False, False))"
    using arm by (auto simp: operation_failed_def rule_remove_def sample_request_fields owned g sample_critical sample_listeners a)
  then show ?thesis
    by (simp add: firewallRuleChange_def sample_port_texts quiet_inspect quiet_fields sample_texts i sample_request_fields owned_quiet)
qed

theorem removal_of_absent_rule_witness:
  "\<exists>e. firewallRuleChange sample_codec sample_timers sample_ports sample_request ''remove'' 80 ''tcp'' ''public'' owned_db
        (False, False) = (operation_failed e, owned_db, (False, False)) \<and>
     (\<exists>ud argv h1. armed sample_timers (q_unit sample_request) (q_now sample_request) (False, False) ud argv h1 \<and>
       (\<forall>h2. recovered sample_ports argv (False, False) = Some h2 \<longrightarrow>
          sample_rt ''80/tcp'' h2 = {(''public'', ''80/tcp'')} \<and> sample_pm ''80/tcp'' h2 = {(''public'', ''80/tcp'')}))"
proof -
  obtain e where run: "firewallRuleChange sample_codec sample_timers sample_ports sample_request ''remove'' 80 ''tcp'' ''public'' owned_db
        (False, False) = (operation_failed e, owned_db, (False, False))" using sample_removal by blast
  have o: "go_orders sample_ports" by (simp add: sample_ports_def sample_orders)
  have spec: "port_spec 80 ''tcp'' = ''80/tcp''" by code_simp
  have no: "(''public'', port_spec 80 ''tcp'') \<notin> sample_rt ''80/tcp'' (False, False)"
    "(''public'', port_spec 80 ''tcp'') \<notin> sample_pm ''80/tcp'' (False, False)" by (simp_all add: sample_rt_def sample_pm_def)
  have empty: "sample_rt ''80/tcp'' (False, False) = {}" "sample_pm ''80/tcp'' (False, False) = {}"
    by (simp_all add: sample_rt_def sample_pm_def)
  have p: "\<not> isl (ensureNoPending sample_codec (q_eng sample_request 0) (q_now sample_request) (RuleID ''firewalld'' ''public'' 80 ''tcp'') owned_db)"
    by (simp add: owned_quiet sample_request_fields RuleID_def spec)
  from removal_of_absent_rule [OF o sample_port_tables sample_tables_kept quiet_inspect(4) quiet_fields(2) no p run]
  show ?thesis unfolding spec empty by (intro exI [of _ e] conjI run) (elim conjE)
qed

end
