(* ===== verification/Spec2Isabelle.thy ===== *)
theory Spec2Isabelle
  imports Units PanelUpdate SettingsPromises LoginTurns GlobalConfig PanelPromises Guarantees ExpertGuarantees Ports FirewallPromises
begin

text \<open>
  A verification library for X-port, a web panel that runs an Xray server: it keeps accounts
  (inbound proxies) and settings in an SQLite database, turns the enabled accounts into an Xray
  configuration, restarts Xray with it, counts traffic against quotas and expiry dates, and edits
  the firewall of the host so that a wrong edit cannot lock the administrator out.

  \<^bold>\<open>How the parts interact.\<close> The HTTP handlers (\<open>internal/server\<close>) log administrators in with the
  limiter and the sessions of \<open>internal/auth\<close>, and call the account service (\<open>internal/service\<close>).
  Every change of the service goes the same way: read the account list from the store
  (\<open>internal/store\<close>), compute the new list with the account code (\<open>internal/accountcfg\<close>), hand the
  list to the Xray manager (\<open>internal/xray\<close>) which builds, tests, installs and restarts, then
  write the list back; when the write fails the manager is given the old list again. A traffic loop
  takes the counters Xray reports and enforces quota, expiry and the monthly reset. The firewall
  handlers run \<open>internal/firewall\<close> in a helper process, arm a recovery timer first, and keep an
  entry in the settings table until the browser confirms that it still reaches the panel.

  \<^bold>\<open>Theories.\<close>
  \<^item> \<open>Prelude\<close>: Go's errors (values of \<open>err + 'a\<close>, panics included), strings and their byte-level
    white space, 64-bit wrap-around, decimal numbers, finite maps, byte encodings.
  \<^item> \<open>Json\<close>: documents as \<open>encoding/json\<close> decodes them; a JSON text column is the document it
    denotes, or that it is blank or malformed.
  \<^item> \<open>Account\<close>, \<open>AccountInput\<close>, \<open>AccountJson\<close>, \<open>AccountOps\<close>: \<open>internal/model/account.go\<close> and
    \<open>internal/accountcfg\<close>. The account record, normalisation and validation of the editor's input,
    the settings and stream documents, and \<open>New\<close>, \<open>Update\<close>, \<open>Clone\<close>, \<open>ToView\<close>, \<open>NextPort\<close>. The
    lemmas: what is created or updated is shown again, unknown members survive an update, a clone is
    fresh, the next port is the least free one.
  \<^item> \<open>Limiter\<close>, \<open>Sessions\<close>: \<open>internal/auth\<close>. The limiter's map with its sweep and eviction, bounded
    and refining a counter per key (locale \<open>rate_gate\<close>); sessions by token.
  \<^item> \<open>Address\<close>, \<open>Login\<close>, \<open>LoginPromises\<close>: \<open>internal/server/server.go\<close>. The address of a client behind
    trusted proxies, rate limits, login and logout, and the gate of every other handler with its origin
    check. Over the histories of the panel's sessions (\<open>serves\<close>): who passes the gate was let in by a
    login or a rotation; a token works until its 24 hours, its logout or a rotation end it; the address
    cannot be forged. \<open>Address\<close> holds what \<open>net\<close> and \<open>net/netip\<close> parse.
  \<^item> \<open>LoginTurns\<close>: the same login call by call, interleaved with other logins in every way the server
    may: with \<open>n\<close> requests of an address at once, at most \<open>23 + n\<close> wrong passwords are compared in a window.
  \<^item> \<open>PanelPath\<close>, \<open>Settings\<close>, \<open>SettingsPromises\<close>: \<open>internal/panelpath\<close>, \<open>basepath.go\<close> and the settings
    handlers of \<open>internal/server/operations.go\<close>. A change is all or nothing in database, sessions and
    Xray, through the locale \<open>port_applier\<close> that the manager instantiates; the administrator
    changes only with the current password; what was entered is shown.
  \<^item> \<open>Store\<close>, \<open>StoreLaws\<close>: \<open>internal/store\<close>. The three tables, each operation as a transaction over
    an engine that may fail at any statement; a table invariant over every sequence of operations
    (\<open>db_step\<close>), all-or-nothing writes, exact traffic, and the locales \<open>settings_store\<close> and
    \<open>account_repo\<close> that the service and the handlers stand on.
  \<^item> \<open>Ports\<close>: the search for a free port (\<open>internal/service/ports.go\<close>); it ends for every start.
  \<^item> \<open>XrayConfig\<close>, \<open>XrayManager\<close>: \<open>internal/xray\<close>. Building the configuration and merging the
    editable global sections; the steps of \<open>applyLocked\<close> with rollback, where each call to the
    operating system is answered by an argument.
  \<^item> \<open>Editor\<close>, \<open>Service\<close>, \<open>Runtime\<close>, \<open>ServiceLaws\<close>, \<open>Guarantees\<close>: \<open>internal/service\<close>. The editor's
    transport views, every operation on the account list, the traffic loop and backups. The locales
    \<open>config_applier\<close> (what the manager promises) and \<open>account_runtime\<close> (a repository with an applier)
    carry the proofs that a change happens in the database and in Xray, or in neither, or is
    reported as split; \<open>Guarantees\<close> states this for each operation of the program.
  \<^item> \<open>GlobalConfig\<close>: \<open>internal/service/global_config.go\<close>. Editing the global Xray sections, all or
    nothing; like the change of the API port it is an instance of the locale \<open>param_applier\<close>.
  \<^item> \<open>Panel\<close>, \<open>PanelPromises\<close>: \<open>Handler\<close> with all its routes, and the handlers of accounts, settings and
    the global configuration over sessions, database and manager together (\<open>serve\<close>). Over every
    history (\<open>panel_run\<close>): strangers change nothing, reading requests read, the state stays well-formed.
    The other handlers are an argument.
  \<^item> \<open>Keys\<close>, \<open>Expert\<close>, \<open>Advanced\<close>, \<open>ExpertGuarantees\<close>: \<open>expert.go\<close> and \<open>advanced.go\<close>. The two
    editors of raw documents: a saved form shows what was entered; both are instances of the locale
    \<open>account_editor\<close>, whose lemmas say that only known members of one account change. \<open>Keys\<close>
    holds base64 and X25519.
  \<^item> \<open>Firewall\<close>, \<open>FirewallConflicts\<close>, \<open>FirewallInspect\<close>, \<open>FirewallChange\<close>, \<open>FirewallGuarantees\<close>:
    \<open>internal/firewall/firewall.go\<close>. Port specifications and rich rules, the sweep for conflicting
    rules, the snapshot of the host, changes in the runtime and permanent configuration with rollback.
    The host's tools are a \<open>Tools\<close> argument over an arbitrary host state; \<open>port_tables\<close> and
    \<open>rich_tables\<close> say what \<open>firewall-cmd\<close> documents of its tables.
  \<^item> \<open>FirewallDiscovery\<close>, \<open>FirewallHelper\<close>: \<open>internal/firewall/discovery.go\<close>, \<open>internal/ops/firewall.go\<close>,
    \<open>firewall_rollback.go\<close> and the helper commands of \<open>cmd/xport/manager.go\<close>. Which ports must stay
    open, the privileged helper, and the recovery timers.
  \<^item> \<open>FirewallPending\<close>: \<open>internal/server/firewall_pending.go\<close>, \<open>firewall_audit.go\<close>. The entries and
    the confirmation: nothing is confirmed without the token, the deadline and the announced state
    before and after the timer is stopped.
  \<^item> \<open>FirewallHandlers\<close>: the handlers of \<open>internal/server/firewall.go\<close> that check a request, arm a
    timer, make the change and save the entry. \<open>Digest\<close> holds SHA-256 and the runes of a text.
  \<^item> \<open>FirewallRecovery\<close>, \<open>FirewallPromises\<close>: what a recovery script runs, and that the timers put the
    tables of \<open>firewall-cmd\<close> back; with a removal for which they do not.
  \<^item> \<open>Filepath\<close>, \<open>Units\<close>: \<open>internal/systemdunit/unit.go\<close> and \<open>xport repair\<close>. The texts of both systemd units and the
    detection of the paths in them; a repair puts the units back as they were. \<open>Filepath\<close> holds what
    \<open>path/filepath\<close> does to paths.
  \<^item> \<open>Files\<close>, \<open>System\<close>, \<open>SelfUpdate\<close>, \<open>PanelUpdate\<close>: \<open>internal/ops/system.go\<close>, \<open>internal/selfupdate\<close> and the update
    handlers of \<open>internal/server/extra.go\<close>. Staging a release and the script that restarts with it: under all
    faults there is a binary that runs, new and checked or the former one.

  \<^bold>\<open>Conventions.\<close> Definitions keep Go's names. An operation that changes state returns its result and
  the new state; an early return is an \<open>Inl\<close>. Time, randomness, the engine's faults and the answers
  of the operating system are arguments, a separate one for each use where they may differ. Where Go leaves
  an order open (ranging over a map, \<open>sort.Slice\<close> on equal elements) the order is an argument too.
  Error texts are kept as format string and arguments, not formatted. Lower and upper case are
  those of ASCII.

  \<^bold>\<open>Concurrency.\<close> The service, the Xray manager and the firewall handlers hold a mutex for a whole
  operation, so an operation is one step. The other handlers hold none: \<open>Login.login\<close> is the handler uninterrupted, and only
  \<open>LoginTurns\<close> opens it between its calls. In \<open>serves\<close> a login counts at the moment it creates its
  session, and the other handlers are one step each, as they are in \<open>panel_run\<close>: the requests of such a
  history come one after the other, in any order.

  \<^bold>\<open>The firewall's tools.\<close> \<open>port_tables\<close> and \<open>rich_tables\<close> take of \<open>firewall-cmd\<close> that an exit status of
  success has had the effect and one of failure had none. A client that was killed (at its time
  limit, with its request, by a signal) or printed too much may have changed its table or not.

  \<^bold>\<open>Bounds.\<close> Go's \<open>int\<close> and \<open>int64\<close> are integers with wrap-around written at every addition that
  can overflow (\<open>add64\<close>). No definition needs fuel: the recursions are structural or have a
  measure, and the two loops that retry (the port search, the eviction of the limiter) are bounded by
  the range and by the size of the map.

  \<^bold>\<open>Not modelled.\<close> The bodies of answers, cookies and percent-escapes in paths; the handlers of backups, updates, logs and monitoring; the read view of the firewall; share links; migration of foreign
  databases; the updaters and downloads; the monitoring of the host, the command line
  and backup files. The SQL engine, \<open>systemctl\<close>, \<open>firewall-cmd\<close>, \<open>ufw\<close>, \<open>nft\<close>, \<open>ss\<close> and Xray itself
  are outside the program and appear only through arguments.
\<close>

end
